(* ===== verification/JsText.thy ===== *)
theory JsText
  imports Main "HOL-Library.Sublist"
begin

text \<open>
  Prelude of the development: JavaScript text.  A JavaScript string is a list of code
  units; the development works with the Latin-1 part of it, one \<^typ>\<open>char\<close> per code unit,
  so that \<open>length\<close>, \<open>take\<close> and \<open>drop\<close> count what \<open>length\<close> and \<open>slice\<close> count.  The theory
  holds the string methods the sources use (\<open>trim\<close>, \<open>split\<close>, \<open>join\<close>, \<open>startsWith\<close>,
  \<open>endsWith\<close>, \<open>includes\<close>, \<open>replace\<close> of spaces), the decimal text of a natural number, and the
  lemmas about them that the component theories share.  Facts that carry the proofs
  of text round trips are collected in \<open>text_simps\<close>.
\<close>

named_theorems text_simps

section \<open>Results of code that may throw\<close>

datatype js_error = SyntaxError | JsError string

type_synonym 'a js_result = "js_error + 'a"

section \<open>White space and trimming\<close>

text \<open>White space and line terminators of ECMAScript, as far as they are Latin-1.\<close>

definition js_space :: "char \<Rightarrow> bool" where
  "js_space c \<longleftrightarrow>
     c \<in> set [CHR '' '', CHR 0x09, CHR 0x0A, CHR 0x0B, CHR 0x0C, CHR 0x0D, CHR 0xA0]"

definition trim_start_by :: "('a \<Rightarrow> bool) \<Rightarrow> 'a list \<Rightarrow> 'a list" where
  "trim_start_by ws s = dropWhile ws s"

definition trim_by :: "('a \<Rightarrow> bool) \<Rightarrow> 'a list \<Rightarrow> 'a list" where
  "trim_by ws s = rev (dropWhile ws (rev (dropWhile ws s)))"

abbreviation js_trim :: "string \<Rightarrow> string" where
  "js_trim \<equiv> trim_by js_space"

text \<open>A text that \<open>trim\<close> leaves alone.\<close>

definition trimmed_by :: "('a \<Rightarrow> bool) \<Rightarrow> 'a list \<Rightarrow> bool" where
  "trimmed_by ws s \<longleftrightarrow> (s = [] \<or> (\<not> ws (hd s) \<and> \<not> ws (last s)))"

abbreviation trimmed :: "string \<Rightarrow> bool" where
  "trimmed \<equiv> trimmed_by js_space"

lemma dropWhile_id: "s = [] \<or> \<not> P (hd s) \<Longrightarrow> dropWhile P s = s"
  by (cases s) auto

lemma trim_by_id: "trimmed_by ws s \<Longrightarrow> trim_by ws s = s"
  by (auto simp: trimmed_by_def trim_by_def dropWhile_id hd_rev)

lemma trimmed_trim [simp]: "trimmed_by ws (trim_by ws s)"
proof -
  let ?t = "dropWhile ws s"
  let ?u = "rev (dropWhile ws (rev ?t))"
  have last: "?u \<noteq> [] \<Longrightarrow> \<not> ws (last ?u)"
    by (metis hd_dropWhile hd_rev rev_is_Nil_conv rev_rev_ident)
  have pre: "prefix ?u ?t"
    by (metis suffix_dropWhile suffix_to_prefix rev_rev_ident)
  have hd: "?u \<noteq> [] \<Longrightarrow> hd ?u = hd ?t \<and> ?t \<noteq> []"
    using pre by (metis hd_append2 prefix_def append_is_Nil_conv)
  have "?u \<noteq> [] \<Longrightarrow> \<not> ws (hd ?u)"
    using hd hd_dropWhile [of ws s] by metis
  with last show ?thesis
    unfolding trimmed_by_def trim_by_def by blast
qed

lemma trim_trim [simp]: "trim_by ws (trim_by ws s) = trim_by ws s"
  by (simp add: trim_by_id)

lemma trim_Nil [simp]: "trim_by ws [] = []"
  by (simp add: trim_by_def)

lemma trim_all_spaces: "trim_by ws s = [] \<longleftrightarrow> (\<forall>c \<in> set s. ws c)"
proof -
  have "trim_by ws s = [] \<longleftrightarrow> (\<forall>c \<in> set (dropWhile ws s). ws c)"
    by (simp add: trim_by_def)
  also have "\<dots> \<longleftrightarrow> (\<forall>c \<in> set s. ws c)"
    by (induction s) auto
  finally show ?thesis .
qed

lemma set_trim_subset: "set (trim_by ws s) \<subseteq> set s"
proof -
  have "set (rev (dropWhile ws (rev t))) \<subseteq> set t" for t :: "'a list"
    by (metis set_dropWhileD set_rev subsetI)
  then show ?thesis
    unfolding trim_by_def by (meson set_dropWhileD subset_eq)
qed

section \<open>Prefixes, suffixes, searching\<close>

fun strip_prefix :: "'a list \<Rightarrow> 'a list \<Rightarrow> 'a list option" where
  "strip_prefix [] s = Some s"
| "strip_prefix (p # ps) [] = None"
| "strip_prefix (p # ps) (c # cs) = (if p = c then strip_prefix ps cs else None)"

lemma strip_prefix_append [simp, text_simps]: "strip_prefix p (p @ s) = Some s"
  by (induction p) auto

lemma strip_prefix_self [simp, text_simps]: "strip_prefix p p = Some []"
  using strip_prefix_append [of p "[]"] by simp

lemma strip_prefix_Some: "strip_prefix p s = Some r \<longleftrightarrow> s = p @ r"
  by (induction p s rule: strip_prefix.induct) auto

definition starts_with :: "'a list \<Rightarrow> 'a list \<Rightarrow> bool" where
  "starts_with p s \<longleftrightarrow> strip_prefix p s \<noteq> None"

definition ends_with :: "'a list \<Rightarrow> 'a list \<Rightarrow> bool" where
  "ends_with p s \<longleftrightarrow> starts_with (rev p) (rev s)"

definition strip_suffix :: "'a list \<Rightarrow> 'a list \<Rightarrow> 'a list option" where
  "strip_suffix p s = map_option rev (strip_prefix (rev p) (rev s))"

lemma strip_suffix_append [simp, text_simps]: "strip_suffix p (s @ p) = Some s"
  by (simp add: strip_suffix_def)

lemma starts_with_iff: "starts_with p s \<longleftrightarrow> prefix p s"
  by (auto simp: starts_with_def prefix_def strip_prefix_Some)

lemma ends_with_iff: "ends_with p s \<longleftrightarrow> suffix p s"
  by (simp add: ends_with_def starts_with_iff suffix_to_prefix)

lemma starts_with_Cons [simp]:
  "starts_with (p # ps) (c # cs) \<longleftrightarrow> p = c \<and> starts_with ps cs"
  by (simp add: starts_with_def)

lemma starts_with_Nil [simp]: "starts_with [] s"
  by (simp add: starts_with_def)

lemma starts_with_Nil2 [simp]: "starts_with (p # ps) [] \<longleftrightarrow> False"
  by (simp add: starts_with_def)

fun js_includes :: "'a list \<Rightarrow> 'a list \<Rightarrow> bool" where
  "js_includes sub [] \<longleftrightarrow> sub = []"
| "js_includes sub (c # cs) \<longleftrightarrow> starts_with sub (c # cs) \<or> js_includes sub cs"

lemma includes_iff: "js_includes sub s \<longleftrightarrow> sublist sub s"
proof (induction s)
  case Nil
  then show ?case by simp
next
  case (Cons c cs)
  then show ?case by (auto simp: starts_with_iff sublist_Cons_right)
qed

section \<open>Joining and splitting\<close>

fun join :: "'a list \<Rightarrow> 'a list list \<Rightarrow> 'a list" where
  "join sep [] = []"
| "join sep [x] = x"
| "join sep (x # y # xs) = x @ sep @ join sep (y # xs)"

lemma join_Cons: "join sep (x # xs) = (if xs = [] then x else x @ sep @ join sep xs)"
  by (cases xs) auto

text \<open>\<open>s.split(c)\<close> for a separator of one code unit: always at least one part.\<close>

fun split_on :: "('a \<Rightarrow> bool) \<Rightarrow> 'a list \<Rightarrow> 'a list list" where
  "split_on p [] = [[]]"
| "split_on p (c # cs) =
     (if p c then [] # split_on p cs
      else (case split_on p cs of [] \<Rightarrow> [[c]] | x # xs \<Rightarrow> (c # x) # xs))"

lemma split_on_nonempty [simp]: "split_on p s \<noteq> []"
  by (cases s) (auto split: list.splits)

lemma split_on_clean: "(\<And>c. c \<in> set s \<Longrightarrow> \<not> p c) \<Longrightarrow> split_on p s = [s]"
  by (induction s) auto

lemma split_on_append:
  "(\<And>c. c \<in> set x \<Longrightarrow> \<not> p c) \<Longrightarrow> p d \<Longrightarrow> split_on p (x @ d # s) = x # split_on p s"
  by (induction x) auto

lemma split_on_join:
  assumes "p d" and "xs \<noteq> []" and "\<forall>x \<in> set xs. \<forall>c \<in> set x. \<not> p c"
  shows "split_on p (join [d] xs) = xs"
  using assms(2,3)
proof (induction xs)
  case Nil
  then show ?case by simp
next
  case (Cons x xs)
  show ?case
  proof (cases xs)
    case Nil
    with Cons.prems show ?thesis by (auto intro: split_on_clean)
  next
    case (Cons y ys)
    with Cons.IH Cons.prems assms(1) show ?thesis
      by (simp add: split_on_append)
  qed
qed

lemma split_on_no_sep: "x \<in> set (split_on p s) \<Longrightarrow> c \<in> set x \<Longrightarrow> \<not> p c"
proof (induction s arbitrary: x)
  case Nil
  then show ?case by simp
next
  case (Cons d s)
  obtain y ys where ys: "split_on p s = y # ys"
    by (cases "split_on p s") auto
  with Cons.prems Cons.IH [of y] Cons.IH [of x] show ?case
    by (auto split: if_splits)
qed

text \<open>\<open>filter(Boolean)\<close> on strings keeps the non-empty ones.\<close>

definition filter_nonempty :: "'a list list \<Rightarrow> 'a list list" where
  "filter_nonempty xs = filter (\<lambda>x. x \<noteq> []) xs"

lemma filter_nonempty_id: "\<forall>x \<in> set xs. x \<noteq> [] \<Longrightarrow> filter_nonempty xs = xs"
  by (simp add: filter_nonempty_def)

text \<open>\<open>[...new Set(xs)]\<close>: the first occurrence of each value, in order.\<close>

fun unique_from :: "'a list \<Rightarrow> 'a list \<Rightarrow> 'a list" where
  "unique_from seen [] = []"
| "unique_from seen (x # xs) =
     (if List.member seen x then unique_from seen xs else x # unique_from (x # seen) xs)"

definition js_unique :: "'a list \<Rightarrow> 'a list" where
  "js_unique xs = unique_from [] xs"

lemma unique_from_props:
  "set (unique_from seen xs) = set xs - set seen \<and> distinct (unique_from seen xs)"
  by (induction seen xs rule: unique_from.induct) auto

lemma set_js_unique [simp]: "set (js_unique xs) = set xs"
  by (simp add: js_unique_def unique_from_props)

lemma distinct_js_unique [simp]: "distinct (js_unique xs)"
  by (simp add: js_unique_def unique_from_props)

section \<open>Digits\<close>

definition is_digit :: "char \<Rightarrow> bool" where
  "is_digit c \<longleftrightarrow> c \<in> set ''0123456789''"

definition digit_val :: "char \<Rightarrow> nat" where
  "digit_val c = of_char c - 48"

definition digit_char :: "nat \<Rightarrow> char" where
  "digit_char d = ''0123456789'' ! d"

text \<open>The decimal text of a non-negative integer, and \<open>Number.parseInt(s, 10)\<close> of a text of
  decimal digits.  Both are over \<^typ>\<open>int\<close>, where the simplifier computes in binary.\<close>

fun show_int :: "int \<Rightarrow> string" where
  "show_int n = (if n < 10 then [digit_char (nat n)]
     else show_int (n div 10) @ [digit_char (nat (n mod 10))])"

declare show_int.simps [simp del]

definition show_nat :: "nat \<Rightarrow> string" where
  "show_nat n = show_int (int n)"

definition read_int :: "string \<Rightarrow> int" where
  "read_int s = foldl (\<lambda>n c. 10 * n + int (digit_val c)) 0 s"

lemma less_10_cases: "(d::nat) < 10 \<Longrightarrow>
  d = 0 \<or> d = 1 \<or> d = 2 \<or> d = 3 \<or> d = 4 \<or> d = 5 \<or> d = 6 \<or> d = 7 \<or> d = 8 \<or> d = 9"
  by auto

lemma is_digit_digit_char [simp]: "d < 10 \<Longrightarrow> is_digit (digit_char d)"
  by (drule less_10_cases) (elim disjE; simp add: is_digit_def digit_char_def)

lemma digit_val_digit_char [simp]: "d < 10 \<Longrightarrow> digit_val (digit_char d) = d"
  by (drule less_10_cases) (elim disjE; simp add: digit_val_def digit_char_def)

lemma show_int_digits: "0 \<le> n \<Longrightarrow> c \<in> set (show_int n) \<Longrightarrow> is_digit c"
proof (induction n rule: show_int.induct)
  case (1 n)
  then show ?case
    by (cases "n < 10") (auto simp: show_int.simps [of n] nat_less_iff)
qed

lemma show_int_nonempty [simp]: "show_int n \<noteq> []"
  by (subst show_int.simps) simp

lemma show_nat_digits: "c \<in> set (show_nat n) \<Longrightarrow> is_digit c"
  using show_int_digits [of "int n" c] by (simp add: show_nat_def)

lemma show_nat_nonempty [simp]: "show_nat n \<noteq> []"
  by (simp add: show_nat_def)

lemma read_show_int [simp]: "0 \<le> n \<Longrightarrow> read_int (show_int n) = n"
proof (induction n rule: show_int.induct)
  case (1 n)
  then show ?case
    by (cases "n < 10") (simp_all add: show_int.simps [of n] read_int_def nat_less_iff)
qed

lemma read_show_nat [simp]: "read_int (show_nat n) = int n"
  by (simp add: show_nat_def)

lemma is_digit_not_space: "is_digit c \<Longrightarrow> \<not> js_space c"
  by (auto simp: is_digit_def js_space_def)

text \<open>\<open>s.toLowerCase()\<close> on Latin-1 code units.\<close>

definition lower_char :: "char \<Rightarrow> char" where
  "lower_char c =
     (let n = of_char c :: nat
      in if 65 \<le> n \<and> n \<le> 90 \<or> 192 \<le> n \<and> n \<le> 222 \<and> n \<noteq> 215 then char_of (n + 32) else c)"

definition js_lower :: "string \<Rightarrow> string" where
  "js_lower s = map lower_char s"

text \<open>\<open>s.toUpperCase()\<close>.  The capitals of the micro sign and of \<open>y\<close> with diaeresis are outside
  Latin-1; these two characters are kept.\<close>

definition upper_char :: "char \<Rightarrow> string" where
  "upper_char c =
     (let n = of_char c :: nat
      in if n = 223 then ''SS''
         else if 97 \<le> n \<and> n \<le> 122 \<or> 224 \<le> n \<and> n \<le> 254 \<and> n \<noteq> 247 then [char_of (n - 32)]
         else [c])"

definition js_upper :: "string \<Rightarrow> string" where
  "js_upper s = concat (map upper_char s)"

text \<open>\<open>s.padStart(n, c)\<close>\<close>

definition pad_start :: "nat \<Rightarrow> char \<Rightarrow> string \<Rightarrow> string" where
  "pad_start n c s = replicate (n - length s) c @ s"

section \<open>Sorting\<close>

text \<open>\<open>xs.sort(cmp)\<close> with \<open>le a b\<close> for \<open>cmp(a, b) <= 0\<close>: the sort is stable.\<close>

fun insert_by :: "('a \<Rightarrow> 'a \<Rightarrow> bool) \<Rightarrow> 'a \<Rightarrow> 'a list \<Rightarrow> 'a list" where
  "insert_by le x [] = [x]"
| "insert_by le x (y # ys) = (if le x y then x # y # ys else y # insert_by le x ys)"

fun sort_by :: "('a \<Rightarrow> 'a \<Rightarrow> bool) \<Rightarrow> 'a list \<Rightarrow> 'a list" where
  "sort_by le [] = []"
| "sort_by le (x # xs) = insert_by le x (sort_by le xs)"

text \<open>What a comparator promises, and what the sort then gives.\<close>

locale comparator =
  fixes le :: "'a \<Rightarrow> 'a \<Rightarrow> bool"
  assumes le_total: "le a b \<or> le b a"
    and le_trans: "le a b \<Longrightarrow> le b c \<Longrightarrow> le a c"
begin

lemma sorted_insert_by: "sorted_wrt le xs \<Longrightarrow> sorted_wrt le (insert_by le x xs)"
proof (induction xs)
  case (Cons y ys)
  have s: "set (insert_by le x ys) = insert x (set ys)" for ys by (induction ys) auto
  from Cons show ?case
    using le_total [of x y] by (auto simp: s intro: le_trans)
qed simp

lemma sorted_sort_by: "sorted_wrt le (sort_by le xs)"
  by (induction xs) (simp_all add: sorted_insert_by)

end

lemma set_insert_by [simp]: "set (insert_by le x xs) = insert x (set xs)"
  by (induction xs) auto

lemma set_sort_by [simp]: "set (sort_by le xs) = set xs"
  by (induction xs) simp_all

lemma sort_by_cong:
  "(\<And>a b. a \<in> set xs \<Longrightarrow> b \<in> set xs \<Longrightarrow> le a b \<longleftrightarrow> le' a b) \<Longrightarrow> sort_by le xs = sort_by le' xs"
proof (induction xs)
  case (Cons x xs)
  have "insert_by le x ys = insert_by le' x ys" if "set ys \<subseteq> set xs" for ys
    using that Cons.prems by (induction ys) auto
  with Cons show ?case by simp
qed simp

lemma length_insert_by [simp]: "length (insert_by le x xs) = Suc (length xs)"
  by (induction xs) simp_all

lemma length_sort_by [simp]: "length (sort_by le xs) = length xs"
  by (induction xs) simp_all

lemma distinct_map_insert_by:
  "distinct (map f (insert_by le x xs)) \<longleftrightarrow> f x \<notin> f ` set xs \<and> distinct (map f xs)"
  by (induction xs) auto

lemma distinct_map_sort_by [simp]: "distinct (map f (sort_by le xs)) \<longleftrightarrow> distinct (map f xs)"
  by (induction xs) (simp_all add: distinct_map_insert_by)

section \<open>Searching a list\<close>

text \<open>\<open>list.findIndex(p)\<close>\<close>

fun find_index :: "('a \<Rightarrow> bool) \<Rightarrow> 'a list \<Rightarrow> nat option" where
  "find_index p [] = None"
| "find_index p (x # xs) = (if p x then Some 0 else map_option Suc (find_index p xs))"

lemma find_index_split:
  assumes "find_index p xs = Some i"
  shows "i < length xs \<and> p (xs ! i) \<and> (\<forall>j < i. \<not> p (xs ! j))"
  using assms
proof (induction xs arbitrary: i)
  case (Cons x xs)
  then show ?case
    by (cases i) (auto simp: less_Suc_eq_0_disj split: if_splits)
qed simp

lemma find_index_None: "find_index p xs = None \<longleftrightarrow> (\<forall>x \<in> set xs. \<not> p x)"
  by (induction xs) auto

lemma find_index_SomeE:
  assumes "find_index p xs = Some i"
  obtains us x vs where "xs = us @ x # vs" and "length us = i" and "p x" and "\<forall>u \<in> set us. \<not> p u"
proof
  note s = find_index_split [OF assms]
  show "xs = take i xs @ xs ! i # drop (Suc i) xs" using s by (simp add: id_take_nth_drop)
  show "length (take i xs) = i" "p (xs ! i)" using s by simp_all
  show "\<forall>u \<in> set (take i xs). \<not> p u" using s by (auto simp: in_set_conv_nth)
qed

end
