(* ===== verification/JsNumber.thy ===== *)
theory JsNumber
  imports Complex_Main JsText
begin

text \<open>
  JavaScript numbers: IEEE 754 binary64 values with their rounding, the conversions
  between numbers and text (\<open>Number(s)\<close>, \<open>parseFloat(s)\<close>, \<open>String(x)\<close>, \<open>x.toFixed(n)\<close>)
  and the arithmetic the sources use.  A finite number is the rational it denotes;
  every operation computes the exact result and rounds it to the nearest double, ties
  to even, as the language does.  The two zeros are one value here: only a division by
  zero tells them apart (by the sign of an infinite result), and the sources never look
  at that sign.
\<close>

datatype jsnum = NaN | PosInf | NegInf | Fin rat

section \<open>Rounding to binary64\<close>

fun bit_len :: "int \<Rightarrow> int" where
  "bit_len n = (if n \<le> 0 then 0 else bit_len (n div 2) + 1)"

declare bit_len.simps [simp del]

text \<open>\<open>b^e\<close> by repeated squaring, and powers of two and ten with any integer exponent.\<close>

fun int_pow :: "int \<Rightarrow> int \<Rightarrow> int" where
  "int_pow b e =
     (if e \<le> 0 then 1
      else if even e then (let h = int_pow b (e div 2) in h * h)
      else b * int_pow b (e - 1))"

declare int_pow.simps [simp del]

lemma int_pow: "int_pow b e = b ^ nat e"
proof (induction b e rule: int_pow.induct)
  case (1 b e)
  consider "e \<le> 0" | "0 < e" "even e" | "0 < e" "odd e" by linarith
  then show ?case
  proof cases
    case 1
    then show ?thesis by (simp add: int_pow.simps [of b e])
  next
    case 2
    then have "nat e = nat (e div 2) + nat (e div 2)" by (auto elim: evenE)
    with 2 "1.IH"(1) show ?thesis
      by (simp add: int_pow.simps [of b e] power_add Let_def)
  next
    case 3
    then have "nat e = Suc (nat (e - 1))" by simp
    with 3 "1.IH"(2) show ?thesis by (simp add: int_pow.simps [of b e])
  qed
qed

definition base_pow :: "int \<Rightarrow> int \<Rightarrow> rat" where
  "base_pow b e = (if 0 \<le> e then of_int (int_pow b e) else 1 / of_int (int_pow b (- e)))"

abbreviation pow2 :: "int \<Rightarrow> rat" where
  "pow2 \<equiv> base_pow 2"

definition round_half_even :: "rat \<Rightarrow> int" where
  "round_half_even x =
     (let f = floor x; r = x - of_int f
      in if r < 1/2 then f else if 1/2 < r then f + 1 else if even f then f else f + 1)"

text \<open>The exponent \<open>e\<close> with \<open>2^e \<le> a < 2^(e+1)\<close>, for a positive rational.\<close>

definition binary_exponent :: "rat \<Rightarrow> int" where
  "binary_exponent a =
     (let (p, q) = quotient_of a; e = bit_len p - bit_len q
      in if a < pow2 e then e - 1 else e)"

definition fl :: "rat \<Rightarrow> jsnum" where
  "fl x =
     (if x = 0 then Fin 0
      else let a = \<bar>x\<bar>;
               u = max (binary_exponent a - 52) (- 1074);
               y = of_int (round_half_even (a / pow2 u)) * pow2 u
           in if pow2 1024 \<le> y then (if 0 < x then PosInf else NegInf)
              else Fin (if 0 < x then y else - y))"

definition is_double :: "rat \<Rightarrow> bool" where
  "is_double x \<longleftrightarrow> fl x = Fin x"

lemma fl_0 [simp]: "fl 0 = Fin 0"
  by (simp add: fl_def)

lemma is_double_0 [simp]: "is_double 0"
  by (simp add: is_double_def)

lemma fl_not_NaN [simp]: "fl x \<noteq> NaN"
  by (simp add: fl_def Let_def)

text \<open>Rounding is symmetric, so negation never rounds.\<close>

fun js_neg :: "jsnum \<Rightarrow> jsnum" where
  "js_neg NaN = NaN"
| "js_neg PosInf = NegInf"
| "js_neg NegInf = PosInf"
| "js_neg (Fin a) = Fin (- a)"

lemma fl_neg: "fl (- x) = js_neg (fl x)"
  by (auto simp: fl_def Let_def)

section \<open>Arithmetic and comparison\<close>

definition is_finite_num :: "jsnum \<Rightarrow> bool" where
  "is_finite_num x \<longleftrightarrow> (case x of Fin _ \<Rightarrow> True | _ \<Rightarrow> False)"

definition is_integer_num :: "jsnum \<Rightarrow> bool" where
  "is_integer_num x \<longleftrightarrow> (case x of Fin a \<Rightarrow> of_int (floor a) = a | _ \<Rightarrow> False)"

definition js_sign :: "rat \<Rightarrow> jsnum" where
  "js_sign s = (if s = 0 then NaN else if 0 < s then PosInf else NegInf)"

fun js_add :: "jsnum \<Rightarrow> jsnum \<Rightarrow> jsnum" where
  "js_add (Fin a) (Fin b) = fl (a + b)"
| "js_add NaN _ = NaN"
| "js_add _ NaN = NaN"
| "js_add PosInf NegInf = NaN"
| "js_add NegInf PosInf = NaN"
| "js_add PosInf _ = PosInf"
| "js_add NegInf _ = NegInf"
| "js_add (Fin _) y = y"

definition js_sub :: "jsnum \<Rightarrow> jsnum \<Rightarrow> jsnum" where
  "js_sub x y = js_add x (js_neg y)"

fun num_sign :: "jsnum \<Rightarrow> rat" where
  "num_sign NaN = 0"
| "num_sign PosInf = 1"
| "num_sign NegInf = - 1"
| "num_sign (Fin a) = sgn a"

fun js_mul :: "jsnum \<Rightarrow> jsnum \<Rightarrow> jsnum" where
  "js_mul (Fin a) (Fin b) = fl (a * b)"
| "js_mul x y = js_sign (num_sign x * num_sign y)"

fun js_div :: "jsnum \<Rightarrow> jsnum \<Rightarrow> jsnum" where
  "js_div (Fin a) (Fin b) = (if b = 0 then js_sign (sgn a) else fl (a / b))"
| "js_div NaN _ = NaN"
| "js_div _ NaN = NaN"
| "js_div (Fin _) _ = Fin 0"
| "js_div x (Fin b) = js_sign (num_sign x * (if b = 0 then 1 else sgn b))"
| "js_div _ _ = NaN"

fun js_less :: "jsnum \<Rightarrow> jsnum \<Rightarrow> bool" where
  "js_less NaN _ \<longleftrightarrow> False"
| "js_less _ NaN \<longleftrightarrow> False"
| "js_less (Fin a) (Fin b) \<longleftrightarrow> a < b"
| "js_less NegInf y \<longleftrightarrow> y \<noteq> NegInf"
| "js_less _ NegInf \<longleftrightarrow> False"
| "js_less PosInf _ \<longleftrightarrow> False"
| "js_less _ PosInf \<longleftrightarrow> True"

text \<open>\<open>===\<close> on numbers.\<close>

definition js_num_eq :: "jsnum \<Rightarrow> jsnum \<Rightarrow> bool" where
  "js_num_eq x y \<longleftrightarrow> x \<noteq> NaN \<and> x = y"

definition js_le :: "jsnum \<Rightarrow> jsnum \<Rightarrow> bool" where
  "js_le x y \<longleftrightarrow> js_less x y \<or> js_num_eq x y"

lemma js_le_Fin [simp]: "js_le (Fin a) (Fin b) \<longleftrightarrow> a \<le> b"
  by (auto simp: js_le_def js_num_eq_def)

text \<open>\<open>Math.floor\<close>, \<open>Math.round\<close>, \<open>Math.max\<close>, \<open>Math.min\<close> and \<open>%\<close>, which never round.\<close>

fun js_floor :: "jsnum \<Rightarrow> jsnum" where
  "js_floor (Fin a) = Fin (of_int \<lfloor>a\<rfloor>)"
| "js_floor x = x"

fun js_round :: "jsnum \<Rightarrow> jsnum" where
  "js_round (Fin a) = Fin (of_int \<lfloor>a + 1/2\<rfloor>)"
| "js_round x = x"

definition js_max :: "jsnum \<Rightarrow> jsnum \<Rightarrow> jsnum" where
  "js_max x y = (if x = NaN \<or> y = NaN then NaN else if js_less x y then y else x)"

definition js_min :: "jsnum \<Rightarrow> jsnum \<Rightarrow> jsnum" where
  "js_min x y = (if x = NaN \<or> y = NaN then NaN else if js_less x y then x else y)"

fun js_mod :: "jsnum \<Rightarrow> jsnum \<Rightarrow> jsnum" where
  "js_mod (Fin a) (Fin b) =
     (if b = 0 then NaN
      else let r = \<bar>a\<bar> - \<bar>b\<bar> * of_int \<lfloor>\<bar>a\<bar> / \<bar>b\<bar>\<rfloor> in Fin (if a < 0 then - r else r))"
| "js_mod (Fin a) PosInf = Fin a"
| "js_mod (Fin a) NegInf = Fin a"
| "js_mod x y = NaN"

section \<open>Text to number\<close>

abbreviation pow10 :: "int \<Rightarrow> rat" where
  "pow10 \<equiv> base_pow 10"

definition take_digits :: "string \<Rightarrow> string \<times> string" where
  "take_digits s = (takeWhile is_digit s, dropWhile is_digit s)"

text \<open>An exponent part \<open>e+dd\<close>, when the text starts with one; otherwise exponent 0 and
  nothing consumed.\<close>

definition take_exponent :: "string \<Rightarrow> int \<times> string" where
  "take_exponent s =
     (case s of
        c # r \<Rightarrow>
          if c = CHR ''e'' \<or> c = CHR ''E'' then
            (let (neg, r') = (case r of
                  d # r'' \<Rightarrow> if d = CHR ''-'' then (True, r'')
                             else if d = CHR ''+'' then (False, r'') else (False, r)
                | [] \<Rightarrow> (False, r));
                 (ds, rest) = take_digits r'
             in if ds = [] then (0, s)
                else (if neg then - read_int ds else read_int ds, rest))
          else (0, s)
      | [] \<Rightarrow> (0, s))"

text \<open>The longest decimal literal without sign at the start of a text, and the rest.\<close>

definition take_decimal :: "string \<Rightarrow> (rat \<times> string) option" where
  "take_decimal s =
     (let (ip, r) = take_digits s;
          (fp, r') = (case r of
              c # r1 \<Rightarrow> if c = CHR ''.'' \<and> (ip \<noteq> [] \<or> fst (take_digits r1) \<noteq> [])
                         then take_digits r1 else ([], r)
            | [] \<Rightarrow> ([], r))
      in if ip = [] \<and> fp = [] then None
         else (let (e, rest) = take_exponent r'
               in Some (of_int (read_int (ip @ fp)) * pow10 (e - int (length fp)), rest)))"

definition take_unsigned :: "string \<Rightarrow> (jsnum \<times> string) option" where
  "take_unsigned s =
     (case strip_prefix ''Infinity'' s of
        Some r \<Rightarrow> Some (PosInf, r)
      | None \<Rightarrow> map_option (\<lambda>(x, r). (fl x, r)) (take_decimal s))"

definition take_number :: "string \<Rightarrow> (jsnum \<times> string) option" where
  "take_number s =
     (case s of
        c # r \<Rightarrow>
          if c = CHR ''-'' then map_option (\<lambda>(x, q). (js_neg x, q)) (take_unsigned r)
          else if c = CHR ''+'' then take_unsigned r
          else take_unsigned s
      | [] \<Rightarrow> None)"

definition digit_in_base :: "nat \<Rightarrow> char \<Rightarrow> nat option" where
  "digit_in_base b c =
     (let v = (if is_digit c then digit_val c
               else if c \<in> set ''abcdef'' then of_char c - 87
               else if c \<in> set ''ABCDEF'' then of_char c - 55
               else b)
      in if v < b then Some v else None)"

fun read_base :: "nat \<Rightarrow> int \<Rightarrow> string \<Rightarrow> int option" where
  "read_base b n [] = Some n"
| "read_base b n (c # cs) =
     (case digit_in_base b c of None \<Rightarrow> None | Some v \<Rightarrow> read_base b (n * int b + int v) cs)"

definition read_prefixed :: "nat \<Rightarrow> string \<Rightarrow> jsnum" where
  "read_prefixed b s =
     (if s = [] then NaN
      else case read_base b 0 s of None \<Rightarrow> NaN | Some n \<Rightarrow> fl (of_int n))"

text \<open>\<open>Number(s)\<close>\<close>

definition number_of_text :: "string \<Rightarrow> jsnum" where
  "number_of_text s =
     (let t = js_trim s
      in if t = [] then Fin 0
         else case strip_prefix ''0x'' t of Some r \<Rightarrow> read_prefixed 16 r | None \<Rightarrow>
              case strip_prefix ''0X'' t of Some r \<Rightarrow> read_prefixed 16 r | None \<Rightarrow>
              case strip_prefix ''0o'' t of Some r \<Rightarrow> read_prefixed 8 r | None \<Rightarrow>
              case strip_prefix ''0O'' t of Some r \<Rightarrow> read_prefixed 8 r | None \<Rightarrow>
              case strip_prefix ''0b'' t of Some r \<Rightarrow> read_prefixed 2 r | None \<Rightarrow>
              case strip_prefix ''0B'' t of Some r \<Rightarrow> read_prefixed 2 r | None \<Rightarrow>
              (case take_number t of Some (x, []) \<Rightarrow> x | _ \<Rightarrow> NaN))"

text \<open>\<open>parseFloat(s)\<close>\<close>

definition parse_float :: "string \<Rightarrow> jsnum" where
  "parse_float s =
     (case take_number (trim_start_by js_space s) of Some (x, _) \<Rightarrow> x | None \<Rightarrow> NaN)"

section \<open>Number to text\<close>

text \<open>The decimal exponent \<open>n\<close> with \<open>10^(n-1) \<le> x < 10^n\<close>, for a positive double.\<close>

fun small_exponent :: "int \<Rightarrow> rat \<Rightarrow> int" where
  "small_exponent k x =
     (if k \<le> 0 \<or> 1 \<le> 10 * x then 0 else small_exponent (k - 1) (10 * x) - 1)"

declare small_exponent.simps [simp del]

definition decimal_exponent :: "rat \<Rightarrow> int" where
  "decimal_exponent x =
     (if 1 \<le> x then int (length (show_int (floor x))) else small_exponent 400 x)"

text \<open>The shortest digits that read back as \<open>x\<close>: for \<open>k = 1, 2, \<dots>\<close> the two \<open>k\<close>-digit
  neighbours of \<open>x\<close>, the nearer first.  Seventeen digits always suffice for a double.\<close>

fun shortest_from :: "nat \<Rightarrow> nat \<Rightarrow> int \<Rightarrow> rat \<Rightarrow> int \<times> nat" where
  "shortest_from 0 k n x = (floor (x / pow10 (n - int k)), k)"
| "shortest_from (Suc m) k n x =
     (let s = floor (x / pow10 (n - int k));
          lo = of_int s * pow10 (n - int k);
          hi = of_int (s + 1) * pow10 (n - int k);
          okl = (fl lo = Fin x); okh = (fl hi = Fin x)
      in if okl \<and> (\<not> okh \<or> x - lo \<le> hi - x) then (s, k)
         else if okh then (s + 1, k)
         else shortest_from m (Suc k) n x)"

definition zeros :: "nat \<Rightarrow> string" where
  "zeros n = replicate n (CHR ''0'')"

definition show_exponent :: "int \<Rightarrow> string" where
  "show_exponent e =
     (if e < 0 then ''e-'' @ show_int (- e) else ''e+'' @ show_int e)"

text \<open>Layout of the digits \<open>ds\<close> with decimal exponent \<open>n\<close>.\<close>

definition layout_digits :: "string \<Rightarrow> int \<Rightarrow> string" where
  "layout_digits ds n =
     (let k = int (length ds)
      in if k \<le> n \<and> n \<le> 21 then ds @ zeros (nat (n - k))
         else if 0 < n \<and> n \<le> 21 then take (nat n) ds @ ''.'' @ drop (nat n) ds
         else if - 6 < n \<and> n \<le> 0 then ''0.'' @ zeros (nat (- n)) @ ds
         else if k = 1 then ds @ show_exponent (n - 1)
         else take 1 ds @ ''.'' @ drop 1 ds @ show_exponent (n - 1))"

definition text_of_pos :: "rat \<Rightarrow> string" where
  "text_of_pos x =
     (let n = decimal_exponent x;
          (s, k) = shortest_from 16 1 n x;
          ds = show_int s
      in if length ds = k then layout_digits ds n
         else layout_digits (take 1 ds) (n + 1))"

text \<open>\<open>String(x)\<close>\<close>

fun text_of_number :: "jsnum \<Rightarrow> string" where
  "text_of_number NaN = ''NaN''"
| "text_of_number PosInf = ''Infinity''"
| "text_of_number NegInf = ''-Infinity''"
| "text_of_number (Fin x) =
     (if x = 0 then ''0'' else if 0 < x then text_of_pos x else ''-'' @ text_of_pos (- x))"

text \<open>\<open>x.toFixed(f)\<close>\<close>

definition fixed_digits :: "nat \<Rightarrow> rat \<Rightarrow> string" where
  "fixed_digits f a =
     (let ds = show_int (floor (a * pow10 (int f) + 1/2));
          pad = zeros (Suc f - length ds) @ ds;
          cut = length pad - f
      in if f = 0 then ds else take cut pad @ ''.'' @ drop cut pad)"

definition to_fixed :: "nat \<Rightarrow> jsnum \<Rightarrow> string" where
  "to_fixed f x =
     (case x of
        Fin a \<Rightarrow> if pow10 21 \<le> \<bar>a\<bar> then text_of_number x
                 else if a < 0 then ''-'' @ fixed_digits f (- a) else fixed_digits f a
      | _ \<Rightarrow> text_of_number x)"

lemma text_of_number_nat_like:
  "text_of_number NaN \<noteq> []" "text_of_number PosInf \<noteq> []" "text_of_number NegInf \<noteq> []"
  by simp_all

lemma layout_digits_nonempty: "ds \<noteq> [] \<Longrightarrow> layout_digits ds n \<noteq> []"
  by (simp add: layout_digits_def Let_def)

lemma text_of_number_nonempty [simp]: "text_of_number x \<noteq> []"
proof -
  have "take 1 (show_int m) \<noteq> []" for m by simp
  then have "text_of_pos a \<noteq> []" for a
    by (auto simp: text_of_pos_def Let_def layout_digits_nonempty split: prod.splits)
  then show ?thesis by (cases x) auto
qed

end
