(* ===== verification/JsValue.thy ===== *)
theory JsValue
  imports JsNumber
begin

text \<open>
  JavaScript values as the sources handle them: the JSON part of the language plus
  \<open>undefined\<close>, with the coercions (\<open>String(v)\<close>, \<open>Number(v)\<close>, \<open>Boolean(v)\<close>), plain objects
  with their key order, and \<open>JSON.parse\<close> / \<open>JSON.stringify\<close>.  Two interfaces are stated as
  locales and interpreted here: a dictionary (what a lookup returns after a store or a
  removal) and a text codec (a decoder undoes an encoder, whatever text follows).
\<close>

datatype jsval =
    JUndef
  | JNull
  | JBool bool
  | JNum jsnum
  | JStr string
  | JArr "jsval list"
  | JObj "(string \<times> jsval) list"

section \<open>Coercions\<close>

fun truthy :: "jsval \<Rightarrow> bool" where
  "truthy JUndef \<longleftrightarrow> False"
| "truthy JNull \<longleftrightarrow> False"
| "truthy (JBool b) \<longleftrightarrow> b"
| "truthy (JNum x) \<longleftrightarrow> x \<noteq> NaN \<and> x \<noteq> Fin 0"
| "truthy (JStr s) \<longleftrightarrow> s \<noteq> []"
| "truthy (JArr _) \<longleftrightarrow> True"
| "truthy (JObj _) \<longleftrightarrow> True"

fun is_nullish :: "jsval \<Rightarrow> bool" where
  "is_nullish JUndef \<longleftrightarrow> True"
| "is_nullish JNull \<longleftrightarrow> True"
| "is_nullish _ \<longleftrightarrow> False"

text \<open>\<open>a || b\<close> and \<open>a ?? b\<close> on values.\<close>

definition js_or :: "jsval \<Rightarrow> jsval \<Rightarrow> jsval" where
  "js_or a b = (if truthy a then a else b)"

definition js_coalesce :: "jsval \<Rightarrow> jsval \<Rightarrow> jsval" where
  "js_coalesce a b = (if is_nullish a then b else a)"

text \<open>\<open>String(v)\<close>.  An array joins its elements with commas, \<open>null\<close> and \<open>undefined\<close> as nothing.\<close>

fun text_of_value :: "jsval \<Rightarrow> string" where
  "text_of_value JUndef = ''undefined''"
| "text_of_value JNull = ''null''"
| "text_of_value (JBool b) = (if b then ''true'' else ''false'')"
| "text_of_value (JNum x) = text_of_number x"
| "text_of_value (JStr s) = s"
| "text_of_value (JArr vs) =
     join '','' (map (\<lambda>v. if is_nullish v then [] else text_of_value v) vs)"
| "text_of_value (JObj _) = ''[object Object]''"

text \<open>\<open>Number(v)\<close>\<close>

definition number_of_value :: "jsval \<Rightarrow> jsnum" where
  "number_of_value v =
     (case v of
        JUndef \<Rightarrow> NaN
      | JNull \<Rightarrow> Fin 0
      | JBool b \<Rightarrow> Fin (if b then 1 else 0)
      | JNum x \<Rightarrow> x
      | JStr s \<Rightarrow> number_of_text s
      | JArr _ \<Rightarrow> number_of_text (text_of_value v)
      | JObj _ \<Rightarrow> NaN)"

definition is_object_value :: "jsval \<Rightarrow> bool" where
  "is_object_value v \<longleftrightarrow> (case v of JArr _ \<Rightarrow> True | JObj _ \<Rightarrow> True | _ \<Rightarrow> False)"

section \<open>Plain objects\<close>

text \<open>
  A plain object is its list of own properties in enumeration order: the keys that are
  array indices first, ascending, then the other keys in the order they were created.
  The keys of \<open>Object.prototype\<close> are not modelled.
\<close>

definition is_index_key :: "string \<Rightarrow> bool" where
  "is_index_key k \<longleftrightarrow>
     k \<noteq> [] \<and> list_all is_digit k \<and> (hd k \<noteq> CHR ''0'' \<or> k = ''0'') \<and> read_int k < 4294967295"

definition key_before :: "string \<Rightarrow> string \<Rightarrow> bool" where
  "key_before k j \<longleftrightarrow>
     is_index_key k \<and> (\<not> is_index_key j \<or> read_int k < read_int j)"

fun insert_key :: "string \<Rightarrow> 'v \<Rightarrow> (string \<times> 'v) list \<Rightarrow> (string \<times> 'v) list" where
  "insert_key k v [] = [(k, v)]"
| "insert_key k v ((j, w) # o1) =
     (if key_before k j then (k, v) # (j, w) # o1 else (j, w) # insert_key k v o1)"

fun replace_key :: "string \<Rightarrow> 'v \<Rightarrow> (string \<times> 'v) list \<Rightarrow> (string \<times> 'v) list" where
  "replace_key k v [] = []"
| "replace_key k v ((j, w) # o1) =
     (if k = j then (k, v) # o1 else (j, w) # replace_key k v o1)"

definition obj_put :: "string \<Rightarrow> 'v \<Rightarrow> (string \<times> 'v) list \<Rightarrow> (string \<times> 'v) list" where
  "obj_put k v o1 = (if k \<in> set (map fst o1) then replace_key k v o1 else insert_key k v o1)"

definition obj_get :: "(string \<times> 'v) list \<Rightarrow> string \<Rightarrow> 'v option" where
  "obj_get o1 k = map_of o1 k"

definition obj_del :: "string \<Rightarrow> (string \<times> 'v) list \<Rightarrow> (string \<times> 'v) list" where
  "obj_del k o1 = filter (\<lambda>(j, _). j \<noteq> k) o1"

text \<open>\<open>{...a, ...b}\<close> and an object built from entries in order.\<close>

definition obj_spread :: "(string \<times> 'v) list \<Rightarrow> (string \<times> 'v) list \<Rightarrow> (string \<times> 'v) list" where
  "obj_spread a b = foldl (\<lambda>o1 (k, v). obj_put k v o1) a b"

definition obj_of :: "(string \<times> 'v) list \<Rightarrow> (string \<times> 'v) list" where
  "obj_of kvs = obj_spread [] kvs"

text \<open>Property access \<open>v[k]\<close> on any value; \<open>v?.[k]\<close> is the same reading.  An array has its
  elements under their indices, and its length.\<close>

definition value_get :: "jsval \<Rightarrow> string \<Rightarrow> jsval" where
  "value_get v k =
     (case v of
        JObj o1 \<Rightarrow> (case obj_get o1 k of Some w \<Rightarrow> w | None \<Rightarrow> JUndef)
      | JArr vs \<Rightarrow>
          if k = ''length'' then JNum (Fin (of_nat (length vs)))
          else if is_index_key k \<and> nat (read_int k) < length vs then vs ! nat (read_int k)
          else JUndef
      | _ \<Rightarrow> JUndef)"

text \<open>\<open>Object.keys(v)\<close> of an object or an array.\<close>

definition value_keys :: "jsval \<Rightarrow> string list" where
  "value_keys v =
     (case v of
        JObj o1 \<Rightarrow> map fst o1
      | JArr vs \<Rightarrow> map show_nat [0..<length vs]
      | _ \<Rightarrow> [])"

lemma map_of_insert_key:
  "k \<notin> set (map fst o1) \<Longrightarrow> map_of (insert_key k v o1) = (map_of o1)(k \<mapsto> v)"
  by (induction k v o1 rule: insert_key.induct) (auto simp: fun_eq_iff)

lemma map_of_replace_key:
  "k \<in> set (map fst o1) \<Longrightarrow> map_of (replace_key k v o1) = (map_of o1)(k \<mapsto> v)"
  by (induction k v o1 rule: replace_key.induct) (auto simp: fun_eq_iff simp del: set_map)

lemma keys_insert_key: "set (map fst (insert_key k v o1)) = insert k (set (map fst o1))"
  by (induction k v o1 rule: insert_key.induct) auto

lemma keys_replace_key: "map fst (replace_key k v o1) = map fst o1"
  by (induction k v o1 rule: replace_key.induct) auto

lemma distinct_insert_key:
  "k \<notin> set (map fst o1) \<Longrightarrow> distinct (map fst o1) \<Longrightarrow> distinct (map fst (insert_key k v o1))"
proof (induction k v o1 rule: insert_key.induct)
  case (2 k v j w o1)
  then show ?case
    using keys_insert_key [of k v o1] by (auto simp del: set_map)
qed simp

definition obj_ok :: "(string \<times> 'v) list \<Rightarrow> bool" where
  "obj_ok o1 \<longleftrightarrow> distinct (map fst o1)"

text \<open>What a client of a dictionary relies on.\<close>

locale js_dict =
  fixes empty :: "'d"
    and put :: "string \<Rightarrow> 'v \<Rightarrow> 'd \<Rightarrow> 'd"
    and del :: "string \<Rightarrow> 'd \<Rightarrow> 'd"
    and get :: "'d \<Rightarrow> string \<Rightarrow> 'v option"
    and ok :: "'d \<Rightarrow> bool"
  assumes ok_empty: "ok empty"
    and ok_put: "ok d \<Longrightarrow> ok (put k v d)"
    and ok_del: "ok d \<Longrightarrow> ok (del k d)"
    and get_empty: "get empty k = None"
    and get_put: "get (put k v d) j = (if j = k then Some v else get d j)"
    and get_del: "get (del k d) j = (if j = k then None else get d j)"
begin

definition put_all :: "(string \<times> 'v) list \<Rightarrow> 'd \<Rightarrow> 'd" where
  "put_all kvs d = foldl (\<lambda>e (k, v). put k v e) d kvs"

lemma put_all_Cons: "put_all ((k, v) # kvs) d = put_all kvs (put k v d)"
  by (simp add: put_all_def)

lemma get_put_all:
  "get (put_all kvs d) j = (case map_of (rev kvs) j of Some v \<Rightarrow> Some v | None \<Rightarrow> get d j)"
proof (induction kvs arbitrary: d)
  case Nil
  then show ?case by (simp add: put_all_def)
next
  case (Cons kv kvs)
  obtain k v where kv: "kv = (k, v)" by fastforce
  show ?case
    unfolding kv put_all_Cons Cons
    by (auto simp: get_put map_add_def split: option.splits)
qed

lemma ok_put_all: "ok d \<Longrightarrow> ok (put_all kvs d)"
  by (induction kvs arbitrary: d) (auto simp: put_all_def ok_put split: prod.splits)

lemma put_put_get: "get (put k w (put k v d)) j = get (put k w d) j"
  by (simp add: get_put)

lemma del_put_get: "get (del k (put k v d)) j = get (del k d) j"
  by (simp add: get_put get_del)

end

interpretation obj: js_dict "[]" obj_put obj_del obj_get obj_ok
proof unfold_locales
  show "obj_ok []" by (simp add: obj_ok_def)
  show "obj_ok (obj_put k v d)" if "obj_ok d" for d :: "(string \<times> 'v) list" and k v
    using that by (auto simp: obj_ok_def obj_put_def keys_replace_key intro: distinct_insert_key
        simp del: set_map)
  show "obj_ok (obj_del k d)" if "obj_ok d" for d :: "(string \<times> 'v) list" and k
    using that by (auto simp: obj_ok_def obj_del_def distinct_map intro: inj_on_subset)
  show "obj_get [] k = (None :: 'v option)" for k
    by (simp add: obj_get_def)
  show "obj_get (obj_put k v d) j = (if j = k then Some v else obj_get d j)"
    for k j v and d :: "(string \<times> 'v) list"
    by (auto simp: obj_get_def obj_put_def map_of_insert_key map_of_replace_key simp del: set_map)
  show "obj_get (obj_del k d) j = (if j = k then None else obj_get d j)"
    for k j and d :: "(string \<times> 'v) list"
    by (induction d) (auto simp: obj_get_def obj_del_def)
qed

lemmas obj_get_put [simp] = obj.get_put
lemmas obj_get_del [simp] = obj.get_del

lemma obj_get_Nil [simp]: "obj_get [] k = None"
  by (rule obj.get_empty)

lemma keys_obj_put: "set (map fst (obj_put k v d)) = insert k (set (map fst d))"
  by (auto simp: obj_put_def keys_replace_key keys_insert_key simp del: set_map)

lemma map_of_rev_keys: "distinct (map fst kvs) \<Longrightarrow> map_of (rev kvs) k = map_of kvs k"
proof (induction kvs)
  case (Cons kv kvs)
  then show ?case
    by (cases kv) (auto simp: map_add_def split: option.splits dest!: map_of_SomeD intro: rev_image_eqI)
qed simp

lemma obj_get_spread:
  "obj_get (obj_spread a b) k =
     (case map_of (rev b) k of Some v \<Rightarrow> Some v | None \<Rightarrow> obj_get a k)"
  using obj.get_put_all [of b a k] by (simp add: obj.put_all_def obj_spread_def)

lemma obj_ok_spread: "obj_ok a \<Longrightarrow> obj_ok (obj_spread a b)"
  using obj.ok_put_all [of a b] by (simp add: obj.put_all_def obj_spread_def)

text \<open>The objects in enumeration order are those that an object literal with their entries gives.\<close>

definition in_order :: "(string \<times> 'v) list \<Rightarrow> bool" where
  "in_order o1 \<longleftrightarrow> obj_ok o1 \<and> sorted_wrt (\<lambda>a b. \<not> key_before (fst b) (fst a)) o1"

lemma key_not_before_trans: "\<not> key_before j k \<Longrightarrow> \<not> key_before l j \<Longrightarrow> \<not> key_before l k"
  by (auto simp: key_before_def)

lemma key_before_asym: "key_before k j \<Longrightarrow> \<not> key_before j k"
  by (auto simp: key_before_def)

lemma sorted_insert_key:
  "sorted_wrt (\<lambda>a b. \<not> key_before (fst b) (fst a)) o1 \<Longrightarrow>
   sorted_wrt (\<lambda>a b. \<not> key_before (fst b) (fst a)) (insert_key k v o1)"
proof (induction k v o1 rule: insert_key.induct)
  case (2 k v j w o1)
  show ?case
  proof (cases "key_before k j")
    case True
    then have "\<not> key_before (fst b) k" if "b \<in> set ((j, w) # o1)" for b
      using 2(2) that key_before_asym [OF True] key_not_before_trans [of j k "fst b"] by auto
    then show ?thesis using True 2(2) by simp
  next
    case False
    then have "\<not> key_before (fst b) j" if "b \<in> set (insert_key k v o1)" for b
    proof -
      have "fst b \<in> insert k (set (map fst o1))"
        using that keys_insert_key [of k v o1] by (metis imageI list.set_map)
      then show ?thesis using False 2(2) by auto
    qed
    then show ?thesis using False 2 by simp
  qed
qed simp

lemma sorted_replace_key:
  "sorted_wrt (\<lambda>a b. \<not> key_before (fst b) (fst a)) (replace_key k v o1) \<longleftrightarrow>
   sorted_wrt (\<lambda>a b. \<not> key_before (fst b) (fst a)) o1"
  using sorted_wrt_map [of "\<lambda>a b. \<not> key_before b a" fst "replace_key k v o1"]
    sorted_wrt_map [of "\<lambda>a b. \<not> key_before b a" fst o1]
  by (simp add: keys_replace_key)

lemma put_in_order: "in_order o1 \<Longrightarrow> in_order (obj_put k v o1)"
  using obj.ok_put [of o1 k v] sorted_insert_key [of o1 k v] sorted_replace_key [of k v o1]
  by (auto simp: in_order_def obj_put_def)

lemma spread_in_order: "in_order a \<Longrightarrow> in_order (obj_spread a b)"
  unfolding obj_spread_def by (induction b arbitrary: a) (auto simp: put_in_order split: prod.splits)

lemma put_last:
  "in_order (o1 @ [(k, v)]) \<Longrightarrow> obj_put k v o1 = o1 @ [(k, v)]"
proof -
  assume o: "in_order (o1 @ [(k, v)])"
  then have k: "k \<notin> set (map fst o1)" by (auto simp: in_order_def obj_ok_def)
  have "\<forall>b \<in> set o1. \<not> key_before k (fst b)"
    using o by (simp add: in_order_def sorted_wrt_append)
  then have "insert_key k v o1 = o1 @ [(k, v)]" by (induction o1) auto
  then show ?thesis using k by (simp add: obj_put_def)
qed

lemma spread_same: "in_order (a @ b) \<Longrightarrow> obj_spread a b = a @ b"
proof (induction b arbitrary: a)
  case Nil
  then show ?case by (simp add: obj_spread_def)
next
  case (Cons kv b)
  obtain k v where kv: "kv = (k, v)" by fastforce
  have "in_order ((a @ [(k, v)]) @ b)" using Cons(2) kv by simp
  moreover from this have "in_order (a @ [(k, v)])"
    unfolding in_order_def obj_ok_def by (simp add: sorted_wrt_append)
  ultimately show ?case
    using Cons(1) [of "a @ [(k, v)]"] put_last [of a k v] kv by (simp add: obj_spread_def)
qed

lemma in_order_iff: "in_order (o1 :: (string \<times> 'v) list) \<longleftrightarrow> obj_of o1 = o1"
proof
  show "obj_of o1 = o1" if "in_order o1" using spread_same [of "[]" o1] that by (simp add: obj_of_def)
  have "in_order ([] :: (string \<times> 'v) list)" by (simp add: in_order_def obj_ok_def)
  then have "in_order (obj_of o1)" unfolding obj_of_def by (rule spread_in_order)
  then show "in_order o1" if "obj_of o1 = o1" using that by simp
qed

section \<open>JSON text\<close>

definition hex_digit :: "nat \<Rightarrow> char" where
  "hex_digit d = ''0123456789abcdef'' ! d"

text \<open>\<open>JSON.stringify\<close> of one code unit inside a string.\<close>

definition json_escape :: "char \<Rightarrow> string" where
  "json_escape c =
     (if c = CHR 0x22 then [CHR 0x5C, CHR 0x22]
      else if c = CHR 0x5C then [CHR 0x5C, CHR 0x5C]
      else if c = CHR 0x08 then [CHR 0x5C, CHR ''b'']
      else if c = CHR 0x0C then [CHR 0x5C, CHR ''f'']
      else if c = CHR 0x0A then [CHR 0x5C, CHR ''n'']
      else if c = CHR 0x0D then [CHR 0x5C, CHR ''r'']
      else if c = CHR 0x09 then [CHR 0x5C, CHR ''t'']
      else if (of_char c :: nat) < 32
        then CHR 0x5C # ''u00'' @ [hex_digit (of_char c div 16), hex_digit (of_char c mod 16)]
      else [c])"

definition json_body :: "string \<Rightarrow> string" where
  "json_body s = concat (map json_escape s)"

definition json_quote :: "string \<Rightarrow> string" where
  "json_quote s = CHR 0x22 # json_body s @ [CHR 0x22]"

text \<open>Reading a string literal, after its opening quote: the text and what follows the closing
  quote.  An escape \<open>\uXXXX\<close> outside Latin-1 is outside the model and reads as an error.\<close>

definition unescape :: "char \<Rightarrow> char option" where
  "unescape c = map_of
     [(CHR 0x22, CHR 0x22), (CHR 0x5C, CHR 0x5C), (CHR ''/'', CHR ''/''), (CHR ''b'', CHR 0x08),
      (CHR ''f'', CHR 0x0C), (CHR ''n'', CHR 0x0A), (CHR ''r'', CHR 0x0D), (CHR ''t'', CHR 0x09)] c"

definition unescape_hex :: "char \<Rightarrow> char \<Rightarrow> char \<Rightarrow> char \<Rightarrow> char option" where
  "unescape_hex a b c d =
     (case read_base 16 0 [a, b, c, d] of
        Some n \<Rightarrow> if n < 256 then Some (char_of (nat n)) else None
      | None \<Rightarrow> None)"

fun json_chars :: "string \<Rightarrow> (string \<times> string) option" where
  "json_chars [] = None"
| "json_chars (c # cs) =
     (if c = CHR 0x22 then Some ([], cs)
      else if c = CHR 0x5C then
        (case cs of
           [] \<Rightarrow> None
         | e # es \<Rightarrow>
             if e = CHR ''u'' then
               (case es of
                  a # b # x # y # r \<Rightarrow>
                    (case unescape_hex a b x y of
                       None \<Rightarrow> None
                     | Some d \<Rightarrow> map_option (\<lambda>(t, q). (d # t, q)) (json_chars r))
                | _ \<Rightarrow> None)
             else (case unescape e of
                     None \<Rightarrow> None
                   | Some d \<Rightarrow> map_option (\<lambda>(t, q). (d # t, q)) (json_chars es)))
      else if (of_char c :: nat) < 32 then None
      else map_option (\<lambda>(t, q). (c # t, q)) (json_chars cs))"

text \<open>A codec: decoding what was encoded, with any text after it, gives it back.\<close>

locale text_codec =
  fixes encode :: "'a \<Rightarrow> string"
    and decode :: "string \<Rightarrow> ('a \<times> string) option"
  assumes decode_encode: "decode (encode x @ r) = Some (x, r)"
begin

lemma decode_self: "decode (encode x) = Some (x, [])"
  using decode_encode [of x "[]"] by simp

lemma encode_inj: "encode x = encode y \<Longrightarrow> x = y"
  by (metis decode_self option.inject prod.inject)

lemma encode_prefix_free: "encode x @ r = encode y @ q \<Longrightarrow> x = y \<and> r = q"
  by (metis decode_encode option.inject prod.inject)

end

definition json_unquote :: "string \<Rightarrow> (string \<times> string) option" where
  "json_unquote s =
     (case s of c # cs \<Rightarrow> if c = CHR 0x22 then json_chars cs else None | [] \<Rightarrow> None)"

lemma json_chars_escape:
  "json_chars (json_escape c @ r) = map_option (\<lambda>(t, q). (c # t, q)) (json_chars r)"
proof (cases "c \<in> set [CHR 0x22, CHR 0x5C, CHR 0x08, CHR 0x0C, CHR 0x0A, CHR 0x0D, CHR 0x09]")
  case True
  then show ?thesis by (auto simp: json_escape_def unescape_def)
next
  case False
  show ?thesis
  proof (cases "(of_char c :: nat) < 32")
    case True
    let ?n = "of_char c :: nat"
    have c: "c = char_of ?n" by simp
    have hex: "unescape_hex (CHR ''0'') (CHR ''0'') (hex_digit (?n div 16)) (hex_digit (?n mod 16)) = Some c"
    proof -
      have "\<forall>n \<in> set [0..<32]. unescape_hex (CHR ''0'') (CHR ''0'')
          (hex_digit (n div 16)) (hex_digit (n mod 16)) = Some (char_of n)"
        by code_simp
      with True have "unescape_hex (CHR ''0'') (CHR ''0'') (hex_digit (?n div 16)) (hex_digit (?n mod 16))
          = Some (char_of ?n)" by auto
      with c show ?thesis by simp
    qed
    from False True show ?thesis
      by (simp add: json_escape_def hex)
  next
    case big: False
    with False show ?thesis by (simp add: json_escape_def)
  qed
qed

lemma json_chars_body: "json_chars (json_body s @ CHR 0x22 # r) = Some (s, r)"
  by (induction s) (simp_all add: json_body_def json_chars_escape del: json_chars.simps(2),
      simp add: json_chars.simps(2))

interpretation quoted: text_codec json_quote json_unquote
  by unfold_locales (simp add: json_quote_def json_unquote_def json_chars_body)

lemma json_unquote_quote [simp, text_simps]: "json_unquote (json_quote s @ r) = Some (s, r)"
  by (rule quoted.decode_encode)

lemma json_unquote_quote_self [simp, text_simps]: "json_unquote (json_quote s) = Some (s, [])"
  by (rule quoted.decode_self)

text \<open>Code units that \<open>JSON.stringify\<close> writes as they are.\<close>

definition plain_char :: "char \<Rightarrow> bool" where
  "plain_char c \<longleftrightarrow> c \<noteq> CHR 0x22 \<and> c \<noteq> CHR 0x5C \<and> 32 \<le> (of_char c :: nat)"

lemma json_escape_plain: "plain_char c \<Longrightarrow> json_escape c = [c]"
  by (auto simp: plain_char_def json_escape_def)

lemma json_body_plain: "list_all plain_char s \<Longrightarrow> json_body s = s"
  by (induction s) (auto simp: json_body_def json_escape_plain)

end
