(* ===== verification/JsJson.thy ===== *)
theory JsJson
  imports JsValue
begin

text \<open>
  \<open>JSON.parse\<close> and \<open>JSON.stringify\<close> on whole values.  The parser recurses on fuel: a call
  spends one unit, and every two units consume at least one code unit, so
  \<open>2 * length s + 2\<close> units never run out (\<open>json_fuel_enough\<close>: a value read with any
  amount of fuel is read with that amount).
\<close>

definition json_space :: "char \<Rightarrow> bool" where
  "json_space c \<longleftrightarrow> c \<in> set [CHR '' '', CHR 0x09, CHR 0x0A, CHR 0x0D]"

definition json_ws :: "string \<Rightarrow> string" where
  "json_ws s = dropWhile json_space s"

text \<open>The grammar of a JSON number is stricter than that of a JavaScript literal.\<close>

definition json_exponent_ok :: "string \<Rightarrow> bool" where
  "json_exponent_ok s =
     (case s of
        c # r \<Rightarrow> if c = CHR ''e'' \<or> c = CHR ''E''
          then (let r' = (case r of d # q \<Rightarrow> if d = CHR ''-'' \<or> d = CHR ''+'' then q else r | [] \<Rightarrow> r)
                in takeWhile is_digit r' \<noteq> [])
          else True
      | [] \<Rightarrow> True)"

definition json_number_ok :: "string \<Rightarrow> bool" where
  "json_number_ok s =
     (let t = (case s of c # r \<Rightarrow> if c = CHR ''-'' then r else s | [] \<Rightarrow> s);
          ip = takeWhile is_digit t;
          r = dropWhile is_digit t
      in ip \<noteq> [] \<and> (hd ip \<noteq> CHR ''0'' \<or> length ip = 1)
         \<and> (case r of
              c # q \<Rightarrow> if c = CHR ''.'' then takeWhile is_digit q \<noteq> []
                          \<and> json_exponent_ok (dropWhile is_digit q)
                       else json_exponent_ok r
            | [] \<Rightarrow> True))"

definition json_number :: "string \<Rightarrow> (jsval \<times> string) option" where
  "json_number s =
     (if json_number_ok s then map_option (\<lambda>(x, r). (JNum x, r)) (take_number s) else None)"

definition json_literal :: "string \<Rightarrow> (jsval \<times> string) option" where
  "json_literal s =
     (case strip_prefix ''true'' s of Some r \<Rightarrow> Some (JBool True, r) | None \<Rightarrow>
      case strip_prefix ''false'' s of Some r \<Rightarrow> Some (JBool False, r) | None \<Rightarrow>
      case strip_prefix ''null'' s of Some r \<Rightarrow> Some (JNull, r) | None \<Rightarrow> json_number s)"

fun json_value :: "nat \<Rightarrow> string \<Rightarrow> (jsval \<times> string) option"
  and json_elems :: "nat \<Rightarrow> string \<Rightarrow> (jsval list \<times> string) option"
  and json_members :: "nat \<Rightarrow> string \<Rightarrow> ((string \<times> jsval) list \<times> string) option" where
  "json_value 0 s = None"
| "json_value (Suc n) s =
     (case json_ws s of
        [] \<Rightarrow> None
      | c # cs \<Rightarrow>
          if c = CHR 0x22 then map_option (\<lambda>(t, r). (JStr t, r)) (json_chars cs)
          else if c = CHR ''['' then
            (case json_ws cs of
               d # r \<Rightarrow> if d = CHR '']'' then Some (JArr [], r)
                        else map_option (\<lambda>(vs, q). (JArr vs, q)) (json_elems n (d # r))
             | [] \<Rightarrow> None)
          else if c = CHR ''{'' then
            (case json_ws cs of
               d # r \<Rightarrow> if d = CHR ''}'' then Some (JObj [], r)
                        else map_option (\<lambda>(kvs, q). (JObj (obj_of kvs), q)) (json_members n (d # r))
             | [] \<Rightarrow> None)
          else json_literal (c # cs))"
| "json_elems 0 s = None"
| "json_elems (Suc n) s =
     (case json_value n s of
        None \<Rightarrow> None
      | Some (v, r) \<Rightarrow>
          (case json_ws r of
             [] \<Rightarrow> None
           | c # q \<Rightarrow>
               if c = CHR '']'' then Some ([v], q)
               else if c = CHR '','' then map_option (\<lambda>(vs, p). (v # vs, p)) (json_elems n q)
               else None))"
| "json_members 0 s = None"
| "json_members (Suc n) s =
     (case json_unquote (json_ws s) of
        None \<Rightarrow> None
      | Some (k, r) \<Rightarrow>
          (case json_ws r of
             [] \<Rightarrow> None
           | c # q \<Rightarrow>
               if c = CHR '':'' then
                 (case json_value n q of
                    None \<Rightarrow> None
                  | Some (v, p) \<Rightarrow>
                      (case json_ws p of
                         [] \<Rightarrow> None
                       | d # z \<Rightarrow>
                           if d = CHR ''}'' then Some ([(k, v)], z)
                           else if d = CHR '',''
                             then map_option (\<lambda>(kvs, y). ((k, v) # kvs, y)) (json_members n z)
                           else None))
               else None))"

definition json_parse :: "string \<Rightarrow> jsval js_result" where
  "json_parse s =
     (case json_value (2 * length s + 2) s of
        Some (v, r) \<Rightarrow> if json_ws r = [] then Inr v else Inl SyntaxError
      | None \<Rightarrow> Inl SyntaxError)"

section \<open>Writing values\<close>

text \<open>\<open>JSON.stringify(v)\<close> for a value other than \<open>undefined\<close>; inside an array \<open>undefined\<close> is
  \<open>null\<close>, inside an object its property is left out.\<close>

fun json_text :: "jsval \<Rightarrow> string" where
  "json_text JUndef = ''null''"
| "json_text JNull = ''null''"
| "json_text (JBool b) = (if b then ''true'' else ''false'')"
| "json_text (JNum x) = (if is_finite_num x then text_of_number x else ''null'')"
| "json_text (JStr s) = json_quote s"
| "json_text (JArr vs) = ''['' @ join '','' (map json_text vs) @ '']''"
| "json_text (JObj kvs) =
     ''{'' @ join '','' (map (\<lambda>(k, v). json_quote k @ '':'' @ json_text v)
                      (filter (\<lambda>(k, v). v \<noteq> JUndef) kvs)) @ ''}''"

text \<open>\<open>JSON.stringify(v, null, 2)\<close>, written at an indentation.\<close>

fun json_pretty :: "string \<Rightarrow> jsval \<Rightarrow> string" where
  "json_pretty ind JUndef = ''null''"
| "json_pretty ind JNull = ''null''"
| "json_pretty ind (JBool b) = (if b then ''true'' else ''false'')"
| "json_pretty ind (JNum x) = (if is_finite_num x then text_of_number x else ''null'')"
| "json_pretty ind (JStr s) = json_quote s"
| "json_pretty ind (JArr vs) =
     (if vs = [] then ''[]''
      else let inner = ind @ ''  ''
           in ''['' @ [CHR 0x0A] @ inner
              @ join (CHR '','' # CHR 0x0A # inner) (map (json_pretty inner) vs)
              @ [CHR 0x0A] @ ind @ '']'')"
| "json_pretty ind (JObj kvs) =
     (let own = filter (\<lambda>(k, v). v \<noteq> JUndef) kvs; inner = ind @ ''  ''
      in if own = [] then ''{}''
         else ''{'' @ [CHR 0x0A] @ inner
              @ join (CHR '','' # CHR 0x0A # inner)
                  (map (\<lambda>(k, v). json_quote k @ '': '' @ json_pretty inner v) own)
              @ [CHR 0x0A] @ ind @ ''}'')"

section \<open>Facts the components use\<close>

lemma json_parse_quote [simp, text_simps]: "json_parse (json_quote t) = Inr (JStr t)"
proof -
  have ws: "json_ws (json_quote t) = json_quote t"
    by (simp add: json_ws_def json_quote_def json_space_def)
  have "json_chars (json_body t @ [CHR 0x22]) = Some (t, [])"
    using json_chars_body [of t "[]"] by simp
  then have "json_value (Suc n) (json_quote t) = Some (JStr t, [])" for n
    using ws by (simp add: json_quote_def)
  then show ?thesis by (simp add: json_parse_def json_ws_def)
qed

lemma length_json_ws: "length (json_ws s) \<le> length s"
  by (simp add: json_ws_def length_dropWhile_le)

lemma json_chars_shorter: "json_chars s = Some (t, r) \<Longrightarrow> length r < length s"
proof (induction s arbitrary: t r rule: json_chars.induct)
  case (2 c cs)
  then show ?case
    by (fastforce split: if_splits list.splits option.splits)
qed simp

lemma json_unquote_shorter: "json_unquote s = Some (t, r) \<Longrightarrow> length r < length s"
  by (fastforce simp: json_unquote_def dest: json_chars_shorter split: list.splits if_splits)

section \<open>The fuel of the parser is enough\<close>

lemma take_digits_split: "take_digits s = (d, r) \<Longrightarrow> s = d @ r"
  by (auto simp: take_digits_def)

lemma take_exponent_le: "length (snd (take_exponent s)) \<le> length s"
proof -
  have "length (dropWhile is_digit q) \<le> length q" for q
    by (simp add: length_dropWhile_le)
  then have le: "length q \<le> k \<Longrightarrow> length (dropWhile is_digit q) \<le> Suc k" for q k
    by (meson le_SucI le_trans)
  show ?thesis
    by (cases s; cases "tl s") (auto simp: take_exponent_def take_digits_def Let_def intro!: le)
qed

lemma fraction_le:
  "(case R of c # r1 \<Rightarrow> if P c r1 then take_digits r1 else ([], R) | [] \<Rightarrow> ([], R)) = (fp, q)
    \<Longrightarrow> length fp + length q \<le> length R"
  by (auto dest: take_digits_split split: list.splits if_splits)

lemma take_decimal_shorter: "take_decimal s = Some (x, r) \<Longrightarrow> length r < length s"
proof -
  assume h: "take_decimal s = Some (x, r)"
  let ?ip = "takeWhile is_digit s" and ?r = "dropWhile is_digit s"
  have s: "length s = length ?ip + length ?r"
    by (metis length_append takeWhile_dropWhile_id)
  obtain fp r' where fr: "(case ?r of
              c # r1 \<Rightarrow> if c = CHR ''.'' \<and> (?ip \<noteq> [] \<or> fst (take_digits r1) \<noteq> [])
                         then take_digits r1 else ([], ?r)
            | [] \<Rightarrow> ([], ?r)) = (fp, r')" by fastforce
  have "length fp + length r' \<le> length ?r"
    by (rule fraction_le [OF fr])
  moreover have "?ip \<noteq> [] \<or> fp \<noteq> []" and "r = snd (take_exponent r')"
    using h fr by (auto simp: take_decimal_def take_digits_def Let_def split: if_splits prod.splits)
  ultimately show ?thesis
    using s take_exponent_le [of r'] by (cases ?ip; cases fp) auto
qed

lemma take_number_shorter: "take_number s = Some (x, r) \<Longrightarrow> length r < length s"
proof -
  have u: "take_unsigned t = Some (y, q) \<Longrightarrow> length q < length t" for t y q
    by (auto simp: take_unsigned_def strip_prefix_Some split: option.splits dest: take_decimal_shorter)
  show "take_number s = Some (x, r) \<Longrightarrow> length r < length s"
    by (cases s) (auto simp: take_number_def split: if_splits dest: u intro: less_SucI)
qed

lemma json_literal_shorter: "json_literal s = Some (v, r) \<Longrightarrow> length r < length s"
  by (auto simp: json_literal_def json_number_def strip_prefix_Some
      split: option.splits if_splits dest: take_number_shorter)

lemma json_wsD: "json_ws s = c # cs \<Longrightarrow> length cs < length s"
  using length_json_ws [of s] by simp

lemma json_shorter:
  "json_value n s = Some (v, r) \<Longrightarrow> length r < length s"
  "json_elems n s = Some (vs, r) \<Longrightarrow> length r < length s"
  "json_members n s = Some (kvs, r) \<Longrightarrow> length r < length s"
proof (induction n s and n s and n s arbitrary: v r and vs r and kvs r
    rule: json_value_json_elems_json_members.induct)
  case (2 n s)
  then obtain c cs where cs: "json_ws s = c # cs"
    by (auto split: list.splits)
  note l = json_wsD [OF cs]
  show ?case
    using 2 cs l length_json_ws [of cs]
    by (fastforce split: if_splits list.splits dest: json_chars_shorter json_literal_shorter)
next
  case (4 n s)
  then obtain v q where q: "json_value n s = Some (v, q)"
    by (auto split: option.splits)
  with 4 have "length q < length s" by blast
  with 4 q show ?case
    using length_json_ws [of q] by (fastforce split: if_splits list.splits)
next
  case (6 n s)
  then obtain k q where q: "json_unquote (json_ws s) = Some (k, q)"
    by (auto split: option.splits)
  from json_unquote_shorter [OF q] length_json_ws [of s] have "length q < length s" by simp
  with 6 q show ?case
    using length_json_ws [of q]
    by (fastforce split: if_splits list.splits option.splits dest: json_wsD)
qed auto

lemma json_fuel_enough_all:
  "json_value m s = Some x \<Longrightarrow> 2 * length s + 1 \<le> n \<Longrightarrow> json_value n s = Some x"
  "json_elems m s = Some y \<Longrightarrow> 2 * length s + 2 \<le> n \<Longrightarrow> json_elems n s = Some y"
  "json_members m s = Some z \<Longrightarrow> 2 * length s + 2 \<le> n \<Longrightarrow> json_members n s = Some z"
proof (induction m s and m s and m s arbitrary: n x and n y and n z
    rule: json_value_json_elems_json_members.induct)
  case (2 m s)
  from 2(4) obtain k where n: "n = Suc k" by (cases n) auto
  from 2(3) obtain c cs where cs: "json_ws s = c # cs"
    by (auto split: list.splits)
  note l = json_wsD [OF cs]
  have b: "json_ws cs = d # q \<Longrightarrow> 2 * length (d # q) + 2 \<le> k" for d q
    using 2(4) n l length_json_ws [of cs] by simp
  show ?case
  proof (cases "json_ws cs")
    case Nil
    with 2(3) cs show ?thesis by (auto simp: n)
  next
    case (Cons d q)
    note bb = b [OF Cons]
    have e: "json_elems m (d # q) = Some y \<Longrightarrow> c = CHR ''['' \<Longrightarrow> d \<noteq> CHR '']''
        \<Longrightarrow> json_elems k (d # q) = Some y" for y
      using 2(1) [OF cs _ _ Cons _ _ bb] by simp
    have f: "json_members m (d # q) = Some y \<Longrightarrow> c = CHR ''{'' \<Longrightarrow> d \<noteq> CHR ''}''
        \<Longrightarrow> json_members k (d # q) = Some y" for y
      using 2(2) [OF cs _ _ _ Cons _ _ bb] by simp
    show ?thesis
    proof (cases "c = CHR ''['' \<and> d \<noteq> CHR '']''")
      case True
      with 2(3) cs Cons obtain y where "json_elems m (d # q) = Some y" by auto
      with e [of y] True 2(3) cs Cons show ?thesis by (simp add: n)
    next
      case nb: False
      show ?thesis
      proof (cases "c = CHR ''{'' \<and> d \<noteq> CHR ''}''")
        case True
        with 2(3) cs Cons obtain y where "json_members m (d # q) = Some y" by auto
        with f [of y] True 2(3) cs Cons show ?thesis by (simp add: n)
      next
        case False
        with nb 2(3) cs Cons show ?thesis by (simp add: n split: if_splits)
      qed
    qed
  qed
next
  case (4 m s)
  from 4(4) obtain k where n: "n = Suc k" by (cases n) auto
  from 4(3) obtain v q where q: "json_value m s = Some (v, q)"
    by (auto split: option.splits)
  have v: "json_value k s = Some (v, q)"
    using 4(1) [OF q, of k] 4(4) n by simp
  have b: "json_ws q = d # p \<Longrightarrow> 2 * length p + 2 \<le> k" for d p
    using 4(4) n json_shorter(1) [OF q] json_wsD [of q d p] by simp
  show ?case
  proof (cases "json_ws q")
    case Nil
    with 4(3) q show ?thesis by simp
  next
    case (Cons d p)
    have e: "json_elems m p = Some y \<Longrightarrow> d \<noteq> CHR '']'' \<Longrightarrow> d = CHR '','' \<Longrightarrow> json_elems k p = Some y" for y
      using 4(2) [OF q refl Cons _ _ _ b [OF Cons]] by simp
    from 4(3) q v Cons e show ?thesis
      by (auto simp: n split: if_splits)
  qed
next
  case (6 m s)
  from 6(4) obtain k where n: "n = Suc k" by (cases n) auto
  from 6(3) obtain t q where q: "json_unquote (json_ws s) = Some (t, q)"
    by (auto split: option.splits)
  have ql: "length q < length s"
    using json_unquote_shorter [OF q] length_json_ws [of s] by simp
  from 6(3) q obtain p where p: "json_ws q = CHR '':'' # p"
    by (auto split: list.splits if_splits)
  then have pl: "length p < length q" by (rule json_wsD)
  from 6(3) q p obtain v z' where v: "json_value m p = Some (v, z')"
    by (auto split: option.splits)
  have v': "json_value k p = Some (v, z')"
    using 6(1) [OF q refl p refl v] 6(4) n ql pl by simp
  have zl: "length z' < length p" by (rule json_shorter(1) [OF v])
  show ?case
  proof (cases "json_ws z'")
    case Nil
    with 6(3) q p v show ?thesis by simp
  next
    case (Cons d w)
    have bb: "2 * length w + 2 \<le> k"
      using 6(4) n ql pl zl json_wsD [OF Cons] by linarith
    have e: "json_members k w = Some y"
      if y: "json_members m w = Some y" and nd: "d \<noteq> CHR ''}''" and d: "d = CHR '',''" for y
      by (rule 6(2) [OF q refl p refl v refl Cons nd d y bb])
    show ?thesis
    proof (cases "d = CHR ''}''")
      case True
      with 6(3) q p v v' Cons show ?thesis by (simp add: n)
    next
      case False
      with 6(3) q p v Cons obtain y where y: "json_members m w = Some y" and d: "d = CHR '',''"
        by (auto split: if_splits)
      from e [OF y False d] y d 6(3) q p v v' Cons show ?thesis by (simp add: n)
    qed
  qed
qed auto
corollary json_fuel_enough:
  "json_value m s = Some x \<Longrightarrow> json_value (2 * length s + 2) s = Some x"
  by (rule json_fuel_enough_all(1)) simp_all

end
