(* ===== verification/JsonRoundtrip.thy ===== *)
theory JsonRoundtrip
  imports JsJson
begin

text \<open>
  \<open>JSON.parse\<close> undoes \<open>JSON.stringify\<close>.  The values for which it does are described by an
  executable predicate: no \<open>undefined\<close>, objects whose keys are distinct and in enumeration
  order, finite numbers whose decimal text reads back as the number.  The parser works on
  the text with a rest behind it, which starts with a delimiter (or is empty).
\<close>

section \<open>Scanning stops at a delimiter\<close>

fun delimited :: "string \<Rightarrow> bool" where
  "delimited [] \<longleftrightarrow> True"
| "delimited (c # r) \<longleftrightarrow> c \<in> set [CHR '','', CHR '']'', CHR ''}'', CHR 0x0A]"

lemma delimited_no_digit: "delimited r \<Longrightarrow> takeWhile is_digit r = []"
  by (cases r) (auto simp: is_digit_def)

lemma delimited_drop_digit: "delimited r \<Longrightarrow> dropWhile is_digit r = r"
  by (cases r) (auto simp: is_digit_def)

lemma digits_before:
  assumes "delimited r"
  shows "takeWhile is_digit (s @ r) = takeWhile is_digit s"
    and "dropWhile is_digit (s @ r) = dropWhile is_digit s @ r"
  using assms by (induction s) (simp_all add: delimited_no_digit delimited_drop_digit)

lemma strip_prefix_before:
  assumes "delimited r" and "set p \<inter> set [CHR '','', CHR '']'', CHR ''}'', CHR 0x0A] = {}"
  shows "strip_prefix p (s @ r) = map_option (\<lambda>q. q @ r) (strip_prefix p s)"
  using assms(2)
proof (induction p arbitrary: s)
  case Nil
  then show ?case by simp
next
  case (Cons c p)
  show ?case
  proof (cases s)
    case Nil
    with Cons assms(1) show ?thesis by (cases r) auto
  next
    case (Cons d s')
    with Cons.IH [of s'] Cons.prems show ?thesis by simp
  qed
qed

lemma take_exponent_before:
  "delimited r \<Longrightarrow> take_exponent (s @ r) = apsnd (\<lambda>q. q @ r) (take_exponent s)"
  by (cases r; cases s; cases "tl s")
    (auto simp: take_exponent_def take_digits_def Let_def digits_before is_digit_def)

lemma take_decimal_before:
  assumes r: "delimited r"
  shows "take_decimal (s @ r) = map_option (apsnd (\<lambda>q. q @ r)) (take_decimal s)"
proof -
  have td: "take_digits (s @ r) = (takeWhile is_digit s, dropWhile is_digit s @ r)"
    by (simp only: take_digits_def digits_before [OF r])
  show ?thesis
  proof (cases "dropWhile is_digit s")
    case Nil
    have "take_exponent r = (0, r)" using take_exponent_before [OF r, of "[]"] by (simp add: take_exponent_def)
    moreover have "(case r of c # r1 \<Rightarrow> if c = CHR ''.'' \<and> P c r1 then f r1 else ([], r) | [] \<Rightarrow> ([], r)) = ([], r)"
      for P :: "char \<Rightarrow> string \<Rightarrow> bool" and f :: "string \<Rightarrow> string \<times> string"
      using r by (cases r) auto
    ultimately show ?thesis
      unfolding take_decimal_def td take_digits_def [of s]
      using Nil by (simp add: take_exponent_def [of "[]"] del: dropWhile_eq_Nil_conv)
  next
    case (Cons c q)
    have e: "take_exponent (c # q @ r) = apsnd (\<lambda>q. q @ r) (take_exponent (c # q))"
      using take_exponent_before [OF r, of "c # q"] by simp
    from Cons r show ?thesis
      unfolding take_decimal_def take_digits_def
      by (simp add: digits_before e take_exponent_before Let_def split_def)
  qed
qed

lemma take_unsigned_before:
  assumes "delimited r"
  shows "take_unsigned (s @ r) = map_option (apsnd (\<lambda>q. q @ r)) (take_unsigned s)"
  using assms
  by (simp add: take_unsigned_def strip_prefix_before take_decimal_before option.map_comp
      comp_def split_def apsnd_def map_prod_def split: option.splits)

lemma take_number_before:
  assumes r: "delimited r"
  shows "take_number (s @ r) = map_option (apsnd (\<lambda>q. q @ r)) (take_number s)"
proof (cases s)
  case Nil
  have "take_unsigned [] = None" by (simp add: take_unsigned_def take_decimal_def take_digits_def)
  with take_unsigned_before [OF r, of "[]"] have "take_unsigned r = None" by simp
  with r Nil show ?thesis by (cases r) (auto simp: take_number_def)
next
  case (Cons c q)
  with r take_unsigned_before [OF r, of s] show ?thesis
    by (simp add: take_number_def take_unsigned_before option.map_comp comp_def split_def apsnd_def
        map_prod_def)
qed

lemma json_exponent_ok_before: "delimited r \<Longrightarrow> json_exponent_ok (s @ r) = json_exponent_ok s"
  by (cases r; cases s; cases "tl s") (auto simp: json_exponent_ok_def Let_def digits_before is_digit_def)

lemma json_number_ok_before:
  assumes r: "delimited r" and s: "s \<noteq> []"
  shows "json_number_ok (s @ r) = json_number_ok s"
proof -
  have e: "json_exponent_ok r" using json_exponent_ok_before [OF r, of "[]"] by (simp add: json_exponent_ok_def)
  obtain c q where s: "s = c # q" using s by (cases s) auto
  define t where "t = (if c = CHR ''-'' then q else s)"
  have t: "json_number_ok (s @ r) =
     (takeWhile is_digit t \<noteq> [] \<and> (hd (takeWhile is_digit t) \<noteq> CHR ''0'' \<or> length (takeWhile is_digit t) = 1)
      \<and> (case dropWhile is_digit t @ r of
              c # q \<Rightarrow> if c = CHR ''.'' then takeWhile is_digit q \<noteq> []
                          \<and> json_exponent_ok (dropWhile is_digit q)
                       else json_exponent_ok (dropWhile is_digit t @ r)
            | [] \<Rightarrow> True))" if r: "delimited r" for r
  proof -
    have "(case s @ r of c # p \<Rightarrow> if c = CHR ''-'' then p else s @ r | [] \<Rightarrow> s @ r) = t @ r"
      by (simp add: s t_def)
    then show ?thesis
      unfolding json_number_ok_def Let_def by (simp only: digits_before [OF r])
  qed
  have "delimited []" by simp
  note t0 = t [OF this, unfolded append_Nil2]
  show ?thesis
  proof (cases "dropWhile is_digit t")
    case Nil
    show ?thesis unfolding t [OF r] t0 Nil using e r by (cases r) auto
  next
    case (Cons d p)
    have "json_exponent_ok (d # p @ r) = json_exponent_ok (d # p)"
      using json_exponent_ok_before [OF r, of "d # p"] by simp
    with r show ?thesis
      unfolding t [OF r] t0 Cons by (simp add: digits_before json_exponent_ok_before)
  qed
qed

lemma json_literal_before:
  assumes r: "delimited r" and s: "s \<noteq> []"
  shows "json_literal (s @ r) = map_option (apsnd (\<lambda>q. q @ r)) (json_literal s)"
proof -
  have n: "json_number (s @ r) = map_option (apsnd (\<lambda>q. q @ r)) (json_number s)"
    by (simp add: json_number_def json_number_ok_before [OF r s] take_number_before [OF r]
        option.map_comp comp_def split_def apsnd_def map_prod_def)
  show ?thesis
    using n r by (simp add: json_literal_def strip_prefix_before split: option.splits)
qed

section \<open>Values that survive\<close>

fun json_storable :: "jsval \<Rightarrow> bool" where
  "json_storable JUndef \<longleftrightarrow> False"
| "json_storable JNull \<longleftrightarrow> True"
| "json_storable (JBool b) \<longleftrightarrow> True"
| "json_storable (JNum x) \<longleftrightarrow> is_finite_num x \<and> json_literal (text_of_number x) = Some (JNum x, [])"
| "json_storable (JStr s) \<longleftrightarrow> True"
| "json_storable (JArr vs) \<longleftrightarrow> list_all json_storable vs"
| "json_storable (JObj kvs) \<longleftrightarrow> obj_of kvs = kvs \<and> list_all (\<lambda>(k, v). json_storable v) kvs"

lemma json_ws_skip [simp]: "\<not> json_space c \<Longrightarrow> json_ws (c # s) = c # s"
  by (simp add: json_ws_def)

lemma json_literal_start:
  assumes "json_literal s = Some (v, r)"
  obtains c q where "s = c # q" and "c \<in> set ''tfn-'' \<or> is_digit c"
proof (cases s)
  case Nil
  with assms that show ?thesis
    by (simp add: json_literal_def json_number_def json_number_ok_def)
next
  case (Cons c q)
  with assms have "c \<in> set ''tfn-'' \<or> is_digit c"
    by (auto simp: json_literal_def json_number_def json_number_ok_def Let_def strip_prefix_Some
        split: option.splits if_splits)
  with Cons that show ?thesis by blast
qed

lemma literal_start_plain:
  "c \<in> set ''tfn-'' \<or> is_digit c \<Longrightarrow>
     \<not> json_space c \<and> c \<noteq> CHR 0x22 \<and> c \<noteq> CHR ''['' \<and> c \<noteq> CHR ''{'' \<and> c \<noteq> CHR '']''"
  by (auto simp: json_space_def is_digit_def)

text \<open>The text of a value starts with a code unit that is no white space and closes nothing.\<close>

lemma json_text_start:
  assumes "json_storable v"
  obtains c q where "json_text v = c # q" and "\<not> json_space c" and "c \<noteq> CHR '']''"
proof (cases v)
  case (JNum x)
  with assms have "json_literal (text_of_number x) = Some (JNum x, [])" by simp
  then obtain c q where "text_of_number x = c # q" "c \<in> set ''tfn-'' \<or> is_digit c"
    by (rule json_literal_start)
  with literal_start_plain assms JNum show ?thesis by (intro that [of c q]) auto
next
  case (JBool b)
  then show ?thesis by (cases b) (auto simp: json_space_def intro: that)
qed (use assms that in \<open>auto simp: json_quote_def json_space_def split: if_splits\<close>)

lemma json_value_literal:
  assumes l: "json_literal s = Some (v, [])" and r: "delimited r"
  shows "json_value (Suc n) (s @ r) = Some (v, r)"
proof -
  from l obtain c q where s: "s = c # q" and c: "c \<in> set ''tfn-'' \<or> is_digit c"
    by (rule json_literal_start)
  from l r s have "json_literal (c # q @ r) = Some (v, r)"
    using json_literal_before [OF r, of s] by simp
  with literal_start_plain [OF c] show ?thesis by (simp add: s)
qed

text \<open>Reading a whole value, as the induction hypothesis of the elements of a container.\<close>

definition reads_back :: "jsval \<Rightarrow> bool" where
  "reads_back v \<longleftrightarrow>
     (\<forall>r n. delimited r \<longrightarrow> 2 * length (json_text v @ r) + 1 \<le> n \<longrightarrow>
        json_value n (json_text v @ r) = Some (v, r))"

lemma reads_backD:
  "reads_back v \<Longrightarrow> delimited r \<Longrightarrow> 2 * length (json_text v @ r) + 1 \<le> n \<Longrightarrow>
     json_value n (json_text v @ r) = Some (v, r)"
  by (simp add: reads_back_def)

lemma reads_backI:
  assumes "\<And>n r. delimited r \<Longrightarrow> json_value (Suc n) (json_text v @ r) = Some (v, r)"
  shows "reads_back v"
  unfolding reads_back_def using assms
  by (metis One_nat_def add.right_neutral add_Suc_right Suc_le_D)

lemma reads_back_literal: "json_literal (json_text v) = Some (v, []) \<Longrightarrow> reads_back v"
  by (intro reads_backI json_value_literal)

lemma join_start: "\<exists>p. join sep ((c # q) # xs) = c # p"
  by (simp add: join_Cons)

lemma json_elems_back:
  assumes "list_all reads_back (v # vs)"
    and "2 * length (join '','' (map json_text (v # vs)) @ CHR '']'' # r) + 2 \<le> n"
  shows "json_elems n (join '','' (map json_text (v # vs)) @ CHR '']'' # r) = Some (v # vs, r)"
  using assms
proof (induction vs arbitrary: v n)
  case Nil
  then obtain k where n: "n = Suc k" by (cases n) auto
  from Nil have "json_value k (json_text v @ CHR '']'' # r) = Some (v, CHR '']'' # r)"
    by (intro reads_backD) (auto simp: n)
  then show ?case by (simp add: n json_space_def)
next
  case (Cons w vs)
  then obtain k where n: "n = Suc k" by (cases n) auto
  let ?r = "join '','' (map json_text (w # vs)) @ CHR '']'' # r"
  from Cons.prems have "json_value k (json_text v @ CHR '','' # ?r) = Some (v, CHR '','' # ?r)"
    by (intro reads_backD) (auto simp: n)
  moreover have "json_elems k ?r = Some (w # vs, r)"
    using Cons.prems by (intro Cons.IH) (auto simp: n)
  ultimately show ?case by (simp add: n json_space_def)
qed

definition json_member :: "string \<times> jsval \<Rightarrow> string" where
  "json_member kv = json_quote (fst kv) @ '':'' @ json_text (snd kv)"

lemma json_member_back:
  assumes "reads_back v" and "delimited r" and "2 * length (json_member (k, v) @ r) + 1 \<le> n"
  shows "\<exists>q. json_unquote (json_ws (json_member (k, v) @ r)) = Some (k, CHR '':'' # q)
             \<and> json_value n q = Some (v, r)"
proof -
  have "json_ws (json_member (k, v) @ r) = json_quote k @ CHR '':'' # json_text v @ r"
    by (simp add: json_member_def json_quote_def json_space_def)
  moreover have "json_value n (json_text v @ r) = Some (v, r)"
    using assms by (intro reads_backD) (auto simp: json_member_def)
  ultimately show ?thesis by simp
qed

lemma json_members_back:
  assumes "list_all (\<lambda>kv. reads_back (snd kv)) (kv # kvs)"
    and "2 * length (join '','' (map json_member (kv # kvs)) @ CHR ''}'' # r) + 2 \<le> n"
  shows "json_members n (join '','' (map json_member (kv # kvs)) @ CHR ''}'' # r) = Some (kv # kvs, r)"
  using assms
proof (induction kvs arbitrary: kv n)
  case Nil
  then obtain k where n: "n = Suc k" by (cases n) auto
  from Nil json_member_back [of "snd kv" "CHR ''}'' # r" "fst kv" k] show ?case
    by (auto simp: n json_space_def)
next
  case (Cons lw kvs)
  then obtain k where n: "n = Suc k" by (cases n) auto
  let ?r = "join '','' (map json_member (lw # kvs)) @ CHR ''}'' # r"
  from Cons.prems json_member_back [of "snd kv" "CHR '','' # ?r" "fst kv" k] obtain q
    where "json_unquote (json_ws (json_member kv @ CHR '','' # ?r)) = Some (fst kv, CHR '':'' # q)"
      and "json_value k q = Some (snd kv, CHR '','' # ?r)"
    by (auto simp: n)
  moreover have "json_members k ?r = Some (lw # kvs, r)"
    using Cons.prems by (intro Cons.IH) (auto simp: n)
  ultimately show ?case by (simp add: n json_space_def)
qed

lemma json_container_back:
  assumes "list_all reads_back vs" and "list_all json_storable vs"
  shows "reads_back (JArr vs)"
  unfolding reads_back_def
proof (intro allI impI)
  fix r n
  assume le: "2 * length (json_text (JArr vs) @ r) + 1 \<le> n"
  then obtain k where n: "n = Suc k" by (cases n) auto
  show "json_value n (json_text (JArr vs) @ r) = Some (JArr vs, r)"
  proof (cases vs)
    case Nil
    then show ?thesis by (simp add: n json_space_def)
  next
    case (Cons v ws)
    let ?s = "join '','' (map json_text (v # ws)) @ CHR '']'' # r"
    have "json_elems k ?s = Some (v # ws, r)"
      using assms(1) le by (intro json_elems_back) (auto simp: Cons n)
    moreover obtain c q where "json_text v = c # q" and "\<not> json_space c" and "c \<noteq> CHR '']''"
      using assms(2) Cons json_text_start [of v] by auto
    then obtain p where "?s = c # p" and "json_ws ?s = ?s" and "c \<noteq> CHR '']''"
      using join_start [of "'',''" c q "map json_text ws"] by auto
    ultimately show ?thesis by (simp add: Cons n json_space_def)
  qed
qed

lemma json_text_members:
  assumes "list_all (\<lambda>(k, v). json_storable v) kvs"
  shows "json_text (JObj kvs) = ''{'' @ join '','' (map json_member kvs) @ ''}''"
proof -
  have "filter (\<lambda>(k, v). v \<noteq> JUndef) kvs = kvs"
    using assms by (auto simp: list_all_iff intro!: filter_True)
  moreover have "(\<lambda>(k, v). json_quote k @ '':'' @ json_text v) = json_member"
    by (auto simp: json_member_def)
  ultimately show ?thesis by simp
qed

lemma json_object_back:
  assumes b: "list_all (\<lambda>kv. reads_back (snd kv)) kvs"
    and s: "json_storable (JObj kvs)"
  shows "reads_back (JObj kvs)"
  unfolding reads_back_def
proof (intro allI impI)
  from s have t: "json_text (JObj kvs) = ''{'' @ join '','' (map json_member kvs) @ ''}''"
    by (intro json_text_members) simp
  fix r n
  assume le: "2 * length (json_text (JObj kvs) @ r) + 1 \<le> n"
  then obtain k where n: "n = Suc k" by (cases n) auto
  show "json_value n (json_text (JObj kvs) @ r) = Some (JObj kvs, r)"
  proof (cases kvs)
    case Nil
    then show ?thesis by (simp add: n json_space_def)
  next
    case (Cons kv ms)
    let ?s = "join '','' (map json_member (kv # ms)) @ CHR ''}'' # r"
    have "json_members k ?s = Some (kv # ms, r)"
      using b le unfolding t by (intro json_members_back) (auto simp: Cons n)
    moreover obtain q where "json_member kv = CHR 0x22 # q"
      by (simp add: json_member_def json_quote_def)
    then obtain p where "?s = CHR 0x22 # p"
      using join_start [of "'',''" "CHR 0x22" q "map json_member ms"] by auto
    then have "?s = CHR 0x22 # p" and "json_ws ?s = ?s" by (simp_all add: json_space_def)
    ultimately show ?thesis
      using s unfolding t by (simp add: Cons n json_space_def)
  qed
qed

lemma storable_reads_back: "json_storable v \<Longrightarrow> reads_back v"
proof (induction v)
  case JNull
  have "json_literal ''null'' = Some (JNull, [])" by code_simp
  then show ?case by (intro reads_back_literal) simp
next
  case (JBool b)
  have "json_literal ''true'' = Some (JBool True, [])" and "json_literal ''false'' = Some (JBool False, [])"
    by code_simp+
  then show ?case by (intro reads_back_literal) (cases b, simp_all)
next
  case (JNum x)
  then show ?case by (intro reads_back_literal) simp
next
  case (JStr s)
  have "json_value (Suc n) (json_quote s @ r) = Some (JStr s, r)" for n r
    by (simp add: json_quote_def json_space_def json_chars_body)
  then show ?case by (intro reads_backI) simp
next
  case (JArr vs)
  then show ?case by (intro json_container_back) (auto simp: list_all_iff)
next
  case (JObj kvs)
  then show ?case by (intro json_object_back) (auto simp: list_all_iff)
qed simp

theorem json_parse_text: "json_storable v \<Longrightarrow> json_parse (json_text v) = Inr v"
  using storable_reads_back [of v, THEN reads_backD, of "[]" "2 * length (json_text v) + 2"]
  by (simp add: json_parse_def json_ws_def)

section \<open>Objects as they are written\<close>

text \<open>\<open>JSON.stringify\<close> leaves out a property that is \<open>undefined\<close>.\<close>

lemma json_text_undef: "json_text (JObj kvs) = json_text (JObj (filter (\<lambda>(k, v). v \<noteq> JUndef) kvs))"
  by (simp add: filter_filter)

lemma json_parse_object:
  assumes "json_storable (JObj (filter (\<lambda>(k, v). v \<noteq> JUndef) kvs))"
  shows "json_parse (json_text (JObj kvs)) = Inr (JObj (filter (\<lambda>(k, v). v \<noteq> JUndef) kvs))"
  unfolding json_text_undef [of kvs] using assms by (rule json_parse_text)

end
