(* ===== verification/StoredData.thy ===== *)
theory StoredData
  imports JsonRoundtrip
begin

text \<open>
  The browser storage and what the console keeps in it
  (\<open>web/src/helpers/data.js\<close>): the status of the server with the time it was read, and the
  data of the signed-in user.  The storage is a map of texts; it satisfies the dictionary
  interface.  A full storage (which makes \<open>setItem\<close> throw) is not modelled.
\<close>

type_synonym storage = "string \<rightharpoonup> string"

definition setItem :: "string \<Rightarrow> string \<Rightarrow> storage \<Rightarrow> storage" where
  "setItem k v st = st(k \<mapsto> v)"

definition removeItem :: "string \<Rightarrow> storage \<Rightarrow> storage" where
  "removeItem k st = st(k := None)"

definition getItem :: "storage \<Rightarrow> string \<Rightarrow> string option" where
  "getItem st k = st k"

interpretation store: js_dict Map.empty setItem removeItem getItem "\<lambda>_. True"
  by unfold_locales (simp_all add: setItem_def removeItem_def getItem_def)

lemmas store_get [simp] = store.get_put store.get_del

text \<open>\<open>JSON.stringify(v)\<close> as an argument of \<open>setItem\<close>, which turns \<open>undefined\<close> into a text.\<close>

definition stringified :: "jsval \<Rightarrow> string" where
  "stringified v = (if v = JUndef then ''undefined'' else json_text v)"

section \<open>The status of the server\<close>

definition STATUS_CACHE_KEY :: string where "STATUS_CACHE_KEY = ''status''"

definition STATUS_CACHE_TIMESTAMP_KEY :: string where "STATUS_CACHE_TIMESTAMP_KEY = ''status_timestamp''"

text \<open>The properties stored as their text, in the order of the code.\<close>

definition status_texts :: "jsval \<Rightarrow> (string \<times> string) list" where
  "status_texts data =
     (let prop = (\<lambda>k. (k, text_of_value (value_get data k)))
      in [prop ''system_name'', prop ''logo'', prop ''footer_html'', prop ''quota_per_unit'',
          prop ''display_in_currency'',
          (''quota_display_type'', text_of_value (js_or (value_get data ''quota_display_type'') (JStr ''USD''))),
          prop ''enable_drawing'', prop ''enable_task'', prop ''enable_data_export'',
          (''chats'', stringified (value_get data ''chats'')),
          prop ''data_export_default_time'', prop ''default_collapse_sidebar'', prop ''mj_notify_enabled''])"

definition TypeError :: js_error where "TypeError = JsError ''TypeError''"

text \<open>\<open>setStatusData\<close> at a time: the storage after it, and the error when it throws.\<close>

definition setStatusData :: "int \<Rightarrow> jsval \<Rightarrow> storage \<Rightarrow> storage \<times> js_error option" where
  "setStatusData now data st =
     (let st1 = setItem STATUS_CACHE_TIMESTAMP_KEY (show_int now)
                  (setItem STATUS_CACHE_KEY (stringified data) st)
      in if is_nullish data then (st1, Some TypeError)
         else
           let st2 = foldl (\<lambda>s (k, v). setItem k v s) st1 (status_texts data);
               st3 = (if truthy (value_get data ''chat_link'') then st2 else removeItem ''chat_link'' st2);
               st4 = (if truthy (value_get data ''chat_link2'') then st3 else removeItem ''chat_link2'' st3)
           in (if truthy (value_get data ''docs_link'')
               then setItem ''docs_link'' (text_of_value (value_get data ''docs_link'')) st4
               else removeItem ''docs_link'' st4, None))"

definition readStatusData :: "storage \<Rightarrow> jsval option" where
  "readStatusData st =
     (case getItem st STATUS_CACHE_KEY of
        None \<Rightarrow> None
      | Some raw \<Rightarrow>
          if raw = [] then None
          else (case json_parse raw of
                  Inl _ \<Rightarrow> None
                | Inr data \<Rightarrow> if is_object_value data then Some data else None))"

definition getStatusCacheAge :: "int \<Rightarrow> storage \<Rightarrow> jsnum" where
  "getStatusCacheAge now st =
     (let timestamp = (case getItem st STATUS_CACHE_TIMESTAMP_KEY of None \<Rightarrow> Fin 0 | Some t \<Rightarrow> number_of_text t)
      in if \<not> is_finite_num timestamp \<or> \<not> js_less (Fin 0) timestamp then PosInf
         else js_sub (Fin (of_int now)) timestamp)"

section \<open>The signed-in user\<close>

text \<open>The own properties a spread copies.\<close>

definition own_entries :: "jsval \<Rightarrow> (string \<times> jsval) list" where
  "own_entries v =
     (case v of
        JObj kvs \<Rightarrow> kvs
      | JArr vs \<Rightarrow> map (\<lambda>i. (show_nat i, vs ! i)) [0..<length vs]
      | JStr s \<Rightarrow> map (\<lambda>i. (show_nat i, JStr [s ! i])) [0..<length s]
      | _ \<Rightarrow> [])"

definition normalizeUserData :: "jsval \<Rightarrow> jsval" where
  "normalizeUserData data =
     (if \<not> is_object_value data then data
      else
        let configuredGroup = js_coalesce (js_coalesce (value_get data ''configured_group'')
                                (value_get data ''group'')) (JStr []);
            effectiveGroup = js_coalesce (js_coalesce (value_get data ''effective_group'')
                                (value_get data ''group'')) configuredGroup
        in JObj (obj_spread (own_entries data)
             [(''configured_group'', configuredGroup), (''effective_group'', effectiveGroup),
              (''group'', effectiveGroup)]))"

definition getUserData :: "storage \<Rightarrow> jsval" where
  "getUserData st =
     (case getItem st ''user'' of
        None \<Rightarrow> JNull
      | Some raw \<Rightarrow>
          if raw = [] then JNull
          else (case json_parse raw of Inl _ \<Rightarrow> JNull | Inr data \<Rightarrow> normalizeUserData data))"

definition setUserData :: "jsval \<Rightarrow> storage \<Rightarrow> storage" where
  "setUserData data st = setItem ''user'' (stringified (normalizeUserData data)) st"

section \<open>Reading back what was stored\<close>

lemma json_text_nonempty [simp]: "json_text v \<noteq> []"
  by (cases v) (simp_all add: json_quote_def)

lemma stringified_back:
  "json_storable v \<Longrightarrow> stringified v \<noteq> [] \<and> json_parse (stringified v) = Inr v"
  by (cases v) (simp_all add: stringified_def json_parse_text del: json_text.simps)

lemma replace_key_same: "map_of kvs k = Some v \<Longrightarrow> replace_key k v kvs = kvs"
  by (induction k v kvs rule: replace_key.induct) (auto split: if_splits)

lemma obj_put_same: "obj_get kvs k = Some v \<Longrightarrow> obj_put k v kvs = kvs"
  by (auto simp: obj_put_def obj_get_def replace_key_same dest: map_of_SomeD intro: rev_image_eqI)

lemma coalesce_set: "\<not> is_nullish a \<Longrightarrow> js_coalesce a b = a"
  by (simp add: js_coalesce_def)

lemma coalesce_not_nullish: "\<not> is_nullish b \<Longrightarrow> \<not> is_nullish (js_coalesce a b)"
  by (simp add: js_coalesce_def)

lemma normalized_groups:
  assumes "is_object_value d"
  obtains kvs c e where "normalizeUserData d = JObj kvs" and "\<not> is_nullish c" and "\<not> is_nullish e"
    and "obj_get kvs ''configured_group'' = Some c" and "obj_get kvs ''effective_group'' = Some e"
    and "obj_get kvs ''group'' = Some e"
proof -
  let ?c = "js_coalesce (js_coalesce (value_get d ''configured_group'') (value_get d ''group'')) (JStr [])"
  let ?e = "js_coalesce (js_coalesce (value_get d ''effective_group'') (value_get d ''group'')) ?c"
  let ?kvs = "obj_spread (own_entries d)
    [(''configured_group'', ?c), (''effective_group'', ?e), (''group'', ?e)]"
  have "\<not> is_nullish ?c" and "\<not> is_nullish ?e"
    by (simp_all add: coalesce_not_nullish)
  moreover have "normalizeUserData d = JObj ?kvs"
    using assms by (simp add: normalizeUserData_def Let_def)
  ultimately show ?thesis
    by (intro that [of ?kvs ?c ?e]) (simp_all add: obj_spread_def)
qed

lemma normalize_idempotent: "normalizeUserData (normalizeUserData d) = normalizeUserData d"
proof (cases "is_object_value d")
  case True
  then obtain kvs c e where n: "normalizeUserData d = JObj kvs" and ce: "\<not> is_nullish c" "\<not> is_nullish e"
    and g: "obj_get kvs ''configured_group'' = Some c" "obj_get kvs ''effective_group'' = Some e"
      "obj_get kvs ''group'' = Some e"
    by (rule normalized_groups)
  have "normalizeUserData (JObj kvs) = JObj kvs"
    using ce g by (simp add: normalizeUserData_def is_object_value_def value_get_def coalesce_set Let_def
        own_entries_def obj_spread_def obj_put_same)
  then show ?thesis by (simp add: n)
qed (simp add: normalizeUserData_def)

lemma user_data_back:
  "json_storable (normalizeUserData d) \<Longrightarrow> getUserData (setUserData d st) = normalizeUserData d"
  using stringified_back [of "normalizeUserData d"]
  by (simp add: getUserData_def setUserData_def normalize_idempotent)

text \<open>The text of a time stamp is read as the number.\<close>

lemma digits_scanned:
  assumes "list_all is_digit ds" and "ds \<noteq> []"
  shows "take_number ds = Some (fl (of_int (read_int ds)), [])"
proof -
  obtain c q where ds: "ds = c # q" and c: "is_digit c" using assms by (cases ds) auto
  have t: "takeWhile is_digit ds = ds" and d: "dropWhile is_digit ds = []"
    using assms(1) by (simp_all add: list_all_iff)
  have "strip_prefix ''Infinity'' ds = None" and "c \<noteq> CHR ''-''" and "c \<noteq> CHR ''+''"
    using c by (auto simp: ds is_digit_def)
  moreover have "take_decimal ds = Some (of_int (read_int ds), [])"
    using assms(2) unfolding take_decimal_def take_digits_def t d
    by (simp add: take_exponent_def base_pow_def int_pow)
  ultimately show ?thesis
    by (simp add: take_number_def take_unsigned_def ds)
qed

lemma number_of_digits:
  assumes "list_all is_digit ds" and "ds \<noteq> []"
  shows "number_of_text ds = fl (of_int (read_int ds))"
proof -
  have "js_trim ds = ds"
    using assms by (intro trim_by_id) (auto simp: trimmed_by_def list_all_iff is_digit_not_space)
  moreover have "strip_prefix [CHR ''0'', x] ds = None" if "\<not> is_digit x" for x
    using assms(1) that by (cases ds; cases "tl ds") auto
  then have "strip_prefix ''0x'' ds = None" "strip_prefix ''0X'' ds = None" "strip_prefix ''0o'' ds = None"
    "strip_prefix ''0O'' ds = None" "strip_prefix ''0b'' ds = None" "strip_prefix ''0B'' ds = None"
    by (simp_all add: is_digit_def)
  ultimately show ?thesis
    using assms by (simp add: number_of_text_def Let_def digits_scanned)
qed

lemma number_of_time: "0 \<le> n \<Longrightarrow> number_of_text (show_int n) = fl (of_int n)"
  using number_of_digits [of "show_int n"] show_int_digits [of n] by (simp add: list_all_iff)

lemma status_texts_keys:
  "STATUS_CACHE_KEY \<notin> fst ` set (status_texts d)" "STATUS_CACHE_TIMESTAMP_KEY \<notin> fst ` set (status_texts d)"
  by (simp_all add: status_texts_def STATUS_CACHE_KEY_def STATUS_CACHE_TIMESTAMP_KEY_def)

lemma stored_elsewhere:
  "k \<notin> fst ` set kvs \<Longrightarrow> getItem (foldl (\<lambda>s (k, v). setItem k v s) st kvs) k = getItem st k"
  by (induction kvs arbitrary: st) auto

lemma status_kept:
  assumes "\<not> is_nullish data"
  shows "getItem (fst (setStatusData now data st)) STATUS_CACHE_KEY = Some (stringified data)"
    and "getItem (fst (setStatusData now data st)) STATUS_CACHE_TIMESTAMP_KEY = Some (show_int now)"
  using assms status_texts_keys [of data]
  by (simp_all add: setStatusData_def Let_def stored_elsewhere STATUS_CACHE_KEY_def STATUS_CACHE_TIMESTAMP_KEY_def)

section \<open>Properties\<close>

text \<open>
  What \<open>setStatusData\<close> stores is what the next page reads: the same status object, and as
  its age the time that has passed, whatever was stored before.
\<close>

theorem status_cache_roundtrip:
  assumes "is_object_value data" and "json_storable data"
    and "0 < now" and "is_double (of_int now)"
  shows "snd (setStatusData now data st) = None
         \<and> readStatusData (fst (setStatusData now data st)) = Some data
         \<and> getStatusCacheAge later (fst (setStatusData now data st)) = fl (of_int later - of_int now)"
proof -
  have n: "\<not> is_nullish data" using assms(1) by (cases data) (auto simp: is_object_value_def)
  have "fl (of_int now) = Fin (of_int now)" using assms(4) by (simp add: is_double_def)
  with assms n show ?thesis
    using stringified_back [OF assms(2)] status_kept [OF n]
    by (simp add: readStatusData_def getStatusCacheAge_def number_of_time is_finite_num_def js_sub_def)
      (simp add: setStatusData_def Let_def)
qed

lemma status_cache_roundtrip_witness:
  "readStatusData (fst (setStatusData 1700000000000 (JObj [(''system_name'', JStr ''New API'')]) Map.empty))
     = Some (JObj [(''system_name'', JStr ''New API'')])"
proof -
  let ?d = "JObj [(''system_name'', JStr ''New API'')]"
  have "is_object_value ?d" and "json_storable ?d" and "is_double (of_int 1700000000000)" by code_simp+
  with status_cache_roundtrip [of ?d 1700000000000] show ?thesis by simp
qed

text \<open>
  Storing the user and reading it back gives the normalized user: every signed-in user the
  console reads has a configured and an effective group, \<open>group\<close> is the effective one, and
  normalizing again changes nothing.
\<close>

theorem user_data_roundtrip:
  assumes "json_storable (normalizeUserData d)" and "is_object_value d"
  shows "getUserData (setUserData d st) = normalizeUserData d
         \<and> normalizeUserData (getUserData (setUserData d st)) = getUserData (setUserData d st)
         \<and> value_get (getUserData (setUserData d st)) ''group''
             = value_get (getUserData (setUserData d st)) ''effective_group''
         \<and> \<not> is_nullish (value_get (getUserData (setUserData d st)) ''configured_group'')
         \<and> \<not> is_nullish (value_get (getUserData (setUserData d st)) ''effective_group'')"
proof -
  from assms(2) obtain kvs c e where "normalizeUserData d = JObj kvs" "\<not> is_nullish c" "\<not> is_nullish e"
    "obj_get kvs ''configured_group'' = Some c" "obj_get kvs ''effective_group'' = Some e"
    "obj_get kvs ''group'' = Some e"
    by (rule normalized_groups)
  with user_data_back [OF assms(1), of st] normalize_idempotent [of d] show ?thesis
    by (simp add: value_get_def)
qed

lemma user_data_roundtrip_witness:
  "value_get (getUserData (setUserData (JObj [(''id'', JNum (Fin 7)), (''group'', JStr ''vip'')]) Map.empty))
     ''group'' = value_get (getUserData (setUserData (JObj [(''id'', JNum (Fin 7)), (''group'', JStr ''vip'')])
       Map.empty)) ''effective_group''"
proof -
  let ?d = "JObj [(''id'', JNum (Fin 7)), (''group'', JStr ''vip'')]"
  have "json_storable (normalizeUserData ?d)" and "is_object_value ?d" by code_simp+
  with user_data_roundtrip [of ?d Map.empty] show ?thesis by blast
qed

end
