(* ===== verification/JsonPretty.thy ===== *)
theory JsonPretty
  imports JsonRoundtrip
begin

text \<open>
  \<open>JSON.parse\<close> undoes \<open>JSON.stringify(v, null, 2)\<close>: the parser skips the line breaks and the
  indentation between the elements of a container.
\<close>

lemma json_value_skip: "list_all json_space w \<Longrightarrow> json_value n (w @ s) = json_value n s"
proof -
  assume w: "list_all json_space w"
  have "json_ws (w @ s) = json_ws s"
    using w by (induction w) (simp_all add: json_ws_def)
  then show ?thesis by (cases n) simp_all
qed

lemma json_ws_skip_list: "list_all json_space w \<Longrightarrow> json_ws (w @ s) = json_ws s"
  by (induction w) (simp_all add: json_ws_def)

definition reads :: "string \<Rightarrow> jsval \<Rightarrow> bool" where
  "reads t v \<longleftrightarrow>
     (\<forall>r n. delimited r \<longrightarrow> 2 * length (t @ r) + 1 \<le> n \<longrightarrow> json_value n (t @ r) = Some (v, r))"

lemma readsD:
  "reads t v \<Longrightarrow> delimited r \<Longrightarrow> 2 * length (t @ r) + 1 \<le> n \<Longrightarrow> json_value n (t @ r) = Some (v, r)"
  by (simp add: reads_def)

lemma reads_space:
  assumes "reads t v" and "list_all json_space w"
  shows "reads (w @ t) v"
  using assms unfolding reads_def by (simp add: json_value_skip)

section \<open>Elements and members with white space between them\<close>

definition newline :: "string \<Rightarrow> string" where
  "newline ind = CHR 0x0A # ind"

lemma elems_back:
  assumes "list_all2 reads (t # ts) (v # vs)" and "list_all json_space ind"
    and "2 * length (join (CHR '','' # newline ind) (t # ts) @ newline close @ CHR '']'' # r) + 2 \<le> n"
    and "list_all json_space close"
  shows "json_elems n (join (CHR '','' # newline ind) (t # ts) @ newline close @ CHR '']'' # r) = Some (v # vs, r)"
  using assms(1,3)
proof (induction ts arbitrary: t v vs n)
  case Nil
  then obtain k where n: "n = Suc k" and vs: "vs = []" and t: "reads t v" by (cases n) auto
  have "json_value k (t @ newline close @ CHR '']'' # r) = Some (v, newline close @ CHR '']'' # r)"
    using Nil.prems by (intro readsD [OF t]) (simp_all add: n newline_def)
  moreover have "json_ws (newline close @ CHR '']'' # r) = CHR '']'' # r"
    using assms(4) json_ws_skip_list [of "newline close" "CHR '']'' # r"] by (simp add: newline_def json_space_def)
  ultimately show ?case by (simp add: n vs)
next
  case (Cons u ts)
  then obtain k w ws where n: "n = Suc k" and vs: "vs = w # ws" and t: "reads t v"
    and us: "list_all2 reads (u # ts) (w # ws)" by (cases n; cases vs) auto
  let ?r = "join (CHR '','' # newline ind) (u # ts) @ newline close @ CHR '']'' # r"
  have "json_value k (t @ CHR '','' # newline ind @ ?r) = Some (v, CHR '','' # newline ind @ ?r)"
    using Cons.prems by (intro readsD [OF t]) (simp_all add: n)
  moreover have "json_elems k (newline ind @ ?r) = Some (w # ws, r)"
  proof -
    have "json_elems k ?r = Some (w # ws, r)"
      using Cons.prems us by (intro Cons.IH) (simp_all add: n vs)
    moreover have "list_all json_space (newline ind)" using assms(2) by (simp add: newline_def json_space_def)
    then have "json_elems k (newline ind @ ?r) = json_elems k ?r"
      by (cases k) (simp_all only: json_elems.simps json_value_skip)
    ultimately show ?thesis by simp
  qed
  ultimately show ?case by (simp add: n vs json_space_def)
qed

definition pretty_member :: "string \<Rightarrow> string \<times> jsval \<Rightarrow> string" where
  "pretty_member inner kv = json_quote (fst kv) @ '': '' @ json_pretty inner (snd kv)"

lemma member_back:
  assumes "reads (json_pretty inner v) v" and "delimited r"
    and "2 * length (pretty_member inner (k, v) @ r) + 1 \<le> n"
  shows "\<exists>q. json_unquote (json_ws (pretty_member inner (k, v) @ r)) = Some (k, CHR '':'' # q)
             \<and> json_value n q = Some (v, r)"
proof -
  have "json_ws (pretty_member inner (k, v) @ r) = json_quote k @ CHR '':'' # '' '' @ json_pretty inner v @ r"
    by (simp add: pretty_member_def json_quote_def json_space_def)
  moreover have "json_value n ('' '' @ json_pretty inner v @ r) = json_value n (json_pretty inner v @ r)"
    by (rule json_value_skip) (simp add: json_space_def)
  moreover have "json_value n (json_pretty inner v @ r) = Some (v, r)"
    using assms(3) by (intro readsD [OF assms(1,2)]) (simp add: pretty_member_def)
  ultimately show ?thesis by simp
qed

lemma members_back:
  assumes "list_all (\<lambda>kv. reads (json_pretty inner (snd kv)) (snd kv)) (kv # kvs)"
    and "list_all json_space ind" and "list_all json_space close"
    and "2 * length (join (CHR '','' # newline ind) (map (pretty_member inner) (kv # kvs))
                      @ newline close @ CHR ''}'' # r) + 2 \<le> n"
  shows "json_members n (join (CHR '','' # newline ind) (map (pretty_member inner) (kv # kvs))
           @ newline close @ CHR ''}'' # r) = Some (kv # kvs, r)"
  using assms(1,4)
proof (induction kvs arbitrary: kv n)
  case Nil
  then obtain k where n: "n = Suc k" by (cases n) auto
  have ws: "json_ws (newline close @ CHR ''}'' # r) = CHR ''}'' # r"
    using assms(3) json_ws_skip_list [of "newline close" "CHR ''}'' # r"] by (simp add: newline_def json_space_def)
  from Nil member_back [of inner "snd kv" "newline close @ CHR ''}'' # r" "fst kv" k] obtain q
    where "json_unquote (json_ws (pretty_member inner kv @ newline close @ CHR ''}'' # r)) = Some (fst kv, CHR '':'' # q)"
      and "json_value k q = Some (snd kv, newline close @ CHR ''}'' # r)"
    by (auto simp: n newline_def)
  with ws show ?case by (simp add: n json_space_def)
next
  case (Cons lw kvs)
  then obtain k where n: "n = Suc k" by (cases n) auto
  let ?r = "join (CHR '','' # newline ind) (map (pretty_member inner) (lw # kvs)) @ newline close @ CHR ''}'' # r"
  from Cons.prems member_back [of inner "snd kv" "CHR '','' # newline ind @ ?r" "fst kv" k] obtain q
    where "json_unquote (json_ws (pretty_member inner kv @ CHR '','' # newline ind @ ?r)) = Some (fst kv, CHR '':'' # q)"
      and "json_value k q = Some (snd kv, CHR '','' # newline ind @ ?r)"
    by (auto simp: n)
  moreover have "json_members k (newline ind @ ?r) = Some (lw # kvs, r)"
  proof -
    have "json_members k ?r = Some (lw # kvs, r)"
      using Cons.prems by (intro Cons.IH) (auto simp: n)
    moreover have "list_all json_space (newline ind)" using assms(2) by (simp add: newline_def json_space_def)
    then have "json_members k (newline ind @ ?r) = json_members k ?r"
      by (cases k) (simp_all only: json_members.simps json_ws_skip_list)
    ultimately show ?thesis by simp
  qed
  ultimately show ?case by (simp add: n json_space_def)
qed

section \<open>Values\<close>

lemma pretty_start:
  assumes "json_storable v"
  obtains c q where "json_pretty ind v = c # q" and "\<not> json_space c" and "c \<noteq> CHR '']''"
proof (cases v)
  case (JNum x)
  obtain c q where "json_text v = c # q" "\<not> json_space c" "c \<noteq> CHR '']''"
    by (rule json_text_start [OF assms])
  moreover have "json_pretty ind v = json_text v" by (simp add: JNum)
  ultimately show ?thesis using that by simp
next
  case (JBool b)
  then show ?thesis by (cases b) (auto simp: json_space_def intro: that)
next
  case (JArr vs)
  obtain q where "json_pretty ind v = CHR ''['' # q" by (cases "vs = []") (simp_all add: JArr Let_def)
  then show ?thesis by (rule that) (simp_all add: json_space_def)
next
  case (JObj kvs)
  obtain q where "json_pretty ind v = CHR ''{'' # q" 
    by (cases "filter (\<lambda>(k, v). v \<noteq> JUndef) kvs = []") (simp_all add: JObj Let_def del: filter_empty_conv)
  then show ?thesis by (rule that) (simp_all add: json_space_def)
qed (use assms that in \<open>simp_all add: json_quote_def json_space_def\<close>)

lemma reads_array:
  assumes "list_all2 reads (map (json_pretty (ind @ ''  '')) vs) vs" and "list_all json_storable vs"
    and "list_all json_space ind"
  shows "reads (json_pretty ind (JArr vs)) (JArr vs)"
  unfolding reads_def
proof (intro allI impI)
  fix r n
  assume le: "2 * length (json_pretty ind (JArr vs) @ r) + 1 \<le> n"
  then obtain k where n: "n = Suc k" by (cases n) auto
  show "json_value n (json_pretty ind (JArr vs) @ r) = Some (JArr vs, r)"
  proof (cases vs)
    case Nil
    then show ?thesis by (simp add: n json_space_def)
  next
    case (Cons v ws)
    let ?in = "ind @ ''  ''"
    let ?s = "join (CHR '','' # newline ?in) (map (json_pretty ?in) (v # ws)) @ newline ind @ CHR '']'' # r"
    have sp: "list_all json_space ?in" using assms(3) by (simp add: json_space_def)
    have t: "json_pretty ind (JArr vs) @ r = CHR ''['' # newline ?in @ ?s"
      by (simp add: Cons Let_def newline_def)
    have k: "2 * length ?s + 2 \<le> k" using le unfolding t n by simp
    have "json_elems k ?s = Some (v # ws, r)"
      unfolding list.map using assms(1) sp k assms(3) unfolding Cons list.map by (intro elems_back)
    moreover obtain c q where "json_pretty ?in v = c # q" and "\<not> json_space c" and "c \<noteq> CHR '']''"
      using assms(2) Cons pretty_start [of v ?in] by auto
    then obtain p where p: "?s = c # p" and "json_ws ?s = ?s" and c: "c \<noteq> CHR '']''"
      using join_start [of "CHR '','' # newline ?in" c q "map (json_pretty ?in) ws"] by auto
    moreover have "json_ws (newline ?in @ ?s) = json_ws ?s"
      using sp by (intro json_ws_skip_list) (simp add: newline_def json_space_def)
    ultimately show ?thesis
      unfolding t unfolding n Cons json_value.simps by (simp add: json_space_def split del: if_split)
  qed
qed

lemma pretty_members:
  assumes "list_all (\<lambda>(k, v). json_storable v) kvs" and "kvs \<noteq> []"
  shows "json_pretty ind (JObj kvs) = CHR ''{'' # newline (ind @ ''  '')
     @ join (CHR '','' # newline (ind @ ''  '')) (map (pretty_member (ind @ ''  '')) kvs) @ newline ind @ ''}''"
proof -
  have "filter (\<lambda>(k, v). v \<noteq> JUndef) kvs = kvs"
    using assms(1) by (auto simp: list_all_iff intro!: filter_True)
  moreover have "(\<lambda>(k, v). json_quote k @ '': '' @ json_pretty i v) = pretty_member i" for i
    by (auto simp: pretty_member_def)
  ultimately show ?thesis using assms(2) by (simp add: Let_def newline_def)
qed

lemma reads_object:
  assumes b: "list_all (\<lambda>kv. reads (json_pretty (ind @ ''  '') (snd kv)) (snd kv)) kvs"
    and s: "json_storable (JObj kvs)" and i: "list_all json_space ind"
  shows "reads (json_pretty ind (JObj kvs)) (JObj kvs)"
proof (cases kvs)
  case Nil
  have "json_value n (json_pretty ind (JObj []) @ r) = Some (JObj [], r)" if "1 \<le> n" for n r
    using that by (cases n) (simp_all add: json_space_def)
  with Nil show ?thesis by (simp add: reads_def)
next
  case (Cons kv ms)
  let ?in = "ind @ ''  ''"
  have sp: "list_all json_space ?in" using i by (simp add: json_space_def)
  have t: "json_pretty ind (JObj kvs) = CHR ''{'' # newline ?in
      @ join (CHR '','' # newline ?in) (map (pretty_member ?in) (kv # ms)) @ newline ind @ ''}''"
    using s Cons by (subst pretty_members) simp_all
  show ?thesis unfolding reads_def
  proof (intro allI impI)
    fix r n
    assume le: "2 * length (json_pretty ind (JObj kvs) @ r) + 1 \<le> n"
    then obtain k where n: "n = Suc k" by (cases n) auto
    let ?s = "join (CHR '','' # newline ?in) (map (pretty_member ?in) (kv # ms)) @ newline ind @ CHR ''}'' # r"
    have s: "json_pretty ind (JObj kvs) @ r = CHR ''{'' # newline ?in @ ?s" unfolding t by simp
    have k: "2 * length ?s + 2 \<le> k" using le unfolding s n by simp
    have m: "json_members k ?s = Some (kv # ms, r)"
      using b unfolding Cons by (rule members_back [OF _ sp i k])
    obtain q where "pretty_member ?in kv = CHR 0x22 # q"
      by (simp add: pretty_member_def json_quote_def)
    then obtain p where p: "?s = CHR 0x22 # p"
      using join_start [of "CHR '','' # newline ?in" "CHR 0x22" q "map (pretty_member ?in) ms"] by auto
    then have "json_ws ?s = ?s" by (simp add: json_space_def)
    moreover have "json_ws (newline ?in @ ?s) = json_ws ?s"
      using sp by (intro json_ws_skip_list) (simp add: newline_def json_space_def)
    moreover have "obj_of (kv # ms) = kv # ms" using assms(2) Cons by simp
    ultimately show "json_value n (json_pretty ind (JObj kvs) @ r) = Some (JObj kvs, r)"
      using m p unfolding s unfolding n Cons json_value.simps by (simp add: json_space_def split del: if_split)
  qed
qed

lemma reads_scalar: "json_storable v \<Longrightarrow> json_pretty ind v = json_text v \<Longrightarrow> reads (json_pretty ind v) v"
  using storable_reads_back [of v] by (simp add: reads_def reads_back_def del: json_value.simps)

lemma pretty_reads: "json_storable v \<Longrightarrow> list_all json_space ind \<Longrightarrow> reads (json_pretty ind v) v"
proof (induction v arbitrary: ind)
  case (JArr vs)
  have "list_all json_space (ind @ ''  '')" using JArr.prems by (simp add: json_space_def list_all_iff)
  then have "reads (json_pretty (ind @ ''  '') v) v" if "v \<in> set vs" for v
    using JArr that by (simp add: list_all_iff)
  with JArr.prems show ?case
    by (intro reads_array) (simp_all add: list_all2_conv_all_nth)
next
  case (JObj kvs)
  have "list_all json_space (ind @ ''  '')" using JObj.prems by (simp add: json_space_def list_all_iff)
  then have "reads (json_pretty (ind @ ''  '') (snd kv)) (snd kv)" if "kv \<in> set kvs" for kv
    using JObj that by (cases kv) (auto simp: list_all_iff)
  with JObj.prems show ?case
    by (intro reads_object) (simp_all add: list_all_iff)
qed (rule reads_scalar, simp, simp)+

theorem json_parse_pretty: "json_storable v \<Longrightarrow> json_parse (json_pretty [] v) = Inr v"
  using pretty_reads [of v "[]", THEN readsD, of "[]" "2 * length (json_pretty [] v) + 2"]
  by (simp add: json_parse_def json_ws_def)

lemma json_pretty_nonempty [simp]: "json_pretty ind v \<noteq> []"
  by (cases v) (simp_all add: json_quote_def Let_def)

end
