(* ===== verification/ParamOverride.thy ===== *)
theory ParamOverride
  imports StoredData JsonPretty
begin

text \<open>
  The parameter override editor of a channel (\<open>ParamOverrideEditorModal.jsx\<close>): a list of
  operations with conditions, which the console stores as one JSON text.  This theory holds
  the data and the functions outside the component: reading an operation from any JSON
  value, the drafts of the two structured values (\<open>return_error\<close>, \<open>prune_objects\<close>), the
  validation, and the text that is saved.  The state and the handlers are in
  \<open>ParamOverrideEditor\<close>.

  A local id is \<open>param_override_<time>_<seed>\<close> with a seed that only grows; the model keeps
  the seed.  Interface texts are constructors (\<open>override_message\<close>) or a parameter.
\<close>

section \<open>Modes\<close>

definition OPERATION_MODE_VALUES :: "string list" where
  "OPERATION_MODE_VALUES =
     [''set'', ''delete'', ''append'', ''prepend'', ''copy'', ''move'', ''replace'', ''regex_replace'',
      ''trim_prefix'', ''trim_suffix'', ''ensure_prefix'', ''ensure_suffix'', ''trim_space'',
      ''to_lower'', ''to_upper'', ''return_error'', ''prune_objects'', ''pass_headers'',
      ''sync_fields'', ''set_header'', ''delete_header'', ''copy_header'', ''move_header'']"

definition CONDITION_MODE_VALUES :: "string list" where
  "CONDITION_MODE_VALUES =
     [''full'', ''prefix'', ''suffix'', ''contains'', ''gt'', ''gte'', ''lt'', ''lte'']"

text \<open>Which fields a mode has.  \<open>to: false\<close> and an absent \<open>to\<close> are both falsy.\<close>

record mode_meta =
  m_path :: bool
  m_pathOptional :: bool
  m_value :: bool
  m_keepOrigin :: bool
  m_from :: bool
  m_to :: bool
  m_pathAlias :: bool

definition no_fields :: mode_meta where
  "no_fields = \<lparr>m_path = False, m_pathOptional = False, m_value = False, m_keepOrigin = False,
     m_from = False, m_to = False, m_pathAlias = False\<rparr>"

definition MODE_META :: "(string \<times> mode_meta) list" where
  "MODE_META =
     [(''delete'', no_fields\<lparr>m_path := True\<rparr>),
      (''set'', no_fields\<lparr>m_path := True, m_value := True, m_keepOrigin := True\<rparr>),
      (''append'', no_fields\<lparr>m_path := True, m_value := True, m_keepOrigin := True\<rparr>),
      (''prepend'', no_fields\<lparr>m_path := True, m_value := True, m_keepOrigin := True\<rparr>),
      (''copy'', no_fields\<lparr>m_from := True, m_to := True\<rparr>),
      (''move'', no_fields\<lparr>m_from := True, m_to := True\<rparr>),
      (''replace'', no_fields\<lparr>m_path := True, m_from := True\<rparr>),
      (''regex_replace'', no_fields\<lparr>m_path := True, m_from := True\<rparr>),
      (''trim_prefix'', no_fields\<lparr>m_path := True, m_value := True\<rparr>),
      (''trim_suffix'', no_fields\<lparr>m_path := True, m_value := True\<rparr>),
      (''ensure_prefix'', no_fields\<lparr>m_path := True, m_value := True\<rparr>),
      (''ensure_suffix'', no_fields\<lparr>m_path := True, m_value := True\<rparr>),
      (''trim_space'', no_fields\<lparr>m_path := True\<rparr>),
      (''to_lower'', no_fields\<lparr>m_path := True\<rparr>),
      (''to_upper'', no_fields\<lparr>m_path := True\<rparr>),
      (''return_error'', no_fields\<lparr>m_value := True\<rparr>),
      (''prune_objects'', no_fields\<lparr>m_pathOptional := True, m_value := True\<rparr>),
      (''pass_headers'', no_fields\<lparr>m_value := True, m_keepOrigin := True\<rparr>),
      (''sync_fields'', no_fields\<lparr>m_from := True, m_to := True\<rparr>),
      (''set_header'', no_fields\<lparr>m_path := True, m_value := True, m_keepOrigin := True\<rparr>),
      (''delete_header'', no_fields\<lparr>m_path := True\<rparr>),
      (''copy_header'', no_fields\<lparr>m_from := True, m_to := True, m_keepOrigin := True, m_pathAlias := True\<rparr>),
      (''move_header'', no_fields\<lparr>m_from := True, m_to := True, m_keepOrigin := True, m_pathAlias := True\<rparr>)]"

definition meta_of :: "string \<Rightarrow> mode_meta" where
  "meta_of mode =
     (case map_of MODE_META mode of
        Some meta \<Rightarrow> meta
      | None \<Rightarrow> no_fields\<lparr>m_path := True, m_value := True, m_keepOrigin := True\<rparr>)"

definition VALUE_REQUIRED_MODES :: "string list" where
  "VALUE_REQUIRED_MODES =
     [''trim_prefix'', ''trim_suffix'', ''ensure_prefix'', ''ensure_suffix'', ''set_header'',
      ''return_error'', ''prune_objects'', ''pass_headers'']"

definition FROM_REQUIRED_MODES :: "string list" where
  "FROM_REQUIRED_MODES =
     [''copy'', ''move'', ''replace'', ''regex_replace'', ''copy_header'', ''move_header'', ''sync_fields'']"

definition TO_REQUIRED_MODES :: "string list" where
  "TO_REQUIRED_MODES = [''copy'', ''move'', ''copy_header'', ''move_header'', ''sync_fields'']"

section \<open>Values as text\<close>

text \<open>The id text, and that two ids with different seeds differ whatever the clock says.\<close>

definition nextLocalId :: "nat \<Rightarrow> nat \<Rightarrow> string \<times> nat" where
  "nextLocalId now seed = (''param_override_'' @ show_nat now @ ''_'' @ show_nat seed, seed + 1)"

definition toValueText :: "jsval \<Rightarrow> string" where
  "toValueText v = (case v of JUndef \<Rightarrow> [] | JStr s \<Rightarrow> s | _ \<Rightarrow> json_text v)"

definition parseLooseValue :: "string \<Rightarrow> jsval" where
  "parseLooseValue raw =
     (if js_trim raw = [] then JStr []
      else case json_parse raw of Inr v \<Rightarrow> v | Inl _ \<Rightarrow> JStr raw)"

text \<open>\<open>list.map((item) => String(item ?? '').trim()).filter(Boolean)\<close>\<close>

definition header_texts :: "jsval list \<Rightarrow> string list" where
  "header_texts vs =
     filter_nonempty (map (\<lambda>v. js_trim (text_of_value (js_coalesce v (JStr [])))) vs)"

definition parsePassHeaderNames :: "jsval \<Rightarrow> string list" where
  "parsePassHeaderNames rawValue =
     (case rawValue of
        JArr vs \<Rightarrow> header_texts vs
      | JObj _ \<Rightarrow>
          (case value_get rawValue ''headers'' of
             JArr hs \<Rightarrow> header_texts hs
           | _ \<Rightarrow>
               if value_get rawValue ''header'' \<noteq> JUndef then
                 (let single = js_trim (text_of_value (js_coalesce (value_get rawValue ''header'') (JStr [])))
                  in if single \<noteq> [] then [single] else [])
               else [])
      | JStr s \<Rightarrow> filter_nonempty (map js_trim (split_on (\<lambda>c. c = CHR '','') s))
      | _ \<Rightarrow> [])"

text \<open>\<open>{...item}\<close> of an object; anything else stays.\<close>

definition copied :: "jsval \<Rightarrow> jsval" where
  "copied v = (if is_object_value v then JObj (own_entries v) else v)"

definition localizeTemplateOperations :: "(string \<Rightarrow> string) \<Rightarrow> jsval list \<Rightarrow> jsval list" where
  "localizeTemplateOperations t operations =
     map (\<lambda>operation.
       if \<not> is_object_value operation then operation
       else
         (let kvs = own_entries operation;
              kvs1 = (case value_get (JObj kvs) ''description'' of
                        JStr s \<Rightarrow> obj_put ''description'' (JStr (t s)) kvs | _ \<Rightarrow> kvs);
              kvs2 = (case value_get (JObj kvs1) ''conditions'' of
                        JArr cs \<Rightarrow> obj_put ''conditions'' (JArr (map copied cs)) kvs1 | _ \<Rightarrow> kvs1)
          in JObj kvs2)) operations"

section \<open>The draft of a custom error\<close>

record return_error_draft =
  rd_message :: string
  rd_statusCode :: jsnum
  rd_code :: string
  rd_type :: string
  rd_skipRetry :: bool
  rd_simpleMode :: bool

text \<open>\<open>Number.isInteger(x) && x >= 100 && x <= 599 ? x : 400\<close>\<close>

definition status_or_400 :: "jsnum \<Rightarrow> jsnum" where
  "status_or_400 x =
     (if is_integer_num x \<and> js_le (Fin 100) x \<and> js_le x (Fin 599) then x else Fin 400)"

text \<open>\<open>String(a || '').trim()\<close>\<close>

definition text_or_empty :: "jsval \<Rightarrow> string" where
  "text_or_empty v = js_trim (text_of_value (js_or v (JStr [])))"

definition re_defaults :: return_error_draft where
  "re_defaults = \<lparr>rd_message = [], rd_statusCode = Fin 400, rd_code = [], rd_type = [],
     rd_skipRetry = True, rd_simpleMode = True\<rparr>"

definition parseReturnErrorDraft :: "string \<Rightarrow> return_error_draft" where
  "parseReturnErrorDraft valueText =
     (let raw = js_trim valueText
      in if raw = [] then re_defaults
         else
           (case json_parse raw of
              Inr (JObj kvs) \<Rightarrow>
                (let parsed = JObj kvs;
                     statusRaw = (if value_get parsed ''status_code'' \<noteq> JUndef
                                  then value_get parsed ''status_code'' else value_get parsed ''status'')
                 in \<lparr>rd_message = text_or_empty (js_or (value_get parsed ''message'') (value_get parsed ''msg'')),
                     rd_statusCode = status_or_400 (number_of_value statusRaw),
                     rd_code = text_or_empty (value_get parsed ''code''),
                     rd_type = text_or_empty (value_get parsed ''type''),
                     rd_skipRetry = (value_get parsed ''skip_retry'' \<noteq> JBool False),
                     rd_simpleMode = False\<rparr>)
            | _ \<Rightarrow> re_defaults\<lparr>rd_message := raw\<rparr>))"

text \<open>\<open>if (b) o[k] = v\<close>\<close>

definition put_if :: "bool \<Rightarrow> string \<Rightarrow> 'v \<Rightarrow> (string \<times> 'v) list \<Rightarrow> (string \<times> 'v) list" where
  "put_if b k v o1 = (if b then obj_put k v o1 else o1)"

definition buildReturnErrorValueText :: "return_error_draft \<Rightarrow> string" where
  "buildReturnErrorValueText draft =
     (let message = js_trim (rd_message draft)
      in if rd_simpleMode draft then message
         else
           (let code = js_trim (rd_code draft);
                type = js_trim (rd_type draft);
                payload0 = [(''message'', JStr message), (''status_code'', JNum (status_or_400 (rd_statusCode draft)))];
                payload1 = put_if (code \<noteq> []) ''code'' (JStr code) payload0;
                payload2 = put_if (type \<noteq> []) ''type'' (JStr type) payload1;
                payload3 = put_if (\<not> rd_skipRetry draft) ''skip_retry'' (JBool False) payload2
            in json_text (JObj payload3)))"

section \<open>Conditions\<close>

record override_condition =
  oc_id :: nat
  oc_path :: string
  oc_mode :: string
  oc_value_text :: string
  oc_invert :: bool
  oc_pass_missing_key :: bool

text \<open>\<open>typeof v === 'string' ? v : ''\<close>\<close>

definition string_or_empty :: "jsval \<Rightarrow> string" where
  "string_or_empty v = (case v of JStr s \<Rightarrow> s | _ \<Rightarrow> [])"

text \<open>\<open>MODES.has(v) ? v : d\<close>\<close>

definition mode_or :: "string list \<Rightarrow> string \<Rightarrow> jsval \<Rightarrow> string" where
  "mode_or modes d v = (case v of JStr s \<Rightarrow> if s \<in> set modes then s else d | _ \<Rightarrow> d)"

definition normalizePruneRule :: "nat \<Rightarrow> jsval \<Rightarrow> override_condition" where
  "normalizePruneRule i rule =
     \<lparr>oc_id = i,
      oc_path = string_or_empty (value_get rule ''path''),
      oc_mode = mode_or CONDITION_MODE_VALUES ''full'' (value_get rule ''mode''),
      oc_value_text = toValueText (value_get rule ''value''),
      oc_invert = (value_get rule ''invert'' = JBool True),
      oc_pass_missing_key = (value_get rule ''pass_missing_key'' = JBool True)\<rparr>"

text \<open>Reading a property of \<open>null\<close> throws.\<close>

definition normalizeOverrideCondition :: "nat \<Rightarrow> jsval \<Rightarrow> (nat \<times> override_condition) js_result" where
  "normalizeOverrideCondition seed condition =
     (if condition = JNull then Inl TypeError
      else Inr (seed + 1,
        \<lparr>oc_id = seed,
         oc_path = string_or_empty (value_get condition ''path''),
         oc_mode = mode_or CONDITION_MODE_VALUES ''full'' (value_get condition ''mode''),
         oc_value_text = toValueText (value_get condition ''value''),
         oc_invert = (value_get condition ''invert'' = JBool True),
         oc_pass_missing_key = (value_get condition ''pass_missing_key'' = JBool True)\<rparr>))"

definition createDefaultCondition :: "nat \<Rightarrow> override_condition" where
  "createDefaultCondition i =
     \<lparr>oc_id = i, oc_path = [], oc_mode = ''full'', oc_value_text = [], oc_invert = False,
      oc_pass_missing_key = False\<rparr>"

text \<open>\<open>list.map(f)\<close> for a function that draws ids and may throw: the seed goes through the
  elements in order, and the first exception ends the call.\<close>

fun map_fresh :: "(nat \<Rightarrow> 'a \<Rightarrow> (nat \<times> 'b) js_result) \<Rightarrow> nat \<Rightarrow> 'a list \<Rightarrow> (nat \<times> 'b list) js_result" where
  "map_fresh f seed [] = Inr (seed, [])"
| "map_fresh f seed (x # xs) =
     (case f seed x of
        Inl e \<Rightarrow> Inl e
      | Inr (seed1, y) \<Rightarrow>
          (case map_fresh f seed1 xs of
             Inl e \<Rightarrow> Inl e
           | Inr (seed2, ys) \<Rightarrow> Inr (seed2, y # ys)))"

section \<open>The draft of a pruning rule set\<close>

record prune_draft =
  pd_simpleMode :: bool
  pd_typeText :: string
  pd_logic :: string
  pd_recursive :: bool
  pd_rules :: "override_condition list"

definition pd_defaults :: prune_draft where
  "pd_defaults = \<lparr>pd_simpleMode = True, pd_typeText = [], pd_logic = ''AND'', pd_recursive = True,
     pd_rules = []\<rparr>"

text \<open>\<open>Object.entries(v).forEach(([path, value]) => ... { path, mode: 'full', value })\<close> for an object
  that is no array\<close>

definition entry_rules :: "jsval \<Rightarrow> jsval list" where
  "entry_rules v =
     (case v of
        JObj kvs \<Rightarrow> map (\<lambda>(path, w). JObj [(''path'', JStr path), (''mode'', JStr ''full''), (''value'', w)]) kvs
      | _ \<Rightarrow> [])"

definition prune_rule_values :: "jsval \<Rightarrow> jsval list" where
  "prune_rule_values parsed =
     entry_rules (value_get parsed ''where'')
     @ (case value_get parsed ''conditions'' of
          JArr items \<Rightarrow> filter is_object_value items
        | v \<Rightarrow> entry_rules v)"

definition number_rules :: "nat \<Rightarrow> jsval list \<Rightarrow> override_condition list" where
  "number_rules seed vs = map (\<lambda>(i, v). normalizePruneRule i v) (enumerate seed vs)"

text \<open>The parser draws an id per rule, so it gives the next seed too.\<close>

definition parsePruneObjectsDraft :: "nat \<Rightarrow> string \<Rightarrow> nat \<times> prune_draft" where
  "parsePruneObjectsDraft seed valueText =
     (let raw = js_trim valueText
      in if raw = [] then (seed, pd_defaults)
         else
           (case json_parse raw of
              Inl _ \<Rightarrow> (seed, pd_defaults\<lparr>pd_typeText := raw\<rparr>)
            | Inr parsed \<Rightarrow>
                (case parsed of
                   JStr s \<Rightarrow> (seed, pd_defaults\<lparr>pd_typeText := js_trim s\<rparr>)
                 | JObj kvs \<Rightarrow>
                     (let rules = prune_rule_values parsed;
                          typeText = (if value_get parsed ''type'' = JUndef then []
                                      else js_trim (text_of_value (value_get parsed ''type'')));
                          logic = (if js_upper (text_of_value (js_or (value_get parsed ''logic'') (JStr ''AND'')))
                                      = ''OR'' then ''OR'' else ''AND'');
                          recursive = (value_get parsed ''recursive'' \<noteq> JBool False);
                          hasAdvancedFields = (value_get parsed ''logic'' \<noteq> JUndef
                            \<or> value_get parsed ''recursive'' \<noteq> JUndef
                            \<or> value_get parsed ''where'' \<noteq> JUndef
                            \<or> value_get parsed ''conditions'' \<noteq> JUndef)
                      in (seed + length rules,
                          \<lparr>pd_simpleMode = \<not> hasAdvancedFields, pd_typeText = typeText, pd_logic = logic,
                           pd_recursive = recursive, pd_rules = number_rules seed rules\<rparr>))
                 | v \<Rightarrow> (seed, pd_defaults\<lparr>pd_typeText :=
                            js_trim (text_of_value (js_coalesce v (JStr [])))\<rparr>))))"

definition prune_condition_payload :: "override_condition \<Rightarrow> jsval" where
  "prune_condition_payload rule =
     (let payload0 = [(''path'', JStr (js_trim (oc_path rule))),
                      (''mode'', JStr (if oc_mode rule \<in> set CONDITION_MODE_VALUES then oc_mode rule else ''full''))];
          valueRaw = js_trim (oc_value_text rule);
          payload1 = put_if (valueRaw \<noteq> []) ''value'' (parseLooseValue valueRaw) payload0;
          payload2 = put_if (oc_invert rule) ''invert'' (JBool True) payload1;
          payload3 = put_if (oc_pass_missing_key rule) ''pass_missing_key'' (JBool True) payload2
      in JObj payload3)"

definition buildPruneObjectsValueText :: "prune_draft \<Rightarrow> string" where
  "buildPruneObjectsValueText draft =
     (let typeText = js_trim (pd_typeText draft)
      in if pd_simpleMode draft then typeText
         else
           (let payload1 = put_if (typeText \<noteq> []) ''type'' (JStr typeText) [];
                payload2 = put_if (js_upper (if pd_logic draft = [] then ''AND'' else pd_logic draft) = ''OR'')
                             ''logic'' (JStr ''OR'') payload1;
                payload3 = put_if (\<not> pd_recursive draft) ''recursive'' (JBool False) payload2;
                conditions = map prune_condition_payload
                               (filter (\<lambda>rule. js_trim (oc_path rule) \<noteq> []) (pd_rules draft));
                payload4 = put_if (conditions \<noteq> []) ''conditions'' (JArr conditions) payload3
            in if \<not> truthy (value_get (JObj payload4) ''type'') \<and> \<not> truthy (value_get (JObj payload4) ''conditions'')
               then json_text (JObj [(''logic'', JStr ''AND'')])
               else json_text (JObj payload4)))"

section \<open>Endpoints of a field synchronisation\<close>

record sync_target =
  st_type :: string
  st_key :: string

definition parseSyncTargetSpec :: "string \<Rightarrow> sync_target" where
  "parseSyncTargetSpec spec =
     (let raw = js_trim spec
      in if raw = [] then \<lparr>st_type = ''json'', st_key = []\<rparr>
         else if CHR '':'' \<notin> set raw then \<lparr>st_type = ''json'', st_key = raw\<rparr>
         else
           (let prefix = js_lower (js_trim (takeWhile (\<lambda>c. c \<noteq> CHR '':'') raw));
                key = js_trim (tl (dropWhile (\<lambda>c. c \<noteq> CHR '':'') raw))
            in if prefix = ''header'' then \<lparr>st_type = ''header'', st_key = key\<rparr>
               else \<lparr>st_type = ''json'', st_key = key\<rparr>))"

definition buildSyncTargetSpec :: "string \<Rightarrow> string \<Rightarrow> string" where
  "buildSyncTargetSpec type key =
     (let normalizedType = (if type = ''header'' then ''header'' else ''json'');
          normalizedKey = js_trim key
      in if normalizedKey = [] then [] else normalizedType @ '':'' @ normalizedKey)"

section \<open>Operations\<close>

record override_operation =
  oo_id :: nat
  oo_description :: string
  oo_path :: string
  oo_mode :: string
  oo_value_text :: string
  oo_keep_origin :: bool
  oo_from :: string
  oo_to :: string
  oo_logic :: string
  oo_conditions :: "override_condition list"

definition normalizeOperation :: "nat \<Rightarrow> jsval \<Rightarrow> (nat \<times> override_operation) js_result" where
  "normalizeOperation seed operation =
     (if operation = JNull then Inl TypeError
      else
        (case (case value_get operation ''conditions'' of
                 JArr cs \<Rightarrow> map_fresh normalizeOverrideCondition (seed + 1) cs
               | _ \<Rightarrow> Inr (seed + 1, [])) of
           Inl e \<Rightarrow> Inl e
         | Inr (seed', conditions) \<Rightarrow>
             Inr (seed',
               \<lparr>oo_id = seed,
                oo_description = string_or_empty (value_get operation ''description''),
                oo_path = string_or_empty (value_get operation ''path''),
                oo_mode = mode_or OPERATION_MODE_VALUES ''set'' (value_get operation ''mode''),
                oo_value_text = toValueText (value_get operation ''value''),
                oo_keep_origin = (value_get operation ''keep_origin'' = JBool True),
                oo_from = string_or_empty (value_get operation ''from''),
                oo_to = string_or_empty (value_get operation ''to''),
                oo_logic = (if js_upper (text_of_value (js_or (value_get operation ''logic'') (JStr ''OR'')))
                              = ''AND'' then ''AND'' else ''OR''),
                oo_conditions = conditions\<rparr>)))"

definition createDefaultOperation :: "nat \<Rightarrow> override_operation" where
  "createDefaultOperation i =
     \<lparr>oo_id = i, oo_description = [], oo_path = [], oo_mode = ''set'', oo_value_text = [],
      oo_keep_origin = False, oo_from = [], oo_to = [], oo_logic = ''OR'', oo_conditions = []\<rparr>"

text \<open>\<open>list.splice(i, 0, x)\<close>\<close>

definition insert_at :: "nat \<Rightarrow> 'a \<Rightarrow> 'a list \<Rightarrow> 'a list" where
  "insert_at i x xs = take i xs @ x # drop i xs"

text \<open>An absent id (\<open>''\<close>) is \<open>None\<close>.\<close>

definition reorderOperations ::
  "override_operation list \<Rightarrow> nat option \<Rightarrow> nat option \<Rightarrow> string \<Rightarrow> override_operation list" where
  "reorderOperations sourceOperations sourceId targetId position =
     (case (sourceId, targetId) of
        (Some s, Some g) \<Rightarrow>
          if s = g then sourceOperations
          else
            (case find_index (\<lambda>item. oo_id item = s) sourceOperations of
               None \<Rightarrow> sourceOperations
             | Some sourceIndex \<Rightarrow>
                 (let moved = sourceOperations ! sourceIndex;
                      nextOperations = take sourceIndex sourceOperations @ drop (Suc sourceIndex) sourceOperations
                  in case find_index (\<lambda>item. oo_id item = g) nextOperations of
                       None \<Rightarrow> sourceOperations
                     | Some insertIndex \<Rightarrow>
                         insert_at (if position = ''after'' then insertIndex + 1 else insertIndex) moved nextOperations))
      | _ \<Rightarrow> sourceOperations)"

text \<open>\<open>a || b\<close> on texts\<close>

definition or_text :: "string \<Rightarrow> string \<Rightarrow> string" where
  "or_text a b = (if a \<noteq> [] then a else b)"

definition getOperationSummary :: "override_operation \<Rightarrow> nat \<Rightarrow> (string \<Rightarrow> string) \<Rightarrow> string" where
  "getOperationSummary operation index operationModeLabelMap =
     (let mode = or_text (oo_mode operation) ''set'';
          modeLabel = or_text (operationModeLabelMap mode) mode;
          from = js_trim (oo_from operation);
          to = js_trim (oo_to operation);
          path = js_trim (oo_path operation)
      in show_nat (index + 1) @ ''. '' @ modeLabel @ [CHR '' '', CHR 0xB7, CHR '' '']
         @ (if mode = ''sync_fields'' then or_text from (or_text to ''-'')
            else or_text path (or_text from (or_text to ''-''))))"

definition getOperationModeTagColor :: "string \<Rightarrow> string" where
  "getOperationModeTagColor mode =
     (if js_includes ''header'' mode then ''cyan''
      else if js_includes ''replace'' mode \<or> js_includes ''trim'' mode then ''violet''
      else if js_includes ''copy'' mode \<or> js_includes ''move'' mode then ''blue''
      else if js_includes ''error'' mode \<or> js_includes ''prune'' mode then ''red''
      else if js_includes ''sync'' mode then ''green''
      else ''grey'')"

section \<open>Opening the editor\<close>

datatype override_message =
    MissingPath nat
  | MissingFrom nat
  | MissingTo nat
  | MissingValue nat
  | MissingErrorMessage nat
  | PruneMissing nat
  | PruneNeedsCondition nat
  | HeadersMissing nat
  | HeadersInvalid nat
  | OverrideNotJson
  | OverrideNotObject
  | LegacyNotObject
  | LegacyNotJsonForAppend
  | LegacyNotObjectForAppend
  | JsonBadFormat
  | SelectOperationFirst
  | TargetNotSupported
  | ValueNotJson
  | ValueFormatted
  | CopiedField string
  | CopyFailed

record override_initial =
  oi_editMode :: string
  oi_visualMode :: string
  oi_legacyValue :: string
  oi_operations :: "override_operation list"
  oi_jsonText :: string
  oi_jsonError :: "override_message option"

definition verifyJSON :: "string \<Rightarrow> bool" where
  "verifyJSON s = (case json_parse s of Inr _ \<Rightarrow> True | Inl _ \<Rightarrow> False)"

text \<open>\<open>ops.length > 0 ? ops.map(normalizeOperation) : [createDefaultOperation()]\<close>\<close>

definition read_operations :: "nat \<Rightarrow> jsval list \<Rightarrow> (nat \<times> override_operation list) js_result" where
  "read_operations seed ops =
     (if ops \<noteq> [] then map_fresh normalizeOperation seed ops
      else Inr (seed + 1, [createDefaultOperation seed]))"

definition parseInitialState :: "nat \<Rightarrow> jsval \<Rightarrow> (nat \<times> override_initial) js_result" where
  "parseInitialState seed rawValue =
     (let text = string_or_empty rawValue;
          trimmed = js_trim text;
          fallback = \<lparr>oi_editMode = ''visual'', oi_visualMode = ''operations'', oi_legacyValue = [],
                      oi_operations = [createDefaultOperation seed], oi_jsonText = [], oi_jsonError = None\<rparr>
      in if trimmed = [] then Inr (seed + 1, fallback)
         else
           (case json_parse trimmed of
              Inl _ \<Rightarrow> Inr (seed + 1, fallback\<lparr>oi_editMode := ''json'', oi_jsonText := text,
                                              oi_jsonError := Some JsonBadFormat\<rparr>)
            | Inr parsed \<Rightarrow>
                (let pretty = json_pretty [] parsed
                 in case parsed of
                      JObj _ \<Rightarrow>
                        (case value_get parsed ''operations'' of
                           JArr ops \<Rightarrow>
                             (case read_operations seed ops of
                                Inl e \<Rightarrow> Inl e
                              | Inr (seed', operations) \<Rightarrow>
                                  Inr (seed', fallback\<lparr>oi_operations := operations, oi_jsonText := pretty\<rparr>))
                         | _ \<Rightarrow> Inr (seed + 1, fallback\<lparr>oi_visualMode := ''legacy'', oi_legacyValue := pretty,
                                                       oi_jsonText := pretty\<rparr>))
                    | _ \<Rightarrow> Inr (seed + 1, fallback\<lparr>oi_editMode := ''json'', oi_jsonText := pretty\<rparr>))))"

section \<open>Validation\<close>

definition condition_touched :: "override_condition \<Rightarrow> bool" where
  "condition_touched c \<longleftrightarrow>
     js_trim (oc_path c) \<noteq> [] \<or> js_trim (oc_value_text c) \<noteq> [] \<or> oc_mode c \<noteq> ''full''
     \<or> oc_invert c \<or> oc_pass_missing_key c"

definition isOperationBlank :: "override_operation \<Rightarrow> bool" where
  "isOperationBlank operation \<longleftrightarrow>
     oo_mode operation = ''set'' \<and> js_trim (oo_path operation) = [] \<and> js_trim (oo_from operation) = []
     \<and> js_trim (oo_to operation) = [] \<and> js_trim (oo_value_text operation) = []
     \<and> \<not> oo_keep_origin operation \<and> \<not> list_ex condition_touched (oo_conditions operation)"

text \<open>The last fields a mode asks for, each a check that gives the message.\<close>

definition check_return_error :: "nat \<Rightarrow> string \<Rightarrow> override_message option" where
  "check_return_error line value_text =
     (let raw = js_trim value_text
      in if raw = [] then Some (MissingValue line)
         else
           (case json_parse raw of
              Inr (JObj kvs) \<Rightarrow>
                if text_or_empty (value_get (JObj kvs) ''message'') = []
                then Some (MissingErrorMessage line) else None
            | _ \<Rightarrow> None))"

text \<open>\<open>v && typeof v === 'object' && !Array.isArray(v) && Object.keys(v).length > 0\<close>\<close>

definition filled_object :: "jsval \<Rightarrow> bool" where
  "filled_object v = (case v of JObj kvs \<Rightarrow> kvs \<noteq> [] | _ \<Rightarrow> False)"

definition filled_array :: "jsval \<Rightarrow> bool" where
  "filled_array v = (case v of JArr vs \<Rightarrow> vs \<noteq> [] | _ \<Rightarrow> False)"

definition check_prune :: "nat \<Rightarrow> string \<Rightarrow> override_message option" where
  "check_prune line value_text =
     (let raw = js_trim value_text
      in if raw = [] then Some (PruneMissing line)
         else
           (case json_parse raw of
              Inr (JObj kvs) \<Rightarrow>
                (let parsed = JObj kvs;
                     hasType = (value_get parsed ''type'' \<noteq> JUndef
                                \<and> js_trim (text_of_value (value_get parsed ''type'')) \<noteq> []);
                     hasWhere = filled_object (value_get parsed ''where'');
                     hasConditionsArray = filled_array (value_get parsed ''conditions'');
                     hasConditionsObject = filled_object (value_get parsed ''conditions'')
                 in if \<not> hasType \<and> \<not> hasWhere \<and> \<not> hasConditionsArray \<and> \<not> hasConditionsObject
                    then Some (PruneNeedsCondition line) else None)
            | _ \<Rightarrow> None))"

definition check_pass_headers :: "nat \<Rightarrow> string \<Rightarrow> override_message option" where
  "check_pass_headers line value_text =
     (let raw = js_trim value_text
      in if raw = [] then Some (HeadersMissing line)
         else if parsePassHeaderNames (parseLooseValue raw) = [] then Some (HeadersInvalid line)
         else None)"

definition validateOperation :: "nat \<Rightarrow> override_operation \<Rightarrow> override_message option" where
  "validateOperation line op =
     (let mode = or_text (oo_mode op) ''set'';
          meta = meta_of mode;
          pathValue = js_trim (oo_path op);
          fromValue = js_trim (oo_from op);
          toValue = js_trim (oo_to op)
      in if m_path meta \<and> pathValue = [] then Some (MissingPath line)
         else if mode \<in> set FROM_REQUIRED_MODES \<and> fromValue = [] \<and> \<not> (m_pathAlias meta \<and> pathValue \<noteq> [])
           then Some (MissingFrom line)
         else if mode \<in> set TO_REQUIRED_MODES \<and> toValue = [] \<and> \<not> (m_pathAlias meta \<and> pathValue \<noteq> [])
           then Some (MissingTo line)
         else if m_from meta \<and> fromValue = [] then Some (MissingFrom line)
         else if m_to meta \<and> toValue = [] then Some (MissingTo line)
         else if mode \<in> set VALUE_REQUIRED_MODES \<and> js_trim (oo_value_text op) = [] then Some (MissingValue line)
         else if mode = ''return_error'' then check_return_error line (oo_value_text op)
         else if mode = ''prune_objects'' then check_prune line (oo_value_text op)
         else if mode = ''pass_headers'' then check_pass_headers line (oo_value_text op)
         else None)"

text \<open>The loop stops at the first operation with a message; the line starts at one.\<close>

fun validate_from :: "nat \<Rightarrow> override_operation list \<Rightarrow> override_message option" where
  "validate_from line [] = None"
| "validate_from line (op # ops) =
     (case validateOperation line op of
        Some message \<Rightarrow> Some message
      | None \<Rightarrow> validate_from (line + 1) ops)"

definition validateOperations :: "override_operation list \<Rightarrow> override_message option" where
  "validateOperations operations = validate_from 1 operations"

section \<open>The text that is saved\<close>

definition buildConditionPayload :: "override_condition \<Rightarrow> jsval option" where
  "buildConditionPayload condition =
     (let path = js_trim (oc_path condition)
      in if path = [] then None
         else
           (let payload0 = [(''path'', JStr path),
                            (''mode'', JStr (or_text (oc_mode condition) ''full'')),
                            (''value'', parseLooseValue (oc_value_text condition))];
                payload1 = put_if (oc_invert condition) ''invert'' (JBool True) payload0;
                payload2 = put_if (oc_pass_missing_key condition) ''pass_missing_key'' (JBool True) payload1
            in Some (JObj payload2)))"

definition operation_payload :: "override_operation \<Rightarrow> (string \<times> jsval) list" where
  "operation_payload operation =
     (let mode = or_text (oo_mode operation) ''set'';
          meta = meta_of mode;
          descriptionValue = js_trim (oo_description operation);
          pathValue = js_trim (oo_path operation);
          fromValue = js_trim (oo_from operation);
          toValue = js_trim (oo_to operation);
          p0 = [(''mode'', JStr mode)];
          p1 = put_if (descriptionValue \<noteq> []) ''description'' (JStr descriptionValue) p0;
          p2 = put_if (m_path meta) ''path'' (JStr pathValue) p1;
          p3 = put_if (m_pathOptional meta \<and> pathValue \<noteq> []) ''path'' (JStr pathValue) p2;
          p4 = put_if (m_value meta) ''value'' (parseLooseValue (oo_value_text operation)) p3;
          p5 = put_if (m_keepOrigin meta \<and> oo_keep_origin operation) ''keep_origin'' (JBool True) p4;
          p6 = put_if (m_from meta) ''from'' (JStr fromValue) p5;
          p7 = put_if (\<not> m_to meta \<and> toValue \<noteq> []) ''to'' (JStr toValue) p6;
          p8 = put_if (m_to meta) ''to'' (JStr toValue) p7;
          p9 = put_if (m_pathAlias meta \<and> \<not> truthy (value_get (JObj p8) ''from'') \<and> pathValue \<noteq> [])
                 ''from'' (JStr pathValue) p8;
          p10 = put_if (m_pathAlias meta \<and> \<not> truthy (value_get (JObj p9) ''to'') \<and> pathValue \<noteq> [])
                 ''to'' (JStr pathValue) p9;
          conditions = List.map_filter buildConditionPayload (oo_conditions operation);
          p11 = put_if (conditions \<noteq> []) ''conditions'' (JArr conditions) p10
      in put_if (conditions \<noteq> []) ''logic'' (JStr (if oo_logic operation = ''AND'' then ''AND'' else ''OR'')) p11)"

definition buildOperationsJson :: "override_operation list \<Rightarrow> bool \<Rightarrow> override_message + string" where
  "buildOperationsJson sourceOperations validate =
     (let filteredOps = filter (\<lambda>op. \<not> isOperationBlank op) sourceOperations
      in if filteredOps = [] then Inr []
         else
           (case if validate then validateOperations filteredOps else None of
              Some message \<Rightarrow> Inl message
            | None \<Rightarrow>
                Inr (json_pretty [] (JObj [(''operations'',
                  JArr (map (\<lambda>op. JObj (operation_payload op)) filteredOps))]))))"

definition buildVisualJson :: "string \<Rightarrow> string \<Rightarrow> override_operation list \<Rightarrow> override_message + string" where
  "buildVisualJson visualMode legacyValue operations =
     (if visualMode = ''legacy'' then
        (let trimmed = js_trim legacyValue
         in if trimmed = [] then Inr []
            else
              (case json_parse trimmed of
                 Inl _ \<Rightarrow> Inl OverrideNotJson
               | Inr (JObj kvs) \<Rightarrow> Inr (json_pretty [] (JObj kvs))
               | Inr _ \<Rightarrow> Inl LegacyNotObject))
      else buildOperationsJson operations True)"

section \<open>What the panels show\<close>

definition operationCount :: "override_operation list \<Rightarrow> nat" where
  "operationCount operations = length (filter (\<lambda>op. \<not> isOperationBlank op) operations)"

definition filteredOperations :: "string \<Rightarrow> override_operation list \<Rightarrow> override_operation list" where
  "filteredOperations operationSearch operations =
     (let keyword = js_lower (js_trim operationSearch)
      in if keyword = [] then operations
         else filter (\<lambda>op.
           js_includes keyword
             (js_lower (join '' '' (filter_nonempty
                [oo_description op, oo_mode op, oo_path op, oo_from op, oo_to op, oo_value_text op]))))
           operations)"

definition count_mode :: "(string \<times> nat) list \<Rightarrow> override_operation \<Rightarrow> (string \<times> nat) list" where
  "count_mode acc op =
     (let mode = or_text (oo_mode op) ''set''
      in obj_put mode ((case obj_get acc mode of Some n \<Rightarrow> n | None \<Rightarrow> 0) + 1) acc)"

definition topOperationModes :: "override_operation list \<Rightarrow> (string \<times> nat) list" where
  "topOperationModes operations =
     take 4 (sort_by (\<lambda>a b. snd b \<le> snd a) (foldl count_mode [] operations))"

record builtin_field =
  bf_key :: string
  bf_label :: string
  bf_tip :: string

definition filteredFieldGuideSections ::
  "string \<Rightarrow> (string \<times> builtin_field list) list \<Rightarrow> (string \<times> builtin_field list) list" where
  "filteredFieldGuideSections fieldGuideKeyword sections =
     (let keyword = js_lower (js_trim fieldGuideKeyword)
      in if keyword = [] then sections
         else filter (\<lambda>(title, fields). fields \<noteq> [])
           (map (\<lambda>(title, fields).
              (title, filter (\<lambda>field. js_includes keyword
                 (js_lower (join '' '' (filter_nonempty [bf_key field, bf_label field, bf_tip field])))) fields))
              sections))"

end
