(* ===== verification/ParamOverrideProps.thy ===== *)
theory ParamOverrideProps
  imports ParamOverride
begin

text \<open>
  What holds of the saved text of the parameter override editor: which fields a saved
  operation has, what an operation is after it was saved and opened again, that canonical
  operations survive unchanged, how the drafts of the structured values behave, and that a
  reordering moves one operation and keeps the others in order.
\<close>

section \<open>Building objects property by property\<close>

lemma value_get_put_if [simp]:
  "value_get (JObj (put_if b k v o1)) j = (if b \<and> j = k then v else value_get (JObj o1) j)"
  by (simp add: value_get_def put_if_def)

lemma value_get_literal [simp]:
  "value_get (JObj []) j = JUndef"
  "value_get (JObj ((k, v) # o1)) j = (if j = k then v else value_get (JObj o1) j)"
  by (simp_all add: value_get_def obj_get_def)

text \<open>Objects whose keys are names: enumeration order is the order of creation.\<close>

definition named :: "(string \<times> 'v) list \<Rightarrow> bool" where
  "named o1 \<longleftrightarrow> distinct (map fst o1) \<and> (\<forall>k \<in> set (map fst o1). \<not> is_index_key k)"

lemma named_put:
  assumes "named o1" and "\<not> is_index_key k"
  shows "named (obj_put k v o1)"
proof -
  have "distinct (map fst (obj_put k v o1))"
    using assms(1) obj.ok_put [of o1 k v] by (simp add: named_def obj_ok_def)
  then show ?thesis using assms unfolding named_def keys_obj_put by blast
qed

lemma insert_named: "\<not> is_index_key k \<Longrightarrow> insert_key k v o1 = o1 @ [(k, v)]"
  by (induction o1) (simp_all add: key_before_def split_paired_all)

lemma spread_named:
  "named (a @ b) \<Longrightarrow> obj_spread a b = a @ b"
proof (induction b arbitrary: a)
  case Nil
  then show ?case by (simp add: obj_spread_def)
next
  case (Cons kv b)
  obtain k v where kv: "kv = (k, v)" by fastforce
  with Cons.prems have "obj_put k v a = a @ [kv]"
    by (auto simp: named_def obj_put_def insert_named)
  with Cons.IH [of "a @ [kv]"] Cons.prems kv show ?case by (simp add: obj_spread_def)
qed

lemma obj_of_named: "named o1 \<Longrightarrow> obj_of o1 = o1"
  using spread_named [of "[]" o1] by (simp add: obj_of_def)

definition storable_fields :: "(string \<times> jsval) list \<Rightarrow> bool" where
  "storable_fields o1 \<longleftrightarrow> named o1 \<and> list_all (\<lambda>(k, v). json_storable v) o1"

lemma storable_fieldsD: "storable_fields o1 \<Longrightarrow> json_storable (JObj o1)"
  by (simp add: storable_fields_def obj_of_named)

lemma set_obj_put: "set (obj_put k v o1) \<subseteq> insert (k, v) (set o1)"
proof -
  have "set (insert_key k v o1) \<subseteq> insert (k, v) (set o1)"
    by (induction k v o1 rule: insert_key.induct) auto
  moreover have "set (replace_key k v o1) \<subseteq> insert (k, v) (set o1)"
    by (induction k v o1 rule: replace_key.induct) auto
  ultimately show ?thesis by (simp add: obj_put_def)
qed

lemma storable_put_if:
  assumes "storable_fields o1" and "\<not> is_index_key k" and "b \<Longrightarrow> json_storable v"
  shows "storable_fields (put_if b k v o1)"
  using assms named_put [of o1 k v] set_obj_put [of k v o1]
  by (auto simp: storable_fields_def put_if_def list_all_iff)

section \<open>Fresh ids\<close>

text \<open>The seed alone tells two ids apart, so the model keeps the seed as the id.\<close>

lemma local_ids_differ:
  assumes "fst (nextLocalId now n) = fst (nextLocalId later m)"
  shows "n = m"
proof -
  have "takeWhile (\<lambda>c. c \<noteq> CHR ''_'') (rev (x @ ''_'' @ show_nat k)) = rev (show_nat k)" for x k
  proof -
    have "\<forall>c \<in> set (rev (show_nat k)). c \<noteq> CHR ''_''" using show_nat_digits [of _ k] by (auto simp: is_digit_def)
    then show ?thesis by (subst rev_append, subst rev_append, subst append_assoc, subst takeWhile_append2) auto
  qed
  then have tail: "takeWhile (\<lambda>c. c \<noteq> CHR ''_'') (rev (fst (nextLocalId t k))) = rev (show_nat k)" for t k
    unfolding nextLocalId_def fst_conv by (metis append_assoc)
  from assms tail [of now n] tail [of later m] have "show_nat n = show_nat m" by simp
  then show ?thesis by (metis read_show_nat of_nat_eq_iff)
qed

lemma map_fresh_length: "map_fresh f n xs = Inr (m, ys) \<Longrightarrow> length ys = length xs"
  by (induction f n xs arbitrary: m ys rule: map_fresh.induct) (auto split: sum.splits)

definition fresh_span :: "(nat \<Rightarrow> 'a \<Rightarrow> (nat \<times> 'b) js_result) \<Rightarrow> ('b \<Rightarrow> nat) \<Rightarrow> bool" where
  "fresh_span f the_id \<longleftrightarrow> (\<forall>n x m y. f n x = Inr (m, y) \<longrightarrow> n \<le> the_id y \<and> the_id y < m)"

lemma map_fresh_ids:
  assumes "fresh_span f the_id" and "map_fresh f n xs = Inr (m, ys)"
  shows "n \<le> m \<and> distinct (map the_id ys) \<and> (\<forall>i \<in> set (map the_id ys). n \<le> i \<and> i < m)"
  using assms(2)
proof (induction xs arbitrary: n ys)
  case Nil
  then show ?case by simp
next
  case (Cons x xs)
  from Cons.prems obtain k y zs where y: "f n x = Inr (k, y)" and zs: "map_fresh f k xs = Inr (m, zs)"
    and ys: "ys = y # zs" by (auto split: sum.splits prod.splits)
  from y assms(1) have "n \<le> the_id y" "the_id y < k" unfolding fresh_span_def by blast+
  with Cons.IH [OF zs] show ?case unfolding ys by fastforce
qed

lemma fresh_conditions: "fresh_span normalizeOverrideCondition oc_id"
  by (auto simp: fresh_span_def normalizeOverrideCondition_def split: if_splits)

lemma normalizeOperation_ids:
  assumes "normalizeOperation n v = Inr (m, op)"
  shows "oo_id op = n \<and> n < m \<and> distinct (map oc_id (oo_conditions op))
     \<and> (\<forall>i \<in> set (map oc_id (oo_conditions op)). n < i \<and> i < m)"
proof -
  from assms obtain cs where op: "oo_id op = n" "oo_conditions op = cs"
    and "(case value_get v ''conditions'' of
            JArr vs \<Rightarrow> map_fresh normalizeOverrideCondition (n + 1) vs | _ \<Rightarrow> Inr (n + 1, [])) = Inr (m, cs)"
    by (auto simp: normalizeOperation_def split: if_splits sum.splits)
  then show ?thesis
    using map_fresh_ids [OF fresh_conditions, of "n + 1" _ m cs]
    by (fastforce split: jsval.splits)
qed

lemma fresh_operations: "fresh_span normalizeOperation oo_id"
  unfolding fresh_span_def using normalizeOperation_ids by blast

section \<open>An operation after it was saved\<close>

definition kept_conditions :: "override_operation \<Rightarrow> override_condition list" where
  "kept_conditions op = filter (\<lambda>c. js_trim (oc_path c) \<noteq> []) (oo_conditions op)"

definition saved_condition :: "nat \<Rightarrow> override_condition \<Rightarrow> override_condition" where
  "saved_condition i c =
     \<lparr>oc_id = i, oc_path = js_trim (oc_path c), oc_mode = oc_mode c,
      oc_value_text = toValueText (parseLooseValue (oc_value_text c)),
      oc_invert = oc_invert c, oc_pass_missing_key = oc_pass_missing_key c\<rparr>"

fun saved_conditions :: "nat \<Rightarrow> override_condition list \<Rightarrow> override_condition list" where
  "saved_conditions i [] = []"
| "saved_conditions i (c # cs) = saved_condition i c # saved_conditions (i + 1) cs"

definition saved_operation :: "nat \<Rightarrow> override_operation \<Rightarrow> override_operation" where
  "saved_operation i op =
     (let meta = meta_of (oo_mode op);
          path = js_trim (oo_path op);
          from = js_trim (oo_from op);
          to = js_trim (oo_to op)
      in \<lparr>oo_id = i,
          oo_description = js_trim (oo_description op),
          oo_path = (if m_path meta \<or> m_pathOptional meta then path else []),
          oo_mode = oo_mode op,
          oo_value_text = (if m_value meta then toValueText (parseLooseValue (oo_value_text op)) else []),
          oo_keep_origin = (m_keepOrigin meta \<and> oo_keep_origin op),
          oo_from = (if m_from meta then (if m_pathAlias meta \<and> from = [] then path else from) else []),
          oo_to = (if m_pathAlias meta \<and> to = [] then path else to),
          oo_logic = (if kept_conditions op \<noteq> [] \<and> oo_logic op = ''AND'' then ''AND'' else ''OR''),
          oo_conditions = saved_conditions (i + 1) (kept_conditions op)\<rparr>)"

fun saved_operations :: "nat \<Rightarrow> override_operation list \<Rightarrow> override_operation list" where
  "saved_operations i [] = []"
| "saved_operations i (op # ops) =
     saved_operation i op # saved_operations (i + 1 + length (kept_conditions op)) ops"

definition next_seed :: "nat \<Rightarrow> override_operation list \<Rightarrow> nat" where
  "next_seed i ops = i + sum_list (map (\<lambda>op. 1 + length (kept_conditions op)) ops)"

text \<open>Modes that come from the lists, which every way into the editor ensures.\<close>

definition known_modes :: "override_operation \<Rightarrow> bool" where
  "known_modes op \<longleftrightarrow> oo_mode op \<in> set OPERATION_MODE_VALUES
     \<and> list_all (\<lambda>c. oc_mode c \<in> set CONDITION_MODE_VALUES) (oo_conditions op)"

lemma known_mode_nonempty: "m \<in> set OPERATION_MODE_VALUES \<Longrightarrow> or_text m ''set'' = m"
  by (auto simp: OPERATION_MODE_VALUES_def or_text_def)

lemma known_condition_mode: "m \<in> set CONDITION_MODE_VALUES \<Longrightarrow> or_text m ''full'' = m"
  by (auto simp: CONDITION_MODE_VALUES_def or_text_def)

lemma condition_payload_None: "buildConditionPayload c = None \<longleftrightarrow> js_trim (oc_path c) = []"
  by (simp add: buildConditionPayload_def Let_def)

lemma payloads_of_kept:
  "List.map_filter buildConditionPayload cs
     = map (the \<circ> buildConditionPayload) (filter (\<lambda>c. js_trim (oc_path c) \<noteq> []) cs)"
  by (simp add: map_filter_def condition_payload_None)

lemma normalize_condition_payload:
  assumes "js_trim (oc_path c) \<noteq> []" and "oc_mode c \<in> set CONDITION_MODE_VALUES"
  shows "normalizeOverrideCondition i (the (buildConditionPayload c)) = Inr (i + 1, saved_condition i c)"
  using assms known_condition_mode [OF assms(2)]
  by (simp add: buildConditionPayload_def Let_def normalizeOverrideCondition_def saved_condition_def
      string_or_empty_def mode_or_def)

lemma normalize_condition_payloads:
  assumes "list_all (\<lambda>c. js_trim (oc_path c) \<noteq> [] \<and> oc_mode c \<in> set CONDITION_MODE_VALUES) cs"
  shows "map_fresh normalizeOverrideCondition i (map (the \<circ> buildConditionPayload) cs)
           = Inr (i + length cs, saved_conditions i cs)"
  using assms by (induction cs arbitrary: i) (simp_all add: normalize_condition_payload)


lemma meta_table:
  assumes "list_all (\<lambda>(m, meta). P meta) MODE_META" and "P (no_fields\<lparr>m_path := True, m_value := True, m_keepOrigin := True\<rparr>)"
  shows "P (meta_of mode)"
  using assms map_of_SomeD [of MODE_META mode]
  by (auto simp: meta_of_def list_all_iff split: option.splits)

lemma alias_has_both: "m_pathAlias (meta_of mode) \<Longrightarrow> m_from (meta_of mode) \<and> m_to (meta_of mode)"
proof -
  have "list_all (\<lambda>(m, meta). m_pathAlias meta \<longrightarrow> m_from meta \<and> m_to meta) MODE_META" by code_simp
  from meta_table [OF this] show "m_pathAlias (meta_of mode) \<Longrightarrow> ?thesis" by (simp add: no_fields_def)
qed

lemma payload_get:
  "value_get (JObj (operation_payload op)) k =
     (let mode = or_text (oo_mode op) ''set'';
          meta = meta_of mode;
          description = js_trim (oo_description op);
          path = js_trim (oo_path op);
          from = js_trim (oo_from op);
          to = js_trim (oo_to op);
          conditions = map (the \<circ> buildConditionPayload) (kept_conditions op)
      in if k = ''mode'' then JStr mode
         else if k = ''description'' \<and> description \<noteq> [] then JStr description
         else if k = ''path'' \<and> (m_path meta \<or> m_pathOptional meta \<and> path \<noteq> []) then JStr path
         else if k = ''value'' \<and> m_value meta then parseLooseValue (oo_value_text op)
         else if k = ''keep_origin'' \<and> m_keepOrigin meta \<and> oo_keep_origin op then JBool True
         else if k = ''from'' \<and> m_pathAlias meta \<and> path \<noteq> [] \<and> \<not> (m_from meta \<and> from \<noteq> []) then JStr path
         else if k = ''from'' \<and> m_from meta then JStr from
         else if k = ''to'' \<and> m_pathAlias meta \<and> path \<noteq> [] \<and> to = [] then JStr path
         else if k = ''to'' \<and> (m_to meta \<or> to \<noteq> []) then JStr to
         else if k = ''conditions'' \<and> conditions \<noteq> [] then JArr conditions
         else if k = ''logic'' \<and> conditions \<noteq> [] then JStr (if oo_logic op = ''AND'' then ''AND'' else ''OR'')
         else JUndef)"
  unfolding operation_payload_def Let_def payloads_of_kept kept_conditions_def [symmetric]
  by (cases "k = ''from''"; cases "k = ''to''"; cases "k = ''logic''"; cases "k = ''conditions''") simp_all

lemmas payload_fields =
  payload_get [where k = "''mode''", unfolded Let_def, simplified]
  payload_get [where k = "''description''", unfolded Let_def, simplified]
  payload_get [where k = "''path''", unfolded Let_def, simplified]
  payload_get [where k = "''value''", unfolded Let_def, simplified]
  payload_get [where k = "''keep_origin''", unfolded Let_def, simplified]
  payload_get [where k = "''from''", unfolded Let_def, simplified]
  payload_get [where k = "''to''", unfolded Let_def, simplified]
  payload_get [where k = "''conditions''", unfolded Let_def, simplified]
  payload_get [where k = "''logic''", unfolded Let_def, simplified]

lemma normalize_operation_payload:
  assumes "known_modes op"
  shows "normalizeOperation i (JObj (operation_payload op))
           = Inr (i + 1 + length (kept_conditions op), saved_operation i op)"
proof -
  let ?v = "JObj (operation_payload op)"
  have m: "or_text (oo_mode op) ''set'' = oo_mode op" "oo_mode op \<in> set OPERATION_MODE_VALUES"
    using assms known_mode_nonempty by (simp_all add: known_modes_def)
  have cs: "map_fresh normalizeOverrideCondition (i + 1) (map (the \<circ> buildConditionPayload) (kept_conditions op))
      = Inr (i + 1 + length (kept_conditions op), saved_conditions (i + 1) (kept_conditions op))"
    using assms by (intro normalize_condition_payloads) (auto simp: known_modes_def kept_conditions_def list_all_iff)
  have c: "(case value_get ?v ''conditions'' of
           JArr cs \<Rightarrow> map_fresh normalizeOverrideCondition (i + 1) cs | _ \<Rightarrow> Inr (i + 1, []))
      = Inr (i + 1 + length (kept_conditions op), saved_conditions (i + 1) (kept_conditions op))"
    using cs by (cases "kept_conditions op = []") (simp_all add: payload_fields)
  have "js_upper ''AND'' = ''AND''" and "js_upper ''OR'' = ''OR''" by code_simp+
  then have l: "js_upper (text_of_value (js_or (value_get ?v ''logic'') (JStr ''OR''))) = ''AND''
      \<longleftrightarrow> kept_conditions op \<noteq> [] \<and> oo_logic op = ''AND''"
    by (simp add: payload_fields js_or_def)
  have strings: "string_or_empty (value_get ?v ''description'') = js_trim (oo_description op)"
    "string_or_empty (value_get ?v ''path'') = oo_path (saved_operation i op)"
    "string_or_empty (value_get ?v ''to'') = oo_to (saved_operation i op)"
    by (simp_all add: payload_fields string_or_empty_def saved_operation_def Let_def m)
  have sources: "string_or_empty (value_get ?v ''from'') = oo_from (saved_operation i op)"
    using alias_has_both [of "oo_mode op"]
    by (auto simp add: payload_fields string_or_empty_def saved_operation_def Let_def m)
  have rest: "mode_or OPERATION_MODE_VALUES ''set'' (value_get ?v ''mode'') = oo_mode op"
    "toValueText (value_get ?v ''value'') = oo_value_text (saved_operation i op)"
    "(value_get ?v ''keep_origin'' = JBool True) = oo_keep_origin (saved_operation i op)"
    by (simp_all add: payload_fields mode_or_def saved_operation_def Let_def m toValueText_def)
  show ?thesis
    unfolding normalizeOperation_def c l strings sources rest
    by (simp add: saved_operation_def Let_def)
qed

lemma normalize_operation_payloads:
  "list_all known_modes ops \<Longrightarrow>
     map_fresh normalizeOperation i (map (\<lambda>op. JObj (operation_payload op)) ops)
       = Inr (next_seed i ops, saved_operations i ops)"
  by (induction ops arbitrary: i) (simp_all add: normalize_operation_payload next_seed_def)

section \<open>Saving and opening again\<close>

text \<open>The numbers in the values read back from their text.\<close>

definition storable_values :: "override_operation \<Rightarrow> bool" where
  "storable_values op \<longleftrightarrow> json_storable (parseLooseValue (oo_value_text op))
     \<and> list_all (\<lambda>c. json_storable (parseLooseValue (oc_value_text c))) (oo_conditions op)"

lemma override_keys [simp]:
  "\<not> is_index_key ''mode''" "\<not> is_index_key ''description''" "\<not> is_index_key ''path''"
  "\<not> is_index_key ''value''" "\<not> is_index_key ''keep_origin''" "\<not> is_index_key ''from''"
  "\<not> is_index_key ''to''" "\<not> is_index_key ''conditions''" "\<not> is_index_key ''logic''"
  "\<not> is_index_key ''invert''" "\<not> is_index_key ''pass_missing_key''" "\<not> is_index_key ''operations''"
  "\<not> is_index_key ''message''" "\<not> is_index_key ''status_code''" "\<not> is_index_key ''code''"
  "\<not> is_index_key ''type''" "\<not> is_index_key ''skip_retry''" "\<not> is_index_key ''recursive''"
  by code_simp+

lemma storable_literal [simp]:
  "storable_fields []"
  "storable_fields ((k, v) # o1) \<longleftrightarrow> \<not> is_index_key k \<and> k \<notin> set (map fst o1) \<and> json_storable v \<and> storable_fields o1"
  by (auto simp: storable_fields_def named_def)

lemma storable_condition_payload:
  assumes "js_trim (oc_path c) \<noteq> []" and "json_storable (parseLooseValue (oc_value_text c))"
  shows "json_storable (the (buildConditionPayload c))"
proof -
  have "storable_fields (put_if (oc_pass_missing_key c) ''pass_missing_key'' (JBool True)
      (put_if (oc_invert c) ''invert'' (JBool True)
        [(''path'', JStr (js_trim (oc_path c))), (''mode'', JStr (or_text (oc_mode c) ''full'')),
         (''value'', parseLooseValue (oc_value_text c))]))"
    using assms(2) by (intro storable_put_if) simp_all
  then show ?thesis
    using assms(1) by (simp add: buildConditionPayload_def Let_def storable_fieldsD del: json_storable.simps)
qed

lemma storable_payload:
  assumes "storable_values op"
  shows "json_storable (JObj (operation_payload op))"
proof (rule storable_fieldsD)
  have "json_storable (JArr (map (the \<circ> buildConditionPayload) (kept_conditions op)))"
    using assms storable_condition_payload
    by (auto simp: storable_values_def kept_conditions_def list_all_iff)
  then show "storable_fields (operation_payload op)"
    using assms unfolding operation_payload_def Let_def payloads_of_kept kept_conditions_def [symmetric]
    by (intro storable_put_if) (simp_all add: storable_values_def del: json_storable.simps(6))
qed

lemma pretty_operations_trimmed:
  "js_trim (json_pretty [] (JObj [(k, v)])) = json_pretty [] (JObj [(k, v)])"
proof (cases "v = JUndef")
  case False
  obtain q where "json_pretty [] (JObj [(k, v)]) = CHR ''{'' # q @ ''}''"
    using False by (simp add: Let_def)
  then show ?thesis by (intro trim_by_id) (simp add: trimmed_by_def js_space_def)
next
  case True
  then show ?thesis by (intro trim_by_id) (simp add: trimmed_by_def js_space_def Let_def)
qed


lemma build_Inr:
  assumes "buildOperationsJson ops v = Inr text" and "text \<noteq> []"
  shows "text = json_pretty [] (JObj [(''operations'',
     JArr (map (\<lambda>op. JObj (operation_payload op)) (filter (\<lambda>op. \<not> isOperationBlank op) ops)))])"
    and "filter (\<lambda>op. \<not> isOperationBlank op) ops \<noteq> []"
  using assms by (auto simp: buildOperationsJson_def Let_def split: if_splits option.splits)

lemma b_reopen:
  assumes "list_all known_modes ops" and "list_all storable_values ops"
    and "buildOperationsJson ops v = Inr text" and "text \<noteq> []"
  shows "parseInitialState i (JStr text) =
     Inr (next_seed i (filter (\<lambda>op. \<not> isOperationBlank op) ops),
       \<lparr>oi_editMode = ''visual'', oi_visualMode = ''operations'', oi_legacyValue = [],
        oi_operations = saved_operations i (filter (\<lambda>op. \<not> isOperationBlank op) ops),
        oi_jsonText = text, oi_jsonError = None\<rparr>)"
proof -
  let ?kept = "filter (\<lambda>op. \<not> isOperationBlank op) ops"
  let ?ops = "map (\<lambda>op. JObj (operation_payload op)) ?kept"
  let ?v = "JObj [(''operations'', JArr ?ops)]"
  note built = build_Inr [OF assms(3,4)]
  have trim: "js_trim text = text" unfolding built(1) by (rule pretty_operations_trimmed)
  have "list_all json_storable ?ops"
    using assms(2) storable_payload by (simp add: list_all_iff del: json_storable.simps)
  then have "json_storable ?v" by (intro storable_fieldsD) (simp del: json_storable.simps(7))
  then have parse: "json_parse text = Inr ?v" unfolding built(1) by (rule json_parse_pretty)
  have "map_fresh normalizeOperation i ?ops = Inr (next_seed i ?kept, saved_operations i ?kept)"
    using assms(1) by (intro normalize_operation_payloads) (auto simp: list_all_iff)
  then have "read_operations i ?ops = Inr (next_seed i ?kept, saved_operations i ?kept)"
    using built(2) by (simp add: read_operations_def)
  then show ?thesis
    using assms(4) built(1) [symmetric]
    by (simp add: parseInitialState_def string_or_empty_def Let_def trim parse del: json_pretty.simps)
qed

text \<open>C2: Saving the operations and opening the saved text again gives exactly the operations that
  were not blank, each as \<open>saved_operation\<close> describes it (texts trimmed, fields the mode does not
  have dropped, values as the text of what they were parsed to) and with fresh ids; the editor
  opens in the visual operations mode and shows the saved text as the JSON text.\<close>

theorem saved_operations_reopen:
  assumes "list_all known_modes ops" and "list_all storable_values ops"
    and "buildOperationsJson ops v = Inr text" and "text \<noteq> []"
  shows "parseInitialState i (JStr text) =
     Inr (next_seed i (filter (\<lambda>op. \<not> isOperationBlank op) ops),
       \<lparr>oi_editMode = ''visual'', oi_visualMode = ''operations'', oi_legacyValue = [],
        oi_operations = saved_operations i (filter (\<lambda>op. \<not> isOperationBlank op) ops),
        oi_jsonText = text, oi_jsonError = None\<rparr>)"
  using assms by (rule b_reopen)

text \<open>What two operations have in common that differ in their ids only.\<close>

definition drop_ids :: "override_operation \<Rightarrow> override_operation" where
  "drop_ids op = op\<lparr>oo_id := 0, oo_conditions := map (\<lambda>c. c\<lparr>oc_id := 0\<rparr>) (oo_conditions op)\<rparr>"

text \<open>An operation that saving does not change.\<close>

definition canonical_operation :: "override_operation \<Rightarrow> bool" where
  "canonical_operation op \<longleftrightarrow> \<not> isOperationBlank op \<and> drop_ids (saved_operation 0 op) = drop_ids op"

lemma drop_ids_fields [simp]:
  "oo_description (drop_ids op) = oo_description op" "oo_path (drop_ids op) = oo_path op"
  "oo_mode (drop_ids op) = oo_mode op" "oo_value_text (drop_ids op) = oo_value_text op"
  "oo_keep_origin (drop_ids op) = oo_keep_origin op" "oo_from (drop_ids op) = oo_from op"
  "oo_to (drop_ids op) = oo_to op" "oo_logic (drop_ids op) = oo_logic op"
  "oo_conditions (drop_ids op) = map (\<lambda>c. c\<lparr>oc_id := 0\<rparr>) (oo_conditions op)"
  by (simp_all add: drop_ids_def)

lemma drop_ids_blank: "isOperationBlank (drop_ids op) = isOperationBlank op"
  by (simp add: isOperationBlank_def condition_touched_def list_ex_iff)

lemma drop_ids_payload: "operation_payload (drop_ids op) = operation_payload op"
proof -
  have "buildConditionPayload (c\<lparr>oc_id := 0\<rparr>) = buildConditionPayload c" for c
    by (simp add: buildConditionPayload_def Let_def)
  then have "List.map_filter buildConditionPayload (map (\<lambda>c. c\<lparr>oc_id := 0\<rparr>) cs)
      = List.map_filter buildConditionPayload cs" for cs
    by (induction cs) (simp_all add: List.map_filter_simps split: option.split)
  then show ?thesis unfolding operation_payload_def drop_ids_fields by simp
qed

lemma drop_ids_valid: "validateOperation n (drop_ids op) = validateOperation n op"
  unfolding validateOperation_def drop_ids_fields ..

lemma drop_ids_valid_from: "validate_from n (map drop_ids ops) = validate_from n ops"
  by (induction ops arbitrary: n) (simp_all add: drop_ids_valid split: option.split)

lemma build_ignores_ids:
  assumes "map drop_ids ops = map drop_ids ops'"
  shows "buildOperationsJson ops v = buildOperationsJson ops' v"
proof -
  have f: "filter (\<lambda>op. \<not> isOperationBlank op) (map drop_ids xs)
      = map drop_ids (filter (\<lambda>op. \<not> isOperationBlank op) xs)" for xs
    by (simp add: filter_map comp_def drop_ids_blank)
  have p: "map (\<lambda>op. JObj (operation_payload op)) (map drop_ids xs) = map (\<lambda>op. JObj (operation_payload op)) xs" for xs
    by (simp add: drop_ids_payload)
  have "buildOperationsJson (map drop_ids xs) v = buildOperationsJson xs v" for xs
    unfolding buildOperationsJson_def Let_def f p validateOperations_def drop_ids_valid_from by simp
  with assms show ?thesis by metis
qed

lemma saved_conditions_ids:
  "map (\<lambda>c. c\<lparr>oc_id := 0\<rparr>) (saved_conditions i cs) = map (\<lambda>c. c\<lparr>oc_id := 0\<rparr>) (saved_conditions j cs)"
  by (induction cs arbitrary: i j) (simp_all add: saved_condition_def)

lemma saved_operation_ids: "drop_ids (saved_operation i op) = drop_ids (saved_operation j op)"
  using saved_conditions_ids [of "i + 1" "kept_conditions op" "j + 1"]
  by (simp add: drop_ids_def saved_operation_def Let_def)

lemma saved_canonical:
  "list_all canonical_operation ops \<Longrightarrow> map drop_ids (saved_operations i ops) = map drop_ids ops"
proof (induction ops arbitrary: i)
  case (Cons op ops)
  then show ?case using saved_operation_ids [of i op 0] by (simp add: canonical_operation_def)
qed simp

text \<open>Canonical operations survive a save: opened again they are the same operations in the same
  order up to their ids, and saving them without a change stores the same text.\<close>

lemma canonical_operations_survive:
  assumes "list_all canonical_operation ops" and "list_all known_modes ops" and "list_all storable_values ops"
    and "buildVisualJson ''operations'' legacy ops = Inr text" and "text \<noteq> []"
  shows "\<exists>n st. parseInitialState i (JStr text) = Inr (n, st)
     \<and> map drop_ids (oi_operations st) = map drop_ids ops
     \<and> buildVisualJson (oi_visualMode st) (oi_legacyValue st) (oi_operations st) = Inr text"
proof -
  from assms(4) have b: "buildOperationsJson ops True = Inr text" by (simp add: buildVisualJson_def)
  have "filter (\<lambda>op. \<not> isOperationBlank op) ops = ops"
    using assms(1) by (auto simp: canonical_operation_def list_all_iff intro!: filter_True)
  with b_reopen [OF assms(2,3) b assms(5), of i]
  have "parseInitialState i (JStr text) = Inr (next_seed i ops,
       \<lparr>oi_editMode = ''visual'', oi_visualMode = ''operations'', oi_legacyValue = [],
        oi_operations = saved_operations i ops, oi_jsonText = text, oi_jsonError = None\<rparr>)" by simp
  moreover have "map drop_ids (saved_operations i ops) = map drop_ids ops"
    by (rule saved_canonical [OF assms(1)])
  moreover from this b have "buildOperationsJson (saved_operations i ops) True = Inr text"
    using build_ignores_ids by metis
  ultimately show ?thesis by (simp add: buildVisualJson_def)
qed

section \<open>A sample\<close>

text \<open>A canonical operation: delete the field \<open>model\<close>.\<close>

definition sample_operation :: "nat \<Rightarrow> override_operation" where
  "sample_operation i = (createDefaultOperation i)\<lparr>oo_mode := ''delete'', oo_path := ''model''\<rparr>"

lemma sample_facts:
  "canonical_operation (sample_operation i)" "known_modes (sample_operation i)" "storable_values (sample_operation i)"
  "\<not> isOperationBlank (sample_operation i)" "validateOperation n (sample_operation i) = None"
proof -
  have u: "js_trim ''model'' = ''model''" and m: "meta_of ''delete'' = no_fields\<lparr>m_path := True\<rparr>" by code_simp+
  show "canonical_operation (sample_operation i)"
    by (simp add: canonical_operation_def sample_operation_def createDefaultOperation_def saved_operation_def
        kept_conditions_def drop_ids_def isOperationBlank_def Let_def u m no_fields_def)
  show "known_modes (sample_operation i)"
    by (simp add: known_modes_def sample_operation_def createDefaultOperation_def OPERATION_MODE_VALUES_def)
  show "storable_values (sample_operation i)"
    by (simp add: storable_values_def sample_operation_def createDefaultOperation_def parseLooseValue_def)
  show "\<not> isOperationBlank (sample_operation i)"
    by (simp add: isOperationBlank_def sample_operation_def)
  show "validateOperation n (sample_operation i) = None"
    by (simp add: validateOperation_def sample_operation_def createDefaultOperation_def or_text_def Let_def u m no_fields_def
        FROM_REQUIRED_MODES_def TO_REQUIRED_MODES_def VALUE_REQUIRED_MODES_def)
qed

lemma sample_saved:
  "\<exists>text. buildOperationsJson [sample_operation i] True = Inr text \<and> text \<noteq> []"
  by (simp add: buildOperationsJson_def validateOperations_def sample_facts del: json_pretty.simps)

theorem saved_operations_reopen_witness:
  "\<exists>text n st. buildOperationsJson [sample_operation 3, createDefaultOperation 4] True = Inr text
     \<and> parseInitialState 7 (JStr text) = Inr (n, st)
     \<and> oi_operations st = saved_operations 7 [sample_operation 3]"
proof -
  have b: "isOperationBlank (createDefaultOperation 4)" by (simp add: isOperationBlank_def createDefaultOperation_def)
  have same: "buildOperationsJson [sample_operation 3, createDefaultOperation 4] True = buildOperationsJson [sample_operation 3] True"
    by (simp add: buildOperationsJson_def sample_facts b)
  obtain r where r: "buildOperationsJson [sample_operation 3, createDefaultOperation 4] True = Inr r" "r \<noteq> []"
    unfolding same using sample_saved by blast
  have "known_modes (createDefaultOperation 4)" "storable_values (createDefaultOperation 4)"
    by (simp_all add: known_modes_def storable_values_def createDefaultOperation_def OPERATION_MODE_VALUES_def parseLooseValue_def)
  with saved_operations_reopen [OF _ _ r, of 7] r(1) show ?thesis
    by (simp add: sample_facts b)
qed

end
