(* ===== verification/FloatBounds.thy ===== *)
theory FloatBounds
  imports JsNumber
begin

text \<open>
  The error of one rounding: in the range of normal numbers the rounded result differs from the
  exact one by a factor within \<open>2^-53\<close> of one, and chains of such factors stay close to one.
  Computations of amounts of money are bounded by these lemmas.
\<close>

lemma pow2_int: "pow2 e = 2 powi e"
  by (cases "0 \<le> e") (simp_all add: base_pow_def int_pow power_int_def inverse_eq_divide power_one_over)

lemma pow2_pos [simp]: "0 < pow2 e"
  by (simp add: pow2_int)

lemma pow2_add: "pow2 (d + e) = pow2 d * pow2 e"
  by (simp add: pow2_int power_int_add)

lemma pow2_mono: "d \<le> e \<Longrightarrow> pow2 d \<le> pow2 e"
  by (simp add: pow2_int power_int_increasing)

lemma pow2_less: "pow2 d < pow2 e \<longleftrightarrow> d < e"
  by (metis linorder_not_less pow2_mono order_le_less pow2_int power_int_strict_increasing one_less_numeral_iff
      semiring_norm(76) less_le_not_le)

section \<open>The exponent of a positive rational\<close>

lemma bit_len_bounds: "0 < n \<Longrightarrow> 0 < bit_len n \<and> 2 ^ nat (bit_len n - 1) \<le> n \<and> n < 2 ^ nat (bit_len n)"
proof (induction n rule: bit_len.induct)
  case (1 n)
  show ?case
  proof (cases "n = 1")
    case True
    then show ?thesis by (simp add: bit_len.simps [of 1] bit_len.simps [of 0])
  next
    case False
    with 1 have IH: "0 < bit_len (n div 2)" "2 ^ nat (bit_len (n div 2) - 1) \<le> n div 2"
      "n div 2 < 2 ^ nat (bit_len (n div 2))" by auto
    have b: "bit_len n = bit_len (n div 2) + 1" using 1 by (simp add: bit_len.simps [of n])
    have "nat (bit_len (n div 2)) = Suc (nat (bit_len (n div 2) - 1))" using IH(1) by simp
    then have p: "(2::int) ^ nat (bit_len (n div 2)) = 2 * 2 ^ nat (bit_len (n div 2) - 1)" by simp
    have "nat (bit_len (n div 2) + 1) = Suc (nat (bit_len (n div 2)))" using IH(1) by simp
    then have q: "(2::int) ^ nat (bit_len (n div 2) + 1) = 2 * 2 ^ nat (bit_len (n div 2))" by simp
    have "2 ^ nat (bit_len (n div 2)) \<le> n" using IH(2) p by linarith
    moreover have "n < 2 * 2 ^ nat (bit_len (n div 2))" using IH(3) by linarith
    ultimately show ?thesis using IH(1) by (simp add: b q)
  qed
qed

lemma bit_len_pow2: "0 < n \<Longrightarrow> pow2 (bit_len n - 1) \<le> of_int n \<and> of_int n < pow2 (bit_len n)"
proof -
  assume "0 < n"
  then have b: "0 < bit_len n" "2 ^ nat (bit_len n - 1) \<le> n" "n < 2 ^ nat (bit_len n)"
    using bit_len_bounds by blast+
  then have "(of_int (2 ^ nat (bit_len n - 1)) :: rat) \<le> of_int n" "(of_int n :: rat) < of_int (2 ^ nat (bit_len n))"
    by (simp_all only: of_int_le_iff of_int_less_iff)
  with b(1) show ?thesis by (simp add: pow2_int power_int_def)
qed

lemma binary_exponent_bounds:
  assumes "0 < a"
  shows "pow2 (binary_exponent a) \<le> a" and "a < pow2 (binary_exponent a + 1)"
proof -
  obtain p q where pq: "quotient_of a = (p, q)" by fastforce
  have q: "0 < q" and a: "a = of_int p / of_int q"
    using quotient_of_denom_pos [OF pq] quotient_of_div [OF pq] by simp_all
  with assms have p: "0 < p" by (simp add: zero_less_divide_iff)
  let ?e = "bit_len p - bit_len q"
  have bp: "pow2 (bit_len p - 1) \<le> of_int p" "of_int p < pow2 (bit_len p)"
    and bq: "pow2 (bit_len q - 1) \<le> of_int q" "of_int q < pow2 (bit_len q)"
    using bit_len_pow2 p q by blast+
  have "pow2 (?e - 1) * of_int q \<le> of_int p"
  proof -
    have "pow2 (?e - 1) * of_int q \<le> pow2 (?e - 1) * pow2 (bit_len q)" using bq(2) by simp
    also have "\<dots> = pow2 (bit_len p - 1)" by (simp flip: pow2_add)
    finally show ?thesis using bp(1) by simp
  qed
  then have lo: "pow2 (?e - 1) \<le> a" using q by (simp add: a pos_le_divide_eq)
  have "of_int p < pow2 (?e + 1) * of_int q"
  proof -
    have "pow2 (bit_len p) = pow2 (?e + 1) * pow2 (bit_len q - 1)" by (simp flip: pow2_add)
    also have "\<dots> \<le> pow2 (?e + 1) * of_int q" using bq(1) by simp
    finally show ?thesis using bp(2) by simp
  qed
  then have hi: "a < pow2 (?e + 1)" using q by (simp add: a pos_divide_less_eq)
  show "pow2 (binary_exponent a) \<le> a" "a < pow2 (binary_exponent a + 1)"
    using lo hi by (auto simp: binary_exponent_def pq Let_def)
qed

section \<open>The error of a rounding\<close>

lemma round_half_even_error: "\<bar>of_int (round_half_even x) - x\<bar> \<le> 1/2"
  using floor_correct [of x] by (auto simp: round_half_even_def Let_def abs_le_iff)

definition half_ulp :: rat where "half_ulp = 1 / 2 ^ 53"

lemma pow2_half_ulp: "pow2 (k - 53) = pow2 k * half_ulp"
  by (simp add: pow2_int power_int_diff half_ulp_def)

lemma fl_error:
  assumes "pow2 (- 1022) \<le> x" and "x < pow2 1023"
  obtains e where "\<bar>e\<bar> \<le> half_ulp" and "fl x = Fin (x * (1 + e))"
proof -
  have x: "0 < x" using assms(1) pow2_pos less_le_trans by blast
  let ?k = "binary_exponent x"
  note b = binary_exponent_bounds [OF x]
  have "pow2 (- 1022) < pow2 (?k + 1)" using assms(1) b(2) by simp
  then have u: "max (?k - 52) (- 1074) = ?k - 52" by (simp add: pow2_less)
  define y where "y = of_int (round_half_even (x / pow2 (?k - 52))) * pow2 (?k - 52)"
  let ?u = "pow2 (?k - 52)"
  have nz: "?u \<noteq> 0" using pow2_pos [of "?k - 52"] by (simp only: less_imp_neq [THEN not_sym] simp_thms)
  have "y - x = (of_int (round_half_even (x / ?u)) - x / ?u) * ?u"
    using nz by (simp add: y_def left_diff_distrib)
  then have "\<bar>y - x\<bar> = \<bar>of_int (round_half_even (x / ?u)) - x / ?u\<bar> * ?u"
    using pow2_pos [of "?k - 52"] by (simp only: abs_mult abs_of_pos)
  also have "\<dots> \<le> 1/2 * pow2 (?k - 52)"
    using round_half_even_error by (intro mult_right_mono) (simp_all add: less_imp_le)
  also have "\<dots> = pow2 ?k * half_ulp"
    by (simp add: pow2_int power_int_diff half_ulp_def)
  also have "\<dots> \<le> x * half_ulp" using b(1) by (simp add: half_ulp_def)
  finally have err: "\<bar>y - x\<bar> \<le> x * half_ulp" .
  have "y \<le> x + x * half_ulp" using err by (simp add: abs_le_iff)
  also have "\<dots> < pow2 1023 + pow2 1023" using assms(2) x by (intro add_strict_mono) (simp_all add: half_ulp_def)
  also have "\<dots> = pow2 1024" by (simp add: pow2_int power_int_def)
  finally have "fl x = Fin y"
    using x u by (simp add: fl_def y_def Let_def)
  moreover have "y = x * (1 + (y / x - 1))" using x by simp
  moreover have "\<bar>y / x - 1\<bar> \<le> half_ulp"
  proof -
    have "\<bar>y / x - 1\<bar> = \<bar>y - x\<bar> / x" using x by (simp add: field_simps abs_divide flip: abs_div_pos)
    with err x show ?thesis by (simp add: pos_divide_le_eq mult.commute)
  qed
  ultimately show ?thesis using that by metis
qed

section \<open>Chains of roundings\<close>

text \<open>\<open>near k x y\<close>: \<open>y\<close> is \<open>x\<close> up to the error of \<open>k\<close> roundings.\<close>

definition near :: "nat \<Rightarrow> rat \<Rightarrow> rat \<Rightarrow> bool" where
  "near k x y \<longleftrightarrow> x * (1 - half_ulp) ^ k \<le> y \<and> y \<le> x * (1 + half_ulp) ^ k"

lemma near_0 [simp]: "near 0 x x"
  by (simp add: near_def)

lemma near_scale: "near k x y \<Longrightarrow> 0 < c \<Longrightarrow> near k (x * c) (y * c)"
  unfolding near_def by (metis mult.assoc mult.commute mult_le_cancel_right_pos)

lemma half_ulp_bounds: "0 < half_ulp" "half_ulp < 1"
  by (simp_all add: half_ulp_def)

lemma near_step:
  assumes "near k x y" and "0 < y" and "\<bar>e\<bar> \<le> half_ulp"
  shows "near (Suc k) x (y * (1 + e))"
proof -
  have e: "1 - half_ulp \<le> 1 + e" "1 + e \<le> 1 + half_ulp" using assms(3) by (simp_all add: abs_le_iff)
  have lo: "x * (1 - half_ulp) ^ k \<le> y" and hi: "y \<le> x * (1 + half_ulp) ^ k" using assms(1) by (simp_all add: near_def)
  have "x * (1 - half_ulp) ^ Suc k = (x * (1 - half_ulp) ^ k) * (1 - half_ulp)" by simp
  also have "\<dots> \<le> y * (1 - half_ulp)" using lo half_ulp_bounds by (intro mult_right_mono) simp_all
  also have "\<dots> \<le> y * (1 + e)" using assms(2) e by simp
  finally have l: "x * (1 - half_ulp) ^ Suc k \<le> y * (1 + e)" .
  have "y * (1 + e) \<le> y * (1 + half_ulp)" using assms(2) e by simp
  also have "\<dots> \<le> (x * (1 + half_ulp) ^ k) * (1 + half_ulp)"
    using hi half_ulp_bounds by (intro mult_right_mono) simp_all
  also have "\<dots> = x * (1 + half_ulp) ^ Suc k" by simp
  finally show ?thesis using l by (simp only: near_def simp_thms)
qed

text \<open>One rounded operation on a value in a chain.\<close>

lemma near_fl:
  assumes "near k x y" and "pow2 (- 1022) \<le> y" and "y < pow2 1023"
  obtains z where "fl y = Fin z" and "near (Suc k) x z"
proof -
  obtain e where "\<bar>e\<bar> \<le> half_ulp" "fl y = Fin (y * (1 + e))" by (rule fl_error [OF assms(2,3)])
  moreover have "0 < y" using assms(2) pow2_pos less_le_trans by blast
  ultimately show ?thesis using near_step assms(1) that by blast
qed

text \<open>Up to four roundings a value keeps half and at most doubles, and an integer below \<open>2^49\<close>
  is still the nearest integer.\<close>

lemma four_roundings:
  assumes "k \<le> 4"
  shows "1 - 1 / 2 ^ 50 \<le> (1 - half_ulp) ^ k" and "(1 + half_ulp) ^ k \<le> 1 + 1 / 2 ^ 50"
proof -
  have "(1 - half_ulp) ^ 4 \<le> (1 - half_ulp) ^ k" using assms half_ulp_bounds by (intro power_decreasing) simp_all
  moreover have "1 - 1 / 2 ^ 50 \<le> (1 - half_ulp) ^ 4" by (simp add: half_ulp_def power4_eq_xxxx)
  ultimately show "1 - 1 / 2 ^ 50 \<le> (1 - half_ulp) ^ k" by simp
  have "(1 + half_ulp) ^ k \<le> (1 + half_ulp) ^ 4" using assms half_ulp_bounds by (intro power_increasing) simp_all
  moreover have "(1 + half_ulp) ^ 4 \<le> 1 + 1 / 2 ^ 50" by (simp add: half_ulp_def power4_eq_xxxx)
  ultimately show "(1 + half_ulp) ^ k \<le> 1 + 1 / 2 ^ 50" by simp
qed

lemma near_bounds:
  assumes "near k x y" and "k \<le> 4" and "0 \<le> x"
  shows "x - x / 2 ^ 50 \<le> y" and "y \<le> x + x / 2 ^ 50"
proof -
  have "x * (1 - 1 / 2 ^ 50) \<le> x * (1 - half_ulp) ^ k" "x * (1 + half_ulp) ^ k \<le> x * (1 + 1 / 2 ^ 50)"
    using four_roundings [OF assms(2)] assms(3) by (blast intro: mult_left_mono)+
  with assms(1) show "x - x / 2 ^ 50 \<le> y" "y \<le> x + x / 2 ^ 50"
    unfolding near_def right_diff_distrib distrib_left mult_1_right times_divide_eq_right by linarith+
qed

lemma near_range:
  assumes "near k x y" and "k \<le> 4" and "pow2 a \<le> x" and "x \<le> pow2 b"
  shows "pow2 (a - 1) \<le> y" and "y \<le> pow2 (b + 1)"
proof -
  have x: "0 < x" using assms(3) pow2_pos less_le_trans by blast
  have "pow2 (a - 1) = pow2 a / 2" "pow2 (b + 1) = pow2 b * 2"
    by (simp_all add: pow2_int power_int_diff power_int_add)
  with near_bounds [OF assms(1,2)] x assms(3,4) show "pow2 (a - 1) \<le> y" "y \<le> pow2 (b + 1)" by simp_all
qed

lemma near_integer:
  assumes "near k (of_int n) y" and "k \<le> 4" and "0 \<le> n" and "n < 2 ^ 49"
  shows "\<lfloor>y + 1/2\<rfloor> = n"
proof -
  have n: "(of_int n :: rat) < of_int (2 ^ 49)" using assms(4) by (simp only: of_int_less_iff)
  then have "of_int n / 2 ^ 50 < (1 / 2 :: rat)" by simp
  moreover have "(0::rat) \<le> of_int n" using assms(3) by simp
  ultimately show ?thesis
    using near_bounds [OF assms(1,2)] by (intro floor_unique) linarith+
qed

text \<open>A rounded product with a positive factor, all exact values well inside the range.\<close>

lemma near_product:
  assumes "near k x y" and "k \<le> 3" and "0 < c" and "pow2 (- 1000) \<le> x * c" and "x * c \<le> pow2 1000"
  obtains z where "fl (y * c) = Fin z" and "near (Suc k) (x * c) z" and "0 < z"
proof -
  have n: "near k (x * c) (y * c)" using assms(1,3) by (rule near_scale)
  have r: "pow2 (- 1001) \<le> y * c" "y * c \<le> pow2 1001"
    using near_range [OF n _ assms(4,5)] assms(2) by simp_all
  have "pow2 (- 1022) \<le> pow2 (- 1001)" and "pow2 1001 < pow2 1023" by (simp_all add: pow2_mono pow2_less)
  with r have "pow2 (- 1022) \<le> y * c" "y * c < pow2 1023" by linarith+
  then obtain z where z: "fl (y * c) = Fin z" "near (Suc k) (x * c) z" by (rule near_fl [OF n])
  have "pow2 (- 1001) \<le> z" using near_range(1) [OF z(2) _ assms(4,5)] assms(2) by simp
  then have "0 < z" using pow2_pos less_le_trans by blast
  with z show ?thesis by (rule that)
qed

section \<open>Integers\<close>

lemma round_half_even_int [simp]: "round_half_even (of_int m) = m"
  by (simp add: round_half_even_def)

lemma fl_of_int:
  assumes "0 \<le> n" and "n < 2 ^ 53"
  shows "fl (of_int n) = Fin (of_int n)"
proof (cases "n = 0")
  case False
  let ?k = "binary_exponent (of_int n)"
  have n: "(0::rat) < of_int n" "(1::rat) \<le> of_int n" using assms(1) False by simp_all
  note b = binary_exponent_bounds [OF n(1)]
  have n53: "(of_int n :: rat) < pow2 53"
  proof -
    have "(of_int n :: rat) < of_int (2 ^ 53)" using assms(2) by (simp only: of_int_less_iff)
    then show ?thesis by (simp add: pow2_int power_int_def)
  qed
  have "pow2 ?k < pow2 53" and "pow2 0 < pow2 (?k + 1)"
    using b n n53 by (simp_all add: pow2_int)
  then have k: "?k \<le> 52" "0 \<le> ?k" by (simp_all add: pow2_less)
  then have u: "max (?k - 52) (- 1074) = ?k - 52" by simp
  have "pow2 (52 - ?k) = of_int (2 ^ nat (52 - ?k))" using k by (simp add: pow2_int power_int_def)
  moreover have inv: "1 / pow2 (?k - 52) = pow2 (52 - ?k)"
    by (simp add: pow2_int power_int_diff)
  ultimately have "of_int n / pow2 (?k - 52) = of_int (n * 2 ^ nat (52 - ?k))"
    by (metis of_int_mult times_divide_eq_right mult.right_neutral)
  then have "of_int (round_half_even (of_int n / pow2 (?k - 52))) = of_int n / pow2 (?k - 52)"
    by (simp only: round_half_even_int)
  moreover have "pow2 (?k - 52) \<noteq> 0" by (simp add: pow2_int)
  ultimately have "of_int (round_half_even (of_int n / pow2 (?k - 52))) * pow2 (?k - 52) = of_int n" by simp
  moreover have "\<not> pow2 1024 \<le> of_int n" using n53 pow2_less [of 53 1024] by (simp add: not_le)
  ultimately show ?thesis using n u by (simp add: fl_def Let_def)
qed simp

lemma between_integers:
  "\<bar>d\<bar> < k \<Longrightarrow> h + k \<le> x \<Longrightarrow> x \<le> h + 1 - k \<Longrightarrow> h \<le> x + d \<and> x + d < h + 1" for d k h x :: rat
  by linarith

lemma quotient_range:
  assumes "0 < v" and "v < 2 ^ 53" and "0 < c" and "c < 2 ^ 53"
  shows "pow2 (- 1022) \<le> of_int v / of_int c" and "of_int v / of_int c < pow2 1023"
proof -
  have p: "pow2 53 = of_int (2 ^ 53)" "pow2 (- 53) = 1 / of_int (2 ^ 53)"
    by (simp_all add: pow2_int power_int_def power_one_over inverse_eq_divide)
  have c: "(0::rat) < of_int c" "(1::rat) \<le> of_int c" "(of_int c :: rat) \<le> of_int (2 ^ 53)"
    and v: "(1::rat) \<le> of_int v" "(of_int v :: rat) < of_int (2 ^ 53)"
    using assms by (simp, simp, simp only: of_int_le_iff, simp, simp only: of_int_less_iff)
  have "pow2 (- 1022) \<le> pow2 (- 53)" by (rule pow2_mono) simp
  also have "\<dots> \<le> 1 / of_int c" unfolding p by (rule frac_le [OF _ _ c(1,3)]) simp_all
  also have "\<dots> \<le> of_int v / of_int c" using v(1) c(1) by (intro divide_right_mono) simp_all
  finally show "pow2 (- 1022) \<le> of_int v / of_int c" .
  have "of_int v / of_int c \<le> (of_int v :: rat)" using c v by (simp add: divide_le_eq)
  also have "\<dots> < pow2 1023" using v(2) pow2_mono [of 53 1023] p(1) by simp
  finally show "of_int v / of_int c < pow2 1023" .
qed

text \<open>The quotient of two integers, rounded and cut off, is the integer quotient.\<close>

lemma floor_quotient:
  assumes "0 \<le> v" and "v < 2 ^ 53" and "0 < c" and "c < 2 ^ 53"
  shows "js_floor (js_div (Fin (of_int v)) (Fin (of_int c))) = Fin (of_int (v div c))"
proof (cases "v mod c = 0")
  case True
  then have "(of_int v :: rat) / of_int c = of_int (v div c)"
    using assms(3) by (metis div_mult_mod_eq add.right_neutral nonzero_mult_div_cancel_right of_int_0_eq_iff
        of_int_mult less_irrefl)
  moreover have "0 \<le> v div c" "v div c < 2 ^ 53"
    using assms zdiv_mono2 [of v 1 c] by (simp_all add: pos_imp_zdiv_nonneg_iff)
  ultimately show ?thesis using assms(3) by (simp add: fl_of_int)
next
  case False
  let ?x = "of_int v / of_int c :: rat" and ?h = "v div c"
  have v: "v = c * ?h + v mod c" and m: "0 < v mod c" "v mod c < c" and h: "0 \<le> ?h"
    using assms False order_le_neq_trans [OF pos_mod_sign [of c v]] pos_mod_bound [of c v]
    by (simp_all add: pos_imp_zdiv_nonneg_iff)
  have v0: "0 < v" using assms(1) False by (cases "v = 0") simp_all
  have x: "?x = of_int ?h + of_int (v mod c) / of_int c"
  proof -
    have "(of_int v :: rat) = of_int c * of_int ?h + of_int (v mod c)"
      by (simp only: flip: of_int_mult of_int_add v)
    then show ?thesis using assms(3) by (simp add: add_divide_distrib)
  qed
  have c0: "(0::rat) < of_int c" using assms(3) by simp
  have "(1::rat) \<le> of_int (v mod c)" "(of_int (v mod c) :: rat) \<le> of_int (c - 1)"
    using m by (simp, simp only: of_int_le_iff)
  then have "1 / of_int c \<le> (of_int (v mod c) :: rat) / of_int c"
    "(of_int (v mod c) :: rat) / of_int c \<le> of_int (c - 1) / of_int c"
    using c0 by (simp_all add: divide_right_mono)
  moreover have "(of_int (c - 1) :: rat) / of_int c = 1 - 1 / of_int c" using c0 by (simp add: field_simps)
  ultimately have lo: "of_int ?h + 1 / of_int c \<le> ?x" and hi: "?x \<le> of_int ?h + 1 - 1 / of_int c"
    using x by simp_all
  have r: "pow2 (- 1022) \<le> ?x" "?x < pow2 1023" by (rule quotient_range [OF v0 assms(2,3,4)])+
  obtain e where e: "\<bar>e\<bar> \<le> half_ulp" "fl ?x = Fin (?x * (1 + e))" by (rule fl_error [OF r])
  have "\<bar>?x * e\<bar> = ?x * \<bar>e\<bar>" using v0 c0 by (simp add: abs_mult)
  also have "\<dots> \<le> ?x * half_ulp" using e(1) v0 c0 by (intro mult_left_mono) simp_all
  also have "\<dots> = (of_int v * half_ulp) / of_int c" by simp
  also have "\<dots> < 1 / of_int c"
  proof (rule divide_strict_right_mono [OF _ c0])
    have "(of_int v :: rat) < of_int (2 ^ 53)" using assms(2) by (simp only: of_int_less_iff)
    then show "of_int v * half_ulp < 1" by (simp add: half_ulp_def)
  qed
  finally have "\<bar>?x * e\<bar> < 1 / of_int c" .
  then have "of_int ?h \<le> ?x + ?x * e" "?x + ?x * e < of_int ?h + 1"
    using between_integers [OF _ lo hi] by blast+
  then have "\<lfloor>?x * (1 + e)\<rfloor> = ?h" by (intro floor_unique) (simp_all only: distrib_left mult_1_right)
  then show ?thesis using e(2) c0 by simp
qed

section \<open>Integers that are doubles\<close>

lemma fl_int_eq: "0 \<le> m \<Longrightarrow> m < 2 ^ 53 \<Longrightarrow> fl (of_int m) = Fin (of_int k) \<longleftrightarrow> m = k"
  by (simp add: fl_of_int)

lemma show_int_small: "0 \<le> k \<Longrightarrow> k < 10 \<Longrightarrow> show_int k = [digit_char (nat k)]"
  by (simp add: show_int.simps [of k])

lemma show_int_two: "10 \<le> k \<Longrightarrow> k < 100 \<Longrightarrow> show_int k = [digit_char (nat (k div 10)), digit_char (nat (k mod 10))]"
  using show_int_small [of "k div 10"] by (simp add: show_int.simps [of k])

end
