(* ===== verification/IntegerText.thy ===== *)
theory IntegerText
  imports FloatBounds StoredData JsonRoundtrip
begin

text \<open>
  The decimal text of an integer below \<open>10^15\<close>: \<open>String(n)\<close> finds the digits of the integer
  without its trailing zeros and lays them out as the integer, so the text is the one
  \<open>show_int\<close> gives, and JSON reads it back.
\<close>

lemma pow10_int: "0 \<le> e \<Longrightarrow> pow10 e = of_int (10 ^ nat e)"
  by (simp add: base_pow_def int_pow)

lemma show_int_snoc: "0 < s \<Longrightarrow> 0 \<le> d \<Longrightarrow> d < 10 \<Longrightarrow> show_int (s * 10 + d) = show_int s @ [digit_char (nat d)]"
  by (simp add: show_int.simps [of "s * 10 + d"])

lemma show_int_zeros: "0 < s \<Longrightarrow> show_int (s * 10 ^ i) = show_int s @ zeros i"
proof (induction i)
  case (Suc i)
  have "digit_char 0 = CHR ''0''" by (simp add: digit_char_def)
  with Suc show_int_snoc [of "s * 10 ^ i" 0] show ?case
    by (simp add: zeros_def mult.assoc mult.commute [of 10] replicate_append_same)
qed (simp add: zeros_def)

lemma show_int_length: "0 < k \<Longrightarrow> k < 10 ^ n \<Longrightarrow> length (show_int k) \<le> n \<and> 10 ^ (length (show_int k) - 1) \<le> k"
proof (induction k arbitrary: n rule: show_int.induct)
  case (1 k)
  show ?case
  proof (cases "k < 10")
    case True
    with 1 show ?thesis by (cases n) (simp_all add: show_int.simps [of k])
  next
    case False
    then obtain m where n: "n = Suc m" using 1 by (cases n) auto
    have d: "0 < k div 10" "k div 10 < 10 ^ m" using False 1(3) by (simp_all add: n pos_imp_zdiv_pos_iff)
    have l: "length (show_int k) = Suc (length (show_int (k div 10)))"
      using False by (simp add: show_int.simps [of k])
    note IH = "1.IH" [OF False d]
    have "(10::int) ^ length (show_int (k div 10)) = 10 * 10 ^ (length (show_int (k div 10)) - 1)"
      using show_int_nonempty [of "k div 10"] by (cases "length (show_int (k div 10))") simp_all
    also have "\<dots> \<le> 10 * (k div 10)" using IH by simp
    also have "\<dots> \<le> k" by simp
    finally show ?thesis using IH l n by simp
  qed
qed

text \<open>The search for the digits stops where the rest of the integer is zeros.\<close>

lemma shortest_of_int:
  assumes k: "0 < k" "k < 10 ^ 15" and n: "int (length (show_int k)) = n"
    and j: "1 \<le> j" "int j \<le> n" and m: "n \<le> int m + int j - 1"
  shows "\<exists>s i. shortest_from m j n (of_int k) = (s, i) \<and> j \<le> i \<and> int i \<le> n \<and> s * 10 ^ nat (n - int i) = k"
  using j m
proof (induction m arbitrary: j)
  case 0
  then show ?case by simp
next
  case (Suc m)
  define p :: int where "p = 10 ^ nat (n - int j)"
  define s where "s = k div p"
  have p: "0 < p" by (simp add: p_def)
  have pw: "pow10 (n - int j) = of_int p" using Suc.prems by (simp add: pow10_int p_def)
  have fs: "\<lfloor>of_int k / (of_int p :: rat)\<rfloor> = s"
    by (simp add: s_def floor_divide_of_int_eq)
  have "p \<le> 10 ^ (length (show_int k) - 1)" unfolding p_def using Suc.prems n by (intro power_increasing) auto
  with k show_int_length [of k 15] have "p \<le> k" by auto
  have sp: "s * p = k - k mod p" by (simp add: s_def minus_mod_eq_div_mult)
  have lo: "s * p \<le> k" using sp p pos_mod_sign [of p k] by simp
  have hi: "k < (s + 1) * p" using sp pos_mod_bound [OF p, of k] by (simp add: distrib_right)
  have "(s + 1) * p \<le> 2 * 10 ^ 15" using lo \<open>p \<le> k\<close> k by (simp add: distrib_right)
  then have big: "(s + 1) * p < 2 ^ 53" by simp
  have s0: "0 \<le> s" unfolding s_def using k p by (simp add: pos_imp_zdiv_nonneg_iff)
  have okl: "fl (of_int s * of_int p) = Fin (of_int k) \<longleftrightarrow> s * p = k"
    using fl_int_eq [of "s * p" k] s0 p lo big hi by simp
  have okh: "fl (of_int (s + 1) * of_int p) \<noteq> Fin (of_int k)"
    using fl_int_eq [of "(s + 1) * p" k] s0 p hi big by (simp del: of_int_add)
  have step: "shortest_from (Suc m) j n (of_int k)
      = (if s * p = k then (s, j) else shortest_from m (Suc j) n (of_int k))"
    unfolding shortest_from.simps(2) Let_def pw fs using okl okh by simp
  show ?case
  proof (cases "s * p = k")
    case True
    with step Suc.prems show ?thesis by (simp add: p_def)
  next
    case False
    have "int j \<noteq> n"
    proof
      assume "int j = n"
      then have "p = 1" by (simp add: p_def)
      with False show False by (simp add: s_def)
    qed
    with Suc.prems have "1 \<le> Suc j" "int (Suc j) \<le> n" "n \<le> int m + int (Suc j) - 1" by simp_all
    from Suc.IH [OF this] step False show ?thesis by auto
  qed
qed

theorem text_of_int:
  assumes "0 \<le> k" and "k < 10 ^ 15"
  shows "text_of_number (Fin (of_int k)) = show_int k"
proof (cases "k = 0")
  case True
  then show ?thesis by (simp add: show_int_small digit_char_def)
next
  case False
  with assms have k: "0 < k" "k < 10 ^ 15" by simp_all
  define n where "n = int (length (show_int k))"
  have len: "length (show_int k) \<le> 15" "show_int k \<noteq> []" using show_int_length [OF k] by simp_all
  have e: "decimal_exponent (of_int k) = n" using k by (simp add: decimal_exponent_def n_def)
  have "n \<le> int 16 + int 1 - 1" "1 \<le> n" using len by (simp_all add: n_def Suc_leI)
  with shortest_of_int [OF k, of n 1 16] obtain s i where
    sh: "shortest_from 16 1 n (of_int k) = (s, i)" and i: "1 \<le> i" "int i \<le> n" and s: "s * 10 ^ nat (n - int i) = k"
    by (auto simp: n_def)
  have "0 < s" using s k(1) by (metis zero_less_mult_pos2 zero_less_power zero_less_numeral)
  then have z: "show_int k = show_int s @ zeros (nat (n - int i))"
    using show_int_zeros [of s "nat (n - int i)"] s by simp
  have l: "length (show_int s) = i"
  proof -
    have "length (show_int k) = length (show_int s) + nat (n - int i)"
      unfolding z by (simp add: zeros_def)
    with i show ?thesis unfolding n_def by linarith
  qed
  have "layout_digits (show_int s) n = show_int k"
    using i len by (simp add: layout_digits_def l z [symmetric] n_def [symmetric] Let_def) (simp add: n_def)
  then show ?thesis using k e sh l by (simp add: text_of_pos_def)
qed

text \<open>Such a number is stored and read back by JSON.\<close>

lemma show_int_head: "0 < k \<Longrightarrow> hd (show_int k) \<noteq> CHR ''0''"
proof (induction k rule: show_int.induct)
  case (1 k)
  show ?case
  proof (cases "k < 10")
    case True
    then have "nat k = 1 \<or> nat k = 2 \<or> nat k = 3 \<or> nat k = 4 \<or> nat k = 5 \<or> nat k = 6 \<or> nat k = 7
        \<or> nat k = 8 \<or> nat k = 9" using 1(2) by arith
    with True show ?thesis by (auto simp: show_int.simps [of k] digit_char_def)
  next
    case False
    with 1 show ?thesis by (simp add: show_int.simps [of k] pos_imp_zdiv_pos_iff)
  qed
qed

lemma json_number_digits: "0 \<le> k \<Longrightarrow> json_number_ok (show_int k)"
proof -
  assume k: "0 \<le> k"
  have d: "list_all is_digit (show_int k)" using show_int_digits [OF k] by (simp add: list_all_iff)
  then have w: "takeWhile is_digit (show_int k) = show_int k" "dropWhile is_digit (show_int k) = []"
    by (simp_all add: list_all_iff)
  obtain c q where c: "show_int k = c # q" by (cases "show_int k") auto
  have "is_digit c" using d by (simp add: c)
  then have "c \<noteq> CHR ''-''" by (auto simp: is_digit_def)
  then have sign: "(case show_int k of c # r \<Rightarrow> if c = CHR ''-'' then r else show_int k | [] \<Rightarrow> show_int k) = show_int k"
    by (simp add: c)
  have "hd (show_int k) \<noteq> CHR ''0'' \<or> length (show_int k) = 1"
    using show_int_head [of k] k by (cases "k = 0") (auto simp: show_int.simps [of 0])
  then show ?thesis unfolding json_number_ok_def Let_def sign w by simp
qed

lemma json_storable_int:
  assumes "0 \<le> k" and "k < 10 ^ 15"
  shows "json_storable (JNum (Fin (of_int k)))"
proof -
  have d: "list_all is_digit (show_int k)" using show_int_digits [OF assms(1)] by (simp add: list_all_iff)
  obtain c q where c: "show_int k = c # q" by (cases "show_int k") auto
  have "is_digit c" using d by (simp add: c)
  then have "c \<noteq> CHR ''t''" "c \<noteq> CHR ''f''" "c \<noteq> CHR ''n''" by (auto simp: is_digit_def)
  then have "json_literal (show_int k) = json_number (show_int k)" by (simp add: json_literal_def c)
  also have "\<dots> = Some (JNum (fl (of_int k)), [])"
    using d digits_scanned [of "show_int k"] json_number_digits [OF assms(1)] assms(1)
    by (simp add: json_number_def)
  finally show ?thesis
    using text_of_int [OF assms] fl_of_int [of k] assms by (simp add: is_finite_num_def)
qed

end
