(* ===== verification/ParamOverrideDrafts.thy ===== *)
theory ParamOverrideDrafts
  imports ParamOverrideProps IntegerText
begin

text \<open>
  The validation, the drafts of structured values and the reordering of the parameter
  override editor: what a saved text is guaranteed to contain, which drafts survive being
  written and read again and which do not, and where a moved operation lands.
\<close>

section \<open>What the validation guarantees\<close>











lemma valid_fields:
  assumes "validateOperation n op = None" and "known_modes op"
  shows "m_path (meta_of (oo_mode op)) \<Longrightarrow> js_trim (oo_path op) \<noteq> []"
    and "m_from (meta_of (oo_mode op)) \<Longrightarrow> js_trim (oo_from op) \<noteq> []"
    and "m_to (meta_of (oo_mode op)) \<Longrightarrow> js_trim (oo_to op) \<noteq> []"
    and "oo_mode op \<in> set VALUE_REQUIRED_MODES \<Longrightarrow> js_trim (oo_value_text op) \<noteq> []"
proof -
  have m: "or_text (oo_mode op) ''set'' = oo_mode op"
    using assms(2) known_mode_nonempty by (simp add: known_modes_def)
  note v = assms(1) [unfolded validateOperation_def Let_def m]
  show "m_path (meta_of (oo_mode op)) \<Longrightarrow> js_trim (oo_path op) \<noteq> []"
    and "m_from (meta_of (oo_mode op)) \<Longrightarrow> js_trim (oo_from op) \<noteq> []"
    and "m_to (meta_of (oo_mode op)) \<Longrightarrow> js_trim (oo_to op) \<noteq> []"
    and "oo_mode op \<in> set VALUE_REQUIRED_MODES \<Longrightarrow> js_trim (oo_value_text op) \<noteq> []"
    using v by (simp_all split: if_splits)
qed










text \<open>The path of a header operation is meant to stand in for a missing source or target, but the
  later checks refuse the operation all the same, so the stand-in is never reached.\<close>

lemma path_never_stands_in:
  assumes "m_pathAlias (meta_of (oo_mode op))" and "known_modes op"
    and "js_trim (oo_from op) = [] \<or> js_trim (oo_to op) = []"
  shows "validateOperation n op \<noteq> None"
  using valid_fields(2,3) [of n op] alias_has_both [OF assms(1)] assms(2,3) by auto

text \<open>The line of a message counts the operations that are not blank, not the ones on the screen.\<close>

lemma line_counts_kept_operations:
  "buildOperationsJson
     [createDefaultOperation 1, (createDefaultOperation 2)\<lparr>oo_mode := ''delete''\<rparr>] True
   = Inl (MissingPath 1)"
  by code_simp

section \<open>Reordering\<close>

text \<open>A drop moves exactly one operation: the others keep their order, and the moved one
  stands directly before or directly behind the operation it was dropped on.\<close>

theorem reorder_places_operation:
  assumes "s \<in> set (map oo_id ops)" and "g \<in> set (map oo_id ops)" and "s \<noteq> g" and "distinct (map oo_id ops)"
  shows "\<exists>us moved target vs. filter (\<lambda>op. oo_id op \<noteq> s) ops = us @ target # vs
     \<and> oo_id moved = s \<and> oo_id target = g \<and> moved \<in> set ops
     \<and> reorderOperations ops (Some s) (Some g) position
         = (if position = ''after'' then us @ target # moved # vs else us @ moved # target # vs)"
proof -
  from assms(1) obtain i where "find_index (\<lambda>op. oo_id op = s) ops = Some i"
    using find_index_None [of "\<lambda>op. oo_id op = s" ops] by fastforce
  then obtain as m bs where i: "find_index (\<lambda>op. oo_id op = s) ops = Some i" and ops: "ops = as @ m # bs"
    and l: "length as = i" and m: "oo_id m = s" by (blast elim: find_index_SomeE)
  have rest: "filter (\<lambda>op. oo_id op \<noteq> s) ops = as @ bs"
  proof -
    have "oo_id op \<noteq> s" if "op \<in> set as \<union> set bs" for op
      using that assms(4) m unfolding ops by (auto simp: image_iff)
    then show ?thesis unfolding ops using m by (simp add: filter_True)
  qed
  have "g \<in> oo_id ` set (as @ bs)" using assms(2,3) m by (auto simp: ops)
  then obtain j where "find_index (\<lambda>op. oo_id op = g) (as @ bs) = Some j"
    using find_index_None [of "\<lambda>op. oo_id op = g" "as @ bs"] by fastforce
  then obtain us t vs where j: "find_index (\<lambda>op. oo_id op = g) (as @ bs) = Some j" and r: "as @ bs = us @ t # vs"
    and lj: "length us = j" and t: "oo_id t = g" by (blast elim: find_index_SomeE)
  have "take i ops @ drop (Suc i) ops = as @ bs" "ops ! i = m" by (simp_all add: ops l [symmetric])
  with i j assms(3) have "reorderOperations ops (Some s) (Some g) position
      = insert_at (if position = ''after'' then j + 1 else j) m (us @ t # vs)"
    by (simp add: reorderOperations_def Let_def r)
  also have "\<dots> = (if position = ''after'' then us @ t # m # vs else us @ m # t # vs)"
    by (simp add: insert_at_def lj [symmetric])
  finally show ?thesis
    using rest r m t by (intro exI [of _ us] exI [of _ m] exI [of _ t] exI [of _ vs]) (simp add: ops)
qed

theorem reorder_places_operation_witness:
  "\<exists>us moved target vs.
     reorderOperations [sample_operation 1, sample_operation 2, sample_operation 3] (Some 1) (Some 3) ''before''
       = us @ moved # target # vs \<and> oo_id moved = 1 \<and> oo_id target = 3"
proof -
  have "oo_id (sample_operation i) = i" for i by (simp add: sample_operation_def createDefaultOperation_def)
  then show ?thesis
    using reorder_places_operation [of 1 "[sample_operation 1, sample_operation 2, sample_operation 3]" 3 "''before''"]
    by auto
qed


section \<open>The draft of a custom error\<close>

text \<open>A draft whose texts have no white space around them and whose status is a status.\<close>

definition clean_error_draft :: "return_error_draft \<Rightarrow> bool" where
  "clean_error_draft d \<longleftrightarrow> trimmed (rd_message d) \<and> trimmed (rd_code d) \<and> trimmed (rd_type d)
     \<and> status_or_400 (rd_statusCode d) = rd_statusCode d"

lemma status_is_integer: "\<exists>k. 100 \<le> k \<and> k \<le> 599 \<and> status_or_400 x = Fin (of_int k)"
proof (cases "is_integer_num x \<and> js_le (Fin 100) x \<and> js_le x (Fin 599)")
  case True
  then obtain r where x: "x = Fin r" and r: "r \<in> \<int>" "100 \<le> r" "r \<le> 599"
    by (cases x) (auto simp: is_integer_num_def js_le_def js_num_eq_def)
  then obtain k where "r = of_int k" by (auto elim: Ints_cases)
  with x r True show ?thesis by (intro exI [of _ k]) (auto simp: status_or_400_def)
next
  case False
  then have "status_or_400 x = Fin 400" by (simp only: status_or_400_def if_not_P if_False)
  then show ?thesis by (intro exI [of _ 400]) simp
qed

lemma status_again [simp]: "status_or_400 (status_or_400 x) = status_or_400 x"
  by (simp add: status_or_400_def is_integer_num_def js_le_def)

lemma storable_status: "json_storable (JNum (status_or_400 x))"
  using status_is_integer [of x] json_storable_int by (auto simp del: json_storable.simps)

definition error_payload :: "return_error_draft \<Rightarrow> (string \<times> jsval) list" where
  "error_payload d =
     put_if (\<not> rd_skipRetry d) ''skip_retry'' (JBool False)
       (put_if (js_trim (rd_type d) \<noteq> []) ''type'' (JStr (js_trim (rd_type d)))
         (put_if (js_trim (rd_code d) \<noteq> []) ''code'' (JStr (js_trim (rd_code d)))
           [(''message'', JStr (js_trim (rd_message d))),
            (''status_code'', JNum (status_or_400 (rd_statusCode d)))]))"

lemma storable_error_payload: "storable_fields (error_payload d)"
  unfolding error_payload_def
  by (intro storable_put_if) (simp_all add: storable_status del: json_storable.simps(4))

lemma json_object_trimmed: "trimmed (json_text (JObj kvs))"
  by (simp add: trimmed_by_def js_space_def)

text \<open>Whatever was typed into the advanced draft, what is read back is the draft with its texts
  trimmed and its status in range.\<close>

lemma error_draft_reads_back:
  assumes "\<not> rd_simpleMode d"
  shows "parseReturnErrorDraft (buildReturnErrorValueText d) =
     d\<lparr>rd_message := js_trim (rd_message d), rd_code := js_trim (rd_code d), rd_type := js_trim (rd_type d),
       rd_statusCode := status_or_400 (rd_statusCode d)\<rparr>"
proof -
  have b: "buildReturnErrorValueText d = json_text (JObj (error_payload d))"
    using assms by (simp add: buildReturnErrorValueText_def error_payload_def Let_def del: json_text.simps)
  have p: "json_parse (json_text (JObj (error_payload d))) = Inr (JObj (error_payload d))"
    by (rule json_parse_text [OF storable_fieldsD [OF storable_error_payload]])
  have ne: "json_text (JObj (error_payload d)) \<noteq> []" by simp
  have t: "js_trim (json_text (JObj (error_payload d))) = json_text (JObj (error_payload d))"
    by (rule trim_by_id [OF json_object_trimmed])
  obtain k where k: "status_or_400 (rd_statusCode d) = Fin (of_int k)" "100 \<le> k"
    using status_is_integer by blast
  show ?thesis
    unfolding b parseReturnErrorDraft_def t Let_def p if_not_P [OF ne]
    using assms
    by (cases d) (simp add: error_payload_def text_or_empty_def js_or_def number_of_value_def)
qed

text \<open>The advanced draft of a custom error survives being written and read again.\<close>

theorem error_draft_roundtrip:
  assumes "clean_error_draft d" and "\<not> rd_simpleMode d"
  shows "parseReturnErrorDraft (buildReturnErrorValueText d) = d"
  using assms error_draft_reads_back [OF assms(2)]
  by (cases d) (simp add: clean_error_draft_def trim_by_id)

definition sample_error_draft :: return_error_draft where
  "sample_error_draft = re_defaults\<lparr>rd_message := ''no access'', rd_statusCode := Fin 403, rd_code := ''denied'',
     rd_skipRetry := False, rd_simpleMode := False\<rparr>"

theorem error_draft_roundtrip_witness:
  "parseReturnErrorDraft (buildReturnErrorValueText sample_error_draft) = sample_error_draft"
proof (rule error_draft_roundtrip)
  have "is_integer_num (Fin 403)" "js_le (Fin 100) (Fin 403)" "js_le (Fin 403) (Fin 599)" by code_simp+
  then show "clean_error_draft sample_error_draft"
    by (simp add: clean_error_draft_def sample_error_draft_def re_defaults_def trimmed_by_def js_space_def status_or_400_def)
  show "\<not> rd_simpleMode sample_error_draft" by (simp add: sample_error_draft_def)
qed

text \<open>The status field cannot be typed digit by digit: a first digit alone is no status, and the
  draft that is shown next has 400 in its place.\<close>

lemma first_digit_of_status_is_lost:
  assumes "x \<in> set [1..9]" and "\<not> rd_simpleMode d"
  shows "rd_statusCode (parseReturnErrorDraft (buildReturnErrorValueText (d\<lparr>rd_statusCode := Fin (of_int x)\<rparr>)))
    = Fin 400"
  using assms by (simp add: error_draft_reads_back status_or_400_def js_le_def js_num_eq_def)

text \<open>A space typed behind the message is lost with the key press, so that two words cannot be
  typed one after the other.\<close>

lemma space_behind_message_is_lost:
  assumes "\<not> rd_simpleMode d" and "trimmed (rd_message d)"
  shows "rd_message (parseReturnErrorDraft (buildReturnErrorValueText (d\<lparr>rd_message := rd_message d @ '' ''\<rparr>)))
    = rd_message d"
proof -
  have sp: "js_space (CHR '' '')" by (simp add: js_space_def)
  have "js_trim (s @ '' '') = js_trim s" for s
  proof (cases "\<forall>c \<in> set s. js_space c")
    case True
    then show ?thesis using sp trim_all_spaces [of js_space s] trim_all_spaces [of js_space "s @ '' ''"] by auto
  next
    case False
    then obtain c where "c \<in> set s" "\<not> js_space c" by blast
    then have "dropWhile js_space (s @ '' '') = dropWhile js_space s @ '' ''" by (rule dropWhile_append1)
    with sp show ?thesis by (simp add: trim_by_def)
  qed
  with assms show ?thesis by (simp add: error_draft_reads_back trim_by_id)
qed


section \<open>The draft of a pruning rule set\<close>

definition saved_rule :: "nat \<Rightarrow> override_condition \<Rightarrow> override_condition" where
  "saved_rule i r =
     \<lparr>oc_id = i, oc_path = js_trim (oc_path r), oc_mode = oc_mode r,
      oc_value_text = (if js_trim (oc_value_text r) = [] then []
                       else toValueText (parseLooseValue (js_trim (oc_value_text r)))),
      oc_invert = oc_invert r, oc_pass_missing_key = oc_pass_missing_key r\<rparr>"

fun saved_rules :: "nat \<Rightarrow> override_condition list \<Rightarrow> override_condition list" where
  "saved_rules i [] = []"
| "saved_rules i (r # rs) = saved_rule i r # saved_rules (i + 1) rs"

definition rules_with_path :: "prune_draft \<Rightarrow> override_condition list" where
  "rules_with_path d = filter (\<lambda>r. js_trim (oc_path r) \<noteq> []) (pd_rules d)"

definition readable_rules :: "prune_draft \<Rightarrow> bool" where
  "readable_rules d \<longleftrightarrow> list_all (\<lambda>r. oc_mode r \<in> set CONDITION_MODE_VALUES
     \<and> json_storable (parseLooseValue (js_trim (oc_value_text r)))) (pd_rules d)"

definition prune_payload :: "prune_draft \<Rightarrow> (string \<times> jsval) list" where
  "prune_payload d =
     put_if (rules_with_path d \<noteq> []) ''conditions'' (JArr (map prune_condition_payload (rules_with_path d)))
       (put_if (\<not> pd_recursive d) ''recursive'' (JBool False)
         (put_if (js_upper (if pd_logic d = [] then ''AND'' else pd_logic d) = ''OR'') ''logic'' (JStr ''OR'')
           (put_if (js_trim (pd_typeText d) \<noteq> []) ''type'' (JStr (js_trim (pd_typeText d))) [])))"

lemma prune_text:
  assumes "\<not> pd_simpleMode d"
  shows "buildPruneObjectsValueText d =
     json_text (JObj (if js_trim (pd_typeText d) = [] \<and> rules_with_path d = []
                      then [(''logic'', JStr ''AND'')] else prune_payload d))"
  using assms
  by (auto simp: buildPruneObjectsValueText_def prune_payload_def rules_with_path_def Let_def
      simp del: json_text.simps)

lemma rule_payload_back:
  assumes "js_trim (oc_path r) \<noteq> []" and "oc_mode r \<in> set CONDITION_MODE_VALUES"
  shows "normalizePruneRule i (prune_condition_payload r) = saved_rule i r"
  using assms
  by (simp add: normalizePruneRule_def prune_condition_payload_def saved_rule_def Let_def
      string_or_empty_def mode_or_def toValueText_def)

lemma number_rules_back:
  "list_all (\<lambda>r. js_trim (oc_path r) \<noteq> [] \<and> oc_mode r \<in> set CONDITION_MODE_VALUES) rs \<Longrightarrow>
     number_rules i (map prune_condition_payload rs) = saved_rules i rs"
  by (induction rs arbitrary: i) (simp_all add: number_rules_def rule_payload_back)

lemma storable_rule:
  assumes "json_storable (parseLooseValue (js_trim (oc_value_text r)))"
  shows "json_storable (prune_condition_payload r)"
  unfolding prune_condition_payload_def Let_def
  using assms by (intro storable_fieldsD storable_put_if) simp_all

lemma storable_prune:
  assumes "readable_rules d"
  shows "storable_fields (prune_payload d)"
proof -
  have "json_storable (JArr (map prune_condition_payload (rules_with_path d)))"
    using assms storable_rule by (auto simp: readable_rules_def rules_with_path_def list_all_iff)
  then show ?thesis
    unfolding prune_payload_def by (intro storable_put_if) (simp_all del: json_storable.simps(6))
qed

lemma payload_rules_are_objects: "filter is_object_value (map prune_condition_payload rs) = map prune_condition_payload rs"
  by (induction rs) (simp_all add: prune_condition_payload_def is_object_value_def Let_def)

lemma object_text_read:
  assumes "storable_fields kvs"
  shows "js_trim (json_text (JObj kvs)) = json_text (JObj kvs)" and "json_text (JObj kvs) \<noteq> []"
    and "json_parse (json_text (JObj kvs)) = Inr (JObj kvs)"
  using trim_by_id [OF json_object_trimmed] json_parse_text [OF storable_fieldsD [OF assms]] by simp_all

lemma prune_draft_reads_back:
  assumes "\<not> pd_simpleMode d" and "readable_rules d"
    and c: "js_trim (pd_typeText d) \<noteq> [] \<or> rules_with_path d \<noteq> []"
  shows "parsePruneObjectsDraft i (buildPruneObjectsValueText d) =
     (i + length (rules_with_path d),
      \<lparr>pd_simpleMode = (js_upper (pd_logic d) \<noteq> ''OR'' \<and> pd_recursive d \<and> rules_with_path d = []),
       pd_typeText = js_trim (pd_typeText d),
       pd_logic = (if js_upper (pd_logic d) = ''OR'' then ''OR'' else ''AND''),
       pd_recursive = pd_recursive d,
       pd_rules = saved_rules i (rules_with_path d)\<rparr>)"
proof -
  have b: "buildPruneObjectsValueText d = json_text (JObj (prune_payload d))"
    using prune_text [OF assms(1)] c by auto
  note r = object_text_read [OF storable_prune [OF assms(2)]]
  have l: "js_upper (if pd_logic d = [] then ''AND'' else pd_logic d) = ''OR'' \<longleftrightarrow> js_upper (pd_logic d) = ''OR''"
  proof -
    have "js_upper ''AND'' \<noteq> ''OR''" "js_upper [] \<noteq> ''OR''" by code_simp+
    then show ?thesis by simp
  qed
  have u: "js_upper ''OR'' = ''OR''" "js_upper ''AND'' = ''AND''" by code_simp+
  let ?p = "JObj (prune_payload d)"
  have fields: "value_get ?p ''type'' = (if js_trim (pd_typeText d) \<noteq> [] then JStr (js_trim (pd_typeText d)) else JUndef)"
    "value_get ?p ''logic'' = (if js_upper (pd_logic d) = ''OR'' then JStr ''OR'' else JUndef)"
    "value_get ?p ''recursive'' = (if pd_recursive d then JUndef else JBool False)"
    "value_get ?p ''where'' = JUndef"
    "value_get ?p ''conditions'' = (if rules_with_path d \<noteq> []
       then JArr (map prune_condition_payload (rules_with_path d)) else JUndef)"
    by (simp_all add: prune_payload_def l)
  have vs: "prune_rule_values ?p = map prune_condition_payload (rules_with_path d)"
    by (simp add: prune_rule_values_def fields payload_rules_are_objects entry_rules_def)
  have "number_rules i (map prune_condition_payload (rules_with_path d)) = saved_rules i (rules_with_path d)"
    using assms(2) by (intro number_rules_back) (auto simp: readable_rules_def rules_with_path_def list_all_iff)
  then show ?thesis
    unfolding b parsePruneObjectsDraft_def r(1) Let_def r(3) if_not_P [OF r(2)]
    by (simp add: vs fields u js_or_def)
qed

text \<open>The same, ids aside.\<close>

definition drop_rule_ids :: "prune_draft \<Rightarrow> prune_draft" where
  "drop_rule_ids d = d\<lparr>pd_rules := map (\<lambda>r. r\<lparr>oc_id := 0\<rparr>) (pd_rules d)\<rparr>"

definition canonical_rule :: "override_condition \<Rightarrow> bool" where
  "canonical_rule r \<longleftrightarrow> oc_path r \<noteq> [] \<and> saved_rule (oc_id r) r = r"

lemma saved_rules_canonical:
  "list_all canonical_rule rs \<Longrightarrow> map (\<lambda>r. r\<lparr>oc_id := 0\<rparr>) (saved_rules i rs) = map (\<lambda>r. r\<lparr>oc_id := 0\<rparr>) rs"
proof (induction rs arbitrary: i)
  case (Cons r rs)
  have "(saved_rule i r)\<lparr>oc_id := 0\<rparr> = (saved_rule (oc_id r) r)\<lparr>oc_id := 0\<rparr>" by (simp add: saved_rule_def)
  with Cons show ?case by (simp add: canonical_rule_def)
qed simp

text \<open>An advanced pruning draft whose texts are clean survives being written and read again,
  provided it has a rule, or a type together with a choice that is not the default.\<close>

theorem prune_draft_roundtrip:
  assumes "\<not> pd_simpleMode d" and "readable_rules d" and "list_all canonical_rule (pd_rules d)"
    and "trimmed (pd_typeText d)" and "pd_logic d = ''AND'' \<or> pd_logic d = ''OR''"
    and "pd_rules d \<noteq> [] \<or> pd_typeText d \<noteq> [] \<and> (pd_logic d = ''OR'' \<or> \<not> pd_recursive d)"
  shows "drop_rule_ids (snd (parsePruneObjectsDraft i (buildPruneObjectsValueText d))) = drop_rule_ids d"
proof -
  have "js_trim (oc_path r) = oc_path r" if "canonical_rule r" for r
  proof -
    from that have "oc_path (saved_rule (oc_id r) r) = oc_path r" by (simp add: canonical_rule_def)
    then show ?thesis by (simp add: saved_rule_def)
  qed
  then have k: "rules_with_path d = pd_rules d"
    using assms(3) by (auto simp: rules_with_path_def list_all_iff canonical_rule_def intro!: filter_True)
  have t: "js_trim (pd_typeText d) = pd_typeText d" using assms(4) by (rule trim_by_id)
  have u: "js_upper ''OR'' = ''OR''" "js_upper ''AND'' = ''AND''" by code_simp+
  from assms(6) have c: "js_trim (pd_typeText d) \<noteq> [] \<or> rules_with_path d \<noteq> []" by (auto simp: k t)
  show ?thesis
    unfolding prune_draft_reads_back [OF assms(1,2) c] k t
    using assms(1,5,6) saved_rules_canonical [OF assms(3), of i]
    by (cases d) (auto simp: drop_rule_ids_def u)
qed

definition sample_prune_draft :: prune_draft where
  "sample_prune_draft = pd_defaults\<lparr>pd_simpleMode := False, pd_typeText := ''thinking'', pd_logic := ''OR'',
     pd_rules := [(createDefaultCondition 5)\<lparr>oc_path := ''role'', oc_value_text := ''tool''\<rparr>]\<rparr>"

theorem prune_draft_roundtrip_witness:
  "drop_rule_ids (snd (parsePruneObjectsDraft 9 (buildPruneObjectsValueText sample_prune_draft)))
     = drop_rule_ids sample_prune_draft"
proof (rule prune_draft_roundtrip)
  have t: "js_trim ''role'' = ''role''" "js_trim ''tool'' = ''tool''" "parseLooseValue ''tool'' = JStr ''tool''"
    by code_simp+
  show "readable_rules sample_prune_draft"
    by (simp add: readable_rules_def sample_prune_draft_def t createDefaultCondition_def CONDITION_MODE_VALUES_def)
  show "list_all canonical_rule (pd_rules sample_prune_draft)"
    by (simp add: sample_prune_draft_def canonical_rule_def saved_rule_def t createDefaultCondition_def toValueText_def)
qed (simp_all add: sample_prune_draft_def trimmed_by_def js_space_def)

text \<open>A new rule has no path yet, so it is not written, and the editor, which reads the draft back
  from the text, does not show it.\<close>

lemma new_rule_is_not_written:
  "buildPruneObjectsValueText (d\<lparr>pd_simpleMode := False, pd_rules := pd_rules d @ [normalizePruneRule i (JObj [])]\<rparr>)
     = buildPruneObjectsValueText (d\<lparr>pd_simpleMode := False\<rparr>)"
  by (simp add: buildPruneObjectsValueText_def normalizePruneRule_def string_or_empty_def)

text \<open>A draft that has a type only, and the defaults, is read as a simple one: switching it to the
  advanced mode has no effect.  Without type and rules the other choices are forgotten.\<close>

lemma advanced_mode_of_type_is_lost:
  assumes "pd_rules d = []" and "pd_logic d = ''AND''" and "pd_recursive d" and "js_trim (pd_typeText d) \<noteq> []"
  shows "pd_simpleMode (snd (parsePruneObjectsDraft i (buildPruneObjectsValueText (d\<lparr>pd_simpleMode := False\<rparr>))))"
proof -
  have "js_upper ''AND'' \<noteq> ''OR''" by code_simp
  moreover have "rules_with_path (d\<lparr>pd_simpleMode := False\<rparr>) = []" by (simp add: rules_with_path_def assms(1))
  moreover have "readable_rules (d\<lparr>pd_simpleMode := False\<rparr>)" by (simp add: readable_rules_def assms(1))
  ultimately show ?thesis
    using assms by (subst prune_draft_reads_back) simp_all
qed

lemma choices_without_rules_are_lost:
  assumes "pd_rules d = []" and "js_trim (pd_typeText d) = []" and "\<not> pd_simpleMode d"
  shows "parsePruneObjectsDraft i (buildPruneObjectsValueText d)
    = (i, pd_defaults\<lparr>pd_simpleMode := False\<rparr>)"
proof -
  have b: "buildPruneObjectsValueText d = json_text (JObj [(''logic'', JStr ''AND'')])"
    using prune_text [OF assms(3)] assms by (simp add: rules_with_path_def)
  have "storable_fields [(''logic'', JStr ''AND'')]" by simp
  note r = object_text_read [OF this]
  have u: "js_upper ''AND'' \<noteq> ''OR''" by code_simp
  show ?thesis
    unfolding b parsePruneObjectsDraft_def r(1) Let_def r(3) if_not_P [OF r(2)]
    using u by (simp add: js_or_def prune_rule_values_def entry_rules_def number_rules_def pd_defaults_def)
qed

section \<open>Endpoints\<close>

text \<open>The endpoint a key and a type were written to is read back as this type and key.\<close>

theorem sync_target_roundtrip:
  assumes "type \<in> set [''json'', ''header'']" and "key \<noteq> []" and "trimmed key"
  shows "parseSyncTargetSpec (buildSyncTargetSpec type key) = \<lparr>st_type = type, st_key = key\<rparr>"
proof -
  have k: "js_trim key = key" using assms(3) by (rule trim_by_id)
  have tr: "trimmed (type @ '':'' @ key)"
    using assms by (auto simp: trimmed_by_def js_space_def)
  have t: "js_trim (type @ '':'' @ key) = type @ '':'' @ key" using tr by (rule trim_by_id)
  have parts: "takeWhile (\<lambda>c. c \<noteq> CHR '':'') (type @ '':'' @ key) = type"
    "dropWhile (\<lambda>c. c \<noteq> CHR '':'') (type @ '':'' @ key) = CHR '':'' # key"
    using assms(1) by auto
  have low: "js_lower (js_trim type) = type"
  proof -
    have "js_lower (js_trim ''json'') = ''json''" "js_lower (js_trim ''header'') = ''header''" by code_simp+
    with assms(1) show ?thesis by auto
  qed
  have "buildSyncTargetSpec type key = type @ '':'' @ key"
    using assms(1,2) k by (auto simp: buildSyncTargetSpec_def)
  then show ?thesis
    using assms(1) unfolding parseSyncTargetSpec_def Let_def by (simp only: t parts low) (auto simp: k)
qed

theorem sync_target_roundtrip_witness:
  "parseSyncTargetSpec (buildSyncTargetSpec ''header'' ''session_id'') = \<lparr>st_type = ''header'', st_key = ''session_id''\<rparr>"
  by (rule sync_target_roundtrip) (simp_all add: trimmed_by_def js_space_def)

text \<open>A type chosen before the key is typed is forgotten.\<close>

lemma type_without_key_is_lost:
  "parseSyncTargetSpec (buildSyncTargetSpec ''header'' []) = \<lparr>st_type = ''json'', st_key = []\<rparr>"
  by code_simp

section \<open>Values\<close>

text \<open>A text that looks like JSON changes its kind when an operation is saved or duplicated.\<close>

lemma quoted_digits_become_a_number:
  "toValueText (parseLooseValue (json_quote ''12'')) = ''12'' \<and> parseLooseValue ''12'' \<noteq> JStr ''12''"
proof -
  have "js_trim (json_quote ''12'') \<noteq> []" and "js_trim ''12'' \<noteq> []" by code_simp+
  moreover have "json_parse ''12'' = Inr (JNum (Fin 12))"
  proof -
    have "show_int 12 = ''12''" by code_simp
    with text_of_int [of 12] json_parse_text [OF json_storable_int [of 12]] show ?thesis
      by (simp add: is_finite_num_def)
  qed
  ultimately show ?thesis
    by (auto simp: parseLooseValue_def toValueText_def split: sum.splits)
qed

end
