(* ===== verification/Machines.thy ===== *)
theory Machines
  imports JsText
begin

text \<open>
  Event-driven components: a state, a step per event, and runs.  A step that gives
  \<open>None\<close> stops the component (an exception nobody catches, a process that has quit).  The
  locale states what an invariant needs, and the components interpret it.
\<close>

fun run_events :: "('e \<Rightarrow> 's \<Rightarrow> 's option) \<Rightarrow> 'e list \<Rightarrow> 's \<Rightarrow> 's option" where
  "run_events step [] s = Some s"
| "run_events step (e # es) s =
     (case step e s of None \<Rightarrow> None | Some s' \<Rightarrow> run_events step es s')"

lemma run_events_append:
  "run_events step (es @ fs) s =
     (case run_events step es s of None \<Rightarrow> None | Some s' \<Rightarrow> run_events step fs s')"
  by (induction es arbitrary: s) (auto split: option.splits)

inductive reached :: "('e \<Rightarrow> 's \<Rightarrow> 's option) \<Rightarrow> 's \<Rightarrow> 's \<Rightarrow> bool" for step s0 where
  start: "reached step s0 s0"
| event: "reached step s0 s \<Longrightarrow> step e s = Some s' \<Longrightarrow> reached step s0 s'"

lemma reached_iff_run: "reached step s0 s \<longleftrightarrow> (\<exists>es. run_events step es s0 = Some s)"
proof
  assume "reached step s0 s"
  then show "\<exists>es. run_events step es s0 = Some s"
  proof induction
    case start
    have "run_events step [] s0 = Some s0" by simp
    then show ?case ..
  next
    case (event s e s')
    then obtain es where "run_events step es s0 = Some s" by blast
    with event have "run_events step (es @ [e]) s0 = Some s'" by (simp add: run_events_append)
    then show ?case ..
  qed
next
  have "reached step s0 s" if "reached step s0 r" "run_events step es r = Some s" for es r s
    using that
    by (induction es arbitrary: r) (auto intro: reached.event split: option.splits)
  then show "\<exists>es. run_events step es s0 = Some s \<Longrightarrow> reached step s0 s"
    using reached.start by fast
qed

locale invariant_system =
  fixes step :: "'e \<Rightarrow> 's \<Rightarrow> 's option"
    and init :: "'s \<Rightarrow> bool"
    and inv :: "'s \<Rightarrow> bool"
  assumes inv_init: "init s \<Longrightarrow> inv s"
    and inv_step: "inv s \<Longrightarrow> step e s = Some s' \<Longrightarrow> inv s'"
begin

lemma inv_run: "inv s \<Longrightarrow> run_events step es s = Some s' \<Longrightarrow> inv s'"
  by (induction es arbitrary: s) (auto intro: inv_step split: option.splits)

lemma inv_reached: "reached step s0 s \<Longrightarrow> init s0 \<Longrightarrow> inv s"
  by (induction rule: reached.induct) (auto intro: inv_init inv_step)

lemma inv_from_init: "init s \<Longrightarrow> run_events step es s = Some s' \<Longrightarrow> inv s'"
  using inv_run inv_init by blast

end

end
