(* ===== verification/ParamOverrideEditor.thy ===== *)
theory ParamOverrideEditor
  imports ParamOverrideDrafts Machines
begin

text \<open>
  The state of the parameter override editor and its handlers.  The state is one record; a
  handler is a function on it, and \<open>settle_editor\<close> is what the effects do after every render
  (the selection falls back to the first operation, the template to the first of its group).
  Everything the user can do is an event of \<open>override_step\<close>, which gives \<open>None\<close> when opening
  throws while rendering, which nobody catches.  The translation of template descriptions is
  the parameter \<open>t\<close>.
\<close>

section \<open>Templates\<close>

definition strings :: "string list \<Rightarrow> jsval" where
  "strings xs = JArr (map JStr xs)"

definition LEGACY_TEMPLATE :: jsval where
  "LEGACY_TEMPLATE = JObj [(''temperature'', JNum (Fin 0)), (''max_tokens'', JNum (Fin 1000))]"

definition OPERATION_TEMPLATE :: "jsval list" where
  "OPERATION_TEMPLATE =
     [JObj [(''description'', JStr ''Set default temperature for openai/* models.''),
            (''path'', JStr ''temperature''), (''mode'', JStr ''set''), (''value'', JNum (fl (7 / 10))),
            (''conditions'', JArr [JObj [(''path'', JStr ''model''), (''mode'', JStr ''prefix''),
                                         (''value'', JStr ''openai/'')]]),
            (''logic'', JStr ''AND'')]]"

definition HEADER_PASSTHROUGH_TEMPLATE :: "jsval list" where
  "HEADER_PASSTHROUGH_TEMPLATE =
     [JObj [(''description'', JStr ''Pass through X-Request-Id header to upstream.''),
            (''mode'', JStr ''pass_headers''), (''value'', strings [''X-Request-Id'']),
            (''keep_origin'', JBool True)]]"

definition image_condition :: "string \<Rightarrow> string \<Rightarrow> jsval" where
  "image_condition mode v =
     JObj [(''path'', JStr ''original_model''), (''mode'', JStr mode), (''value'', JStr v)]"

definition GEMINI_IMAGE_4K_TEMPLATE :: "jsval list" where
  "GEMINI_IMAGE_4K_TEMPLATE =
     [JObj [(''description'', JStr ''Set imageSize to 4K when model contains gemini/image and ends with 4k.''),
            (''mode'', JStr ''set''), (''path'', JStr ''generationConfig.imageConfig.imageSize''),
            (''value'', JStr ''4K''),
            (''conditions'', JArr [image_condition ''contains'' ''gemini'', image_condition ''contains'' ''image'',
                                   image_condition ''suffix'' ''4k'']),
            (''logic'', JStr ''AND'')]]"

definition AWS_BEDROCK_ANTHROPIC_COMPAT_TEMPLATE :: "jsval list" where
  "AWS_BEDROCK_ANTHROPIC_COMPAT_TEMPLATE =
     [JObj [(''description'', JStr ''Normalize anthropic-beta header tokens for Bedrock compatibility.''),
            (''mode'', JStr ''set_header''), (''path'', JStr ''anthropic-beta''),
            (''value'', JObj
              [(''advanced-tool-use-2025-11-20'', JStr ''tool-search-tool-2025-10-19''),
               (''bash_20241022'', JNull), (''bash_20250124'', JNull),
               (''code-execution-2025-08-25'', JNull),
               (''compact-2026-01-12'', JStr ''compact-2026-01-12''),
               (''computer-use-2025-01-24'', JStr ''computer-use-2025-01-24''),
               (''computer-use-2025-11-24'', JStr ''computer-use-2025-11-24''),
               (''context-1m-2025-08-07'', JStr ''context-1m-2025-08-07''),
               (''context-management-2025-06-27'', JStr ''context-management-2025-06-27''),
               (''effort-2025-11-24'', JNull), (''fast-mode-2026-02-01'', JNull),
               (''files-api-2025-04-14'', JNull), (''fine-grained-tool-streaming-2025-05-14'', JNull),
               (''interleaved-thinking-2025-05-14'', JStr ''interleaved-thinking-2025-05-14''),
               (''mcp-client-2025-11-20'', JNull), (''mcp-client-2025-04-04'', JNull),
               (''mcp-servers-2025-12-04'', JNull), (''output-128k-2025-02-19'', JNull),
               (''structured-output-2024-03-01'', JNull), (''prompt-caching-scope-2026-01-05'', JNull),
               (''skills-2025-10-02'', JNull), (''structured-outputs-2025-11-13'', JNull),
               (''text_editor_20241022'', JNull), (''text_editor_20250124'', JNull),
               (''token-efficient-tools-2025-02-19'', JNull),
               (''tool-search-tool-2025-10-19'', JStr ''tool-search-tool-2025-10-19''),
               (''web-fetch-2025-09-10'', JNull), (''web-search-2025-03-05'', JNull),
               (''oauth-2025-04-20'', JNull)])],
      JObj [(''description'', JStr ''Remove all tools[*].custom.input_examples before upstream relay.''),
            (''mode'', JStr ''delete''), (''path'', JStr ''tools.*.custom.input_examples'')]]"

definition CODEX_CLI_HEADER_PASSTHROUGH_HEADERS :: "string list" where
  "CODEX_CLI_HEADER_PASSTHROUGH_HEADERS =
     [''Originator'', ''Session_id'', ''User-Agent'', ''X-Codex-Beta-Features'', ''X-Codex-Turn-Metadata'']"

definition CLAUDE_CLI_HEADER_PASSTHROUGH_HEADERS :: "string list" where
  "CLAUDE_CLI_HEADER_PASSTHROUGH_HEADERS =
     [''X-Stainless-Arch'', ''X-Stainless-Lang'', ''X-Stainless-Os'', ''X-Stainless-Package-Version'',
      ''X-Stainless-Retry-Count'', ''X-Stainless-Runtime'', ''X-Stainless-Runtime-Version'',
      ''X-Stainless-Timeout'', ''User-Agent'', ''X-App'', ''Anthropic-Beta'',
      ''Anthropic-Dangerous-Direct-Browser-Access'', ''Anthropic-Version'']"

definition buildPassHeadersTemplate :: "string list \<Rightarrow> jsval list" where
  "buildPassHeadersTemplate headers =
     [JObj [(''mode'', JStr ''pass_headers''), (''value'', strings headers), (''keep_origin'', JBool True)]]"

datatype template_payload = LegacyPayload jsval | OperationsPayload "jsval list"

record template_preset =
  tp_key :: string
  tp_group :: string
  tp_payload :: template_payload

definition TEMPLATE_PRESET_CONFIG :: "template_preset list" where
  "TEMPLATE_PRESET_CONFIG =
     [\<lparr>tp_key = ''operations_default'', tp_group = ''basic'', tp_payload = OperationsPayload OPERATION_TEMPLATE\<rparr>,
      \<lparr>tp_key = ''legacy_default'', tp_group = ''basic'', tp_payload = LegacyPayload LEGACY_TEMPLATE\<rparr>,
      \<lparr>tp_key = ''pass_headers_auth'', tp_group = ''scenario'',
       tp_payload = OperationsPayload HEADER_PASSTHROUGH_TEMPLATE\<rparr>,
      \<lparr>tp_key = ''gemini_image_4k'', tp_group = ''scenario'',
       tp_payload = OperationsPayload GEMINI_IMAGE_4K_TEMPLATE\<rparr>,
      \<lparr>tp_key = ''claude_cli_headers_passthrough'', tp_group = ''scenario'',
       tp_payload = OperationsPayload (buildPassHeadersTemplate CLAUDE_CLI_HEADER_PASSTHROUGH_HEADERS)\<rparr>,
      \<lparr>tp_key = ''codex_cli_headers_passthrough'', tp_group = ''scenario'',
       tp_payload = OperationsPayload (buildPassHeadersTemplate CODEX_CLI_HEADER_PASSTHROUGH_HEADERS)\<rparr>,
      \<lparr>tp_key = ''aws_bedrock_anthropic_beta_override'', tp_group = ''scenario'',
       tp_payload = OperationsPayload AWS_BEDROCK_ANTHROPIC_COMPAT_TEMPLATE\<rparr>]"

definition templatePresetOptions :: "string \<Rightarrow> string list" where
  "templatePresetOptions groupKey = map tp_key (filter (\<lambda>p. tp_group p = groupKey) TEMPLATE_PRESET_CONFIG)"

definition preset_payload :: "string \<Rightarrow> template_payload" where
  "preset_payload key =
     (case List.find (\<lambda>p. tp_key p = key) TEMPLATE_PRESET_CONFIG of
        Some p \<Rightarrow> tp_payload p
      | None \<Rightarrow> OperationsPayload OPERATION_TEMPLATE)"

section \<open>State\<close>

datatype override_notice = NoticeError override_message | NoticeSuccess override_message

record override_editor =
  ov_editMode :: string
  ov_visualMode :: string
  ov_legacyValue :: string
  ov_operations :: "override_operation list"
  ov_jsonText :: string
  ov_jsonError :: "override_message option"
  ov_search :: string
  ov_selected :: "nat option"
  ov_expanded :: "nat \<Rightarrow> nat list option"
  ov_dragged :: "nat option"
  ov_dragOver :: "nat option"
  ov_dragPosition :: string
  ov_group :: string
  ov_preset :: string
  ov_exampleVisible :: bool
  ov_guideVisible :: bool
  ov_guideTarget :: string
  ov_guideKeyword :: string
  ov_seed :: nat
  ov_notices :: "override_notice list"
  ov_saved :: "string list"

definition override_start :: "nat \<Rightarrow> override_editor" where
  "override_start seed =
     \<lparr>ov_editMode = ''visual'', ov_visualMode = ''operations'', ov_legacyValue = [],
      ov_operations = [createDefaultOperation seed], ov_jsonText = [], ov_jsonError = None,
      ov_search = [], ov_selected = None, ov_expanded = (\<lambda>_. None), ov_dragged = None,
      ov_dragOver = None, ov_dragPosition = ''before'', ov_group = ''basic'',
      ov_preset = ''operations_default'', ov_exampleVisible = False, ov_guideVisible = False,
      ov_guideTarget = ''path'', ov_guideKeyword = [], ov_seed = seed + 1, ov_notices = [], ov_saved = []\<rparr>"

definition show_error :: "override_message \<Rightarrow> override_editor \<Rightarrow> override_editor" where
  "show_error m s = s\<lparr>ov_notices := ov_notices s @ [NoticeError m]\<rparr>"

definition show_success :: "override_message \<Rightarrow> override_editor \<Rightarrow> override_editor" where
  "show_success m s = s\<lparr>ov_notices := ov_notices s @ [NoticeSuccess m]\<rparr>"

section \<open>Effects\<close>

text \<open>\<open>operations[0]?.id || ''\<close>\<close>

definition first_id :: "override_operation list \<Rightarrow> nat option" where
  "first_id ops = (case ops of [] \<Rightarrow> None | op # _ \<Rightarrow> Some (oo_id op))"

definition settle_selection :: "override_editor \<Rightarrow> override_editor" where
  "settle_selection s =
     (if ov_operations s = [] then s\<lparr>ov_selected := None\<rparr>
      else if list_ex (\<lambda>op. ov_selected s = Some (oo_id op)) (ov_operations s) then s
      else s\<lparr>ov_selected := first_id (ov_operations s)\<rparr>)"

definition settle_preset :: "override_editor \<Rightarrow> override_editor" where
  "settle_preset s =
     (case templatePresetOptions (ov_group s) of
        [] \<Rightarrow> s
      | k # ks \<Rightarrow> if ov_preset s \<in> set (k # ks) then s else s\<lparr>ov_preset := k\<rparr>)"

definition settle_editor :: "override_editor \<Rightarrow> override_editor" where
  "settle_editor s = settle_preset (settle_selection s)"

text \<open>The effect that runs when the editor becomes visible or its value changes.\<close>

definition open_editor :: "jsval \<Rightarrow> override_editor \<Rightarrow> override_editor option" where
  "open_editor rawValue s =
     (case parseInitialState (ov_seed s) rawValue of
        Inl _ \<Rightarrow> None
      | Inr (seed, nextState) \<Rightarrow>
          Some (s\<lparr>ov_editMode := oi_editMode nextState, ov_visualMode := oi_visualMode nextState,
            ov_legacyValue := oi_legacyValue nextState, ov_operations := oi_operations nextState,
            ov_jsonText := oi_jsonText nextState, ov_jsonError := oi_jsonError nextState,
            ov_search := [], ov_selected := first_id (oi_operations nextState),
            ov_expanded := (\<lambda>_. None), ov_dragged := None, ov_dragOver := None, ov_dragPosition := ''before'',
            ov_group := ''basic'',
            ov_preset := (if oi_visualMode nextState = ''legacy'' then ''legacy_default'' else ''operations_default''),
            ov_exampleVisible := False, ov_guideVisible := False, ov_guideTarget := ''path'',
            ov_guideKeyword := [], ov_seed := seed\<rparr>))"

section \<open>Changing the edit mode\<close>

definition switchToJsonMode :: "override_editor \<Rightarrow> override_editor" where
  "switchToJsonMode s =
     (if ov_editMode s = ''json'' then s
      else
        (case buildVisualJson (ov_visualMode s) (ov_legacyValue s) (ov_operations s) of
           Inr text \<Rightarrow> s\<lparr>ov_jsonText := text, ov_jsonError := None, ov_editMode := ''json''\<rparr>
         | Inl message \<Rightarrow>
             (show_error message s)
               \<lparr>ov_jsonText := (if ov_visualMode s = ''legacy'' then ov_legacyValue s
                               else (case buildOperationsJson (ov_operations s) False of
                                       Inr text \<Rightarrow> text | Inl _ \<Rightarrow> ov_jsonText s)),
                ov_jsonError := Some message, ov_editMode := ''json''\<rparr>))"

text \<open>An exception in an event handler is reported and leaves the state as it was.\<close>

definition switchToVisualMode :: "override_editor \<Rightarrow> override_editor" where
  "switchToVisualMode s =
     (if ov_editMode s = ''visual'' then s
      else
        (let trimmed = js_trim (ov_jsonText s);
             fallback = createDefaultOperation (ov_seed s)
         in if trimmed = [] then
              s\<lparr>ov_visualMode := ''operations'', ov_operations := [fallback], ov_selected := Some (oo_id fallback),
                ov_legacyValue := [], ov_jsonError := None, ov_editMode := ''visual'', ov_seed := ov_seed s + 1\<rparr>
            else
              (case json_parse trimmed of
                 Inl _ \<Rightarrow> show_error OverrideNotJson s
               | Inr parsed \<Rightarrow>
                   (case parsed of
                      JObj _ \<Rightarrow>
                        (case value_get parsed ''operations'' of
                           JArr ops \<Rightarrow>
                             (case read_operations (ov_seed s) ops of
                                Inl _ \<Rightarrow> s
                              | Inr (seed, nextOperations) \<Rightarrow>
                                  s\<lparr>ov_visualMode := ''operations'', ov_operations := nextOperations,
                                    ov_selected := first_id nextOperations, ov_legacyValue := [],
                                    ov_jsonError := None, ov_editMode := ''visual'', ov_group := ''basic'',
                                    ov_preset := ''operations_default'', ov_seed := seed\<rparr>)
                         | _ \<Rightarrow>
                             s\<lparr>ov_visualMode := ''legacy'', ov_legacyValue := json_pretty [] parsed,
                               ov_operations := [fallback], ov_selected := Some (oo_id fallback),
                               ov_jsonError := None, ov_editMode := ''visual'', ov_group := ''basic'',
                               ov_preset := ''legacy_default'', ov_seed := ov_seed s + 1\<rparr>)
                    | _ \<Rightarrow> show_error OverrideNotObject s))))"

section \<open>Templates\<close>

definition legacy_filled :: "string \<Rightarrow> override_editor \<Rightarrow> override_editor" where
  "legacy_filled text s =
     (let fallback = createDefaultOperation (ov_seed s)
      in s\<lparr>ov_visualMode := ''legacy'', ov_legacyValue := text, ov_operations := [fallback],
           ov_selected := Some (oo_id fallback), ov_expanded := (\<lambda>_. None), ov_jsonText := text,
           ov_jsonError := None, ov_editMode := ''visual'', ov_seed := ov_seed s + 1\<rparr>)"

definition fillLegacyTemplate :: "jsval \<Rightarrow> override_editor \<Rightarrow> override_editor" where
  "fillLegacyTemplate legacyPayload s = legacy_filled (json_pretty [] legacyPayload) s"

definition fillOperationsTemplate :: "(string \<Rightarrow> string) \<Rightarrow> jsval list \<Rightarrow> override_editor \<Rightarrow> override_editor" where
  "fillOperationsTemplate t operationsPayload s =
     (let localizedPayload = localizeTemplateOperations t operationsPayload
      in case read_operations (ov_seed s) localizedPayload of
           Inl _ \<Rightarrow> s
         | Inr (seed, finalOperations) \<Rightarrow>
             s\<lparr>ov_visualMode := ''operations'', ov_operations := finalOperations,
               ov_selected := first_id finalOperations, ov_expanded := (\<lambda>_. None),
               ov_jsonText := json_pretty [] (JObj [(''operations'', JArr localizedPayload)]),
               ov_jsonError := None, ov_editMode := ''visual'', ov_seed := seed\<rparr>)"

definition appendLegacyTemplate :: "jsval \<Rightarrow> override_editor \<Rightarrow> override_editor" where
  "appendLegacyTemplate legacyPayload s =
     (let trimmed = js_trim (ov_legacyValue s);
          merged = (\<lambda>current. json_pretty [] (JObj (obj_spread (obj_spread [] (own_entries legacyPayload)) current)))
      in if ov_visualMode s = ''legacy'' \<and> trimmed \<noteq> [] then
           (case json_parse trimmed of
              Inl _ \<Rightarrow> show_error LegacyNotJsonForAppend s
            | Inr (JObj current) \<Rightarrow> legacy_filled (merged current) s
            | Inr _ \<Rightarrow> show_error LegacyNotObjectForAppend s)
         else legacy_filled (merged []) s)"

definition appendOperationsTemplate :: "(string \<Rightarrow> string) \<Rightarrow> jsval list \<Rightarrow> override_editor \<Rightarrow> override_editor" where
  "appendOperationsTemplate t operationsPayload s =
     (case map_fresh normalizeOperation (ov_seed s) (localizeTemplateOperations t operationsPayload) of
        Inl _ \<Rightarrow> s
      | Inr (seed, appended) \<Rightarrow>
          (let existing = (if ov_visualMode s = ''operations''
                           then filter (\<lambda>op. \<not> isOperationBlank op) (ov_operations s) else []);
               nextOperations = existing @ appended
           in s\<lparr>ov_visualMode := ''operations'', ov_operations := nextOperations,
                ov_selected := first_id nextOperations, ov_expanded := (\<lambda>_. None), ov_legacyValue := [],
                ov_jsonError := None, ov_editMode := ''visual'', ov_jsonText := [], ov_seed := seed\<rparr>))"

definition clearValue :: "override_editor \<Rightarrow> override_editor" where
  "clearValue s =
     (let fallback = createDefaultOperation (ov_seed s)
      in s\<lparr>ov_visualMode := ''operations'', ov_legacyValue := [], ov_operations := [fallback],
           ov_selected := Some (oo_id fallback), ov_expanded := (\<lambda>_. None), ov_jsonText := [],
           ov_jsonError := None, ov_group := ''basic'', ov_preset := ''operations_default'',
           ov_seed := ov_seed s + 1\<rparr>)"

definition resetEditorState :: "override_editor \<Rightarrow> override_editor" where
  "resetEditorState s = (clearValue s)\<lparr>ov_editMode := ''visual''\<rparr>"

definition fillTemplateFromLibrary :: "(string \<Rightarrow> string) \<Rightarrow> override_editor \<Rightarrow> override_editor" where
  "fillTemplateFromLibrary t s =
     (case preset_payload (ov_preset s) of
        LegacyPayload p \<Rightarrow> fillLegacyTemplate p s
      | OperationsPayload ops \<Rightarrow> fillOperationsTemplate t ops s)"

definition appendTemplateFromLibrary :: "(string \<Rightarrow> string) \<Rightarrow> override_editor \<Rightarrow> override_editor" where
  "appendTemplateFromLibrary t s =
     (case preset_payload (ov_preset s) of
        LegacyPayload p \<Rightarrow> appendLegacyTemplate p s
      | OperationsPayload ops \<Rightarrow> appendOperationsTemplate t ops s)"

section \<open>Operations and conditions\<close>

text \<open>The fields a panel can change.  A select offers the modes of its list, so a change of mode is
  the index of an option.\<close>

datatype operation_patch =
    PatchDescription string
  | PatchPath string
  | PatchMode nat
  | PatchValueText string
  | PatchKeepOrigin bool
  | PatchFrom string
  | PatchTo string
  | PatchLogic bool

datatype condition_patch =
    PatchCPath string
  | PatchCMode nat
  | PatchCValueText string
  | PatchCInvert bool
  | PatchCPassMissing bool

definition picked :: "string list \<Rightarrow> nat \<Rightarrow> string \<Rightarrow> string" where
  "picked options i current = (if i < length options then options ! i else current)"

fun patch_operation :: "operation_patch \<Rightarrow> override_operation \<Rightarrow> override_operation" where
  "patch_operation (PatchDescription x) op = op\<lparr>oo_description := x\<rparr>"
| "patch_operation (PatchPath x) op = op\<lparr>oo_path := x\<rparr>"
| "patch_operation (PatchMode i) op = op\<lparr>oo_mode := picked OPERATION_MODE_VALUES i (oo_mode op)\<rparr>"
| "patch_operation (PatchValueText x) op = op\<lparr>oo_value_text := x\<rparr>"
| "patch_operation (PatchKeepOrigin b) op = op\<lparr>oo_keep_origin := b\<rparr>"
| "patch_operation (PatchFrom x) op = op\<lparr>oo_from := x\<rparr>"
| "patch_operation (PatchTo x) op = op\<lparr>oo_to := x\<rparr>"
| "patch_operation (PatchLogic b) op = op\<lparr>oo_logic := (if b then ''AND'' else ''OR'')\<rparr>"

fun patch_condition :: "condition_patch \<Rightarrow> override_condition \<Rightarrow> override_condition" where
  "patch_condition (PatchCPath x) c = c\<lparr>oc_path := x\<rparr>"
| "patch_condition (PatchCMode i) c = c\<lparr>oc_mode := picked CONDITION_MODE_VALUES i (oc_mode c)\<rparr>"
| "patch_condition (PatchCValueText x) c = c\<lparr>oc_value_text := x\<rparr>"
| "patch_condition (PatchCInvert b) c = c\<lparr>oc_invert := b\<rparr>"
| "patch_condition (PatchCPassMissing b) c = c\<lparr>oc_pass_missing_key := b\<rparr>"

definition on_operation ::
  "nat \<Rightarrow> (override_operation \<Rightarrow> override_operation) \<Rightarrow> override_editor \<Rightarrow> override_editor" where
  "on_operation operationId f s =
     s\<lparr>ov_operations := map (\<lambda>item. if oo_id item = operationId then f item else item) (ov_operations s)\<rparr>"

definition updateOperation :: "nat \<Rightarrow> operation_patch list \<Rightarrow> override_editor \<Rightarrow> override_editor" where
  "updateOperation operationId patch s =
     on_operation operationId (\<lambda>item. fold patch_operation patch item) s"

definition find_operation :: "nat \<Rightarrow> override_editor \<Rightarrow> override_operation option" where
  "find_operation operationId s = List.find (\<lambda>item. oo_id item = operationId) (ov_operations s)"

definition selectedOperation :: "override_editor \<Rightarrow> override_operation option" where
  "selectedOperation s = (case ov_selected s of None \<Rightarrow> None | Some i \<Rightarrow> find_operation i s)"

definition addOperation :: "override_editor \<Rightarrow> override_editor" where
  "addOperation s =
     (let created = createDefaultOperation (ov_seed s)
      in s\<lparr>ov_operations := ov_operations s @ [created], ov_selected := Some (oo_id created),
           ov_seed := ov_seed s + 1\<rparr>)"

text \<open>What \<open>duplicateOperation\<close> hands to \<open>normalizeOperation\<close>.\<close>

definition condition_copy :: "override_condition \<Rightarrow> jsval" where
  "condition_copy c =
     JObj [(''path'', JStr (oc_path c)), (''mode'', JStr (oc_mode c)),
           (''value'', parseLooseValue (oc_value_text c)), (''invert'', JBool (oc_invert c)),
           (''pass_missing_key'', JBool (oc_pass_missing_key c))]"

definition operation_copy :: "override_operation \<Rightarrow> jsval" where
  "operation_copy op =
     JObj [(''description'', JStr (oo_description op)), (''path'', JStr (oo_path op)),
           (''mode'', JStr (oo_mode op)), (''value'', parseLooseValue (oo_value_text op)),
           (''keep_origin'', JBool (oo_keep_origin op)), (''from'', JStr (oo_from op)),
           (''to'', JStr (oo_to op)), (''logic'', JStr (oo_logic op)),
           (''conditions'', JArr (map condition_copy (oo_conditions op)))]"

definition duplicateOperation :: "nat \<Rightarrow> override_editor \<Rightarrow> override_editor" where
  "duplicateOperation operationId s =
     (case find_index (\<lambda>item. oo_id item = operationId) (ov_operations s) of
        None \<Rightarrow> s
      | Some index \<Rightarrow>
          (case normalizeOperation (ov_seed s) (operation_copy (ov_operations s ! index)) of
             Inl _ \<Rightarrow> s
           | Inr (seed, cloned) \<Rightarrow>
               s\<lparr>ov_operations := insert_at (index + 1) cloned (ov_operations s),
                 ov_selected := Some (oo_id cloned), ov_seed := seed\<rparr>))"

definition removeOperation :: "nat \<Rightarrow> override_editor \<Rightarrow> override_editor" where
  "removeOperation operationId s =
     (let s1 = (if length (ov_operations s) \<le> 1
                then s\<lparr>ov_operations := [createDefaultOperation (ov_seed s)], ov_seed := ov_seed s + 1\<rparr>
                else s\<lparr>ov_operations := filter (\<lambda>item. oo_id item \<noteq> operationId) (ov_operations s)\<rparr>)
      in s1\<lparr>ov_expanded := (ov_expanded s)(operationId := None)\<rparr>)"

definition expanded_keys :: "override_editor \<Rightarrow> nat \<Rightarrow> nat list" where
  "expanded_keys s i = (case ov_expanded s i of None \<Rightarrow> [] | Some ks \<Rightarrow> ks)"

definition set_expanded :: "nat \<Rightarrow> nat list \<Rightarrow> override_editor \<Rightarrow> override_editor" where
  "set_expanded i ks s = s\<lparr>ov_expanded := (ov_expanded s)(i := Some ks)\<rparr>"

definition addCondition :: "nat \<Rightarrow> override_editor \<Rightarrow> override_editor" where
  "addCondition operationId s =
     (let createdCondition = createDefaultCondition (ov_seed s);
          s1 = on_operation operationId
                 (\<lambda>op. op\<lparr>oo_conditions := oo_conditions op @ [createdCondition]\<rparr>) s
      in set_expanded operationId (expanded_keys s operationId @ [oc_id createdCondition])
           (s1\<lparr>ov_seed := ov_seed s + 1\<rparr>))"

definition updateCondition :: "nat \<Rightarrow> nat \<Rightarrow> condition_patch \<Rightarrow> override_editor \<Rightarrow> override_editor" where
  "updateCondition operationId conditionId patch s =
     on_operation operationId
       (\<lambda>op. op\<lparr>oo_conditions := map (\<lambda>c. if oc_id c = conditionId then patch_condition patch c else c)
                                   (oo_conditions op)\<rparr>) s"

definition removeCondition :: "nat \<Rightarrow> nat \<Rightarrow> override_editor \<Rightarrow> override_editor" where
  "removeCondition operationId conditionId s =
     set_expanded operationId (filter (\<lambda>i. i \<noteq> conditionId) (expanded_keys s operationId))
       (on_operation operationId
          (\<lambda>op. op\<lparr>oo_conditions := filter (\<lambda>c. oc_id c \<noteq> conditionId) (oo_conditions op)\<rparr>) s)"

definition expandAllSelectedConditions :: "override_editor \<Rightarrow> override_editor" where
  "expandAllSelectedConditions s =
     (case (ov_selected s, selectedOperation s) of
        (Some i, Some op) \<Rightarrow> set_expanded i (map oc_id (oo_conditions op)) s
      | _ \<Rightarrow> s)"

definition collapseAllSelectedConditions :: "override_editor \<Rightarrow> override_editor" where
  "collapseAllSelectedConditions s =
     (case ov_selected s of None \<Rightarrow> s | Some i \<Rightarrow> set_expanded i [] s)"

section \<open>Drag and drop\<close>

definition resetOperationDragState :: "override_editor \<Rightarrow> override_editor" where
  "resetOperationDragState s = s\<lparr>ov_dragged := None, ov_dragOver := None, ov_dragPosition := ''before''\<rparr>"

definition moveOperation :: "nat option \<Rightarrow> nat \<Rightarrow> string \<Rightarrow> override_editor \<Rightarrow> override_editor" where
  "moveOperation sourceId targetId position s =
     (if sourceId = None \<or> sourceId = Some targetId then s
      else s\<lparr>ov_operations := reorderOperations (ov_operations s) sourceId (Some targetId) position,
             ov_selected := sourceId\<rparr>)"

definition handleOperationDragStart :: "nat \<Rightarrow> override_editor \<Rightarrow> override_editor" where
  "handleOperationDragStart operationId s =
     s\<lparr>ov_dragged := Some operationId, ov_selected := Some operationId\<rparr>"

definition handleOperationDragOver :: "nat \<Rightarrow> rat \<Rightarrow> rat \<Rightarrow> rat \<Rightarrow> override_editor \<Rightarrow> override_editor" where
  "handleOperationDragOver operationId clientY rectTop height s =
     (if ov_dragged s = None \<or> ov_dragged s = Some operationId then s
      else s\<lparr>ov_dragOver := Some operationId,
             ov_dragPosition := (if clientY - rectTop > height / 2 then ''after'' else ''before'')\<rparr>)"

definition handleOperationDrop :: "nat \<Rightarrow> nat option \<Rightarrow> override_editor \<Rightarrow> override_editor" where
  "handleOperationDrop operationId transferred s =
     (let sourceId = (case ov_dragged s of None \<Rightarrow> transferred | Some i \<Rightarrow> Some i);
          position = (if ov_dragOver s = Some operationId then ov_dragPosition s else ''before'')
      in resetOperationDragState (moveOperation sourceId operationId position s))"

section \<open>Structured values\<close>

definition formatSelectedOperationValueAsJson :: "override_editor \<Rightarrow> override_editor" where
  "formatSelectedOperationValueAsJson s =
     (case selectedOperation s of
        None \<Rightarrow> s
      | Some op \<Rightarrow>
          (let raw = js_trim (oo_value_text op)
           in if raw = [] then s
              else
                (case json_parse raw of
                   Inl _ \<Rightarrow> show_error ValueNotJson s
                 | Inr v \<Rightarrow> show_success ValueFormatted
                     (updateOperation (oo_id op) [PatchValueText (json_pretty [] v)] s))))"

datatype error_patch =
    PatchMessage string
  | PatchStatus jsnum
  | PatchCode string
  | PatchType string
  | PatchSkipRetry bool
  | PatchErrorSimple bool

fun patch_error :: "error_patch \<Rightarrow> return_error_draft \<Rightarrow> return_error_draft" where
  "patch_error (PatchMessage x) d = d\<lparr>rd_message := x\<rparr>"
| "patch_error (PatchStatus x) d = d\<lparr>rd_statusCode := x\<rparr>"
| "patch_error (PatchCode x) d = d\<lparr>rd_code := x\<rparr>"
| "patch_error (PatchType x) d = d\<lparr>rd_type := x\<rparr>"
| "patch_error (PatchSkipRetry b) d = d\<lparr>rd_skipRetry := b\<rparr>"
| "patch_error (PatchErrorSimple b) d = d\<lparr>rd_simpleMode := b\<rparr>"

definition updateReturnErrorDraft :: "nat \<Rightarrow> error_patch list \<Rightarrow> override_editor \<Rightarrow> override_editor" where
  "updateReturnErrorDraft operationId draftPatch s =
     (case find_operation operationId s of
        None \<Rightarrow> s
      | Some current \<Rightarrow>
          (let nextDraft = fold patch_error draftPatch (parseReturnErrorDraft (oo_value_text current))
           in updateOperation operationId [PatchValueText (buildReturnErrorValueText nextDraft)] s))"

text \<open>The updater gets the seed behind the ids the parser drew, and gives the next one.\<close>

definition updatePruneObjectsDraft ::
  "nat \<Rightarrow> (nat \<Rightarrow> prune_draft \<Rightarrow> nat \<times> prune_draft) \<Rightarrow> override_editor \<Rightarrow> override_editor" where
  "updatePruneObjectsDraft operationId updater s =
     (case find_operation operationId s of
        None \<Rightarrow> s
      | Some current \<Rightarrow>
          (let (seed, draft) = parsePruneObjectsDraft (ov_seed s) (oo_value_text current);
               (seed', nextDraft) = updater seed draft
           in (updateOperation operationId [PatchValueText (buildPruneObjectsValueText nextDraft)] s)
                \<lparr>ov_seed := seed'\<rparr>))"

datatype prune_patch =
    PatchPruneSimple bool
  | PatchPruneType string
  | PatchPruneLogic string
  | PatchPruneRecursive bool

fun patch_prune :: "prune_patch \<Rightarrow> prune_draft \<Rightarrow> prune_draft" where
  "patch_prune (PatchPruneSimple b) d = d\<lparr>pd_simpleMode := b\<rparr>"
| "patch_prune (PatchPruneType x) d = d\<lparr>pd_typeText := x\<rparr>"
| "patch_prune (PatchPruneLogic x) d = d\<lparr>pd_logic := or_text x ''AND''\<rparr>"
| "patch_prune (PatchPruneRecursive b) d = d\<lparr>pd_recursive := b\<rparr>"

definition addPruneRule :: "nat \<Rightarrow> override_editor \<Rightarrow> override_editor" where
  "addPruneRule operationId =
     updatePruneObjectsDraft operationId (\<lambda>seed draft.
       (seed + 1, draft\<lparr>pd_simpleMode := False,
                        pd_rules := pd_rules draft @ [normalizePruneRule seed (JObj [])]\<rparr>))"

definition updatePruneRule :: "nat \<Rightarrow> nat \<Rightarrow> condition_patch \<Rightarrow> override_editor \<Rightarrow> override_editor" where
  "updatePruneRule operationId ruleId patch =
     updatePruneObjectsDraft operationId (\<lambda>seed draft.
       (seed, draft\<lparr>pd_rules := map (\<lambda>rule. if oc_id rule = ruleId then patch_condition patch rule else rule)
                                 (pd_rules draft)\<rparr>))"

definition removePruneRule :: "nat \<Rightarrow> nat \<Rightarrow> override_editor \<Rightarrow> override_editor" where
  "removePruneRule operationId ruleId =
     updatePruneObjectsDraft operationId (\<lambda>seed draft.
       (seed, draft\<lparr>pd_rules := filter (\<lambda>rule. oc_id rule \<noteq> ruleId) (pd_rules draft)\<rparr>))"

text \<open>The two selects and the two inputs of a field synchronisation.\<close>

datatype sync_patch = SyncFromType string | SyncFromKey string | SyncToType string | SyncToKey string

fun sync_change :: "sync_patch \<Rightarrow> override_operation \<Rightarrow> operation_patch" where
  "sync_change (SyncFromType x) op = PatchFrom (buildSyncTargetSpec x (st_key (parseSyncTargetSpec (oo_from op))))"
| "sync_change (SyncFromKey x) op =
     PatchFrom (buildSyncTargetSpec (or_text (st_type (parseSyncTargetSpec (oo_from op))) ''json'') x)"
| "sync_change (SyncToType x) op = PatchTo (buildSyncTargetSpec x (st_key (parseSyncTargetSpec (oo_to op))))"
| "sync_change (SyncToKey x) op =
     PatchTo (buildSyncTargetSpec (or_text (st_type (parseSyncTargetSpec (oo_to op))) ''json'') x)"

definition changeSync :: "sync_patch \<Rightarrow> override_editor \<Rightarrow> override_editor" where
  "changeSync p s =
     (case selectedOperation s of
        None \<Rightarrow> s
      | Some op \<Rightarrow> if oo_mode op = ''sync_fields'' then updateOperation (oo_id op) [sync_change p op] s else s)"

section \<open>The field guide\<close>

definition applyBuiltinField :: "string \<Rightarrow> string \<Rightarrow> override_editor \<Rightarrow> override_editor" where
  "applyBuiltinField fieldKey target s =
     (case selectedOperation s of
        None \<Rightarrow> show_error SelectOperationFirst s
      | Some op \<Rightarrow>
          (let mode = or_text (oo_mode op) ''set'';
               meta = meta_of mode;
               written = (if mode = ''sync_fields'' then buildSyncTargetSpec ''json'' fieldKey else fieldKey)
           in if target = ''path'' \<and> (m_path meta \<or> m_pathOptional meta \<or> m_pathAlias meta)
                then updateOperation (oo_id op) [PatchPath fieldKey] s
              else if target = ''from'' \<and> (m_from meta \<or> m_pathAlias meta \<or> mode = ''sync_fields'')
                then updateOperation (oo_id op) [PatchFrom written] s
              else if target = ''to'' \<and> (m_to meta \<or> mode = ''sync_fields'')
                then updateOperation (oo_id op) [PatchTo written] s
              else show_error TargetNotSupported s))"

definition openFieldGuide :: "string \<Rightarrow> override_editor \<Rightarrow> override_editor" where
  "openFieldGuide target s = s\<lparr>ov_guideTarget := target, ov_guideVisible := True\<rparr>"

definition copyBuiltinField :: "string \<Rightarrow> bool \<Rightarrow> override_editor \<Rightarrow> override_editor" where
  "copyBuiltinField fieldKey ok s =
     (if ok then show_success (CopiedField fieldKey) s else show_error CopyFailed s)"

section \<open>The JSON text and saving\<close>

definition handleJsonChange :: "string \<Rightarrow> override_editor \<Rightarrow> override_editor" where
  "handleJsonChange nextValue s =
     s\<lparr>ov_jsonText := nextValue,
       ov_jsonError := (if js_trim nextValue = [] \<or> verifyJSON (js_trim nextValue) then None
                        else Some JsonBadFormat)\<rparr>"

definition formatJson :: "override_editor \<Rightarrow> override_editor" where
  "formatJson s =
     (let trimmed = js_trim (ov_jsonText s)
      in if trimmed = [] then s
         else
           (case json_parse trimmed of
              Inl _ \<Rightarrow> show_error OverrideNotJson s
            | Inr v \<Rightarrow> s\<lparr>ov_jsonText := json_pretty [] v, ov_jsonError := None\<rparr>))"

definition visualValidationError :: "override_editor \<Rightarrow> override_message option" where
  "visualValidationError s =
     (if ov_editMode s \<noteq> ''visual'' then None
      else (case buildVisualJson (ov_visualMode s) (ov_legacyValue s) (ov_operations s) of
              Inr _ \<Rightarrow> None | Inl message \<Rightarrow> Some message))"

definition override_save_result :: "override_editor \<Rightarrow> override_message + string" where
  "override_save_result s =
     (if ov_editMode s = ''json'' then
        (let trimmed = js_trim (ov_jsonText s)
         in if trimmed = [] then Inr []
            else (case json_parse trimmed of
                    Inl _ \<Rightarrow> Inl OverrideNotJson
                  | Inr v \<Rightarrow> Inr (json_pretty [] v)))
      else buildVisualJson (ov_visualMode s) (ov_legacyValue s) (ov_operations s))"

definition handleSave :: "override_editor \<Rightarrow> override_editor" where
  "handleSave s =
     (case override_save_result s of
        Inr result \<Rightarrow> s\<lparr>ov_saved := ov_saved s @ [result]\<rparr>
      | Inl message \<Rightarrow> show_error message s)"

end
