(* ===== verification/ParamOverrideMachine.thy ===== *)
theory ParamOverrideMachine
  imports ParamOverrideEditor "HOL-Library.Multiset"
begin

text \<open>
  The parameter override editor as an event machine: every button, field and drag of the
  dialog is an event, an event runs its handler and then the effects.  The invariant says that
  the list of operations is never empty, that ids are distinct and below the seed, that the
  selection names an operation and that every mode is known.
\<close>

datatype (plugins only: code) override_event =
    OvOpen jsval
  | OvRender nat
  | OvSwitchJson
  | OvSwitchVisual
  | OvGroup nat
  | OvPreset nat
  | OvFillTemplate
  | OvAppendTemplate
  | OvReset
  | OvLegacyChange string
  | OvSearch string
  | OvSelect nat
  | OvAddOperation
  | OvDragStart nat
  | OvDragOver nat rat rat rat
  | OvDrop nat "nat option"
  | OvDragEnd
  | OvUpdate nat "operation_patch list"
  | OvSync sync_patch
  | OvDuplicate nat
  | OvRemove nat
  | OvFormatValue
  | OvError nat "error_patch list"
  | OvPrune nat "prune_patch list"
  | OvAddRule nat
  | OvUpdateRule nat nat condition_patch
  | OvRemoveRule nat nat
  | OvAddCondition nat
  | OvUpdateCondition nat nat condition_patch
  | OvRemoveCondition nat nat
  | OvCollapse nat "nat list"
  | OvExpandAll
  | OvCollapseAll
  | OvJsonChange string
  | OvFormatJson
  | OvSave
  | OvExample bool
  | OvOpenGuide string
  | OvCloseGuide
  | OvGuideTarget string
  | OvGuideKeyword string
  | OvCopyField string bool
  | OvApplyField string string

text \<open>\<open>OvRender\<close>: a render draws ids that nothing keeps (the default of \<open>useState\<close>, the rules of
  the draft that is shown).\<close>

fun override_handler :: "(string \<Rightarrow> string) \<Rightarrow> override_event \<Rightarrow> override_editor \<Rightarrow> override_editor option" where
  "override_handler t (OvOpen v) s = open_editor v s"
| "override_handler t (OvRender n) s = Some (s\<lparr>ov_seed := ov_seed s + n\<rparr>)"
| "override_handler t OvSwitchJson s = Some (switchToJsonMode s)"
| "override_handler t OvSwitchVisual s = Some (switchToVisualMode s)"
| "override_handler t (OvGroup i) s = Some (s\<lparr>ov_group := picked [''basic'', ''scenario''] i (ov_group s)\<rparr>)"
| "override_handler t (OvPreset i) s =
     Some (s\<lparr>ov_preset := picked (templatePresetOptions (ov_group s)) i (ov_preset s)\<rparr>)"
| "override_handler t OvFillTemplate s = Some (fillTemplateFromLibrary t s)"
| "override_handler t OvAppendTemplate s = Some (appendTemplateFromLibrary t s)"
| "override_handler t OvReset s = Some (resetEditorState s)"
| "override_handler t (OvLegacyChange x) s = Some (s\<lparr>ov_legacyValue := x\<rparr>)"
| "override_handler t (OvSearch x) s = Some (s\<lparr>ov_search := x\<rparr>)"
| "override_handler t (OvSelect i) s = Some (s\<lparr>ov_selected := Some i\<rparr>)"
| "override_handler t OvAddOperation s = Some (addOperation s)"
| "override_handler t (OvDragStart i) s = Some (handleOperationDragStart i s)"
| "override_handler t (OvDragOver i y r h) s = Some (handleOperationDragOver i y r h s)"
| "override_handler t (OvDrop i d) s = Some (handleOperationDrop i d s)"
| "override_handler t OvDragEnd s = Some (resetOperationDragState s)"
| "override_handler t (OvUpdate i p) s = Some (updateOperation i p s)"
| "override_handler t (OvSync p) s = Some (changeSync p s)"
| "override_handler t (OvDuplicate i) s = Some (duplicateOperation i s)"
| "override_handler t (OvRemove i) s = Some (removeOperation i s)"
| "override_handler t OvFormatValue s = Some (formatSelectedOperationValueAsJson s)"
| "override_handler t (OvError i p) s = Some (updateReturnErrorDraft i p s)"
| "override_handler t (OvPrune i p) s =
     Some (updatePruneObjectsDraft i (\<lambda>seed d. (seed, fold patch_prune p d)) s)"
| "override_handler t (OvAddRule i) s = Some (addPruneRule i s)"
| "override_handler t (OvUpdateRule i r p) s = Some (updatePruneRule i r p s)"
| "override_handler t (OvRemoveRule i r) s = Some (removePruneRule i r s)"
| "override_handler t (OvAddCondition i) s = Some (addCondition i s)"
| "override_handler t (OvUpdateCondition i c p) s = Some (updateCondition i c p s)"
| "override_handler t (OvRemoveCondition i c) s = Some (removeCondition i c s)"
| "override_handler t (OvCollapse i ks) s = Some (set_expanded i ks s)"
| "override_handler t OvExpandAll s = Some (expandAllSelectedConditions s)"
| "override_handler t OvCollapseAll s = Some (collapseAllSelectedConditions s)"
| "override_handler t (OvJsonChange x) s = Some (handleJsonChange x s)"
| "override_handler t OvFormatJson s = Some (formatJson s)"
| "override_handler t OvSave s = Some (handleSave s)"
| "override_handler t (OvExample b) s = Some (s\<lparr>ov_exampleVisible := b\<rparr>)"
| "override_handler t (OvOpenGuide x) s = Some (openFieldGuide x s)"
| "override_handler t OvCloseGuide s = Some (s\<lparr>ov_guideVisible := False\<rparr>)"
| "override_handler t (OvGuideTarget x) s = Some (s\<lparr>ov_guideTarget := or_text x ''path''\<rparr>)"
| "override_handler t (OvGuideKeyword x) s = Some (s\<lparr>ov_guideKeyword := x\<rparr>)"
| "override_handler t (OvCopyField k ok) s = Some (copyBuiltinField k ok s)"
| "override_handler t (OvApplyField k target) s = Some (applyBuiltinField k target s)"

definition override_step :: "(string \<Rightarrow> string) \<Rightarrow> override_event \<Rightarrow> override_editor \<Rightarrow> override_editor option" where
  "override_step t e s = map_option settle_editor (override_handler t e s)"

section \<open>The invariant\<close>

definition operation_ok :: "nat \<Rightarrow> override_operation \<Rightarrow> bool" where
  "operation_ok seed op \<longleftrightarrow> oo_id op < seed \<and> known_modes op
     \<and> distinct (map oc_id (oo_conditions op)) \<and> list_all (\<lambda>c. oc_id c < seed) (oo_conditions op)"

definition operations_ok :: "nat \<Rightarrow> override_operation list \<Rightarrow> bool" where
  "operations_ok seed ops \<longleftrightarrow> distinct (map oo_id ops) \<and> list_all (operation_ok seed) ops"

text \<open>What the handlers keep, and what the effects add.\<close>

definition override_pre :: "override_editor \<Rightarrow> bool" where
  "override_pre s \<longleftrightarrow> ov_operations s \<noteq> [] \<and> operations_ok (ov_seed s) (ov_operations s)
     \<and> ov_editMode s \<in> set [''visual'', ''json''] \<and> ov_visualMode s \<in> set [''operations'', ''legacy'']
     \<and> ov_group s \<in> set [''basic'', ''scenario'']"

definition override_inv :: "override_editor \<Rightarrow> bool" where
  "override_inv s \<longleftrightarrow> override_pre s
     \<and> (\<exists>op \<in> set (ov_operations s). ov_selected s = Some (oo_id op))
     \<and> ov_preset s \<in> set (templatePresetOptions (ov_group s))"

lemma operation_ok_mono: "operation_ok n op \<Longrightarrow> n \<le> m \<Longrightarrow> operation_ok m op"
  by (auto simp: operation_ok_def list_all_iff)

lemma operations_ok_mono: "operations_ok n ops \<Longrightarrow> n \<le> m \<Longrightarrow> operations_ok m ops"
  using operation_ok_mono by (auto simp: operations_ok_def list_all_iff)

lemma default_id [simp]: "oo_id (createDefaultOperation n) = n"
  by (simp add: createDefaultOperation_def)

lemma operations_ok_default [simp]: "operations_ok (Suc n) [createDefaultOperation n]"
  by (simp add: operations_ok_def operation_ok_def createDefaultOperation_def known_modes_def
      OPERATION_MODE_VALUES_def)

lemma mode_or_in: "d \<in> set ms \<Longrightarrow> mode_or ms d v \<in> set ms"
  by (auto simp: mode_or_def split: jsval.split)

lemma condition_modes:
  "map_fresh normalizeOverrideCondition n vs = Inr (m, cs) \<Longrightarrow>
     list_all (\<lambda>c. oc_mode c \<in> set CONDITION_MODE_VALUES) cs"
proof (induction vs arbitrary: n cs)
  case (Cons v vs)
  have "''full'' \<in> set CONDITION_MODE_VALUES" by (simp add: CONDITION_MODE_VALUES_def)
  from mode_or_in [OF this] Cons show ?case
    by (auto simp: normalizeOverrideCondition_def split: sum.splits if_splits)
qed simp

lemma normalizeOperation_ok:
  assumes "normalizeOperation n v = Inr (m, op)"
  shows "operation_ok m op \<and> oo_id op = n \<and> n < m"
proof -
  from assms obtain cs where op: "oo_conditions op = cs"
    and mode: "oo_mode op = mode_or OPERATION_MODE_VALUES ''set'' (value_get v ''mode'')"
    and c: "(case value_get v ''conditions'' of
            JArr vs \<Rightarrow> map_fresh normalizeOverrideCondition (n + 1) vs | _ \<Rightarrow> Inr (n + 1, [])) = Inr (m, cs)"
    by (auto simp: normalizeOperation_def split: if_splits sum.splits)
  have "''set'' \<in> set OPERATION_MODE_VALUES" by (simp add: OPERATION_MODE_VALUES_def)
  then have "oo_mode op \<in> set OPERATION_MODE_VALUES" unfolding mode by (rule mode_or_in)
  moreover have "list_all (\<lambda>c. oc_mode c \<in> set CONDITION_MODE_VALUES) (oo_conditions op)"
    unfolding op using c condition_modes by (auto split: jsval.splits)
  ultimately show ?thesis
    using normalizeOperation_ids [OF assms] by (auto simp: operation_ok_def known_modes_def list_all_iff)
qed

lemma map_fresh_operations_ok:
  assumes "map_fresh normalizeOperation n vs = Inr (m, ops)"
  shows "operations_ok m ops \<and> n \<le> m \<and> (\<forall>op \<in> set ops. n \<le> oo_id op)"
proof -
  have ids: "n \<le> m \<and> distinct (map oo_id ops) \<and> (\<forall>i \<in> set (map oo_id ops). n \<le> i \<and> i < m)"
    by (rule map_fresh_ids [OF fresh_operations assms])
  have "list_all (operation_ok m) ops"
    using assms
  proof (induction vs arbitrary: n ops)
    case (Cons v vs)
    then obtain k op rest where op: "normalizeOperation n v = Inr (k, op)"
      and rest: "map_fresh normalizeOperation k vs = Inr (m, rest)" and ops: "ops = op # rest"
      by (auto split: sum.splits prod.splits)
    have "k \<le> m" using map_fresh_ids [OF fresh_operations rest] by simp
    with op rest Cons.IH show ?case
      unfolding ops using normalizeOperation_ok operation_ok_mono by fastforce
  qed simp
  with ids show ?thesis by (auto simp: operations_ok_def)
qed

lemma read_operations_ok:
  assumes "read_operations n vs = Inr (m, ops)"
  shows "ops \<noteq> [] \<and> operations_ok m ops \<and> n \<le> m"
proof (cases "vs = []")
  case True
  with assms show ?thesis by (auto simp: read_operations_def)
next
  case False
  with assms have f: "map_fresh normalizeOperation n vs = Inr (m, ops)" by (simp add: read_operations_def)
  from map_fresh_length [OF f] False have "ops \<noteq> []" by auto
  with map_fresh_operations_ok [OF f] show ?thesis by simp
qed

lemma parseInitialState_ok:
  assumes "parseInitialState n v = Inr (m, st)"
  shows "oi_operations st \<noteq> [] \<and> operations_ok m (oi_operations st)
     \<and> oi_editMode st \<in> set [''visual'', ''json''] \<and> oi_visualMode st \<in> set [''operations'', ''legacy'']"
  using assms read_operations_ok
  by (auto simp: parseInitialState_def Let_def split: if_splits sum.splits jsval.splits)

section \<open>Settling\<close>

lemma preset_options: "templatePresetOptions ''basic'' = [''operations_default'', ''legacy_default'']"
  "templatePresetOptions ''scenario'' = [''pass_headers_auth'', ''gemini_image_4k'',
     ''claude_cli_headers_passthrough'', ''codex_cli_headers_passthrough'', ''aws_bedrock_anthropic_beta_override'']"
  by (simp_all add: templatePresetOptions_def TEMPLATE_PRESET_CONFIG_def)

lemma settle_selection_fields [simp]:
  "ov_operations (settle_selection s) = ov_operations s" "ov_seed (settle_selection s) = ov_seed s"
  "ov_editMode (settle_selection s) = ov_editMode s" "ov_visualMode (settle_selection s) = ov_visualMode s"
  "ov_group (settle_selection s) = ov_group s" "ov_preset (settle_selection s) = ov_preset s"
  by (simp_all add: settle_selection_def)

lemma settle_preset_fields [simp]:
  "ov_operations (settle_preset s) = ov_operations s" "ov_seed (settle_preset s) = ov_seed s"
  "ov_editMode (settle_preset s) = ov_editMode s" "ov_visualMode (settle_preset s) = ov_visualMode s"
  "ov_group (settle_preset s) = ov_group s" "ov_selected (settle_preset s) = ov_selected s"
  by (simp_all add: settle_preset_def split: list.split)

lemma settle_inv: "override_pre s \<Longrightarrow> override_inv (settle_editor s)"
proof -
  assume pre: "override_pre s"
  then have "ov_operations s \<noteq> []" by (simp add: override_pre_def)
  then have "\<exists>op \<in> set (ov_operations s). ov_selected (settle_selection s) = Some (oo_id op)"
    by (cases "ov_operations s") (auto simp: settle_selection_def first_id_def list_ex_iff)
  moreover from pre have "ov_preset (settle_preset (settle_selection s)) \<in> set (templatePresetOptions (ov_group s))"
    by (auto simp: settle_preset_def override_pre_def preset_options)
  ultimately show ?thesis
    using pre by (simp add: override_inv_def settle_editor_def override_pre_def)
qed


section \<open>Every handler keeps the state in order\<close>

lemma operations_ok_map:
  assumes "operations_ok n ops" and "n \<le> m"
    and "\<And>op. operation_ok n op \<Longrightarrow> operation_ok m (f op) \<and> oo_id (f op) = oo_id op"
  shows "operations_ok m (map (\<lambda>item. if oo_id item = i then f item else item) ops)"
proof -
  have "map oo_id (map (\<lambda>item. if oo_id item = i then f item else item) ops) = map oo_id ops"
    using assms(1,3) by (auto simp: operations_ok_def list_all_iff)
  with assms show ?thesis
    using operation_ok_mono by (auto simp: operations_ok_def list_all_iff simp del: map_map)
qed

lemma operations_ok_filter: "operations_ok n ops \<Longrightarrow> operations_ok n (filter p ops)"
  by (auto simp: operations_ok_def list_all_iff distinct_map intro: inj_on_subset)

lemma operations_ok_append:
  "operations_ok n xs \<Longrightarrow> operations_ok m ys \<Longrightarrow> n \<le> m \<Longrightarrow> \<forall>op \<in> set ys. n \<le> oo_id op \<Longrightarrow>
     operations_ok m (xs @ ys)"
  using operation_ok_mono [of n _ m]
  by (fastforce simp: operations_ok_def operation_ok_def list_all_iff)

lemma operations_ok_mset: "operations_ok n xs \<Longrightarrow> mset ys = mset xs \<Longrightarrow> operations_ok n ys"
proof -
  assume ok: "operations_ok n xs" and m: "mset ys = mset xs"
  from m have "mset (map oo_id ys) = mset (map oo_id xs)" by simp
  then have "distinct (map oo_id ys) = distinct (map oo_id xs)" by (rule mset_eq_imp_distinct_iff)
  with ok mset_eq_setD [OF m] show ?thesis by (simp add: operations_ok_def list_all_iff)
qed

lemma reorder_mset: "mset (reorderOperations ops a b position) = mset ops"
proof -
  have ins: "mset (insert_at k x xs) = add_mset x (mset xs)" for k and x :: override_operation and xs
    unfolding insert_at_def by (metis append_take_drop_id mset.simps(2) mset_append union_mset_add_mset_right)
  have "mset (take i ops @ drop (Suc i) ops) + {#ops ! i#} = mset ops" if "i < length ops" for i
    using arg_cong [OF id_take_nth_drop [OF that], of mset] by simp
  then show ?thesis
    using find_index_split
    by (auto simp: reorderOperations_def Let_def ins split: option.splits)
qed

lemma picked_in: "d \<in> set xs \<Longrightarrow> picked xs i d \<in> set xs"
  by (simp add: picked_def)

lemma patch_operation_ok: "operation_ok n op \<Longrightarrow> operation_ok n (patch_operation p op) \<and> oo_id (patch_operation p op) = oo_id op"
  by (cases p) (auto simp: operation_ok_def known_modes_def intro: picked_in)

lemma patches_ok:
  "operation_ok n op \<Longrightarrow> operation_ok n (fold patch_operation ps op) \<and> oo_id (fold patch_operation ps op) = oo_id op"
  using patch_operation_ok by (induction ps arbitrary: op) auto

lemma patch_condition_ok:
  "oc_mode c \<in> set CONDITION_MODE_VALUES \<Longrightarrow>
     oc_mode (patch_condition p c) \<in> set CONDITION_MODE_VALUES \<and> oc_id (patch_condition p c) = oc_id c"
  by (cases p) (auto intro: picked_in)

lemma on_operation_pre:
  assumes "override_pre s" and "ov_seed s \<le> m"
    and "\<And>op. operation_ok (ov_seed s) op \<Longrightarrow> operation_ok m (f op) \<and> oo_id (f op) = oo_id op"
  shows "override_pre ((on_operation i f s)\<lparr>ov_seed := m\<rparr>)"
  using assms operations_ok_map [of "ov_seed s" "ov_operations s" m f i]
  by (simp add: override_pre_def on_operation_def)

lemma on_operation_pre_same:
  assumes "override_pre s"
    and "\<And>op. operation_ok (ov_seed s) op \<Longrightarrow> operation_ok (ov_seed s) (f op) \<and> oo_id (f op) = oo_id op"
  shows "override_pre (on_operation i f s)"
  using on_operation_pre [OF assms(1) order_refl assms(2), of i] by (simp add: on_operation_def)

text \<open>Changes of fields that the invariant does not mention.\<close>

lemma override_pre_other:
  assumes "ov_operations s' = ov_operations s" "ov_seed s \<le> ov_seed s'" "ov_editMode s' = ov_editMode s"
    "ov_visualMode s' = ov_visualMode s" "ov_group s' = ov_group s" "override_pre s"
  shows "override_pre s'"
  using assms operations_ok_mono by (auto simp: override_pre_def)

lemma seed_pre: "override_pre s \<Longrightarrow> ov_seed s \<le> k \<Longrightarrow> override_pre (s\<lparr>ov_seed := k\<rparr>)"
  by (erule override_pre_other [rotated 5]) simp_all

lemma drag_over_pre: "override_pre s \<Longrightarrow> override_pre (handleOperationDragOver i y r h s)"
  by (cases "ov_dragged s = None \<or> ov_dragged s = Some i") (simp_all add: handleOperationDragOver_def override_pre_def)

lemma show_keeps: "override_pre (show_error m s) = override_pre s" "override_pre (show_success m s) = override_pre s"
  by (simp_all add: override_pre_def show_error_def show_success_def)

lemma updateOperation_pre: "override_pre s \<Longrightarrow> override_pre (updateOperation i ps s)"
  unfolding updateOperation_def by (intro on_operation_pre_same patches_ok)

lemma set_expanded_pre: "override_pre (set_expanded i ks s) = override_pre s"
  by (simp add: override_pre_def set_expanded_def)

lemma open_editor_pre:
  assumes "open_editor v s = Some s'"
  shows "override_pre s'"
  using assms parseInitialState_ok [of "ov_seed s" v]
  by (auto simp: open_editor_def override_pre_def split: sum.splits prod.splits)

lemma legacy_filled_pre: "override_pre s \<Longrightarrow> override_pre (legacy_filled x s)"
  by (simp add: legacy_filled_def override_pre_def Let_def)

lemma clear_pre: "override_pre s \<Longrightarrow> override_pre (resetEditorState s)"
  by (simp add: resetEditorState_def clearValue_def override_pre_def Let_def)

lemma switch_json_pre: "override_pre s \<Longrightarrow> override_pre (switchToJsonMode s)"
  by (auto simp: switchToJsonMode_def override_pre_def show_error_def split: sum.splits)

lemma switch_visual_pre: "override_pre s \<Longrightarrow> override_pre (switchToVisualMode s)"
  using read_operations_ok
  by (auto simp: switchToVisualMode_def override_pre_def show_error_def Let_def
      split: sum.splits jsval.splits prod.splits)

lemma fill_operations_pre: "override_pre s \<Longrightarrow> override_pre (fillOperationsTemplate t ops s)"
  using read_operations_ok
  by (auto simp: fillOperationsTemplate_def override_pre_def Let_def split: sum.splits prod.splits)

lemma append_legacy_pre: "override_pre s \<Longrightarrow> override_pre (appendLegacyTemplate p s)"
  by (auto simp: appendLegacyTemplate_def Let_def show_keeps legacy_filled_pre split: sum.splits jsval.splits)

lemma append_operations_pre:
  assumes "override_pre s" and "ops \<noteq> []"
  shows "override_pre (appendOperationsTemplate t ops s)"
proof (cases "map_fresh normalizeOperation (ov_seed s) (localizeTemplateOperations t ops)")
  case (Inl e)
  with assms show ?thesis by (simp add: appendOperationsTemplate_def)
next
  case (Inr r)
  obtain m appended where r: "r = (m, appended)" by fastforce
  note f = Inr [unfolded r]
  from map_fresh_length [OF f] assms(2) have "appended \<noteq> []" by (auto simp: localizeTemplateOperations_def)
  moreover have "operations_ok m (filter p (ov_operations s) @ appended)" for p
    using assms(1) map_fresh_operations_ok [OF f] operations_ok_filter [of "ov_seed s" "ov_operations s" p]
    by (intro operations_ok_append [of "ov_seed s"]) (auto simp: override_pre_def)
  moreover have "operations_ok m appended" using map_fresh_operations_ok [OF f] by simp
  ultimately show ?thesis
    using assms(1) by (auto simp: appendOperationsTemplate_def f Let_def override_pre_def)
qed

lemma library_nonempty: "preset_payload k = OperationsPayload ops \<Longrightarrow> ops \<noteq> []"
  by (auto simp: preset_payload_def TEMPLATE_PRESET_CONFIG_def OPERATION_TEMPLATE_def HEADER_PASSTHROUGH_TEMPLATE_def
      GEMINI_IMAGE_4K_TEMPLATE_def AWS_BEDROCK_ANTHROPIC_COMPAT_TEMPLATE_def buildPassHeadersTemplate_def
      split: if_splits)

lemma library_pre:
  "override_pre s \<Longrightarrow> override_pre (fillTemplateFromLibrary t s)"
  "override_pre s \<Longrightarrow> override_pre (appendTemplateFromLibrary t s)"
  using library_nonempty
  by (auto simp: fillTemplateFromLibrary_def appendTemplateFromLibrary_def fillLegacyTemplate_def
      legacy_filled_pre fill_operations_pre append_legacy_pre append_operations_pre split: template_payload.split)

lemma add_operation_pre: "override_pre s \<Longrightarrow> override_pre (addOperation s)"
proof -
  assume pre: "override_pre s"
  have "operations_ok (Suc (ov_seed s)) (ov_operations s @ [createDefaultOperation (ov_seed s)])"
    using pre by (intro operations_ok_append [of "ov_seed s"]) (auto simp: override_pre_def)
  with pre show ?thesis by (simp add: addOperation_def override_pre_def Let_def)
qed

lemma duplicate_pre:
  assumes "override_pre s"
  shows "override_pre (duplicateOperation i s)"
proof -
  have "operations_ok m (insert_at k op (ov_operations s))"
    if "normalizeOperation (ov_seed s) v = Inr (m, op)" for m op v k
  proof -
    from normalizeOperation_ok [OF that] assms have "operations_ok m (ov_operations s @ [op])"
      by (intro operations_ok_append [of "ov_seed s"]) (auto simp: override_pre_def operations_ok_def)
    moreover have "mset (insert_at k op xs) = mset (xs @ [op])" for xs
      unfolding insert_at_def
      by (metis add_mset_add_single append_take_drop_id mset.simps(2) mset_append union_mset_add_mset_right
          mset_single_iff_right)
    ultimately show ?thesis by (rule operations_ok_mset)
  qed
  with assms show ?thesis
    by (auto simp: duplicateOperation_def override_pre_def insert_at_def split: option.splits sum.splits prod.splits)
qed

lemma remove_pre:
  assumes "override_pre s"
  shows "override_pre (removeOperation i s)"
proof (cases "length (ov_operations s) \<le> 1")
  case True
  with assms show ?thesis by (simp add: removeOperation_def Let_def override_pre_def)
next
  case False
  have d: "distinct (map oo_id (ov_operations s))" using assms by (simp add: override_pre_def operations_ok_def)
  obtain a b r where ops: "ov_operations s = a # b # r"
    using False by (cases "ov_operations s"; cases "tl (ov_operations s)") auto
  have "oo_id a \<noteq> oo_id b" using d by (simp add: ops)
  then have "filter (\<lambda>item. oo_id item \<noteq> i) (ov_operations s) \<noteq> []" by (auto simp: ops)
  with False assms show ?thesis
    by (simp add: removeOperation_def Let_def override_pre_def operations_ok_filter)
qed

lemma drop_pre: "override_pre s \<Longrightarrow> override_pre (handleOperationDrop i d s)"
proof -
  assume pre: "override_pre s"
  have "operations_ok (ov_seed s) (reorderOperations (ov_operations s) a b p)" for a b p
    using pre by (intro operations_ok_mset [OF _ reorder_mset]) (simp add: override_pre_def)
  moreover have "reorderOperations (ov_operations s) a b p \<noteq> []" for a b p
    using pre reorder_mset [of "ov_operations s" a b p] by (auto simp: override_pre_def)
  ultimately show ?thesis
    using pre by (auto simp: handleOperationDrop_def resetOperationDragState_def moveOperation_def override_pre_def Let_def)
qed

lemma add_condition_pre: "override_pre s \<Longrightarrow> override_pre (addCondition i s)"
proof -
  assume pre: "override_pre s"
  let ?c = "createDefaultCondition (ov_seed s)"
  have "operation_ok (Suc (ov_seed s)) (op\<lparr>oo_conditions := oo_conditions op @ [?c]\<rparr>)" if "operation_ok (ov_seed s) op" for op
    using that by (auto simp: operation_ok_def known_modes_def createDefaultCondition_def CONDITION_MODE_VALUES_def list_all_iff)
  then have "override_pre ((on_operation i (\<lambda>op. op\<lparr>oo_conditions := oo_conditions op @ [?c]\<rparr>) s)\<lparr>ov_seed := Suc (ov_seed s)\<rparr>)"
    by (intro on_operation_pre [OF pre]) simp_all
  then show ?thesis by (simp add: addCondition_def Let_def set_expanded_pre)
qed

lemma update_condition_pre: "override_pre s \<Longrightarrow> override_pre (updateCondition i c p s)"
proof -
  assume pre: "override_pre s"
  let ?f = "\<lambda>op. op\<lparr>oo_conditions := map (\<lambda>d. if oc_id d = c then patch_condition p d else d) (oo_conditions op)\<rparr>"
  have "operation_ok (ov_seed s) (?f op)" if ok: "operation_ok (ov_seed s) op" for op
  proof -
    have "map oc_id (oo_conditions (?f op)) = map oc_id (oo_conditions op)"
      using ok patch_condition_ok by (auto simp: operation_ok_def known_modes_def list_all_iff)
    with ok show ?thesis
      using patch_condition_ok by (auto simp: operation_ok_def known_modes_def list_all_iff simp del: map_map)
  qed
  then show ?thesis unfolding updateCondition_def by (intro on_operation_pre_same [OF pre]) simp_all
qed

lemma remove_condition_pre: "override_pre s \<Longrightarrow> override_pre (removeCondition i c s)"
proof -
  assume pre: "override_pre s"
  have "operation_ok (ov_seed s) (op\<lparr>oo_conditions := filter (\<lambda>d. oc_id d \<noteq> c) (oo_conditions op)\<rparr>)"
    if "operation_ok (ov_seed s) op" for op
    using that by (auto simp: operation_ok_def known_modes_def list_all_iff distinct_map intro: inj_on_subset)
  then show ?thesis
    unfolding removeCondition_def set_expanded_pre by (intro on_operation_pre_same [OF pre]) simp_all
qed

lemma parse_prune_seed: "parsePruneObjectsDraft n x = (m, d) \<Longrightarrow> n \<le> m"
  by (auto simp: parsePruneObjectsDraft_def Let_def split: if_splits sum.splits jsval.splits)

lemma prune_pre:
  assumes "override_pre s" and "\<And>n d. n \<le> fst (f n d)"
  shows "override_pre (updatePruneObjectsDraft i f s)"
proof (cases "find_operation i s")
  case None
  with assms show ?thesis by (simp add: updatePruneObjectsDraft_def)
next
  case (Some op)
  obtain m d where m: "parsePruneObjectsDraft (ov_seed s) (oo_value_text op) = (m, d)" by fastforce
  obtain k e where k: "f m d = (k, e)" by fastforce
  have "ov_seed s \<le> k" using parse_prune_seed [OF m] assms(2) [of m d] by (simp add: k)
  then have "override_pre ((updateOperation i [PatchValueText (buildPruneObjectsValueText e)] s)\<lparr>ov_seed := k\<rparr>)"
    by (intro seed_pre updateOperation_pre [OF assms(1)]) (simp add: updateOperation_def on_operation_def)
  then show ?thesis by (simp add: updatePruneObjectsDraft_def Some m k)
qed

lemma handler_pre:
  assumes "override_pre s" and "override_handler t e s = Some s'"
  shows "override_pre s'"
proof (cases e)
  case (OvGroup i)
  have "ov_group s \<in> set [''basic'', ''scenario'']" using assms(1) by (simp add: override_pre_def)
  then have "picked [''basic'', ''scenario''] i (ov_group s) \<in> set [''basic'', ''scenario'']" by (rule picked_in)
  with assms OvGroup show ?thesis by (auto simp: override_pre_def)
next
  case (OvError i p)
  with assms show ?thesis by (auto simp: updateReturnErrorDraft_def Let_def updateOperation_pre split: option.splits)
next
  case OvFormatValue
  with assms show ?thesis
    by (auto simp: formatSelectedOperationValueAsJson_def Let_def show_keeps updateOperation_pre split: option.splits sum.splits)
next
  case (OvDragOver i y r h)
  with assms drag_over_pre show ?thesis by auto
next
  case OvExpandAll
  with assms show ?thesis
    by (auto simp: expandAllSelectedConditions_def set_expanded_pre split: option.splits)
next
  case OvCollapseAll
  with assms show ?thesis by (auto simp: collapseAllSelectedConditions_def set_expanded_pre split: option.splits)
next
  case (OvSync p)
  with assms show ?thesis by (auto simp: changeSync_def updateOperation_pre split: option.splits)
next
  case (OvApplyField k x)
  with assms show ?thesis by (auto simp: applyBuiltinField_def Let_def show_keeps updateOperation_pre split: option.splits)
next
  case OvSave
  with assms show ?thesis by (auto simp: handleSave_def override_pre_def show_error_def split: sum.splits)
next
  case OvFormatJson
  with assms show ?thesis by (auto simp: formatJson_def Let_def override_pre_def show_error_def split: sum.splits if_splits)
next
  case (OvRender n)
  with assms show ?thesis by (auto intro: override_pre_other)
qed (use assms in \<open>auto simp: open_editor_pre switch_json_pre switch_visual_pre library_pre clear_pre add_operation_pre
    duplicate_pre remove_pre drop_pre updateOperation_pre add_condition_pre update_condition_pre remove_condition_pre
    set_expanded_pre addPruneRule_def updatePruneRule_def removePruneRule_def prune_pre show_keeps
    copyBuiltinField_def
    handleOperationDragStart_def handleOperationDragOver_def resetOperationDragState_def handleJsonChange_def
    openFieldGuide_def override_pre_def [of "_\<lparr>ov_preset := _\<rparr>"] override_pre_def [of "_\<lparr>ov_legacyValue := _\<rparr>"]
    intro: override_pre_other\<close>)

end
