(* ===== verification/ParamOverrideSession.thy ===== *)
theory ParamOverrideSession
  imports ParamOverrideMachine
begin

text \<open>
  What a session with the parameter override editor guarantees: the invariant in every state
  that can be reached, what opening and saving do, that changing the edit mode keeps the
  operations, where a duplicate stands, and that the templates of the library can be saved.
\<close>

section \<open>Reachable states\<close>

lemma start_pre: "override_pre (override_start n)"
  by (simp add: override_start_def override_pre_def)

interpretation override: invariant_system "override_step t" "\<lambda>s. \<exists>n. s = settle_editor (override_start n)" override_inv for t
proof unfold_locales
  show "override_inv s" if "\<exists>n. s = settle_editor (override_start n)" for s
    using that settle_inv start_pre by blast
  show "override_inv s'" if "override_inv s" and "override_step t e s = Some s'" for s e s'
    using that handler_pre [of s t e] settle_inv by (auto simp: override_step_def override_inv_def)
qed

text \<open>C3: In every state the editor can reach there is at least one operation, all operations and all
  conditions of one operation have different ids, every mode is a known one, the selection
  names an operation, and the chosen template belongs to the chosen group.\<close>

theorem editor_states_are_consistent:
  assumes "run_events (override_step t) es (settle_editor (override_start n)) = Some s"
  shows "ov_operations s \<noteq> [] \<and> distinct (map oo_id (ov_operations s))
     \<and> (\<forall>op \<in> set (ov_operations s). known_modes op \<and> distinct (map oc_id (oo_conditions op)))
     \<and> (\<exists>op \<in> set (ov_operations s). ov_selected s = Some (oo_id op))
     \<and> ov_preset s \<in> set (templatePresetOptions (ov_group s))"
proof -
  have "override_inv s" using override.inv_from_init [OF _ assms] by blast
  then show ?thesis
    by (auto simp: override_inv_def override_pre_def operations_ok_def operation_ok_def list_all_iff)
qed

definition sample_session :: "override_event list" where
  "sample_session = [OvAddOperation, OvUpdate 1 [PatchMode 1, PatchPath ''temperature''], OvAddCondition 1,
     OvDragStart 1, OvDragOver 0 3 0 10, OvDrop 0 None, OvRemove 0, OvRemove 1, OvGroup 1, OvSave]"

theorem editor_states_are_consistent_witness:
  "\<exists>s. run_events (override_step (\<lambda>x. x)) sample_session (settle_editor (override_start 0)) = Some s
     \<and> ov_operations s \<noteq> [] \<and> ov_preset s \<in> set (templatePresetOptions (ov_group s))"
proof -
  have "run_events (override_step (\<lambda>x. x)) sample_session (settle_editor (override_start 0)) \<noteq> None"
    by (simp add: sample_session_def override_step_def)
  then obtain s where "run_events (override_step (\<lambda>x. x)) sample_session (settle_editor (override_start 0)) = Some s" by auto
  with editor_states_are_consistent [OF this] show ?thesis by blast
qed

section \<open>Opening\<close>

lemma map_fresh_null:
  "JNull \<in> set vs \<Longrightarrow> \<exists>e. map_fresh normalizeOperation n vs = Inl e"
proof (induction vs arbitrary: n)
  case (Cons v vs)
  show ?case
  proof (cases "normalizeOperation n v")
    case (Inr r)
    then have "v \<noteq> JNull" by (auto simp: normalizeOperation_def)
    with Cons.prems Cons.IH [of "fst r"] Inr show ?thesis by (auto split: prod.split)
  qed simp
qed simp

text \<open>A stored text whose \<open>operations\<close> hold a \<open>null\<close> cannot be opened: reading it throws in the
  effect, which takes the dialog down.\<close>

theorem null_operation_breaks_the_editor:
  assumes "json_parse (js_trim text) = Inr v" and "js_trim text \<noteq> []"
    and "v = JObj kvs" and "value_get v ''operations'' = JArr ops" and "JNull \<in> set ops"
  shows "override_step t (OvOpen (JStr text)) s = None"
proof -
  from assms(5) have "ops \<noteq> []" by auto
  with map_fresh_null [OF assms(5), of "ov_seed s"] obtain e where "read_operations (ov_seed s) ops = Inl e"
    by (auto simp: read_operations_def)
  with assms show ?thesis
    by (simp add: override_step_def open_editor_def parseInitialState_def string_or_empty_def Let_def)
qed

theorem null_operation_breaks_the_editor_witness:
  "override_step (\<lambda>x. x) (OvOpen (JStr (json_text (JObj [(''operations'', JArr [JNull])])))) (override_start 0) = None"
proof -
  have "storable_fields [(''operations'', JArr [JNull])]" by simp
  note r = object_text_read [OF this]
  show ?thesis
    by (rule null_operation_breaks_the_editor [where v = "JObj [(''operations'', JArr [JNull])]" and ops = "[JNull]"])
      (use r in simp_all)
qed

section \<open>Saving\<close>

lemma saving_keeps:
  assumes "override_inv s"
  shows "override_step t OvSave s =
     Some (case override_save_result s of
             Inr result \<Rightarrow> s\<lparr>ov_saved := ov_saved s @ [result]\<rparr>
           | Inl message \<Rightarrow> s\<lparr>ov_notices := ov_notices s @ [NoticeError message]\<rparr>)
   \<and> (ov_editMode s = ''visual'' \<longrightarrow>
        visualValidationError s = (case override_save_result s of Inr _ \<Rightarrow> None | Inl message \<Rightarrow> Some message))"
proof -
  have st: "settle_editor s' = s'" if "ov_operations s' = ov_operations s" "ov_selected s' = ov_selected s"
    "ov_group s' = ov_group s" "ov_preset s' = ov_preset s" for s'
  proof -
    have "settle_selection s' = s'"
      using assms that by (auto simp: settle_selection_def list_ex_iff override_inv_def)
    moreover have "settle_preset s' = s'"
      using assms that
      by (cases "templatePresetOptions (ov_group s)") (simp_all add: settle_preset_def override_inv_def)
    ultimately show ?thesis by (simp add: settle_editor_def)
  qed
  show ?thesis
    by (auto simp: override_step_def handleSave_def show_error_def st override_save_result_def visualValidationError_def
        split: sum.split)
qed

text \<open>Saving never changes what is edited: it either hands one text to the page, or shows the
  error that the panel shows too, and nothing else.\<close>

theorem saving_keeps_the_editor:
  assumes "override_inv s"
  shows "override_step t OvSave s =
     Some (case override_save_result s of
             Inr result \<Rightarrow> s\<lparr>ov_saved := ov_saved s @ [result]\<rparr>
           | Inl message \<Rightarrow> s\<lparr>ov_notices := ov_notices s @ [NoticeError message]\<rparr>)
   \<and> (ov_editMode s = ''visual'' \<longrightarrow>
        visualValidationError s = (case override_save_result s of Inr _ \<Rightarrow> None | Inl message \<Rightarrow> Some message))"
  using assms by (rule saving_keeps)

text \<open>Saving canonical operations in the visual editor, opening the dialog again on the saved
  text and saving right away hands out the same text a second time, and the dialog shows the
  same operations in the same order, up to their ids.\<close>

theorem open_after_save:
  assumes "override_inv s" and "ov_editMode s = ''visual''" and "ov_visualMode s = ''operations''"
    and "list_all canonical_operation (ov_operations s)" and "list_all storable_values (ov_operations s)"
    and "override_save_result s = Inr text" and "text \<noteq> []"
  shows "\<exists>s'. run_events (override_step t) [OvOpen (JStr text), OvSave] s = Some s'
     \<and> map drop_ids (ov_operations s') = map drop_ids (ov_operations s)
     \<and> ov_saved s' = ov_saved s @ [text]"
proof -
  have k: "list_all known_modes (ov_operations s)"
    using assms(1) by (auto simp: override_inv_def override_pre_def operations_ok_def operation_ok_def list_all_iff)
  from assms(2,3,6) have b: "buildVisualJson ''operations'' (ov_legacyValue s) (ov_operations s) = Inr text"
    by (simp add: override_save_result_def)
  obtain n st where st: "parseInitialState (ov_seed s) (JStr text) = Inr (n, st)"
    and same: "map drop_ids (oi_operations st) = map drop_ids (ov_operations s)"
    and again: "buildVisualJson (oi_visualMode st) (oi_legacyValue st) (oi_operations st) = Inr text"
    using canonical_operations_survive [OF assms(4) k assms(5) b assms(7)] by blast
  have vis: "oi_editMode st = ''visual''"
    using again b_reopen [OF k assms(5), of True "text" "ov_seed s"] b assms(7) st
    by (simp add: buildVisualJson_def)
  obtain s1 where s1: "open_editor (JStr text) s = Some s1"
    and f: "ov_operations s1 = oi_operations st" "ov_visualMode s1 = oi_visualMode st"
      "ov_legacyValue s1 = oi_legacyValue st" "ov_editMode s1 = oi_editMode st" "ov_saved s1 = ov_saved s"
    using st by (simp add: open_editor_def)
  have e1: "override_step t (OvOpen (JStr text)) s = Some (settle_editor s1)" by (simp add: override_step_def s1)
  have keep: "ov_operations (settle_editor s1) = ov_operations s1" "ov_visualMode (settle_editor s1) = ov_visualMode s1"
    "ov_editMode (settle_editor s1) = ov_editMode s1" by (simp_all add: settle_editor_def)
  have keep': "ov_legacyValue (settle_editor s1) = ov_legacyValue s1" "ov_saved (settle_editor s1) = ov_saved s1"
    by (simp_all add: settle_editor_def settle_preset_def settle_selection_def split: list.split)
  have r: "override_save_result (settle_editor s1) = Inr text" using again vis by (simp add: override_save_result_def keep keep' f)
  have inv: "override_inv (settle_editor s1)" by (rule settle_inv [OF open_editor_pre [OF s1]])
  have "override_step t OvSave (settle_editor s1) = Some ((settle_editor s1)\<lparr>ov_saved := ov_saved (settle_editor s1) @ [text]\<rparr>)"
    using saving_keeps [OF inv] r by simp
  with e1 same show ?thesis by (simp add: keep keep' f)
qed


text \<open>An editor with one canonical operation.\<close>

definition sample_editor :: override_editor where
  "sample_editor = (override_start 0)\<lparr>ov_operations := [sample_operation 0], ov_selected := Some 0\<rparr>"

lemma sample_editor_inv: "override_inv sample_editor"
proof -
  have "operation_ok 1 (sample_operation 0)"
    using sample_facts(2) [of 0] by (simp add: operation_ok_def sample_operation_def createDefaultOperation_def)
  then show ?thesis
    by (simp add: override_inv_def override_pre_def sample_editor_def override_start_def operations_ok_def
        sample_operation_def preset_options)
qed

lemma sample_save_result:
  "\<exists>text. override_save_result sample_editor = Inr text \<and> text \<noteq> []"
  using sample_saved [of 0] by (simp add: override_save_result_def buildVisualJson_def sample_editor_def override_start_def)

theorem saving_keeps_the_editor_witness:
  "\<exists>text. override_step (\<lambda>x. x) OvSave sample_editor = Some (sample_editor\<lparr>ov_saved := [text]\<rparr>)"
proof -
  obtain r where r: "override_save_result sample_editor = Inr r" using sample_save_result by blast
  have "ov_saved sample_editor = []" by (simp add: sample_editor_def override_start_def)
  with saving_keeps_the_editor [OF sample_editor_inv, of "\<lambda>x. x"] r show ?thesis
    by (intro exI [of _ r]) simp
qed

theorem open_after_save_witness:
  "\<exists>text s'. run_events (override_step (\<lambda>x. x)) [OvOpen (JStr text), OvSave] sample_editor = Some s'
     \<and> ov_saved s' = [text]"
proof -
  obtain r where r: "override_save_result sample_editor = Inr r" "r \<noteq> []" using sample_save_result by blast
  have f: "ov_editMode sample_editor = ''visual''" "ov_visualMode sample_editor = ''operations''"
    "ov_operations sample_editor = [sample_operation 0]" "ov_saved sample_editor = []"
    by (simp_all add: sample_editor_def override_start_def)
  have "\<exists>s'. run_events (override_step (\<lambda>x. x)) [OvOpen (JStr r), OvSave] sample_editor = Some s'
     \<and> map drop_ids (ov_operations s') = map drop_ids (ov_operations sample_editor)
     \<and> ov_saved s' = ov_saved sample_editor @ [r]"
    by (rule open_after_save [OF sample_editor_inv f(1,2)]) (simp_all add: f r sample_facts)
  with f(4) show ?thesis by auto
qed

section \<open>Changing the edit mode\<close>

text \<open>C19: Looking at canonical, valid operations as JSON text and going back changes no operation: the
  visual editor shows the same operations up to their ids, whatever the dialog was showing
  before, and no error is reported.\<close>

theorem json_view_keeps_operations:
  assumes "override_inv s" and "ov_editMode s = ''visual''" and "ov_visualMode s = ''operations''"
    and "list_all canonical_operation (ov_operations s)" and "list_all storable_values (ov_operations s)"
    and "visualValidationError s = None"
  shows "\<exists>s'. run_events (override_step t) [OvSwitchJson, OvSwitchVisual] s = Some s'
     \<and> ov_editMode s' = ''visual'' \<and> ov_visualMode s' = ''operations''
     \<and> map drop_ids (ov_operations s') = map drop_ids (ov_operations s)
     \<and> ov_notices s' = ov_notices s"
proof -
  have k: "list_all known_modes (ov_operations s)" and ne: "ov_operations s \<noteq> []"
    using assms(1) by (auto simp: override_inv_def override_pre_def operations_ok_def operation_ok_def list_all_iff)
  have kept: "filter (\<lambda>op. \<not> isOperationBlank op) (ov_operations s) = ov_operations s"
    using assms(4) by (auto simp: canonical_operation_def list_all_iff intro!: filter_True)
  obtain r where b: "buildVisualJson ''operations'' (ov_legacyValue s) (ov_operations s) = Inr r"
    using assms(2,3,6) by (auto simp: visualValidationError_def split: sum.splits)
  then have b': "buildOperationsJson (ov_operations s) True = Inr r" by (simp add: buildVisualJson_def)
  have r: "r \<noteq> []" using b' ne by (auto simp: buildOperationsJson_def kept Let_def split: option.splits)
  note built = build_Inr [OF b' r]
  let ?ops = "map (\<lambda>op. JObj (operation_payload op)) (ov_operations s)"
  have trim: "js_trim r = r" unfolding built(1) by (rule pretty_operations_trimmed)
  have "list_all json_storable ?ops"
    using assms(5) storable_payload by (simp add: list_all_iff del: json_storable.simps)
  then have "json_storable (JObj [(''operations'', JArr ?ops)])"
    by (intro storable_fieldsD) (simp del: json_storable.simps(7))
  then have parse: "json_parse r = Inr (JObj [(''operations'', JArr ?ops)])"
    unfolding built(1) kept by (rule json_parse_pretty)
  define s1 where "s1 = settle_editor (switchToJsonMode s)"
  have j: "switchToJsonMode s = s\<lparr>ov_jsonText := r, ov_jsonError := None, ov_editMode := ''json''\<rparr>"
    using assms(2,3) b by (simp add: switchToJsonMode_def)
  have f1: "ov_editMode s1 = ''json''" by (simp add: s1_def settle_editor_def j)
  have f2: "ov_jsonText s1 = r" "ov_notices s1 = ov_notices s"
    by (simp_all add: s1_def settle_editor_def settle_preset_def settle_selection_def j split: list.split)
  have "read_operations (ov_seed s1) ?ops
      = Inr (next_seed (ov_seed s1) (ov_operations s), saved_operations (ov_seed s1) (ov_operations s))"
    using normalize_operation_payloads [OF k] ne by (simp add: read_operations_def)
  then have v: "switchToVisualMode s1 =
      s1\<lparr>ov_visualMode := ''operations'', ov_operations := saved_operations (ov_seed s1) (ov_operations s),
         ov_selected := first_id (saved_operations (ov_seed s1) (ov_operations s)), ov_legacyValue := [],
         ov_jsonError := None, ov_editMode := ''visual'', ov_group := ''basic'',
         ov_preset := ''operations_default'', ov_seed := next_seed (ov_seed s1) (ov_operations s)\<rparr>"
    using r by (simp add: switchToVisualMode_def f1 f2 trim parse Let_def)
  have "run_events (override_step t) [OvSwitchJson, OvSwitchVisual] s = Some (settle_editor (switchToVisualMode s1))"
    by (simp add: override_step_def s1_def)
  moreover have "ov_notices (settle_editor (switchToVisualMode s1)) = ov_notices s"
    by (simp add: settle_editor_def settle_preset_def settle_selection_def v f2 split: list.split)
  ultimately show ?thesis
    using saved_canonical [OF assms(4), of "ov_seed s1"] by (simp add: settle_editor_def v)
qed

theorem json_view_keeps_operations_witness:
  "\<exists>s'. run_events (override_step (\<lambda>x. x)) [OvSwitchJson, OvSwitchVisual] sample_editor = Some s'
     \<and> map drop_ids (ov_operations s') = map drop_ids [sample_operation 0]"
proof -
  obtain r where r: "override_save_result sample_editor = Inr r" using sample_save_result by blast
  have f: "ov_editMode sample_editor = ''visual''" "ov_visualMode sample_editor = ''operations''"
    "ov_operations sample_editor = [sample_operation 0]"
    by (simp_all add: sample_editor_def override_start_def)
  from r have "visualValidationError sample_editor = None"
    by (simp add: visualValidationError_def override_save_result_def f)
  from json_view_keeps_operations [OF sample_editor_inv f(1,2) _ _ this, of "\<lambda>x. x"] show ?thesis
    by (auto simp: f sample_facts)
qed

section \<open>Duplicates\<close>

text \<open>A condition and an operation as the copy shows them: the value is parsed and written again.\<close>

definition copied_condition :: "override_condition \<Rightarrow> override_condition" where
  "copied_condition c = c\<lparr>oc_id := 0, oc_value_text := toValueText (parseLooseValue (oc_value_text c))\<rparr>"

definition copied_operation :: "override_operation \<Rightarrow> override_operation" where
  "copied_operation op =
     op\<lparr>oo_id := 0, oo_value_text := toValueText (parseLooseValue (oo_value_text op)),
        oo_logic := (if js_upper (or_text (oo_logic op) ''OR'') = ''AND'' then ''AND'' else ''OR''),
        oo_conditions := map copied_condition (oo_conditions op)\<rparr>"

lemma normalize_condition_copies:
  "list_all (\<lambda>c. oc_mode c \<in> set CONDITION_MODE_VALUES) cs \<Longrightarrow>
     \<exists>ds. map_fresh normalizeOverrideCondition n (map condition_copy cs) = Inr (n + length cs, ds)
       \<and> map (\<lambda>c. c\<lparr>oc_id := 0\<rparr>) ds = map copied_condition cs"
proof (induction cs arbitrary: n)
  case (Cons c cs)
  then obtain ds where ds: "map_fresh normalizeOverrideCondition (n + 1) (map condition_copy cs) = Inr (n + 1 + length cs, ds)"
    "map (\<lambda>c. c\<lparr>oc_id := 0\<rparr>) ds = map copied_condition cs" by fastforce
  define d where "d = (copied_condition c)\<lparr>oc_id := n\<rparr>"
  have "normalizeOverrideCondition n (condition_copy c) = Inr (n + 1, d)"
    using Cons.prems
    by (simp add: normalizeOverrideCondition_def condition_copy_def copied_condition_def d_def string_or_empty_def mode_or_def)
  moreover have "d\<lparr>oc_id := 0\<rparr> = copied_condition c" by (simp add: d_def copied_condition_def)
  ultimately show ?case using ds by (intro exI [of _ "d # ds"]) simp
qed simp

lemma normalize_operation_copy:
  assumes "known_modes op"
  shows "\<exists>cloned. normalizeOperation n (operation_copy op) = Inr (n + 1 + length (oo_conditions op), cloned)
     \<and> oo_id cloned = n \<and> drop_ids cloned = copied_operation op"
proof -
  have "list_all (\<lambda>c. oc_mode c \<in> set CONDITION_MODE_VALUES) (oo_conditions op)"
    using assms by (simp add: known_modes_def)
  from normalize_condition_copies [OF this, of "n + 1"] obtain ds
    where ds: "map_fresh normalizeOverrideCondition (n + 1) (map condition_copy (oo_conditions op))
        = Inr (n + 1 + length (oo_conditions op), ds)"
      "map (\<lambda>c. c\<lparr>oc_id := 0\<rparr>) ds = map copied_condition (oo_conditions op)" by blast
  have l: "text_of_value (js_or (JStr (oo_logic op)) (JStr ''OR'')) = or_text (oo_logic op) ''OR''"
    by (simp add: js_or_def or_text_def)
  from assms have m: "oo_mode op \<in> set OPERATION_MODE_VALUES" by (simp add: known_modes_def)
  define cloned where "cloned = (copied_operation op)\<lparr>oo_id := n, oo_conditions := ds\<rparr>"
  have "normalizeOperation n (operation_copy op) = Inr (n + 1 + length (oo_conditions op), cloned)"
    using ds(1) m
    by (simp add: normalizeOperation_def operation_copy_def l string_or_empty_def mode_or_def cloned_def copied_operation_def)
  moreover have "drop_ids cloned = copied_operation op"
    using ds(2) by (simp add: drop_ids_def cloned_def copied_operation_def)
  ultimately show ?thesis by (simp add: cloned_def)
qed

text \<open>A duplicate stands directly behind its source, has an id nothing else has, is selected, and
  shows the same texts; only its values are parsed and written again.\<close>

theorem duplicate_stands_behind_its_source:
  assumes "override_inv s" and "i \<in> set (map oo_id (ov_operations s))"
  shows "\<exists>s' us source cloned vs. override_step t (OvDuplicate i) s = Some s'
     \<and> ov_operations s = us @ source # vs \<and> oo_id source = i
     \<and> ov_operations s' = us @ source # cloned # vs
     \<and> oo_id cloned \<notin> set (map oo_id (ov_operations s)) \<and> ov_selected s' = Some (oo_id cloned)
     \<and> drop_ids cloned = copied_operation source"
proof -
  from assms(2) obtain k where "find_index (\<lambda>item. oo_id item = i) (ov_operations s) = Some k"
    using find_index_None [of "\<lambda>item. oo_id item = i" "ov_operations s"] by fastforce
  then obtain us source vs where k: "find_index (\<lambda>item. oo_id item = i) (ov_operations s) = Some k"
    and ops: "ov_operations s = us @ source # vs" and l: "length us = k" and i: "oo_id source = i"
    by (blast elim: find_index_SomeE)
  have ok: "list_all (operation_ok (ov_seed s)) (ov_operations s)"
    using assms(1) by (simp add: override_inv_def override_pre_def operations_ok_def)
  then have "known_modes source" by (simp add: ops operation_ok_def)
  from normalize_operation_copy [OF this, of "ov_seed s"] obtain cloned m
    where n: "normalizeOperation (ov_seed s) (operation_copy source) = Inr (m, cloned)"
      and c: "oo_id cloned = ov_seed s" "drop_ids cloned = copied_operation source" by blast
  let ?s = "duplicateOperation i s"
  have s': "?s = s\<lparr>ov_operations := us @ source # cloned # vs, ov_selected := Some (oo_id cloned), ov_seed := m\<rparr>"
    using n by (simp add: duplicateOperation_def k) (simp add: ops l [symmetric] insert_at_def)
  have "ov_selected (settle_editor ?s) = Some (oo_id cloned)"
    by (simp add: settle_editor_def settle_selection_def s')
  moreover have "ov_operations (settle_editor ?s) = us @ source # cloned # vs" by (simp add: settle_editor_def s')
  moreover have "oo_id cloned \<notin> set (map oo_id (ov_operations s))"
    using ok by (auto simp: c(1) list_all_iff operation_ok_def)
  ultimately show ?thesis
    using c i ops
    by (intro exI [of _ "settle_editor ?s"] exI [of _ us] exI [of _ source] exI [of _ cloned] exI [of _ vs])
      (simp add: override_step_def)
qed

theorem duplicate_stands_behind_its_source_witness:
  "\<exists>s' cloned. override_step (\<lambda>x. x) (OvDuplicate 0) sample_editor = Some s'
     \<and> ov_operations s' = [sample_operation 0, cloned]"
proof -
  have f: "ov_operations sample_editor = [sample_operation 0]" "oo_id (sample_operation 0) = 0"
    by (simp_all add: sample_editor_def sample_operation_def)
  from duplicate_stands_behind_its_source [OF sample_editor_inv, of 0 "\<lambda>x. x"] show ?thesis
    by (auto simp: f append_eq_Cons_conv Cons_eq_append_conv)
qed


section \<open>The library of templates\<close>

definition template_ok :: "(string \<Rightarrow> string) \<Rightarrow> nat \<Rightarrow> jsval list \<Rightarrow> bool" where
  "template_ok t n ops =
     (case read_operations n (localizeTemplateOperations t ops) of
        Inl _ \<Rightarrow> False
      | Inr (m, ops') \<Rightarrow> validateOperations ops' = None \<and> list_all (\<lambda>op. \<not> isOperationBlank op) ops')"

lemma templates_ok:
  "template_ok t n OPERATION_TEMPLATE"
  "template_ok t n HEADER_PASSTHROUGH_TEMPLATE"
  "template_ok t n GEMINI_IMAGE_4K_TEMPLATE"
  "template_ok t n AWS_BEDROCK_ANTHROPIC_COMPAT_TEMPLATE"
  "template_ok t n (buildPassHeadersTemplate CLAUDE_CLI_HEADER_PASSTHROUGH_HEADERS)"
  "template_ok t n (buildPassHeadersTemplate CODEX_CLI_HEADER_PASSTHROUGH_HEADERS)"
  by code_simp+

lemma preset_cases:
  "preset_payload k = LegacyPayload LEGACY_TEMPLATE
   \<or> (\<exists>ops. preset_payload k = OperationsPayload ops \<and> template_ok t n ops)"
  by (simp add: preset_payload_def TEMPLATE_PRESET_CONFIG_def templates_ok)

lemma template_fills:
  assumes "template_ok t (ov_seed s) ops"
  shows "visualValidationError (fillOperationsTemplate t ops s) = None"
proof -
  from assms obtain m ops' where r: "read_operations (ov_seed s) (localizeTemplateOperations t ops) = Inr (m, ops')"
    and v: "validateOperations ops' = None" "list_all (\<lambda>op. \<not> isOperationBlank op) ops'"
    by (auto simp: template_ok_def split: sum.splits)
  from v(2) have "filter (\<lambda>op. \<not> isOperationBlank op) ops' = ops'" by (auto simp: list_all_iff intro!: filter_True)
  with v(1) have "\<exists>r. buildOperationsJson ops' True = Inr r"
    by (simp add: buildOperationsJson_def del: json_pretty.simps)
  then show ?thesis
    by (auto simp: visualValidationError_def fillOperationsTemplate_def r Let_def buildVisualJson_def
        simp del: json_pretty.simps)
qed

lemma legacy_template_saves:
  "\<exists>r. buildVisualJson ''legacy'' (json_pretty [] LEGACY_TEMPLATE) ops = Inr r"
proof -
  have i: "\<not> is_index_key ''temperature''" "\<not> is_index_key ''max_tokens''" by code_simp+
  have n: "json_storable (JNum (Fin 0))" "json_storable (JNum (Fin 1000))"
    using json_storable_int [of 0] json_storable_int [of 1000] by (simp_all del: json_storable.simps)
  have "json_storable LEGACY_TEMPLATE"
    unfolding LEGACY_TEMPLATE_def using i n by (intro storable_fieldsD) (simp del: json_storable.simps)
  then have p: "json_parse (json_pretty [] LEGACY_TEMPLATE) = Inr LEGACY_TEMPLATE" by (rule json_parse_pretty)
  have "trimmed (json_pretty [] LEGACY_TEMPLATE)"
    by (simp add: LEGACY_TEMPLATE_def trimmed_by_def js_space_def Let_def)
  then have "js_trim (json_pretty [] LEGACY_TEMPLATE) = json_pretty [] LEGACY_TEMPLATE" by (rule trim_by_id)
  with p show ?thesis by (simp add: buildVisualJson_def Let_def LEGACY_TEMPLATE_def del: json_pretty.simps)
qed

text \<open>Whatever template is chosen and whatever was edited before, filling in a template of the
  library leaves an editor without a validation error, whatever language its descriptions are
  translated to.\<close>

theorem library_templates_are_valid:
  "\<exists>s'. override_step t OvFillTemplate s = Some s' \<and> visualValidationError s' = None"
proof -
  have settled: "visualValidationError (settle_editor x) = visualValidationError x" for x
    by (simp add: visualValidationError_def settle_editor_def settle_preset_def settle_selection_def split: list.split)
  have "visualValidationError (fillTemplateFromLibrary t s) = None"
    using preset_cases [of "ov_preset s" t "ov_seed s"]
  proof (elim disjE exE conjE)
    assume "preset_payload (ov_preset s) = LegacyPayload LEGACY_TEMPLATE"
    then show ?thesis
      using legacy_template_saves [of "[createDefaultOperation (ov_seed s)]"]
      by (auto simp: fillTemplateFromLibrary_def fillLegacyTemplate_def legacy_filled_def visualValidationError_def
          Let_def simp del: json_pretty.simps)
  next
    fix ops
    assume "preset_payload (ov_preset s) = OperationsPayload ops" and "template_ok t (ov_seed s) ops"
    then show ?thesis by (simp add: fillTemplateFromLibrary_def template_fills)
  qed
  then show ?thesis by (simp add: override_step_def settled)
qed

section \<open>The rules of a pruning draft\<close>

lemma number_rules_ids: "r \<in> set (number_rules n vs) \<Longrightarrow> n \<le> oc_id r"
  by (auto simp: number_rules_def normalizePruneRule_def enumerate_eq_zip elim!: in_set_zipE)

lemma parsed_rule_ids: "parsePruneObjectsDraft n x = (m, d) \<Longrightarrow> r \<in> set (pd_rules d) \<Longrightarrow> n \<le> oc_id r"
  using number_rules_ids
  by (auto simp: parsePruneObjectsDraft_def Let_def pd_defaults_def split: if_splits sum.splits jsval.splits)

text \<open>The handlers that edit or remove one rule of a pruning draft read the draft again, which gives
  its rules new ids, and so find no rule with the id that was shown: both only write the draft
  back as it was read.\<close>

theorem rule_edits_find_no_rule:
  assumes "ruleId < ov_seed s"
  shows "updatePruneRule i ruleId patch s = updatePruneObjectsDraft i (\<lambda>seed d. (seed, d)) s
     \<and> removePruneRule i ruleId s = updatePruneObjectsDraft i (\<lambda>seed d. (seed, d)) s"
proof (cases "find_operation i s")
  case None
  then show ?thesis by (simp add: updatePruneRule_def removePruneRule_def updatePruneObjectsDraft_def)
next
  case (Some op)
  obtain m d where d: "parsePruneObjectsDraft (ov_seed s) (oo_value_text op) = (m, d)" by fastforce
  have other: "oc_id r \<noteq> ruleId" if "r \<in> set (pd_rules d)" for r
    using parsed_rule_ids [OF d that] assms by simp
  then have "map (\<lambda>rule. if oc_id rule = ruleId then patch_condition patch rule else rule) (pd_rules d) = pd_rules d"
    by (auto intro: map_idI)
  moreover from other have "filter (\<lambda>rule. oc_id rule \<noteq> ruleId) (pd_rules d) = pd_rules d"
    by (auto intro!: filter_True)
  ultimately show ?thesis
    by (simp add: updatePruneRule_def removePruneRule_def updatePruneObjectsDraft_def Some d)
qed

theorem rule_edits_find_no_rule_witness:
  "removePruneRule 0 0 (sample_editor\<lparr>ov_operations :=
       [(sample_operation 0)\<lparr>oo_mode := ''prune_objects'', oo_value_text := ''a''\<rparr>]\<rparr>)
     = updatePruneObjectsDraft 0 (\<lambda>seed d. (seed, d)) (sample_editor\<lparr>ov_operations :=
       [(sample_operation 0)\<lparr>oo_mode := ''prune_objects'', oo_value_text := ''a''\<rparr>]\<rparr>)"
  using rule_edits_find_no_rule [of 0 "sample_editor\<lparr>ov_operations :=
       [(sample_operation 0)\<lparr>oo_mode := ''prune_objects'', oo_value_text := ''a''\<rparr>]\<rparr>" 0]
  by (simp add: sample_editor_def override_start_def)

end
