(* ===== verification/ThinkTags.thy ===== *)
theory ThinkTags
  imports StoredData
begin

text \<open>
  Think tags in the answers of the playground (\<open>processThinkTags\<close> and
  \<open>processIncompleteThinkTags\<close> of \<open>web/src/helpers/utils.jsx\<close>): the text between
  \<open><think>\<close> and \<open></think>\<close> is moved from the answer to the reasoning.  The regular expression
  \<open>/<think>([\s\S]*?)<\/think>/g\<close> is read as: the first opening tag, then the first closing tag
  after it.  The lemmas show what a text built from answers and thoughts is split into.
\<close>

section \<open>Searching a text\<close>

text \<open>The first occurrence of a pattern: what is before it and what is behind it.\<close>

fun cut_at :: "string \<Rightarrow> string \<Rightarrow> (string \<times> string) option" where
  "cut_at pat [] = (if pat = [] then Some ([], []) else None)"
| "cut_at pat (c # cs) =
     (case strip_prefix pat (c # cs) of
        Some r \<Rightarrow> Some ([], r)
      | None \<Rightarrow> map_option (\<lambda>(a, b). (c # a, b)) (cut_at pat cs))"

text \<open>The last occurrence (\<open>lastIndexOf\<close>).\<close>

definition cut_last :: "string \<Rightarrow> string \<Rightarrow> (string \<times> string) option" where
  "cut_last pat s = map_option (\<lambda>(a, b). (rev b, rev a)) (cut_at (rev pat) (rev s))"

lemma cut_at_SomeD: "cut_at pat s = Some (a, b) \<Longrightarrow> s = a @ pat @ b"
proof (induction s arbitrary: a b)
  case Nil
  then show ?case by (simp split: if_splits)
next
  case (Cons c cs)
  then show ?case by (auto simp: strip_prefix_Some split: option.splits)
qed

lemma cut_at_None: "cut_at pat s = None \<longleftrightarrow> \<not> js_includes pat s"
  by (induction s) (auto simp: starts_with_def split: option.splits)

text \<open>A pattern whose first character does not come again inside it, like a tag.\<close>

fun headed :: "string \<Rightarrow> bool" where
  "headed [] \<longleftrightarrow> False"
| "headed (c # p) \<longleftrightarrow> c \<notin> set p"

lemma headed_prefix:
  assumes "headed pat" and "prefix pat (d # a @ pat @ x)"
  shows "prefix pat (d # a)"
proof -
  obtain c p where pat: "pat = c # p" and c: "c \<notin> set p"
    using assms(1) by (cases pat) auto
  have dc: "d = c" using assms(2) by (simp add: pat)
  have p: "prefix p (a @ c # p @ x)" using assms(2) by (auto simp: pat dc)
  from p consider "prefix p a" | zs where "p = a @ zs" "prefix zs (c # p @ x)"
    by (auto simp: prefix_append)
  then show ?thesis
  proof cases
    case 2
    with c have "zs = []" by (cases zs) auto
    with 2 show ?thesis by (simp add: pat dc)
  qed (simp add: pat dc)
qed

lemma cut_at_first:
  assumes "headed pat" and "\<not> js_includes pat a"
  shows "cut_at pat (a @ pat @ x) = Some (a, x)"
  using assms(2)
proof (induction a)
  case Nil
  obtain c p where "pat = c # p" using assms(1) by (cases pat) auto
  then show ?case using strip_prefix_append [of pat x] by simp
next
  case (Cons d a)
  have "\<not> prefix pat (d # a)" and IH: "\<not> js_includes pat a"
    using Cons.prems by (simp_all add: starts_with_iff)
  then have "strip_prefix pat (d # a @ pat @ x) = None"
    using headed_prefix [OF assms(1)] by (metis not_Some_eq prefix_def strip_prefix_Some)
  with Cons.IH [OF IH] show ?case by simp
qed

lemma includes_rev: "js_includes (rev p) (rev s) \<longleftrightarrow> js_includes p s"
  by (simp add: includes_iff)

lemma not_includes_append:
  "\<not> js_includes p (a @ b) \<Longrightarrow> \<not> js_includes p a \<and> \<not> js_includes p b"
  unfolding includes_iff by (meson sublist_append)

lemma includes_middle [simp]: "js_includes p (a @ p @ b)"
  by (simp add: includes_iff sublist_append_leftI)

lemma cut_last_last:
  assumes "headed (rev pat)" and "\<not> js_includes pat b"
  shows "cut_last pat (a @ pat @ b) = Some (a, b)"
  using cut_at_first [OF assms(1), of "rev b" "rev a"] assms(2)
  by (simp add: cut_last_def includes_rev)

section \<open>Splitting an answer\<close>

definition open_tag :: string where "open_tag = ''<think>''"

definition close_tag :: string where "close_tag = ''</think>''"

text \<open>The loop over the matches: the parts of the reply and the thoughts.\<close>

function think_split :: "string \<Rightarrow> string list \<times> string list" where
  "think_split s =
     (case cut_at open_tag s of
        None \<Rightarrow> ([s], [])
      | Some (r, q) \<Rightarrow>
          (case cut_at close_tag q of
             None \<Rightarrow> ([s], [])
           | Some (t, rest) \<Rightarrow> (let (rs, ts) = think_split rest in (r # rs, t # ts))))"
  by auto
termination
  by (relation "measure length") (auto dest!: cut_at_SomeD simp: open_tag_def)

declare think_split.simps [simp del]

text \<open>\<open>replace(/<\/?think>/g, '')\<close>\<close>

function drop_tags :: "string \<Rightarrow> string" where
  "drop_tags [] = []"
| "drop_tags (c # cs) =
     (case strip_prefix open_tag (c # cs) of
        Some r \<Rightarrow> drop_tags r
      | None \<Rightarrow>
          (case strip_prefix close_tag (c # cs) of
             Some r \<Rightarrow> drop_tags r
           | None \<Rightarrow> c # drop_tags cs))"
  by pat_completeness auto
termination
proof (relation "measure length")
  show "(r, c # cs) \<in> measure length" if "strip_prefix open_tag (c # cs) = Some r" for c cs r
    using that unfolding strip_prefix_Some by (simp add: open_tag_def)
  show "(r, c # cs) \<in> measure length" if "strip_prefix close_tag (c # cs) = Some r" for c cs r
    using that unfolding strip_prefix_Some by (simp add: close_tag_def)
qed simp_all

definition thought_separator :: string where
  "thought_separator = [CHR 0x0A, CHR 0x0A] @ ''---'' @ [CHR 0x0A, CHR 0x0A]"

text \<open>Reasoning so far, and more of it.\<close>

definition add_thought :: "jsval \<Rightarrow> string \<Rightarrow> jsval" where
  "add_thought reasoning t =
     (if truthy reasoning \<and> t \<noteq> [] then JStr (text_of_value reasoning @ thought_separator @ t)
      else js_or reasoning (JStr t))"

text \<open>\<open>content\<close> may be any value: an array has an \<open>includes\<close> of its own and no \<open>substring\<close>, and
  other values have neither.\<close>

definition processThinkTags :: "jsval \<Rightarrow> jsval \<Rightarrow> (jsval \<times> jsval) js_result" where
  "processThinkTags content reasoning =
     (if \<not> truthy content then Inr (content, reasoning)
      else case content of
        JStr s \<Rightarrow>
          if \<not> js_includes open_tag s then Inr (content, reasoning)
          else let (replyParts, thoughts) = think_split s
               in Inr (JStr (js_trim (drop_tags (concat replyParts))),
                       add_thought reasoning (join thought_separator thoughts))
      | JArr vs \<Rightarrow> if JStr open_tag \<in> set vs then Inl TypeError else Inr (content, reasoning)
      | _ \<Rightarrow> Inl TypeError)"

definition processIncompleteThinkTags :: "jsval \<Rightarrow> jsval \<Rightarrow> (jsval \<times> jsval) js_result" where
  "processIncompleteThinkTags content reasoning =
     (if \<not> truthy content then Inr (JStr [], reasoning)
      else case content of
        JStr s \<Rightarrow>
          (case cut_last open_tag s of
             None \<Rightarrow> processThinkTags content reasoning
           | Some (cleanContent, after) \<Rightarrow>
               if \<not> js_includes close_tag (open_tag @ after)
               then processThinkTags (JStr cleanContent)
                      (if js_trim after \<noteq> [] then add_thought reasoning (js_trim after) else reasoning)
               else processThinkTags content reasoning)
      | JArr vs \<Rightarrow> if JStr open_tag \<in> set vs then Inl TypeError else processThinkTags content reasoning
      | _ \<Rightarrow> Inl TypeError)"

section \<open>What a tagged text is split into\<close>

text \<open>Answers with thoughts between them, as a model writes them.\<close>

fun tagged :: "(string \<times> string) list \<Rightarrow> string \<Rightarrow> string" where
  "tagged [] r = r"
| "tagged ((a, t) # ps) r = a @ open_tag @ t @ close_tag @ tagged ps r"

definition untagged :: "string \<Rightarrow> bool" where
  "untagged s \<longleftrightarrow> \<not> js_includes open_tag s \<and> \<not> js_includes close_tag s"

lemma untagged_append: "untagged (a @ b) \<Longrightarrow> untagged a \<and> untagged b"
  using not_includes_append unfolding untagged_def by blast

lemma untagged_Cons: "untagged (c # s) \<Longrightarrow> untagged s"
  using untagged_append [of "[c]" s] by simp

lemma headed_tags: "headed open_tag" "headed close_tag" "headed (rev open_tag)"
  by (simp_all add: open_tag_def close_tag_def)

lemma drop_tags_untagged: "untagged s \<Longrightarrow> drop_tags s = s"
proof (induction s rule: drop_tags.induct)
  case (2 c cs)
  have "strip_prefix open_tag (c # cs) = None" "strip_prefix close_tag (c # cs) = None"
    using 2 by (auto simp: untagged_def starts_with_def simp del: strip_prefix.simps)
  moreover from this have "drop_tags cs = cs"
    using 2 by (auto dest: untagged_Cons simp del: strip_prefix.simps)
  ultimately show ?case
    by (simp del: strip_prefix.simps)
qed simp

lemma think_split_plain: "\<not> js_includes open_tag s \<Longrightarrow> think_split s = ([s], [])"
  by (subst think_split.simps) (simp add: cut_at_None [symmetric])

lemma think_split_tagged:
  "list_all (\<lambda>(a, t). \<not> js_includes open_tag a \<and> \<not> js_includes close_tag t) ps \<Longrightarrow>
     \<not> js_includes open_tag r \<Longrightarrow> think_split (tagged ps r) = (map fst ps @ [r], map snd ps)"
proof (induction ps)
  case Nil
  then show ?case by (simp add: think_split_plain)
next
  case (Cons at1 ps)
  obtain a t where at: "at1 = (a, t)" by fastforce
  have a: "\<not> js_includes open_tag a" and t: "\<not> js_includes close_tag t"
    using Cons.prems by (simp_all add: at)
  show ?case
    unfolding at tagged.simps
    by (subst think_split.simps)
      (use Cons in \<open>simp add: cut_at_first [OF headed_tags(1) a] cut_at_first [OF headed_tags(2) t] del: cut_at.simps\<close>)
qed

lemma tagged_includes: "ps \<noteq> [] \<Longrightarrow> js_includes open_tag (tagged ps r)"
  by (cases ps) auto

lemma tagged_append: "tagged ps (r @ q) = tagged ps r @ q"
  by (induction ps r rule: tagged.induct) simp_all

lemma untagged_parts:
  assumes "untagged (concat (map fst ps) @ r)"
  shows "list_all (\<lambda>(a, t). untagged a) ps" and "untagged r"
proof -
  show "untagged r" using untagged_append [OF assms] by blast
  show "list_all (\<lambda>(a, t). untagged a) ps"
    using untagged_append [OF assms, THEN conjunct1]
    by (induction ps) (auto dest: untagged_append)
qed

text \<open>The answer with its thoughts taken out.\<close>

definition thoughts_ok :: "(string \<times> string) list \<Rightarrow> string \<Rightarrow> bool" where
  "thoughts_ok ps r \<longleftrightarrow>
     untagged (concat (map fst ps) @ r) \<and> list_all (\<lambda>(a, t). \<not> js_includes close_tag t) ps"

lemma process_tagged:
  assumes "thoughts_ok ps r" and "ps \<noteq> []"
  shows "processThinkTags (JStr (tagged ps r)) reasoning =
    Inr (JStr (js_trim (concat (map fst ps) @ r)),
         add_thought reasoning (join thought_separator (map snd ps)))"
proof -
  have u: "untagged (concat (map fst ps) @ r)" and t: "list_all (\<lambda>(a, t). \<not> js_includes close_tag t) ps"
    using assms(1) by (simp_all add: thoughts_ok_def)
  have "list_all (\<lambda>(a, t). \<not> js_includes open_tag a \<and> \<not> js_includes close_tag t) ps"
    using untagged_parts(1) [OF u] t by (induction ps) (auto simp: untagged_def)
  moreover have "\<not> js_includes open_tag r" using untagged_parts(2) [OF u] by (simp add: untagged_def)
  ultimately have "think_split (tagged ps r) = (map fst ps @ [r], map snd ps)"
    by (rule think_split_tagged)
  moreover have "tagged ps r \<noteq> []" using assms(2) by (cases ps) (auto simp: open_tag_def)
  ultimately show ?thesis
    using tagged_includes [OF assms(2)] u
    by (simp add: processThinkTags_def drop_tags_untagged)
qed

text \<open>An answer that is stopped inside a thought.\<close>

lemma incomplete_tagged:
  assumes "thoughts_ok ps r" and "untagged u"
  shows "processIncompleteThinkTags (JStr (tagged ps r @ open_tag @ u)) reasoning =
    processThinkTags (JStr (tagged ps r))
      (if js_trim u \<noteq> [] then add_thought reasoning (js_trim u) else reasoning)"
proof -
  have "cut_last open_tag (tagged ps r @ open_tag @ u) = Some (tagged ps r, u)"
    using assms(2) by (intro cut_last_last headed_tags) (simp add: untagged_def)
  moreover have "\<not> js_includes close_tag (open_tag @ u)"
    using assms(2) by (simp add: untagged_def open_tag_def close_tag_def)
  moreover have "open_tag \<noteq> []" by (simp add: open_tag_def)
  ultimately show ?thesis
    by (simp add: processIncompleteThinkTags_def)
qed

lemma process_plain: "\<not> js_includes open_tag s \<Longrightarrow> processThinkTags (JStr s) reasoning = Inr (JStr s, reasoning)"
  by (simp add: processThinkTags_def)

text \<open>An answer without an opening tag is kept as it is.\<close>

lemma incomplete_plain:
  "\<not> js_includes open_tag s \<Longrightarrow> processIncompleteThinkTags (JStr s) reasoning = Inr (JStr s, reasoning)"
  using cut_at_None [of "rev open_tag" "rev s"]
  by (simp add: processIncompleteThinkTags_def process_plain cut_last_def includes_rev)

end
