(* ===== verification/PlaygroundMessages.thy ===== *)
theory PlaygroundMessages
  imports ThinkTags JsonPretty
begin

text \<open>
  Messages, request bodies and stored data of the chat playground: the message functions of
  \<open>web/src/helpers/utils.jsx\<close>, \<open>buildApiPayload\<close> and \<open>handleApiError\<close> of
  \<open>web/src/helpers/api.js\<close>, and \<open>web/src/components/playground/configStorage.js\<close>.  A message
  is an object, the list of its properties.  Texts in Chinese, the text of a time and what a
  JavaScript engine writes into an error are fields of a record that the definitions take.
\<close>

type_synonym obj = "(string \<times> jsval) list"

type_synonym msg = obj

definition field :: "obj \<Rightarrow> string \<Rightarrow> jsval" where
  "field m k = value_get (JObj m) k"

lemma field_put [simp]: "field (obj_put k v m) j = (if j = k then v else field m j)"
  by (simp add: field_def value_get_def)

lemma field_spread_Cons [simp]: "field (obj_spread m ((k, v) # kvs)) j = field (obj_spread (obj_put k v m) kvs) j"
  by (simp add: obj_spread_def)

lemma field_spread_Nil [simp]: "field (obj_spread m []) j = field m j"
  by (simp add: obj_spread_def)

text \<open>\<open>a && b\<close> and \<open>a + b\<close> on values.\<close>

definition js_and :: "jsval \<Rightarrow> jsval \<Rightarrow> jsval" where
  "js_and a b = (if truthy a then b else a)"

definition concatenates :: "jsval \<Rightarrow> bool" where
  "concatenates v \<longleftrightarrow> (case v of JStr _ \<Rightarrow> True | JArr _ \<Rightarrow> True | JObj _ \<Rightarrow> True | _ \<Rightarrow> False)"

definition js_plus :: "jsval \<Rightarrow> jsval \<Rightarrow> jsval" where
  "js_plus a b =
     (if concatenates a \<or> concatenates b then JStr (text_of_value a @ text_of_value b)
      else JNum (js_add (number_of_value a) (number_of_value b)))"

lemma js_plus_text [simp]: "js_plus (JStr a) (JStr b) = JStr (a @ b)"
  by (simp add: js_plus_def concatenates_def)

record pg_env =
  iso_time :: "int \<Rightarrow> string"
  stack_of :: "string \<Rightarrow> jsval"
  parse_message :: "string \<Rightarrow> string"
  type_message :: string
  tx_request_error :: string
  tx_request_error_colon :: string
  tx_parse_failed :: string
  tx_parse_error :: string
  tx_http_status :: string
  tx_disconnected :: string
  tx_start_failed :: string
  tx_connect_failed :: string
  tx_unreadable :: string
  tx_unknown :: string
  tx_server_error :: string
  tx_network_error :: string
  tx_sample_message :: string
  tx_default_user :: string
  tx_default_assistant :: string
  tx_old_user :: string
  tx_old_replies :: "string list"
  tx_bad_config :: string
  tx_config_parse :: string

section \<open>Messages\<close>

definition getDefaultMessages :: "pg_env \<Rightarrow> msg list" where
  "getDefaultMessages e =
     [[(''role'', JStr ''user''), (''id'', JStr ''2''), (''createAt'', JNum (Fin 1715676751919)),
       (''content'', JStr (tx_default_user e))],
      [(''role'', JStr ''assistant''), (''id'', JStr ''3''), (''createAt'', JNum (Fin 1715676751919)),
       (''content'', JStr (tx_default_assistant e)), (''reasoningContent'', JStr []),
       (''isReasoningExpanded'', JBool False)]]"

text \<open>The elements of a content array are objects.\<close>

definition is_part :: "string \<Rightarrow> jsval \<Rightarrow> bool" where
  "is_part ty item \<longleftrightarrow> value_get item ''type'' = JStr ty"

definition getTextContent :: "msg \<Rightarrow> jsval" where
  "getTextContent m =
     (case field m ''content'' of
        JArr vs \<Rightarrow>
          (case List.find (is_part ''text'') vs of
             Some item \<Rightarrow> js_or (value_get item ''text'') (JStr [])
           | None \<Rightarrow> JStr [])
      | JStr s \<Rightarrow> JStr s
      | _ \<Rightarrow> JStr [])"

definition image_part :: "string \<Rightarrow> jsval" where
  "image_part url = JObj [(''type'', JStr ''image_url''), (''image_url'', JObj [(''url'', JStr (js_trim url))])]"

definition buildMessageContent :: "jsval \<Rightarrow> string list \<Rightarrow> jsval \<Rightarrow> jsval" where
  "buildMessageContent textContent imageUrls imageEnabled =
     (if \<not> truthy textContent \<and> imageUrls = [] then JStr []
      else let validImageUrls = filter (\<lambda>url. url \<noteq> [] \<and> js_trim url \<noteq> []) imageUrls
           in if truthy imageEnabled \<and> validImageUrls \<noteq> []
              then JArr (JObj [(''type'', JStr ''text''), (''text'', js_or textContent (JStr []))]
                         # map image_part validImageUrls)
              else js_or textContent (JStr []))"

text \<open>A new message, with the time and the id it gets.\<close>

definition createMessage :: "int \<Rightarrow> int \<Rightarrow> string \<Rightarrow> jsval \<Rightarrow> obj \<Rightarrow> msg" where
  "createMessage now i role content options =
     obj_spread [(''role'', JStr role), (''content'', content), (''createAt'', JNum (Fin (of_int now))),
       (''id'', JStr (show_int i))] options"

definition createLoadingAssistantMessage :: "int \<Rightarrow> int \<Rightarrow> msg" where
  "createLoadingAssistantMessage now i =
     createMessage now i ''assistant'' (JStr [])
       [(''reasoningContent'', JStr []), (''isReasoningExpanded'', JBool True),
        (''isThinkingComplete'', JBool False), (''hasAutoCollapsed'', JBool False),
        (''status'', JStr ''loading'')]"

definition hasImageContent :: "msg \<Rightarrow> bool" where
  "hasImageContent m =
     (case field m ''content'' of JArr vs \<Rightarrow> list_ex (is_part ''image_url'') vs | _ \<Rightarrow> False)"

definition formatMessageForAPI :: "msg \<Rightarrow> obj" where
  "formatMessageForAPI m = [(''role'', field m ''role''), (''content'', field m ''content'')]"

definition isValidMessage :: "msg \<Rightarrow> bool" where
  "isValidMessage m \<longleftrightarrow>
     truthy (field m ''role'') \<and> (truthy (field m ''content'') \<or> field m ''content'' = JStr [])"

definition last_with_role :: "string \<Rightarrow> msg list \<Rightarrow> msg option" where
  "last_with_role r ms = List.find (\<lambda>m. field m ''role'' = JStr r) (rev ms)"

definition getLastUserMessage :: "msg list \<Rightarrow> msg option" where
  "getLastUserMessage ms = last_with_role ''user'' ms"

definition getLastAssistantMessage :: "msg list \<Rightarrow> msg option" where
  "getLastAssistantMessage ms = last_with_role ''assistant'' ms"

section \<open>The request\<close>

definition parameter_names :: "string list" where
  "parameter_names =
     [''temperature'', ''top_p'', ''max_tokens'', ''frequency_penalty'', ''presence_penalty'', ''seed'']"

definition add_parameter :: "obj \<Rightarrow> obj \<Rightarrow> string \<Rightarrow> obj \<Rightarrow> obj" where
  "add_parameter inputs parameterEnabled k payload =
     (if truthy (field parameterEnabled k) \<and> \<not> is_nullish (field inputs k)
      then obj_put k (field inputs k) payload else payload)"

definition request_messages :: "msg list \<Rightarrow> jsval \<Rightarrow> obj list" where
  "request_messages messages systemPrompt =
     (let processed = map formatMessageForAPI (filter isValidMessage messages)
      in case systemPrompt of
           JStr p \<Rightarrow> if js_trim p \<noteq> [] then [(''role'', JStr ''system''), (''content'', JStr (js_trim p))] # processed
                     else processed
         | _ \<Rightarrow> processed)"

definition buildApiPayload :: "msg list \<Rightarrow> jsval \<Rightarrow> obj \<Rightarrow> obj \<Rightarrow> obj" where
  "buildApiPayload messages systemPrompt inputs parameterEnabled =
     fold (add_parameter inputs parameterEnabled) parameter_names
       [(''model'', field inputs ''model''), (''group'', field inputs ''group''),
        (''messages'', JArr (map JObj (request_messages messages systemPrompt))),
        (''stream'', field inputs ''stream'')]"

text \<open>\<open>handleApiError\<close>: the error has a message, the response a status and its text.\<close>

definition handleApiError :: "pg_env \<Rightarrow> int \<Rightarrow> string \<Rightarrow> (jsval \<times> jsval) option \<Rightarrow> obj" where
  "handleApiError e now message response =
     (let info = [(''error'', JStr (if message \<noteq> [] then message else tx_unknown e)),
                  (''timestamp'', JStr (iso_time e now)), (''stack'', stack_of e message)];
          info = (case response of
                    None \<Rightarrow> info
                  | Some (status, statusText) \<Rightarrow> obj_spread info [(''status'', status), (''statusText'', statusText)])
      in if js_includes ''HTTP error'' message then obj_put ''details'' (JStr (tx_server_error e)) info
         else if js_includes ''Failed to fetch'' message then obj_put ''details'' (JStr (tx_network_error e)) info
         else info)"

text \<open>\<open>processModelsData\<close>: the options and the model that is selected.\<close>

definition processModelsData :: "jsval list \<Rightarrow> jsval \<Rightarrow> (jsval \<times> jsval) list \<times> jsval" where
  "processModelsData data currentModel =
     (map (\<lambda>model. (model, model)) data,
      if currentModel \<in> set data then currentModel
      else (case data of [] \<Rightarrow> JUndef | model # _ \<Rightarrow> model))"

section \<open>Stored configuration and messages\<close>

definition CONFIG_KEY :: string where "CONFIG_KEY = ''playground_config''"

definition MESSAGES_STORAGE_KEY :: string where "MESSAGES_STORAGE_KEY = ''playground_messages''"

definition default_inputs :: obj where
  "default_inputs =
     [(''model'', JStr ''gpt-4o''), (''group'', JStr []), (''temperature'', JNum (fl (7 / 10))),
      (''top_p'', JNum (Fin 1)), (''max_tokens'', JNum (Fin 4096)), (''frequency_penalty'', JNum (Fin 0)),
      (''presence_penalty'', JNum (Fin 0)), (''seed'', JNull), (''stream'', JBool True),
      (''imageEnabled'', JBool False), (''imageUrls'', JArr [JStr []])]"

definition default_enabled :: obj where
  "default_enabled =
     [(''temperature'', JBool True), (''top_p'', JBool True), (''max_tokens'', JBool False),
      (''frequency_penalty'', JBool True), (''presence_penalty'', JBool True), (''seed'', JBool False)]"

text \<open>The part of the configuration that is state of the page.\<close>

record pg_settings =
  pg_inputs :: obj
  pg_enabled :: obj
  pg_showDebug :: jsval
  pg_customMode :: jsval
  pg_customBody :: jsval

definition DEFAULT_CONFIG :: pg_settings where
  "DEFAULT_CONFIG =
     \<lparr>pg_inputs = default_inputs, pg_enabled = default_enabled, pg_showDebug = JBool False,
      pg_customMode = JBool False, pg_customBody = JStr []\<rparr>"

definition config_object :: "pg_settings \<Rightarrow> obj" where
  "config_object c =
     [(''inputs'', JObj (pg_inputs c)), (''parameterEnabled'', JObj (pg_enabled c)),
      (''showDebugPanel'', pg_showDebug c), (''customRequestMode'', pg_customMode c),
      (''customRequestBody'', pg_customBody c)]"

definition saveConfig :: "pg_env \<Rightarrow> int \<Rightarrow> pg_settings \<Rightarrow> storage \<Rightarrow> storage" where
  "saveConfig e now config st =
     setItem CONFIG_KEY
       (json_text (JObj (obj_put ''timestamp'' (JStr (iso_time e now)) (config_object config)))) st"

definition saveMessages :: "pg_env \<Rightarrow> int \<Rightarrow> jsval \<Rightarrow> storage \<Rightarrow> storage" where
  "saveMessages e now messages st =
     setItem MESSAGES_STORAGE_KEY
       (json_text (JObj [(''messages'', messages), (''timestamp'', JStr (iso_time e now))])) st"

text \<open>A stored text, parsed; nothing when there is none, when it is broken, or when it is
  \<open>null\<close> (whose properties cannot be read).\<close>

definition stored_value :: "string \<Rightarrow> storage \<Rightarrow> jsval option" where
  "stored_value k st =
     (case getItem st k of
        None \<Rightarrow> None
      | Some raw \<Rightarrow>
          if raw = [] then None
          else (case json_parse raw of Inl _ \<Rightarrow> None | Inr v \<Rightarrow> if v = JNull then None else Some v))"

definition loadConfig :: "storage \<Rightarrow> pg_settings" where
  "loadConfig st =
     (case stored_value CONFIG_KEY st of
        None \<Rightarrow> DEFAULT_CONFIG
      | Some parsed \<Rightarrow>
          \<lparr>pg_inputs = obj_spread default_inputs (own_entries (value_get parsed ''inputs'')),
           pg_enabled = obj_spread default_enabled (own_entries (value_get parsed ''parameterEnabled'')),
           pg_showDebug = js_or (value_get parsed ''showDebugPanel'') (JBool False),
           pg_customMode = js_or (value_get parsed ''customRequestMode'') (JBool False),
           pg_customBody = js_or (value_get parsed ''customRequestBody'') (JStr [])\<rparr>)"

definition loadMessages :: "storage \<Rightarrow> jsval" where
  "loadMessages st =
     (case stored_value MESSAGES_STORAGE_KEY st of
        None \<Rightarrow> JNull
      | Some parsed \<Rightarrow> js_or (value_get parsed ''messages'') JNull)"

definition clearConfig :: "storage \<Rightarrow> storage" where
  "clearConfig st = removeItem MESSAGES_STORAGE_KEY (removeItem CONFIG_KEY st)"

definition clearMessages :: "storage \<Rightarrow> storage" where
  "clearMessages st = removeItem MESSAGES_STORAGE_KEY st"

definition hasStoredConfig :: "storage \<Rightarrow> bool" where
  "hasStoredConfig st \<longleftrightarrow> getItem st CONFIG_KEY \<noteq> None"

definition getConfigTimestamp :: "storage \<Rightarrow> jsval" where
  "getConfigTimestamp st =
     (case stored_value CONFIG_KEY st of
        None \<Rightarrow> JNull
      | Some parsed \<Rightarrow> js_or (value_get parsed ''timestamp'') JNull)"

text \<open>The name and the text of the file that an export downloads.\<close>

definition exportConfig :: "pg_env \<Rightarrow> int \<Rightarrow> pg_settings \<Rightarrow> jsval \<Rightarrow> storage \<Rightarrow> string \<times> string" where
  "exportConfig e now config messages st =
     (''playground-config-'' @ takeWhile (\<lambda>c. c \<noteq> CHR ''T'') (iso_time e now) @ ''.json'',
      json_pretty [] (JObj (obj_spread (config_object config)
        [(''messages'', js_or messages (loadMessages st)), (''exportTime'', JStr (iso_time e now)),
         (''version'', JStr ''1.0'')])))"

definition is_array :: "jsval \<Rightarrow> bool" where
  "is_array v \<longleftrightarrow> (case v of JArr _ \<Rightarrow> True | _ \<Rightarrow> False)"

text \<open>\<open>importConfig\<close> of the text of a file: the configuration or the message of the error, and
  the storage after it.\<close>

definition importConfig :: "pg_env \<Rightarrow> int \<Rightarrow> string \<Rightarrow> storage \<Rightarrow> (string + jsval) \<times> storage" where
  "importConfig e now s st =
     (case json_parse s of
        Inl _ \<Rightarrow> (Inl (tx_config_parse e @ parse_message e s), st)
      | Inr v \<Rightarrow>
          if v = JNull then (Inl (tx_config_parse e @ type_message e), st)
          else if truthy (value_get v ''inputs'') \<and> truthy (value_get v ''parameterEnabled'')
          then (Inr v, if is_array (value_get v ''messages'')
                       then saveMessages e now (value_get v ''messages'') st else st)
          else (Inl (tx_bad_config e), st))"

text \<open>A list of messages, where a value is one.  A stored list that holds anything but objects
  is outside the model.\<close>

definition object_of :: "jsval \<Rightarrow> obj option" where
  "object_of v = (case v of JObj m \<Rightarrow> Some m | _ \<Rightarrow> None)"

definition messages_of :: "jsval \<Rightarrow> msg list option" where
  "messages_of v =
     (case v of
        JArr vs \<Rightarrow> if list_all (\<lambda>w. object_of w \<noteq> None) vs then Some (List.map_filter object_of vs) else None
      | _ \<Rightarrow> None)"

definition value_of_messages :: "msg list \<Rightarrow> jsval" where
  "value_of_messages ms = JArr (map JObj ms)"

lemma messages_of_value [simp]: "messages_of (value_of_messages ms) = Some ms"
proof -
  have "List.map_filter object_of (map JObj ms) = ms"
    by (induction ms) (simp_all add: object_of_def map_filter_simps)
  then show ?thesis
    by (simp add: messages_of_def value_of_messages_def list_all_iff object_of_def)
qed

end
