(* ===== verification/Playground.thy ===== *)
theory Playground
  imports PlaygroundMessages
begin

text \<open>
  The state of the chat playground and how an answer arrives
  (\<open>web/src/hooks/playground/useApiRequest.jsx\<close>, \<open>usePlaygroundState.js\<close>): the messages, the
  event streams and pending requests, the debug panel, and what is written to the storage.  An
  update of the messages that throws takes the page down; it is \<open>None\<close> here.  Timers are
  pending tasks that run later, in any order.
\<close>

section \<open>The state\<close>

record sse_stream =
  ss_data :: string
  ss_first :: bool
  ss_done :: bool
  ss_closed :: bool

text \<open>What waits for a timer: messages to save, a text to send with the settings of the
  moment, the end of the image mode, the request of an edited conversation, the default
  messages, the configuration.\<close>

datatype (plugins only: code) pg_task =
    SaveTask "msg list"
  | SendTask jsval pg_settings
  | ImageOffTask
  | RegenerateTask "msg list" pg_settings
  | DefaultsTask
  | DebounceTask pg_settings

datatype (plugins only: code) pg_dialog =
    DeleteDialog msg
  | EditDialog "msg list" "msg list" pg_settings
  | ImportDialog jsval

datatype pg_toast = MessageDeleted | MessageAndReplyDeleted | MessageUpdated | RoleChanged string | BodyNotJson
  | ImportFailed string | Imported | ConfigReset bool

record playground =
  pg_settings :: pg_settings
  pg_messages :: "msg list"
  pg_initial :: "msg list option"
  pg_nextId :: int
  pg_debug :: obj
  pg_tab :: string
  pg_streams :: "sse_stream list"
  pg_source :: "nat option"
  pg_calls :: "bool list"
  pg_sent :: "jsval list"
  pg_tasks :: "pg_task list"
  pg_saveTimer :: "pg_settings option"
  pg_editingId :: jsval
  pg_editRef :: "msg option"
  pg_editValue :: jsval
  pg_dialogs :: "pg_dialog list"
  pg_toasts :: "pg_toast list"
  pg_messageHash :: string
  pg_bodyHash :: string
  pg_rendered :: "(pg_settings \<times> msg list) option"
  pg_preview :: jsval
  pg_storage :: storage

definition later :: "pg_task \<Rightarrow> playground \<Rightarrow> playground" where
  "later task s = s\<lparr>pg_tasks := pg_tasks s @ [task]\<rparr>"

definition toast :: "pg_toast \<Rightarrow> playground \<Rightarrow> playground" where
  "toast n s = s\<lparr>pg_toasts := pg_toasts s @ [n]\<rparr>"

definition set_debug :: "obj \<Rightarrow> playground \<Rightarrow> playground" where
  "set_debug kvs s = s\<lparr>pg_debug := obj_spread (pg_debug s) kvs\<rparr>"

text \<open>\<open>[...(prev.sseMessages || []), data]\<close>\<close>

definition log_sse :: "string \<Rightarrow> playground \<Rightarrow> playground" where
  "log_sse data s =
     set_debug [(''sseMessages'',
       JArr ((case field (pg_debug s) ''sseMessages'' of JArr vs \<Rightarrow> vs | _ \<Rightarrow> []) @ [JStr data]))] s"

section \<open>Updates of the last message\<close>

text \<open>An argument that is \<open>undefined\<close> takes the default of the parameter.\<close>

definition applyAutoCollapseLogic :: "msg \<Rightarrow> jsval \<Rightarrow> obj" where
  "applyAutoCollapseLogic m argument =
     (let isThinkingComplete = (if argument = JUndef then JBool True else argument);
          shouldAutoCollapse = js_and isThinkingComplete (JBool (\<not> truthy (field m ''hasAutoCollapsed'')))
      in [(''isThinkingComplete'', isThinkingComplete),
          (''hasAutoCollapsed'', js_or shouldAutoCollapse (field m ''hasAutoCollapsed'')),
          (''isReasoningExpanded'', if truthy shouldAutoCollapse then JBool False
             else field m ''isReasoningExpanded'')])"

datatype chunk_kind = Reasoning | Content

definition has_status :: "msg \<Rightarrow> string \<Rightarrow> bool" where
  "has_status m st \<longleftrightarrow> field m ''status'' = JStr st"

definition generating :: "msg \<Rightarrow> bool" where
  "generating m \<longleftrightarrow> has_status m ''loading'' \<or> has_status m ''incomplete''"

text \<open>\<open>match(/<think>/g)\<close> counts the places where the tag stands; a tag does not overlap
  itself.\<close>

fun occurrences :: "string \<Rightarrow> string \<Rightarrow> nat" where
  "occurrences pat [] = 0"
| "occurrences pat (c # cs) = (if starts_with pat (c # cs) then 1 else 0) + occurrences pat cs"

definition tags_closed :: "string \<Rightarrow> bool" where
  "tags_closed s \<longleftrightarrow>
     js_includes close_tag s \<and> 0 < occurrences open_tag s
     \<and> occurrences open_tag s \<le> occurrences close_tag s"

definition content_update :: "jsval \<Rightarrow> msg \<Rightarrow> msg option" where
  "content_update textChunk m =
     (let newContent = js_plus (js_or (field m ''content'') (JStr [])) textChunk;
          expanded = truthy (field m ''isReasoningExpanded'')
      in if expanded \<and> \<not> concatenates newContent then None
         else
           let closed = expanded \<and> (case newContent of JStr c \<Rightarrow> tags_closed c | _ \<Rightarrow> False);
               thinkingCompleteFromTags = (if closed then JBool True else field m ''isThinkingComplete'');
               isThinkingComplete =
                 js_or (js_and (field m ''reasoningContent'')
                          (JBool (\<not> truthy (field m ''isThinkingComplete''))))
                       thinkingCompleteFromTags
           in Some (obj_spread m
                ([(''content'', newContent), (''status'', JStr ''incomplete'')]
                 @ applyAutoCollapseLogic m isThinkingComplete)))"

definition reasoning_update :: "jsval \<Rightarrow> msg \<Rightarrow> msg" where
  "reasoning_update textChunk m =
     obj_spread m
       [(''reasoningContent'', js_plus (js_or (field m ''reasoningContent'') (JStr [])) textChunk),
        (''status'', JStr ''incomplete''), (''isThinkingComplete'', JBool False)]"

definition streamMessageUpdate :: "jsval \<Rightarrow> chunk_kind \<Rightarrow> msg list \<Rightarrow> msg list option" where
  "streamMessageUpdate textChunk kind prev =
     (if prev = [] then Some prev
      else
        let lastMessage = last prev
        in if field lastMessage ''role'' \<noteq> JStr ''assistant'' \<or> \<not> generating lastMessage then Some prev
           else map_option (\<lambda>m. butlast prev @ [m])
                  (case kind of
                     Reasoning \<Rightarrow> Some (reasoning_update textChunk lastMessage)
                   | Content \<Rightarrow> content_update textChunk lastMessage))"

text \<open>\<open>completeMessage\<close>: the messages after it and, when they are saved, the task that does it.
  Without a last message it reads the status of \<open>undefined\<close>.\<close>

definition completed :: "string \<Rightarrow> msg \<Rightarrow> msg" where
  "completed status m =
     obj_spread m ((''status'', JStr status) # applyAutoCollapseLogic m (JBool True))"

definition completeMessage :: "string \<Rightarrow> playground \<Rightarrow> playground option" where
  "completeMessage status s =
     (let prev = pg_messages s
      in if prev = [] then None
         else if has_status (last prev) ''complete'' \<or> has_status (last prev) ''error'' then Some s
         else
           let updated = butlast prev @ [completed status (last prev)]
           in Some ((if status = ''complete'' \<or> status = ''error'' then later (SaveTask updated) else id)
                      (s\<lparr>pg_messages := updated\<rparr>)))"

definition stream_text :: "jsval \<Rightarrow> chunk_kind \<Rightarrow> playground \<Rightarrow> playground option" where
  "stream_text textChunk kind s =
     map_option (\<lambda>ms. s\<lparr>pg_messages := ms\<rparr>) (streamMessageUpdate textChunk kind (pg_messages s))"

text \<open>The answer is replaced by a text and marked as failed.\<close>

definition fail_stream :: "string \<Rightarrow> playground \<Rightarrow> playground option" where
  "fail_stream t s = Option.bind (stream_text (JStr t) Content s) (completeMessage ''error'')"

section \<open>Streams\<close>

text \<open>\<open>handleSSE\<close> up to the start of the stream.\<close>

definition open_stream :: "pg_env \<Rightarrow> int \<Rightarrow> jsval \<Rightarrow> playground \<Rightarrow> playground" where
  "open_stream e now payload s =
     (let s = set_debug [(''request'', payload), (''timestamp'', JStr (iso_time e now)), (''response'', JNull),
                         (''sseMessages'', JArr []), (''isStreaming'', JBool True)] s
      in s\<lparr>pg_tab := ''request'',
           pg_streams := pg_streams s @ [\<lparr>ss_data = [], ss_first = False, ss_done = False, ss_closed = False\<rparr>],
           pg_source := Some (length (pg_streams s)), pg_sent := pg_sent s @ [payload]\<rparr>)"

text \<open>\<open>source.stream()\<close> threw.\<close>

definition stream_not_started :: "pg_env \<Rightarrow> int \<Rightarrow> string \<Rightarrow> playground \<Rightarrow> playground option" where
  "stream_not_started e now message s =
     (let info = JObj (handleApiError e now message None);
          s = set_debug [(''response'', JStr (tx_start_failed e @ json_pretty [] info))] s
      in fail_stream (tx_connect_failed e) (s\<lparr>pg_tab := ''response''\<rparr>))"

definition at_stream :: "nat \<Rightarrow> (sse_stream \<Rightarrow> sse_stream) \<Rightarrow> playground \<Rightarrow> playground" where
  "at_stream n f s = s\<lparr>pg_streams := (pg_streams s)[n := f (pg_streams s ! n)]\<rparr>"

abbreviation stream_at :: "nat \<Rightarrow> playground \<Rightarrow> sse_stream" where
  "stream_at n s \<equiv> pg_streams s ! n"

definition close_source :: "sse_stream \<Rightarrow> sse_stream" where
  "close_source x = x\<lparr>ss_closed := True\<rparr>"

text \<open>The pieces of one delta, in the order of the code.\<close>

definition delta_chunks :: "jsval \<Rightarrow> (jsval \<times> chunk_kind) list" where
  "delta_chunks delta =
     filter (\<lambda>(v, _). truthy v)
       [(value_get delta ''reasoning_content'', Reasoning), (value_get delta ''reasoning'', Reasoning),
        (value_get delta ''content'', Content)]"

fun stream_chunks :: "(jsval \<times> chunk_kind) list \<Rightarrow> playground \<Rightarrow> playground option" where
  "stream_chunks [] s = Some s"
| "stream_chunks ((v, k) # vks) s = Option.bind (stream_text v k s) (stream_chunks vks)"

definition stream_done :: "nat \<Rightarrow> playground \<Rightarrow> playground option" where
  "stream_done n s =
     (let s = at_stream n (\<lambda>x. (close_source x)\<lparr>ss_done := True\<rparr>) s;
          s = set_debug [(''response'', JStr (ss_data (stream_at n s)))] (s\<lparr>pg_source := None\<rparr>);
          s = set_debug [(''isStreaming'', JBool False)] (log_sse ''[DONE]'' s)
      in completeMessage ''complete'' s)"

definition stream_parse_error :: "pg_env \<Rightarrow> nat \<Rightarrow> string \<Rightarrow> string \<Rightarrow> playground \<Rightarrow> playground option" where
  "stream_parse_error e n data message s =
     (let s = set_debug [(''response'', JStr (ss_data (stream_at n s) @ [CHR 0x0A, CHR 0x0A] @ ''Error: ''
                            @ tx_parse_error e @ message))] s;
          s = set_debug [(''isStreaming'', JBool False)] (log_sse data s)
      in fail_stream (tx_parse_failed e) (s\<lparr>pg_tab := ''response''\<rparr>))"

text \<open>The \<open>message\<close> event of a stream.\<close>

definition sse_message :: "pg_env \<Rightarrow> nat \<Rightarrow> string \<Rightarrow> playground \<Rightarrow> playground option" where
  "sse_message e n data s =
     (if data = ''[DONE]'' then stream_done n s
      else case json_parse data of
        Inl _ \<Rightarrow> stream_parse_error e n data (parse_message e data) s
      | Inr payload \<Rightarrow>
          let first = ss_first (stream_at n s);
              s = at_stream n (\<lambda>x. x\<lparr>ss_data := ss_data x @ data @ [CHR 0x0A], ss_first := True\<rparr>) s;
              s = log_sse data (if first then s else s\<lparr>pg_tab := ''response''\<rparr>)
          in if payload = JNull then stream_parse_error e n data (type_message e) s
             else stream_chunks (delta_chunks (value_get (value_get (value_get payload ''choices'') ''0'') ''delta'')) s)"

text \<open>The \<open>error\<close> event, with its data and the state of the connection.\<close>

definition sse_error :: "pg_env \<Rightarrow> int \<Rightarrow> nat \<Rightarrow> jsval \<Rightarrow> int \<Rightarrow> playground \<Rightarrow> playground option" where
  "sse_error e now n data readyState s =
     (if ss_done (stream_at n s) \<or> readyState = 2 then Some s
      else
        let errorMessage = js_or data (JStr (tx_request_error e));
            info = obj_put ''readyState'' (JNum (Fin (of_int readyState)))
                     (handleApiError e now (text_of_value errorMessage) None);
            s = set_debug [(''response'', JStr (ss_data (stream_at n s) @ [CHR 0x0A, CHR 0x0A] @ ''SSE Error:''
                              @ [CHR 0x0A] @ json_pretty [] (JObj info)))] s
        in map_option (\<lambda>s. at_stream n close_source (s\<lparr>pg_source := None\<rparr>))
             (Option.bind (stream_text errorMessage Content (s\<lparr>pg_tab := ''response''\<rparr>))
                (completeMessage ''error'')))"

text \<open>The \<open>readystatechange\<close> event, with the state it reports and the HTTP status of the
  source (\<open>undefined\<close> before there is one).\<close>

definition sse_state :: "pg_env \<Rightarrow> int \<Rightarrow> nat \<Rightarrow> int \<Rightarrow> jsval \<Rightarrow> playground \<Rightarrow> playground option" where
  "sse_state e now n readyState status s =
     (if 2 \<le> readyState \<and> status \<noteq> JUndef \<and> status \<noteq> JNum (Fin 200) \<and> \<not> ss_done (stream_at n s)
      then
        let info = obj_spread (handleApiError e now (tx_http_status e) None)
                     [(''status'', status), (''readyState'', JNum (Fin (of_int readyState)))];
            s = set_debug [(''response'', JStr (ss_data (stream_at n s) @ [CHR 0x0A, CHR 0x0A] @ ''HTTP Error:''
                              @ [CHR 0x0A] @ json_pretty [] (JObj info)))] s
        in fail_stream (tx_disconnected e) (at_stream n close_source (s\<lparr>pg_tab := ''response''\<rparr>))
      else Some s)"

section \<open>Requests without a stream\<close>

definition open_call :: "pg_env \<Rightarrow> int \<Rightarrow> jsval \<Rightarrow> playground \<Rightarrow> playground" where
  "open_call e now payload s =
     (let s = set_debug [(''request'', payload), (''timestamp'', JStr (iso_time e now)), (''response'', JNull),
                         (''sseMessages'', JNull), (''isStreaming'', JBool False)] s
      in s\<lparr>pg_tab := ''request'', pg_calls := pg_calls s @ [True], pg_sent := pg_sent s @ [payload]\<rparr>)"

text \<open>How a call ends: it fails with a message, it has a status other than success (with the
  text of its body, if it can be read), or it has a value.\<close>

datatype (plugins only: code) pg_reply =
    ReplyFails string
  | ReplyBad int string "string option"
  | ReplyData jsval

definition show_response :: "jsval \<Rightarrow> playground \<Rightarrow> playground" where
  "show_response v s = (set_debug [(''response'', JStr (json_pretty [] v))] s)\<lparr>pg_tab := ''response''\<rparr>"

definition on_loading :: "(msg \<Rightarrow> msg) \<Rightarrow> playground \<Rightarrow> playground" where
  "on_loading f s =
     (if pg_messages s \<noteq> [] \<and> has_status (last (pg_messages s)) ''loading''
      then s\<lparr>pg_messages := butlast (pg_messages s) @ [f (last (pg_messages s))]\<rparr> else s)"

definition answered :: "jsval \<Rightarrow> jsval \<Rightarrow> msg \<Rightarrow> msg" where
  "answered content reasoning m =
     obj_spread m ([(''content'', content), (''reasoningContent'', reasoning), (''status'', JStr ''complete'')]
       @ applyAutoCollapseLogic m (JBool True))"

definition call_failed :: "pg_env \<Rightarrow> int \<Rightarrow> string \<Rightarrow> playground \<Rightarrow> playground" where
  "call_failed e now message s =
     on_loading
       (\<lambda>m. obj_spread m ([(''content'', JStr (tx_request_error_colon e @ message)), (''status'', JStr ''error'')]
          @ applyAutoCollapseLogic m (JBool True)))
       (show_response (JObj (handleApiError e now message None)) s)"

definition call_reply :: "pg_env \<Rightarrow> int \<Rightarrow> pg_reply \<Rightarrow> playground \<Rightarrow> playground" where
  "call_reply e now reply s =
     (case reply of
        ReplyFails message \<Rightarrow> call_failed e now message s
      | ReplyBad status statusText body \<Rightarrow>
          let message = ''HTTP error! status: '' @ text_of_value (JNum (Fin (of_int status))) @ '', body: ''
                          @ (case body of Some b \<Rightarrow> b | None \<Rightarrow> tx_unreadable e)
          in call_failed e now message
               (show_response (JObj (handleApiError e now message
                  (Some (JNum (Fin (of_int status)), JStr statusText)))) s)
      | ReplyData data \<Rightarrow>
          let s = show_response data s;
              choice = value_get (value_get data ''choices'') ''0''
          in if data = JNull then call_failed e now (type_message e) s
             else if \<not> truthy choice then s
             else
               let answer = value_get choice ''message'';
                   content = js_or (value_get answer ''content'') (JStr []);
                   reasoning = js_or (js_or (value_get answer ''reasoning_content'') (value_get answer ''reasoning''))
                                 (JStr [])
               in (case processThinkTags content reasoning of
                     Inl _ \<Rightarrow> call_failed e now (type_message e) s
                   | Inr (content', reasoning') \<Rightarrow> on_loading (answered content' reasoning') s))"

text \<open>\<open>sendRequest\<close>.  \<open>starts\<close> is the message of the exception when the stream cannot be started;
  the messages are in place when that is reported.\<close>

definition sendRequest :: "pg_env \<Rightarrow> int \<Rightarrow> string option \<Rightarrow> jsval \<Rightarrow> bool \<Rightarrow> playground \<Rightarrow> playground option" where
  "sendRequest e now starts payload isStream s =
     (if isStream
      then (case starts of
              None \<Rightarrow> Some (open_stream e now payload s)
            | Some message \<Rightarrow> stream_not_started e now message (open_stream e now payload s))
      else Some (open_call e now payload s))"

section \<open>Stopping\<close>

definition stopped :: "jsval \<Rightarrow> jsval \<Rightarrow> msg \<Rightarrow> msg" where
  "stopped content reasoning m =
     obj_spread m ([(''status'', JStr ''complete''), (''reasoningContent'', js_or reasoning JNull),
                    (''content'', content)] @ applyAutoCollapseLogic m (JBool True))"

definition text_or_blank :: "msg \<Rightarrow> string \<Rightarrow> jsval" where
  "text_or_blank m k = js_or (field m k) (JStr [])"

definition onStopGenerator :: "playground \<Rightarrow> playground option" where
  "onStopGenerator s =
     (let s = (case pg_source s of
                 None \<Rightarrow> s
               | Some n \<Rightarrow> (at_stream n close_source s)\<lparr>pg_source := None\<rparr>)
      in if pg_messages s = [] \<or> \<not> generating (last (pg_messages s)) then Some s
         else
           let m = last (pg_messages s)
           in (case processIncompleteThinkTags (text_or_blank m ''content'') (text_or_blank m ''reasoningContent'') of
                 Inl _ \<Rightarrow> None
               | Inr (content, reasoning) \<Rightarrow>
                   let updated = butlast (pg_messages s) @ [stopped content reasoning m]
                   in Some (later (SaveTask updated) (s\<lparr>pg_messages := updated\<rparr>))))"

section \<open>Opening the page\<close>

text \<open>\<open>initialMessages\<close>: the stored messages, unless they are the default ones of an older
  version, which are removed.  \<open>None\<close>: a stored list the model does not cover.\<close>

definition old_defaults :: "pg_env \<Rightarrow> msg list \<Rightarrow> bool" where
  "old_defaults e ms \<longleftrightarrow>
     (case ms of
        [m0, m1] \<Rightarrow>
          field m0 ''id'' = JStr ''2'' \<and> field m1 ''id'' = JStr ''3''
          \<and> (field m0 ''content'' = JStr (tx_old_user e)
             \<or> field m1 ''content'' \<in> JStr ` set (tx_old_replies e))
      | _ \<Rightarrow> False)"

definition initialMessages :: "pg_env \<Rightarrow> storage \<Rightarrow> (msg list option \<times> storage) option" where
  "initialMessages e st =
     (let loaded = loadMessages st
      in if loaded = JNull then Some (None, st)
         else (case messages_of loaded of
                 None \<Rightarrow> None
               | Some ms \<Rightarrow>
                   if old_defaults e ms then Some (None, removeItem MESSAGES_STORAGE_KEY st)
                   else Some (Some ms, st)))"

text \<open>The repair of an answer that was cut off by leaving the page.\<close>

definition repaired :: "jsval \<Rightarrow> jsval \<Rightarrow> msg \<Rightarrow> msg" where
  "repaired content reasoning m =
     obj_spread m [(''status'', JStr ''complete''), (''content'', content),
       (''reasoningContent'', js_or reasoning JNull), (''isThinkingComplete'', JBool True)]"

definition repair_last :: "msg list \<Rightarrow> playground \<Rightarrow> playground option" where
  "repair_last message s =
     (if message = [] \<or> \<not> generating (last message) then Some s
      else
        let m = last message
        in (case processIncompleteThinkTags (text_or_blank m ''content'') (text_or_blank m ''reasoningContent'') of
              Inl _ \<Rightarrow> None
            | Inr (content, reasoning) \<Rightarrow>
                let updated = butlast message @ [repaired content reasoning m]
                in Some (later (SaveTask updated) (s\<lparr>pg_messages := updated\<rparr>))))"

definition empty_debug :: obj where
  "empty_debug =
     [(''request'', JNull), (''response'', JNull), (''timestamp'', JNull), (''previewRequest'', JNull),
      (''previewTimestamp'', JNull)]"

text \<open>The first render and the effects that run once.  The counter of the ids starts again.\<close>

definition open_playground :: "pg_env \<Rightarrow> storage \<Rightarrow> playground option" where
  "open_playground e st =
     (case initialMessages e st of
        None \<Rightarrow> None
      | Some (initial, st') \<Rightarrow>
          let message = (case initial of Some ms \<Rightarrow> ms | None \<Rightarrow> getDefaultMessages e)
          in repair_last message
               \<lparr>pg_settings = loadConfig st, pg_messages = message, pg_initial = initial, pg_nextId = 4,
                pg_debug = empty_debug, pg_tab = ''preview'', pg_streams = [], pg_source = None,
                pg_calls = [], pg_sent = [], pg_tasks = [], pg_saveTimer = None, pg_editingId = JNull,
                pg_editRef = None, pg_editValue = JStr [], pg_dialogs = [], pg_toasts = [], pg_messageHash = [],
                pg_bodyHash = [], pg_rendered = None, pg_preview = JNull, pg_storage = st'\<rparr>)"

end
