(* ===== verification/PlaygroundActions.thy ===== *)
theory PlaygroundActions
  imports Playground Machines
begin

text \<open>
  What the user does in the chat playground: sending, regenerating, editing and deleting
  messages (\<open>pages/Playground/index.jsx\<close>, \<open>useMessageActions.jsx\<close>, \<open>useMessageEdit.jsx\<close>), the
  settings (\<open>usePlaygroundState.js\<close>, \<open>ConfigManager.jsx\<close>), the exchange between the messages and
  a custom request body (\<open>useSyncMessageAndCustomBody.js\<close>), and the event machine over all of
  it.  A handler gets the message it is called for; the position \<open>ref\<close> says where the list
  holds this very object, if it does.
\<close>

section \<open>Sending\<close>

definition texts_of :: "jsval \<Rightarrow> string list option" where
  "texts_of v =
     (case v of
        JArr vs \<Rightarrow>
          if list_all (\<lambda>w. case w of JStr _ \<Rightarrow> True | _ \<Rightarrow> False) vs then Some (map text_of_value vs) else None
      | _ \<Rightarrow> None)"

definition draw_ids :: "int \<Rightarrow> playground \<Rightarrow> playground" where
  "draw_ids n s = s\<lparr>pg_nextId := pg_nextId s + n\<rparr>"

text \<open>A custom body: it is parsed when the message is sent, its \<open>stream\<close> is read inside the
  update of the messages.\<close>

definition send_custom :: "pg_env \<Rightarrow> int \<Rightarrow> string option \<Rightarrow> pg_settings \<Rightarrow> msg \<Rightarrow> msg \<Rightarrow> playground \<Rightarrow> playground option" where
  "send_custom e now starts v userMessage loadingMessage s =
     (case json_parse (text_of_value (pg_customBody v)) of
        Inl _ \<Rightarrow> Some (toast BodyNotJson s)
      | Inr payload \<Rightarrow>
          if is_nullish payload then None
          else
            let newMessages = pg_messages s @ [userMessage, loadingMessage]
            in sendRequest e now starts payload (value_get payload ''stream'' \<noteq> JBool False)
                 (later (SaveTask newMessages) (s\<lparr>pg_messages := newMessages\<rparr>)))"

text \<open>The usual request.  An image list that is not a list of texts makes \<open>trim\<close> fail before
  anything has changed.\<close>

definition send_default :: "pg_env \<Rightarrow> int \<Rightarrow> string option \<Rightarrow> pg_settings \<Rightarrow> jsval \<Rightarrow> msg \<Rightarrow> playground \<Rightarrow> playground option" where
  "send_default e now starts v content loadingMessage s =
     (case texts_of (field (pg_inputs v) ''imageUrls'') of
        None \<Rightarrow> Some s
      | Some urls \<Rightarrow>
          let messageContent = buildMessageContent content (filter (\<lambda>url. js_trim url \<noteq> []) urls)
                                 (field (pg_inputs v) ''imageEnabled'');
              userMessage = createMessage now (pg_nextId s) ''user'' messageContent [];
              newMessages = pg_messages s @ [userMessage];
              payload = buildApiPayload newMessages JNull (pg_inputs v) (pg_enabled v);
              messagesWithLoading = newMessages @ [loadingMessage];
              s = (draw_ids 1 s)\<lparr>pg_messages := messagesWithLoading\<rparr>;
              s = (if truthy (field (pg_inputs v) ''imageEnabled'') then later ImageOffTask s else s)
          in sendRequest e now starts (JObj payload) (truthy (field (pg_inputs v) ''stream''))
               (later (SaveTask messagesWithLoading) s))"

definition onMessageSend :: "pg_env \<Rightarrow> int \<Rightarrow> string option \<Rightarrow> pg_settings \<Rightarrow> jsval \<Rightarrow> playground \<Rightarrow> playground option" where
  "onMessageSend e now starts v content s =
     (let userMessage = createMessage now (pg_nextId s) ''user'' content [];
          loadingMessage = createLoadingAssistantMessage now (pg_nextId s + 1);
          s = draw_ids 2 s
      in if truthy (pg_customMode v) \<and> truthy (pg_customBody v)
         then send_custom e now starts v userMessage loadingMessage s
         else send_default e now starts v content loadingMessage s)"

section \<open>Messages\<close>

definition same_id :: "jsval \<Rightarrow> msg \<Rightarrow> bool" where
  "same_id i m \<longleftrightarrow> field m ''id'' = i"

text \<open>First the very object, then the id.\<close>

definition locate :: "nat option \<Rightarrow> msg \<Rightarrow> jsval \<Rightarrow> msg list \<Rightarrow> nat option" where
  "locate ref m i ms =
     (case ref of
        Some j \<Rightarrow> if j < length ms \<and> ms ! j = m then Some j else find_index (same_id i) ms
      | None \<Rightarrow> find_index (same_id i) ms)"

definition has_role :: "string \<Rightarrow> msg \<Rightarrow> bool" where
  "has_role r m \<longleftrightarrow> field m ''role'' = JStr r"

text \<open>The last user message before a position.\<close>

fun last_user_before :: "nat \<Rightarrow> msg list \<Rightarrow> nat option" where
  "last_user_before 0 ms = None"
| "last_user_before (Suc j) ms = (if has_role ''user'' (ms ! j) then Some j else last_user_before j ms)"

definition handleMessageReset :: "msg \<Rightarrow> nat option \<Rightarrow> playground \<Rightarrow> playground" where
  "handleMessageReset m ref s =
     (let ms = pg_messages s;
          restart = (\<lambda>j u. later (SendTask (getTextContent u) (pg_settings s)) (s\<lparr>pg_messages := take j ms\<rparr>))
      in case locate ref m (field m ''id'') ms of
           None \<Rightarrow> s
         | Some i \<Rightarrow>
             if has_role ''user'' m then restart i m
             else if has_role ''assistant'' m \<or> has_role ''system'' m then
               (case last_user_before i ms of None \<Rightarrow> s | Some j \<Rightarrow> restart j (ms ! j))
             else s)"

definition drop_pair :: "nat \<Rightarrow> 'a list \<Rightarrow> 'a list" where
  "drop_pair i ms = take i ms @ drop (i + 2) ms"

definition delete_message :: "msg \<Rightarrow> nat option \<Rightarrow> playground \<Rightarrow> playground" where
  "delete_message m ref s =
     (let ms = pg_messages s
      in case locate ref m (field m ''id'') ms of
           None \<Rightarrow> s
         | Some i \<Rightarrow>
             let pair = has_role ''user'' m \<and> i < length ms - 1 \<and> has_role ''assistant'' (ms ! (i + 1));
                 updated = (if pair then drop_pair i ms else filter (\<lambda>x. \<not> same_id (field m ''id'') x) ms)
             in later (SaveTask updated)
                  (toast (if pair then MessageAndReplyDeleted else MessageDeleted) (s\<lparr>pg_messages := updated\<rparr>)))"

definition handleMessageDelete :: "msg \<Rightarrow> playground \<Rightarrow> playground" where
  "handleMessageDelete m s = s\<lparr>pg_dialogs := pg_dialogs s @ [DeleteDialog m]\<rparr>"

definition other_role :: "msg \<Rightarrow> string" where
  "other_role m = (if has_role ''assistant'' m then ''system'' else ''assistant'')"

definition handleRoleToggle :: "msg \<Rightarrow> playground \<Rightarrow> playground" where
  "handleRoleToggle m s =
     (if \<not> (has_role ''assistant'' m \<or> has_role ''system'' m) then s
      else
        let updated = map (\<lambda>x. if same_id (field m ''id'') x \<and> (has_role ''assistant'' x \<or> has_role ''system'' x)
                               then obj_put ''role'' (JStr (other_role m)) x else x) (pg_messages s)
        in toast (RoleChanged (other_role m)) (later (SaveTask updated) (s\<lparr>pg_messages := updated\<rparr>)))"

definition toggleReasoningExpansion :: "jsval \<Rightarrow> playground \<Rightarrow> playground" where
  "toggleReasoningExpansion i s =
     s\<lparr>pg_messages := map (\<lambda>x. if same_id i x \<and> has_role ''assistant'' x
        then obj_put ''isReasoningExpanded'' (JBool (\<not> truthy (field x ''isReasoningExpanded''))) x else x)
        (pg_messages s)\<rparr>"

definition handleClearMessages :: "playground \<Rightarrow> playground" where
  "handleClearMessages s = later (SaveTask []) (s\<lparr>pg_messages := []\<rparr>)"

section \<open>Editing\<close>

definition handleMessageEdit :: "msg \<Rightarrow> playground \<Rightarrow> playground" where
  "handleMessageEdit m s =
     s\<lparr>pg_editingId := field m ''id'', pg_editRef := Some m, pg_editValue := getTextContent m\<rparr>"

definition handleEditCancel :: "playground \<Rightarrow> playground" where
  "handleEditCancel s = s\<lparr>pg_editingId := JNull, pg_editRef := None, pg_editValue := JStr []\<rparr>"

definition edited_content :: "string \<Rightarrow> msg \<Rightarrow> jsval" where
  "edited_content x m =
     (case field m ''content'' of
        JArr vs \<Rightarrow> JArr (map (\<lambda>item. case item of
                             JObj o1 \<Rightarrow> if is_part ''text'' item then JObj (obj_put ''text'' (JStr x) o1) else item
                           | _ \<Rightarrow> item) vs)
      | _ \<Rightarrow> JStr x)"

text \<open>\<open>ref\<close>: the position of the edited object, if the update runs before the reference to it is
  dropped.  A message that is gone has no content to read.\<close>

definition handleEditSave :: "nat option \<Rightarrow> playground \<Rightarrow> playground option" where
  "handleEditSave ref s =
     (case pg_editValue s of
        JStr v \<Rightarrow>
          if \<not> truthy (pg_editingId s) \<or> js_trim v = [] then Some s
          else
            let ms = pg_messages s; editing = pg_editingId s;
                found = (case pg_editRef s of Some m \<Rightarrow> locate ref m editing ms
                         | None \<Rightarrow> find_index (same_id editing) ms)
            in (case found of
                  None \<Rightarrow> None
                | Some i \<Rightarrow>
                    let content = edited_content (js_trim v) (ms ! i);
                        updated = map (\<lambda>x. if same_id editing x then obj_put ''content'' content x else x) ms;
                        replied = has_role ''user'' (ms ! i) \<and> i < length ms - 1
                                  \<and> has_role ''assistant'' (ms ! (i + 1));
                        s' = (if replied
                              then s\<lparr>pg_dialogs := pg_dialogs s
                                       @ [EditDialog (take (i + 1) updated) updated (pg_settings s)]\<rparr>
                              else later (SaveTask updated) (s\<lparr>pg_messages := updated\<rparr>))
                    in Some (toast MessageUpdated (handleEditCancel s')))
      | _ \<Rightarrow> Some s)"

text \<open>The conversation is cut behind the edited message and answered again.\<close>

definition regenerate :: "pg_env \<Rightarrow> int \<Rightarrow> string option \<Rightarrow> msg list \<Rightarrow> pg_settings \<Rightarrow> playground \<Rightarrow> playground option" where
  "regenerate e now starts messagesUntilUser v s =
     (let payload = buildApiPayload messagesUntilUser JNull (pg_inputs v) (pg_enabled v);
          loading = createLoadingAssistantMessage now (pg_nextId s)
      in sendRequest e now starts (JObj payload) (truthy (field (pg_inputs v) ''stream''))
           ((draw_ids 1 s)\<lparr>pg_messages := pg_messages s @ [loading]\<rparr>))"

section \<open>Settings\<close>

definition on_settings :: "(pg_settings \<Rightarrow> pg_settings) \<Rightarrow> playground \<Rightarrow> playground" where
  "on_settings f s = s\<lparr>pg_settings := f (pg_settings s)\<rparr>"

definition handleInputChange :: "string \<Rightarrow> jsval \<Rightarrow> playground \<Rightarrow> playground" where
  "handleInputChange name v = on_settings (\<lambda>c. c\<lparr>pg_inputs := obj_put name v (pg_inputs c)\<rparr>)"

definition handleParameterToggle :: "string \<Rightarrow> playground \<Rightarrow> playground" where
  "handleParameterToggle name = on_settings (\<lambda>c. c\<lparr>pg_enabled :=
     obj_put name (JBool (\<not> truthy (field (pg_enabled c) name))) (pg_enabled c)\<rparr>)"

text \<open>A pasted image.  An image list that is no array is outside the model.\<close>

definition handlePasteImage :: "string \<Rightarrow> playground \<Rightarrow> playground" where
  "handlePasteImage base64Data s =
     (let inputs = pg_inputs (pg_settings s)
      in if \<not> truthy (field inputs ''imageEnabled'') then s
         else handleInputChange ''imageUrls''
                (JArr ((case field inputs ''imageUrls'' of JArr vs \<Rightarrow> vs | _ \<Rightarrow> []) @ [JStr base64Data])) s)"

definition handleConfigImport :: "jsval \<Rightarrow> playground \<Rightarrow> playground option" where
  "handleConfigImport v s =
     (let when = (\<lambda>k f. if truthy (value_get v k) then f (value_get v k) else id);
          s = on_settings
                (when ''customRequestBody'' (\<lambda>w c. c\<lparr>pg_customBody := w\<rparr>)
                 \<circ> when ''customRequestMode'' (\<lambda>w c. c\<lparr>pg_customMode := w\<rparr>)
                 \<circ> (case value_get v ''showDebugPanel'' of
                      JBool b \<Rightarrow> (\<lambda>c. c\<lparr>pg_showDebug := JBool b\<rparr>) | _ \<Rightarrow> id)
                 \<circ> when ''parameterEnabled''
                     (\<lambda>w c. c\<lparr>pg_enabled := obj_spread (pg_enabled c) (own_entries w)\<rparr>)
                 \<circ> when ''inputs'' (\<lambda>w c. c\<lparr>pg_inputs := obj_spread (pg_inputs c) (own_entries w)\<rparr>)) s
      in if is_array (value_get v ''messages'')
         then map_option (\<lambda>ms. s\<lparr>pg_messages := ms\<rparr>) (messages_of (value_get v ''messages''))
         else Some s)"

definition handleConfigReset :: "bool \<Rightarrow> playground \<Rightarrow> playground" where
  "handleConfigReset resetMessages s =
     (let s = on_settings (\<lambda>_. DEFAULT_CONFIG) s
      in if resetMessages then later DefaultsTask (s\<lparr>pg_messages := []\<rparr>) else s)"

text \<open>The buttons of \<open>ConfigManager\<close>.\<close>

definition handleReset :: "bool \<Rightarrow> playground \<Rightarrow> playground" where
  "handleReset resetMessages s =
     toast (ConfigReset resetMessages)
       (handleConfigReset resetMessages (s\<lparr>pg_storage := clearConfig (pg_storage s)\<rparr>))"

definition handleExport :: "pg_env \<Rightarrow> int \<Rightarrow> playground \<Rightarrow> (string \<times> string) \<times> playground" where
  "handleExport e now s =
     (let s = s\<lparr>pg_storage := saveConfig e now (pg_settings s) (pg_storage s)\<rparr>
      in (exportConfig e now (pg_settings s) (value_of_messages (pg_messages s)) (pg_storage s), s))"

definition handleFileChange :: "pg_env \<Rightarrow> int \<Rightarrow> string \<Rightarrow> playground \<Rightarrow> playground" where
  "handleFileChange e now file s =
     (let (r, st) = importConfig e now file (pg_storage s); s = s\<lparr>pg_storage := st\<rparr>
      in case r of
           Inl message \<Rightarrow> toast (ImportFailed message) s
         | Inr v \<Rightarrow> s\<lparr>pg_dialogs := pg_dialogs s @ [ImportDialog v]\<rparr>)"

section \<open>The custom request body\<close>

definition getMessageHash :: "msg list \<Rightarrow> string" where
  "getMessageHash ms =
     json_text (JArr (map (\<lambda>m. JObj [(''id'', field m ''id''), (''role'', field m ''role''),
                                     (''content'', field m ''content'')]) ms))"

definition getCustomBodyHash :: "jsval \<Rightarrow> string" where
  "getCustomBodyHash customBody =
     (case json_parse (text_of_value customBody) of
        Inl _ \<Rightarrow> []
      | Inr parsed \<Rightarrow>
          if parsed = JNull then [] else json_text (js_or (value_get parsed ''messages'') (JArr [])))"

definition custom_fallback :: "obj \<Rightarrow> obj" where
  "custom_fallback inputs =
     [(''model'', js_or (field inputs ''model'') (JStr ''gpt-4o'')), (''messages'', JArr []),
      (''temperature'', js_or (field inputs ''temperature'') (JNum (fl (7 / 10)))),
      (''stream'', JBool (field inputs ''stream'' \<noteq> JBool False))]"

text \<open>A body that is a number, a text or \<open>null\<close> takes no property: the effect throws.  An array
  takes one that is not written.\<close>

definition with_messages :: "msg list \<Rightarrow> jsval \<Rightarrow> jsval option" where
  "with_messages ms payload =
     (case payload of
        JObj o1 \<Rightarrow> Some (JObj (obj_put ''messages'' (JArr (map (JObj \<circ> formatMessageForAPI) ms)) o1))
      | JArr vs \<Rightarrow> Some (JArr vs)
      | _ \<Rightarrow> None)"

text \<open>The effects run with the settings and messages of the render they belong to.\<close>

definition syncMessageToCustomBody :: "pg_settings \<Rightarrow> msg list \<Rightarrow> playground \<Rightarrow> playground option" where
  "syncMessageToCustomBody v message s =
     (if \<not> truthy (pg_customMode v) \<or> getMessageHash message = pg_messageHash s then Some s
      else
        let customPayload =
              (case json_parse (text_of_value (js_or (pg_customBody v) (JStr ''{}''))) of
                 Inl _ \<Rightarrow> JObj (custom_fallback (pg_inputs v)) | Inr p \<Rightarrow> p)
        in (case with_messages message customPayload of
              None \<Rightarrow> None
            | Some payload \<Rightarrow>
                let newCustomBody = JStr (json_pretty [] payload)
                in Some (later (DebounceTask v)
                     ((on_settings (\<lambda>c. c\<lparr>pg_customBody := newCustomBody\<rparr>) s)
                        \<lparr>pg_messageHash := getMessageHash message, pg_bodyHash := getCustomBodyHash newCustomBody\<rparr>))))"

definition body_message :: "int \<Rightarrow> nat \<Rightarrow> jsval \<Rightarrow> msg" where
  "body_message now index m =
     [(''id'', js_or (value_get m ''id'') (JStr (show_nat (index + 1)))),
      (''role'', js_or (value_get m ''role'') (JStr ''user'')),
      (''content'', js_or (value_get m ''content'') (JStr [])), (''createAt'', JNum (Fin (of_int now)))]
     @ (if value_get m ''role'' = JStr ''assistant''
        then [(''reasoningContent'', js_or (value_get m ''reasoningContent'') (JStr [])),
              (''isReasoningExpanded'', JBool False)] else [])"

definition body_messages :: "int \<Rightarrow> jsval list \<Rightarrow> msg list" where
  "body_messages now vs = map (\<lambda>i. body_message now i (vs ! i)) [0..<length vs]"

definition syncCustomBodyToMessage :: "int \<Rightarrow> pg_settings \<Rightarrow> playground \<Rightarrow> playground" where
  "syncCustomBodyToMessage now v s =
     (let currentHash = getCustomBodyHash (pg_customBody v)
      in if \<not> truthy (pg_customMode v) \<or> currentHash = pg_bodyHash s then s
         else case json_parse (text_of_value (js_or (pg_customBody v) (JStr ''{}''))) of
           Inl _ \<Rightarrow> s
         | Inr p \<Rightarrow>
             (case value_get p ''messages'' of
                JArr vs \<Rightarrow>
                  if list_ex is_nullish vs then s
                  else s\<lparr>pg_messages := body_messages now vs, pg_bodyHash := currentHash,
                         pg_messageHash := getMessageHash (body_messages now vs)\<rparr>
              | _ \<Rightarrow> s))"

text \<open>The effects of a commit: each runs when a value it depends on has changed since the last
  one.  The timer of \<open>debouncedSaveConfig\<close> replaces the pending one.\<close>

definition run_effects :: "int \<Rightarrow> playground \<Rightarrow> playground option" where
  "run_effects now s =
     (let v = pg_settings s; message = pg_messages s;
          changed = (\<lambda>f. case pg_rendered s of None \<Rightarrow> True | Some old \<Rightarrow> f old);
          due1 = changed (\<lambda>(v0, ms0). ms0 \<noteq> message \<or> v0 \<noteq> v);
          due2 = changed (\<lambda>(v0, _). pg_customMode v0 \<noteq> pg_customMode v \<or> pg_customBody v0 \<noteq> pg_customBody v);
          due3 = changed (\<lambda>(v0, _). v0 \<noteq> v);
          s = s\<lparr>pg_rendered := Some (v, message)\<rparr>
      in map_option (\<lambda>s. (if due3 then (\<lambda>s. s\<lparr>pg_saveTimer := Some v\<rparr>) else id)
                           ((if due2 then syncCustomBodyToMessage now v else id) s))
           (if due1 then syncMessageToCustomBody v message s else Some s))"

text \<open>The preview of the request, computed by a timer after a change.\<close>

definition add_preview_images :: "pg_env \<Rightarrow> obj \<Rightarrow> msg list \<Rightarrow> msg list option" where
  "add_preview_images e inputs ms =
     (case last_user_before (length ms) ms of
        None \<Rightarrow> Some ms
      | Some i \<Rightarrow>
          if \<not> (truthy (field inputs ''imageEnabled'') \<and> truthy (field inputs ''imageUrls'')) then Some ms
          else map_option (\<lambda>urls.
                 let valid = filter (\<lambda>url. js_trim url \<noteq> []) urls;
                     content = buildMessageContent (js_or (getTextContent (ms ! i)) (JStr (tx_sample_message e)))
                                 valid (JBool True)
                 in if valid = [] then ms else ms[i := obj_put ''content'' content (ms ! i)])
               (texts_of (field inputs ''imageUrls'')))"

definition constructPreviewPayload :: "pg_env \<Rightarrow> pg_settings \<Rightarrow> msg list \<Rightarrow> jsval" where
  "constructPreviewPayload e v message =
     (let usual = (case add_preview_images e (pg_inputs v) message of
                     None \<Rightarrow> JNull
                   | Some ms \<Rightarrow> JObj (buildApiPayload ms JNull (pg_inputs v) (pg_enabled v)))
      in if truthy (pg_customMode v) \<and> truthy (pg_customBody v)
         then (case pg_customBody v of
                 JStr b \<Rightarrow> if js_trim b = [] then usual
                           else (case json_parse b of Inl _ \<Rightarrow> usual | Inr p \<Rightarrow> p)
               | _ \<Rightarrow> JNull)
         else usual)"

definition refresh_preview :: "pg_env \<Rightarrow> int \<Rightarrow> playground \<Rightarrow> playground" where
  "refresh_preview e now s =
     (let preview = constructPreviewPayload e (pg_settings s) (pg_messages s)
      in set_debug
           [(''previewRequest'', if truthy preview then JStr (json_pretty [] preview) else JNull),
            (''previewTimestamp'', if truthy preview then JStr (iso_time e now) else JNull)]
           (s\<lparr>pg_preview := preview\<rparr>))"

section \<open>The machine\<close>

text \<open>Regenerating, deleting, editing and changing the role are offered for a message only while
  no answer is being generated and the message is not being edited.\<close>

definition actions_enabled :: "msg \<Rightarrow> playground \<Rightarrow> bool" where
  "actions_enabled m s \<longleftrightarrow> \<not> list_ex generating (pg_messages s) \<and> pg_editingId s \<noteq> field m ''id''"

definition run_task :: "pg_env \<Rightarrow> int \<Rightarrow> string option \<Rightarrow> pg_task \<Rightarrow> playground \<Rightarrow> playground option" where
  "run_task e now starts task s =
     (case task of
        SaveTask ms \<Rightarrow> Some (s\<lparr>pg_storage := saveMessages e now (value_of_messages ms) (pg_storage s)\<rparr>)
      | SendTask content v \<Rightarrow> onMessageSend e now starts v content s
      | ImageOffTask \<Rightarrow> Some (handleInputChange ''imageEnabled'' (JBool False) s)
      | RegenerateTask ms v \<Rightarrow> regenerate e now starts ms v s
      | DefaultsTask \<Rightarrow> Some (s\<lparr>pg_messages := getDefaultMessages e\<rparr>)
      | DebounceTask v \<Rightarrow> Some (s\<lparr>pg_saveTimer := Some v\<rparr>))"

definition confirm_dialog :: "pg_dialog \<Rightarrow> nat option \<Rightarrow> playground \<Rightarrow> playground option" where
  "confirm_dialog d ref s =
     (case d of
        DeleteDialog m \<Rightarrow> Some (delete_message m ref s)
      | EditDialog kept updated v \<Rightarrow>
          Some (later (RegenerateTask kept v) (later (SaveTask kept) (s\<lparr>pg_messages := kept\<rparr>)))
      | ImportDialog v \<Rightarrow> map_option (toast Imported) (handleConfigImport v s))"

definition cancel_dialog :: "pg_dialog \<Rightarrow> playground \<Rightarrow> playground" where
  "cancel_dialog d s =
     (case d of
        EditDialog kept updated v \<Rightarrow> later (SaveTask updated) (s\<lparr>pg_messages := updated\<rparr>)
      | _ \<Rightarrow> s)"

definition take_out :: "nat \<Rightarrow> 'a list \<Rightarrow> 'a list" where
  "take_out k xs = take k xs @ drop (k + 1) xs"

datatype (plugins only: code) pg_event =
    PgSend jsval "string option"
  | PgStop
  | PgData nat string
  | PgError nat jsval int
  | PgState nat int jsval
  | PgReply nat pg_reply
  | PgTask nat "string option"
  | PgResetMessage msg "nat option"
  | PgDelete msg
  | PgRole msg
  | PgEdit msg
  | PgEditValue string
  | PgEditSave "nat option"
  | PgEditCancel
  | PgConfirm nat "nat option"
  | PgCancel nat
  | PgExpand jsval
  | PgClear
  | PgPaste string
  | PgInput string jsval
  | PgParameter string
  | PgDebugPanel bool
  | PgCustomMode bool
  | PgCustomBody string
  | PgTab string
  | PgExport
  | PgFile string
  | PgResetConfig bool
  | PgLanguage
  | PgEffects
  | PgSaveTimer
  | PgPreview
  | PgReload

text \<open>A closed stream delivers no more data.  The events carry the time in the second argument of
  the step.\<close>

definition open_at :: "nat \<Rightarrow> playground \<Rightarrow> bool" where
  "open_at n s \<longleftrightarrow> n < length (pg_streams s) \<and> \<not> ss_closed (stream_at n s)"

fun pg_step :: "pg_env \<Rightarrow> int \<times> pg_event \<Rightarrow> playground \<Rightarrow> playground option" where
  "pg_step e (now, PgSend content starts) s = onMessageSend e now starts (pg_settings s) content s"
| "pg_step e (now, PgStop) s = onStopGenerator s"
| "pg_step e (now, PgData n data) s = (if open_at n s then sse_message e n data s else Some s)"
| "pg_step e (now, PgError n data r) s = (if open_at n s then sse_error e now n data r s else Some s)"
| "pg_step e (now, PgState n r status) s =
     (if n < length (pg_streams s) then sse_state e now n r status s else Some s)"
| "pg_step e (now, PgReply i reply) s =
     Some (if i < length (pg_calls s) \<and> pg_calls s ! i
           then call_reply e now reply (s\<lparr>pg_calls := (pg_calls s)[i := False]\<rparr>) else s)"
| "pg_step e (now, PgTask k starts) s =
     (if k < length (pg_tasks s)
      then run_task e now starts (pg_tasks s ! k) (s\<lparr>pg_tasks := take_out k (pg_tasks s)\<rparr>) else Some s)"
| "pg_step e (now, PgResetMessage m ref) s = Some (if actions_enabled m s then handleMessageReset m ref s else s)"
| "pg_step e (now, PgDelete m) s = Some (if actions_enabled m s then handleMessageDelete m s else s)"
| "pg_step e (now, PgRole m) s = Some (if actions_enabled m s then handleRoleToggle m s else s)"
| "pg_step e (now, PgEdit m) s =
     Some (if actions_enabled m s \<and> truthy (field m ''content'') then handleMessageEdit m s else s)"
| "pg_step e (now, PgEditValue v) s = Some (s\<lparr>pg_editValue := JStr v\<rparr>)"
| "pg_step e (now, PgEditSave ref) s = handleEditSave ref s"
| "pg_step e (now, PgEditCancel) s = Some (handleEditCancel s)"
| "pg_step e (now, PgConfirm k ref) s =
     (if k < length (pg_dialogs s)
      then confirm_dialog (pg_dialogs s ! k) ref (s\<lparr>pg_dialogs := take_out k (pg_dialogs s)\<rparr>) else Some s)"
| "pg_step e (now, PgCancel k) s =
     Some (if k < length (pg_dialogs s)
           then cancel_dialog (pg_dialogs s ! k) (s\<lparr>pg_dialogs := take_out k (pg_dialogs s)\<rparr>) else s)"
| "pg_step e (now, PgExpand i) s = Some (toggleReasoningExpansion i s)"
| "pg_step e (now, PgClear) s = Some (handleClearMessages s)"
| "pg_step e (now, PgPaste x) s = Some (handlePasteImage x s)"
| "pg_step e (now, PgInput name v) s = Some (handleInputChange name v s)"
| "pg_step e (now, PgParameter name) s = Some (handleParameterToggle name s)"
| "pg_step e (now, PgDebugPanel b) s = Some (on_settings (\<lambda>c. c\<lparr>pg_showDebug := JBool b\<rparr>) s)"
| "pg_step e (now, PgCustomMode b) s = Some (on_settings (\<lambda>c. c\<lparr>pg_customMode := JBool b\<rparr>) s)"
| "pg_step e (now, PgCustomBody b) s = Some (on_settings (\<lambda>c. c\<lparr>pg_customBody := JStr b\<rparr>) s)"
| "pg_step e (now, PgTab t) s = Some (s\<lparr>pg_tab := t\<rparr>)"
| "pg_step e (now, PgExport) s = Some (snd (handleExport e now s))"
| "pg_step e (now, PgFile x) s = Some (handleFileChange e now x s)"
| "pg_step e (now, PgResetConfig b) s = Some (handleReset b s)"
| "pg_step e (now, PgLanguage) s =
     Some (if pg_initial s = None then s\<lparr>pg_messages := getDefaultMessages e\<rparr> else s)"
| "pg_step e (now, PgEffects) s = run_effects now s"
| "pg_step e (now, PgSaveTimer) s =
     Some (case pg_saveTimer s of
             None \<Rightarrow> s
           | Some v \<Rightarrow> s\<lparr>pg_storage := saveConfig e now v (pg_storage s), pg_saveTimer := None\<rparr>)"
| "pg_step e (now, PgPreview) s = Some (refresh_preview e now s)"
| "pg_step e (now, PgReload) s = open_playground e (pg_storage s)"

end
