(* ===== verification/PlaygroundRuns.thy ===== *)
theory PlaygroundRuns
  imports PlaygroundActions
begin

text \<open>
  What holds while answers arrive: only the last message changes, and a finished answer never;
  the answer is the concatenation of the pieces of the stream; stopping ends it, with the thought
  it was cut off in.
\<close>

section \<open>Arriving answers change the last message only\<close>

definition finished :: "msg \<Rightarrow> bool" where
  "finished m \<longleftrightarrow> has_status m ''complete'' \<or> has_status m ''error''"

definition front_kept :: "msg list \<Rightarrow> msg list \<Rightarrow> bool" where
  "front_kept ms ms' \<longleftrightarrow>
     length ms' = length ms \<and> butlast ms' = butlast ms \<and> (ms \<noteq> [] \<and> finished (last ms) \<longrightarrow> ms' = ms)"

lemma front_kept_refl [simp]: "front_kept ms ms"
  by (simp add: front_kept_def)

lemma front_kept_trans: "front_kept a b \<Longrightarrow> front_kept b c \<Longrightarrow> front_kept a c"
  by (auto simp: front_kept_def)

lemma front_kept_last: "ms \<noteq> [] \<Longrightarrow> \<not> finished (last ms) \<Longrightarrow> front_kept ms (butlast ms @ [m])"
  by (simp add: front_kept_def)

lemma generating_not_finished: "generating m \<Longrightarrow> \<not> finished m"
  by (auto simp: generating_def finished_def has_status_def)

lemma loading_not_finished: "has_status m ''loading'' \<Longrightarrow> \<not> finished m"
  by (simp add: finished_def has_status_def)

text \<open>Steps that only touch other parts of the state.\<close>

lemma messages_kept [simp]:
  "pg_messages (set_debug kvs s) = pg_messages s" "pg_messages (log_sse d s) = pg_messages s"
  "pg_messages (at_stream n f s) = pg_messages s" "pg_messages (later t s) = pg_messages s"
  "pg_messages (show_response v s) = pg_messages s" "pg_messages (toast x s) = pg_messages s"
  by (simp_all add: set_debug_def log_sse_def at_stream_def later_def show_response_def toast_def)

definition step_kept :: "playground \<Rightarrow> playground option \<Rightarrow> bool" where
  "step_kept s r \<longleftrightarrow> (case r of None \<Rightarrow> True | Some s' \<Rightarrow> front_kept (pg_messages s) (pg_messages s'))"

lemma step_kept_Some [simp]: "step_kept s (Some s') \<longleftrightarrow> front_kept (pg_messages s) (pg_messages s')"
  by (simp add: step_kept_def)

lemma step_kept_None [simp]: "step_kept s None"
  by (simp add: step_kept_def)

lemma step_kept_bind:
  assumes "step_kept s r" and "\<And>s'. r = Some s' \<Longrightarrow> step_kept s' (f s')"
  shows "step_kept s (Option.bind r f)"
proof (cases r)
  case (Some a)
  with assms have "front_kept (pg_messages s) (pg_messages a)" "step_kept a (f a)" by simp_all
  with Some show ?thesis
    by (cases "f a") (auto intro: front_kept_trans)
qed simp

lemma step_kept_other: "pg_messages s = pg_messages t \<Longrightarrow> step_kept s r \<longleftrightarrow> step_kept t r"
  by (cases r) simp_all

lemma stream_text_kept: "step_kept s (stream_text v k s)"
proof -
  have "front_kept ms ms'" if "streamMessageUpdate v k ms = Some ms'" for ms ms'
    using that by (auto simp: streamMessageUpdate_def Let_def front_kept_last generating_not_finished
        split: if_splits)
  then show ?thesis
    by (cases "streamMessageUpdate v k (pg_messages s)") (simp_all add: stream_text_def)
qed

lemma completeMessage_kept: "step_kept s (completeMessage st s)"
  by (auto simp: completeMessage_def Let_def front_kept_last finished_def step_kept_def split: option.splits)

lemma fail_stream_kept: "step_kept s (fail_stream t s)"
  unfolding fail_stream_def by (intro step_kept_bind stream_text_kept completeMessage_kept)

lemma stream_chunks_kept: "step_kept s (stream_chunks vks s)"
  by (induction vks s rule: stream_chunks.induct) (auto intro: step_kept_bind stream_text_kept)

lemma parse_error_kept: "step_kept s (stream_parse_error e n d m s)"
  unfolding stream_parse_error_def Let_def
  by (rule step_kept_other [THEN iffD1, OF _ fail_stream_kept]) simp

lemma sse_message_kept: "step_kept s (sse_message e n d s)"
proof -
  have "step_kept s (stream_done n s)"
    unfolding stream_done_def Let_def
    by (rule step_kept_other [THEN iffD1, OF _ completeMessage_kept]) simp
  moreover have "step_kept s (stream_chunks vks t)" if "pg_messages s = pg_messages t" for t vks
    using step_kept_other [OF that] stream_chunks_kept by blast
  moreover have "step_kept s (stream_parse_error e n d m t)" if "pg_messages s = pg_messages t" for t m
    using step_kept_other [OF that] parse_error_kept by blast
  ultimately show ?thesis
    unfolding sse_message_def Let_def by (simp split: sum.splits)
qed

lemma sse_error_kept: "step_kept s (sse_error e now n d r s)"
proof -
  have closing: "step_kept s r \<Longrightarrow> (\<And>t. pg_messages (f t) = pg_messages t) \<Longrightarrow> step_kept s (map_option f r)"
    for r f by (cases r) simp_all
  have "step_kept s (Option.bind (stream_text v Content t) (completeMessage ''error''))"
    if "pg_messages s = pg_messages t" for t v
    unfolding step_kept_other [OF that] by (intro step_kept_bind stream_text_kept completeMessage_kept)
  then show ?thesis
    unfolding sse_error_def Let_def by (auto intro!: closing)
qed

lemma sse_state_kept: "step_kept s (sse_state e now n r st s)"
proof -
  have "step_kept s (fail_stream m t)" if "pg_messages s = pg_messages t" for t m
    using step_kept_other [OF that] fail_stream_kept by blast
  then show ?thesis unfolding sse_state_def Let_def by simp
qed

lemma on_loading_kept: "front_kept (pg_messages s) (pg_messages (on_loading f s))"
  by (simp add: on_loading_def front_kept_last loading_not_finished)

lemma call_failed_kept: "front_kept (pg_messages s) (pg_messages (call_failed e now m s))"
  using on_loading_kept [of "show_response v s" for v] by (simp add: call_failed_def)

lemma call_reply_kept: "front_kept (pg_messages s) (pg_messages (call_reply e now reply s))"
proof -
  have failed: "front_kept (pg_messages s) (pg_messages (call_failed e now m (show_response v s)))" for m v
    using call_failed_kept [of "show_response v s"] by simp
  have loaded: "front_kept (pg_messages s) (pg_messages (on_loading f (show_response v s)))" for f v
    using on_loading_kept [of "show_response v s"] by simp
  show ?thesis
    by (cases reply) (auto simp: call_reply_def Let_def call_failed_kept failed loaded split: sum.splits)
qed

lemma stop_kept: "step_kept s (onStopGenerator s)"
proof -
  let ?t = "case pg_source s of None \<Rightarrow> s | Some n \<Rightarrow> (at_stream n close_source s)\<lparr>pg_source := None\<rparr>"
  have "pg_messages ?t = pg_messages s" by (simp split: option.splits)
  then show ?thesis
    unfolding onStopGenerator_def Let_def
    by (auto simp: front_kept_last generating_not_finished split: sum.splits)
qed

text \<open>The events that an answer consists of.\<close>

fun answer_event :: "pg_event \<Rightarrow> bool" where
  "answer_event PgStop \<longleftrightarrow> True"
| "answer_event (PgData n d) \<longleftrightarrow> True"
| "answer_event (PgError n d r) \<longleftrightarrow> True"
| "answer_event (PgState n r st) \<longleftrightarrow> True"
| "answer_event (PgReply i r) \<longleftrightarrow> True"
| "answer_event _ \<longleftrightarrow> False"

lemma answer_step_kept: "answer_event (snd ev) \<Longrightarrow> step_kept s (pg_step e ev s)"
  by (cases "(e, ev, s)" rule: pg_step.cases)
    (simp_all add: stop_kept sse_message_kept sse_error_kept sse_state_kept
      call_reply_kept [of "s\<lparr>pg_calls := c\<rparr>" for s c, simplified])

text \<open>
  C15: While answers arrive (data, errors and state changes of any stream, replies of any call, the
  stop button), in any order, no message is added or removed, only the last one changes, and
  once it is complete or failed it stays as it is.
\<close>

theorem answers_change_last_message_only:
  assumes "run_events (pg_step e) evs s = Some s'" and "list_all (\<lambda>ev. answer_event (snd ev)) evs"
  shows "length (pg_messages s') = length (pg_messages s)
         \<and> butlast (pg_messages s') = butlast (pg_messages s)
         \<and> (pg_messages s \<noteq> [] \<and> finished (last (pg_messages s)) \<longrightarrow> pg_messages s' = pg_messages s)"
proof -
  have "front_kept (pg_messages s) (pg_messages s')"
    using assms
  proof (induction evs arbitrary: s)
    case (Cons ev evs)
    then obtain t where t: "pg_step e ev s = Some t" and r: "run_events (pg_step e) evs t = Some s'"
      by (auto split: option.splits)
    from Cons.prems have "front_kept (pg_messages s) (pg_messages t)"
      using answer_step_kept [of ev s e] t by simp
    with Cons.IH [OF r] Cons.prems show ?case by (auto intro: front_kept_trans)
  qed simp
  then show ?thesis by (simp add: front_kept_def)
qed

section \<open>The answer is what the stream delivers\<close>

text \<open>An answer that is being received, with its text and its reasoning so far.\<close>

definition receiving :: "string \<Rightarrow> string \<Rightarrow> msg \<Rightarrow> bool" where
  "receiving c r m \<longleftrightarrow>
     has_role ''assistant'' m \<and> generating m \<and> field m ''content'' = JStr c \<and> field m ''reasoningContent'' = JStr r"

definition pieces :: "chunk_kind \<Rightarrow> (chunk_kind \<times> string) list \<Rightarrow> string" where
  "pieces k cs = concat (map snd (filter (\<lambda>c. fst c = k) cs))"

lemma pieces_simps [simp]:
  "pieces k [] = []" "pieces k ((j, t) # cs) = (if j = k then t @ pieces k cs else pieces k cs)"
  "pieces k (cs @ ds) = pieces k cs @ pieces k ds"
  by (simp_all add: pieces_def)

text \<open>The data of an event carries these pieces.\<close>

definition delivers :: "string \<Rightarrow> (chunk_kind \<times> string) list \<Rightarrow> bool" where
  "delivers data cs \<longleftrightarrow>
     data \<noteq> ''[DONE]''
     \<and> (case json_parse data of
          Inl _ \<Rightarrow> False
        | Inr payload \<Rightarrow>
            payload \<noteq> JNull
            \<and> delta_chunks (value_get (value_get (value_get payload ''choices'') ''0'') ''delta'')
                = map (\<lambda>(k, t). (JStr t, k)) cs)"

lemma status_fields: "has_status m st \<Longrightarrow> field m ''status'' = JStr st"
  by (simp add: has_status_def)

lemma js_or_text [simp]: "js_or (JStr c) (JStr []) = JStr c"
  by (simp add: js_or_def)

lemmas message_fields = receiving_def has_role_def generating_def has_status_def

lemma content_receives:
  assumes "receiving c r m"
  obtains m' where "content_update (JStr t) m = Some m'" and "receiving (c @ t) r m'"
proof -
  have "field m ''content'' = JStr c" using assms by (simp add: receiving_def)
  with assms that show ?thesis
    by (simp add: content_update_def Let_def concatenates_def message_fields applyAutoCollapseLogic_def)
qed

lemma reasoning_receives: "receiving c r m \<Longrightarrow> receiving c (r @ t) (reasoning_update (JStr t) m)"
  by (simp add: reasoning_update_def message_fields)

lemma stream_text_receives:
  assumes "pg_messages s = ms @ [m]" and "receiving c r m"
  obtains m' where "stream_text (JStr t) k s = Some (s\<lparr>pg_messages := ms @ [m']\<rparr>)"
    and "receiving (c @ (if k = Content then t else [])) (r @ (if k = Reasoning then t else [])) m'"
proof -
  have m: "field m ''role'' = JStr ''assistant''" "generating m"
    using assms(2) by (simp_all add: receiving_def has_role_def)
  show ?thesis
  proof (cases k)
    case Reasoning
    with assms m show ?thesis
      by (intro that [of "reasoning_update (JStr t) m"])
        (simp_all add: stream_text_def streamMessageUpdate_def reasoning_receives)
  next
    case Content
    obtain m' where "content_update (JStr t) m = Some m'" "receiving (c @ t) r m'"
      using assms(2) by (rule content_receives)
    with Content assms m show ?thesis
      by (intro that [of m']) (simp_all add: stream_text_def streamMessageUpdate_def)
  qed
qed

lemma stream_chunks_receive:
  assumes "pg_messages s = ms @ [m]" and "receiving c r m"
  shows "\<exists>m'. stream_chunks (map (\<lambda>(k, t). (JStr t, k)) cs) s = Some (s\<lparr>pg_messages := ms @ [m']\<rparr>)
    \<and> receiving (c @ pieces Content cs) (r @ pieces Reasoning cs) m'"
  using assms
proof (induction cs arbitrary: s m c r)
  case Nil
  then show ?case by (intro exI [of _ m]) simp
next
  case (Cons kt cs)
  obtain k t where kt: "kt = (k, t)" by fastforce
  obtain m1 where m1: "stream_text (JStr t) k s = Some (s\<lparr>pg_messages := ms @ [m1]\<rparr>)"
      "receiving (c @ (if k = Content then t else [])) (r @ (if k = Reasoning then t else [])) m1"
    using Cons.prems by (rule stream_text_receives)
  show ?case
    using m1(1) Cons.IH [OF _ m1(2), of "s\<lparr>pg_messages := ms @ [m1]\<rparr>"]
    by (cases k) (simp_all add: kt)
qed

text \<open>What a data event leaves as it was.\<close>

definition same_stream :: "nat \<Rightarrow> playground \<Rightarrow> playground \<Rightarrow> bool" where
  "same_stream n s s' \<longleftrightarrow> (open_at n s \<longrightarrow> open_at n s') \<and> pg_source s' = pg_source s \<and> pg_sent s' = pg_sent s"

lemma data_received:
  assumes "open_at n s" and "pg_messages s = ms @ [m]" and "receiving c r m" and "delivers data cs"
  shows "\<exists>s' m'. pg_step e (now, PgData n data) s = Some s' \<and> pg_messages s' = ms @ [m']
    \<and> receiving (c @ pieces Content cs) (r @ pieces Reasoning cs) m' \<and> same_stream n s s'"
proof -
  obtain p where p: "json_parse data = Inr p" "p \<noteq> JNull" and d: "data \<noteq> ''[DONE]''"
    and cs: "delta_chunks (value_get (value_get (value_get p ''choices'') ''0'') ''delta'')
      = map (\<lambda>(k, t). (JStr t, k)) cs"
    using assms(4) by (auto simp: delivers_def split: sum.splits)
  let ?a = "at_stream n (\<lambda>x. x\<lparr>ss_data := ss_data x @ data @ [CHR 0x0A], ss_first := True\<rparr>) s"
  let ?b = "log_sse data (if ss_first (stream_at n s) then ?a else ?a\<lparr>pg_tab := ''response''\<rparr>)"
  have b: "pg_messages ?b = ms @ [m]" using assms(2) by simp
  obtain m' where "stream_chunks (map (\<lambda>(k, t). (JStr t, k)) cs) ?b = Some (?b\<lparr>pg_messages := ms @ [m']\<rparr>)"
    and m': "receiving (c @ pieces Content cs) (r @ pieces Reasoning cs) m'"
    using stream_chunks_receive [OF b assms(3)] by blast
  then have "pg_step e (now, PgData n data) s = Some (?b\<lparr>pg_messages := ms @ [m']\<rparr>)"
    using assms(1) d p cs by (simp add: sse_message_def Let_def)
  moreover have "same_stream n s (?b\<lparr>pg_messages := ms @ [m']\<rparr>)"
    using assms(1) by (simp add: same_stream_def open_at_def log_sse_def set_debug_def at_stream_def)
  ultimately show ?thesis using m' by (intro exI [of _ "?b\<lparr>pg_messages := ms @ [m']\<rparr>"] exI [of _ m']) simp
qed

definition data_events :: "nat \<Rightarrow> (int \<times> string \<times> (chunk_kind \<times> string) list) list \<Rightarrow> (int \<times> pg_event) list" where
  "data_events n ds = map (\<lambda>(now, data, cs). (now, PgData n data)) ds"

definition delivered :: "(int \<times> string \<times> (chunk_kind \<times> string) list) list \<Rightarrow> (chunk_kind \<times> string) list" where
  "delivered ds = concat (map (\<lambda>(now, data, cs). cs) ds)"

lemma all_received:
  assumes "open_at n s" and "pg_messages s = ms @ [m]" and "receiving c r m"
    and "list_all (\<lambda>(now, data, cs). delivers data cs) ds"
  shows "\<exists>s' m'. run_events (pg_step e) (data_events n ds) s = Some s' \<and> pg_messages s' = ms @ [m']
    \<and> receiving (c @ pieces Content (delivered ds)) (r @ pieces Reasoning (delivered ds)) m' \<and> same_stream n s s'"
  using assms
proof (induction ds arbitrary: s m c r)
  case Nil
  then show ?case
    by (intro exI [of _ s] exI [of _ m]) (simp add: data_events_def delivered_def same_stream_def)
next
  case (Cons d ds)
  obtain now data cs where d: "d = (now, data, cs)" by (cases d) auto
  have "delivers data cs" using Cons.prems(4) by (simp add: d)
  then obtain s1 m1 where s1: "pg_step e (now, PgData n data) s = Some s1" "pg_messages s1 = ms @ [m1]"
      "receiving (c @ pieces Content cs) (r @ pieces Reasoning cs) m1" "same_stream n s s1"
    using data_received [OF Cons.prems(1-3)] by blast
  have "open_at n s1" using s1(4) Cons.prems(1) by (simp add: same_stream_def)
  then obtain s' m' where "run_events (pg_step e) (data_events n ds) s1 = Some s'" "pg_messages s' = ms @ [m']"
      "receiving ((c @ pieces Content cs) @ pieces Content (delivered ds))
         ((r @ pieces Reasoning cs) @ pieces Reasoning (delivered ds)) m'" "same_stream n s1 s'"
    using Cons.IH [OF _ s1(2,3)] Cons.prems(4) by (auto simp: d)
  with s1 show ?case
    by (intro exI [of _ s'] exI [of _ m'])
      (simp add: d data_events_def delivered_def same_stream_def del: pg_step.simps)
qed

lemma done_received:
  assumes "open_at n s" and "pg_messages s = ms @ [m]" and "receiving c r m"
  shows "\<exists>s' m'. pg_step e (now, PgData n ''[DONE]'') s = Some s' \<and> pg_messages s' = ms @ [m']
    \<and> has_status m' ''complete'' \<and> field m' ''content'' = JStr c \<and> field m' ''reasoningContent'' = JStr r
    \<and> \<not> open_at n s' \<and> pg_source s' = None \<and> pg_sent s' = pg_sent s
    \<and> SaveTask (pg_messages s') \<in> set (pg_tasks s')"
proof -
  let ?m = "completed ''complete'' m"
  have "\<not> finished m" using assms(3) generating_not_finished by (simp add: receiving_def)
  then have "\<not> has_status m ''complete''" "\<not> has_status m ''error''" by (simp_all add: finished_def)
  moreover have "has_status ?m ''complete''" "field ?m ''content'' = JStr c" "field ?m ''reasoningContent'' = JStr r"
    using assms(3) by (simp_all add: completed_def applyAutoCollapseLogic_def Let_def message_fields)
  ultimately show ?thesis
    using assms(1,2)
    by (simp add: sse_message_def stream_done_def Let_def completeMessage_def)
      (simp add: later_def set_debug_def log_sse_def at_stream_def open_at_def close_source_def)
qed

section \<open>A question and its answer\<close>

lemma loading_receives: "receiving [] [] (createLoadingAssistantMessage now i)"
  by (simp add: createLoadingAssistantMessage_def createMessage_def message_fields)
    (simp add: field_def value_get_def obj_get_def)

text \<open>The page asks with a stream, without a custom body and without images.\<close>

definition plain_settings :: "pg_settings \<Rightarrow> bool" where
  "plain_settings v \<longleftrightarrow>
     \<not> truthy (pg_customMode v) \<and> truthy (field (pg_inputs v) ''stream'')
     \<and> (case texts_of (field (pg_inputs v) ''imageUrls'') of
          None \<Rightarrow> False | Some urls \<Rightarrow> list_all (\<lambda>url. js_trim url = []) urls)"

definition question :: "int \<Rightarrow> playground \<Rightarrow> string \<Rightarrow> msg" where
  "question now s x = createMessage now (pg_nextId s + 2) ''user'' (JStr x) []"

definition asked_payload :: "int \<Rightarrow> playground \<Rightarrow> string \<Rightarrow> obj" where
  "asked_payload now s x =
     buildApiPayload (pg_messages s @ [question now s x]) JNull (pg_inputs (pg_settings s)) (pg_enabled (pg_settings s))"

lemma plain_content: "buildMessageContent (JStr x) [] b = JStr x"
  by (cases x) (simp_all add: buildMessageContent_def js_or_def)

lemma question_sent:
  assumes "plain_settings (pg_settings s)"
  shows "\<exists>s'. pg_step e (now, PgSend (JStr x) None) s = Some s'
    \<and> pg_messages s' = (pg_messages s @ [question now s x]) @ [createLoadingAssistantMessage now (pg_nextId s + 1)]
    \<and> open_at (length (pg_streams s)) s' \<and> pg_sent s' = pg_sent s @ [JObj (asked_payload now s x)]"
proof -
  obtain urls where u: "texts_of (field (pg_inputs (pg_settings s)) ''imageUrls'') = Some urls"
      "list_all (\<lambda>url. js_trim url = []) urls"
    using assms by (auto simp: plain_settings_def split: option.splits)
  have "filter (\<lambda>url. js_trim url \<noteq> []) urls = []"
    using u(2) by (simp add: filter_empty_conv list_all_iff)
  with u(1) assms show ?thesis
    by (simp add: plain_settings_def onMessageSend_def send_default_def sendRequest_def Let_def plain_content
        draw_ids_def)
      (simp add: open_stream_def Let_def question_def asked_payload_def open_at_def set_debug_def later_def)
qed

text \<open>
  C5: A question that is sent with a stream is answered by exactly what the stream delivers:
  the request carries the conversation with the question at its end, the question and one
  answer are appended, the text and the reasoning of the answer are the pieces of the events
  put together in their order, and after the end marker the answer is complete, the stream is
  closed and the conversation is about to be saved.
\<close>

theorem streamed_answer_is_complete:
  assumes "plain_settings (pg_settings s)" and "list_all (\<lambda>(now, data, cs). delivers data cs) ds"
  shows "\<exists>s' a. run_events (pg_step e)
        ((t0, PgSend (JStr x) None) # data_events (length (pg_streams s)) ds
          @ [(t1, PgData (length (pg_streams s)) ''[DONE]'')]) s = Some s'
    \<and> pg_messages s' = pg_messages s @ [question t0 s x, a]
    \<and> field a ''content'' = JStr (pieces Content (delivered ds))
    \<and> field a ''reasoningContent'' = JStr (pieces Reasoning (delivered ds))
    \<and> has_status a ''complete'' \<and> pg_sent s' = pg_sent s @ [JObj (asked_payload t0 s x)]
    \<and> pg_source s' = None \<and> \<not> open_at (length (pg_streams s)) s' \<and> SaveTask (pg_messages s') \<in> set (pg_tasks s')"
proof -
  let ?n = "length (pg_streams s)" and ?q = "pg_messages s @ [question t0 s x]"
  let ?done = "pg_step e (t1, PgData ?n ''[DONE]'')"
  obtain s1 where s1: "pg_step e (t0, PgSend (JStr x) None) s = Some s1"
      "pg_messages s1 = ?q @ [createLoadingAssistantMessage t0 (pg_nextId s + 1)]" "open_at ?n s1"
      "pg_sent s1 = pg_sent s @ [JObj (asked_payload t0 s x)]"
    using question_sent [OF assms(1)] by blast
  obtain s2 m2 where s2: "run_events (pg_step e) (data_events ?n ds) s1 = Some s2" "pg_messages s2 = ?q @ [m2]"
      "receiving (pieces Content (delivered ds)) (pieces Reasoning (delivered ds)) m2" "same_stream ?n s1 s2"
    using all_received [OF s1(3,2) loading_receives assms(2), of e] by (elim exE conjE) simp
  have o: "open_at ?n s2" and sent: "pg_sent s2 = pg_sent s @ [JObj (asked_payload t0 s x)]"
    using s2(4) s1(3,4) by (simp_all add: same_stream_def)
  obtain s3 m3 where s3: "?done s2 = Some s3" "pg_messages s3 = ?q @ [m3]" "has_status m3 ''complete''"
      "field m3 ''content'' = JStr (pieces Content (delivered ds))"
      "field m3 ''reasoningContent'' = JStr (pieces Reasoning (delivered ds))" "\<not> open_at ?n s3"
      "pg_source s3 = None" "pg_sent s3 = pg_sent s2" "SaveTask (pg_messages s3) \<in> set (pg_tasks s3)"
    using done_received [OF o s2(2,3), of e t1] by (elim exE conjE) blast
  have "run_events (pg_step e) ((t0, PgSend (JStr x) None) # data_events ?n ds @ [(t1, PgData ?n ''[DONE]'')]) s
      = Some s3"
    using s1(1) s2(1) s3(1) by (simp add: run_events_append del: pg_step.simps)
  with s3 sent show ?thesis
    by (intro exI [of _ s3] exI [of _ m3]) simp
qed

section \<open>Stopping inside a thought\<close>

text \<open>Thoughts put together: what is empty leaves no separator.\<close>

definition thoughts_text :: "string list \<Rightarrow> string" where
  "thoughts_text ts = join thought_separator (filter_nonempty ts)"

lemma add_thought_text: "add_thought (JStr q) t = JStr (thoughts_text [q, t])"
  by (simp add: add_thought_def thoughts_text_def filter_nonempty_def js_or_def)

definition answer_text :: "(string \<times> string) list \<Rightarrow> string \<Rightarrow> string" where
  "answer_text ps r = (if ps = [] then r else js_trim (concat (map fst ps) @ r))"

lemma thoughts_nest:
  "thoughts_text [thoughts_text [a, b], c] = thoughts_text [a, b, c]" "thoughts_text [a, []] = a"
  by (simp_all add: thoughts_text_def filter_nonempty_def join_Cons)

lemma process_answer:
  assumes "thoughts_ok ps r"
  shows "processThinkTags (JStr (tagged ps r)) (JStr q) =
    Inr (JStr (answer_text ps r), JStr (thoughts_text [q, join thought_separator (map snd ps)]))"
proof (cases "ps = []")
  case True
  with assms show ?thesis
    by (simp add: answer_text_def thoughts_ok_def untagged_def process_plain thoughts_nest)
next
  case False
  with process_tagged [OF assms] show ?thesis
    by (simp add: answer_text_def add_thought_text)
qed

lemma cut_off_answer:
  assumes "thoughts_ok ps r" and "untagged u"
  shows "processIncompleteThinkTags (JStr (tagged ps r @ open_tag @ u)) (JStr q) =
    Inr (JStr (answer_text ps r), JStr (thoughts_text [q, js_trim u, join thought_separator (map snd ps)]))"
proof -
  have "(if js_trim u \<noteq> [] then add_thought (JStr q) (js_trim u) else JStr q) = JStr (thoughts_text [q, js_trim u])"
    by (simp add: add_thought_text thoughts_nest)
  with incomplete_tagged [OF assms, of "JStr q"] process_answer [OF assms(1)] show ?thesis
    by (simp add: thoughts_nest)
qed

text \<open>
  C20: Pressing stop while the model is inside a thought ends the answer: it is complete, the
  tags are taken out of the text, no word of it is lost (the thought that was cut off joins
  the reasoning), the other messages stay, no stream is current any more and the
  conversation is about to be saved.
\<close>

theorem stop_ends_the_answer:
  assumes "pg_messages s = ms @ [m]" and "receiving (tagged ps r @ open_tag @ u) q m"
    and "thoughts_ok ps r" and "untagged u"
  shows "\<exists>s' a. pg_step e (now, PgStop) s = Some s' \<and> pg_messages s' = ms @ [a]
    \<and> has_status a ''complete'' \<and> field a ''content'' = JStr (answer_text ps r)
    \<and> field a ''reasoningContent''
        = js_or (JStr (thoughts_text [q, js_trim u, join thought_separator (map snd ps)])) JNull
    \<and> pg_source s' = None \<and> (\<forall>n. pg_source s = Some n \<longrightarrow> \<not> open_at n s')
    \<and> SaveTask (pg_messages s') \<in> set (pg_tasks s')"
proof -
  let ?t = "case pg_source s of None \<Rightarrow> s | Some n \<Rightarrow> (at_stream n close_source s)\<lparr>pg_source := None\<rparr>"
  let ?c = "JStr (answer_text ps r)"
    and ?q = "JStr (thoughts_text [q, js_trim u, join thought_separator (map snd ps)])"
  let ?s = "later (SaveTask (ms @ [stopped ?c ?q m])) (?t\<lparr>pg_messages := ms @ [stopped ?c ?q m]\<rparr>)"
  have t: "pg_messages ?t = ms @ [m]" "pg_source ?t = None" "\<forall>n. pg_source s = Some n \<longrightarrow> \<not> open_at n ?t"
    using assms(1) by (auto simp: at_stream_def open_at_def close_source_def split: option.splits)
  have g: "generating m" and f: "text_or_blank m ''content'' = JStr (tagged ps r @ open_tag @ u)"
      "text_or_blank m ''reasoningContent'' = JStr q"
    using assms(2) by (simp_all add: receiving_def text_or_blank_def)
  have "pg_step e (now, PgStop) s = Some ?s"
    using t(1) g f cut_off_answer [OF assms(3,4)] by (simp add: onStopGenerator_def Let_def)
  moreover have "has_status (stopped ?c ?q m) ''complete''" "field (stopped ?c ?q m) ''content'' = ?c"
      "field (stopped ?c ?q m) ''reasoningContent'' = js_or ?q JNull"
    by (simp_all add: stopped_def applyAutoCollapseLogic_def Let_def has_status_def)
  ultimately show ?thesis
    using t(2,3) by (intro exI [of _ ?s] exI [of _ "stopped ?c ?q m"]) (simp add: later_def open_at_def)
qed

end
