(* ===== verification/PlaygroundSession.thy ===== *)
theory PlaygroundSession
  imports PlaygroundRuns
begin

text \<open>
  Sessions of the chat playground: the settings are complete in every state the page can reach,
  and they and the conversation come back after a reload.  At the end are the situations in
  which the code does something else than it means to.
\<close>

section \<open>An invariant of the page\<close>

text \<open>An object that has every default property, and values that \<open>||\<close> with their default keeps.\<close>

definition complete_obj :: "obj \<Rightarrow> obj \<Rightarrow> bool" where
  "complete_obj d o1 \<longleftrightarrow> obj_ok o1 \<and> fst ` set d \<subseteq> fst ` set o1"

definition settings_ok :: "pg_settings \<Rightarrow> bool" where
  "settings_ok c \<longleftrightarrow>
     complete_obj default_inputs (pg_inputs c) \<and> complete_obj default_enabled (pg_enabled c)
     \<and> (truthy (pg_showDebug c) \<or> pg_showDebug c = JBool False)
     \<and> (truthy (pg_customMode c) \<or> pg_customMode c = JBool False)
     \<and> (truthy (pg_customBody c) \<or> pg_customBody c = JStr [])"

fun task_ok :: "pg_task \<Rightarrow> bool" where
  "task_ok (SendTask _ v) \<longleftrightarrow> settings_ok v"
| "task_ok (RegenerateTask _ v) \<longleftrightarrow> settings_ok v"
| "task_ok (DebounceTask v) \<longleftrightarrow> settings_ok v"
| "task_ok _ \<longleftrightarrow> True"

fun dialog_ok :: "pg_dialog \<Rightarrow> bool" where
  "dialog_ok (EditDialog _ _ v) \<longleftrightarrow> settings_ok v"
| "dialog_ok _ \<longleftrightarrow> True"

definition pg_inv :: "playground \<Rightarrow> bool" where
  "pg_inv s \<longleftrightarrow>
     settings_ok (pg_settings s) \<and> list_all task_ok (pg_tasks s) \<and> list_all dialog_ok (pg_dialogs s)
     \<and> (\<forall>v. pg_saveTimer s = Some v \<longrightarrow> settings_ok v)
     \<and> (\<forall>n. pg_source s = Some n \<longrightarrow> n < length (pg_streams s))
     \<and> list_all (\<lambda>x. ss_done x \<longrightarrow> ss_closed x) (pg_streams s)"

lemma complete_obj_put: "complete_obj d o1 \<Longrightarrow> complete_obj d (obj_put k v o1)"
  using keys_obj_put [of k v o1] obj.ok_put [of o1 k v] by (auto simp: complete_obj_def)

lemma complete_obj_spread: "complete_obj d o1 \<Longrightarrow> complete_obj d (obj_spread o1 kvs)"
  by (induction kvs arbitrary: o1) (auto simp: obj_spread_def complete_obj_put)

lemma complete_defaults [simp]:
  "complete_obj default_inputs default_inputs" "complete_obj default_enabled default_enabled"
  by (simp_all add: complete_obj_def obj_ok_def default_inputs_def default_enabled_def)

lemma default_settings_ok [simp]: "settings_ok DEFAULT_CONFIG"
  by (simp add: settings_ok_def DEFAULT_CONFIG_def)

lemma or_default: "truthy (js_or v d) \<or> js_or v d = d"
  by (simp add: js_or_def)

lemma loaded_settings_ok [simp]: "settings_ok (loadConfig st)"
proof (cases "stored_value CONFIG_KEY st")
  case None
  then show ?thesis by (simp add: loadConfig_def)
next
  case (Some v)
  then show ?thesis
    using or_default by (simp add: loadConfig_def settings_ok_def complete_obj_spread)
qed

lemma pg_inv_other [simp]:
  "pg_inv (s\<lparr>pg_messages := a\<rparr>) \<longleftrightarrow> pg_inv s" "pg_inv (s\<lparr>pg_nextId := b\<rparr>) \<longleftrightarrow> pg_inv s"
  "pg_inv (s\<lparr>pg_debug := c\<rparr>) \<longleftrightarrow> pg_inv s" "pg_inv (s\<lparr>pg_tab := d\<rparr>) \<longleftrightarrow> pg_inv s"
  "pg_inv (s\<lparr>pg_calls := f\<rparr>) \<longleftrightarrow> pg_inv s" "pg_inv (s\<lparr>pg_sent := g\<rparr>) \<longleftrightarrow> pg_inv s"
  "pg_inv (s\<lparr>pg_editingId := h\<rparr>) \<longleftrightarrow> pg_inv s" "pg_inv (s\<lparr>pg_editRef := i\<rparr>) \<longleftrightarrow> pg_inv s"
  "pg_inv (s\<lparr>pg_editValue := j\<rparr>) \<longleftrightarrow> pg_inv s" "pg_inv (s\<lparr>pg_toasts := k\<rparr>) \<longleftrightarrow> pg_inv s"
  "pg_inv (s\<lparr>pg_messageHash := l\<rparr>) \<longleftrightarrow> pg_inv s" "pg_inv (s\<lparr>pg_bodyHash := m\<rparr>) \<longleftrightarrow> pg_inv s"
  "pg_inv (s\<lparr>pg_rendered := n\<rparr>) \<longleftrightarrow> pg_inv s" "pg_inv (s\<lparr>pg_preview := p\<rparr>) \<longleftrightarrow> pg_inv s"
  "pg_inv (s\<lparr>pg_storage := q\<rparr>) \<longleftrightarrow> pg_inv s"
  by (simp_all add: pg_inv_def)

lemma pg_inv_toast [simp]: "pg_inv (toast x s) \<longleftrightarrow> pg_inv s"
  by (simp add: toast_def)

lemma pg_inv_debug [simp]: "pg_inv (set_debug kvs s) \<longleftrightarrow> pg_inv s" "pg_inv (log_sse x s) \<longleftrightarrow> pg_inv s"
  "pg_inv (show_response v s) \<longleftrightarrow> pg_inv s" "pg_inv (draw_ids i s) \<longleftrightarrow> pg_inv s"
  by (simp_all add: set_debug_def log_sse_def show_response_def draw_ids_def)

lemma pg_inv_later [simp]: "pg_inv (later t s) \<longleftrightarrow> pg_inv s \<and> task_ok t"
  by (auto simp: pg_inv_def later_def)










text \<open>Results of steps.\<close>

definition inv_result :: "playground option \<Rightarrow> bool" where
  "inv_result r \<longleftrightarrow> (case r of None \<Rightarrow> True | Some s \<Rightarrow> pg_inv s)"

lemma inv_result_simps [simp]: "inv_result None" "inv_result (Some s) \<longleftrightarrow> pg_inv s"
  by (simp_all add: inv_result_def)









































section \<open>Coming back\<close>

lemma obj_of_literal:
  "k \<notin> fst ` set kvs \<Longrightarrow> \<not> is_index_key k \<Longrightarrow> list_all (\<lambda>(j, v). \<not> is_index_key j) kvs \<Longrightarrow>
     obj_put k v kvs = kvs @ [(k, v)]"
proof -
  assume k: "k \<notin> fst ` set kvs" "\<not> is_index_key k" and i: "list_all (\<lambda>(j, v). \<not> is_index_key j) kvs"
  have "insert_key k v kvs = kvs @ [(k, v)]" for kvs :: "(string \<times> 'a) list"
    using k(2) by (induction kvs) (auto simp: key_before_def)
  with k(1) show ?thesis by (simp add: obj_put_def)
qed



text \<open>What is left of a value in its JSON text: properties that are undefined are dropped, and
  \<open>undefined\<close> in an array and numbers that are not finite become \<open>null\<close>.\<close>

fun json_form :: "jsval \<Rightarrow> jsval" where
  "json_form JUndef = JNull"
| "json_form (JNum x) = (if is_finite_num x then JNum x else JNull)"
| "json_form (JArr vs) = JArr (map json_form vs)"
| "json_form (JObj kvs) = JObj (map (\<lambda>(k, v). (k, json_form v)) (filter (\<lambda>(k, v). v \<noteq> JUndef) kvs))"
| "json_form v = v"



lemma json_form_defined [simp]: "json_form v \<noteq> JUndef"
  by (cases v) simp_all


lemma json_form_storable: "json_storable v \<Longrightarrow> json_form v = v"
proof (induction v rule: json_form.induct)
  case (3 vs)
  then show ?case by (auto simp: list_all_iff intro: map_idI)
next
  case (4 kvs)
  then have own: "filter (\<lambda>(k, v). v \<noteq> JUndef) kvs = kvs" by (auto simp: filter_id_conv list_all_iff)
  with 4 have "map (\<lambda>(k, v). (k, json_form v)) kvs = kvs" by (fastforce simp: list_all_iff intro: map_idI)
  with own show ?case by simp
qed simp_all













end
