(* ===== verification/PlaygroundCases.thy ===== *)
theory PlaygroundCases
  imports PlaygroundSession
begin

text \<open>
  Concrete sessions of the playground: the properties applied to a page that is opened with an
  empty storage, and what the code does in the situations it does not handle.
\<close>

definition sample_env :: pg_env where
  "sample_env =
     \<lparr>iso_time = \<lambda>_. ''2026-01-01T00:00:00.000Z'', stack_of = \<lambda>_. JUndef, parse_message = \<lambda>_. ''Unexpected token'',
      type_message = ''TypeError'', tx_request_error = ''request failed'', tx_request_error_colon = ''request failed: '',
      tx_parse_failed = ''parse failed'', tx_parse_error = ''parse error: '', tx_http_status = ''HTTP status'',
      tx_disconnected = ''disconnected'', tx_start_failed = ''not started: '', tx_connect_failed = ''not connected'',
      tx_unreadable = ''unreadable'', tx_unknown = ''unknown'', tx_server_error = ''server'', tx_network_error = ''network'',
      tx_sample_message = ''sample'', tx_default_user = ''Hello'', tx_default_assistant = ''Hello! How can I help?'',
      tx_old_user = ''Ni hao'', tx_old_replies = [], tx_bad_config = ''bad configuration'',
      tx_config_parse = ''cannot parse: ''\<rparr>"

definition sample_page :: playground where
  "sample_page = the (open_playground sample_env Map.empty)"

definition chunk_data :: "string \<Rightarrow> string \<Rightarrow> string" where
  "chunk_data k t =
     json_text (JObj [(''choices'', JArr [JObj [(''delta'', JObj [(k, JStr t)])]])])"

definition ask :: "string \<Rightarrow> int \<times> pg_event" where
  "ask x = (0, PgSend (JStr x) None)"

definition run_page :: "(int \<times> pg_event) list \<Rightarrow> playground option" where
  "run_page evs = run_events (pg_step sample_env) evs sample_page"

definition last_message :: "playground \<Rightarrow> msg" where
  "last_message s = last (pg_messages s)"

definition content_of :: "playground option \<Rightarrow> jsval" where
  "content_of r = (case r of None \<Rightarrow> JUndef | Some s \<Rightarrow> field (last_message s) ''content'')"

section \<open>The properties on a page\<close>

definition asked_page :: playground where
  "asked_page = the (run_page [ask ''Hi''])"

lemma answers_change_last_message_only_witness:
  "case run_events (pg_step sample_env) [(1, PgData 0 (chunk_data ''content'' ''Yo'')), (2, PgStop)] asked_page of
     None \<Rightarrow> False | Some s' \<Rightarrow> butlast (pg_messages s') = butlast (pg_messages asked_page)"
proof -
  let ?evs = "[(1, PgData 0 (chunk_data ''content'' ''Yo'')), (2, PgStop)]"
  have "\<not> Option.is_none (run_events (pg_step sample_env) ?evs asked_page)" by code_simp
  then obtain s' where s': "run_events (pg_step sample_env) ?evs asked_page = Some s'"
    by (auto simp: Option.is_none_def)
  from answers_change_last_message_only [OF s'] s' show ?thesis by simp
qed

definition sample_data :: "(int \<times> string \<times> (chunk_kind \<times> string) list) list" where
  "sample_data =
     [(1, chunk_data ''reasoning_content'' ''hm'', [(Reasoning, ''hm'')]),
      (2, chunk_data ''content'' ''Good '', [(Content, ''Good '')]),
      (3, chunk_data ''content'' ''day'', [(Content, ''day'')])]"

lemma streamed_answer_is_complete_witness:
  "\<exists>s' a. run_events (pg_step sample_env)
        ((0, PgSend (JStr ''Hi'') None) # data_events (length (pg_streams sample_page)) sample_data
          @ [(4, PgData (length (pg_streams sample_page)) ''[DONE]'')]) sample_page = Some s'
    \<and> pg_messages s' = pg_messages sample_page @ [question 0 sample_page ''Hi'', a]
    \<and> field a ''content'' = JStr ''Good day'' \<and> field a ''reasoningContent'' = JStr ''hm''"
proof -
  have "plain_settings (pg_settings sample_page)" and "list_all (\<lambda>(now, data, cs). delivers data cs) sample_data"
    by code_simp+
  moreover have "pieces Content (delivered sample_data) = ''Good day''" "pieces Reasoning (delivered sample_data) = ''hm''"
    by code_simp+
  ultimately show ?thesis
    using streamed_answer_is_complete [of sample_page sample_data sample_env 0 "''Hi''" 4] by auto
qed

definition thinking_page :: playground where
  "thinking_page =
     the (run_page [ask ''Hi'', (1, PgData 0 (chunk_data ''content'' (tagged [(''Well '', ''one'')] ''so '' @ open_tag @ ''tw'')))])"

lemma stop_ends_the_answer_witness:
  "\<exists>s' a. pg_step sample_env (5, PgStop) thinking_page = Some s' \<and> last_message s' = a
    \<and> has_status a ''complete'' \<and> field a ''content'' = JStr ''Well so''
    \<and> field a ''reasoningContent'' = JStr (''tw'' @ thought_separator @ ''one'')"
proof -
  let ?ms = "butlast (pg_messages thinking_page)" and ?m = "last_message thinking_page"
  have "let ms = pg_messages thinking_page
        in ms \<noteq> [] \<and> receiving (tagged [(''Well '', ''one'')] ''so '' @ open_tag @ ''tw'') [] (last ms)"
    by code_simp
  then have 1: "pg_messages thinking_page = ?ms @ [?m]"
    and 2: "receiving (tagged [(''Well '', ''one'')] ''so '' @ open_tag @ ''tw'') [] ?m"
    by (simp_all add: Let_def last_message_def)
  have 3: "thoughts_ok [(''Well '', ''one'')] ''so ''" and 4: "untagged ''tw''"
    by (simp_all add: thoughts_ok_def untagged_def open_tag_def close_tag_def)
  have "answer_text [(''Well '', ''one'')] ''so '' = ''Well so''"
    "js_or (JStr (thoughts_text [[], js_trim ''tw'', join thought_separator (map snd [(''Well '', ''one'')])])) JNull
      = JStr (''tw'' @ thought_separator @ ''one'')"
    by (simp_all add: answer_text_def thoughts_text_def trim_by_def js_space_def filter_nonempty_def js_or_def)
  with stop_ends_the_answer [OF 1 2 3 4, of sample_env 5] show ?thesis
    by (auto simp: last_message_def)
qed




section \<open>Situations the code does not handle\<close>

text \<open>The conversation is cleared while an answer arrives: the end marker finds no message, and
  reading its status throws inside the update of the state.\<close>

theorem clearing_breaks_the_stream:
  assumes "plain_settings (pg_settings s)"
  shows "run_events (pg_step e)
    [(t0, PgSend (JStr x) None), (t1, PgClear), (t2, PgData (length (pg_streams s)) ''[DONE]'')] s = None"
proof -
  obtain s1 where s1: "pg_step e (t0, PgSend (JStr x) None) s = Some s1" "open_at (length (pg_streams s)) s1"
    using question_sent [OF assms] by blast
  moreover have "open_at (length (pg_streams s)) (handleClearMessages s1)"
    using s1(2) by (simp add: handleClearMessages_def later_def open_at_def)
  moreover have "pg_messages (handleClearMessages s1) = []" by (simp add: handleClearMessages_def)
  ultimately show ?thesis
    by (simp add: sse_message_def stream_done_def Let_def completeMessage_def)
qed

lemma clearing_breaks_the_stream_witness:
  "run_events (pg_step sample_env)
     [(0, PgSend (JStr ''Hi'') None), (1, PgClear), (2, PgData (length (pg_streams sample_page)) ''[DONE]'')]
     sample_page = None"
  by (rule clearing_breaks_the_stream) code_simp

text \<open>After a broken event the stream stays open and is not stopped by the next question: what it
  still delivers goes into the next answer, and the stop button no longer reaches it.\<close>

lemma old_stream_writes_into_next_answer:
  "let r = run_page [ask ''A'', (1, PgData 0 ''oops''), ask ''B'', (2, PgData 0 (chunk_data ''content'' ''rest of A''))]
   in content_of r = JStr ''rest of A'' \<and> map_option (open_at 0) r = Some True \<and> map_option pg_source r = Some (Some 1)"
  by code_simp

text \<open>A call that was stopped is not cancelled: its reply becomes the answer to the next question.\<close>

lemma stopped_reply_answers_next_question:
  "content_of (run_page
     [(0, PgInput ''stream'' (JBool False)), ask ''A'', (1, PgStop), ask ''B'',
      (2, PgReply 0 (ReplyData (JObj [(''choices'', JArr [JObj [(''message'', JObj [(''content'', JStr ''to A'')])]])])))])
   = JStr ''to A''"
  by code_simp

text \<open>A reply without choices leaves the message in the state of loading, with every action of
  every message disabled.\<close>

lemma reply_without_choices_keeps_loading:
  "map_option (\<lambda>s. has_status (last_message s) ''loading'' \<and> \<not> list_ex (\<lambda>m. actions_enabled m s) (pg_messages s))
     (run_page [(0, PgInput ''stream'' (JBool False)), ask ''A'', (1, PgReply 0 (ReplyData (JObj [])))]) = Some True"
  by code_simp

text \<open>The counter of the ids starts again with each load, so the ids of stored messages are given
  again; deleting an answer by its id then takes an older one with it.\<close>

lemma ids_start_again: "open_playground e st = Some s \<Longrightarrow> pg_nextId s = 4"
  by (auto simp: open_playground_def repair_last_def Let_def later_def split: option.splits if_splits sum.splits)

definition repeated_ids :: playground where
  "repeated_ids =
     (let q = (\<lambda>x. createMessage 0 6 ''user'' (JStr x) []); a = (\<lambda>x. createMessage 0 5 ''assistant'' (JStr x) [])
      in sample_page\<lparr>pg_messages := [q ''A'', a ''to A'', q ''B'', a ''to B'']\<rparr>)"

lemma deleting_takes_an_older_answer:
  "map_option (\<lambda>s. map (\<lambda>m. field m ''role'') (pg_messages s))
     (run_events (pg_step sample_env) [(5, PgDelete (last_message repeated_ids)), (6, PgConfirm 0 (Some 3))] repeated_ids)
   = Some [JStr ''user'', JStr ''user'']"
  by code_simp

text \<open>A change of the language puts the examples in place of a conversation that began without
  stored messages.\<close>

lemma language_change_drops_conversation:
  "map_option pg_messages (run_page [ask ''A'', (1, PgData 0 ''[DONE]''), (2, PgLanguage)])
   = Some (getDefaultMessages sample_env)"
  by code_simp

text \<open>Keeping the conversation when the configuration is reset removes it from the storage.\<close>

lemma reset_forgets_kept_conversation:
  "pg_messages (handleReset False s) = pg_messages s \<and> loadMessages (pg_storage (handleReset False s)) = JNull"
  by (simp add: handleReset_def handleConfigReset_def on_settings_def Let_def toast_def loadMessages_def
      stored_value_def clearConfig_def)

text \<open>An imported file overwrites the stored conversation before the user agrees.\<close>

lemma import_writes_before_consent:
  assumes "json_parse file = Inr (JObj kvs)" and "truthy (field kvs ''inputs'')"
    and "truthy (field kvs ''parameterEnabled'')" and "field kvs ''messages'' = JArr vs"
  shows "let s1 = handleFileChange e now file s
         in pg_storage s1 = saveMessages e now (JArr vs) (pg_storage s)
            \<and> pg_dialogs s1 = pg_dialogs s @ [ImportDialog (JObj kvs)]
            \<and> pg_storage (cancel_dialog (ImportDialog (JObj kvs)) s1) = pg_storage s1"
  using assms by (simp add: handleFileChange_def importConfig_def Let_def cancel_dialog_def field_def is_array_def)

text \<open>An import turns the custom mode on, but not off.\<close>

lemma import_keeps_custom_mode:
  assumes "handleConfigImport v s = Some s'" and "value_get v ''customRequestMode'' = JBool False"
  shows "pg_customMode (pg_settings s') = pg_customMode (pg_settings s)"
proof -
  define g :: "pg_settings \<Rightarrow> pg_settings" where "g = (case value_get v ''showDebugPanel'' of
    JBool b \<Rightarrow> (\<lambda>c. c\<lparr>pg_showDebug := JBool b\<rparr>) | _ \<Rightarrow> id)"
  have "pg_customMode (g c) = pg_customMode c" for c
    by (cases "value_get v ''showDebugPanel''") (simp_all add: g_def)
  with assms show ?thesis
    unfolding handleConfigImport_def Let_def g_def [symmetric]
    by (auto simp: on_settings_def split: if_splits)
qed

text \<open>A custom body that is \<open>null\<close> takes the page down when a message is sent.\<close>

lemma null_body_breaks_the_page:
  "Option.is_none (run_page [(0, PgCustomMode True), (1, PgCustomBody ''null''), ask ''A''])"
  by code_simp

text \<open>The configuration is saved with the settings of the render that scheduled it: the body the
  effect has just written is not among them.\<close>

lemma saved_body_is_stale:
  "map_option (\<lambda>s. (map_option pg_customBody (pg_saveTimer s), pg_customBody (pg_settings s) = JStr []))
     (run_page [(0, PgCustomMode True), (1, PgEffects), (2, PgEffects), (3, PgTask 0 None)])
   = Some (Some (JStr []), False)"
  by code_simp

text \<open>When the page opens in the custom mode with a body that is not the conversation, the messages
  go through the body and lose their reasoning and their ids.\<close>

definition custom_page :: playground where
  "custom_page =
     (on_settings (\<lambda>c. c\<lparr>pg_customMode := JBool True, pg_customBody := JStr (json_text (JObj [(''messages'', JArr [])]))\<rparr>)
        sample_page)
       \<lparr>pg_messages := [createMessage 0 7 ''assistant'' (JStr ''Yes'') [(''reasoningContent'', JStr ''why'')]]\<rparr>"

lemma custom_mode_loses_reasoning:
  "map_option (map (\<lambda>m. (field m ''id'', field m ''content'', field m ''reasoningContent'')) \<circ> pg_messages)
     (run_events (pg_step sample_env) [(1, PgEffects), (2, PgEffects)] custom_page)
   = Some [(JStr ''1'', JStr ''Yes'', JStr [])]"
  by code_simp

text \<open>The thought that was cut off is put before the earlier ones.\<close>

lemma cut_off_thought_comes_first:
  "processIncompleteThinkTags (JStr (tagged [([], ''first'')] ''x'' @ open_tag @ ''second'')) (JStr [])
   = Inr (JStr ''x'', JStr (''second'' @ thought_separator @ ''first''))"
  by code_simp

text \<open>Asking an image question again sends its text without the images.\<close>

lemma regenerating_loses_images:
  "getTextContent [(''role'', JStr ''user''), (''content'', buildMessageContent (JStr ''what?'') [''u''] (JBool True))]
   = JStr ''what?''"
  by code_simp

end
