(* ===== verification/GroupMetadata.thy ===== *)
theory GroupMetadata
  imports StoredData Machines "HOL-Library.Multiset"
begin

text \<open>
  The cache of user groups the whole console shares (\<open>web/src/helpers/group.js\<close>): what is known
  of each group, the listeners that redraw when it changes, and the request that loads the
  groups once for administrators.  Module variables are the fields of \<open>group_state\<close>; a listener
  is an identity, its calls are recorded.  The translated sentence around a subscription's name
  and the label of the empty list are parameters.  Values compared with \<open>===\<close> are compared by
  content, so two copies of one object count as equal.
\<close>

section \<open>Names\<close>

definition SUBSCRIPTION_GROUP_PREFIX :: string where "SUBSCRIPTION_GROUP_PREFIX = ''sub_plan_''"

definition SUBSCRIPTION_GROUP_SUFFIX :: string where "SUBSCRIPTION_GROUP_SUFFIX = ''_sub''"

definition tokenLabelMap :: "(string \<times> string) list" where
  "tokenLabelMap =
     [(''claude'', ''Claude''), (''codex'', ''Codex''), (''openai'', ''OpenAI''), (''gpt'', ''GPT''),
      (''nano'', ''Nano''), (''micro'', ''Micro''), (''lite'', ''Lite''), (''mini'', ''Mini''),
      (''plus'', ''Plus''), (''max'', ''Max''), (''premium'', ''Premium''), (''ultra'', ''Ultra''),
      (''pro'', ''Pro''), (''day'', ''Day''), (''month'', ''Month''), (''year'', ''Year'')]"

definition formatSubscriptionGroupToken :: "string \<Rightarrow> string" where
  "formatSubscriptionGroupToken token =
     (let normalizedToken = js_lower (js_trim token)
      in case normalizedToken of
           [] \<Rightarrow> []
         | c # cs \<Rightarrow>
             (case map_of tokenLabelMap normalizedToken of
                Some label \<Rightarrow> label
              | None \<Rightarrow> upper_char c @ cs))"

definition group_label :: "string \<Rightarrow> string" where
  "group_label namePart =
     join '' '' (filter_nonempty (map formatSubscriptionGroupToken (split_on ((=) CHR ''_'') namePart)))"

text \<open>\<open>String(groupName || '').trim()\<close>\<close>

definition group_key :: "jsval \<Rightarrow> string" where
  "group_key v = js_trim (text_of_value (js_or v (JStr [])))"

text \<open>\<open>sentence label\<close> is the translation of \<open>{{name}}\<close> with the name filled in.\<close>

definition inferGroupDescription :: "(string \<Rightarrow> string) \<Rightarrow> jsval \<Rightarrow> string" where
  "inferGroupDescription sentence groupName =
     (let normalizedGroup = group_key groupName;
          suffix_part = (case strip_suffix SUBSCRIPTION_GROUP_SUFFIX normalizedGroup of
              None \<Rightarrow> []
            | Some namePart \<Rightarrow>
                if group_label namePart \<noteq> [] then sentence (group_label namePart) else [])
      in if normalizedGroup = [] then []
         else (case strip_prefix SUBSCRIPTION_GROUP_PREFIX normalizedGroup of
                 None \<Rightarrow> suffix_part
               | Some namePart \<Rightarrow>
                   if group_label namePart \<noteq> [] then sentence (group_label namePart)
                   else suffix_part))"

section \<open>Metadata\<close>

type_synonym group_map = "(string \<times> jsval) list"

definition js_strict_eq :: "jsval \<Rightarrow> jsval \<Rightarrow> bool" where
  "js_strict_eq a b \<longleftrightarrow> a = b \<and> a \<noteq> JNum NaN"

definition metadata_field_names :: "string list" where
  "metadata_field_names = [''desc'', ''ratio'', ''billingType'', ''billingLabel'']"

definition hasMetadataChanged :: "group_map \<Rightarrow> group_map \<Rightarrow> bool" where
  "hasMetadataChanged groupMetadataMap nextMap \<longleftrightarrow>
     length groupMetadataMap \<noteq> length nextMap \<or>
     list_ex (\<lambda>(key, v).
        let current = js_or (value_get (JObj groupMetadataMap) key) (JObj []);
            next1 = js_or (value_get (JObj nextMap) key) (JObj [])
        in list_ex (\<lambda>f. \<not> js_strict_eq (value_get current f) (value_get next1 f)) metadata_field_names)
       nextMap"

text \<open>One entry of the answer: a group's name and a text, or a record of the server.\<close>

definition group_info_of :: "string \<Rightarrow> jsval \<Rightarrow> jsval" where
  "group_info_of g info =
     (case info of
        JStr s \<Rightarrow> JObj [(''desc'', if s = [] then JStr g else info)]
      | _ \<Rightarrow> JObj [(''desc'', js_or (value_get info ''desc'') (JStr g)),
                   (''ratio'', value_get info ''ratio''),
                   (''billingType'', js_coalesce (value_get info ''billing_type'') (value_get info ''billingType'')),
                   (''billingLabel'', js_coalesce (value_get info ''billing_label'') (value_get info ''billingLabel''))])"

definition put_group :: "group_map \<Rightarrow> string \<times> jsval \<Rightarrow> group_map" where
  "put_group acc gi = (if fst gi = [] then acc else obj_put (fst gi) (snd gi) acc)"

definition normalizeGroupMetadata :: "jsval \<Rightarrow> group_map" where
  "normalizeGroupMetadata data =
     (case data of
        JArr vs \<Rightarrow> foldl put_group [] (map (\<lambda>v. (group_key v, JObj [(''desc'', JStr (group_key v))])) vs)
      | JObj kvs \<Rightarrow>
          foldl put_group [] (map (\<lambda>(k, info). (js_trim k, group_info_of (js_trim k) info)) kvs)
      | _ \<Rightarrow> [])"

definition merge_group :: "group_map \<Rightarrow> string \<times> jsval \<Rightarrow> group_map" where
  "merge_group merged gi =
     (let current = js_or (value_get (JObj merged) (fst gi)) (JObj [])
      in obj_put (fst gi) (JObj (obj_spread (own_entries current) (own_entries (snd gi)))) merged)"

section \<open>The module state\<close>

datatype group_promise = NoPromise | Waiting | Answered

record group_state =
  groupMetadataMap :: group_map
  groupMetadataListeners :: "nat list"
  adminGroupMetadataPromise :: group_promise
  adminGroupMetadataLoaded :: bool
  listener_calls :: "nat list"
  group_requests :: nat

definition initial_groups :: group_state where
  "initial_groups =
     \<lparr>groupMetadataMap = [], groupMetadataListeners = [], adminGroupMetadataPromise = NoPromise,
      adminGroupMetadataLoaded = False, listener_calls = [], group_requests = 0\<rparr>"

definition notifyGroupMetadataListeners :: "group_state \<Rightarrow> group_state" where
  "notifyGroupMetadataListeners s = s\<lparr>listener_calls := listener_calls s @ groupMetadataListeners s\<rparr>"

definition primeGroupMetadata :: "jsval \<Rightarrow> group_state \<Rightarrow> group_map \<times> group_state" where
  "primeGroupMetadata data s =
     (let normalized = normalizeGroupMetadata data;
          merged = foldl merge_group (groupMetadataMap s) normalized
      in if \<not> hasMetadataChanged (groupMetadataMap s) merged then (merged, s)
         else (merged, notifyGroupMetadataListeners (s\<lparr>groupMetadataMap := merged\<rparr>)))"

definition getGroupDescription :: "(string \<Rightarrow> string) \<Rightarrow> group_state \<Rightarrow> jsval \<Rightarrow> jsval" where
  "getGroupDescription sentence s groupName =
     (let normalizedGroup = group_key groupName
      in if normalizedGroup = [] then JStr []
         else js_or (value_get (value_get (JObj (groupMetadataMap s)) normalizedGroup) ''desc'')
                (JStr (inferGroupDescription sentence (JStr normalizedGroup))))"

definition subscribeGroupMetadata :: "nat \<Rightarrow> group_state \<Rightarrow> group_state" where
  "subscribeGroupMetadata l s =
     s\<lparr>groupMetadataListeners := (if l \<in> set (groupMetadataListeners s) then groupMetadataListeners s
                                  else groupMetadataListeners s @ [l])\<rparr>"

definition unsubscribe :: "nat \<Rightarrow> group_state \<Rightarrow> group_state" where
  "unsubscribe l s = s\<lparr>groupMetadataListeners := removeAll l (groupMetadataListeners s)\<rparr>"

text \<open>The call that starts the request, the handlers of its answer (\<open>None\<close> is a failed request,
  otherwise \<open>res.data\<close>), and the \<open>finally\<close> that runs after them.\<close>

definition ensureAdminGroupMetadataLoaded :: "group_state \<Rightarrow> group_state" where
  "ensureAdminGroupMetadataLoaded s =
     (if adminGroupMetadataLoaded s then s
      else if adminGroupMetadataPromise s \<noteq> NoPromise then s
      else s\<lparr>adminGroupMetadataPromise := Waiting, group_requests := group_requests s + 1\<rparr>)"

definition group_reply :: "jsval option \<Rightarrow> group_state \<Rightarrow> group_state" where
  "group_reply reply s =
     (case reply of
        None \<Rightarrow> s
      | Some data \<Rightarrow>
          if truthy (value_get data ''success'')
          then (snd (primeGroupMetadata (value_get data ''data'') s))\<lparr>adminGroupMetadataLoaded := True\<rparr>
          else s)"

datatype group_event =
    PrimeGroups jsval
  | SubscribeGroups nat
  | UnsubscribeGroups nat
  | EnsureGroups
  | GroupsReply "jsval option"
  | GroupsFinally

fun group_step :: "group_event \<Rightarrow> group_state \<Rightarrow> group_state option" where
  "group_step (PrimeGroups data) s = Some (snd (primeGroupMetadata data s))"
| "group_step (SubscribeGroups l) s = Some (subscribeGroupMetadata l s)"
| "group_step (UnsubscribeGroups l) s = Some (unsubscribe l s)"
| "group_step EnsureGroups s = Some (ensureAdminGroupMetadataLoaded s)"
| "group_step (GroupsReply reply) s =
     (if adminGroupMetadataPromise s = Waiting
      then Some ((group_reply reply s)\<lparr>adminGroupMetadataPromise := Answered\<rparr>) else None)"
| "group_step GroupsFinally s =
     (if adminGroupMetadataPromise s = Answered
      then Some (s\<lparr>adminGroupMetadataPromise := NoPromise\<rparr>) else None)"

section \<open>Options of a selector\<close>

record group_option =
  go_label :: string
  go_value :: string
  go_ratio :: jsval
  go_fullLabel :: jsval
  go_billingType :: jsval
  go_billingLabel :: jsval

definition group_option_of :: "string \<times> jsval \<Rightarrow> group_option" where
  "group_option_of gi =
     \<lparr>go_label = fst gi, go_value = fst gi, go_ratio = value_get (snd gi) ''ratio'',
      go_fullLabel = js_or (value_get (snd gi) ''desc'') (JStr (fst gi)),
      go_billingType = value_get (snd gi) ''billingType'',
      go_billingLabel = value_get (snd gi) ''billingLabel''\<rparr>"

text \<open>\<open>label\<close> is the text of the only option when no group is known; an absent user group is the
  empty text.\<close>

definition move_first :: "('a \<Rightarrow> bool) \<Rightarrow> 'a list \<Rightarrow> 'a list" where
  "move_first P xs =
     (case dropWhile (\<lambda>x. \<not> P x) xs of
        [] \<Rightarrow> xs
      | x # rest \<Rightarrow> x # takeWhile (\<lambda>x. \<not> P x) xs @ rest)"

definition buildGroupOptions :: "string \<Rightarrow> jsval \<Rightarrow> string \<Rightarrow> group_state \<Rightarrow> group_option list \<times> group_state" where
  "buildGroupOptions label data userGroup s =
     (let (metadata, s') = primeGroupMetadata data s;
          groupOptions = map group_option_of metadata
      in (if groupOptions = []
          then [\<lparr>go_label = label, go_value = [], go_ratio = JNum (Fin 1), go_fullLabel = JStr label,
                 go_billingType = JUndef, go_billingLabel = JUndef\<rparr>]
          else if userGroup \<noteq> [] then move_first (\<lambda>g. go_value g = userGroup) groupOptions
          else groupOptions, s'))"

section \<open>The abstract store\<close>

text \<open>What a client reads of a group, the store as a map, and what priming means for it: the
  last entry of the answer that names the group decides; a name or a text sets the description
  and leaves the rest, a record replaces everything.\<close>

record group_info =
  gi_desc :: jsval
  gi_ratio :: jsval
  gi_billingType :: jsval
  gi_billingLabel :: jsval

definition info_of :: "jsval \<Rightarrow> group_info" where
  "info_of v =
     \<lparr>gi_desc = value_get v ''desc'', gi_ratio = value_get v ''ratio'',
      gi_billingType = value_get v ''billingType'', gi_billingLabel = value_get v ''billingLabel''\<rparr>"

definition no_info :: group_info where
  "no_info = \<lparr>gi_desc = JUndef, gi_ratio = JUndef, gi_billingType = JUndef, gi_billingLabel = JUndef\<rparr>"

definition abs_groups :: "group_map \<Rightarrow> string \<rightharpoonup> group_info" where
  "abs_groups m g = map_option info_of (obj_get m g)"

definition told_info :: "string \<Rightarrow> jsval \<Rightarrow> group_info \<Rightarrow> group_info" where
  "told_info g info i =
     (case info of
        JStr s \<Rightarrow> i\<lparr>gi_desc := JStr (if s = [] then g else s)\<rparr>
      | _ \<Rightarrow> \<lparr>gi_desc = (if truthy (value_get info ''desc'') then value_get info ''desc'' else JStr g),
             gi_ratio = value_get info ''ratio'',
             gi_billingType = js_coalesce (value_get info ''billing_type'') (value_get info ''billingType''),
             gi_billingLabel = js_coalesce (value_get info ''billing_label'') (value_get info ''billingLabel'')\<rparr>)"

definition told :: "jsval \<Rightarrow> string \<Rightarrow> (group_info \<Rightarrow> group_info) option" where
  "told data g =
     (if g = [] then None
      else case data of
        JArr vs \<Rightarrow> if list_ex (\<lambda>v. group_key v = g) vs then Some (\<lambda>i. i\<lparr>gi_desc := JStr g\<rparr>) else None
      | JObj kvs \<Rightarrow> map_option (\<lambda>(k, info). told_info g info) (find (\<lambda>(k, _). js_trim k = g) (rev kvs))
      | _ \<Rightarrow> None)"

definition spec_prime :: "jsval \<Rightarrow> (string \<rightharpoonup> group_info) \<Rightarrow> string \<rightharpoonup> group_info" where
  "spec_prime data A g =
     (case told data g of
        None \<Rightarrow> A g
      | Some u \<Rightarrow> Some (u (case A g of None \<Rightarrow> no_info | Some i \<Rightarrow> i)))"

definition info_fields :: "group_info \<Rightarrow> jsval list" where
  "info_fields i = [gi_desc i, gi_ratio i, gi_billingType i, gi_billingLabel i]"

text \<open>The invariant of the store: names are trimmed, nonempty and distinct, entries are objects.\<close>

definition is_object :: "jsval \<Rightarrow> bool" where
  "is_object v \<longleftrightarrow> (case v of JObj _ \<Rightarrow> True | _ \<Rightarrow> False)"

definition group_map_ok :: "group_map \<Rightarrow> bool" where
  "group_map_ok m \<longleftrightarrow> obj_ok m \<and> list_all (\<lambda>(g, v). g \<noteq> [] \<and> trimmed g \<and> is_object v) m"

section \<open>Lemmas on the store\<close>

lemma map_of_keyed: "map_of (map (\<lambda>x. (h x, f x)) xs) g = map_option f (find (\<lambda>x. h x = g) xs)"
  by (induction xs) auto

lemma map_of_keyed_pair:
  "map_of (map (\<lambda>(k, i). (h k, f k i)) kvs) g
     = map_option (\<lambda>(k, i). f k i) (find (\<lambda>(k, _). h k = g) kvs)"
  by (induction kvs) auto

lemma find_keyed:
  "map_option (\<lambda>x. f (h x)) (find (\<lambda>x. h x = g) xs) = (if list_ex (\<lambda>x. h x = g) xs then Some (f g) else None)"
  by (induction xs) auto

lemma find_keyed_pair: "find (\<lambda>(k, _). h k = g) kvs = Some (k, v) \<Longrightarrow> h k = g"
  by (induction kvs) (auto split: if_splits)

lemma get_put_groups:
  "obj_get (foldl put_group acc L) g =
     (case (if g = [] then None else map_of (rev L) g) of Some v \<Rightarrow> Some v | None \<Rightarrow> obj_get acc g)"
  by (induction L arbitrary: acc) (auto simp: put_group_def map_add_def split: option.splits)

lemma list_all_replace_key: "list_all P d \<Longrightarrow> P (k, v) \<Longrightarrow> list_all P (replace_key k v d)"
  by (induction k v d rule: replace_key.induct) auto

lemma list_all_insert_key: "list_all P d \<Longrightarrow> P (k, v) \<Longrightarrow> list_all P (insert_key k v d)"
  by (induction k v d rule: insert_key.induct) auto

lemma list_all_obj_put: "list_all P d \<Longrightarrow> P (k, v) \<Longrightarrow> list_all P (obj_put k v d)"
  by (simp add: obj_put_def list_all_replace_key list_all_insert_key)

lemma group_map_ok_put:
  "group_map_ok m \<Longrightarrow> g \<noteq> [] \<Longrightarrow> trimmed g \<Longrightarrow> is_object v \<Longrightarrow> group_map_ok (obj_put g v m)"
  by (simp add: group_map_ok_def obj.ok_put list_all_obj_put)

lemma group_map_ok_Nil [simp]: "group_map_ok []"
  by (simp add: group_map_ok_def obj_ok_def)

lemma put_groups_ok:
  "group_map_ok acc \<Longrightarrow> list_all (\<lambda>(g, v). trimmed g \<and> is_object v) L
     \<Longrightarrow> group_map_ok (foldl put_group acc L)"
  by (induction L arbitrary: acc) (auto simp: put_group_def group_map_ok_put)

lemma is_object_info [simp]: "is_object (group_info_of g v)"
  by (cases v) (simp_all add: group_info_of_def is_object_def)

lemma normalized_ok: "group_map_ok (normalizeGroupMetadata data)"
proof (cases data)
  case (JArr vs)
  then show ?thesis
    by (simp add: normalizeGroupMetadata_def)
      (rule put_groups_ok, simp_all add: list_all_iff group_key_def is_object_def)
next
  case (JObj kvs)
  then show ?thesis
    by (simp add: normalizeGroupMetadata_def)
      (rule put_groups_ok, auto simp: list_all_iff)
qed (simp_all add: normalizeGroupMetadata_def)

lemma group_map_ok_names: "group_map_ok m \<Longrightarrow> g \<in> set (map fst m) \<Longrightarrow> g \<noteq> []"
  by (auto simp: group_map_ok_def list_all_iff)

lemma group_map_get:
  assumes "group_map_ok m" and "obj_get m g = Some v"
  obtains kvs where "v = JObj kvs" and "g \<noteq> []"
proof -
  have "(g, v) \<in> set m" using assms(2) by (simp add: obj_get_def map_of_SomeD)
  with assms(1) have "is_object v" "g \<noteq> []" by (auto simp: group_map_ok_def list_all_iff)
  then show ?thesis by (cases v) (auto simp: is_object_def intro: that)
qed

text \<open>The entry of a group read with \<open>|| {}\<close>.\<close>

definition entry_of :: "group_map \<Rightarrow> string \<Rightarrow> (string \<times> jsval) list" where
  "entry_of m g = own_entries (js_or (value_get (JObj m) g) (JObj []))"

lemma merge_group_entry: "merge_group m gi = obj_put (fst gi) (JObj (obj_spread (entry_of m (fst gi)) (own_entries (snd gi)))) m"
  by (simp add: merge_group_def entry_of_def Let_def)

lemma merge_group_get [simp]:
  "obj_get (merge_group m gi) g =
     (if g = fst gi then Some (JObj (obj_spread (entry_of m g) (own_entries (snd gi)))) else obj_get m g)"
  by (simp add: merge_group_entry)

lemma merge_group_others: "g \<noteq> fst gi \<Longrightarrow> entry_of (merge_group m gi) g = entry_of m g"
  by (simp add: entry_of_def value_get_def)

lemma get_merged:
  "distinct (map fst N) \<Longrightarrow>
   obj_get (foldl merge_group m N) g =
     (case map_of N g of
        None \<Rightarrow> obj_get m g
      | Some info \<Rightarrow> Some (JObj (obj_spread (entry_of m g) (own_entries info))))"
proof (induction N arbitrary: m)
  case (Cons gi N)
  have n: "map_of N (fst gi) = None" using Cons.prems by (simp add: map_of_eq_None_iff)
  have "obj_get (foldl merge_group m (gi # N)) g = obj_get (foldl merge_group (merge_group m gi) N) g"
    by simp
  also have "\<dots> = (case map_of N g of None \<Rightarrow> obj_get (merge_group m gi) g
      | Some info \<Rightarrow> Some (JObj (obj_spread (entry_of (merge_group m gi) g) (own_entries info))))"
    using Cons by simp
  finally show ?case
    using n by (cases "g = fst gi"; cases gi) (auto simp: merge_group_others split: option.splits)
qed simp

lemma group_map_ok_Cons:
  "group_map_ok (gi # N) \<longleftrightarrow>
     fst gi \<noteq> [] \<and> trimmed (fst gi) \<and> is_object (snd gi) \<and> fst gi \<notin> set (map fst N) \<and> group_map_ok N"
  by (cases gi) (auto simp: group_map_ok_def obj_ok_def)

lemma merged_ok:
  "group_map_ok m \<Longrightarrow> group_map_ok N \<Longrightarrow> group_map_ok (foldl merge_group m N)"
proof (induction N arbitrary: m)
  case (Cons gi N)
  then have "group_map_ok (merge_group m gi)" and "group_map_ok N"
    by (simp_all add: merge_group_entry is_object_def group_map_ok_put group_map_ok_Cons)
  then show ?case using Cons.IH by simp
qed simp

lemma merged_keys: "set (map fst (foldl merge_group m N)) = set (map fst m) \<union> set (map fst N)"
  by (induction N arbitrary: m) (auto simp: merge_group_entry keys_obj_put simp del: set_map)

lemma info_of_spread:
  "info_of (JObj (obj_spread e [(''desc'', d)])) = (info_of (JObj e))\<lparr>gi_desc := d\<rparr>"
  "info_of (JObj (obj_spread e [(''desc'', d), (''ratio'', r), (''billingType'', t), (''billingLabel'', l)]))
     = \<lparr>gi_desc = d, gi_ratio = r, gi_billingType = t, gi_billingLabel = l\<rparr>"
  by (simp_all add: info_of_def value_get_def obj_spread_def)

lemma info_of_told:
  "info_of (JObj (obj_spread e (own_entries (group_info_of g info)))) = told_info g info (info_of (JObj e))"
  by (cases info) (simp_all add: group_info_of_def told_info_def own_entries_def info_of_spread js_or_def)

lemma entry_info:
  assumes "group_map_ok m"
  shows "info_of (JObj (entry_of m g)) = (case abs_groups m g of None \<Rightarrow> no_info | Some i \<Rightarrow> i)"
proof (cases "obj_get m g")
  case None
  then show ?thesis
    by (simp add: entry_of_def value_get_def js_or_def own_entries_def abs_groups_def no_info_def info_of_def)
next
  case (Some v)
  with assms obtain kvs where "v = JObj kvs" by (rule group_map_get)
  with Some show ?thesis
    by (simp add: entry_of_def value_get_def js_or_def own_entries_def abs_groups_def)
qed

lemma normalized_told:
  "map_option (\<lambda>info. info_of (JObj (obj_spread e (own_entries info)))) (map_of (normalizeGroupMetadata data) g)
     = map_option (\<lambda>u. u (info_of (JObj e))) (told data g)"
proof (cases data)
  case (JArr vs)
  have "map_of (normalizeGroupMetadata data) g =
      (if g = [] then None
       else map_option (\<lambda>v. JObj [(''desc'', JStr (group_key v))]) (find (\<lambda>v. group_key v = g) (rev vs)))"
    unfolding obj_get_def [symmetric] normalizeGroupMetadata_def JArr
    by (simp add: get_put_groups rev_map map_of_keyed split: option.splits)
  also have "\<dots> = (if g \<noteq> [] \<and> list_ex (\<lambda>v. group_key v = g) vs then Some (JObj [(''desc'', JStr g)]) else None)"
    using find_keyed [of "\<lambda>k. JObj [(''desc'', JStr k)]" group_key g "rev vs"] by simp
  finally show ?thesis
    by (simp add: told_def JArr own_entries_def info_of_spread)
next
  case (JObj kvs)
  show ?thesis
    unfolding obj_get_def [symmetric] normalizeGroupMetadata_def told_def JObj
    by (cases "find (\<lambda>(k, _). js_trim k = g) (rev kvs)")
      (auto simp: get_put_groups rev_map map_of_keyed_pair info_of_told dest: find_keyed_pair)
qed (simp_all add: normalizeGroupMetadata_def told_def)

lemma merge_refines:
  assumes "group_map_ok m"
  shows "abs_groups (foldl merge_group m (normalizeGroupMetadata data)) = spec_prime data (abs_groups m)"
proof
  fix g
  have "distinct (map fst (normalizeGroupMetadata data))"
    using normalized_ok [of data] by (simp add: group_map_ok_def obj_ok_def)
  then have "abs_groups (foldl merge_group m (normalizeGroupMetadata data)) g =
      (case map_option (\<lambda>info. info_of (JObj (obj_spread (entry_of m g) (own_entries info))))
              (map_of (normalizeGroupMetadata data) g) of
         None \<Rightarrow> abs_groups m g | Some i \<Rightarrow> Some i)"
    by (simp add: abs_groups_def get_merged split: option.splits)
  also have "\<dots> = spec_prime data (abs_groups m) g"
    unfolding normalized_told entry_info [OF assms]
    by (simp add: spec_prime_def split: option.splits)
  finally show "abs_groups (foldl merge_group m (normalizeGroupMetadata data)) g
      = spec_prime data (abs_groups m) g" .
qed

text \<open>The comparison of two stores is exact, but for \<open>NaN\<close>, which differs from itself.\<close>

definition has_nan :: "(string \<rightharpoonup> group_info) \<Rightarrow> bool" where
  "has_nan A \<longleftrightarrow> (\<exists>g i. A g = Some i \<and> JNum NaN \<in> set (info_fields i))"

lemma info_eq_fields: "i = j \<longleftrightarrow> info_fields i = info_fields j" for i j :: group_info
  by (cases i; cases j) (simp add: info_fields_def)

lemma fields_of: "map (value_get v) metadata_field_names = info_fields (info_of v)"
  by (simp add: metadata_field_names_def info_fields_def info_of_def)

lemma fields_differ:
  "list_ex (\<lambda>f. \<not> js_strict_eq (value_get v f) (value_get w f)) metadata_field_names
     \<longleftrightarrow> info_of v \<noteq> info_of w \<or> JNum NaN \<in> set (info_fields (info_of w))"
  by (auto simp: js_strict_eq_def info_eq_fields metadata_field_names_def info_fields_def info_of_def)

lemma entry_value:
  assumes "group_map_ok m"
  shows "js_or (value_get (JObj m) g) (JObj []) = JObj (entry_of m g)"
proof (cases "obj_get m g")
  case None
  then show ?thesis by (simp add: entry_of_def value_get_def js_or_def own_entries_def)
next
  case (Some v)
  with assms obtain kvs where "v = JObj kvs" by (rule group_map_get)
  with Some show ?thesis by (simp add: entry_of_def value_get_def js_or_def own_entries_def)
qed

lemma dom_abs_groups: "dom (abs_groups m) = set (map fst m)"
proof -
  have "dom (abs_groups m) = dom (map_of m)" by (auto simp: abs_groups_def obj_get_def)
  then show ?thesis by (simp add: dom_map_of_conv_image_fst)
qed

lemma changed_iff:
  assumes m: "group_map_ok m" and n: "group_map_ok n" and sub: "set (map fst m) \<subseteq> set (map fst n)"
  shows "hasMetadataChanged m n \<longleftrightarrow> abs_groups n \<noteq> abs_groups m \<or> has_nan (abs_groups n)"
proof -
  let ?A = "abs_groups m" and ?B = "abs_groups n"
  have len: "length m = card (dom ?A)" "length n = card (dom ?B)"
    using m n distinct_card [of "map fst m"] distinct_card [of "map fst n"]
    by (simp_all add: dom_abs_groups group_map_ok_def obj_ok_def del: set_map)
  have entry: "info_of (JObj (entry_of k g)) = (case abs_groups k g of None \<Rightarrow> no_info | Some i \<Rightarrow> i)"
    if "group_map_ok k" for k g using that by (rule entry_info)
  have unf: "hasMetadataChanged m n \<longleftrightarrow> length m \<noteq> length n \<or>
      (\<exists>g \<in> dom ?B. info_of (JObj (entry_of m g)) \<noteq> info_of (JObj (entry_of n g))
         \<or> JNum NaN \<in> set (info_fields (info_of (JObj (entry_of n g)))))"
    unfolding hasMetadataChanged_def Let_def entry_value [OF m] entry_value [OF n] fields_differ dom_abs_groups
    by (force simp: list_ex_iff)
  show ?thesis
  proof (cases "dom ?A = dom ?B")
    case True
    then have ne: "?B \<noteq> ?A \<longleftrightarrow> (\<exists>g \<in> dom ?B. ?A g \<noteq> ?B g)"
      by (metis domIff ext)
    have one: "(case ?A g of None \<Rightarrow> no_info | Some i \<Rightarrow> i) \<noteq> (case ?B g of None \<Rightarrow> no_info | Some i \<Rightarrow> i)
        \<longleftrightarrow> ?A g \<noteq> ?B g"
      "JNum NaN \<in> set (info_fields (case ?B g of None \<Rightarrow> no_info | Some i \<Rightarrow> i))
        \<longleftrightarrow> (\<exists>i. ?B g = Some i \<and> JNum NaN \<in> set (info_fields i))" if "g \<in> dom ?B" for g
    proof -
      from that True obtain i j where "?A g = Some i" "?B g = Some j" by blast
      then show "(case ?A g of None \<Rightarrow> no_info | Some i \<Rightarrow> i) \<noteq> (case ?B g of None \<Rightarrow> no_info | Some i \<Rightarrow> i)
          \<longleftrightarrow> ?A g \<noteq> ?B g"
        "JNum NaN \<in> set (info_fields (case ?B g of None \<Rightarrow> no_info | Some i \<Rightarrow> i))
          \<longleftrightarrow> (\<exists>i. ?B g = Some i \<and> JNum NaN \<in> set (info_fields i))" by simp_all
    qed
    have "hasMetadataChanged m n \<longleftrightarrow>
        (\<exists>g \<in> dom ?B. ?A g \<noteq> ?B g \<or> (\<exists>i. ?B g = Some i \<and> JNum NaN \<in> set (info_fields i)))"
      unfolding unf len entry [OF m] entry [OF n] using True by (simp add: one cong: bex_cong)
    then show ?thesis unfolding ne has_nan_def by blast
  next
    case False
    moreover have "dom ?A \<subseteq> dom ?B" using sub by (simp add: dom_abs_groups del: set_map)
    ultimately have "card (dom ?A) < card (dom ?B)"
      by (intro psubset_card_mono) (auto simp: dom_abs_groups)
    with False show ?thesis unfolding unf len by auto
  qed
qed

section \<open>Every reachable state\<close>

definition described :: "(string \<rightharpoonup> group_info) \<Rightarrow> bool" where
  "described A \<longleftrightarrow> (\<forall>g i. A g = Some i \<longrightarrow> truthy (gi_desc i))"

definition groups_ok :: "group_state \<Rightarrow> bool" where
  "groups_ok s \<longleftrightarrow>
     group_map_ok (groupMetadataMap s) \<and> described (abs_groups (groupMetadataMap s))
     \<and> distinct (groupMetadataListeners s)"

lemma told_described: "told data g = Some u \<Longrightarrow> truthy (gi_desc (u i))"
  by (cases data) (auto simp: told_def told_info_def split: if_splits jsval.splits)

lemma spec_described: "described A \<Longrightarrow> described (spec_prime data A)"
  by (auto simp: described_def spec_prime_def told_described split: option.splits)

lemma prime_result:
  fixes data
  assumes "group_map_ok (groupMetadataMap s)"
  defines "B \<equiv> spec_prime data (abs_groups (groupMetadataMap s))"
  shows "abs_groups (fst (primeGroupMetadata data s)) = B"
    and "abs_groups (groupMetadataMap (snd (primeGroupMetadata data s))) = B"
    and "group_map_ok (fst (primeGroupMetadata data s))"
    and "group_map_ok (groupMetadataMap (snd (primeGroupMetadata data s)))"
    and "listener_calls (snd (primeGroupMetadata data s)) =
           listener_calls s @ (if B \<noteq> abs_groups (groupMetadataMap s) \<or> has_nan B
                               then groupMetadataListeners s else [])"
proof -
  let ?n = "foldl merge_group (groupMetadataMap s) (normalizeGroupMetadata data)"
  have ok: "group_map_ok ?n" using assms normalized_ok by (simp add: merged_ok)
  have B: "abs_groups ?n = B" using merge_refines [OF assms(1)] by (simp add: B_def)
  have "hasMetadataChanged (groupMetadataMap s) ?n \<longleftrightarrow> B \<noteq> abs_groups (groupMetadataMap s) \<or> has_nan B"
    using changed_iff [OF assms(1) ok] B by (simp add: merged_keys del: set_map)
  with ok B assms(1) show "abs_groups (fst (primeGroupMetadata data s)) = B"
    "abs_groups (groupMetadataMap (snd (primeGroupMetadata data s))) = B"
    "group_map_ok (fst (primeGroupMetadata data s))"
    "group_map_ok (groupMetadataMap (snd (primeGroupMetadata data s)))"
    "listener_calls (snd (primeGroupMetadata data s)) =
       listener_calls s @ (if B \<noteq> abs_groups (groupMetadataMap s) \<or> has_nan B
                           then groupMetadataListeners s else [])"
    by (auto simp: primeGroupMetadata_def notifyGroupMetadataListeners_def Let_def)
qed

lemma prime_frame:
  "groupMetadataListeners (snd (primeGroupMetadata data s)) = groupMetadataListeners s"
  "adminGroupMetadataPromise (snd (primeGroupMetadata data s)) = adminGroupMetadataPromise s"
  "adminGroupMetadataLoaded (snd (primeGroupMetadata data s)) = adminGroupMetadataLoaded s"
  "group_requests (snd (primeGroupMetadata data s)) = group_requests s"
  by (simp_all add: primeGroupMetadata_def notifyGroupMetadataListeners_def Let_def)

lemma prime_groups_ok: "groups_ok s \<Longrightarrow> groups_ok (snd (primeGroupMetadata data s))"
  by (simp add: groups_ok_def prime_result prime_frame spec_described)

lemma group_step_ok: "groups_ok s \<Longrightarrow> group_step e s = Some s' \<Longrightarrow> groups_ok s'"
proof (cases e)
  case (GroupsReply reply)
  assume ok: "groups_ok s" and "group_step e s = Some s'"
  then have "s' = (group_reply reply s)\<lparr>adminGroupMetadataPromise := Answered\<rparr>"
    by (simp add: GroupsReply split: if_splits)
  with prime_groups_ok [OF ok] ok show ?thesis
    by (auto simp: group_reply_def groups_ok_def split: option.splits)
qed (auto simp: prime_groups_ok, auto simp: groups_ok_def subscribeGroupMetadata_def unsubscribe_def
    ensureAdminGroupMetadataLoaded_def distinct_removeAll split: if_splits)

interpretation groups: invariant_system group_step "\<lambda>s. s = initial_groups" groups_ok
proof unfold_locales
  show "groups_ok s" if "s = initial_groups" for s
    using that by (simp add: groups_ok_def initial_groups_def described_def abs_groups_def)
qed (rule group_step_ok)

lemmas group_run_ok = groups.inv_from_init [OF refl]

section \<open>The request\<close>

definition succeeded :: "group_event \<Rightarrow> bool" where
  "succeeded e \<longleftrightarrow> (case e of GroupsReply (Some data) \<Rightarrow> truthy (value_get data ''success'') | _ \<Rightarrow> False)"

definition is_reply :: "group_event \<Rightarrow> bool" where
  "is_reply e \<longleftrightarrow> (case e of GroupsReply _ \<Rightarrow> True | _ \<Rightarrow> False)"

definition flight_ok :: "group_event list \<Rightarrow> group_state \<Rightarrow> bool" where
  "flight_ok es s \<longleftrightarrow>
     group_requests s = length (filter is_reply es) + (if adminGroupMetadataPromise s = Waiting then 1 else 0)
     \<and> length (filter succeeded es) = (if adminGroupMetadataLoaded s then 1 else 0)
     \<and> (adminGroupMetadataLoaded s \<longrightarrow> adminGroupMetadataPromise s \<noteq> Waiting)"

lemma flight_step: "flight_ok es s \<Longrightarrow> group_step e s = Some s' \<Longrightarrow> flight_ok (es @ [e]) s'"
  by (cases e) (auto simp: flight_ok_def succeeded_def is_reply_def prime_frame group_reply_def
      subscribeGroupMetadata_def unsubscribe_def ensureAdminGroupMetadataLoaded_def
      split: if_splits option.splits)

lemma flight_run: "run_events group_step es initial_groups = Some s \<Longrightarrow> flight_ok es s"
proof (induction es arbitrary: s rule: rev_induct)
  case Nil
  then show ?case by (auto simp: flight_ok_def initial_groups_def)
next
  case (snoc e es)
  then show ?case
    by (auto simp: run_events_append intro: flight_step split: option.splits)
qed

section \<open>Options\<close>

lemma move_first_mset: "mset (move_first P xs) = mset xs"
proof (cases "dropWhile (\<lambda>x. \<not> P x) xs")
  case (Cons x rest)
  have "mset xs = mset (takeWhile (\<lambda>x. \<not> P x) xs @ dropWhile (\<lambda>x. \<not> P x) xs)" by simp
  with Cons show ?thesis unfolding move_first_def by simp
next
  case Nil
  then show ?thesis unfolding move_first_def Nil by simp
qed

lemma move_first_Nil [simp]: "move_first P xs = [] \<longleftrightarrow> xs = []"
  using move_first_mset [of P xs] by (metis mset_zero_iff)

lemma move_first_hd: "list_ex P xs \<Longrightarrow> P (hd (move_first P xs))"
proof -
  assume "list_ex P xs"
  then have "dropWhile (\<lambda>x. \<not> P x) xs \<noteq> []" by (auto simp: list_ex_iff dropWhile_eq_Nil_conv)
  then show ?thesis
    using hd_dropWhile [of "\<lambda>x. \<not> P x" xs] by (cases "dropWhile (\<lambda>x. \<not> P x) xs") (simp_all add: move_first_def)
qed

lemma options_value: "go_value (group_option_of gi) = fst gi"
  by (simp add: group_option_of_def)

lemma options_mset:
  "fst (primeGroupMetadata data s) \<noteq> [] \<Longrightarrow>
   mset (fst (buildGroupOptions label data u s)) = mset (map group_option_of (fst (primeGroupMetadata data s)))"
  by (auto simp: buildGroupOptions_def Let_def move_first_mset split: prod.splits)

lemma trimmed_key: "trimmed g \<Longrightarrow> group_key (JStr g) = g"
  by (simp add: group_key_def js_or_def trim_by_id)

lemma known_description:
  assumes "groups_ok s" and "abs_groups (groupMetadataMap s) g = Some i"
  shows "getGroupDescription sentence s (JStr g) = gi_desc i" and "truthy (gi_desc i)"
proof -
  from assms(2) obtain v where m: "obj_get (groupMetadataMap s) g = Some v" and i: "i = info_of v"
    by (auto simp: abs_groups_def)
  then have "(g, v) \<in> set (groupMetadataMap s)" by (simp add: obj_get_def map_of_SomeD)
  with assms(1) have g: "g \<noteq> []" "trimmed g" by (auto simp: groups_ok_def group_map_ok_def list_all_iff)
  from assms show t: "truthy (gi_desc i)" unfolding groups_ok_def described_def by blast
  with m g i show "getGroupDescription sentence s (JStr g) = gi_desc i"
    by (simp add: getGroupDescription_def trimmed_key Let_def value_get_def js_or_def info_of_def)
qed

lemma options_nonempty: "buildGroupOptions label data u s = (opts, s') \<Longrightarrow> opts \<noteq> []"
  by (auto simp: buildGroupOptions_def Let_def split: prod.splits if_splits)

lemma options_first:
  assumes "buildGroupOptions label data u s = (opts, s')" and "u \<noteq> []" and "u \<in> set (map go_value opts)"
  shows "go_value (hd opts) = u"
proof -
  let ?os = "map group_option_of (fst (primeGroupMetadata data s))"
  let ?P = "\<lambda>g. go_value g = u"
  from assms have o: "opts = move_first ?P ?os"
    by (auto simp: buildGroupOptions_def Let_def split: prod.splits if_splits)
  then have "set opts = set ?os" using move_first_mset by (metis set_mset_mset)
  with assms(3) have "list_ex ?P ?os" by (auto simp: list_ex_iff)
  then show ?thesis unfolding o by (rule move_first_hd)
qed

lemma option_description:
  assumes "groups_ok s" and m: "group_map_ok m" and same: "abs_groups m = abs_groups (groupMetadataMap s)"
    and gi: "gi \<in> set m"
  shows "go_fullLabel (group_option_of gi)
           = getGroupDescription sentence s (JStr (go_value (group_option_of gi)))"
proof -
  from m gi have "obj_get m (fst gi) = Some (snd gi)" by (simp add: group_map_ok_def obj_ok_def obj_get_def)
  with same have "abs_groups (groupMetadataMap s) (fst gi) = Some (info_of (snd gi))"
    by (metis abs_groups_def option.simps(9))
  from known_description [OF assms(1) this] show ?thesis
    by (simp add: group_option_of_def info_of_def js_or_def)
qed

section \<open>Properties\<close>

text \<open>
  C21: Priming refines the abstract store: in every reachable state, what a client reads of any
  group afterwards, from the returned map and from the module alike, is what the
  specification says, also when the code finds no change and keeps its old map; and every
  listener is called exactly once if a group reads differently (or holds a \<open>NaN\<close>), otherwise
  none.
\<close>

theorem prime_refines_store:
  assumes "run_events group_step es initial_groups = Some s"
  shows "abs_groups (groupMetadataMap (snd (primeGroupMetadata data s)))
           = spec_prime data (abs_groups (groupMetadataMap s))
         \<and> abs_groups (fst (primeGroupMetadata data s)) = spec_prime data (abs_groups (groupMetadataMap s))
         \<and> listener_calls (snd (primeGroupMetadata data s)) = listener_calls s @
             (if spec_prime data (abs_groups (groupMetadataMap s)) \<noteq> abs_groups (groupMetadataMap s)
                 \<or> has_nan (spec_prime data (abs_groups (groupMetadataMap s)))
              then groupMetadataListeners s else [])
         \<and> distinct (groupMetadataListeners s)"
  using group_run_ok [OF assms] prime_result [of s data] by (simp add: groups_ok_def)

definition sample_groups :: "group_event list" where
  "sample_groups =
     [SubscribeGroups 1,
      PrimeGroups (JObj [(''vip'', JObj [(''desc'', JStr ''VIP''), (''ratio'', JNum (Fin 2))])])]"

lemma prime_refines_store_witness:
  "\<exists>s. run_events group_step sample_groups initial_groups = Some s
       \<and> abs_groups (groupMetadataMap (snd (primeGroupMetadata (JArr [JStr '' vip '']) s))) ''vip''
           = Some \<lparr>gi_desc = JStr ''vip'', gi_ratio = JNum (Fin 2), gi_billingType = JUndef,
                   gi_billingLabel = JUndef\<rparr>"
proof -
  let ?d = "JArr [JStr '' vip '']"
  let ?m = "[(''vip'', JObj [(''desc'', JStr ''VIP''), (''ratio'', JNum (Fin 2)),
      (''billingType'', JUndef), (''billingLabel'', JUndef)])]"
  let ?s = "\<lparr>groupMetadataMap = ?m, groupMetadataListeners = [1], adminGroupMetadataPromise = NoPromise,
      adminGroupMetadataLoaded = False, listener_calls = [1], group_requests = 0\<rparr>"
  have r: "run_events group_step sample_groups initial_groups = Some ?s" by code_simp
  have "spec_prime ?d (abs_groups ?m) ''vip''
      = Some \<lparr>gi_desc = JStr ''vip'', gi_ratio = JNum (Fin 2), gi_billingType = JUndef, gi_billingLabel = JUndef\<rparr>"
    by code_simp
  with prime_refines_store [OF r, of ?d] r show ?thesis by simp
qed

text \<open>
  C36: The groups are requested once: however calls, answers and clean-ups interleave, at most
  one request is waiting, every other one has been answered, at most one answer is a
  success, the module counts as loaded exactly after it, and from then on no request is sent.
\<close>

theorem groups_single_flight:
  assumes "run_events group_step es initial_groups = Some s"
  shows "group_requests s = length (filter is_reply es) + (if adminGroupMetadataPromise s = Waiting then 1 else 0)
         \<and> length (filter succeeded es) \<le> 1
         \<and> (adminGroupMetadataLoaded s \<longleftrightarrow> length (filter succeeded es) = 1)
         \<and> (adminGroupMetadataLoaded s \<longrightarrow>
              adminGroupMetadataPromise s \<noteq> Waiting \<and> ensureAdminGroupMetadataLoaded s = s)"
  using flight_run [OF assms]
  by (simp add: flight_ok_def ensureAdminGroupMetadataLoaded_def split: if_splits)

lemma groups_single_flight_witness:
  "\<exists>s. run_events group_step
          [EnsureGroups, EnsureGroups, GroupsReply None, EnsureGroups, GroupsFinally, EnsureGroups,
           GroupsReply (Some (JObj [(''success'', JBool True)])), EnsureGroups] initial_groups = Some s
       \<and> group_requests s = 2 \<and> ensureAdminGroupMetadataLoaded s = s"
proof -
  let ?es = "[EnsureGroups, EnsureGroups, GroupsReply None, EnsureGroups, GroupsFinally, EnsureGroups,
           GroupsReply (Some (JObj [(''success'', JBool True)])), EnsureGroups]"
  let ?s = "\<lparr>groupMetadataMap = [], groupMetadataListeners = [], adminGroupMetadataPromise = Answered,
      adminGroupMetadataLoaded = True, listener_calls = [], group_requests = 2\<rparr>"
  have r: "run_events group_step ?es initial_groups = Some ?s" by code_simp
  have "length (filter is_reply ?es) = 2" and "length (filter succeeded ?es) = 1" by code_simp+
  with groups_single_flight [OF r] r show ?thesis by simp
qed

text \<open>
  The options of a group selector: never empty; each known group exactly once, with the
  description every other view shows for it; the user's own group first when it is known.
\<close>

theorem group_options_complete:
  assumes "run_events group_step es initial_groups = Some s"
    and "buildGroupOptions label data u s = (opts, s')"
  shows "opts \<noteq> []
         \<and> (groupMetadataMap s' \<noteq> [] \<longrightarrow>
              distinct (map go_value opts) \<and> set (map go_value opts) = dom (abs_groups (groupMetadataMap s'))
              \<and> list_all (\<lambda>o1. go_fullLabel o1 = getGroupDescription sentence s' (JStr (go_value o1))) opts
              \<and> (u \<in> set (map go_value opts) \<longrightarrow> go_value (hd opts) = u))"
proof (intro conjI impI)
  let ?p = "primeGroupMetadata data s"
  have ok: "groups_ok s" by (rule group_run_ok [OF assms(1)])
  have s': "s' = snd ?p" and o: "opts = fst (buildGroupOptions label data u s)"
    using assms(2) by (auto simp: buildGroupOptions_def Let_def split: prod.splits)
  have ok': "groups_ok s'" using prime_groups_ok [OF ok] by (simp add: s')
  show "opts \<noteq> []" by (rule options_nonempty [OF assms(2)])
  assume ne: "groupMetadataMap s' \<noteq> []"
  have same: "abs_groups (fst ?p) = abs_groups (groupMetadataMap s')" and okp: "group_map_ok (fst ?p)"
    using ok prime_result [of s data] by (simp_all add: groups_ok_def s')
  then have "fst ?p \<noteq> []" using ne dom_abs_groups [of "fst ?p"] dom_abs_groups [of "groupMetadataMap s'"]
    by auto
  from options_mset [OF this, of label u] have ms: "mset opts = mset (map group_option_of (fst ?p))"
    by (simp add: o)
  then have so: "set opts = group_option_of ` set (fst ?p)" by (metis list.set_map set_mset_mset)
  have vals: "mset (map go_value opts) = mset (map fst (fst ?p))"
    using arg_cong [OF ms, of "image_mset go_value"]
    by (simp add: options_value multiset.map_comp comp_def)
  then show "distinct (map go_value opts)"
    using okp by (metis group_map_ok_def mset_eq_imp_distinct_iff obj_ok_def)
  show "set (map go_value opts) = dom (abs_groups (groupMetadataMap s'))"
    using vals dom_abs_groups [of "fst ?p"] same by (metis set_mset_mset)
  show "list_all (\<lambda>o1. go_fullLabel o1 = getGroupDescription sentence s' (JStr (go_value o1))) opts"
    unfolding list_all_iff so using option_description [OF ok' okp same] by blast
  show "go_value (hd opts) = u" if "u \<in> set (map go_value opts)"
    using options_first [OF assms(2) _ that] that okp vals
    by (metis group_map_ok_names set_mset_mset)
qed

lemma group_options_complete_witness:
  "\<exists>s opts s'. run_events group_step sample_groups initial_groups = Some s
     \<and> buildGroupOptions ''groups'' (JArr [JStr ''default'', JStr ''vip'']) ''default'' s = (opts, s')
     \<and> go_value (hd opts) = ''default'' \<and> set (map go_value opts) = {''default'', ''vip''}"
proof -
  let ?d = "JArr [JStr ''default'', JStr ''vip'']"
  let ?m = "[(''vip'', JObj [(''desc'', JStr ''VIP''), (''ratio'', JNum (Fin 2)),
      (''billingType'', JUndef), (''billingLabel'', JUndef)])]"
  let ?s = "\<lparr>groupMetadataMap = ?m, groupMetadataListeners = [1], adminGroupMetadataPromise = NoPromise,
      adminGroupMetadataLoaded = False, listener_calls = [1], group_requests = 0\<rparr>"
  have r: "run_events group_step sample_groups initial_groups = Some ?s" by code_simp
  obtain opts s' where b: "buildGroupOptions ''groups'' ?d ''default'' ?s = (opts, s')" by fastforce
  then have "s' = snd (buildGroupOptions ''groups'' ?d ''default'' ?s)" by simp
  moreover have "map fst (groupMetadataMap (snd (buildGroupOptions ''groups'' ?d ''default'' ?s)))
      = [''vip'', ''default'']" by code_simp
  ultimately have "map fst (groupMetadataMap s') = [''vip'', ''default'']" by simp
  moreover from this have "groupMetadataMap s' \<noteq> []" by auto
  ultimately have "set (map go_value opts) = {''default'', ''vip''}" and "go_value (hd opts) = ''default''"
    using group_options_complete [OF r b] dom_abs_groups [of "groupMetadataMap s'"]
    by (simp_all add: insert_commute del: set_map)
  then show ?thesis using r b by (intro exI [of _ ?s] exI [of _ opts] exI [of _ s'] conjI)
qed

end
