(* ===== verification/PlaygroundData.thy ===== *)
theory PlaygroundData
  imports PlaygroundActions GroupMetadata
begin

text \<open>
  Models and groups of the playground (\<open>web/src/hooks/playground/useDataLoader.js\<close>): when the
  lists of the server arrive, a selected model or group that is not offered is replaced.
\<close>

definition page_input :: "string \<Rightarrow> playground \<Rightarrow> jsval" where
  "page_input k s = field (pg_inputs (pg_settings s)) k"

text \<open>\<open>loadModels\<close> after a successful answer: the options and the page.\<close>

definition loadModels :: "jsval list \<Rightarrow> playground \<Rightarrow> (jsval \<times> jsval) list \<times> playground" where
  "loadModels data s =
     (let (modelOptions, selectedModel) = processModelsData data (page_input ''model'' s)
      in (modelOptions,
          if selectedModel \<noteq> page_input ''model'' s then handleInputChange ''model'' selectedModel s else s))"

text \<open>The group of the user: the one of the state, else the stored one.\<close>

definition user_group :: "jsval \<Rightarrow> storage \<Rightarrow> string" where
  "user_group user st =
     (let cached = getUserData st
      in case js_or (js_or (js_or (value_get user ''effective_group'') (value_get user ''group''))
                           (value_get cached ''effective_group''))
                    (value_get cached ''group'') of
           JStr g \<Rightarrow> g | _ \<Rightarrow> [])"

definition loadGroups :: "string \<Rightarrow> jsval \<Rightarrow> jsval \<Rightarrow> group_state \<Rightarrow> playground \<Rightarrow> group_option list \<times> group_state \<times> playground" where
  "loadGroups label user data gs s =
     (let (groupOptions, gs') = buildGroupOptions label data (user_group user (pg_storage s)) gs;
          hasCurrentGroup = list_ex (\<lambda>g. JStr (go_value g) = page_input ''group'' s) groupOptions
      in (groupOptions, gs',
          if hasCurrentGroup then s
          else handleInputChange ''group''
                 (JStr (case groupOptions of [] \<Rightarrow> [] | g # _ \<Rightarrow> go_value g)) s))"

lemma page_input_change [simp]: "page_input k (handleInputChange j v s) = (if k = j then v else page_input k s)"
  by (simp add: page_input_def handleInputChange_def on_settings_def)

text \<open>The selected model is offered whenever there is one, and a model that is offered stays
  selected.\<close>

lemma loaded_model_offered:
  "data \<noteq> [] \<Longrightarrow> page_input ''model'' (snd (loadModels data s)) \<in> set data"
  "page_input ''model'' s \<in> set data \<Longrightarrow> snd (loadModels data s) = s"
  by (cases data; auto simp: loadModels_def processModelsData_def)+

text \<open>The selected group is one of the options.\<close>

lemma loaded_group_offered:
  "page_input ''group'' (snd (snd (loadGroups label user data gs s)))
     \<in> (JStr \<circ> go_value) ` set (fst (loadGroups label user data gs s))"
proof -
  obtain opts gs' where b: "buildGroupOptions label data (user_group user (pg_storage s)) gs = (opts, gs')"
    by fastforce
  obtain g rest where g: "opts = g # rest"
    using options_nonempty [OF b] by (cases opts) auto
  show ?thesis
    unfolding loadGroups_def b by (auto simp: g list_ex_iff image_iff) metis
qed

end
