(* ===== verification/Sidebar.thy ===== *)
theory Sidebar
  imports StoredData Machines
begin

text \<open>
  The modules of the side menu (\<open>web/src/hooks/common/useSidebar.js\<close>): the settings of the
  administrator merged over the defaults, the settings of the user below them, and what is
  shown.  The hook runs in several places at once; its instances share nothing but the event
  that makes the others load again.  A setting is any JSON value.
\<close>

type_synonym sections = "(string \<times> jsval) list"

definition all_true :: "string list \<Rightarrow> jsval" where
  "all_true ks = JObj (map (\<lambda>k. (k, JBool True)) (''enabled'' # ks))"

definition DEFAULT_ADMIN_CONFIG :: sections where
  "DEFAULT_ADMIN_CONFIG =
     [(''chat'', all_true [''playground'', ''chat'']),
      (''console'', all_true [''detail'', ''package'', ''token'', ''log'', ''checkinLottery'',
         ''activityLottery'', ''midjourney'', ''task'']),
      (''personal'', all_true [''topup'', ''invoice'', ''refund'', ''invite'', ''personal'', ''siteNotifications'']),
      (''public'', all_true [''pricing'', ''docs'', ''about'', ''contact'']),
      (''admin'', all_true [''channel'', ''models'', ''deployment'', ''redemption'', ''tokenAdmin'', ''ecomagent'',
         ''user'', ''subscription'', ''setting'', ''riskControl'', ''invoiceAdmin'', ''financeAdmin'',
         ''checkinAdmin'', ''r2Storage''])]"

section \<open>Merging\<close>

definition merge_section :: "string \<times> jsval \<Rightarrow> sections \<Rightarrow> sections" where
  "merge_section kv merged =
     (case kv of (k, config) \<Rightarrow>
        if \<not> is_object_value config then merged
        else
          let own = (case obj_get merged k of Some old \<Rightarrow> own_entries old | None \<Rightarrow> [])
          in obj_put k (JObj (obj_spread (obj_of own) (own_entries config))) merged)"

definition mergeAdminConfig :: "jsval \<Rightarrow> sections" where
  "mergeAdminConfig savedConfig =
     (if is_object_value savedConfig then fold merge_section (own_entries savedConfig) DEFAULT_ADMIN_CONFIG
      else DEFAULT_ADMIN_CONFIG)"

text \<open>\<open>adminConfig\<close>, from the status of the server.\<close>

definition admin_config :: "jsval \<Rightarrow> sections" where
  "admin_config modules =
     (if truthy modules
      then (case json_parse (text_of_value modules) of
              Inl _ \<Rightarrow> mergeAdminConfig JNull
            | Inr config \<Rightarrow> mergeAdminConfig config)
      else mergeAdminConfig JNull)"

definition section_modules :: "jsval \<Rightarrow> string list" where
  "section_modules s = filter (\<lambda>k. k \<noteq> ''enabled'') (value_keys s)"

text \<open>The settings of a user who has none: everything the administrator allows.\<close>

definition default_section :: "jsval \<Rightarrow> jsval" where
  "default_section s =
     JObj (obj_of ((''enabled'', JBool True)
       # map (\<lambda>k. (k, JBool True)) (filter (\<lambda>k. truthy (value_get s k)) (section_modules s))))"

definition default_user_config :: "sections \<Rightarrow> jsval" where
  "default_user_config admin =
     JObj (obj_of (map (\<lambda>(k, s). (k, default_section s)) (filter (\<lambda>(k, s). truthy (value_get s ''enabled'')) admin)))"

section \<open>What is shown\<close>

definition final_section :: "jsval \<Rightarrow> jsval \<Rightarrow> jsval" where
  "final_section adminSection userSection =
     (if \<not> truthy (value_get adminSection ''enabled'') then JObj [(''enabled'', JBool False)]
      else
        let sectionEnabled = (truthy userSection \<longrightarrow> value_get userSection ''enabled'' \<noteq> JBool False);
            userAllowed = (\<lambda>k. truthy userSection \<longrightarrow> value_get userSection k \<noteq> JBool False);
            shown = (\<lambda>k. if truthy (value_get adminSection k) then JBool (userAllowed k \<and> sectionEnabled)
                         else value_get adminSection k)
        in JObj (obj_of ((''enabled'', JBool sectionEnabled) # map (\<lambda>k. (k, shown k)) (section_modules adminSection))))"

definition finalConfig :: "sections \<Rightarrow> jsval \<Rightarrow> sections" where
  "finalConfig admin user =
     (if admin = [] \<or> \<not> truthy user then []
      else obj_of (map (\<lambda>(k, s). (k, final_section s (value_get user k))) admin))"

definition isModuleVisible :: "sections \<Rightarrow> string \<Rightarrow> string option \<Rightarrow> bool" where
  "isModuleVisible final sectionKey moduleKey =
     (case obj_get final sectionKey of
        None \<Rightarrow> False
      | Some s \<Rightarrow>
          value_get s (case moduleKey of Some k \<Rightarrow> if k = [] then ''enabled'' else k | None \<Rightarrow> ''enabled'') = JBool True)"

definition getVisibleModules :: "sections \<Rightarrow> string \<Rightarrow> string list" where
  "getVisibleModules final sectionKey =
     (case obj_get final sectionKey of
        None \<Rightarrow> []
      | Some s \<Rightarrow>
          if truthy (value_get s ''enabled'')
          then filter (\<lambda>k. value_get s k = JBool True) (section_modules s) else [])"

definition hasSectionVisibleModules :: "sections \<Rightarrow> string \<Rightarrow> bool" where
  "hasSectionVisibleModules final sectionKey =
     (case obj_get final sectionKey of
        None \<Rightarrow> False
      | Some s \<Rightarrow>
          truthy (value_get s ''enabled'') \<and> list_ex (\<lambda>k. value_get s k = JBool True) (section_modules s))"

section \<open>The instances\<close>

text \<open>A request remembers the settings of the administrator of its render, whether it shows the
  loader, and whether it is the one of \<open>refreshUserConfig\<close>, which tells the other instances.\<close>

record sidebar_load =
  sl_admin :: sections
  sl_loader :: bool
  sl_notifies :: bool

text \<open>An instance: whether it is mounted, \<open>SidebarModulesAdmin\<close> of its last render and the settings
  made of it, \<open>userConfig\<close>, \<open>loading\<close>, \<open>hasLoadedOnceRef\<close>, and the requests on their way.\<close>

record sidebar =
  sb_mounted :: bool
  sb_modules :: jsval
  sb_admin :: sections
  sb_user :: jsval
  sb_loading :: bool
  sb_once :: bool
  sb_pending :: "sidebar_load list"

definition loadUserConfig :: "bool option \<Rightarrow> bool \<Rightarrow> sidebar \<Rightarrow> sidebar" where
  "loadUserConfig withLoading notifies s =
     (let loader = (case withLoading of Some b \<Rightarrow> b | None \<Rightarrow> \<not> sb_once s)
      in s\<lparr>sb_loading := sb_loading s \<or> loader,
           sb_pending := sb_pending s @ [\<lparr>sl_admin = sb_admin s, sl_loader = loader, sl_notifies = notifies\<rparr>]\<rparr>)"

text \<open>The effect of the settings of the administrator.\<close>

definition load_when_known :: "bool option \<Rightarrow> sidebar \<Rightarrow> sidebar" where
  "load_when_known withLoading s = (if sb_admin s \<noteq> [] then loadUserConfig withLoading False s else s)"

definition mount_sidebar :: "jsval \<Rightarrow> sidebar" where
  "mount_sidebar modules =
     load_when_known None
       \<lparr>sb_mounted = True, sb_modules = modules, sb_admin = admin_config modules, sb_user = JNull,
        sb_loading = True, sb_once = False, sb_pending = []\<rparr>"

text \<open>The settings in a reply: \<open>None\<close> is a request that failed; the reply may be any value.\<close>

definition replied_config :: "sections \<Rightarrow> jsval option \<Rightarrow> jsval" where
  "replied_config admin reply =
     (case reply of
        None \<Rightarrow> default_user_config admin
      | Some data \<Rightarrow>
          let modules = value_get (value_get data ''data'') ''sidebar_modules''
          in if truthy (value_get data ''success'') \<and> truthy modules
             then (case modules of
                     JStr text \<Rightarrow> (case json_parse text of Inl _ \<Rightarrow> default_user_config admin | Inr config \<Rightarrow> config)
                   | _ \<Rightarrow> modules)
             else default_user_config admin)"

definition finish_load :: "sidebar_load \<Rightarrow> jsval option \<Rightarrow> sidebar \<Rightarrow> sidebar" where
  "finish_load l reply s =
     s\<lparr>sb_user := replied_config (sl_admin l) reply,
       sb_loading := (if sl_loader l then False else sb_loading s), sb_once := True\<rparr>"

text \<open>The status of the server is stored again.  A value that is an object is a new one each
  time, so the settings are computed anew although it reads the same.\<close>

definition change_status :: "jsval \<Rightarrow> sidebar \<Rightarrow> sidebar" where
  "change_status modules s =
     (if \<not> sb_mounted s \<or> (modules = sb_modules s \<and> \<not> is_object_value modules) then s
      else load_when_known None (s\<lparr>sb_modules := modules, sb_admin := admin_config modules\<rparr>))"

text \<open>\<open>handleRefresh\<close> of the instances the event does not come from.\<close>

definition notify_others :: "nat \<Rightarrow> sidebar list \<Rightarrow> sidebar list" where
  "notify_others i ss =
     map (\<lambda>(j, s). if j = i \<or> \<not> sb_mounted s then s else load_when_known (Some False) s) (zip [0..<length ss] ss)"

definition refreshUserConfig :: "nat \<Rightarrow> sidebar list \<Rightarrow> sidebar list" where
  "refreshUserConfig i ss =
     (if sb_admin (ss ! i) \<noteq> [] then ss[i := loadUserConfig (Some False) True (ss ! i)]
      else notify_others i ss)"

definition drop_request :: "nat \<Rightarrow> sidebar \<Rightarrow> sidebar" where
  "drop_request k s = s\<lparr>sb_pending := take k (sb_pending s) @ drop (k + 1) (sb_pending s)\<rparr>"

definition take_reply :: "nat \<Rightarrow> nat \<Rightarrow> jsval option \<Rightarrow> sidebar list \<Rightarrow> sidebar list" where
  "take_reply i k reply ss =
     (let s = ss ! i; l = sb_pending s ! k; ss' = ss[i := finish_load l reply (drop_request k s)]
      in if sl_notifies l then notify_others i ss' else ss')"

datatype sidebar_event =
    SbMount jsval
  | SbUnmount nat
  | SbStatus jsval
  | SbRefresh nat
  | SbReply nat nat "jsval option"

fun sidebar_step :: "sidebar_event \<Rightarrow> sidebar list \<Rightarrow> sidebar list option" where
  "sidebar_step (SbMount modules) ss = Some (ss @ [mount_sidebar modules])"
| "sidebar_step (SbUnmount i) ss =
     Some (if i < length ss then ss[i := (ss ! i)\<lparr>sb_mounted := False\<rparr>] else ss)"
| "sidebar_step (SbStatus modules) ss = Some (map (change_status modules) ss)"
| "sidebar_step (SbRefresh i) ss = Some (if i < length ss then refreshUserConfig i ss else ss)"
| "sidebar_step (SbReply i k reply) ss =
     Some (if i < length ss \<and> k < length (sb_pending (ss ! i)) then take_reply i k reply ss else ss)"

section \<open>Settings are well formed\<close>

definition section_ok :: "jsval \<Rightarrow> bool" where
  "section_ok s = (case s of JObj kvs \<Rightarrow> obj_ok kvs | _ \<Rightarrow> False)"

definition sections_ok :: "sections \<Rightarrow> bool" where
  "sections_ok admin \<longleftrightarrow> admin \<noteq> [] \<and> obj_ok admin \<and> (\<forall>k s. obj_get admin k = Some s \<longrightarrow> section_ok s)"

lemma section_okE:
  assumes "section_ok s"
  obtains kvs where "s = JObj kvs" "obj_ok kvs"
  using assms by (auto simp: section_ok_def split: jsval.splits)

lemma default_sections_ok: "sections_ok DEFAULT_ADMIN_CONFIG"
  unfolding sections_ok_def DEFAULT_ADMIN_CONFIG_def all_true_def section_ok_def obj_get_def obj_ok_def
  by (auto split: if_splits)

lemma obj_put_not_Nil [simp]: "obj_put k v d \<noteq> []"
  using keys_obj_put [of k v d] by auto

lemma merge_section_ok: "sections_ok merged \<Longrightarrow> sections_ok (merge_section kv merged)"
  unfolding merge_section_def sections_ok_def section_ok_def
  by (auto simp: Let_def obj.ok_put obj_of_def intro!: obj_ok_spread obj.ok_empty split: prod.splits)

lemma merged_sections_ok: "sections_ok (mergeAdminConfig config)"
proof -
  have "sections_ok (fold merge_section kvs admin)" if "sections_ok admin" for kvs admin
    using that by (induction kvs arbitrary: admin) (simp_all add: merge_section_ok)
  then show ?thesis by (simp add: mergeAdminConfig_def default_sections_ok)
qed

lemma admin_config_ok: "sections_ok (admin_config modules)"
  by (simp add: admin_config_def merged_sections_ok split: sum.splits)

text \<open>An object built from another one, key by key, reads key by key.\<close>

lemma obj_get_of_distinct: "distinct (map fst kvs) \<Longrightarrow> obj_get (obj_of kvs) k = map_of kvs k"
  by (simp add: obj_of_def obj_get_spread map_of_rev_keys split: option.splits)

lemma map_of_by_key: "map_of (map (\<lambda>(k, s). (k, f k s)) kvs) k = map_option (f k) (map_of kvs k)"
  by (induction kvs) auto

lemma obj_get_mapped:
  "obj_ok kvs \<Longrightarrow> obj_get (obj_of (map (\<lambda>(k, s). (k, f k s)) kvs)) k = map_option (f k) (obj_get kvs k)"
  using map_of_by_key [of f kvs k]
  by (subst obj_get_of_distinct) (auto simp: obj_ok_def obj_get_def comp_def split_def)

lemma value_get_keys:
  assumes "distinct ks" "''enabled'' \<notin> set ks"
  shows "value_get (JObj (obj_of ((''enabled'', e) # map (\<lambda>k. (k, f k)) ks))) k =
    (if k = ''enabled'' then e else if k \<in> set ks then f k else JUndef)"
proof -
  have "distinct (map fst ((''enabled'', e) # map (\<lambda>k. (k, f k)) ks))"
    using assms by (simp add: comp_def)
  note get = obj_get_of_distinct [OF this]
  have "map_of (map (\<lambda>k. (k, f k)) ks) k = (if k \<in> set ks then Some (f k) else None)"
    by (induction ks) auto
  then show ?thesis by (simp add: value_get_def get)
qed

lemma section_modules_ok:
  assumes "section_ok s"
  shows "distinct (section_modules s)" "''enabled'' \<notin> set (section_modules s)"
    "m \<noteq> ''enabled'' \<Longrightarrow> m \<notin> set (section_modules s) \<Longrightarrow> value_get s m = JUndef"
  using assms
  by (auto elim!: section_okE simp: section_modules_def value_keys_def obj_ok_def value_get_def obj_get_def
      split: option.splits dest!: map_of_SomeD intro!: distinct_filter rev_image_eqI)

section \<open>What is shown is what is allowed\<close>

definition admin_allows :: "sections \<Rightarrow> string \<Rightarrow> string \<Rightarrow> bool" where
  "admin_allows admin sec m =
     (case obj_get admin sec of
        None \<Rightarrow> False
      | Some s \<Rightarrow> truthy (value_get s ''enabled'') \<and> truthy (value_get s m))"

definition user_keeps :: "jsval \<Rightarrow> string \<Rightarrow> string \<Rightarrow> bool" where
  "user_keeps user sec m \<longleftrightarrow>
     truthy user \<and>
     (truthy (value_get user sec) \<longrightarrow>
        value_get (value_get user sec) ''enabled'' \<noteq> JBool False \<and> value_get (value_get user sec) m \<noteq> JBool False)"

lemma final_section_get:
  assumes "section_ok s" "m \<noteq> ''enabled''"
  shows "value_get (final_section s u) m = JBool True \<longleftrightarrow>
    truthy (value_get s ''enabled'') \<and> truthy (value_get s m) \<and>
    (truthy u \<longrightarrow> value_get u ''enabled'' \<noteq> JBool False \<and> value_get u m \<noteq> JBool False)"
proof (cases "truthy (value_get s ''enabled'')")
  case False
  then show ?thesis using assms by (simp add: final_section_def value_get_def obj_get_def)
next
  case True
  show ?thesis
  proof (cases "m \<in> set (section_modules s)")
    case here: True
    show ?thesis
      using True assms here value_get_keys [OF section_modules_ok(1,2) [OF assms(1)]]
      by (cases "truthy (value_get s m)") (auto simp: final_section_def Let_def)
  next
    case False
    then show ?thesis
      using True assms section_modules_ok(3) [OF assms] value_get_keys [OF section_modules_ok(1,2) [OF assms(1)]]
      by (simp add: final_section_def Let_def)
  qed
qed

lemma module_visible:
  assumes "sections_ok admin" "m \<notin> {[], ''enabled''}"
  shows "isModuleVisible (finalConfig admin user) sec (Some m) \<longleftrightarrow> admin_allows admin sec m \<and> user_keeps user sec m"
  using assms
  by (auto simp: isModuleVisible_def finalConfig_def admin_allows_def user_keeps_def sections_ok_def
      obj_get_mapped final_section_get split: option.splits)

lemma listed_modules:
  "m \<noteq> [] \<Longrightarrow> m \<in> set (getVisibleModules final sec) \<Longrightarrow> isModuleVisible final sec (Some m)"
  "hasSectionVisibleModules final sec \<longleftrightarrow> getVisibleModules final sec \<noteq> []"
  by (cases "obj_get final sec";
      auto simp: getVisibleModules_def hasSectionVisibleModules_def isModuleVisible_def list_ex_iff
        filter_empty_conv split: if_splits)+

text \<open>The settings of a user who has none keep everything, also when they were made of other
  settings of the administrator: what they do not mention is not hidden.\<close>

lemma default_section_get: "value_get (default_section s) k \<noteq> JBool False"
proof -
  have "obj_get (obj_of ((''enabled'', JBool True) # map (\<lambda>k. (k, JBool True)) ks)) k \<in> {None, Some (JBool True)}" for ks
    by (auto simp: obj_of_def obj_get_spread map_add_def split: option.splits dest!: map_of_SomeD)
  note this [of "filter (\<lambda>k. truthy (value_get s k)) (section_modules s)"]
  then show ?thesis by (auto simp: default_section_def value_get_def split: option.splits)
qed

lemma default_config_keeps: "user_keeps (default_user_config admin) sec m"
proof -
  have "value_get (default_user_config admin) sec \<in> {JUndef} \<union> range default_section"
    by (auto simp: default_user_config_def value_get_def obj_of_def obj_get_spread split: option.splits prod.splits
        dest!: map_of_SomeD)
  then show ?thesis
    using default_section_get by (auto simp: user_keeps_def default_user_config_def)
qed

section \<open>Runs\<close>

definition menu_ok :: "sidebar \<Rightarrow> bool" where
  "menu_ok s \<longleftrightarrow>
     sb_admin s = admin_config (sb_modules s) \<and>
     (sb_loading s \<longrightarrow> (\<exists>l \<in> set (sb_pending s). sl_loader l)) \<and>
     (sb_pending s = [] \<longrightarrow> sb_once s)"

lemma admin_config_some [simp]: "admin_config modules \<noteq> []"
  using admin_config_ok by (simp add: sections_ok_def)

lemma left_pending:
  assumes "x \<in> set xs" "x \<noteq> xs ! k"
  shows "x \<in> set (take k xs @ drop (k + 1) xs)"
proof (cases "k < length xs")
  case True
  then have "set xs = set (take k xs @ xs ! k # drop (Suc k) xs)"
    by (metis id_take_nth_drop)
  then show ?thesis using assms by auto
qed (use assms in simp)

lemma load_menu_ok: "menu_ok s \<Longrightarrow> menu_ok (loadUserConfig w n s)"
  by (auto simp: menu_ok_def loadUserConfig_def Let_def)

lemma known_menu_ok: "menu_ok s \<Longrightarrow> menu_ok (load_when_known w s)"
  by (simp add: load_when_known_def load_menu_ok)

lemma mounted_menu_ok: "menu_ok (mount_sidebar modules)"
  by (simp add: mount_sidebar_def load_when_known_def menu_ok_def loadUserConfig_def)

lemma status_menu_ok: "menu_ok s \<Longrightarrow> menu_ok (change_status modules s)"
  by (auto simp: change_status_def load_when_known_def menu_ok_def loadUserConfig_def Let_def)

lemma reply_menu_ok:
  assumes "menu_ok s" "k < length (sb_pending s)"
  shows "menu_ok (finish_load (sb_pending s ! k) reply (drop_request k s))"
proof -
  have "\<exists>l \<in> set (take k (sb_pending s) @ drop (k + 1) (sb_pending s)). sl_loader l"
    if "\<not> sl_loader (sb_pending s ! k)" "sb_loading s"
    using that assms left_pending [of _ "sb_pending s" k] unfolding menu_ok_def by metis
  then show ?thesis using assms by (auto simp: menu_ok_def finish_load_def drop_request_def)
qed

text \<open>A property that every load keeps holds of the others after an event of one instance.\<close>

lemma notified: "\<forall>s \<in> set ss. P s \<Longrightarrow> (\<And>s w. P s \<Longrightarrow> P (load_when_known w s)) \<Longrightarrow> \<forall>s \<in> set (notify_others i ss). P s"
  by (auto simp: notify_others_def dest: set_zip_rightD)

lemma updated: "\<forall>s \<in> set ss. P s \<Longrightarrow> P s' \<Longrightarrow> \<forall>s \<in> set (ss[i := s']). P s"
  by (auto dest: set_update_subset_insert [THEN subsetD])

lemma sidebar_step_keeps:
  assumes "sidebar_step e ss = Some ss'" "\<forall>s \<in> set ss. P s"
    and mount: "\<And>modules. P (mount_sidebar modules)"
    and unmount: "\<And>s. P s \<Longrightarrow> P (s\<lparr>sb_mounted := False\<rparr>)"
    and status: "\<And>modules s. P s \<Longrightarrow> P (change_status modules s)"
    and load: "\<And>w n s. P s \<Longrightarrow> P (loadUserConfig w n s)"
    and reply: "\<And>i k reply s. e = SbReply i k reply \<Longrightarrow> P s \<Longrightarrow> k < length (sb_pending s) \<Longrightarrow>
      P (finish_load (sb_pending s ! k) reply (drop_request k s))"
  shows "\<forall>s \<in> set ss'. P s"
proof -
  have known: "P (load_when_known w s)" if "P s" for w s
    using load that by (simp add: load_when_known_def)
  note others = notified [of _ P, OF _ known]
  show ?thesis
  proof (cases e)
    case (SbMount modules)
    then show ?thesis using assms(1,2) mount [of modules] by auto
  next
    case (SbUnmount i)
    have "\<forall>s \<in> set (ss[i := (ss ! i)\<lparr>sb_mounted := False\<rparr>]). P s" if "i < length ss"
      by (intro updated assms(2) unmount) (simp add: that assms(2))
    then show ?thesis using assms(1,2) SbUnmount by (simp split: if_splits)
  next
    case (SbStatus modules)
    then show ?thesis using assms(1,2) status by auto
  next
    case (SbRefresh i)
    have "\<forall>s \<in> set (refreshUserConfig i ss). P s" if "i < length ss"
    proof (cases "sb_admin (ss ! i) \<noteq> []")
      case True
      have "\<forall>s \<in> set (ss[i := loadUserConfig (Some False) True (ss ! i)]). P s"
        by (intro updated assms(2) load) (simp add: that assms(2))
      then show ?thesis using True by (simp add: refreshUserConfig_def)
    next
      case False
      then show ?thesis using others [OF assms(2), of i] by (simp add: refreshUserConfig_def)
    qed
    then show ?thesis using assms(1,2) unfolding SbRefresh sidebar_step.simps by (cases "i < length ss") simp_all
  next
    case (SbReply i k r)
    show ?thesis
    proof (cases "i < length ss \<and> k < length (sb_pending (ss ! i))")
      case True
      define s' where "s' = finish_load (sb_pending (ss ! i) ! k) r (drop_request k (ss ! i))"
      have "\<forall>s \<in> set (ss[i := s']). P s"
        unfolding s'_def using True by (intro updated reply [OF SbReply] assms(2)) (simp_all add: assms(2))
      with others [OF this, of i] show ?thesis
        using assms(1) SbReply True unfolding s'_def by (simp add: take_reply_def Let_def split: if_splits)
    next
      case False
      then show ?thesis using assms(1,2) SbReply by (simp split: if_splits)
    qed
  qed
qed

interpretation menus: invariant_system sidebar_step "\<lambda>ss. ss = []" "\<lambda>ss. \<forall>s \<in> set ss. menu_ok s"
proof
  show "\<forall>s \<in> set ss'. menu_ok s" if "\<forall>s \<in> set ss. menu_ok s" "sidebar_step e ss = Some ss'" for ss e ss'
    using that(2,1)
    by (rule sidebar_step_keeps)
      (simp_all add: mounted_menu_ok status_menu_ok load_menu_ok reply_menu_ok, simp add: menu_ok_def)
qed simp

section \<open>Properties\<close>

text \<open>
  C24: In every state the menus can reach, whatever was stored by the administrator and the user
  and whatever replies came in which order, a module is shown exactly when the settings of the
  administrator that hold now enable its section and allow it, the settings of the user have
  come, and these hide neither the section nor the module.
\<close>
theorem shown_modules_are_allowed:
  assumes "run_events sidebar_step es [] = Some ss" "s \<in> set ss" "m \<notin> {[], ''enabled''}"
  shows "isModuleVisible (finalConfig (sb_admin s) (sb_user s)) sec (Some m) \<longleftrightarrow>
    admin_allows (admin_config (sb_modules s)) sec m \<and> user_keeps (sb_user s) sec m"
proof -
  have "menu_ok s" using menus.inv_from_init [OF _ assms(1)] assms(2) by simp
  then show ?thesis using module_visible [OF admin_config_ok assms(3)] by (simp add: menu_ok_def)
qed

text \<open>A run in which no reply carries settings of the user.\<close>

definition carries_settings :: "sidebar_event \<Rightarrow> bool" where
  "carries_settings e =
     (case e of
        SbReply _ _ (Some data) \<Rightarrow>
          truthy (value_get data ''success'') \<and>
          truthy (value_get (value_get data ''data'') ''sidebar_modules'')
      | _ \<Rightarrow> False)"

definition default_menu :: "sidebar \<Rightarrow> bool" where
  "default_menu s \<longleftrightarrow> menu_ok s \<and> (sb_once s \<longrightarrow> (\<exists>admin. sb_user s = default_user_config admin))"

definition unset_step :: "sidebar_event \<Rightarrow> sidebar list \<Rightarrow> sidebar list option" where
  "unset_step e ss = (if carries_settings e then None else sidebar_step e ss)"

lemma default_menu_load: "default_menu s \<Longrightarrow> default_menu (loadUserConfig w n s)"
  using load_menu_ok [of s w n] by (simp add: default_menu_def) (simp add: loadUserConfig_def Let_def)

lemma default_menu_status: "default_menu s \<Longrightarrow> default_menu (change_status modules s)"
  using status_menu_ok [of s modules]
  by (simp add: default_menu_def) (simp add: change_status_def load_when_known_def loadUserConfig_def Let_def)

lemma default_menu_mount: "default_menu (mount_sidebar modules)"
  using mounted_menu_ok [of modules]
  by (simp add: default_menu_def) (simp add: mount_sidebar_def load_when_known_def loadUserConfig_def Let_def)

lemma default_menu_reply:
  assumes "\<not> carries_settings (SbReply i k reply)" "default_menu s" "k < length (sb_pending s)"
  shows "default_menu (finish_load (sb_pending s ! k) reply (drop_request k s))"
proof -
  have "replied_config admin reply = default_user_config admin" for admin
    using assms(1) by (auto simp: carries_settings_def replied_config_def Let_def split: option.splits)
  then show ?thesis
    using assms reply_menu_ok [of s k reply]
    by (simp add: default_menu_def) (auto simp: finish_load_def drop_request_def)
qed

interpretation unset: invariant_system unset_step "\<lambda>ss. ss = []" "\<lambda>ss. \<forall>s \<in> set ss. default_menu s"
proof
  show "\<forall>s \<in> set ss'. default_menu s" if "\<forall>s \<in> set ss. default_menu s" "unset_step e ss = Some ss'" for ss e ss'
  proof -
    have e: "\<not> carries_settings e" "sidebar_step e ss = Some ss'"
      using that(2) by (auto simp: unset_step_def split: if_splits)
    show ?thesis
      by (rule sidebar_step_keeps [OF e(2) that(1)])
        (use e(1) default_menu_reply in
          \<open>auto simp: default_menu_mount default_menu_status default_menu_load, simp add: default_menu_def menu_ok_def\<close>)
  qed
qed simp

lemma unset_run:
  "list_all (\<lambda>e. \<not> carries_settings e) es \<Longrightarrow> run_events unset_step es ss = run_events sidebar_step es ss"
  by (induction es arbitrary: ss) (auto simp: unset_step_def split: option.splits)

text \<open>
  C31: As long as no reply brings settings of the user - the user has stored none, or the requests
  fail - an instance whose requests have all been answered is not loading and shows every module
  the administrator allows now, also when the settings it fell back on were made before the
  administrator changed the menu.
\<close>
theorem menu_without_settings_shows_all:
  assumes "run_events sidebar_step es [] = Some ss" "list_all (\<lambda>e. \<not> carries_settings e) es"
    and "s \<in> set ss" "sb_pending s = []" "m \<notin> {[], ''enabled''}"
  shows "\<not> sb_loading s \<and>
    (isModuleVisible (finalConfig (sb_admin s) (sb_user s)) sec (Some m) \<longleftrightarrow>
      admin_allows (admin_config (sb_modules s)) sec m)"
proof -
  have "default_menu s"
    using unset.inv_from_init [of "[]" es ss] assms(1-3) by (simp add: unset_run)
  then show ?thesis
    using module_visible [OF admin_config_ok assms(5)] assms(4) default_config_keeps
    by (auto simp: default_menu_def menu_ok_def)
qed

definition no_settings :: jsval where
  "no_settings = JObj [(''success'', JBool True), (''data'', JObj [(''sidebar_modules'', JStr [])])]"

definition null_settings :: jsval where
  "null_settings = JObj [(''success'', JBool True), (''data'', JObj [(''sidebar_modules'', JStr ''null'')])]"

definition hiding_settings :: jsval where
  "hiding_settings = JObj [(''success'', JBool True),
     (''data'', JObj [(''sidebar_modules'', JObj [(''console'', JObj [(''enabled'', JBool True), (''log'', JBool False)])])])]"

text \<open>Two menus, the second of which the user refreshes; the first loads again.\<close>

definition menu_events :: "jsval \<Rightarrow> sidebar_event list" where
  "menu_events data =
     [SbMount JUndef, SbMount JUndef, SbReply 0 0 (Some no_settings), SbReply 1 0 None,
      SbRefresh 1, SbReply 1 0 (Some data), SbReply 0 0 (Some data)]"

lemma menu_run:
  "(case run_events sidebar_step (menu_events hiding_settings) [] of
      Some (s # ss) \<Rightarrow> user_keeps (sb_user s) ''console'' ''task'' \<and>
        \<not> user_keeps (sb_user s) ''console'' ''log'' \<and> sb_modules s = JUndef
    | _ \<Rightarrow> False) \<and>
   admin_allows (admin_config JUndef) ''console'' ''task'' \<and>
   (case run_events sidebar_step (menu_events no_settings) [] of
      Some (s # ss) \<Rightarrow> sb_pending s = [] \<and> sb_modules s = JUndef
    | _ \<Rightarrow> False) \<and>
   list_all (\<lambda>e. \<not> carries_settings e) (menu_events no_settings)"
  by code_simp

lemma shown_modules_are_allowed_witness:
  "\<exists>s ss. run_events sidebar_step (menu_events hiding_settings) [] = Some (s # ss) \<and>
    isModuleVisible (finalConfig (sb_admin s) (sb_user s)) ''console'' (Some ''task'') \<and>
    \<not> isModuleVisible (finalConfig (sb_admin s) (sb_user s)) ''console'' (Some ''log'')"
proof -
  obtain s ss where run: "run_events sidebar_step (menu_events hiding_settings) [] = Some (s # ss)"
      "user_keeps (sb_user s) ''console'' ''task''" "\<not> user_keeps (sb_user s) ''console'' ''log''" "sb_modules s = JUndef"
    using menu_run by (auto split: option.splits list.splits)
  then show ?thesis
    using shown_modules_are_allowed [OF run(1), of s "''task''" "''console''"]
      shown_modules_are_allowed [OF run(1), of s "''log''" "''console''"] menu_run by auto
qed

lemma menu_without_settings_shows_all_witness:
  "\<exists>s ss. run_events sidebar_step (menu_events no_settings) [] = Some (s # ss) \<and> \<not> sb_loading s \<and>
    isModuleVisible (finalConfig (sb_admin s) (sb_user s)) ''console'' (Some ''task'')"
proof -
  obtain s ss where run: "run_events sidebar_step (menu_events no_settings) [] = Some (s # ss)"
      "sb_pending s = []" "sb_modules s = JUndef"
    using menu_run by (auto split: option.splits list.splits)
  then show ?thesis
    using menu_without_settings_shows_all [OF run(1), of s "''task''" "''console''"] menu_run by auto
qed

text \<open>Settings stored as the text \<open>null\<close> leave the menus empty, for good.\<close>

lemma null_settings_empty_the_menu:
  "(case run_events sidebar_step [SbMount JUndef, SbReply 0 0 (Some null_settings)] [] of
      Some [s] \<Rightarrow> \<not> sb_loading s \<and> finalConfig (sb_admin s) (sb_user s) = []
    | _ \<Rightarrow> False)"
  by code_simp

end
