(* ===== verification/Permissions.thy ===== *)
theory Permissions
  imports StoredData
begin

text \<open>
  Permissions of the console: the permission points, templates and groups of
  \<open>web/src/constants/permission.constants.js\<close> and the checks of
  \<open>web/src/hooks/common/useUserPermissions.js\<close>.  The Chinese labels are left out.
\<close>

section \<open>Permission points\<close>

definition PAGE_PERMISSION_POINTS :: "(string \<times> string) list" where
  "PAGE_PERMISSION_POINTS =
     [(''dashboard'', ''dashboard.view''), (''package'', ''package.view''),
      (''token'', ''token.view''), (''log'', ''log.view''), (''logExport'', ''log.export''),
      (''midjourneyLog'', ''midjourney_log.view''), (''taskLog'', ''task_log.view''),
      (''checkinLottery'', ''checkin_lottery.view''),
      (''activityLottery'', ''activity_lottery.view''), (''topup'', ''topup.view''),
      (''invoice'', ''invoice.view''), (''invite'', ''invite.view''),
      (''personal'', ''personal.view''), (''siteNotification'', ''site_notification.view''),
      (''channel'', ''channel.view''), (''subscription'', ''subscription.view''),
      (''models'', ''model.view''), (''deployment'', ''deployment.view''),
      (''redemption'', ''redemption.view''), (''tokenAdmin'', ''token_admin.view''),
      (''user'', ''user.view''), (''riskControl'', ''risk_control.view''),
      (''financeAdmin'', ''finance_admin.view''), (''invoiceAdmin'', ''invoice_admin.view''),
      (''setting'', ''setting.view''), (''r2Storage'', ''r2_storage.view''),
      (''checkinAdmin'', ''checkin_admin.view''), (''ecomagent'', ''ecomagent.view''),
      (''activityAdmin'', ''activity_admin.view'')]"

definition ACTION_PERMISSION_POINTS :: "(string \<times> string) list" where
  "ACTION_PERMISSION_POINTS =
     [(''channelCreate'', ''channel.create''), (''channelEdit'', ''channel.edit''),
      (''channelDelete'', ''channel.delete''), (''channelTest'', ''channel.test''),
      (''channelBatchEdit'', ''channel.batch_edit''),
      (''channelBatchDelete'', ''channel.batch_delete''),
      (''channelKeyManage'', ''channel.key.manage''),
      (''channelSecretView'', ''channel.secret.view''),
      (''channelUpstreamSync'', ''channel.upstream.sync''), (''modelEdit'', ''model.edit''),
      (''deploymentEdit'', ''deployment.edit''), (''deploymentPublish'', ''deployment.publish''),
      (''subscriptionCreate'', ''subscription.create''),
      (''subscriptionEdit'', ''subscription.edit''),
      (''subscriptionDisable'', ''subscription.disable''),
      (''subscriptionResetUsage'', ''subscription.reset_usage''),
      (''redemptionCreate'', ''redemption.create''), (''redemptionEdit'', ''redemption.edit''),
      (''redemptionDelete'', ''redemption.delete''), (''userCreate'', ''user.create''),
      (''userEdit'', ''user.edit''), (''userDisable'', ''user.disable''),
      (''userDelete'', ''user.delete''), (''userNotify'', ''user.notify''),
      (''tokenAdminCreate'', ''token_admin.create''), (''tokenAdminEdit'', ''token_admin.edit''),
      (''tokenAdminDelete'', ''token_admin.delete''),
      (''tokenAdminSecretView'', ''token_admin.secret.view''),
      (''riskControlEdit'', ''risk_control.edit''),
      (''riskControlExecute'', ''risk_control.execute''), (''financeView'', ''finance.view''),
      (''financeExport'', ''finance.export''),
      (''invoiceAdminApprove'', ''invoice_admin.approve''),
      (''invoiceAdminReject'', ''invoice_admin.reject''), (''settingEdit'', ''setting.edit''),
      (''settingDangerousEdit'', ''setting.dangerous.edit''),
      (''r2StorageManage'', ''r2_storage.manage''), (''ecomagentManage'', ''ecomagent.manage''),
      (''checkinAdminManage'', ''checkin_admin.manage''),
      (''activityAdminManage'', ''activity_admin.manage'')]"

text \<open>\<open>PAGE_PERMISSION_POINTS.key\<close> and \<open>ACTION_PERMISSION_POINTS.key\<close>.\<close>

definition page :: "string \<Rightarrow> string" where
  "page k = (case map_of PAGE_PERMISSION_POINTS k of Some p \<Rightarrow> p | None \<Rightarrow> [])"

definition action :: "string \<Rightarrow> string" where
  "action k = (case map_of ACTION_PERMISSION_POINTS k of Some p \<Rightarrow> p | None \<Rightarrow> [])"

definition ADMIN_PERMISSION_POINTS :: "(string \<times> string) list" where
  "ADMIN_PERMISSION_POINTS =
     map (\<lambda>k. (k, page k))
       [''channel'', ''subscription'', ''models'', ''deployment'', ''redemption'', ''tokenAdmin'',
        ''ecomagent'', ''user'', ''setting'', ''riskControl'', ''invoiceAdmin'', ''financeAdmin'',
        ''r2Storage'', ''checkinAdmin'', ''activityAdmin'']"

definition ADMIN_PERMISSION_POINT_LIST :: "string list" where
  "ADMIN_PERMISSION_POINT_LIST = map snd ADMIN_PERMISSION_POINTS"

definition PERMISSION_TEMPLATES :: "(string \<times> string list) list" where
  "PERMISSION_TEMPLATES =
     [(''support_admin'',
       [page ''user'', action ''userEdit'', action ''userDisable'', action ''userNotify'',
        page ''subscription'', action ''subscriptionEdit'', page ''log'', page ''logExport'',
        page ''riskControl'', page ''siteNotification'']),
      (''ops_admin'',
       [page ''channel'', action ''channelCreate'', action ''channelEdit'', action ''channelDelete'',
        action ''channelTest'', action ''channelBatchEdit'', action ''channelBatchDelete'',
        action ''channelUpstreamSync'', page ''models'', action ''modelEdit'', page ''deployment'',
        action ''deploymentEdit'', action ''deploymentPublish'', page ''log'', page ''subscription'']),
      (''finance_admin'',
       [page ''financeAdmin'', action ''financeView'', action ''financeExport'',
        page ''invoiceAdmin'', action ''invoiceAdminApprove'', action ''invoiceAdminReject'',
        page ''subscription'', page ''user'']),
      (''risk_admin'',
       [page ''riskControl'', action ''riskControlEdit'', action ''riskControlExecute'',
        page ''log'', page ''user'', action ''userDisable'', page ''subscription'']),
      (''activity_admin'',
       [page ''checkinAdmin'', action ''checkinAdminManage'', page ''activityAdmin'',
        action ''activityAdminManage'', page ''activityLottery'', page ''checkinLottery''])]"

definition PERMISSION_TEMPLATE_OPTIONS :: "string list" where
  "PERMISSION_TEMPLATE_OPTIONS = [''support_admin'', ''ops_admin'', ''finance_admin'', ''risk_admin'', ''activity_admin'']"

text \<open>The points each group offers.\<close>

definition PERMISSION_GROUPS :: "string list list" where
  "PERMISSION_GROUPS =
     [[page ''user'', page ''subscription'', page ''channel'', page ''models'', page ''deployment'',
       page ''redemption'', page ''tokenAdmin'', page ''riskControl'', page ''financeAdmin'',
       page ''invoiceAdmin'', page ''setting'', page ''r2Storage'', page ''checkinAdmin'',
       page ''ecomagent'', page ''log''],
      [action ''userCreate'', action ''userEdit'', action ''userDisable'', action ''userDelete'',
       action ''userNotify'', action ''subscriptionCreate'', action ''subscriptionEdit'',
       action ''subscriptionDisable'', action ''subscriptionResetUsage''],
      [action ''channelCreate'', action ''channelEdit'', action ''channelDelete'',
       action ''channelTest'', action ''channelBatchEdit'', action ''channelBatchDelete'',
       action ''channelKeyManage'', action ''channelSecretView'', action ''channelUpstreamSync'',
       action ''modelEdit'', action ''deploymentEdit'', action ''deploymentPublish''],
      [action ''redemptionCreate'', action ''redemptionEdit'', action ''redemptionDelete'',
       action ''financeView'', action ''financeExport'', page ''logExport'',
       action ''invoiceAdminApprove'', action ''invoiceAdminReject'', action ''settingEdit'',
       action ''settingDangerousEdit'', action ''r2StorageManage'', action ''ecomagentManage'',
       action ''checkinAdminManage'', action ''activityAdminManage'']]"

definition ALL_PERMISSION_POINTS :: "string list" where
  "ALL_PERMISSION_POINTS =
     js_unique (map snd PAGE_PERMISSION_POINTS @ map snd ACTION_PERMISSION_POINTS)"

section \<open>The hook\<close>

definition normalizePermissionPoints :: "jsval \<Rightarrow> string list" where
  "normalizePermissionPoints v =
     (case v of
        JArr vs \<Rightarrow> List.map_filter (\<lambda>p. case p of JStr s \<Rightarrow> if js_trim s \<noteq> [] then Some s else None | _ \<Rightarrow> None) vs
      | JObj kvs \<Rightarrow> map fst (filter (\<lambda>(k, w). w = JBool True) kvs)
      | _ \<Rightarrow> [])"

text \<open>The state of the hook; the error is the message of the server or a text of its own.  The
  storage is shared with the rest of the console.\<close>

datatype permission_error = ServerMessage jsval | LoadFailed | NetworkError

record permission_state =
  ps_permissions :: jsval
  ps_loading :: bool
  ps_error :: "permission_error option"
  ps_storage :: storage

definition initial_permissions :: "storage \<Rightarrow> permission_state" where
  "initial_permissions st =
     \<lparr>ps_permissions = js_or (value_get (getUserData st) ''permissions'') JNull, ps_loading = True,
      ps_error = None, ps_storage = st\<rparr>"

text \<open>
  \<open>loadPermissions\<close>: \<open>None\<close> is a failed request, otherwise \<open>res.data\<close>.  A response without
  \<open>data\<close> makes the property access throw, which the handler reports like a network error.
\<close>

definition loadPermissions :: "jsval option \<Rightarrow> permission_state \<Rightarrow> permission_state" where
  "loadPermissions reply s0 =
     (let s = s0\<lparr>ps_loading := True, ps_error := None\<rparr>;
          finish = (\<lambda>t. t\<lparr>ps_loading := False\<rparr>)
      in case reply of
           None \<Rightarrow> finish (s\<lparr>ps_error := Some NetworkError\<rparr>)
         | Some data \<Rightarrow>
             if is_nullish data then finish (s\<lparr>ps_error := Some NetworkError\<rparr>)
             else if truthy (value_get data ''success'') then
               (if is_nullish (value_get data ''data'') then finish (s\<lparr>ps_error := Some NetworkError\<rparr>)
                else
                  let perms = value_get (value_get data ''data'') ''permissions'';
                      currentUser = getUserData (ps_storage s);
                      st = (if truthy currentUser
                            then setUserData (JObj (obj_put ''permissions'' perms (own_entries currentUser)))
                                   (ps_storage s)
                            else ps_storage s)
                  in finish (s\<lparr>ps_permissions := perms, ps_storage := st\<rparr>))
             else finish (s\<lparr>ps_error := Some
                    (if truthy (value_get data ''message'')
                     then ServerMessage (value_get data ''message'') else LoadFailed)\<rparr>))"

definition permissionPoints :: "permission_state \<Rightarrow> string list" where
  "permissionPoints s = normalizePermissionPoints (value_get (ps_permissions s) ''permission_points'')"

definition hasPermissionPoints :: "permission_state \<Rightarrow> bool" where
  "hasPermissionPoints s \<longleftrightarrow> permissionPoints s \<noteq> []"

definition hasSidebarSettingsPermission :: "permission_state \<Rightarrow> bool" where
  "hasSidebarSettingsPermission s \<longleftrightarrow> value_get (ps_permissions s) ''sidebar_settings'' = JBool True"

definition sidebar_modules :: "permission_state \<Rightarrow> jsval" where
  "sidebar_modules s = value_get (ps_permissions s) ''sidebar_modules''"

definition isSidebarSectionAllowed :: "permission_state \<Rightarrow> string \<Rightarrow> bool" where
  "isSidebarSectionAllowed s sec \<longleftrightarrow>
     \<not> truthy (sidebar_modules s) \<or> value_get (sidebar_modules s) sec \<noteq> JBool False"

definition isSidebarModuleAllowed :: "permission_state \<Rightarrow> string \<Rightarrow> string \<Rightarrow> bool" where
  "isSidebarModuleAllowed s sec m \<longleftrightarrow>
     (if \<not> truthy (sidebar_modules s) then True
      else let perms = value_get (sidebar_modules s) sec
           in if perms = JBool False then False
              else \<not> (truthy perms \<and> value_get perms m = JBool False))"

definition getAllowedSidebarSections :: "permission_state \<Rightarrow> string list" where
  "getAllowedSidebarSections s =
     (if \<not> truthy (sidebar_modules s) then []
      else filter (isSidebarSectionAllowed s) (value_keys (sidebar_modules s)))"

definition getAllowedSidebarModules :: "permission_state \<Rightarrow> string \<Rightarrow> string list" where
  "getAllowedSidebarModules s sec =
     (if \<not> truthy (sidebar_modules s) then []
      else let perms = value_get (sidebar_modules s) sec
           in if perms = JBool False then []
              else if \<not> is_object_value perms then []
              else filter (\<lambda>m. m \<noteq> ''enabled'' \<and> value_get perms m = JBool True) (value_keys perms))"

definition can :: "permission_state \<Rightarrow> string \<Rightarrow> bool \<Rightarrow> bool" where
  "can s key fallback \<longleftrightarrow>
     (if key = [] then fallback
      else if \<not> hasPermissionPoints s then fallback
      else key \<in> set (permissionPoints s))"

definition canAny :: "permission_state \<Rightarrow> string list \<Rightarrow> bool \<Rightarrow> bool" where
  "canAny s keys fallback \<longleftrightarrow>
     (if keys = [] then fallback
      else if \<not> hasPermissionPoints s then fallback
      else list_ex (\<lambda>k. k \<in> set (permissionPoints s)) keys)"

definition canAll :: "permission_state \<Rightarrow> string list \<Rightarrow> bool \<Rightarrow> bool" where
  "canAll s keys fallback \<longleftrightarrow>
     (if keys = [] then fallback
      else if \<not> hasPermissionPoints s then fallback
      else list_all (\<lambda>k. k \<in> set (permissionPoints s)) keys)"

section \<open>Properties\<close>

text \<open>
  The permission checks fail closed and agree with each other: without a fallback a check
  grants only points the server listed; for nonempty keys \<open>canAny\<close> is some \<open>can\<close> and
  \<open>canAll\<close> is every \<open>can\<close>; an empty list of keys grants nothing.
\<close>

theorem permission_checks_agree:
  "(can s k False \<longrightarrow> k \<in> set (permissionPoints s) \<and> k \<noteq> [])
   \<and> (list_all (\<lambda>k. k \<noteq> []) keys \<longrightarrow>
        (canAny s keys False \<longleftrightarrow> list_ex (\<lambda>k. can s k False) keys)
        \<and> (canAll s keys False \<longleftrightarrow> keys \<noteq> [] \<and> list_all (\<lambda>k. can s k False) keys))
   \<and> (canAll s keys False \<longrightarrow> canAny s keys False)
   \<and> \<not> canAny s [] False \<and> \<not> canAll s [] False"
  by (cases keys) (auto simp: can_def canAny_def canAll_def list_ex_iff list_all_iff split: if_splits)

lemma permission_checks_agree_witness:
  "let s = (initial_permissions Map.empty)\<lparr>ps_permissions :=
             JObj [(''permission_points'', JArr [JStr ''user.view'', JStr '' '', JNull])]\<rparr>
   in canAny s [''user.edit'', ''user.view''] False
        \<longleftrightarrow> list_ex (\<lambda>k. can s k False) [''user.edit'', ''user.view'']"
proof -
  have "list_all (\<lambda>k. k \<noteq> []) [''user.edit'', ''user.view'']" by simp
  with permission_checks_agree show ?thesis unfolding Let_def by blast
qed

text \<open>
  A module is allowed only in an allowed section, and every module listed as allowed for
  a section is allowed there and was granted explicitly.
\<close>

theorem sidebar_lists_allowed:
  "(isSidebarModuleAllowed s sec m \<longrightarrow> isSidebarSectionAllowed s sec)
   \<and> (m \<in> set (getAllowedSidebarModules s sec) \<longrightarrow>
        isSidebarModuleAllowed s sec m \<and> value_get (value_get (sidebar_modules s) sec) m = JBool True)
   \<and> (sec \<in> set (getAllowedSidebarSections s) \<longrightarrow> isSidebarSectionAllowed s sec)"
  by (auto simp: isSidebarModuleAllowed_def isSidebarSectionAllowed_def getAllowedSidebarModules_def
      getAllowedSidebarSections_def Let_def split: if_splits)

lemma sidebar_lists_allowed_witness:
  "let s = (initial_permissions Map.empty)\<lparr>ps_permissions := JObj [(''sidebar_modules'',
             JObj [(''admin'', JObj [(''user'', JBool True), (''channel'', JBool False)])])]\<rparr>
   in isSidebarModuleAllowed s ''admin'' ''user''"
proof -
  let ?s = "(initial_permissions Map.empty)\<lparr>ps_permissions := JObj [(''sidebar_modules'',
             JObj [(''admin'', JObj [(''user'', JBool True), (''channel'', JBool False)])])]\<rparr>"
  have "''user'' \<in> set (getAllowedSidebarModules ?s ''admin'')" by code_simp
  with sidebar_lists_allowed show ?thesis unfolding Let_def by blast
qed

lemma all_points: "set ALL_PERMISSION_POINTS = set (map snd PAGE_PERMISSION_POINTS @ map snd ACTION_PERMISSION_POINTS)"
  unfolding ALL_PERMISSION_POINTS_def by (rule set_js_unique)

lemma points_distinct: "distinct (map snd PAGE_PERMISSION_POINTS @ map snd ACTION_PERMISSION_POINTS)"
  by code_simp

lemma templates_known:
  "list_all (\<lambda>(n, ps). distinct ps \<and> set ps \<subseteq> set ALL_PERMISSION_POINTS) PERMISSION_TEMPLATES"
  unfolding all_points by code_simp

lemma groups_known:
  "list_all (\<lambda>ps. distinct ps \<and> set ps \<subseteq> set ALL_PERMISSION_POINTS) PERMISSION_GROUPS"
  unfolding all_points by code_simp

lemma admin_known: "set ADMIN_PERMISSION_POINT_LIST \<subseteq> set (map snd PAGE_PERMISSION_POINTS)"
  by code_simp

lemma options_known: "PERMISSION_TEMPLATE_OPTIONS = map fst PERMISSION_TEMPLATES"
  by (simp add: PERMISSION_TEMPLATE_OPTIONS_def PERMISSION_TEMPLATES_def)

text \<open>
  The tables are consistent: permission points are pairwise distinct, every template and
  every group offers only existing points, the administrator's points are page points, and
  the template options name exactly the templates.
\<close>

theorem permission_tables_consistent:
  "distinct (map snd PAGE_PERMISSION_POINTS @ map snd ACTION_PERMISSION_POINTS)
   \<and> list_all (\<lambda>(n, ps). distinct ps \<and> set ps \<subseteq> set ALL_PERMISSION_POINTS) PERMISSION_TEMPLATES
   \<and> list_all (\<lambda>ps. distinct ps \<and> set ps \<subseteq> set ALL_PERMISSION_POINTS) PERMISSION_GROUPS
   \<and> set ADMIN_PERMISSION_POINT_LIST \<subseteq> set (map snd PAGE_PERMISSION_POINTS)
   \<and> PERMISSION_TEMPLATE_OPTIONS = map fst PERMISSION_TEMPLATES"
  using points_distinct templates_known groups_known admin_known options_known by blast

text \<open>
  After loading, the hook is never left loading; it shows an error exactly when the server
  did not answer with data, and then the permissions and the stored user stay as they were;
  otherwise the permissions are the server's.
\<close>

theorem load_permissions_outcome:
  "\<not> ps_loading (loadPermissions reply s)
   \<and> (ps_error (loadPermissions reply s) \<noteq> None \<longrightarrow>
        ps_permissions (loadPermissions reply s) = ps_permissions s
        \<and> ps_storage (loadPermissions reply s) = ps_storage s)
   \<and> (ps_error (loadPermissions reply s) = None \<longleftrightarrow>
        (\<exists>data. reply = Some data \<and> truthy (value_get data ''success'')
           \<and> \<not> is_nullish (value_get data ''data'')
           \<and> ps_permissions (loadPermissions reply s) = value_get (value_get data ''data'') ''permissions''))"
proof -
  have n: "is_nullish d \<Longrightarrow> \<not> truthy (value_get d k)" for d k
    by (cases d) (simp_all add: value_get_def)
  show ?thesis
    using n by (auto simp: loadPermissions_def Let_def split: option.splits)
qed

lemma load_permissions_outcome_witness:
  "ps_permissions (loadPermissions None (initial_permissions Map.empty)) = JNull"
proof -
  let ?s = "initial_permissions Map.empty"
  have "ps_error (loadPermissions None ?s) \<noteq> None" by (simp add: loadPermissions_def)
  with load_permissions_outcome [of None ?s] have "ps_permissions (loadPermissions None ?s) = ps_permissions ?s" by blast
  also have "\<dots> = JNull"
    by (simp add: initial_permissions_def getUserData_def getItem_def value_get_def js_or_def)
  finally show ?thesis .
qed

text \<open>
  For a signed-in user the loaded permissions survive a reload: the next mount of the hook
  starts from them.
\<close>

theorem permissions_survive_reload:
  assumes user: "getUserData (ps_storage s) = JObj kvs"
    and reply: "reply = Some data" "truthy (value_get data ''success'')"
      "\<not> is_nullish (value_get data ''data'')"
      "perms = value_get (value_get data ''data'') ''permissions''"
    and storable: "json_storable (normalizeUserData (JObj (obj_put ''permissions'' perms kvs)))"
  shows "ps_permissions (initial_permissions (ps_storage (loadPermissions reply s))) = js_or perms JNull"
proof -
  have "\<not> is_nullish data"
    using reply(2) by (cases data) (auto simp: value_get_def)
  with user reply have "ps_storage (loadPermissions reply s)
      = setUserData (JObj (obj_put ''permissions'' perms kvs)) (ps_storage s)"
    by (simp add: loadPermissions_def Let_def own_entries_def)
  with user_data_back [OF storable]
  have "getUserData (ps_storage (loadPermissions reply s))
      = normalizeUserData (JObj (obj_put ''permissions'' perms kvs))" by simp
  then show ?thesis
    by (simp add: initial_permissions_def normalizeUserData_def is_object_value_def Let_def
        own_entries_def value_get_def obj_spread_def)
qed

lemma permissions_survive_reload_witness:
  "let s = initial_permissions (setUserData (JObj [(''id'', JNum (Fin 7))]) Map.empty);
       reply = Some (JObj [(''success'', JBool True), (''data'', JObj [(''permissions'',
         JObj [(''permission_points'', JArr [JStr ''user.view''])])])])
   in ps_permissions (initial_permissions (ps_storage (loadPermissions reply s)))
      = JObj [(''permission_points'', JArr [JStr ''user.view''])]"
proof -
  let ?u = "JObj [(''id'', JNum (Fin 7))]"
  let ?perms = "JObj [(''permission_points'', JArr [JStr ''user.view''])]"
  let ?data = "JObj [(''success'', JBool True), (''data'', JObj [(''permissions'', ?perms)])]"
  let ?kvs = "[(''id'', JNum (Fin 7)), (''configured_group'', JStr []), (''effective_group'', JStr []),
    (''group'', JStr [])]"
  let ?s = "initial_permissions (setUserData ?u Map.empty)"
  have "json_storable (normalizeUserData ?u)" and n: "normalizeUserData ?u = JObj ?kvs" by code_simp+
  then have "getUserData (setUserData ?u Map.empty) = JObj ?kvs" using user_data_back by metis
  then have u: "getUserData (ps_storage ?s) = JObj ?kvs" by (simp add: initial_permissions_def)
  have r: "truthy (value_get ?data ''success'')" "\<not> is_nullish (value_get ?data ''data'')"
    "?perms = value_get (value_get ?data ''data'') ''permissions''"
    "json_storable (normalizeUserData (JObj (obj_put ''permissions'' ?perms ?kvs)))" by code_simp+
  from permissions_survive_reload [OF u refl r] show ?thesis
    unfolding Let_def by (simp add: js_or_def)
qed

section \<open>Points no group offers\<close>

text \<open>Some points of the templates are in no group of the permission editor.\<close>

lemma template_points_not_offered:
  "''risk_control.edit'' \<in> set (the (map_of PERMISSION_TEMPLATES ''risk_admin''))
   \<and> ''risk_control.edit'' \<notin> set (concat PERMISSION_GROUPS)
   \<and> ''activity_admin.view'' \<in> set (the (map_of PERMISSION_TEMPLATES ''activity_admin''))
   \<and> ''activity_admin.view'' \<notin> set (concat PERMISSION_GROUPS)"
  by code_simp

end
