(* ===== verification/SidebarSettings.thy ===== *)
theory SidebarSettings
  imports Sidebar JsonRoundtrip Permissions
begin

text \<open>
  The two pages that set up the side menu: the switches of the administrator
  (\<open>web/src/pages/Setting/Operation/SettingsSidebarModulesAdmin.jsx\<close>) and those of the user
  (\<open>web/src/components/settings/personal/cards/NotificationSettings.jsx\<close>).  Each page keeps
  the settings as one object, a switch replaces one entry of it, and saving sends its JSON text.
\<close>

section \<open>The settings of the administrator\<close>

definition createDefaultSidebarModulesAdmin :: sections where
  "createDefaultSidebarModulesAdmin =
     [(''chat'', all_true [''playground'', ''chat'']),
      (''console'', all_true [''detail'', ''package'', ''token'', ''log'', ''checkinLottery'',
         ''activityLottery'', ''midjourney'', ''task'']),
      (''personal'', all_true [''topup'', ''invoice'', ''refund'', ''invite'', ''personal'', ''siteNotifications'']),
      (''public'', all_true [''pricing'', ''docs'', ''about'', ''contact'']),
      (''admin'', all_true [''channel'', ''models'', ''deployment'', ''redemption'', ''tokenAdmin'', ''ecomagent'',
         ''user'', ''subscription'', ''setting'', ''riskControl'', ''invoiceAdmin'', ''financeAdmin'',
         ''checkinAdmin''])]"

definition section_entries :: "sections \<Rightarrow> string \<Rightarrow> (string \<times> jsval) list" where
  "section_entries c sec = own_entries (js_or (value_get (JObj c) sec) (JObj []))"

definition normalize_section :: "string \<Rightarrow> sections \<Rightarrow> sections" where
  "normalize_section sec c =
     obj_put sec (JObj (obj_spread (section_entries createDefaultSidebarModulesAdmin sec) (section_entries c sec))) c"

definition normalizeSidebarModulesAdmin :: "jsval \<Rightarrow> sections" where
  "normalizeSidebarModulesAdmin modules =
     fold normalize_section [''chat'', ''console'', ''personal'', ''public'', ''admin'']
       (obj_spread createDefaultSidebarModulesAdmin (own_entries (js_or modules (JObj []))))"

text \<open>The page when the options of the server come: \<open>options.SidebarModulesAdmin\<close>.\<close>

definition load_admin_page :: "jsval \<Rightarrow> jsval" where
  "load_admin_page opt =
     (if truthy opt
      then (case json_parse (text_of_value opt) of
              Inl _ \<Rightarrow> JObj createDefaultSidebarModulesAdmin
            | Inr modules \<Rightarrow> JObj (normalizeSidebarModulesAdmin modules))
      else JObj createDefaultSidebarModulesAdmin)"

section \<open>Switches\<close>

text \<open>One entry of a section is replaced; reading a section of \<open>null\<close> throws.\<close>

definition change_switch :: "string \<Rightarrow> string \<Rightarrow> bool \<Rightarrow> jsval \<Rightarrow> jsval option" where
  "change_switch sec key checked modules =
     (if is_nullish modules then None
      else Some (JObj (obj_put sec
        (JObj (obj_put key (JBool checked) (obj_of (own_entries (value_get modules sec)))))
        (obj_of (own_entries modules)))))"

datatype switch_event =
    SwitchSection string bool
  | SwitchModule string string bool
  | ResetSwitches

fun admin_switch :: "switch_event \<Rightarrow> jsval \<Rightarrow> jsval option" where
  "admin_switch (SwitchSection sec checked) modules = change_switch sec ''enabled'' checked modules"
| "admin_switch (SwitchModule sec key checked) modules = change_switch sec key checked modules"
| "admin_switch ResetSwitches modules = Some (JObj createDefaultSidebarModulesAdmin)"

definition default_user_modules :: sections where
  "default_user_modules =
     [(''chat'', all_true [''playground'', ''chat'']),
      (''console'', all_true [''detail'', ''token'', ''log'', ''midjourney'', ''task'']),
      (''personal'', all_true [''topup'', ''personal'', ''siteNotifications'']),
      (''admin'', all_true [''channel'', ''models'', ''deployment'', ''subscription'', ''redemption'', ''user'', ''setting''])]"

fun user_switch :: "switch_event \<Rightarrow> jsval \<Rightarrow> jsval option" where
  "user_switch (SwitchSection sec checked) modules = change_switch sec ''enabled'' checked modules"
| "user_switch (SwitchModule sec key checked) modules = change_switch sec key checked modules"
| "user_switch ResetSwitches modules = Some (JObj default_user_modules)"

text \<open>What the switches show.  A section of the user's page that is not there is on.\<close>

definition admin_switch_on :: "jsval \<Rightarrow> string \<Rightarrow> string \<Rightarrow> bool" where
  "admin_switch_on modules sec key \<longleftrightarrow> truthy (value_get (value_get modules sec) key)"

definition user_switch_on :: "jsval \<Rightarrow> string \<Rightarrow> string \<Rightarrow> bool" where
  "user_switch_on modules sec key \<longleftrightarrow> value_get (value_get modules sec) key \<noteq> JBool False"

section \<open>The switches a page offers\<close>

definition admin_page_switches :: "(string \<times> string list) list" where
  "admin_page_switches =
     [(''chat'', [''playground'', ''chat'']),
      (''console'', [''detail'', ''package'', ''token'', ''log'', ''checkinLottery'', ''activityLottery'',
         ''midjourney'', ''task'']),
      (''personal'', [''topup'', ''refund'', ''invite'', ''personal'']),
      (''public'', [''about'', ''contact'']),
      (''admin'', [''channel'', ''models'', ''deployment'', ''subscription'', ''redemption'', ''tokenAdmin'', ''user'',
         ''setting'', ''riskControl'', ''invoiceAdmin'', ''financeAdmin'', ''checkinAdmin''])]"

definition user_page_switches :: "(string \<times> string list) list" where
  "user_page_switches =
     [(''chat'', [''playground'', ''chat'']),
      (''console'', [''detail'', ''package'', ''token'', ''log'', ''midjourney'', ''task'']),
      (''personal'', [''topup'', ''invite'', ''siteNotifications'', ''personal'']),
      (''admin'', [''channel'', ''models'', ''deployment'', ''subscription'', ''redemption'', ''user'', ''setting''])]"

text \<open>\<open>isAllowedByAdmin\<close>; \<open>None\<close> stands for settings that have not come, and for no module.\<close>

definition isAllowedByAdmin :: "sections option \<Rightarrow> string \<Rightarrow> string option \<Rightarrow> bool" where
  "isAllowedByAdmin admin sec key =
     (case admin of
        None \<Rightarrow> True
      | Some c \<Rightarrow>
          truthy (value_get (value_get (JObj c) sec) ''enabled'') \<and>
          (case key of Some k \<Rightarrow> k = [] \<or> truthy (value_get (value_get (JObj c) sec) k) | None \<Rightarrow> True))"

definition sectionConfigs :: "permission_state \<Rightarrow> sections option \<Rightarrow> (string \<times> string list) list" where
  "sectionConfigs perms admin =
     filter (\<lambda>(sec, ms). 0 < length ms \<and> isAllowedByAdmin admin sec None)
       (map (\<lambda>(sec, ms). (sec, filter (isSidebarModuleAllowed perms sec) ms))
         (filter (\<lambda>(sec, ms). isSidebarSectionAllowed perms sec) user_page_switches))"

text \<open>What the user's page draws: for each section its switch and those of its modules.  Settings
  that are \<open>null\<close> cannot be drawn.\<close>

definition user_page ::
  "permission_state \<Rightarrow> sections option \<Rightarrow> jsval \<Rightarrow> (string \<times> bool \<times> (string \<times> bool) list) list option" where
  "user_page perms admin modules =
     (let configs = sectionConfigs perms admin
      in if configs \<noteq> [] \<and> is_nullish modules then None
         else Some (map (\<lambda>(sec, ms). (sec, user_switch_on modules sec ''enabled'',
             map (\<lambda>m. (m, user_switch_on modules sec m)) (filter (\<lambda>m. isAllowedByAdmin admin sec (Some m)) ms))) configs))"

section \<open>Loading and saving\<close>

text \<open>\<open>loadSidebarConfigs\<close>: the settings of the administrator, and those of the user when a reply
  has some; any error leaves the switches as they are.\<close>

definition load_user_page :: "jsval option \<Rightarrow> jsval \<Rightarrow> jsval" where
  "load_user_page reply modules =
     (case reply of
        None \<Rightarrow> modules
      | Some data \<Rightarrow>
          let saved = value_get (value_get data ''data'') ''sidebar_modules''
          in if truthy (value_get data ''success'') \<and> truthy saved
             then (case saved of
                     JStr text \<Rightarrow> (case json_parse text of Inl _ \<Rightarrow> modules | Inr config \<Rightarrow> config)
                   | _ \<Rightarrow> saved)
             else modules)"

datatype menu_toast = MenuSaved | MenuFailed | MenuMessage jsval

definition replied_toast :: "jsval option \<Rightarrow> menu_toast" where
  "replied_toast reply =
     (case reply of
        None \<Rightarrow> MenuFailed
      | Some data \<Rightarrow>
          if is_nullish data then MenuFailed
          else if truthy (value_get data ''success'') then MenuSaved
          else MenuMessage (value_get data ''message''))"

text \<open>\<open>onSubmit\<close> of the administrator, with the status of the page: the text that is sent, the
  status afterwards and the message.\<close>

definition submit_admin :: "jsval \<Rightarrow> jsval option \<Rightarrow> jsval \<Rightarrow> string \<times> jsval \<times> menu_toast" where
  "submit_admin modules reply status =
     (json_text modules,
      (if replied_toast reply = MenuSaved
       then JObj (obj_put ''SidebarModulesAdmin'' (JStr (json_text modules)) (obj_of (own_entries status)))
       else status),
      replied_toast reply)"

text \<open>\<open>saveSidebarSettings\<close> of the user: the text that is sent, the message, and whether the menus
  are told to load again.\<close>

definition save_user :: "jsval \<Rightarrow> jsval option \<Rightarrow> string \<times> menu_toast \<times> bool" where
  "save_user modules reply = (json_text modules, replied_toast reply, replied_toast reply = MenuSaved)"

section \<open>The two ways of completing settings agree\<close>

lemma keys_spread: "set (map fst (obj_spread a b)) = set (map fst a) \<union> set (map fst b)"
  unfolding obj_spread_def
proof (induction b arbitrary: a)
  case (Cons kv b)
  then show ?case using keys_obj_put [of "fst kv" "snd kv" a] by (auto simp: split_def simp del: set_map)
qed simp

lemma normalized_get:
  "obj_get (normalize_section s c) sec =
    (if sec = s then Some (JObj (obj_spread (section_entries createDefaultSidebarModulesAdmin sec) (section_entries c sec)))
     else obj_get c sec)"
  by (simp add: normalize_section_def)

lemma section_entries_normalized: "sec \<noteq> s \<Longrightarrow> section_entries (normalize_section s c) sec = section_entries c sec"
  by (simp add: section_entries_def value_get_def normalized_get)

abbreviation section_names :: "string list" where
  "section_names \<equiv> [''chat'', ''console'', ''personal'', ''public'', ''admin'']"

lemma normalized_fold:
  "distinct ks \<Longrightarrow> sec \<in> set ks \<Longrightarrow> obj_get (fold normalize_section ks c) sec =
    Some (JObj (obj_spread (section_entries createDefaultSidebarModulesAdmin sec) (section_entries c sec)))"
  and normalized_fold_other: "sec \<notin> set ks \<Longrightarrow> obj_get (fold normalize_section ks c) sec = obj_get c sec"
proof (induction ks arbitrary: c)
  case (Cons k ks)
  {
    case 1
    then show ?case
      using Cons(1) [of "normalize_section k c"] Cons(2) [of "normalize_section k c"]
      by (cases "sec = k") (simp_all add: normalized_get section_entries_normalized)
  next
    case 2
    then show ?case using Cons(2) [of "normalize_section k c"] by (simp add: normalized_get)
  }
qed simp_all

lemma default_sections_table:
  "list_all (\<lambda>sec.
     obj_get createDefaultSidebarModulesAdmin sec = Some (JObj (section_entries createDefaultSidebarModulesAdmin sec)) \<and>
     obj_of (section_entries createDefaultSidebarModulesAdmin sec) = section_entries createDefaultSidebarModulesAdmin sec \<and>
     obj_get DEFAULT_ADMIN_CONFIG sec = Some (JObj (section_entries createDefaultSidebarModulesAdmin sec @
       (if sec = ''admin'' then [(''r2Storage'', JBool True)] else []))) \<and>
     obj_of (section_entries createDefaultSidebarModulesAdmin sec @ (if sec = ''admin'' then [(''r2Storage'', JBool True)] else [])) =
       section_entries createDefaultSidebarModulesAdmin sec @ (if sec = ''admin'' then [(''r2Storage'', JBool True)] else []))
     section_names \<and>
   map fst createDefaultSidebarModulesAdmin = section_names \<and> map fst DEFAULT_ADMIN_CONFIG = section_names"
  by code_simp

lemma default_page_sections:
  assumes "sec \<in> set section_names"
  shows "obj_get createDefaultSidebarModulesAdmin sec = Some (JObj (section_entries createDefaultSidebarModulesAdmin sec))"
    "obj_of (section_entries createDefaultSidebarModulesAdmin sec) = section_entries createDefaultSidebarModulesAdmin sec"
    "obj_get DEFAULT_ADMIN_CONFIG sec = Some (JObj (section_entries createDefaultSidebarModulesAdmin sec @
       (if sec = ''admin'' then [(''r2Storage'', JBool True)] else [])))"
    "obj_of (section_entries createDefaultSidebarModulesAdmin sec @ (if sec = ''admin'' then [(''r2Storage'', JBool True)] else [])) =
       section_entries createDefaultSidebarModulesAdmin sec @ (if sec = ''admin'' then [(''r2Storage'', JBool True)] else [])"
  using default_sections_table assms unfolding list_all_iff by blast+

text \<open>The menu merges the sections of the saved object one after the other.\<close>

lemma merge_section_get:
  "obj_get (merge_section (k, c) merged) sec =
    (if sec = k \<and> is_object_value c
     then Some (JObj (obj_spread (obj_of (case obj_get merged k of Some old \<Rightarrow> own_entries old | None \<Rightarrow> []))
       (own_entries c)))
     else obj_get merged sec)"
  by (simp add: merge_section_def Let_def)

lemma merge_fold:
  "distinct (map fst kvs) \<Longrightarrow> obj_get (fold merge_section kvs merged) sec =
    (case map_of kvs sec of
       None \<Rightarrow> obj_get merged sec
     | Some c \<Rightarrow> obj_get (merge_section (sec, c) merged) sec)"
proof (induction kvs arbitrary: merged)
  case (Cons kv kvs)
  obtain k c where kv: "kv = (k, c)" by fastforce
  have other: "obj_get (merge_section (k, c) merged) j = obj_get merged j" if "j \<noteq> k" for j
    using that by (simp add: merge_section_get)
  have none: "map_of kvs k = None" using Cons(2) kv by (simp add: map_of_eq_None_iff)
  show ?case
  proof (cases "sec = k")
    case True
    then show ?thesis using Cons(1) [of "merge_section (k, c) merged"] Cons(2) kv none by simp
  next
    case False
    then show ?thesis
      using Cons(1) [of "merge_section (k, c) merged"] Cons(2) kv other [OF False]
      by (auto simp: merge_section_get split: option.splits)
  qed
qed simp

lemma spread_reads:
  "value_get (JObj (obj_spread d e)) m =
    (case map_of (rev e) m of Some v \<Rightarrow> v | None \<Rightarrow> value_get (JObj d) m)"
  by (simp add: value_get_def obj_get_spread split: option.splits)

text \<open>The text of a number is no name of a module.\<close>

lemma array_entries_miss:
  assumes "\<not> list_all is_digit m"
  shows "map_of (rev (map (\<lambda>i. (show_nat i, f i)) is)) m = None"
proof -
  have m: "\<forall>i. m \<noteq> show_nat i"
    using assms show_nat_digits by (auto simp: list_all_iff)
  then have "m \<notin> fst ` set (map (\<lambda>i. (show_nat i, f i)) is)" by auto
  then show ?thesis by (simp add: map_of_eq_None_iff)
qed

lemma json_objects_ordered:
  assumes "json_parse text = Inr (JObj kvs)"
  shows "obj_of kvs = kvs"
proof -
  obtain r where r: "json_value (2 * length text + 2) text = Some (JObj kvs, r)"
    using assms by (auto simp: json_parse_def split: option.splits prod.splits if_splits)
  have "obj_of ks = obj_of (obj_of ks)" for ks :: "(string \<times> jsval) list"
    using in_order_iff [of "obj_of ks"] spread_in_order [of "[]" ks] in_order_iff [of "[] :: (string \<times> jsval) list"]
    by (simp add: obj_of_def obj_spread_def)
  moreover have "json_literal s \<noteq> Some (JObj kvs, r)" for s
    by (auto simp: json_literal_def json_number_def split: option.splits)
  ultimately show ?thesis
    using r by (auto simp: obj_of_def obj_spread_def split: list.splits if_splits)
qed

lemma entries_miss:
  assumes "\<not> list_all is_digit m" "\<And>kvs. v \<noteq> JObj kvs"
  shows "map_of (rev (own_entries (js_or v (JObj [])))) m = None"
  using array_entries_miss [OF assms(1)] assms(2)
  by (cases v) (auto simp: own_entries_def js_or_def)

lemma merge_fold_other: "sec \<notin> fst ` set kvs \<Longrightarrow> obj_get (fold merge_section kvs merged) sec = obj_get merged sec"
  by (induction kvs arbitrary: merged) (auto simp: merge_section_get)

lemma section_completed:
  assumes "sec \<in> set section_names" "\<not> list_all is_digit m" "(sec, m) \<noteq> (''admin'', ''r2Storage'')"
    and "obj_ok kvs"
  shows "value_get (value_get (JObj (normalizeSidebarModulesAdmin (JObj kvs))) sec) m =
    value_get (value_get (JObj (mergeAdminConfig (JObj kvs))) sec) m"
proof -
  define d where "d = section_entries createDefaultSidebarModulesAdmin sec"
  define d2 where "d2 = d @ (if sec = ''admin'' then [(''r2Storage'', JBool True)] else [])"
  have d: "obj_get createDefaultSidebarModulesAdmin sec = Some (JObj d)" "obj_of d = d"
      "obj_get DEFAULT_ADMIN_CONFIG sec = Some (JObj d2)" "obj_of d2 = d2"
    using default_page_sections [OF assms(1)] by (simp_all add: d_def d2_def)
  have dd: "value_get (JObj d2) m = value_get (JObj d) m"
    using assms(3) by (auto simp: d2_def value_get_def obj_get_def map_add_def split: option.splits)
  have "distinct (map fst d)" using d(2) in_order_iff [of d] by (simp add: in_order_def obj_ok_def)
  then have twice: "value_get (JObj (obj_spread d d)) m = value_get (JObj d) m"
    by (simp add: spread_reads map_of_rev_keys) (simp add: value_get_def obj_get_def split: option.splits)
  have rev: "map_of (rev kvs) sec = map_of kvs sec"
    using assms(4) by (simp add: obj_ok_def map_of_rev_keys)
  have page: "value_get (JObj (normalizeSidebarModulesAdmin (JObj kvs))) sec =
      JObj (obj_spread d (section_entries (obj_spread createDefaultSidebarModulesAdmin kvs) sec))"
    using normalized_fold [of section_names sec] assms(1)
    by (simp add: normalizeSidebarModulesAdmin_def value_get_def js_or_def own_entries_def d_def)
  have given: "value_get (JObj (obj_spread createDefaultSidebarModulesAdmin kvs)) sec =
      (case map_of kvs sec of Some x \<Rightarrow> x | None \<Rightarrow> JObj d)"
    using d(1) by (simp add: value_get_def obj_get_spread rev split: option.splits)
  have menu: "value_get (JObj (mergeAdminConfig (JObj kvs))) sec =
      (case map_of kvs sec of
         Some x \<Rightarrow> if is_object_value x then JObj (obj_spread d2 (own_entries x)) else JObj d2
       | None \<Rightarrow> JObj d2)"
    using merge_fold [of kvs DEFAULT_ADMIN_CONFIG sec] assms(4) d
    by (simp add: mergeAdminConfig_def is_object_value_def own_entries_def value_get_def merge_section_get obj_ok_def
        split: option.splits)
  show ?thesis
  proof (cases "map_of kvs sec")
    case None
    then show ?thesis
      unfolding page menu section_entries_def given using twice dd by (simp add: js_or_def own_entries_def)
  next
    case (Some x)
    show ?thesis
    proof (cases "is_object_value x")
      case True
      then have "truthy x" by (cases x) (simp_all add: is_object_value_def)
      then show ?thesis
        unfolding page menu section_entries_def given using Some True dd
        by (simp add: js_or_def spread_reads split: option.split)
    next
      case False
      then have "map_of (rev (own_entries (js_or x (JObj [])))) m = None"
        by (intro entries_miss assms(2)) (auto simp: is_object_value_def)
      then show ?thesis
        unfolding page menu section_entries_def given using Some False dd by (simp add: spread_reads)
    qed
  qed
qed

text \<open>Settings that are no object complete to the defaults on both sides.\<close>

lemma other_settings_completed:
  assumes "sec \<in> set section_names" "\<not> list_all is_digit m" "(sec, m) \<noteq> (''admin'', ''r2Storage'')"
    and "\<And>kvs. modules \<noteq> JObj kvs"
  shows "value_get (value_get (JObj (normalizeSidebarModulesAdmin modules)) sec) m =
    value_get (value_get (JObj (mergeAdminConfig modules)) sec) m"
proof -
  define d where "d = section_entries createDefaultSidebarModulesAdmin sec"
  have sec: "\<not> list_all is_digit sec" using assms(1) by (auto simp: is_digit_def)
  note miss = entries_miss [OF _ assms(4)]
  have d: "obj_get createDefaultSidebarModulesAdmin sec = Some (JObj d)" "obj_of d = d"
    using default_page_sections [OF assms(1)] by (simp_all add: d_def)
  have "distinct (map fst d)" using d(2) in_order_iff [of d] by (simp add: in_order_def obj_ok_def)
  then have twice: "value_get (JObj (obj_spread d d)) m = value_get (JObj d) m"
    by (simp add: spread_reads map_of_rev_keys) (simp add: value_get_def obj_get_def split: option.splits)
  have given: "section_entries (obj_spread createDefaultSidebarModulesAdmin (own_entries (js_or modules (JObj [])))) sec = d"
    using d(1) miss [OF sec] by (simp add: section_entries_def value_get_def obj_get_spread js_or_def own_entries_def)
  have page: "value_get (value_get (JObj (normalizeSidebarModulesAdmin modules)) sec) m = value_get (JObj d) m"
    using normalized_fold [of section_names sec] assms(1)
    unfolding normalizeSidebarModulesAdmin_def value_get_def [of "JObj (fold _ _ _)"]
    by (simp add: given twice flip: d_def)
  have "mergeAdminConfig modules = DEFAULT_ADMIN_CONFIG \<or> (\<exists>vs. modules = JArr vs)"
    using assms(4) by (cases modules) (auto simp: mergeAdminConfig_def is_object_value_def)
  moreover have "sec \<notin> fst ` set (own_entries (JArr vs))" for vs
    using sec show_nat_digits by (auto simp: own_entries_def list_all_iff)
  ultimately have "obj_get (mergeAdminConfig modules) sec = obj_get DEFAULT_ADMIN_CONFIG sec"
    by (auto simp: mergeAdminConfig_def merge_fold_other)
  then show ?thesis
    unfolding page using default_page_sections(3) [OF assms(1)] assms(3)
    by (auto simp: value_get_def obj_get_def map_add_def simp flip: d_def split: option.splits)
qed

text \<open>
  C22: Whatever is stored for the menu - no text, a text that is no JSON, any JSON value - the
  switches the administrator sees for the sections of the program and the menus all users get
  complete it in the same way: every module of these sections reads the same on both sides, with two
  exceptions.  The storage page of the administrators is one that the settings page does not know
  (\<open>storage_page_has_no_switch\<close>).  And names made of digits only are left aside, which the elements
  of an array or a text stored in place of a section would have; no module has such a name.
\<close>
theorem page_and_menu_complete_alike:
  assumes "sec \<in> set section_names" "\<not> list_all is_digit m" "(sec, m) \<noteq> (''admin'', ''r2Storage'')"
  shows "value_get (value_get (load_admin_page opt) sec) m =
    value_get (value_get (JObj (admin_config opt)) sec) m"
proof -
  have defaults: "normalizeSidebarModulesAdmin JNull = createDefaultSidebarModulesAdmin" by code_simp
  have completed: "value_get (value_get (JObj (normalizeSidebarModulesAdmin modules)) sec) m =
      value_get (value_get (JObj (mergeAdminConfig modules)) sec) m"
    if "\<And>kvs. modules = JObj kvs \<Longrightarrow> obj_of kvs = kvs" for modules
  proof (cases modules)
    case (JObj kvs)
    then have "obj_ok kvs" using that in_order_iff [of kvs] by (simp add: in_order_def)
    then show ?thesis using JObj section_completed [OF assms] by simp
  qed (use other_settings_completed [OF assms] in simp_all)
  show ?thesis
  proof (cases "json_parse (text_of_value opt)")
    case (Inr modules)
    then show ?thesis
      using completed [of modules] json_objects_ordered [of "text_of_value opt"] completed [of JNull]
      by (auto simp: load_admin_page_def admin_config_def defaults)
  qed (use completed [of JNull] in \<open>simp add: load_admin_page_def admin_config_def defaults\<close>)
qed

definition saved_log_off :: jsval where
  "saved_log_off = JStr (json_text (JObj [(''console'', JObj [(''log'', JBool False)])]))"

lemma page_and_menu_complete_alike_witness:
  "value_get (value_get (load_admin_page saved_log_off) ''console'') ''log'' = JBool False \<and>
   value_get (value_get (JObj (admin_config saved_log_off)) ''console'') ''log'' = JBool False"
proof -
  have "value_get (value_get (load_admin_page saved_log_off) ''console'') ''log'' = JBool False"
    by code_simp
  then show ?thesis
    using page_and_menu_complete_alike [of "''console''" "''log''" saved_log_off] by (simp add: is_digit_def)
qed

section \<open>What is saved is what the menus show\<close>

definition section_kept :: "sections \<Rightarrow> string \<Rightarrow> bool" where
  "section_kept kvs sec =
     (case obj_get kvs sec of
        Some (JObj c) \<Rightarrow>
          obj_ok c \<and> list_all (\<lambda>k. k \<in> set (map fst c)) (map fst (section_entries createDefaultSidebarModulesAdmin sec))
      | _ \<Rightarrow> False)"

definition sections_kept :: "jsval \<Rightarrow> bool" where
  "sections_kept v = (case v of JObj kvs \<Rightarrow> obj_ok kvs \<and> list_all (section_kept kvs) section_names | _ \<Rightarrow> False)"

lemma default_sections_kept: "sections_kept (JObj createDefaultSidebarModulesAdmin)"
  by code_simp

lemma normalized_sections_ok: "obj_ok c \<Longrightarrow> obj_ok (fold normalize_section ks c)"
  by (induction ks arbitrary: c) (simp_all add: normalize_section_def obj.ok_put)

lemma loaded_sections_kept: "sections_kept (load_admin_page opt)"
proof -
  have kept: "sections_kept (JObj (normalizeSidebarModulesAdmin modules))" for modules
  proof -
    define c where "c = obj_spread createDefaultSidebarModulesAdmin (own_entries (js_or modules (JObj [])))"
    have "obj_ok createDefaultSidebarModulesAdmin" by code_simp
    then have ok: "obj_ok (normalizeSidebarModulesAdmin modules)"
      unfolding normalizeSidebarModulesAdmin_def by (intro normalized_sections_ok obj_ok_spread)
    have "section_kept (normalizeSidebarModulesAdmin modules) sec" if "sec \<in> set section_names" for sec
    proof -
      define d where "d = section_entries createDefaultSidebarModulesAdmin sec"
      have d: "obj_ok d" using default_page_sections(2) [OF that] in_order_iff [of d] by (simp add: d_def in_order_def)
      have "obj_get (normalizeSidebarModulesAdmin modules) sec = Some (JObj (obj_spread d (section_entries c sec)))"
        using normalized_fold [of section_names sec c] that by (simp add: normalizeSidebarModulesAdmin_def c_def d_def)
      then show ?thesis
        using keys_spread [of d "section_entries c sec"] obj_ok_spread [OF d]
        by (auto simp: section_kept_def list_all_iff simp flip: d_def simp del: set_map)
    qed
    then show ?thesis using ok by (simp add: sections_kept_def)
  qed
  show ?thesis by (simp add: load_admin_page_def kept default_sections_kept split: sum.splits)
qed

lemma change_keeps:
  assumes "sections_kept v" "change_switch sec key checked v = Some v'"
  shows "sections_kept v'"
proof -
  obtain kvs where v: "v = JObj kvs" "obj_ok kvs" "list_all (section_kept kvs) section_names"
    using assms(1) by (auto simp: sections_kept_def split: jsval.splits)
  define c where "c = obj_of (own_entries (value_get v sec))"
  have v': "v' = JObj (obj_put sec (JObj (obj_put key (JBool checked) c)) (obj_of kvs))"
    using assms(2) v(1) by (simp add: change_switch_def own_entries_def c_def)
  have same: "obj_get (obj_of kvs) j = obj_get kvs j" for j
    using v(2) obj_get_of_distinct [of kvs j] by (simp add: obj_ok_def) (simp add: obj_get_def)
  have c_ok: "obj_ok c" by (simp add: c_def obj_of_def obj_ok_spread obj.ok_empty)
  have "section_kept (obj_put sec (JObj (obj_put key (JBool checked) c)) (obj_of kvs)) j" if j: "section_kept kvs j" for j
  proof (cases "j = sec")
    case True
    obtain o1 where o1: "obj_get kvs j = Some (JObj o1)"
        "list_all (\<lambda>k. k \<in> set (map fst o1)) (map fst (section_entries createDefaultSidebarModulesAdmin j))"
      using j by (auto simp: section_kept_def split: option.splits jsval.splits)
    have "set (map fst c) = set (map fst o1)"
      using o1(1) True v(1) keys_spread [of "[]" o1] by (simp add: c_def value_get_def own_entries_def obj_of_def)
    then show ?thesis
      using o1(2) True keys_obj_put [of key "JBool checked" c] obj.ok_put [OF c_ok]
      by (auto simp: section_kept_def list_all_iff simp del: set_map)
  qed (use j same in \<open>simp add: section_kept_def\<close>)
  moreover have "obj_ok (obj_of kvs)" by (simp add: obj_of_def obj_ok_spread obj.ok_empty)
  ultimately show ?thesis
    using v(3) unfolding v' sections_kept_def by (simp add: obj.ok_put list_all_iff)
qed

interpretation admin_page: invariant_system admin_switch "\<lambda>v. \<exists>opt. v = load_admin_page opt" sections_kept
proof
  show "sections_kept v'" if "sections_kept v" "admin_switch e v = Some v'" for v e v'
    using that by (cases e) (auto simp: default_sections_kept intro: change_keeps)
qed (auto simp: loaded_sections_kept)

lemma kept_section_allows:
  assumes "sections_kept (JObj kvs)" "sec \<in> set section_names"
    and "k \<in> set (map fst (section_entries createDefaultSidebarModulesAdmin sec))"
  shows "value_get (value_get (JObj (mergeAdminConfig (JObj kvs))) sec) k = value_get (value_get (JObj kvs) sec) k"
proof -
  have "section_kept kvs sec" using assms(1,2) by (auto simp: sections_kept_def)
  then obtain c where c: "obj_get kvs sec = Some (JObj c)" "obj_ok c" "k \<in> set (map fst c)"
    using assms(3) by (auto simp: section_kept_def list_all_iff simp del: set_map split: option.splits jsval.splits)
  have rev: "map_of (rev c) k = obj_get c k"
    using c(2) by (simp add: map_of_rev_keys obj_ok_def obj_get_def)
  obtain x where x: "obj_get c k = Some x"
    using c(3) by (cases "obj_get c k") (auto simp: obj_get_def map_of_eq_None_iff)
  have "obj_get (mergeAdminConfig (JObj kvs)) sec = obj_get (merge_section (sec, JObj c) DEFAULT_ADMIN_CONFIG) sec"
    using merge_fold [of kvs DEFAULT_ADMIN_CONFIG sec] assms(1) c(1)
    by (simp add: mergeAdminConfig_def is_object_value_def own_entries_def sections_kept_def obj_ok_def obj_get_def)
  then show ?thesis
    using c(1) x rev by (simp add: value_get_def merge_section_get is_object_value_def own_entries_def obj_get_spread)
qed

lemma offered_switches:
  "(sec, ms) \<in> set admin_page_switches \<Longrightarrow> m \<in> set ms \<Longrightarrow>
   sec \<in> set section_names \<and> m \<notin> {[], ''enabled''} \<and>
   {m, ''enabled''} \<subseteq> set (map fst (section_entries createDefaultSidebarModulesAdmin sec))"
proof -
  have "list_all (\<lambda>(sec, ms). sec \<in> set section_names \<and> ''enabled'' \<in> set (map fst (section_entries createDefaultSidebarModulesAdmin sec)) \<and>
      list_all (\<lambda>m. m \<notin> {[], ''enabled''} \<and> m \<in> set (map fst (section_entries createDefaultSidebarModulesAdmin sec))) ms)
    admin_page_switches"
    by code_simp
  then show "(sec, ms) \<in> set admin_page_switches \<Longrightarrow> m \<in> set ms \<Longrightarrow> ?thesis"
    unfolding list_all_iff by fast
qed

definition settings_reply :: "string \<Rightarrow> jsval" where
  "settings_reply text =
     JObj [(''success'', JBool True), (''data'', JObj [(''sidebar_modules'', JStr text)])]"

lemma settings_back: "json_storable u \<Longrightarrow> replied_config admin (Some (settings_reply (json_text u))) = u"
  by (simp add: replied_config_def settings_reply_def value_get_def obj_get_def json_parse_text)

lemma keeps_iff_on:
  "user_keeps u sec m \<longleftrightarrow> truthy u \<and> user_switch_on u sec ''enabled'' \<and> user_switch_on u sec m"
  unfolding user_keeps_def user_switch_on_def by (cases "value_get u sec") (auto simp: value_get_def)

text \<open>
  C8: However the administrator turns the switches of the page after opening it, once the saved
  text has become the status of the server, and whatever switches the user saved, once the text
  has come back in a reply: in every menu, in every state it can reach with these settings, a
  module that has a switch is shown exactly when all four switches - of its section and its own,
  on the administrator's page and on the user's - are on.
\<close>
theorem saved_switches_rule_the_menu:
  assumes page: "run_events admin_switch turned (load_admin_page opt) = Some v" "json_storable v"
    and user: "json_storable u" "truthy u"
    and run: "run_events sidebar_step es [] = Some ss" "s \<in> set ss"
    and saved: "sb_modules s = JStr (fst (submit_admin v reply status))"
      "sb_user s = replied_config admin (Some (settings_reply (fst (save_user u answer))))"
    and switch: "(sec, ms) \<in> set admin_page_switches" "m \<in> set ms"
  shows "isModuleVisible (finalConfig (sb_admin s) (sb_user s)) sec (Some m) \<longleftrightarrow>
    admin_switch_on v sec ''enabled'' \<and> admin_switch_on v sec m \<and>
    user_switch_on u sec ''enabled'' \<and> user_switch_on u sec m"
proof -
  have kept: "sections_kept v" using admin_page.inv_from_init [OF _ page(1)] by blast
  then obtain kvs where v: "v = JObj kvs" by (auto simp: sections_kept_def split: jsval.splits)
  have menu: "menu_ok s" using menus.inv_from_init [OF _ run(1)] run(2) by simp
  have m: "sec \<in> set section_names" "m \<notin> {[], ''enabled''}"
    "{m, ''enabled''} \<subseteq> set (map fst (section_entries createDefaultSidebarModulesAdmin sec))"
    using offered_switches [OF switch] by auto
  have admin: "sb_admin s = mergeAdminConfig v"
    using menu saved(1) page(2) by (simp add: menu_ok_def submit_admin_def admin_config_def json_parse_text)
  have "sb_user s = u" using saved(2) user(1) by (simp add: save_user_def settings_back)
  moreover have "value_get (value_get (JObj (mergeAdminConfig v)) sec) k = value_get (value_get v sec) k"
    if "k \<in> {m, ''enabled''}" for k
    using kept_section_allows [of kvs sec k] kept m that by (auto simp: v)
  then have "admin_allows (mergeAdminConfig v) sec m \<longleftrightarrow> admin_switch_on v sec ''enabled'' \<and> admin_switch_on v sec m"
    by (force simp: admin_allows_def admin_switch_on_def value_get_def split: option.splits)
  ultimately show ?thesis
    using module_visible [OF merged_sections_ok m(2)] admin user(2) by (simp add: keeps_iff_on)
qed

definition turned_page :: jsval where
  "turned_page =
     (case run_events admin_switch [SwitchModule ''console'' ''log'' False] (load_admin_page JUndef) of
        Some v \<Rightarrow> v | None \<Rightarrow> JUndef)"

definition turned_user :: jsval where
  "turned_user =
     (case run_events user_switch [SwitchModule ''chat'' ''chat'' False] (JObj default_user_modules) of
        Some u \<Rightarrow> u | None \<Rightarrow> JUndef)"

definition saved_menu_events :: "sidebar_event list" where
  "saved_menu_events =
     [SbMount (JStr (json_text turned_page)), SbReply 0 0 (Some (settings_reply (json_text turned_user)))]"

lemma turned_pages:
  "run_events admin_switch [SwitchModule ''console'' ''log'' False] (load_admin_page JUndef) = Some turned_page"
  "json_storable turned_page" "json_storable turned_user" "truthy turned_user"
  "admin_switch_on turned_page ''console'' ''enabled''" "\<not> admin_switch_on turned_page ''console'' ''log''"
  "admin_switch_on turned_page ''console'' ''task''" "user_switch_on turned_user ''console'' ''enabled''"
  "user_switch_on turned_user ''console'' ''task''"
  by code_simp+

lemma saved_menu_run:
  "\<exists>s. run_events sidebar_step saved_menu_events [] = Some [s] \<and>
    sb_modules s = JStr (fst (submit_admin turned_page None JUndef)) \<and>
    sb_user s = replied_config (sb_admin s) (Some (settings_reply (fst (save_user turned_user None))))"
  by (simp add: saved_menu_events_def mount_sidebar_def load_when_known_def loadUserConfig_def take_reply_def
      finish_load_def drop_request_def submit_admin_def save_user_def del: json_text.simps)

lemma saved_switches_rule_the_menu_witness:
  "\<exists>s. run_events sidebar_step saved_menu_events [] = Some [s] \<and>
    isModuleVisible (finalConfig (sb_admin s) (sb_user s)) ''console'' (Some ''task'') \<and>
    \<not> isModuleVisible (finalConfig (sb_admin s) (sb_user s)) ''console'' (Some ''log'')"
proof -
  obtain s where s: "run_events sidebar_step saved_menu_events [] = Some [s]"
      "sb_modules s = JStr (fst (submit_admin turned_page None JUndef))"
      "sb_user s = replied_config (sb_admin s) (Some (settings_reply (fst (save_user turned_user None))))"
    using saved_menu_run by blast
  have offered: "(''console'', [''detail'', ''package'', ''token'', ''log'', ''checkinLottery'', ''activityLottery'',
      ''midjourney'', ''task'']) \<in> set admin_page_switches"
    by (simp add: admin_page_switches_def)
  note shown = saved_switches_rule_the_menu [OF turned_pages(1-4) s(1) _ s(2,3) offered]
  have "isModuleVisible (finalConfig (sb_admin s) (sb_user s)) ''console'' (Some ''task'')"
    using shown [of "''task''"] turned_pages(5-9) by simp
  moreover have "\<not> isModuleVisible (finalConfig (sb_admin s) (sb_user s)) ''console'' (Some ''log'')"
    using shown [of "''log''"] turned_pages(5-9) by simp
  ultimately show ?thesis using s(1) by blast
qed

text \<open>Settings stored as the text \<open>null\<close> break the page on which the user could repair them.\<close>

lemma null_settings_break_the_page:
  "load_user_page (Some (settings_reply ''null'')) (JObj default_user_modules) = JNull \<and>
   user_page (initial_permissions (\<lambda>_. None)) (Some (admin_config JUndef)) JNull = None \<and>
   user_switch (SwitchModule ''chat'' ''chat'' False) JNull = None"
  by code_simp

text \<open>The storage page is in the menus, but the administrator has no switch for it, and resetting
  the switches does not bring it back.\<close>

lemma storage_page_has_no_switch:
  "list_all (\<lambda>(sec, ms). ''r2Storage'' \<notin> set ms) admin_page_switches \<and>
   admin_allows (admin_config JUndef) ''admin'' ''r2Storage'' \<and>
   \<not> admin_switch_on (load_admin_page JUndef) ''admin'' ''r2Storage''"
  by code_simp

end
