(* ===== verification/JsRegex.thy ===== *)
theory JsRegex
  imports JsText
begin

text \<open>
  Backtracking matching.  A matcher maps a text to the list of its matches at the start of
  the text, in the order in which a regular expression tries them: each with what it
  captures and the rest behind it.  Sequencing explores the matches in that order, so the
  first complete match is the one \<open>match\<close> and \<open>exec\<close> return.
\<close>

section \<open>Matchers\<close>

text \<open>\<^verbatim>\<open>[P]*\<close>, greedy: the longest run first.\<close>

fun rx_star :: "('a \<Rightarrow> bool) \<Rightarrow> 'a list \<Rightarrow> ('a list \<times> 'a list) list" where
  "rx_star P [] = [([], [])]"
| "rx_star P (c # s) =
     (if P c then map (\<lambda>(x, r). (c # x, r)) (rx_star P s) else []) @ [([], c # s)]"

definition rx_plus :: "('a \<Rightarrow> bool) \<Rightarrow> 'a list \<Rightarrow> ('a list \<times> 'a list) list" where
  "rx_plus P s = filter (\<lambda>(x, r). x \<noteq> []) (rx_star P s)"

text \<open>Parts that capture nothing give only the rests.\<close>

definition rx_lit :: "'a list \<Rightarrow> 'a list \<Rightarrow> 'a list list" where
  "rx_lit p s = (case strip_prefix p s of Some r \<Rightarrow> [r] | None \<Rightarrow> [])"

definition rx_ws :: "string \<Rightarrow> string list" where
  "rx_ws s = map snd (rx_star js_space s)"

definition rx_alt :: "'a list list \<Rightarrow> 'a list \<Rightarrow> 'a list list" where
  "rx_alt ps s = concat (map (\<lambda>p. rx_lit p s) ps)"

fun skips :: "('a list \<Rightarrow> 'a list list) list \<Rightarrow> 'a list \<Rightarrow> 'a list list" where
  "skips [] s = [s]"
| "skips (f # fs) s = concat (map (skips fs) (f s))"

text \<open>\<^verbatim>\<open>(?:f)*\<close>, greedy; a round that consumes nothing ends the loop.\<close>

fun rx_rounds :: "('a list \<Rightarrow> 'a list list) \<Rightarrow> 'a list \<Rightarrow> 'a list list" where
  "rx_rounds f s =
     concat (map (\<lambda>r. if length r < length s then rx_rounds f r else []) (f s)) @ [s]"

declare rx_rounds.simps [simp del]

text \<open>The inside of a string literal, \<^verbatim>\<open>(?:[^"\\]|\\.)*\<close>; the dot matches no line break.\<close>

fun rx_chars :: "string \<Rightarrow> (string \<times> string) list" where
  "rx_chars [] = [([], [])]"
| "rx_chars (c # cs) =
     (if c = CHR 0x22 then []
      else if c = CHR 0x5C then
        (case cs of
           [] \<Rightarrow> []
         | e # es \<Rightarrow> if e = CHR 0x0A \<or> e = CHR 0x0D then []
                      else map (\<lambda>(t, r). (c # e # t, r)) (rx_chars es))
      else map (\<lambda>(t, r). (c # t, r)) (rx_chars cs)) @ [([], c # cs)]"

text \<open>
  \<open>exec\<close> with the flag \<open>g\<close> in a loop: the first match at the leftmost position, then on
  behind it.  (An empty match would repeat for ever; it is skipped here.)
\<close>

fun rx_all :: "('a list \<Rightarrow> ('b \<times> 'a list) list) \<Rightarrow> 'a list \<Rightarrow> 'b list" where
  "rx_all m [] = []"
| "rx_all m (c # s) =
     (case m (c # s) of
        [] \<Rightarrow> rx_all m s
      | (x, r) # _ \<Rightarrow> if length r < length (c # s) then x # rx_all m r else rx_all m s)"

text \<open>\<open>s.split(re)\<close> for a separator that matches no empty text.\<close>

fun rx_split :: "('a list \<Rightarrow> 'a list list) \<Rightarrow> 'a list \<Rightarrow> 'a list list" where
  "rx_split sep [] = [[]]"
| "rx_split sep (c # s) =
     (case sep (c # s) of
        r # _ \<Rightarrow> if length r < length (c # s) then [] # rx_split sep r
                 else (case rx_split sep s of [] \<Rightarrow> [[c]] | x # xs \<Rightarrow> (c # x) # xs)
      | [] \<Rightarrow> (case rx_split sep s of [] \<Rightarrow> [[c]] | x # xs \<Rightarrow> (c # x) # xs))"

declare rx_split.simps(2) [simp del]

section \<open>Laws\<close>

lemma rx_lit_append [simp]: "rx_lit p (p @ s) = [s]"
  by (simp add: rx_lit_def)

lemma rx_lit_Nil [simp]: "rx_lit [] s = [s]" "rx_lit (p # ps) [] = []"
  by (simp_all add: rx_lit_def)

lemma rx_lit_Cons [simp]: "rx_lit (p # ps) (c # s) = (if p = c then rx_lit ps s else [])"
  by (simp add: rx_lit_def)

lemma rx_ws_Nil [simp]: "rx_ws [] = [[]]"
  by (simp add: rx_ws_def)

lemma rx_ws_none [simp]: "\<not> js_space c \<Longrightarrow> rx_ws (c # s) = [c # s]"
  by (simp add: rx_ws_def)

lemma rx_ws_Cons: "rx_ws (c # s) = (if js_space c then rx_ws s else []) @ [c # s]"
  by (simp add: rx_ws_def split_def comp_def)

lemma js_space_blank [simp]: "js_space CHR '' ''"
  by (simp add: js_space_def)

text \<open>A greedy run commits when no shorter run can go on.\<close>

lemma star_commit:
  assumes "list_all P x" and "r = [] \<or> \<not> P (hd r)"
    and "\<And>y z. x = y @ z \<Longrightarrow> z \<noteq> [] \<Longrightarrow> k (y, z @ r) = []"
  shows "concat (map k (rx_star P (x @ r))) = k (x, r)"
  using assms
proof (induction x arbitrary: k)
  case Nil
  then show ?case by (cases r) auto
next
  case (Cons c x)
  have "concat (map (\<lambda>(y, q). k (c # y, q)) (rx_star P (x @ r))) = k (c # x, r)"
    using Cons.IH [of "\<lambda>(y, q). k (c # y, q)"] Cons.prems by simp
  moreover have "k ([], c # x @ r) = []"
    using Cons.prems(3) [of "[]" "c # x"] by simp
  ultimately show ?case
    using Cons.prems(1) by (simp add: comp_def split_def)
qed

lemma concat_map_filter: "concat (map k (filter Q xs)) = concat (map (\<lambda>x. if Q x then k x else []) xs)"
  by (induction xs) auto

lemma plus_commit:
  assumes "list_all P x" and "x \<noteq> []" and "r = [] \<or> \<not> P (hd r)"
    and "\<And>y z. x = y @ z \<Longrightarrow> z \<noteq> [] \<Longrightarrow> k (y, z @ r) = []"
  shows "concat (map k (rx_plus P (x @ r))) = k (x, r)"
proof -
  let ?k = "\<lambda>(y, q). if y = [] then [] else k (y, q)"
  have "concat (map k (rx_plus P (x @ r))) = concat (map ?k (rx_star P (x @ r)))"
    unfolding rx_plus_def concat_map_filter by (rule arg_cong [of _ _ concat]) auto
  then show ?thesis
    using star_commit [OF assms(1,3), of ?k] assms(2,4) by auto
qed

end
