(* ===== verification/StatusCodes.thy ===== *)
theory StatusCodes
  imports JsJson
begin

text \<open>
  HTTP status codes in the channel settings:
  \<open>web/src/helpers/statusCodeRules.js\<close> (a text of codes and ranges, parsed, merged and
  written in normal form) and
  \<open>web/src/components/table/channels/modals/statusCodeRiskGuard.js\<close> (which redirections of
  status codes need a confirmation).

  The rules accept the full-width comma, which is outside Latin-1, so their texts are lists
  of UTF-16 code units.
\<close>

section \<open>Texts of code units\<close>

type_synonym text16 = "int list"

definition units :: "string \<Rightarrow> text16" where
  "units s = map of_char s"

definition space16 :: "int \<Rightarrow> bool" where
  "space16 u \<longleftrightarrow>
     9 \<le> u \<and> u \<le> 13 \<or> u \<in> set [32, 160, 5760, 8232, 8233, 8239, 8287, 12288, 65279]
     \<or> 8192 \<le> u \<and> u \<le> 8202"

definition digit16 :: "int \<Rightarrow> bool" where
  "digit16 u \<longleftrightarrow> 48 \<le> u \<and> u \<le> 57"

definition read16 :: "text16 \<Rightarrow> int" where
  "read16 us = foldl (\<lambda>n u. 10 * n + (u - 48)) 0 us"

definition comma16 :: int where "comma16 = 44"
definition full_comma16 :: int where "full_comma16 = 65292"
definition dash16 :: int where "dash16 = 45"

section \<open>Status code rules\<close>

record code_range =
  range_start :: int
  range_end :: int

definition isNumber :: "text16 \<Rightarrow> bool" where
  "isNumber s \<longleftrightarrow> s \<noteq> [] \<and> list_all digit16 s"

text \<open>\<open>Number.parseInt\<close> of digits; a number too large for a double is rejected by the bound
  599 all the same.\<close>

definition parseToken :: "text16 \<Rightarrow> code_range option" where
  "parseToken token =
     (let cleaned = filter (\<lambda>u. u \<noteq> 32) (trim_by space16 token)
      in if cleaned = [] then None
         else if dash16 \<in> set cleaned then
           (case split_on (\<lambda>u. u = dash16) cleaned of
              [a, b] \<Rightarrow>
                if \<not> isNumber a \<or> \<not> isNumber b then None
                else if read16 b < read16 a then None
                else if read16 a < 100 \<or> 599 < read16 b then None
                else Some \<lparr>range_start = read16 a, range_end = read16 b\<rparr>
            | _ \<Rightarrow> None)
         else if \<not> isNumber cleaned then None
         else if read16 cleaned < 100 \<or> 599 < read16 cleaned then None
         else Some \<lparr>range_start = read16 cleaned, range_end = read16 cleaned\<rparr>)"

definition range_le :: "code_range \<Rightarrow> code_range \<Rightarrow> bool" where
  "range_le a b \<longleftrightarrow>
     (if range_start a \<noteq> range_start b then range_start a \<le> range_start b
      else range_end a \<le> range_end b)"

text \<open>The loop over the sorted ranges; \<open>prev\<close> is the last range of \<open>merged\<close>, which it updates.\<close>

fun merge_from :: "code_range \<Rightarrow> code_range list \<Rightarrow> code_range list" where
  "merge_from prev [] = [prev]"
| "merge_from prev (c # cs) =
     (if range_start c \<le> range_end prev + 1
      then merge_from (prev\<lparr>range_end := max (range_end prev) (range_end c)\<rparr>) cs
      else prev # merge_from c cs)"

definition mergeRanges :: "code_range list \<Rightarrow> code_range list" where
  "mergeRanges rs =
     (case sort_by range_le rs of [] \<Rightarrow> [] | r # rest \<Rightarrow> merge_from r rest)"

definition range_token :: "code_range \<Rightarrow> text16" where
  "range_token r =
     (if range_start r = range_end r then units (show_int (range_start r))
      else units (show_int (range_start r)) @ [dash16] @ units (show_int (range_end r)))"

record rules_result =
  rules_ok :: bool
  rules_ranges :: "code_range list"
  rules_tokens :: "text16 list"
  rules_normalized :: text16
  rules_invalidTokens :: "text16 list"

definition rule_segments :: "text16 \<Rightarrow> text16 list" where
  "rule_segments raw =
     filter_nonempty (map (trim_by space16)
       (split_on (\<lambda>u. u = comma16) (map (\<lambda>u. if u = full_comma16 then comma16 else u) raw)))"

definition parseHttpStatusCodeRules :: "text16 option \<Rightarrow> rules_result" where
  "parseHttpStatusCodeRules input =
     (let raw = trim_by space16 (case input of Some s \<Rightarrow> s | None \<Rightarrow> [])
      in if raw = [] then
           \<lparr>rules_ok = True, rules_ranges = [], rules_tokens = [], rules_normalized = [],
            rules_invalidTokens = []\<rparr>
         else
           let segments = rule_segments raw;
               invalid = filter (\<lambda>s. parseToken s = None) segments;
               merged = mergeRanges (List.map_filter parseToken segments);
               tokens = map range_token merged
           in if invalid \<noteq> [] then
                \<lparr>rules_ok = False, rules_ranges = [], rules_tokens = [], rules_normalized = raw,
                 rules_invalidTokens = invalid\<rparr>
              else
                \<lparr>rules_ok = True, rules_ranges = merged, rules_tokens = tokens,
                 rules_normalized = join [comma16] tokens, rules_invalidTokens = []\<rparr>)"

section \<open>Risky redirections\<close>

definition NON_REDIRECTABLE_STATUS_CODES :: "int list" where
  "NON_REDIRECTABLE_STATUS_CODES = [504, 524]"

text \<open>\<^verbatim>\<open>/^[1-5]\d{2}$/\<close>\<close>

definition status_pattern :: "string \<Rightarrow> bool" where
  "status_pattern s \<longleftrightarrow> length s = 3 \<and> list_all is_digit s \<and> hd s \<in> set ''12345''"

definition parseStatusCodeKey :: "string \<Rightarrow> int option" where
  "parseStatusCodeKey raw =
     (let s = js_trim raw in if status_pattern s then Some (read_int s) else None)"

definition parseStatusCodeMappingTarget :: "jsval \<Rightarrow> int option" where
  "parseStatusCodeMappingTarget v =
     (case v of
        JNum x \<Rightarrow>
          (case x of
             Fin a \<Rightarrow> if is_integer_num x \<and> 100 \<le> a \<and> a \<le> 599 then Some (floor a) else None
           | _ \<Rightarrow> None)
      | JStr raw \<Rightarrow>
          (let s = js_trim raw
           in if \<not> status_pattern s then None
              else let code = read_int s in if 100 \<le> code \<and> code \<le> 599 then Some code else None)
      | _ \<Rightarrow> None)"

text \<open>The entries of the mapping, when the text is a JSON object.\<close>

definition mapping_entries :: "jsval \<Rightarrow> (string \<times> jsval) list" where
  "mapping_entries v =
     (case v of
        JStr txt \<Rightarrow>
          if js_trim txt = [] then []
          else (case json_parse txt of Inr (JObj kvs) \<Rightarrow> kvs | _ \<Rightarrow> [])
      | _ \<Rightarrow> [])"

text \<open>An invalid entry is shown as its key, an arrow and its value.\<close>

definition collectInvalidStatusCodeEntries :: "jsval \<Rightarrow> (string \<times> string) list" where
  "collectInvalidStatusCodeEntries v =
     map (\<lambda>(k, x). (k, text_of_value x))
       (filter (\<lambda>(k, x). parseStatusCodeKey k = None \<or> parseStatusCodeMappingTarget x = None)
         (mapping_entries v))"

definition risky_text :: "int \<Rightarrow> int \<Rightarrow> string" where
  "risky_text a b = show_int a @ '' -> '' @ show_int b"

definition risky_entry :: "string \<times> jsval \<Rightarrow> string option" where
  "risky_entry e =
     (case e of (k, x) \<Rightarrow>
        (case (parseStatusCodeKey k, parseStatusCodeMappingTarget x) of
           (Some a, Some b) \<Rightarrow>
             if a \<notin> set NON_REDIRECTABLE_STATUS_CODES then None
             else if a = b then None
             else Some (risky_text a b)
         | _ \<Rightarrow> None))"

text \<open>The default order of \<open>sort()\<close>, by code units.\<close>

fun text_leq :: "string \<Rightarrow> string \<Rightarrow> bool" where
  "text_leq [] b \<longleftrightarrow> True"
| "text_leq (x # a) [] \<longleftrightarrow> False"
| "text_leq (x # a) (y # b) \<longleftrightarrow>
     (of_char x :: nat) < of_char y \<or> x = y \<and> text_leq a b"

definition collectDisallowedStatusCodeRedirects :: "jsval \<Rightarrow> string list" where
  "collectDisallowedStatusCodeRedirects v =
     sort_by text_leq (js_unique (List.map_filter risky_entry (mapping_entries v)))"

definition collectNewDisallowedStatusCodeRedirects :: "jsval \<Rightarrow> jsval \<Rightarrow> string list" where
  "collectNewDisallowedStatusCodeRedirects original current =
     (let risky = collectDisallowedStatusCodeRedirects current
      in if risky = [] then []
         else filter (\<lambda>m. m \<notin> set (collectDisallowedStatusCodeRedirects original)) risky)"

section \<open>Orders\<close>

interpretation range_order: comparator range_le
  by unfold_locales (auto simp: range_le_def split: if_splits)

lemma text_leq_total: "text_leq a b \<or> text_leq b a"
  by (induction a b rule: text_leq.induct) auto

lemma text_leq_trans: "text_leq a b \<Longrightarrow> text_leq b c \<Longrightarrow> text_leq a c"
proof (induction a b arbitrary: c rule: text_leq.induct)
  case (3 x a y b)
  then show ?case by (cases c) auto
qed simp_all

interpretation text_order: comparator text_leq
  by unfold_locales (use text_leq_total text_leq_trans in blast)+

section \<open>Merging\<close>

definition range_valid :: "code_range \<Rightarrow> bool" where
  "range_valid r \<longleftrightarrow> 100 \<le> range_start r \<and> range_start r \<le> range_end r \<and> range_end r \<le> 599"

definition range_codes :: "code_range list \<Rightarrow> int set" where
  "range_codes rs = (\<Union>r \<in> set rs. {range_start r..range_end r})"

definition separated :: "code_range list \<Rightarrow> bool" where
  "separated rs \<longleftrightarrow> sorted_wrt (\<lambda>a b. range_end a + 1 < range_start b) rs"

lemma range_codes_simps [simp]:
  "range_codes [] = {}"
  "range_codes (r # rs) = {range_start r..range_end r} \<union> range_codes rs"
  by (simp_all add: range_codes_def)

lemma merge_from_codes:
  assumes "list_all range_valid (p # cs)" "sorted_wrt (\<lambda>a b. range_start a \<le> range_start b) (p # cs)"
  shows "range_codes (merge_from p cs) = range_codes (p # cs)"
  using assms
proof (induction p cs rule: merge_from.induct)
  case (2 p c cs)
  show ?case
  proof (cases "range_start c \<le> range_end p + 1")
    case True
    let ?p = "p\<lparr>range_end := max (range_end p) (range_end c)\<rparr>"
    have "range_codes (merge_from ?p cs) = range_codes (?p # cs)"
      by (rule "2.IH"(1) [OF True]) (use "2.prems" in \<open>auto simp: range_valid_def\<close>)
    moreover have "{range_start p..max (range_end p) (range_end c)}
        = {range_start p..range_end p} \<union> {range_start c..range_end c}"
      using True "2.prems" by (auto simp: range_valid_def)
    ultimately show ?thesis using True by (simp add: Un_assoc)
  next
    case False
    have "range_codes (merge_from c cs) = range_codes (c # cs)"
      by (rule "2.IH"(2) [OF False]) (use "2.prems" in auto)
    with False show ?thesis by simp
  qed
qed simp

lemma merge_from_shape:
  assumes "list_all range_valid (p # cs)" "sorted_wrt (\<lambda>a b. range_start a \<le> range_start b) (p # cs)"
  shows "separated (merge_from p cs) \<and> list_all range_valid (merge_from p cs)
    \<and> (\<forall>r \<in> set (merge_from p cs). range_start p \<le> range_start r)"
  using assms
proof (induction p cs rule: merge_from.induct)
  case (1 p)
  then show ?case by (simp add: separated_def)
next
  case (2 p c cs)
  show ?case
  proof (cases "range_start c \<le> range_end p + 1")
    case True
    let ?p = "p\<lparr>range_end := max (range_end p) (range_end c)\<rparr>"
    have "separated (merge_from ?p cs) \<and> list_all range_valid (merge_from ?p cs)
        \<and> (\<forall>r \<in> set (merge_from ?p cs). range_start ?p \<le> range_start r)"
      by (rule "2.IH"(1) [OF True]) (use "2.prems" in \<open>auto simp: range_valid_def\<close>)
    with True show ?thesis by simp
  next
    case False
    have ih: "separated (merge_from c cs) \<and> list_all range_valid (merge_from c cs)
        \<and> (\<forall>r \<in> set (merge_from c cs). range_start c \<le> range_start r)"
      by (rule "2.IH"(2) [OF False]) (use "2.prems" in auto)
    have lt: "range_end p + 1 < range_start r" if "r \<in> set (merge_from c cs)" for r
      using ih that False by (metis linorder_not_le order_less_le_trans)
    have le: "range_start p \<le> range_start r" if "r \<in> set (merge_from c cs)" for r
      using lt [OF that] "2.prems"(1) by (simp add: range_valid_def)
    from False ih lt le "2.prems"(1) show ?thesis by (simp add: separated_def)
  qed
qed

lemma sorted_starts:
  "sorted_wrt (\<lambda>a b. range_start a \<le> range_start b) (sort_by range_le rs)"
  using range_order.sorted_sort_by [of rs]
  by (rule sorted_wrt_mono_rel [rotated]) (auto simp: range_le_def split: if_splits)

lemma range_codes_set: "set xs = set ys \<Longrightarrow> range_codes xs = range_codes ys"
  by (simp add: range_codes_def)

lemma mergeRanges_ok:
  assumes "list_all range_valid rs"
  shows "range_codes (mergeRanges rs) = range_codes rs \<and> separated (mergeRanges rs)
    \<and> list_all range_valid (mergeRanges rs)"
proof (cases "sort_by range_le rs")
  case Nil
  then have "rs = []" using length_sort_by [of range_le rs] by simp
  then show ?thesis by (simp add: mergeRanges_def separated_def)
next
  case (Cons r rest)
  have v: "list_all range_valid (r # rest)"
    using assms set_sort_by [of range_le rs] by (simp add: Cons list_all_iff)
  have s: "sorted_wrt (\<lambda>a b. range_start a \<le> range_start b) (r # rest)"
    using sorted_starts [of rs] by (simp add: Cons)
  have "range_codes (r # rest) = range_codes rs"
    by (rule range_codes_set) (use set_sort_by [of range_le rs] Cons in simp)
  with merge_from_codes [OF v s] merge_from_shape [OF v s] show ?thesis
    by (simp add: mergeRanges_def Cons)
qed

lemma insert_by_head: "\<forall>y \<in> set ys. le x y \<Longrightarrow> insert_by le x ys = x # ys"
  by (cases ys) auto

lemma sort_by_sorted: "sorted_wrt le xs \<Longrightarrow> sort_by le xs = xs"
  by (induction xs) (simp_all add: insert_by_head)

lemma merge_from_separated: "separated (p # cs) \<Longrightarrow> merge_from p cs = p # cs"
  by (induction p cs rule: merge_from.induct) (auto simp: separated_def)

lemma mergeRanges_id:
  assumes "separated rs" "list_all range_valid rs"
  shows "mergeRanges rs = rs"
proof -
  have "sorted_wrt range_le rs"
    using assms
  proof (induction rs)
    case (Cons r rs)
    have "range_le r x" if "x \<in> set rs" for x
    proof -
      have "range_end r + 1 < range_start x" using Cons.prems(1) that by (simp add: separated_def)
      with Cons.prems(2) show ?thesis by (simp add: range_le_def range_valid_def)
    qed
    with Cons show ?case by (simp add: separated_def)
  qed simp
  then have "sort_by range_le rs = rs" by (rule sort_by_sorted)
  with assms show ?thesis by (cases rs) (simp_all add: mergeRanges_def merge_from_separated)
qed

section \<open>Reading tokens back\<close>

lemma units_digits: "list_all is_digit s \<Longrightarrow> list_all digit16 (units s)"
proof -
  have "\<forall>c \<in> set ''0123456789''. digit16 (of_char c)" by code_simp
  then show "list_all is_digit s \<Longrightarrow> ?thesis" unfolding units_def list_all_iff is_digit_def set_map by blast
qed

lemma read16_units: "list_all is_digit s \<Longrightarrow> read16 (units s) = read_int s"
proof -
  have "\<forall>c \<in> set ''0123456789''. (of_char c :: int) - 48 = int (digit_val c)" by code_simp
  then have d: "is_digit c \<Longrightarrow> of_char c - 48 = int (digit_val c)" for c
    unfolding is_digit_def by blast
  have "list_all is_digit s \<Longrightarrow>
      foldl (\<lambda>n u. 10 * n + (u - 48)) k (units s) = foldl (\<lambda>n c. 10 * n + int (digit_val c)) k s" for k
    using d by (induction s arbitrary: k) (auto simp: units_def)
  then show "list_all is_digit s \<Longrightarrow> ?thesis" by (simp add: read16_def read_int_def)
qed

lemma show_int_all: "list_all is_digit (show_int n)"
proof (cases "0 \<le> n")
  case True
  then show ?thesis using show_int_digits by (auto simp: list_all_iff)
next
  case False
  then show ?thesis by (subst show_int.simps) simp
qed

lemma read16_show: "0 \<le> n \<Longrightarrow> read16 (units (show_int n)) = n"
  by (simp add: read16_units show_int_all)

lemma isNumber_show [simp]: "isNumber (units (show_int n))"
  using units_digits [OF show_int_all [of n]] by (simp add: isNumber_def units_def)

lemma show_units_plain: "u \<in> set (units (show_int n)) \<Longrightarrow> digit16 u"
  using isNumber_show [of n] by (auto simp: isNumber_def list_all_iff)

lemma digit16_plain: "digit16 u \<Longrightarrow> \<not> space16 u \<and> u \<noteq> 32 \<and> u \<noteq> dash16 \<and> u \<noteq> comma16 \<and> u \<noteq> full_comma16"
  by (auto simp: digit16_def space16_def dash16_def comma16_def full_comma16_def)

lemma token_units: "u \<in> set (range_token r) \<Longrightarrow> digit16 u \<or> u = dash16"
  using show_units_plain by (auto simp: range_token_def split: if_splits)

lemma token_plain:
  "u \<in> set (range_token r) \<Longrightarrow> \<not> space16 u \<and> u \<noteq> 32 \<and> u \<noteq> comma16 \<and> u \<noteq> full_comma16"
  using token_units [of u r] digit16_plain [of u]
  by (auto simp: dash16_def space16_def comma16_def full_comma16_def)

lemma token_nonempty: "range_token r \<noteq> []"
  by (auto simp: range_token_def units_def)

lemma trim_no_space: "(\<And>u. u \<in> set s \<Longrightarrow> \<not> P u) \<Longrightarrow> trim_by P s = s"
  by (rule trim_by_id) (auto simp: trimmed_by_def)

lemma parseToken_token:
  assumes "range_valid r"
  shows "parseToken (range_token r) = Some r"
proof -
  have t: "trim_by space16 (range_token r) = range_token r" by (rule trim_no_space) (use token_plain in blast)
  have f: "filter (\<lambda>u. u \<noteq> 32) (range_token r) = range_token r"
    using token_plain by (auto intro: filter_True)
  have nd: "dash16 \<notin> set (units (show_int n))" for n
    using show_units_plain digit16_plain by blast
  have ne: "units (show_int n) \<noteq> []" for n by (simp add: units_def)
  have sp: "split_on (\<lambda>u. u = dash16) (units (show_int a) @ dash16 # units (show_int b))
      = [units (show_int a), units (show_int b)]" for a b
    using nd by (subst split_on_append) (auto intro: split_on_clean)
  show ?thesis
    using assms unfolding parseToken_def Let_def t f
    by (cases r) (auto simp: token_nonempty range_token_def nd sp range_valid_def ne read16_show)
qed

lemma parseToken_valid: "parseToken t = Some r \<Longrightarrow> range_valid r"
  by (auto simp: parseToken_def range_valid_def Let_def split: if_splits list.splits)


section \<open>The normal form\<close>

lemma map_filter_all: "\<forall>x \<in> set xs. f x = Some (g x) \<Longrightarrow> List.map_filter f xs = map g xs"
  by (induction xs) (simp_all add: List.map_filter_simps)

lemma map_filter_some: "y \<in> set (List.map_filter f xs) \<longleftrightarrow> (\<exists>x \<in> set xs. f x = Some y)"
  by (induction xs) (auto simp: List.map_filter_simps split: option.splits)

lemma parsed_valid: "list_all range_valid (List.map_filter parseToken segs)"
  by (auto simp: list_all_iff map_filter_some dest: parseToken_valid)

lemma join_tokens_plain:
  "u \<in> set (join [comma16] (map range_token rs)) \<Longrightarrow> \<not> space16 u \<and> u \<noteq> full_comma16"
proof (induction rs)
  case (Cons r rs)
  then show ?case
    using token_plain [of u r]
    by (auto simp: join_Cons comma16_def space16_def full_comma16_def split: if_splits)
qed simp

lemma segments_normal:
  assumes "rs \<noteq> []"
  shows "rule_segments (join [comma16] (map range_token rs)) = map range_token rs"
proof -
  let ?n = "join [comma16] (map range_token rs)"
  have m: "map (\<lambda>u. if u = full_comma16 then comma16 else u) ?n = ?n"
    by (rule map_idI) (use join_tokens_plain in auto)
  have s: "split_on (\<lambda>u. u = comma16) ?n = map range_token rs"
    by (rule split_on_join) (use assms token_plain in auto)
  have t: "map (trim_by space16) (map range_token rs) = map range_token rs"
    unfolding map_map
    by (rule map_cong) (auto intro!: trim_no_space dest: token_plain)
  show ?thesis
    unfolding rule_segments_def m s t by (rule filter_nonempty_id) (use token_nonempty in auto)
qed

lemma rules_of_normal:
  assumes "separated rs" "list_all range_valid rs"
  shows "parseHttpStatusCodeRules (Some (join [comma16] (map range_token rs)))
    = \<lparr>rules_ok = True, rules_ranges = rs, rules_tokens = map range_token rs,
       rules_normalized = join [comma16] (map range_token rs), rules_invalidTokens = []\<rparr>"
proof (cases "rs = []")
  case True
  then show ?thesis by (simp add: parseHttpStatusCodeRules_def)
next
  case False
  let ?n = "join [comma16] (map range_token rs)"
  have t: "trim_by space16 ?n = ?n" by (rule trim_no_space) (use join_tokens_plain in blast)
  have ne: "?n \<noteq> []" using False token_nonempty by (cases rs) (simp_all add: join_Cons)
  have p: "\<forall>r \<in> set rs. parseToken (range_token r) = Some r"
    using assms(2) parseToken_token by (simp add: list_all_iff)
  have v: "filter (\<lambda>s. parseToken s = None) (map range_token rs) = []"
    using p by (simp add: filter_empty_conv)
  have "List.map_filter parseToken (map range_token rs) = rs"
    using p map_filter_all [of rs "\<lambda>r. parseToken (range_token r)" id]
    by (simp add: List.map_filter_def comp_def filter_map)
  then show ?thesis
    unfolding parseHttpStatusCodeRules_def Let_def option.case t segments_normal [OF False] v
    using ne mergeRanges_id [OF assms] by simp
qed

lemma rules_shape:
  assumes "rules_ok (parseHttpStatusCodeRules input)"
  obtains rs where "separated rs" "list_all range_valid rs"
    "parseHttpStatusCodeRules input
     = \<lparr>rules_ok = True, rules_ranges = rs, rules_tokens = map range_token rs,
        rules_normalized = join [comma16] (map range_token rs), rules_invalidTokens = []\<rparr>"
proof -
  let ?raw = "trim_by space16 (case input of Some s \<Rightarrow> s | None \<Rightarrow> [])"
  show ?thesis
  proof (cases "?raw = []")
    case True
    then show ?thesis using that [of "[]"]
      by (simp add: parseHttpStatusCodeRules_def separated_def)
  next
    case False
    have m: "separated (mergeRanges (List.map_filter parseToken (rule_segments ?raw)))"
      "list_all range_valid (mergeRanges (List.map_filter parseToken (rule_segments ?raw)))"
      using mergeRanges_ok [OF parsed_valid] by blast+
    have v: "filter (\<lambda>s. parseToken s = None) (rule_segments ?raw) = []"
      using assms False by (auto simp: parseHttpStatusCodeRules_def Let_def split: if_splits)
    show ?thesis
      by (rule that [OF m]) (simp add: parseHttpStatusCodeRules_def Let_def False v)
  qed
qed

section \<open>Properties\<close>

text \<open>
  C38: Parsing the normal form of accepted rules gives the same result again: ranges,
  tokens and text are a fixed point.
\<close>

theorem status_rules_roundtrip:
  assumes "rules_ok (parseHttpStatusCodeRules input)"
  shows "parseHttpStatusCodeRules (Some (rules_normalized (parseHttpStatusCodeRules input)))
    = parseHttpStatusCodeRules input"
  using assms
proof (rule rules_shape)
  fix rs
  assume "separated rs" "list_all range_valid rs" and e: "parseHttpStatusCodeRules input
     = \<lparr>rules_ok = True, rules_ranges = rs, rules_tokens = map range_token rs,
        rules_normalized = join [comma16] (map range_token rs), rules_invalidTokens = []\<rparr>"
  from rules_of_normal [OF this(1,2)] show ?thesis unfolding e by simp
qed

lemma status_rules_roundtrip_witness:
  "let i = units '' 500 - 503, 429,501-599, 401 '' @ [full_comma16] @ units ''402''
   in parseHttpStatusCodeRules (Some (rules_normalized (parseHttpStatusCodeRules (Some i))))
      = parseHttpStatusCodeRules (Some i)"
  unfolding Let_def by (rule status_rules_roundtrip) code_simp

text \<open>
  Merging keeps exactly the codes of the rules: a code is in some merged range iff it
  is in a range of some segment; the merged ranges are ascending, pairwise separated by at
  least one code, and lie within 100 to 599.
\<close>

theorem merged_ranges_exact:
  assumes "list_all range_valid rs"
  shows "((\<exists>r \<in> set (mergeRanges rs). range_start r \<le> c \<and> c \<le> range_end r)
      \<longleftrightarrow> (\<exists>r \<in> set rs. range_start r \<le> c \<and> c \<le> range_end r))
    \<and> sorted_wrt (\<lambda>a b. range_end a + 1 < range_start b) (mergeRanges rs)
    \<and> list_all range_valid (mergeRanges rs)"
proof -
  have "(\<exists>r \<in> set xs. range_start r \<le> c \<and> c \<le> range_end r) \<longleftrightarrow> c \<in> range_codes xs" for xs
    by (auto simp: range_codes_def)
  with mergeRanges_ok [OF assms] show ?thesis
    by (simp add: separated_def)
qed

lemma merged_ranges_exact_witness:
  "let rs = [\<lparr>range_start = 500, range_end = 503\<rparr>, \<lparr>range_start = 401, range_end = 401\<rparr>,
             \<lparr>range_start = 402, range_end = 404\<rparr>]
   in sorted_wrt (\<lambda>a b. range_end a + 1 < range_start b) (mergeRanges rs)
      \<and> list_all range_valid (mergeRanges rs)"
  unfolding Let_def by (rule conjunct2 [OF merged_ranges_exact]) (simp add: range_valid_def)

text \<open>
  A redirection needs a new confirmation exactly when the current mapping sends 504 or
  524 to another valid code and the original mapping did not do the same; the list of them
  is sorted and has no duplicates.
\<close>

theorem new_risky_redirects:
  "(x \<in> set (collectNewDisallowedStatusCodeRedirects original current)
     \<longleftrightarrow> (\<exists>e \<in> set (mapping_entries current). risky_entry e = Some x)
         \<and> \<not> (\<exists>e \<in> set (mapping_entries original). risky_entry e = Some x))
   \<and> sorted_wrt text_leq (collectNewDisallowedStatusCodeRedirects original current)
   \<and> distinct (collectNewDisallowedStatusCodeRedirects original current)"
proof -
  let ?c = "collectDisallowedStatusCodeRedirects"
  have m: "x \<in> set (?c v) \<longleftrightarrow> (\<exists>e \<in> set (mapping_entries v). risky_entry e = Some x)" for v
    by (simp add: collectDisallowedStatusCodeRedirects_def map_filter_some)
  have n: "x \<in> set (collectNewDisallowedStatusCodeRedirects original current)
     \<longleftrightarrow> x \<in> set (?c current) \<and> x \<notin> set (?c original)"
    by (cases "?c current = []") (auto simp: collectNewDisallowedStatusCodeRedirects_def Let_def)
  have s: "sorted_wrt text_leq (?c v)" for v
    unfolding collectDisallowedStatusCodeRedirects_def by (rule text_order.sorted_sort_by)
  have d: "distinct (?c v)" for v
    using distinct_map_sort_by [of id text_leq "js_unique (List.map_filter risky_entry (mapping_entries v))"]
    by (simp add: collectDisallowedStatusCodeRedirects_def)
  have "sorted_wrt text_leq (collectNewDisallowedStatusCodeRedirects original current)
   \<and> distinct (collectNewDisallowedStatusCodeRedirects original current)"
    using s [of current] d [of current]
    by (simp add: collectNewDisallowedStatusCodeRedirects_def Let_def sorted_wrt_filter)
  with n m show ?thesis by simp
qed

end
