(* ===== verification/Marketplace.thy ===== *)
theory Marketplace
  imports StoredData JsRegex GroupMetadata StatusCodes "HOL-Library.Multiset"
begin

text \<open>
  The list of models of the pricing page: how the reply of the server becomes the list
  (\<open>setModelsFormat\<close> of \<open>web/src/hooks/model-pricing/useModelPricingData.jsx\<close>), how the
  filters and the search narrow it (\<open>filteredModels\<close>), and the choices beside it with their
  numbers (\<open>usePricingFilterCounts.js\<close> and the components of
  \<open>web/src/components/table/model-pricing/filter/\<close>).  A model is the JSON object the server
  sent; a method called on a value that does not have it throws.
\<close>

section \<open>Values\<close>

definition js_then :: "'a js_result \<Rightarrow> ('a \<Rightarrow> 'b js_result) \<Rightarrow> 'b js_result" where
  "js_then r f = (case r of Inl e \<Rightarrow> Inl e | Inr x \<Rightarrow> f x)"

text \<open>\<open>a || b\<close> on conditions, the second read only when it counts.\<close>

definition js_either :: "bool js_result \<Rightarrow> bool js_result \<Rightarrow> bool js_result" where
  "js_either a b = js_then a (\<lambda>x. if x then Inr True else b)"

fun js_filter :: "('a \<Rightarrow> bool js_result) \<Rightarrow> 'a list \<Rightarrow> 'a list js_result" where
  "js_filter p [] = Inr []"
| "js_filter p (x # xs) =
     js_then (p x) (\<lambda>b. map_sum id (\<lambda>ys. if b then x # ys else ys) (js_filter p xs))"

text \<open>\<open>v.toLowerCase()\<close> and \<open>v.includes(x)\<close>\<close>

definition lower_of :: "jsval \<Rightarrow> string js_result" where
  "lower_of v = (case v of JStr s \<Rightarrow> Inr (js_lower s) | _ \<Rightarrow> Inl TypeError)"

definition includes_of :: "jsval \<Rightarrow> jsval \<Rightarrow> bool js_result" where
  "includes_of v x =
     (case v of
        JArr vs \<Rightarrow> Inr (x \<in> set vs)
      | JStr s \<Rightarrow> Inr (js_includes (text_of_value x) s)
      | _ \<Rightarrow> Inl TypeError)"

section \<open>The unit of a price\<close>

definition OFFICIAL_SEEDANCE2_PER_SECOND_MODELS :: "string list" where
  "OFFICIAL_SEEDANCE2_PER_SECOND_MODELS =
     [''seedance-2'', ''seedance-2-480p'', ''seedance-2-720p'', ''seedance-2-1080p'', ''seedance-2-2k'',
      ''seedance-2-4k'', ''seedance-2-fast-720p'', ''seedance-2-mini-720p'', ''seedance-2-pro-720p'']"

definition isOfficialSeedance2PerSecondModel :: "jsval \<Rightarrow> bool" where
  "isOfficialSeedance2PerSecondModel name \<longleftrightarrow>
     truthy name \<and> name \<in> JStr ` set OFFICIAL_SEEDANCE2_PER_SECOND_MODELS"

definition getPricingBillingUnit :: "jsval \<Rightarrow> jsval" where
  "getPricingBillingUnit record1 =
     (let quotaType = number_of_value (value_get record1 ''quota_type'')
      in if quotaType = Fin 0 then JStr ''token''
         else if quotaType = Fin 1 \<and> isOfficialSeedance2PerSecondModel (value_get record1 ''model_name'')
         then JStr ''second''
         else js_or (value_get record1 ''billing_unit'') (JStr ''call''))"

definition isPerSecondPricingModel :: "jsval \<Rightarrow> bool" where
  "isPerSecondPricingModel record1 \<longleftrightarrow> getPricingBillingUnit record1 = JStr ''second''"

section \<open>From the reply to the list\<close>

definition HIDDEN_PUBLIC_PRICING_MODELS :: "string list" where
  "HIDDEN_PUBLIC_PRICING_MODELS = [''mmodel'']"

text \<open>\<open>vendorMap\<close>: the vendors under their ids.\<close>

definition put_vendor :: "(string \<times> jsval) list js_result \<Rightarrow> jsval \<Rightarrow> (string \<times> jsval) list js_result" where
  "put_vendor vendorMap v =
     js_then vendorMap (\<lambda>vm.
       if is_nullish v then Inl TypeError else Inr (obj_put (text_of_value (value_get v ''id'')) v vm))"

definition vendor_map :: "jsval \<Rightarrow> (string \<times> jsval) list js_result" where
  "vendor_map vendors = (case vendors of JArr vs \<Rightarrow> foldl put_vendor (Inr []) vs | _ \<Rightarrow> Inr [])"

definition availableGroups :: "jsval \<Rightarrow> string list" where
  "availableGroups groupRatio = filter (\<lambda>g. g \<noteq> []) (map fst (own_entries (js_or groupRatio (JObj []))))"

definition usable_groups :: "jsval \<Rightarrow> jsval \<Rightarrow> jsval list" where
  "usable_groups groupRatio groups =
     (case groups of JArr vs \<Rightarrow> filter (\<lambda>g. g \<in> JStr ` set (availableGroups groupRatio)) vs | _ \<Rightarrow> [])"

definition with_vendor :: "(string \<times> jsval) list \<Rightarrow> (string \<times> jsval) list \<Rightarrow> (string \<times> jsval) list" where
  "with_vendor vendorMap m =
     (let vid = value_get (JObj m) ''vendor_id'';
          vendor = value_get (JObj vendorMap) (text_of_value vid)
      in if truthy vid \<and> truthy vendor
         then obj_put ''vendor_description'' (value_get vendor ''description'')
                (obj_put ''vendor_icon'' (value_get vendor ''icon'')
                  (obj_put ''vendor_name'' (value_get vendor ''name'') m))
         else m)"

text \<open>One turn of the loop.  Writing a property of a value that is no object throws.\<close>

definition format_model ::
  "jsval \<Rightarrow> (string \<times> jsval) list \<Rightarrow> jsval \<Rightarrow> jsval option js_result" where
  "format_model groupRatio vendorMap m =
     (let name = value_get m ''model_name''
      in if is_nullish m then Inl TypeError
         else if name \<in> JStr ` set HIDDEN_PUBLIC_PRICING_MODELS then Inr None
         else case m of
           JObj kvs \<Rightarrow>
             if is_nullish groupRatio then Inl TypeError
             else
               let groups = usable_groups groupRatio (value_get m ''enable_groups'');
                   m1 = obj_put ''enable_groups'' (JArr groups)
                          (obj_put ''group_ratio'' (value_get groupRatio (text_of_value name))
                            (obj_put ''key'' name kvs));
                   m2 = with_vendor vendorMap m1
               in Inr (if groups = [] then None else Some (JObj m2))
         | _ \<Rightarrow> Inl TypeError)"

fun format_models :: "jsval \<Rightarrow> (string \<times> jsval) list \<Rightarrow> jsval list \<Rightarrow> jsval list js_result" where
  "format_models groupRatio vendorMap [] = Inr []"
| "format_models groupRatio vendorMap (m # ms) =
     js_then (format_model groupRatio vendorMap m) (\<lambda>r.
       map_sum id (\<lambda>rs. case r of Some m' \<Rightarrow> m' # rs | None \<Rightarrow> rs) (format_models groupRatio vendorMap ms))"

text \<open>The two sorts.  A difference that is no number counts as zero; the names are compared by
  \<open>localeCompare\<close>, a parameter.\<close>

definition model_name :: "jsval \<Rightarrow> string" where
  "model_name m = (case value_get m ''model_name'' of JStr s \<Rightarrow> s | _ \<Rightarrow> [])"

definition quota_leq :: "jsval \<Rightarrow> jsval \<Rightarrow> bool" where
  "quota_leq a b =
     (\<not> js_less (Fin 0) (js_sub (number_of_value (value_get a ''quota_type'')) (number_of_value (value_get b ''quota_type''))))"

definition name_leq :: "(string \<Rightarrow> string \<Rightarrow> int) \<Rightarrow> jsval \<Rightarrow> jsval \<Rightarrow> bool" where
  "name_leq collate a b =
     (let ga = starts_with ''gpt'' (model_name a); gb = starts_with ''gpt'' (model_name b)
      in if ga \<and> \<not> gb then True
         else if \<not> ga \<and> gb then False
         else collate (model_name a) (model_name b) \<le> 0)"

definition has_name :: "jsval \<Rightarrow> bool" where
  "has_name m = (case value_get m ''model_name'' of JStr _ \<Rightarrow> True | _ \<Rightarrow> False)"

definition sort_models :: "(string \<Rightarrow> string \<Rightarrow> int) \<Rightarrow> jsval list \<Rightarrow> jsval list js_result" where
  "sort_models collate ms =
     (if 2 \<le> length ms \<and> \<not> list_all has_name ms then Inl TypeError
      else Inr (sort_by (name_leq collate) (sort_by quota_leq ms)))"

definition setModelsFormat ::
  "(string \<Rightarrow> string \<Rightarrow> int) \<Rightarrow> jsval \<Rightarrow> jsval \<Rightarrow> (string \<times> jsval) list \<Rightarrow> jsval list js_result" where
  "setModelsFormat collate models groupRatio vendorMap =
     (case models of
        JUndef \<Rightarrow> Inl TypeError
      | JNull \<Rightarrow> Inl TypeError
      | JArr ms \<Rightarrow> js_then (format_models groupRatio vendorMap ms) (sort_models collate)
      | JStr s \<Rightarrow> if s = [] then Inr [] else Inl TypeError
      | _ \<Rightarrow> Inr [])"

section \<open>Filters\<close>

record market_filters =
  f_search :: string
  f_group :: string
  f_quota :: jsval
  f_endpoint :: jsval
  f_vendor :: jsval
  f_tag :: string

abbreviation all_choice :: jsval where "all_choice \<equiv> JStr ''all''"

definition is_tag_separator :: "char \<Rightarrow> bool" where
  "is_tag_separator c \<longleftrightarrow> c \<in> {CHR '','', CHR '';'', CHR ''|''}"

definition split_tags :: "string \<Rightarrow> string list" where
  "split_tags s = map js_trim (rx_split (\<lambda>r. map snd (rx_plus is_tag_separator r)) s)"

text \<open>A condition on one field: whether it is set and its text, in small letters, has the term.\<close>

definition field_has :: "jsval \<Rightarrow> string \<Rightarrow> string \<Rightarrow> bool js_result" where
  "field_has m k term1 =
     (let v = value_get m k
      in if truthy v then js_then (lower_of v) (\<lambda>s. Inr (js_includes term1 s)) else Inr False)"

definition group_filter :: "string \<Rightarrow> jsval \<Rightarrow> bool js_result" where
  "group_filter g m = includes_of (value_get m ''enable_groups'') (JStr g)"

definition quota_filter :: "jsval \<Rightarrow> jsval \<Rightarrow> bool js_result" where
  "quota_filter q m =
     Inr (if q = JStr ''second'' then isPerSecondPricingModel m
          else js_strict_eq (value_get m ''quota_type'') q \<and> \<not> isPerSecondPricingModel m)"

definition endpoint_filter :: "jsval \<Rightarrow> jsval \<Rightarrow> bool js_result" where
  "endpoint_filter e m =
     (let types = value_get m ''supported_endpoint_types''
      in if truthy types then includes_of types e else Inr False)"

definition vendor_filter :: "jsval \<Rightarrow> jsval \<Rightarrow> bool js_result" where
  "vendor_filter v m =
     (let name = value_get m ''vendor_name''
      in Inr (if v = JStr ''unknown'' then \<not> truthy name else js_strict_eq name v))"

definition tag_filter :: "string \<Rightarrow> jsval \<Rightarrow> bool js_result" where
  "tag_filter t m =
     (let tags = value_get m ''tags''
      in if truthy tags
         then js_then (lower_of tags) (\<lambda>s. Inr (js_lower t \<in> set (filter_nonempty (split_tags s))))
         else Inr False)"

definition search_filter :: "string \<Rightarrow> jsval \<Rightarrow> bool js_result" where
  "search_filter search m =
     (let term1 = js_lower search
      in js_either (field_has m ''model_name'' term1)
          (js_either (field_has m ''description'' term1)
            (js_either (field_has m ''tags'' term1) (field_has m ''vendor_name'' term1))))"

definition narrow :: "bool \<Rightarrow> (jsval \<Rightarrow> bool js_result) \<Rightarrow> jsval list js_result \<Rightarrow> jsval list js_result" where
  "narrow on p result = js_then result (\<lambda>ms. if on then js_filter p ms else Inr ms)"

definition listedModels :: "market_filters \<Rightarrow> jsval list \<Rightarrow> jsval list js_result" where
  "listedModels f models =
     narrow (0 < length (f_search f)) (search_filter (f_search f))
       (narrow (f_tag f \<noteq> ''all'') (tag_filter (f_tag f))
         (narrow (f_vendor f \<noteq> all_choice) (vendor_filter (f_vendor f))
           (narrow (f_endpoint f \<noteq> all_choice) (endpoint_filter (f_endpoint f))
             (narrow (f_quota f \<noteq> all_choice) (quota_filter (f_quota f))
               (narrow (f_group f \<noteq> ''all'') (group_filter (f_group f)) (Inr models))))))"

section \<open>Counting\<close>

text \<open>\<open>normalizeTags\<close>: a model without tags has the default, the empty text.\<close>

definition normalizeTags :: "jsval \<Rightarrow> string list js_result" where
  "normalizeTags tags =
     js_then (if tags = JUndef then Inr [] else lower_of tags) (\<lambda>s. Inr (filter_nonempty (split_tags s)))"

datatype facet = GroupFacet | QuotaFacet | EndpointFacet | VendorFacet | TagFacet

definition unless :: "bool \<Rightarrow> bool js_result \<Rightarrow> bool js_result \<Rightarrow> bool js_result" where
  "unless skipped test rest = (if skipped then rest else js_then test (\<lambda>b. if b then rest else Inr False))"

text \<open>\<open>matchesFilters(model, [facet])\<close>\<close>

definition matches_group :: "string \<Rightarrow> jsval \<Rightarrow> bool js_result" where
  "matches_group g m =
     (let groups = value_get m ''enable_groups''
      in if truthy groups then includes_of groups (JStr g) else Inr False)"

definition matches_tag :: "string \<Rightarrow> jsval \<Rightarrow> bool js_result" where
  "matches_tag t m = js_then (normalizeTags (value_get m ''tags'')) (\<lambda>ts. Inr (js_lower t \<in> set ts))"

definition matches_search :: "string \<Rightarrow> jsval \<Rightarrow> bool js_result" where
  "matches_search search m =
     (let term1 = js_lower search;
          tags = value_get m ''tags''
      in js_then (if truthy tags then lower_of tags else Inr []) (\<lambda>ts.
           js_either (js_then (lower_of (value_get m ''model_name'')) (\<lambda>s. Inr (js_includes term1 s)))
             (js_either (field_has m ''description'' term1)
               (js_either (Inr (js_includes term1 ts)) (field_has m ''vendor_name'' term1)))))"

definition matchesFilters :: "market_filters \<Rightarrow> facet \<Rightarrow> jsval \<Rightarrow> bool js_result" where
  "matchesFilters f ignored m =
     unless (ignored = GroupFacet \<or> f_group f = ''all'') (matches_group (f_group f) m)
       (unless (ignored = QuotaFacet \<or> f_quota f = all_choice) (quota_filter (f_quota f) m)
         (unless (ignored = EndpointFacet \<or> f_endpoint f = all_choice) (endpoint_filter (f_endpoint f) m)
           (unless (ignored = VendorFacet \<or> f_vendor f = all_choice) (vendor_filter (f_vendor f) m)
             (unless (ignored = TagFacet \<or> f_tag f = ''all'') (matches_tag (f_tag f) m)
               (unless (f_search f = []) (matches_search (f_search f) m) (Inr True))))))"

definition facet_models :: "market_filters \<Rightarrow> facet \<Rightarrow> jsval list \<Rightarrow> jsval list js_result" where
  "facet_models f ignored models = js_filter (matchesFilters f ignored) models"

text \<open>The numbers beside the choices, over the models of the facet.\<close>

definition count_by :: "(jsval \<Rightarrow> bool js_result) \<Rightarrow> jsval list \<Rightarrow> nat js_result" where
  "count_by p models = map_sum id length (js_filter p models)"

definition qtyCount :: "jsval \<Rightarrow> jsval list \<Rightarrow> nat js_result" where
  "qtyCount q models = (if q = all_choice then Inr (length models) else count_by (quota_filter q) models)"

definition getEndpointTypeCount :: "jsval \<Rightarrow> jsval list \<Rightarrow> nat js_result" where
  "getEndpointTypeCount e models =
     (if e = all_choice then Inr (length models) else count_by (endpoint_filter e) models)"

definition getVendorCount :: "jsval \<Rightarrow> jsval list \<Rightarrow> nat js_result" where
  "getVendorCount v models =
     (if v = all_choice then Inr (length models) else count_by (vendor_filter v) models)"

definition getTagCount :: "string \<Rightarrow> jsval list \<Rightarrow> nat js_result" where
  "getTagCount t models =
     (if t = ''all'' then Inr (length models)
      else count_by (\<lambda>m.
        let tags = value_get m ''tags''
        in if truthy tags then js_then (lower_of tags) (\<lambda>s. Inr (js_lower t \<in> set (split_tags s)))
           else Inr False) models)"

section \<open>The choices\<close>

text \<open>A choice and its number.  The default order of \<open>sort()\<close> is that of the texts.\<close>

definition or_models :: "jsval list \<Rightarrow> jsval list \<Rightarrow> jsval list" where
  "or_models allModels models = (if 0 < length allModels then allModels else models)"

definition text_order_leq :: "jsval \<Rightarrow> jsval \<Rightarrow> bool" where
  "text_order_leq a b = text_leq (text_of_value a) (text_of_value b)"

definition getAllEndpointTypes :: "jsval list \<Rightarrow> jsval list" where
  "getAllEndpointTypes ms =
     sort_by text_order_leq (js_unique (concat (map (\<lambda>m.
       case value_get m ''supported_endpoint_types'' of JArr es \<Rightarrow> es | _ \<Rightarrow> []) ms)))"

definition getAllVendors :: "jsval list \<Rightarrow> jsval list" where
  "getAllVendors ms =
     sort_by text_order_leq (js_unique (filter truthy (map (\<lambda>m. value_get m ''vendor_name'') ms)))"

fun tags_of_models :: "jsval list \<Rightarrow> string list js_result" where
  "tags_of_models [] = Inr []"
| "tags_of_models (m # ms) =
     (let tags = value_get m ''tags''
      in js_then
           (if truthy tags
            then (case tags of JStr s \<Rightarrow> Inr (map js_lower (filter_nonempty (split_tags s))) | _ \<Rightarrow> Inl TypeError)
            else Inr [])
           (\<lambda>ts. map_sum id (\<lambda>us. ts @ us) (tags_of_models ms)))"

definition getAllTags :: "(string \<Rightarrow> string \<Rightarrow> int) \<Rightarrow> jsval list \<Rightarrow> string list js_result" where
  "getAllTags collate ms =
     map_sum id (\<lambda>ts. sort_by (\<lambda>a b. collate a b \<le> 0) (js_unique ts)) (tags_of_models ms)"

definition numbered :: "('a \<Rightarrow> nat js_result) \<Rightarrow> 'a list \<Rightarrow> ('a \<times> nat js_result) list" where
  "numbered number_of vs = map (\<lambda>v. (v, number_of v)) vs"

definition quota_items :: "jsval list \<Rightarrow> (jsval \<times> nat js_result) list" where
  "quota_items models =
     numbered (\<lambda>q. qtyCount q models) [all_choice, JNum (Fin 0), JNum (Fin 1), JStr ''second'']"

definition endpoint_items :: "jsval list \<Rightarrow> jsval list \<Rightarrow> (jsval \<times> nat js_result) list" where
  "endpoint_items allModels models =
     numbered (\<lambda>e. getEndpointTypeCount e models)
       (all_choice # getAllEndpointTypes (or_models allModels models))"

definition vendor_items :: "jsval list \<Rightarrow> jsval list \<Rightarrow> (jsval \<times> nat js_result) list" where
  "vendor_items allModels models =
     numbered (\<lambda>v. getVendorCount v models)
       (all_choice # getAllVendors (or_models allModels models) @
        (if list_ex (\<lambda>m. \<not> truthy (value_get m ''vendor_name'')) (or_models allModels models)
         then [JStr ''unknown''] else []))"

definition tag_items ::
  "(string \<Rightarrow> string \<Rightarrow> int) \<Rightarrow> jsval list \<Rightarrow> jsval list \<Rightarrow> (string \<times> nat js_result) list js_result" where
  "tag_items collate allModels models =
     map_sum id (\<lambda>ts. numbered (\<lambda>t. getTagCount t models) (''all'' # ts))
       (getAllTags collate (or_models allModels models))"

datatype choice = ChooseQuota jsval | ChooseEndpoint jsval | ChooseVendor jsval | ChooseTag string

fun click :: "choice \<Rightarrow> market_filters \<Rightarrow> market_filters" where
  "click (ChooseQuota q) f = f\<lparr>f_quota := q\<rparr>"
| "click (ChooseEndpoint e) f = f\<lparr>f_endpoint := e\<rparr>"
| "click (ChooseVendor v) f = f\<lparr>f_vendor := v\<rparr>"
| "click (ChooseTag t) f = f\<lparr>f_tag := t\<rparr>"

text \<open>All choices of the side bar: each list of choices gets the models of its own facet, and the
  whole list for the values to offer.\<close>

definition sidebar_items ::
  "(string \<Rightarrow> string \<Rightarrow> int) \<Rightarrow> market_filters \<Rightarrow> jsval list \<Rightarrow> (choice \<times> nat js_result) list js_result" where
  "sidebar_items collate f models =
     js_then (facet_models f QuotaFacet models) (\<lambda>quotaTypeModels.
     js_then (facet_models f EndpointFacet models) (\<lambda>endpointTypeModels.
     js_then (facet_models f VendorFacet models) (\<lambda>vendorModels.
     js_then (facet_models f TagFacet models) (\<lambda>tagModels.
     js_then (facet_models f GroupFacet models) (\<lambda>groupCountModels.
     js_then (tag_items collate models tagModels) (\<lambda>tags.
       Inr (map (apfst ChooseVendor) (vendor_items models vendorModels) @
            map (apfst ChooseQuota) (quota_items quotaTypeModels) @
            map (apfst ChooseTag) tags @
            map (apfst ChooseEndpoint) (endpoint_items models endpointTypeModels))))))))"

section \<open>Models with the fields the server sends\<close>

definition text_or_falsy :: "jsval \<Rightarrow> bool" where
  "text_or_falsy v \<longleftrightarrow> truthy v \<longrightarrow> (case v of JStr _ \<Rightarrow> True | _ \<Rightarrow> False)"

definition typed_model :: "jsval \<Rightarrow> bool" where
  "typed_model m \<longleftrightarrow>
     has_name m \<and>
     (case value_get m ''tags'' of JUndef \<Rightarrow> True | JStr _ \<Rightarrow> True | _ \<Rightarrow> False) \<and>
     text_or_falsy (value_get m ''description'') \<and> text_or_falsy (value_get m ''vendor_name'') \<and>
     (truthy (value_get m ''supported_endpoint_types'') \<longrightarrow>
        (case value_get m ''supported_endpoint_types'' of JArr _ \<Rightarrow> True | _ \<Rightarrow> False)) \<and>
     (case value_get m ''enable_groups'' of JArr _ \<Rightarrow> True | _ \<Rightarrow> False)"

definition total_on :: "('a \<Rightarrow> bool js_result) \<Rightarrow> 'a \<Rightarrow> bool" where
  "total_on p x \<longleftrightarrow> p x = Inr True \<or> p x = Inr False"

lemma js_filter_total:
  "\<forall>x \<in> set xs. total_on p x \<Longrightarrow> js_filter p xs = Inr (filter (\<lambda>x. p x = Inr True) xs)"
  by (induction xs) (auto simp: js_then_def total_on_def)

lemma field_has_total: "text_or_falsy (value_get m k) \<Longrightarrow> total_on (\<lambda>m. field_has m k t) m"
  by (auto simp: total_on_def field_has_def text_or_falsy_def lower_of_def js_then_def split: jsval.splits)

lemma js_either_total: "total_on p x \<Longrightarrow> total_on q x \<Longrightarrow> total_on (\<lambda>x. js_either (p x) (q x)) x"
  by (auto simp: total_on_def js_either_def js_then_def)

lemma typed_name: "typed_model m \<Longrightarrow> text_or_falsy (value_get m ''model_name'')"
  by (auto simp: typed_model_def has_name_def text_or_falsy_def split: jsval.splits)

lemma typed_tags: "typed_model m \<Longrightarrow> text_or_falsy (value_get m ''tags'')"
  by (auto simp: typed_model_def text_or_falsy_def split: jsval.splits)

lemma filters_total:
  assumes "typed_model m"
  shows "total_on (group_filter g) m" "total_on (quota_filter q) m" "total_on (endpoint_filter e) m"
    "total_on (vendor_filter v) m" "total_on (tag_filter t) m" "total_on (search_filter s) m"
proof -
  show "total_on (group_filter g) m" "total_on (endpoint_filter e) m"
    using assms by (auto simp: total_on_def group_filter_def endpoint_filter_def includes_of_def typed_model_def
        Let_def split: jsval.splits)
  show "total_on (quota_filter q) m" "total_on (vendor_filter v) m"
    by (auto simp: total_on_def quota_filter_def vendor_filter_def Let_def)
  show "total_on (tag_filter t) m"
    using assms by (auto simp: total_on_def tag_filter_def lower_of_def js_then_def typed_model_def Let_def
        split: jsval.splits)
  show "total_on (search_filter s) m"
    unfolding search_filter_def Let_def
    by (intro js_either_total field_has_total typed_name [OF assms] typed_tags [OF assms])
      (use assms in \<open>simp_all add: typed_model_def\<close>)
qed

section \<open>The list and the numbers\<close>

text \<open>What a model of the list passes, and what is left when a facet is ignored.\<close>

definition passes :: "market_filters \<Rightarrow> jsval \<Rightarrow> bool" where
  "passes f m \<longleftrightarrow>
     (f_group f = ''all'' \<or> group_filter (f_group f) m = Inr True) \<and>
     (f_quota f = all_choice \<or> quota_filter (f_quota f) m = Inr True) \<and>
     (f_endpoint f = all_choice \<or> endpoint_filter (f_endpoint f) m = Inr True) \<and>
     (f_vendor f = all_choice \<or> vendor_filter (f_vendor f) m = Inr True) \<and>
     (f_tag f = ''all'' \<or> tag_filter (f_tag f) m = Inr True) \<and>
     (f_search f = [] \<or> search_filter (f_search f) m = Inr True)"

fun without :: "facet \<Rightarrow> market_filters \<Rightarrow> market_filters" where
  "without GroupFacet f = f\<lparr>f_group := ''all''\<rparr>"
| "without QuotaFacet f = f\<lparr>f_quota := all_choice\<rparr>"
| "without EndpointFacet f = f\<lparr>f_endpoint := all_choice\<rparr>"
| "without VendorFacet f = f\<lparr>f_vendor := all_choice\<rparr>"
| "without TagFacet f = f\<lparr>f_tag := ''all''\<rparr>"

lemma narrow_total:
  assumes "\<forall>m \<in> set ms. total_on p m"
  shows "narrow on p (Inr (filter q ms)) = Inr (filter (\<lambda>m. q m \<and> (\<not> on \<or> p m = Inr True)) ms)"
  using assms js_filter_total [of "filter q ms" p]
  by (cases on) (simp_all add: narrow_def js_then_def filter_filter conj_commute)

lemma listed_passes:
  assumes "list_all typed_model models"
  shows "listedModels f models = Inr (filter (passes f) models)"
proof -
  have step: "narrow on p (Inr (filter q models)) = Inr (filter (\<lambda>m. q m \<and> (\<not> on \<or> p m = Inr True)) models)"
    if "\<And>m. typed_model m \<Longrightarrow> total_on p m" for on p q
    using assms that narrow_total [of models p on q] by (simp add: list_all_iff)
  have "narrow on (group_filter g) (Inr models) =
      Inr (filter (\<lambda>m. \<not> on \<or> group_filter g m = Inr True) models)" for on g
    using step [of "group_filter g" on "\<lambda>_. True"] filters_total(1) by simp
  then show ?thesis
    unfolding listedModels_def
    by (simp add: step filters_total) (auto simp: passes_def intro: filter_cong)
qed

lemma js_lower_Nil [simp]: "js_lower s = [] \<longleftrightarrow> s = []" "[] = js_lower s \<longleftrightarrow> s = []"
  by (simp_all add: js_lower_def)

lemma split_tags_Nil: "split_tags [] = [[]]"
  by (simp add: split_tags_def)

lemma in_nonempty: "t \<noteq> [] \<Longrightarrow> t \<in> set (filter_nonempty xs) \<longleftrightarrow> t \<in> set xs"
  by (auto simp: filter_nonempty_def)

lemma matches_search_same:
  assumes "typed_model m" "s \<noteq> []"
  shows "matches_search s m = search_filter s m"
proof -
  have none: "js_includes (js_lower s) [] = False" using assms(2) by (cases "js_lower s") auto
  obtain n where n: "value_get m ''model_name'' = JStr n"
    using assms(1) by (auto simp: typed_model_def has_name_def split: jsval.splits)
  have name: "field_has m ''model_name'' t = Inr (js_includes t (js_lower n))" if "t = js_lower s" for t
    using n none that by (cases n) (simp_all add: field_has_def lower_of_def js_then_def js_lower_def)
  have tags: "\<exists>ts. (if truthy (value_get m ''tags'') then lower_of (value_get m ''tags'') else Inr []) = Inr ts \<and>
      field_has m ''tags'' (js_lower s) = Inr (js_includes (js_lower s) ts)"
    using assms(1) none by (auto simp: typed_model_def field_has_def lower_of_def js_then_def split: jsval.splits)
  then show ?thesis
    using n by (auto simp: matches_search_def search_filter_def Let_def name js_then_def lower_of_def)
qed

lemma matches_tag_same: "typed_model m \<Longrightarrow> matches_tag t m = tag_filter t m"
  by (auto simp: matches_tag_def tag_filter_def normalizeTags_def typed_model_def lower_of_def js_then_def Let_def
      js_lower_def split_tags_Nil filter_nonempty_def split: jsval.splits)

lemma matches_group_same: "typed_model m \<Longrightarrow> matches_group g m = group_filter g m"
  by (auto simp: matches_group_def group_filter_def typed_model_def Let_def split: jsval.splits)

lemma unless_total:
  "total_on p m \<Longrightarrow> unless b (p m) (Inr c) = Inr ((b \<or> p m = Inr True) \<and> c)"
  by (auto simp: unless_def total_on_def js_then_def)

lemma matches_passes:
  assumes "typed_model m"
  shows "matchesFilters f k m = Inr (passes (without k f) m)"
proof -
  have search: "unless (f_search f = []) (matches_search (f_search f) m) (Inr True) =
      Inr (f_search f = [] \<or> search_filter (f_search f) m = Inr True)"
    using matches_search_same [OF assms, of "f_search f"] filters_total(6) [OF assms, of "f_search f"]
    by (cases "f_search f = []") (auto simp: unless_def total_on_def js_then_def)
  show ?thesis
    unfolding matchesFilters_def search matches_tag_same [OF assms] matches_group_same [OF assms]
      unless_total [OF filters_total(1) [OF assms]] unless_total [OF filters_total(2) [OF assms]]
      unless_total [OF filters_total(3) [OF assms]] unless_total [OF filters_total(4) [OF assms]]
      unless_total [OF filters_total(5) [OF assms]]
    by (cases k) (auto simp: passes_def)
qed

lemma facet_passes:
  assumes "list_all typed_model models"
  shows "facet_models f k models = Inr (filter (passes (without k f)) models)"
proof -
  have "\<forall>m \<in> set models. matchesFilters f k m = Inr (passes (without k f) m)"
    using assms matches_passes by (simp add: list_all_iff)
  then show ?thesis
    unfolding facet_models_def by (subst js_filter_total) (auto simp: total_on_def intro: filter_cong)
qed

lemma count_total:
  assumes "\<forall>m \<in> set ms. total_on p m"
  shows "count_by p (filter q ms) = Inr (length (filter (\<lambda>m. q m \<and> p m = Inr True) ms))"
  using assms js_filter_total [of "filter q ms" p] by (simp add: count_by_def filter_filter conj_commute)

lemma passes_click:
  "passes (f\<lparr>f_quota := q\<rparr>) = (\<lambda>m. passes (without QuotaFacet f) m \<and> (q = all_choice \<or> quota_filter q m = Inr True))"
  "passes (f\<lparr>f_endpoint := e\<rparr>) = (\<lambda>m. passes (without EndpointFacet f) m \<and> (e = all_choice \<or> endpoint_filter e m = Inr True))"
  "passes (f\<lparr>f_vendor := v\<rparr>) = (\<lambda>m. passes (without VendorFacet f) m \<and> (v = all_choice \<or> vendor_filter v m = Inr True))"
  "passes (f\<lparr>f_tag := t\<rparr>) = (\<lambda>m. passes (without TagFacet f) m \<and> (t = ''all'' \<or> tag_filter t m = Inr True))"
  by (auto simp: passes_def without.simps fun_eq_iff)

declare without.simps [simp del]

lemma tag_count_filter:
  "t \<noteq> [] \<Longrightarrow>
   (let tags = value_get m ''tags''
    in if truthy tags then js_then (lower_of tags) (\<lambda>s. Inr (js_lower t \<in> set (split_tags s))) else Inr False) =
   tag_filter t m"
  by (auto simp: tag_filter_def in_nonempty Let_def)

lemma tags_of_typed:
  "list_all typed_model ms \<Longrightarrow> \<exists>ts. tags_of_models ms = Inr ts \<and> [] \<notin> set ts"
proof (induction ms)
  case (Cons m ms)
  then obtain ts where ts: "tags_of_models ms = Inr ts" "[] \<notin> set ts" by auto
  have "value_get m ''tags'' = JUndef \<or> (\<exists>s. value_get m ''tags'' = JStr s)"
    using Cons(2) by (auto simp: typed_model_def split: jsval.splits)
  then show ?case using ts by (auto simp: js_then_def filter_nonempty_def)
qed simp

lemma counts_of_choices:
  assumes typed: "list_all typed_model models"
  defines "shown k f \<equiv> filter (passes (without k f)) models"
  shows "qtyCount q (shown QuotaFacet f) = Inr (length (filter (passes (f\<lparr>f_quota := q\<rparr>)) models))"
    "getEndpointTypeCount e (shown EndpointFacet f) = Inr (length (filter (passes (f\<lparr>f_endpoint := e\<rparr>)) models))"
    "getVendorCount v (shown VendorFacet f) = Inr (length (filter (passes (f\<lparr>f_vendor := v\<rparr>)) models))"
    "t \<noteq> [] \<Longrightarrow> getTagCount t (shown TagFacet f) = Inr (length (filter (passes (f\<lparr>f_tag := t\<rparr>)) models))"
proof -
  have count: "count_by p (filter r models) = Inr (length (filter (\<lambda>m. r m \<and> p m = Inr True) models))"
    if "\<And>m. typed_model m \<Longrightarrow> total_on p m" for p r
    using count_total [of models p r] that typed by (simp add: list_all_iff)
  show "qtyCount q (shown QuotaFacet f) = Inr (length (filter (passes (f\<lparr>f_quota := q\<rparr>)) models))"
    by (simp add: shown_def qtyCount_def count filters_total passes_click(1))
  show "getEndpointTypeCount e (shown EndpointFacet f) = Inr (length (filter (passes (f\<lparr>f_endpoint := e\<rparr>)) models))"
    by (simp add: shown_def getEndpointTypeCount_def count filters_total passes_click(2))
  show "getVendorCount v (shown VendorFacet f) = Inr (length (filter (passes (f\<lparr>f_vendor := v\<rparr>)) models))"
    by (simp add: shown_def getVendorCount_def count filters_total passes_click(3))
  show "getTagCount t (shown TagFacet f) = Inr (length (filter (passes (f\<lparr>f_tag := t\<rparr>)) models))" if "t \<noteq> []"
    unfolding shown_def getTagCount_def tag_count_filter [OF that] by (simp add: count filters_total passes_click(4))
qed

text \<open>
  C11: For models with the fields the server sends, the number beside every choice of the side
  bar - a kind of price, an endpoint type, a vendor, a tag - is the number of models the list
  shows once the choice is clicked, whatever the other filters and the search are; neither the
  list nor the side bar throws.
\<close>
theorem counts_foretell_the_list:
  assumes "list_all typed_model models"
  shows "\<exists>items. sidebar_items collate f models = Inr items \<and>
    (\<forall>(c, n) \<in> set items. \<exists>ms. listedModels (click c f) models = Inr ms \<and> n = Inr (length ms))"
proof -
  define shown where "shown k = filter (passes (without k f)) models" for k
  note facets = facet_passes [OF assms, where f = f, folded shown_def]
  note counts = counts_of_choices [OF assms, where f = f, folded shown_def]
  obtain ts where ts: "getAllTags collate (or_models models (shown TagFacet)) = Inr ts" "[] \<notin> set ts"
  proof -
    have "list_all typed_model (or_models models (shown TagFacet))"
      using assms by (auto simp: or_models_def shown_def list_all_iff)
    from tags_of_typed [OF this] that show thesis by (auto simp: getAllTags_def)
  qed
  have listed: "listedModels (click c f) models = Inr (filter (passes (click c f)) models)" for c
    by (rule listed_passes [OF assms])
  have tag: "getTagCount t (shown TagFacet) = Inr (length (filter (passes (f\<lparr>f_tag := t\<rparr>)) models))"
    if "t \<in> set (''all'' # ts)" for t
    using counts(4) [of t] ts(2) that by auto
  show ?thesis
    unfolding sidebar_items_def facets js_then_def sum.case tag_items_def ts map_sum.simps
    by (auto simp: listed vendor_items_def quota_items_def endpoint_items_def numbered_def counts(1-3) tag)
qed

section \<open>Which models are listed\<close>

text \<open>A group with a ratio, and what each property of a listed model is: the groups with a ratio of
  its groups, its ratio, its key, the data of its vendor when the server gave some, and
  everything else as in the reply.\<close>

definition rated_group :: "jsval \<Rightarrow> jsval \<Rightarrow> bool" where
  "rated_group groupRatio g =
     (case g of
        JStr k \<Rightarrow> k \<noteq> [] \<and> list_ex (\<lambda>(j, _). j = k) (own_entries (js_or groupRatio (JObj [])))
      | _ \<Rightarrow> False)"

definition rated_groups :: "jsval \<Rightarrow> jsval \<Rightarrow> jsval list" where
  "rated_groups groupRatio m =
     (case value_get m ''enable_groups'' of JArr gs \<Rightarrow> filter (rated_group groupRatio) gs | _ \<Rightarrow> [])"

definition vendor_of :: "(string \<times> jsval) list \<Rightarrow> jsval \<Rightarrow> jsval" where
  "vendor_of vendorMap m =
     (if truthy (value_get m ''vendor_id'')
      then value_get (JObj vendorMap) (text_of_value (value_get m ''vendor_id'')) else JUndef)"

definition listed_field :: "jsval \<Rightarrow> (string \<times> jsval) list \<Rightarrow> jsval \<Rightarrow> string \<Rightarrow> jsval" where
  "listed_field groupRatio vendorMap m k =
     (let vendor = vendor_of vendorMap m
      in if k = ''vendor_name'' \<and> truthy vendor then value_get vendor ''name''
         else if k = ''vendor_icon'' \<and> truthy vendor then value_get vendor ''icon''
         else if k = ''vendor_description'' \<and> truthy vendor then value_get vendor ''description''
         else if k = ''enable_groups'' then JArr (rated_groups groupRatio m)
         else if k = ''group_ratio'' then value_get groupRatio (text_of_value (value_get m ''model_name''))
         else if k = ''key'' then value_get m ''model_name''
         else value_get m k)"

definition offered :: "jsval \<Rightarrow> jsval \<Rightarrow> bool" where
  "offered groupRatio m \<longleftrightarrow>
     value_get m ''model_name'' \<notin> JStr ` set HIDDEN_PUBLIC_PRICING_MODELS \<and> rated_groups groupRatio m \<noteq> []"

lemma rated_iff: "rated_group groupRatio g \<longleftrightarrow> g \<in> JStr ` set (availableGroups groupRatio)"
  by (cases g) (force simp: rated_group_def availableGroups_def list_ex_iff)+

lemma rated_fun: "rated_group groupRatio = (\<lambda>g. g \<in> JStr ` set (availableGroups groupRatio))"
  by (rule ext) (rule rated_iff)

lemma usable_groups_rated: "usable_groups groupRatio (value_get m ''enable_groups'') = rated_groups groupRatio m"
  by (simp add: usable_groups_def rated_groups_def rated_fun split: jsval.splits)

definition usable :: "jsval \<Rightarrow> jsval \<Rightarrow> bool" where
  "usable groupRatio m =
     (case value_get m ''enable_groups'' of
        JArr gs \<Rightarrow> gs \<noteq> [] \<and> list_all (\<lambda>g. g \<in> JStr ` set (availableGroups groupRatio)) gs
      | _ \<Rightarrow> False)"

lemma value_get_put: "value_get (JObj (obj_put k v o1)) j = (if j = k then v else value_get (JObj o1) j)"
  by (simp add: value_get_def)

lemma with_vendor_get:
  "value_get (JObj (with_vendor vendorMap m1)) k =
     (let vendor = vendor_of vendorMap (JObj m1)
      in if k = ''vendor_name'' \<and> truthy vendor then value_get vendor ''name''
         else if k = ''vendor_icon'' \<and> truthy vendor then value_get vendor ''icon''
         else if k = ''vendor_description'' \<and> truthy vendor then value_get vendor ''description''
         else value_get (JObj m1) k)"
  by (simp add: with_vendor_def vendor_of_def Let_def value_get_put)

lemma format_model_outcome:
  assumes "format_model groupRatio vendorMap m = Inr r"
  shows "r = None \<and> \<not> offered groupRatio m \<or>
    (\<exists>m'. r = Some m' \<and> offered groupRatio m \<and> usable groupRatio m' \<and>
      value_get m' = listed_field groupRatio vendorMap m)"
proof (cases "value_get m ''model_name'' \<in> JStr ` set HIDDEN_PUBLIC_PRICING_MODELS")
  case True
  then show ?thesis using assms by (auto simp: format_model_def Let_def offered_def split: if_splits)
next
  case False
  then obtain kvs where m: "m = JObj kvs" using assms by (cases m) (auto simp: format_model_def Let_def split: if_splits)
  define m1 where "m1 = obj_put ''enable_groups'' (JArr (rated_groups groupRatio m))
    (obj_put ''group_ratio'' (value_get groupRatio (text_of_value (value_get m ''model_name'')))
      (obj_put ''key'' (value_get m ''model_name'') kvs))"
  have "vendor_of vendorMap (JObj m1) = vendor_of vendorMap m"
    by (simp add: vendor_of_def m1_def value_get_put m)
  then have fields: "value_get (JObj (with_vendor vendorMap m1)) = listed_field groupRatio vendorMap m"
    by (auto simp: fun_eq_iff with_vendor_get listed_field_def Let_def m1_def value_get_put m)
  have r: "r = (if rated_groups groupRatio m = [] then None else Some (JObj (with_vendor vendorMap m1)))"
    using assms False by (simp add: m format_model_def Let_def usable_groups_rated [of groupRatio m, unfolded m]
        m1_def split: if_splits)
  have "list_all (\<lambda>g. g \<in> JStr ` set (availableGroups groupRatio)) (rated_groups groupRatio m)"
    by (auto simp: rated_groups_def rated_iff list_all_iff split: jsval.splits)
  then have "usable groupRatio (JObj (with_vendor vendorMap m1))" if "rated_groups groupRatio m \<noteq> []"
    using that by (simp add: usable_def fields listed_field_def Let_def)
  with r fields False show ?thesis by (auto simp: offered_def split: if_splits)
qed

lemma format_models_outcome:
  "format_models groupRatio vendorMap raw = Inr ms \<Longrightarrow>
   map value_get ms = map (listed_field groupRatio vendorMap) (filter (offered groupRatio) raw)
   \<and> list_all (usable groupRatio) ms"
proof (induction raw arbitrary: ms)
  case (Cons m raw)
  obtain r where r: "format_model groupRatio vendorMap m = Inr r"
    using Cons(2) by (cases "format_model groupRatio vendorMap m") (auto simp: js_then_def)
  obtain rs where rs: "format_models groupRatio vendorMap raw = Inr rs"
    using Cons(2) r by (cases "format_models groupRatio vendorMap raw") (auto simp: js_then_def)
  have ms: "ms = (case r of Some m' \<Rightarrow> m' # rs | None \<Rightarrow> rs)" using Cons(2) r rs by (simp add: js_then_def)
  show ?case
    using Cons(1) [OF rs] format_model_outcome [OF r] unfolding ms by auto
qed simp

lemma mset_insert_by: "mset (insert_by le x xs) = add_mset x (mset xs)"
  by (induction xs) auto

lemma mset_sort_by: "mset (sort_by le xs) = mset xs"
  by (induction xs) (simp_all add: mset_insert_by)

lemma name_comparator:
  assumes "comparator (\<lambda>a b. collate a b \<le> (0 :: int))"
  shows "comparator (name_leq collate)"
proof
  show "name_leq collate a b \<or> name_leq collate b a" for a b
    using comparator.le_total [OF assms, of "model_name a" "model_name b"] by (auto simp: name_leq_def Let_def)
  show "name_leq collate a c" if "name_leq collate a b" "name_leq collate b c" for a b c
    using that comparator.le_trans [OF assms, of "model_name a" "model_name b" "model_name c"]
    by (auto simp: name_leq_def Let_def split: if_splits)
qed

text \<open>
  C25: When the reply of the server becomes the list of the pricing page, the list has exactly the
  models of the reply that are not hidden and that one of the groups with a ratio may use, each
  as often as the reply has it; every property of a listed model is determined: all of its groups
  that have a ratio and no other, its ratio, its key, the data of its vendor, and the rest as in
  the reply; and the models whose name starts with gpt come first, each part in the order of the
  names.
\<close>
theorem list_has_the_usable_models:
  assumes "setModelsFormat collate (JArr raw) groupRatio vendorMap = Inr ms"
    and "comparator (\<lambda>a b. collate a b \<le> (0 :: int))"
  shows "mset (map value_get ms) = mset (map (listed_field groupRatio vendorMap) (filter (offered groupRatio) raw)) \<and>
    list_all (usable groupRatio) ms \<and> sorted_wrt (name_leq collate) ms"
proof -
  obtain rs where rs: "format_models groupRatio vendorMap raw = Inr rs" "sort_models collate rs = Inr ms"
    using assms(1) by (auto simp: setModelsFormat_def js_then_def split: sum.splits)
  have ms: "ms = sort_by (name_leq collate) (sort_by quota_leq rs)"
    using rs(2) by (auto simp: sort_models_def split: if_splits)
  have fields: "mset (map value_get ms) = mset (map value_get rs)" by (simp add: ms mset_sort_by)
  have "set ms = set rs" by (simp add: ms)
  then show ?thesis
    using format_models_outcome [OF rs(1)] comparator.sorted_sort_by [OF name_comparator [OF assms(2)]]
    unfolding fields by (simp add: list_all_iff ms)
qed

section \<open>Witnesses\<close>

definition market_reply :: "jsval list" where
  "market_reply =
     [JObj [(''model_name'', JStr ''claude''), (''quota_type'', JNum (Fin 0)), (''tags'', JStr ''Chat; fast''),
        (''vendor_id'', JNum (Fin 2)), (''supported_endpoint_types'', JArr [JStr ''openai'', JStr ''anthropic'']),
        (''enable_groups'', JArr [JStr ''default'', JStr ''vip''])],
      JObj [(''model_name'', JStr ''mmodel''), (''quota_type'', JNum (Fin 0)), (''enable_groups'', JArr [JStr ''default''])],
      JObj [(''model_name'', JStr ''seedance-2''), (''quota_type'', JNum (Fin 1)), (''enable_groups'', JArr [JStr ''default''])],
      JObj [(''model_name'', JStr ''gpt''), (''quota_type'', JNum (Fin 0)), (''tags'', JStr ''chat''),
        (''enable_groups'', JArr [JStr ''default'', JStr ''old''])],
      JObj [(''model_name'', JStr ''veo''), (''quota_type'', JNum (Fin 1)), (''enable_groups'', JArr [JStr ''old''])]]"

definition market_ratio :: jsval where
  "market_ratio = JObj [(''default'', JNum (Fin 1)), (''vip'', JNum (Fin (1/2)))]"

definition market_vendors :: "(string \<times> jsval) list" where
  "market_vendors = [(''2'', JObj [(''id'', JNum (Fin 2)), (''name'', JStr ''Anthropic'')])]"

definition text_collate :: "string \<Rightarrow> string \<Rightarrow> int" where
  "text_collate a b = (if a = b then 0 else if text_leq a b then - 1 else 1)"

definition market_models :: "jsval list" where
  "market_models =
     [JObj [(''model_name'', JStr ''gpt''), (''quota_type'', JNum (Fin 0)), (''tags'', JStr ''chat''),
        (''enable_groups'', JArr [JStr ''default'']), (''key'', JStr ''gpt''), (''group_ratio'', JUndef)],
      JObj [(''model_name'', JStr ''claude''), (''quota_type'', JNum (Fin 0)), (''tags'', JStr ''Chat; fast''),
        (''vendor_id'', JNum (Fin 2)), (''supported_endpoint_types'', JArr [JStr ''openai'', JStr ''anthropic'']),
        (''enable_groups'', JArr [JStr ''default'', JStr ''vip'']), (''key'', JStr ''claude''), (''group_ratio'', JUndef),
        (''vendor_name'', JStr ''Anthropic''), (''vendor_icon'', JUndef), (''vendor_description'', JUndef)],
      JObj [(''model_name'', JStr ''seedance-2''), (''quota_type'', JNum (Fin 1)),
        (''enable_groups'', JArr [JStr ''default'']), (''key'', JStr ''seedance-2''), (''group_ratio'', JUndef)]]"

definition chat_filters :: market_filters where
  "chat_filters = \<lparr>f_search = [], f_group = ''default'', f_quota = all_choice, f_endpoint = all_choice,
     f_vendor = all_choice, f_tag = ''CHAT''\<rparr>"

lemma market_runs:
  "setModelsFormat text_collate (JArr market_reply) market_ratio market_vendors = Inr market_models"
  by code_simp

definition fast_model :: jsval where
  "fast_model = JObj [(''model_name'', JStr ''m''), (''quota_type'', JNum (Fin 0)), (''tags'', JStr ''Fast''),
     (''enable_groups'', JArr [JStr ''default''])]"

lemma market_choices:
  "typed_model fast_model \<and>
   (case sidebar_items text_collate chat_filters [fast_model] of
      Inr items \<Rightarrow> list_ex (\<lambda>(c, n). c = ChooseTag ''fast'' \<and> n = Inr 1) items
    | Inl _ \<Rightarrow> False)"
  by code_simp

lemma counts_foretell_the_list_witness:
  "\<exists>ms. listedModels (click (ChooseTag ''fast'') chat_filters) [fast_model] = Inr ms \<and> length ms = 1"
proof -
  obtain items where items: "sidebar_items text_collate chat_filters [fast_model] = Inr items"
      "(ChooseTag ''fast'', Inr 1) \<in> set items"
    using market_choices by (auto simp: list_ex_iff split: sum.splits)
  then show ?thesis
    using counts_foretell_the_list [of "[fast_model]" text_collate chat_filters] market_choices by fastforce
qed

lemma list_has_the_usable_models_witness:
  "list_all (usable market_ratio) market_models \<and> length market_models = 3"
proof -
  have "comparator (\<lambda>a b. text_collate a b \<le> 0)"
  proof
    show "text_collate a b \<le> 0 \<or> text_collate b a \<le> 0" for a b
      using text_order.le_total [of a b] by (auto simp: text_collate_def)
    show "text_collate a c \<le> 0" if "text_collate a b \<le> 0" "text_collate b c \<le> 0" for a b c
      using that text_order.le_trans [of a b c] by (auto simp: text_collate_def split: if_splits)
  qed
  then show ?thesis
    using list_has_the_usable_models [of text_collate market_reply market_ratio market_vendors market_models]
      market_runs by (simp add: market_models_def)
qed

text \<open>A model whose tags are \<open>null\<close> is shown in the list, but breaks the side bar.\<close>

lemma null_tags_break_the_side_bar:
  "let m = JObj [(''model_name'', JStr ''m''), (''tags'', JNull), (''enable_groups'', JArr [JStr ''default''])];
       f = \<lparr>f_search = [], f_group = ''all'', f_quota = all_choice, f_endpoint = all_choice, f_vendor = all_choice, f_tag = ''chat''\<rparr>
   in listedModels f [m] = Inr [] \<and> sidebar_items text_collate f [m] = Inl TypeError"
  by code_simp

text \<open>The first sort, by the kind of price, leaves no trace: the second one orders the names.\<close>

lemma kind_of_price_does_not_order:
  "map_sum id (map model_name) (sort_models text_collate
     [JObj [(''model_name'', JStr ''b''), (''quota_type'', JNum (Fin 0))],
      JObj [(''model_name'', JStr ''a''), (''quota_type'', JNum (Fin 1))]]) = Inr [''a'', ''b'']"
  by code_simp

end
