(* ===== verification/Currency.thy ===== *)
theory Currency
  imports StoredData FloatBounds
begin

text \<open>
  Amounts of quota and money as the console shows them: the display functions of
  \<open>web/src/helpers/render.jsx\<close> and the conversions between quota and the displayed currency of
  \<open>web/src/helpers/quota.js\<close>.  Everything is read from the browser storage: the kind of
  display, the quota of one unit and the exchange rates in the stored status.
  \<open>Math.pow(10, -digits)\<close> is the double nearest to that power.
\<close>

section \<open>Numbers\<close>

definition renderNumber :: "jsval \<Rightarrow> jsval" where
  "renderNumber num =
     (let n = number_of_value num
      in if js_le (Fin 1000000000) n then JStr (to_fixed 1 (js_div n (Fin 1000000000)) @ ''B'')
         else if js_le (Fin 1000000) n then JStr (to_fixed 1 (js_div n (Fin 1000000)) @ ''M'')
         else if js_le (Fin 10000) n then JStr (to_fixed 1 (js_div n (Fin 1000)) @ ''k'')
         else num)"

text \<open>A number has \<open>toFixed\<close>; on any other value but \<open>undefined\<close> the call throws.\<close>

definition renderNumberWithPoint :: "jsval \<Rightarrow> string js_result" where
  "renderNumberWithPoint num =
     (case num of
        JUndef \<Rightarrow> Inr []
      | JNum x \<Rightarrow>
          let numStr = to_fixed 2 x;
              wholePart = takeWhile (\<lambda>c. c \<noteq> CHR ''.'') numStr;
              decimalPart = dropWhile (\<lambda>c. c \<noteq> CHR ''.'') numStr
          in Inr (if js_le (Fin 100000) (number_of_text numStr)
                  then take 2 wholePart @ ''..'' @ drop (length wholePart - 2) wholePart @ decimalPart
                  else numStr)
      | _ \<Rightarrow> Inl TypeError)"

section \<open>What the storage says\<close>

definition yen :: jsval where "yen = JStr [CHR 0xA5]"

definition currency_sign :: jsval where "currency_sign = JStr [CHR 0xA4]"

definition getQuotaDisplayType :: "storage \<Rightarrow> string" where
  "getQuotaDisplayType st =
     (case getItem st ''quota_display_type'' of None \<Rightarrow> ''USD'' | Some t \<Rightarrow> if t = [] then ''USD'' else t)"

text \<open>A property of the stored status; \<open>None\<close> when there is no status or it does not parse.\<close>

definition status_field :: "storage \<Rightarrow> string \<Rightarrow> jsval option" where
  "status_field st k =
     (case getItem st ''status'' of
        None \<Rightarrow> None
      | Some statusStr \<Rightarrow>
          if statusStr = [] then None
          else (case json_parse statusStr of Inl _ \<Rightarrow> None | Inr s \<Rightarrow> Some (value_get s k)))"

definition status_or :: "storage \<Rightarrow> string \<Rightarrow> jsval \<Rightarrow> jsval \<Rightarrow> jsval" where
  "status_or st k absent falsy =
     (case status_field st k of None \<Rightarrow> absent | Some v \<Rightarrow> js_or v falsy)"

record currency_config =
  cc_symbol :: jsval
  cc_rate :: jsval
  cc_type :: string

definition getCurrencyConfig :: "storage \<Rightarrow> currency_config" where
  "getCurrencyConfig st =
     (let quotaDisplayType = getQuotaDisplayType st;
          one = JNum (Fin 1)
      in if quotaDisplayType = ''CNY''
         then \<lparr>cc_symbol = yen, cc_rate = status_or st ''usd_exchange_rate'' one (JNum (Fin 7)),
               cc_type = quotaDisplayType\<rparr>
         else if quotaDisplayType = ''CUSTOM''
         then \<lparr>cc_symbol = status_or st ''custom_currency_symbol'' (JStr ''$'') currency_sign,
               cc_rate = status_or st ''custom_currency_exchange_rate'' one one,
               cc_type = quotaDisplayType\<rparr>
         else \<lparr>cc_symbol = JStr ''$'', cc_rate = one, cc_type = quotaDisplayType\<rparr>)"

definition getQuotaPerUnit :: "storage \<Rightarrow> jsnum" where
  "getQuotaPerUnit st =
     parse_float (case getItem st ''quota_per_unit'' of None \<Rightarrow> ''null'' | Some t \<Rightarrow> t)"

section \<open>Shown amounts\<close>

definition convertUSDToCurrency :: "storage \<Rightarrow> jsval \<Rightarrow> nat \<Rightarrow> string" where
  "convertUSDToCurrency st usdAmount digits =
     (let c = getCurrencyConfig st
      in text_of_value (cc_symbol c)
         @ to_fixed digits (js_mul (number_of_value usdAmount) (number_of_value (cc_rate c))))"

definition custom_symbol :: "storage \<Rightarrow> jsval" where
  "custom_symbol st = status_or st ''custom_currency_symbol'' currency_sign currency_sign"

definition renderQuotaNumberWithDigit :: "storage \<Rightarrow> jsval \<Rightarrow> nat \<Rightarrow> jsval" where
  "renderQuotaNumberWithDigit st num digits =
     (case num of
        JNum x \<Rightarrow>
          if x = NaN then JNum (Fin 0)
          else
            let t = getQuotaDisplayType st; shown = to_fixed digits x
            in if t = ''CNY'' then JStr (text_of_value yen @ shown)
               else if t = ''USD'' then JStr (''$'' @ shown)
               else if t = ''CUSTOM'' then JStr (text_of_value (custom_symbol st) @ shown)
               else JStr shown
      | _ \<Rightarrow> JNum (Fin 0))"

definition renderUnitWithQuota :: "storage \<Rightarrow> jsval \<Rightarrow> jsnum" where
  "renderUnitWithQuota st quota = js_mul (getQuotaPerUnit st) (parse_float (text_of_value quota))"

definition getQuotaWithUnit :: "storage \<Rightarrow> jsval \<Rightarrow> nat \<Rightarrow> string" where
  "getQuotaWithUnit st quota digits = to_fixed digits (js_div (number_of_value quota) (getQuotaPerUnit st))"

definition renderQuotaWithAmount :: "storage \<Rightarrow> jsval \<Rightarrow> jsval" where
  "renderQuotaWithAmount st amount =
     (let t = getQuotaDisplayType st;
          numericAmount = number_of_value amount;
          formattedAmount = (if is_finite_num numericAmount then to_fixed 2 numericAmount else text_of_value amount)
      in if t = ''TOKENS'' then renderNumber (JNum (renderUnitWithQuota st amount))
         else if t = ''CNY'' then JStr (text_of_value yen @ formattedAmount)
         else if t = ''CUSTOM'' then JStr (text_of_value (custom_symbol st) @ formattedAmount)
         else JStr (''$'' @ formattedAmount))"

text \<open>The symbol and the value \<open>renderQuota\<close> shows.\<close>

definition quota_value :: "storage \<Rightarrow> jsval \<Rightarrow> jsval \<times> jsnum" where
  "quota_value st quota =
     (let t = getQuotaDisplayType st;
          resultUSD = js_div (number_of_value quota) (getQuotaPerUnit st);
          one = JNum (Fin 1)
      in if t = ''CNY''
         then (yen, js_mul resultUSD (number_of_value (status_or st ''usd_exchange_rate'' one one)))
         else if t = ''CUSTOM''
         then (custom_symbol st,
               js_mul resultUSD (number_of_value (status_or st ''custom_currency_exchange_rate'' one one)))
         else (JStr ''$'', resultUSD))"

definition shown_value :: "jsnum \<Rightarrow> nat \<Rightarrow> jsnum \<Rightarrow> string" where
  "shown_value quota digits value =
     (let fixedResult = to_fixed digits value
      in if js_num_eq (parse_float fixedResult) (Fin 0) \<and> js_less (Fin 0) quota \<and> js_less (Fin 0) value
         then to_fixed digits (fl (pow10 (- int digits)))
         else fixedResult)"

definition renderQuota :: "storage \<Rightarrow> jsval \<Rightarrow> nat \<Rightarrow> jsval" where
  "renderQuota st quota digits =
     (if getQuotaDisplayType st = ''TOKENS'' then renderNumber quota
      else let (symbol, value) = quota_value st quota
           in JStr (text_of_value symbol @ shown_value (number_of_value quota) digits value))"

section \<open>Group ratios and the billing display\<close>

definition isValidGroupRatio :: "jsval \<Rightarrow> bool" where
  "isValidGroupRatio ratio \<longleftrightarrow> (case ratio of JNum x \<Rightarrow> is_finite_num x \<and> x \<noteq> Fin (- 1) | _ \<Rightarrow> False)"

datatype ratio_label = UserRatioLabel | GroupRatioLabel

definition getEffectiveRatio :: "jsval \<Rightarrow> jsval \<Rightarrow> jsval \<times> ratio_label \<times> bool" where
  "getEffectiveRatio groupRatio user_group_ratio =
     (let useUserGroupRatio = isValidGroupRatio user_group_ratio
      in (if useUserGroupRatio then user_group_ratio else groupRatio,
          if useUserGroupRatio then UserRatioLabel else GroupRatioLabel, useUserGroupRatio))"

definition resolveBillingDisplayMode :: "storage \<Rightarrow> string \<Rightarrow> jsnum \<Rightarrow> string" where
  "resolveBillingDisplayMode st displayMode modelPrice =
     (if modelPrice \<noteq> Fin (- 1) then ''price''
      else if getQuotaDisplayType st = ''TOKENS'' then ''ratio''
      else if displayMode = ''ratio'' then ''ratio'' else ''price'')"

definition isPriceDisplayMode :: "storage \<Rightarrow> string \<Rightarrow> jsnum \<Rightarrow> bool" where
  "isPriceDisplayMode st displayMode modelPrice \<longleftrightarrow> resolveBillingDisplayMode st displayMode modelPrice = ''price''"

definition shouldUseRatioBillingProcess :: "storage \<Rightarrow> jsnum \<Rightarrow> bool" where
  "shouldUseRatioBillingProcess st modelPrice \<longleftrightarrow>
     modelPrice = Fin (- 1) \<and> getQuotaDisplayType st = ''TOKENS''"

definition formatCompactDisplayPrice :: "storage \<Rightarrow> jsval \<Rightarrow> nat \<Rightarrow> string" where
  "formatCompactDisplayPrice st usdAmount digits =
     (let c = getCurrencyConfig st;
          amount = number_of_text (to_fixed digits (js_mul (number_of_value usdAmount) (number_of_value (cc_rate c))))
      in text_of_value (cc_symbol c) @ text_of_number amount)"

definition formatRatioValue :: "jsval \<Rightarrow> nat \<Rightarrow> jsnum" where
  "formatRatioValue value digits =
     (let num = number_of_value value
      in if \<not> is_finite_num num then Fin 0 else number_of_text (to_fixed digits num))"

definition renderDisplayAmountFromUsd :: "storage \<Rightarrow> jsval \<Rightarrow> nat \<Rightarrow> jsval" where
  "renderDisplayAmountFromUsd st usdAmount digits =
     renderQuotaWithAmount st
       (JNum (number_of_text (to_fixed digits (number_of_value (js_or usdAmount (JNum (Fin 0)))))))"

section \<open>Conversions\<close>

text \<open>\<open>getQuotaPerUnit\<close> of \<open>quota.js\<close>, which falls back to one.\<close>

definition quota_per_unit :: "storage \<Rightarrow> jsnum" where
  "quota_per_unit st =
     (let raw = parse_float (case getItem st ''quota_per_unit'' of None \<Rightarrow> ''1'' | Some t \<Rightarrow> if t = [] then ''1'' else t)
      in if is_finite_num raw \<and> js_less (Fin 0) raw then raw else Fin 1)"

definition amount_rate :: "storage \<Rightarrow> jsnum" where
  "amount_rate st = number_of_value (js_or (cc_rate (getCurrencyConfig st)) (JNum (Fin 1)))"

definition quotaToDisplayAmount :: "storage \<Rightarrow> jsval \<Rightarrow> jsnum" where
  "quotaToDisplayAmount st quota =
     (let q = number_of_value (js_or quota (JNum (Fin 0)));
          type = cc_type (getCurrencyConfig st);
          usd = js_div q (quota_per_unit st)
      in if \<not> is_finite_num q \<or> js_le q (Fin 0) then Fin 0
         else if type = ''TOKENS'' then q
         else if type = ''USD'' then usd
         else js_mul usd (amount_rate st))"

definition displayAmountToQuota :: "storage \<Rightarrow> jsval \<Rightarrow> jsnum" where
  "displayAmountToQuota st amount =
     (let val = number_of_value (js_or amount (JNum (Fin 0)));
          type = cc_type (getCurrencyConfig st);
          usd = (if type = ''USD'' then val else js_div val (amount_rate st))
      in if \<not> is_finite_num val \<or> js_le val (Fin 0) then Fin 0
         else if type = ''TOKENS'' then js_round val
         else js_round (js_mul usd (quota_per_unit st)))"

section \<open>Lemmas\<close>

text \<open>The value of the two conversions on positive finite arguments.\<close>

lemma quotaToDisplayAmount_pos:
  assumes "0 < q"
  shows "quotaToDisplayAmount st (JNum (Fin q)) =
     (if cc_type (getCurrencyConfig st) = ''TOKENS'' then Fin q
      else if cc_type (getCurrencyConfig st) = ''USD'' then js_div (Fin q) (quota_per_unit st)
      else js_mul (js_div (Fin q) (quota_per_unit st)) (amount_rate st))"
  using assms by (simp add: quotaToDisplayAmount_def Let_def js_or_def number_of_value_def is_finite_num_def)

lemma displayAmountToQuota_pos:
  assumes "0 < a"
  shows "displayAmountToQuota st (JNum (Fin a)) =
     (if cc_type (getCurrencyConfig st) = ''TOKENS'' then js_round (Fin a)
      else if cc_type (getCurrencyConfig st) = ''USD'' then js_round (js_mul (Fin a) (quota_per_unit st))
      else js_round (js_mul (js_div (Fin a) (amount_rate st)) (quota_per_unit st)))"
  using assms by (simp add: displayAmountToQuota_def Let_def js_or_def number_of_value_def is_finite_num_def)

text \<open>A positive amount that a factor of reasonable size scales stays in range.\<close>

definition moderate :: "int \<Rightarrow> rat \<Rightarrow> bool" where
  "moderate e x \<longleftrightarrow> pow2 (- e) \<le> x \<and> x \<le> pow2 e"

lemma moderate_pos: "moderate e x \<Longrightarrow> 0 < x"
  unfolding moderate_def by (rule less_le_trans [OF pow2_pos, of "- e"]) simp

lemma moderate_mult:
  assumes "moderate d x" and "moderate e y"
  shows "moderate (d + e) (x * y)"
proof -
  have "pow2 (- d) * pow2 (- e) \<le> x * y" "x * y \<le> pow2 d * pow2 e"
    using assms moderate_pos [OF assms(1)] moderate_pos [OF assms(2)]
    by (auto simp: moderate_def less_imp_le intro!: mult_mono)
  moreover have "pow2 (- (d + e)) = pow2 (- d) * pow2 (- e)" using pow2_add [of "- d" "- e"] by simp
  ultimately show ?thesis by (simp add: moderate_def pow2_add [of d e])
qed

lemma moderate_inverse: "moderate e x \<Longrightarrow> moderate e (1 / x)"
proof -
  assume m: "moderate e x"
  have p: "pow2 (- e) = 1 / pow2 e" by (simp add: pow2_int power_int_minus inverse_eq_divide)
  have "1 / pow2 e \<le> 1 / x" using m moderate_pos [OF m] by (simp add: moderate_def frac_le)
  moreover have "1 / x \<le> 1 / pow2 (- e)" using m by (intro frac_le) (simp_all add: moderate_def)
  ultimately show ?thesis by (simp add: moderate_def p)
qed

lemma moderate_mono: "moderate d x \<Longrightarrow> d \<le> e \<Longrightarrow> moderate e x"
  using pow2_mono [of d e] pow2_mono [of "- e" "- d"] by (auto simp: moderate_def)

lemma moderate_range: "moderate e x \<Longrightarrow> e \<le> 1000 \<Longrightarrow> pow2 (- 1000) \<le> x \<and> x \<le> pow2 1000"
  using moderate_mono [of e x 1000] by (simp add: moderate_def)

lemma moderate_nat: "0 < n \<Longrightarrow> n < 2 ^ 49 \<Longrightarrow> moderate 49 (of_int n)"
proof -
  assume "0 < n" "n < 2 ^ 49"
  then have "(1::rat) \<le> of_int n" "(of_int n :: rat) \<le> of_int (2 ^ 49)" by (simp, simp only: of_int_le_iff)
  moreover have "pow2 (- 49) \<le> pow2 0" by (rule pow2_mono) simp
  ultimately show ?thesis by (simp add: moderate_def pow2_int power_int_def)
qed

text \<open>Quota to dollars and back, and through a rate in between.\<close>

lemma usd_roundtrip:
  assumes n: "0 < n" "n < 2 ^ 49" and u: "moderate 400 u"
  obtains d c where "fl (of_int n / u) = Fin d" and "0 < d" and "near 1 (of_int n / u) d"
    and "fl (d * u) = Fin c" and "\<lfloor>c + 1/2\<rfloor> = n"
proof -
  let ?n = "of_int n :: rat"
  note pos = moderate_pos [OF u]
  have m: "moderate 49 ?n" using n by (rule moderate_nat)
  note r1 = moderate_range [OF moderate_mult [OF m moderate_inverse [OF u]]]
  obtain d where d: "fl (?n * (1 / u)) = Fin d" "near (Suc 0) (?n * (1 / u)) d" "0 < d"
    by (rule near_product [of 0 ?n ?n "1 / u"]) (use r1 pos in simp_all)
  have e: "?n * (1 / u) * u = ?n" using pos by simp
  obtain c where c: "fl (d * u) = Fin c" "near (Suc (Suc 0)) (?n * (1 / u) * u) c" "0 < c"
    by (rule near_product [OF d(2), of u]) (use moderate_range [OF m] pos e in simp_all)
  have "\<lfloor>c + 1/2\<rfloor> = n" using near_integer [of "Suc (Suc 0)" n c] c(2) e n by simp
  with d c show ?thesis by (intro that [of d c]) simp_all
qed

lemma rate_roundtrip:
  assumes n: "0 < n" "n < 2 ^ 49" and u: "moderate 400 u" and r: "moderate 400 r"
    and d: "near 1 (of_int n / u) d"
  obtains a b c where "fl (d * r) = Fin a" and "0 < a" and "fl (a / r) = Fin b"
    and "fl (b * u) = Fin c" and "\<lfloor>c + 1/2\<rfloor> = n"
proof -
  let ?n = "of_int n :: rat" and ?x = "of_int n / u :: rat"
  note pos = moderate_pos [OF u] moderate_pos [OF r]
  have m: "moderate 49 ?n" using n by (rule moderate_nat)
  have x: "moderate 449 ?x" using moderate_mult [OF m moderate_inverse [OF u]] by simp
  note xr = moderate_range [OF moderate_mult [OF x r]]
  obtain a where a: "fl (d * r) = Fin a" "near (Suc 1) (?x * r) a" "0 < a"
    by (rule near_product [OF d, of r]) (use xr pos in simp_all)
  have e1: "?x * r * (1 / r) = ?x" and e2: "?x * u = ?n" using pos by simp_all
  obtain b where b: "fl (a * (1 / r)) = Fin b" "near (Suc (Suc 1)) (?x * r * (1 / r)) b" "0 < b"
    by (rule near_product [OF a(2), of "1 / r"]) (use moderate_range [OF x] pos e1 in simp_all)
  note b2 = b(2) [unfolded e1]
  obtain c where c: "fl (b * u) = Fin c" "near (Suc (Suc (Suc 1))) (?x * u) c" "0 < c"
    by (rule near_product [OF b2, of u]) (use moderate_range [OF m] pos e2 in simp_all)
  have "\<lfloor>c + 1/2\<rfloor> = n" using near_integer [of "Suc (Suc (Suc 1))" n c] c(2) e2 n by simp
  with a b c show ?thesis by (intro that [of a b c]) simp_all
qed

section \<open>Shown quota\<close>

definition least_texts :: "string list" where
  "least_texts = [''1'', ''0.1'', ''0.01'', ''0.001'', ''0.0001'', ''0.00001'', ''0.000001'']"

lemma least_amounts: "map (\<lambda>d. to_fixed d (fl (pow10 (- int d)))) [0..<7] = least_texts"
  by code_simp

lemma least_texts_positive: "list_all (\<lambda>s. parse_float s \<noteq> Fin 0) least_texts"
  by code_simp

text \<open>A positive quota is never shown as nothing.\<close>

lemma positive_quota_shown:
  assumes "digits \<le> 6" and "js_less (Fin 0) quota" and "js_less (Fin 0) value"
  shows "parse_float (shown_value quota digits value) \<noteq> Fin 0"
proof -
  have "to_fixed digits (fl (pow10 (- int digits))) \<in> set least_texts"
    unfolding least_amounts [symmetric] using assms(1) by (simp del: upt_Suc)
  then have "parse_float (to_fixed digits (fl (pow10 (- int digits)))) \<noteq> Fin 0"
    using least_texts_positive by (simp add: list_all_iff)
  then show ?thesis using assms(2,3) by (auto simp: shown_value_def Let_def js_num_eq_def)
qed

text \<open>
  The two readings of the exchange rate disagree when the stored status has none: the forms
  convert with seven yuan to the dollar, the display with one.
\<close>

lemma missing_rate_disagrees:
  "let st = setItem ''quota_per_unit'' ''500000'' (setItem ''quota_display_type'' ''CNY''
              (setItem ''status'' ''{}'' Map.empty))
   in quotaToDisplayAmount st (JNum (Fin 500000)) = Fin 7
      \<and> renderQuota st (JNum (Fin 500000)) 2 = JStr ([CHR 0xA5] @ ''1.00'')"
  by code_simp

section \<open>Properties\<close>

text \<open>
  C17: No quota is lost by the forms that show it in a currency: every integer quota below
  \<open>2^49\<close>, converted to the displayed amount and back, is the same quota, in spite of up to
  four roundings, for every display kind, whenever the quota of a unit and the exchange rate
  are between \<open>2^-400\<close> and \<open>2^400\<close>.
\<close>

theorem quota_amount_roundtrip:
  assumes n: "0 < n" "n < 2 ^ 49"
    and u: "quota_per_unit st = Fin u" "moderate 400 u"
    and r: "amount_rate st = Fin r" "moderate 400 r"
  shows "displayAmountToQuota st (JNum (quotaToDisplayAmount st (JNum (Fin (of_int n))))) = Fin (of_int n)"
proof -
  note pos = moderate_pos [OF u(2)] moderate_pos [OF r(2)]
  obtain d c where d: "fl (of_int n / u) = Fin d" "0 < d" "near 1 (of_int n / u) d"
    and c: "fl (d * u) = Fin c" "\<lfloor>c + 1/2\<rfloor> = n"
    by (rule usd_roundtrip [OF n u(2)])
  obtain a b c' where a: "fl (d * r) = Fin a" "0 < a" and b: "fl (a / r) = Fin b"
    and c': "fl (b * u) = Fin c'" "\<lfloor>c' + 1/2\<rfloor> = n"
    by (rule rate_roundtrip [OF n u(2) r(2) d(3)])
  have whole: "\<lfloor>of_int n + 1/2 :: rat\<rfloor> = n" by (rule floor_unique) simp_all
  show ?thesis
    using n(1) d a b c c' whole pos u(1) r(1)
    by (cases "cc_type (getCurrencyConfig st) = ''TOKENS''"; cases "cc_type (getCurrencyConfig st) = ''USD''")
      (simp_all add: quotaToDisplayAmount_pos displayAmountToQuota_pos)
qed

definition cny_storage :: storage where
  "cny_storage =
     setItem ''quota_per_unit'' ''500000'' (setItem ''quota_display_type'' ''CNY''
       (setItem ''status'' (''{'' @ json_quote ''usd_exchange_rate'' @ '':7.3}'') Map.empty))"

lemma quota_amount_roundtrip_witness:
  "displayAmountToQuota cny_storage (JNum (quotaToDisplayAmount cny_storage (JNum (Fin (of_int 1234567)))))
     = Fin (of_int 1234567)"
proof -
  have "(0::int) < 1234567" "(1234567::int) < 2 ^ 49" by simp_all
  moreover have "quota_per_unit cny_storage = Fin 500000" by code_simp
  moreover have "amount_rate cny_storage = Fin (8219069319951155 / 1125899906842624)" by code_simp
  moreover have "moderate 400 500000" "moderate 400 (8219069319951155 / 1125899906842624)" by code_simp+
  ultimately show ?thesis using quota_amount_roundtrip by blast
qed

end
