(* ===== verification/MarketplacePrices.thy ===== *)
theory MarketplacePrices
  imports Marketplace Currency IntegerText
begin

text \<open>
  The prices of the pricing page: \<open>displayPrice\<close> of
  \<open>web/src/hooks/model-pricing/useModelPricingData.jsx\<close> and \<open>calculateModelPrice\<close> and
  \<open>getModelPriceItems\<close> of \<open>web/src/helpers/utils.jsx\<close>, with the table of prices per group
  (\<open>ModelPricingTable.jsx\<close>).  Ratios are compared as numbers.  Labels are left out.
\<close>

section \<open>Amounts\<close>

record price_settings =
  ps_with_recharge :: bool
  ps_currency :: string
  ps_price_rate :: jsval
  ps_usd_rate :: jsval
  ps_custom_rate :: jsval
  ps_custom_symbol :: jsval

text \<open>The rates of the status, with their defaults.\<close>

definition rates_of_status :: "jsval \<Rightarrow> bool \<Rightarrow> string \<Rightarrow> price_settings" where
  "rates_of_status status withRecharge currency =
     (let priceRate = js_coalesce (value_get status ''price'') (JNum (Fin 1))
      in \<lparr>ps_with_recharge = withRecharge, ps_currency = currency, ps_price_rate = priceRate,
          ps_usd_rate = js_coalesce (value_get status ''usd_exchange_rate'') priceRate,
          ps_custom_rate = js_coalesce (value_get status ''custom_currency_exchange_rate'') (JNum (Fin 1)),
          ps_custom_symbol = js_coalesce (value_get status ''custom_currency_symbol'') currency_sign\<rparr>)"

definition displayPrice :: "price_settings \<Rightarrow> jsnum \<Rightarrow> string" where
  "displayPrice c usdPrice =
     (let usdRate = number_of_value (ps_usd_rate c);
          priceInUSD = (if ps_with_recharge c
                        then js_div (js_mul usdPrice (number_of_value (ps_price_rate c))) usdRate
                        else usdPrice)
      in if ps_currency c = ''CNY'' then text_of_value yen @ to_fixed 3 (js_mul priceInUSD usdRate)
         else if ps_currency c = ''CUSTOM''
         then text_of_value (ps_custom_symbol c) @ to_fixed 3 (js_mul priceInUSD (number_of_value (ps_custom_rate c)))
         else ''$'' @ to_fixed 3 priceInUSD)"

section \<open>The group that counts\<close>

text \<open>The loop over the groups of the model: the least ratio so far, its group and its ratio.\<close>

definition lower_ratio :: "jsval \<Rightarrow> jsval \<Rightarrow> jsnum \<times> jsval \<times> jsval \<Rightarrow> jsnum \<times> jsval \<times> jsval" where
  "lower_ratio groupRatio g best =
     (case best of (minRatio, usedGroup, usedGroupRatio) \<Rightarrow>
        let r = value_get groupRatio (text_of_value g)
        in if r \<noteq> JUndef \<and> js_less (number_of_value r) minRatio then (number_of_value r, g, r) else best)"

definition used_group :: "jsval \<Rightarrow> string \<Rightarrow> jsval \<Rightarrow> (jsval \<times> jsval) js_result" where
  "used_group record1 selectedGroup groupRatio =
     (if is_nullish groupRatio then Inl TypeError
      else
        let ratio = value_get groupRatio selectedGroup;
            groups = (case value_get record1 ''enable_groups'' of JArr gs \<Rightarrow> gs | _ \<Rightarrow> [])
        in if selectedGroup = ''all'' \<or> ratio = JUndef
           then (case fold (lower_ratio groupRatio) groups (PosInf, JStr selectedGroup, ratio) of
                   (_, g, r) \<Rightarrow> Inr (g, if r = JUndef then JNum (Fin 1) else r))
           else Inr (JStr selectedGroup, ratio))"

section \<open>The price of a model\<close>

definition hasRatioValue :: "jsval \<Rightarrow> bool" where
  "hasRatioValue v \<longleftrightarrow> v \<noteq> JUndef \<and> v \<noteq> JNull \<and> v \<noteq> JStr [] \<and> is_finite_num (number_of_value v)"

definition formatRatio :: "jsval \<Rightarrow> jsnum option" where
  "formatRatio v = (if hasRatioValue v then Some (number_of_text (to_fixed 6 (number_of_value v))) else None)"

record ratio_prices =
  rp_input :: "jsnum option"
  rp_completion :: "jsnum option"
  rp_cache :: "jsnum option"
  rp_create_cache :: "jsnum option"
  rp_image :: "jsnum option"
  rp_audio_input :: "jsnum option"
  rp_audio_output :: "jsnum option"

record token_prices =
  tp_input :: string
  tp_completion :: string
  tp_cache :: "string option"
  tp_create_cache :: "string option"
  tp_image :: "string option"
  tp_audio_input :: "string option"
  tp_audio_output :: "string option"
  tp_unit :: string

datatype price_data =
    RatioPrices ratio_prices
  | TokenPrices token_prices
  | CallPrice string jsval
  | UnknownPrice

definition price_symbol :: "storage \<Rightarrow> string \<Rightarrow> string" where
  "price_symbol st currency =
     (if currency = ''CNY'' then text_of_value yen
      else if currency = ''CUSTOM'' then text_of_value (custom_symbol st)
      else ''$'')"

text \<open>The shown amount is read back: only its digits and dots are kept.\<close>

definition number_char :: "char \<Rightarrow> bool" where
  "number_char c \<longleftrightarrow> is_digit c \<or> c = CHR ''.''"

definition formatTokenPrice :: "(jsnum \<Rightarrow> string) \<Rightarrow> string \<Rightarrow> string \<Rightarrow> nat \<Rightarrow> jsnum \<Rightarrow> string" where
  "formatTokenPrice display symbol tokenUnit precision priceUSD =
     (let numericPrice = js_div (parse_float (filter number_char (display priceUSD)))
                           (Fin (if tokenUnit = ''K'' then 1000 else 1))
      in symbol @ to_fixed precision numericPrice)"

definition ratio_prices_of :: "jsval \<Rightarrow> ratio_prices" where
  "ratio_prices_of m =
     \<lparr>rp_input = formatRatio (value_get m ''model_ratio''),
      rp_completion = formatRatio (value_get m ''completion_ratio''),
      rp_cache = formatRatio (value_get m ''cache_ratio''),
      rp_create_cache = formatRatio (value_get m ''create_cache_ratio''),
      rp_image = formatRatio (value_get m ''image_ratio''),
      rp_audio_input = formatRatio (value_get m ''audio_ratio''),
      rp_audio_output = formatRatio (value_get m ''audio_completion_ratio'')\<rparr>"

definition token_prices_of ::
  "storage \<Rightarrow> (jsnum \<Rightarrow> string) \<Rightarrow> string \<Rightarrow> string \<Rightarrow> nat \<Rightarrow> jsval \<Rightarrow> jsnum \<Rightarrow> token_prices" where
  "token_prices_of st display currency tokenUnit precision m groupRatio =
     (let num = (\<lambda>k. number_of_value (value_get m k));
          input = js_mul (js_mul (num ''model_ratio'') (Fin 2)) groupRatio;
          price = formatTokenPrice display (price_symbol st currency) tokenUnit precision;
          optional = (\<lambda>k. if hasRatioValue (value_get m k) then Some (price (js_mul input (num k))) else None)
      in \<lparr>tp_input = price input,
          tp_completion = price (js_mul input (num ''completion_ratio'')),
          tp_cache = optional ''cache_ratio'',
          tp_create_cache = optional ''create_cache_ratio'',
          tp_image = optional ''image_ratio'',
          tp_audio_input = optional ''audio_ratio'',
          tp_audio_output =
            (if optional ''audio_ratio'' \<noteq> None \<and> hasRatioValue (value_get m ''audio_completion_ratio'')
             then Some (price (js_mul (js_mul input (num ''audio_ratio'')) (num ''audio_completion_ratio''))) else None),
          tp_unit = (if tokenUnit = ''K'' then ''K'' else ''M'')\<rparr>)"

definition calculateModelPrice ::
  "storage \<Rightarrow> (jsnum \<Rightarrow> string) \<Rightarrow> string \<Rightarrow> string \<Rightarrow> string \<Rightarrow> nat \<Rightarrow> jsval \<Rightarrow> string \<Rightarrow> jsval \<Rightarrow>
     (price_data \<times> jsval \<times> jsval) js_result" where
  "calculateModelPrice st display currency quotaDisplayType tokenUnit precision m selectedGroup groupRatio =
     js_then (used_group m selectedGroup groupRatio) (\<lambda>(usedGroup, usedGroupRatio).
       let kind = value_get m ''quota_type''; ratio = number_of_value usedGroupRatio
       in Inr (if kind = JNum (Fin 0)
               then (if quotaDisplayType = ''TOKENS'' then RatioPrices (ratio_prices_of m)
                     else TokenPrices (token_prices_of st display currency tokenUnit precision m ratio))
               else if kind = JNum (Fin 1)
               then CallPrice (display (js_mul (parse_float (text_of_value (value_get m ''model_price''))) ratio))
                      (getPricingBillingUnit m)
               else UnknownPrice,
               usedGroup, usedGroupRatio))"

section \<open>What is shown\<close>

record price_item =
  pi_key :: string
  pi_value :: string
  pi_suffix :: string

definition items_with :: "string \<Rightarrow> (string \<times> string option) list \<Rightarrow> price_item list" where
  "items_with behind kvs =
     List.map_filter (\<lambda>(k, v). case v of
        Some t \<Rightarrow> if t = [] then None else Some \<lparr>pi_key = k, pi_value = t, pi_suffix = behind\<rparr>
      | None \<Rightarrow> None) kvs"

text \<open>Prices per token shown while the site displays tokens have no ratios: nothing is left.\<close>

definition getModelPriceItems :: "(string \<Rightarrow> string) \<Rightarrow> string \<Rightarrow> price_data \<Rightarrow> price_item list" where
  "getModelPriceItems t quotaDisplayType p =
     (case p of
        RatioPrices r \<Rightarrow>
          items_with ''x''
            [(''input-ratio'', map_option text_of_number (rp_input r)),
             (''completion-ratio'', map_option text_of_number (rp_completion r)),
             (''cache-ratio'', map_option text_of_number (rp_cache r)),
             (''create-cache-ratio'', map_option text_of_number (rp_create_cache r)),
             (''image-ratio'', map_option text_of_number (rp_image r)),
             (''audio-input-ratio'', map_option text_of_number (rp_audio_input r)),
             (''audio-output-ratio'', map_option text_of_number (rp_audio_output r))]
      | TokenPrices r \<Rightarrow>
          if quotaDisplayType = ''TOKENS'' then []
          else items_with ('' / 1'' @ tp_unit r @ '' Tokens'')
            [(''input'', Some (tp_input r)), (''completion'', Some (tp_completion r)), (''cache'', tp_cache r),
             (''create-cache'', tp_create_cache r), (''image'', tp_image r), (''audio-input'', tp_audio_input r),
             (''audio-output'', tp_audio_output r)]
      | CallPrice price unit1 \<Rightarrow>
          items_with ('' / '' @ t (if unit1 = JStr ''second'' then ''second'' else ''call'')) [(''fixed'', Some price)]
      | UnknownPrice \<Rightarrow> items_with ('' / '' @ t ''call'') [(''fixed'', Some ''-'')])"

text \<open>The table of one model: the usable groups the model has, except \<open>auto\<close>.\<close>

definition tableGroups :: "jsval \<Rightarrow> jsval \<Rightarrow> string list" where
  "tableGroups m usableGroup =
     (let groups = (case value_get m ''enable_groups'' of JArr gs \<Rightarrow> gs | _ \<Rightarrow> [])
      in filter (\<lambda>g. JStr g \<in> set groups)
           (filter (\<lambda>g. g \<noteq> ''auto'') (filter (\<lambda>g. g \<noteq> [])
             (map fst (own_entries (js_or usableGroup (JObj [])))))))"

definition group_ratio_shown :: "jsval \<Rightarrow> string \<Rightarrow> jsval" where
  "group_ratio_shown groupRatio g = js_or (value_get groupRatio g) (JNum (Fin 1))"

definition autoChain :: "jsval \<Rightarrow> jsval list \<Rightarrow> jsval list" where
  "autoChain m autoGroups =
     (let groups = (case value_get m ''enable_groups'' of JArr gs \<Rightarrow> gs | _ \<Rightarrow> [])
      in filter (\<lambda>g. g \<in> set groups) autoGroups)"

section \<open>Which group gives the price\<close>

lemma js_less_simps [simp]: "\<not> js_less x NaN" "\<not> js_less NaN x"
  by (cases x; simp)+

lemma js_less_trans: "js_less a b \<Longrightarrow> js_less b c \<Longrightarrow> js_less a c"
  by (cases a; cases b; cases c) auto

lemma js_less_irrefl: "\<not> js_less a a"
  by (cases a) auto

lemma js_not_less_trans: "b \<noteq> NaN \<Longrightarrow> \<not> js_less a b \<Longrightarrow> js_less c b \<Longrightarrow> \<not> js_less a c"
  using js_less_trans by blast

text \<open>After the loop no group is below the least ratio, and this is that of the group chosen last.\<close>

definition best_of :: "jsval \<Rightarrow> jsval list \<Rightarrow> jsnum \<times> jsval \<times> jsval \<Rightarrow> bool" where
  "best_of groupRatio gs best =
     (case best of (least, g, r) \<Rightarrow>
        list_all (\<lambda>h. value_get groupRatio (text_of_value h) = JUndef \<or>
          \<not> js_less (number_of_value (value_get groupRatio (text_of_value h))) least) gs \<and>
        (least \<noteq> PosInf \<longrightarrow>
          g \<in> set gs \<and> r = value_get groupRatio (text_of_value g) \<and> r \<noteq> JUndef \<and> number_of_value r = least))"

lemma best_of_step:
  assumes "best_of groupRatio gs best"
  shows "best_of groupRatio (gs @ [g]) (lower_ratio groupRatio g best)"
proof -
  obtain least u r where best: "best = (least, u, r)" by (cases best)
  show ?thesis
  proof (cases "value_get groupRatio (text_of_value g) \<noteq> JUndef \<and>
      js_less (number_of_value (value_get groupRatio (text_of_value g))) least")
    case True
    then have "list_all (\<lambda>h. value_get groupRatio (text_of_value h) = JUndef \<or>
        \<not> js_less (number_of_value (value_get groupRatio (text_of_value h)))
            (number_of_value (value_get groupRatio (text_of_value g)))) gs"
      using assms js_less_trans by (auto simp: best best_of_def list_all_iff)
    then show ?thesis using True js_less_irrefl by (auto simp: best best_of_def lower_ratio_def Let_def)
  next
    case False
    then show ?thesis using assms by (auto simp: best best_of_def lower_ratio_def Let_def)
  qed
qed

lemma best_of_fold: "best_of groupRatio gs (fold (lower_ratio groupRatio) gs (PosInf, u, r))"
proof (induction gs rule: rev_induct)
  case Nil
  then show ?case by (simp add: best_of_def)
next
  case (snoc g gs)
  then show ?case using best_of_step by simp
qed

lemma no_less_than_inf: "js_less x PosInf \<longleftrightarrow> x \<noteq> PosInf \<and> x \<noteq> NaN"
  by (cases x) auto

text \<open>The amount in dollars a group pays for a million tokens: twice the ratio of the model times that
  of the group, times the factors of the kind of token.\<close>

definition group_amount :: "jsval \<Rightarrow> jsval \<Rightarrow> string list \<Rightarrow> jsnum" where
  "group_amount m r factors =
     fold (\<lambda>k a. js_mul a (number_of_value (value_get m k))) factors
       (js_mul (js_mul (number_of_value (value_get m ''model_ratio'')) (Fin 2)) (number_of_value r))"

definition shown_if :: "jsval \<Rightarrow> string \<Rightarrow> string \<Rightarrow> string option" where
  "shown_if m k t = (if hasRatioValue (value_get m k) then Some t else None)"

text \<open>What the prices of a model are for a group with the ratio \<open>r\<close>.\<close>

definition priced_at :: "(jsnum \<Rightarrow> string) \<Rightarrow> (jsnum \<Rightarrow> string) \<Rightarrow> string \<Rightarrow> jsval \<Rightarrow> jsval \<Rightarrow> price_data \<Rightarrow> bool" where
  "priced_at display shown quotaDisplayType m r price \<longleftrightarrow>
     (value_get m ''quota_type'' = JNum (Fin 0) \<and> quotaDisplayType \<noteq> ''TOKENS'' \<longrightarrow>
        (\<exists>tp. price = TokenPrices tp
           \<and> tp_input tp = shown (group_amount m r [])
           \<and> tp_completion tp = shown (group_amount m r [''completion_ratio''])
           \<and> tp_cache tp = shown_if m ''cache_ratio'' (shown (group_amount m r [''cache_ratio'']))
           \<and> tp_create_cache tp = shown_if m ''create_cache_ratio'' (shown (group_amount m r [''create_cache_ratio'']))
           \<and> tp_image tp = shown_if m ''image_ratio'' (shown (group_amount m r [''image_ratio'']))
           \<and> tp_audio_input tp = shown_if m ''audio_ratio'' (shown (group_amount m r [''audio_ratio'']))
           \<and> (hasRatioValue (value_get m ''audio_ratio'') \<longrightarrow> tp_audio_output tp
                = shown_if m ''audio_completion_ratio'' (shown (group_amount m r [''audio_ratio'', ''audio_completion_ratio''])))))
     \<and> (value_get m ''quota_type'' = JNum (Fin 1) \<longrightarrow>
          price = CallPrice (display (js_mul (parse_float (text_of_value (value_get m ''model_price''))) (number_of_value r)))
            (getPricingBillingUnit m))"

lemma calculated_price:
  assumes "calculateModelPrice st display currency quotaDisplayType tokenUnit precision m selectedGroup groupRatio =
      Inr (price, g, r)"
  shows "priced_at display (formatTokenPrice display (price_symbol st currency) tokenUnit precision) quotaDisplayType m r price"
  using assms
  by (auto simp: calculateModelPrice_def js_then_def Let_def priced_at_def token_prices_of_def group_amount_def
      shown_if_def split: sum.splits prod.splits if_splits)

lemma price_when_selected:
  assumes "calculateModelPrice st display currency quotaDisplayType tokenUnit precision m selectedGroup groupRatio =
      Inr (price, g, r)"
    and "value_get groupRatio k = r" "r \<noteq> JUndef" "k \<noteq> ''all''"
  shows "calculateModelPrice st display currency quotaDisplayType tokenUnit precision m k groupRatio = Inr (price, JStr k, r)"
proof -
  have "used_group m selectedGroup groupRatio = Inr (g, r)"
    using assms(1) by (auto simp: calculateModelPrice_def js_then_def Let_def split: sum.splits prod.splits)
  then have "used_group m k groupRatio = Inr (JStr k, r)"
    using assms(2-4) by (auto simp: used_group_def split: if_splits)
  with assms(1) \<open>used_group m selectedGroup groupRatio = Inr (g, r)\<close> show ?thesis
    by (auto simp: calculateModelPrice_def js_then_def Let_def)
qed

text \<open>
  C27: When no group is chosen, or the chosen one has no ratio, the price of a model is that of
  one of its own groups with the least ratio: the group is one of the groups of the model, the
  ratio is the one the server gave for it, no group of the model has a lesser one, every shown
  price is the model's price multiplied by this ratio, and choosing that group shows the same
  prices.  This holds as soon as one of its groups has a ratio below infinity.
\<close>
theorem price_is_that_of_cheapest_group:
  assumes "value_get m ''enable_groups'' = JArr gs"
    and "selectedGroup = ''all'' \<or> value_get groupRatio selectedGroup = JUndef"
    and "h \<in> set gs" "value_get groupRatio (text_of_value h) \<noteq> JUndef"
      "js_less (number_of_value (value_get groupRatio (text_of_value h))) PosInf"
    and "calculateModelPrice st display currency quotaDisplayType tokenUnit precision m selectedGroup groupRatio =
      Inr (price, g, r)"
  shows "g \<in> set gs \<and> r = value_get groupRatio (text_of_value g) \<and>
    (\<forall>k \<in> set gs. value_get groupRatio (text_of_value k) \<noteq> JUndef \<longrightarrow>
      \<not> js_less (number_of_value (value_get groupRatio (text_of_value k))) (number_of_value r)) \<and>
    priced_at display (formatTokenPrice display (price_symbol st currency) tokenUnit precision) quotaDisplayType m r price \<and>
    (text_of_value g \<noteq> ''all'' \<longrightarrow>
      calculateModelPrice st display currency quotaDisplayType tokenUnit precision m (text_of_value g) groupRatio =
        Inr (price, JStr (text_of_value g), r))"
proof -
  have used: "used_group m selectedGroup groupRatio = Inr (g, r)"
    using assms(6) by (auto simp: calculateModelPrice_def js_then_def Let_def split: sum.splits prod.splits)
  obtain least u r0 where loop: "fold (lower_ratio groupRatio) gs (PosInf, JStr selectedGroup, value_get groupRatio selectedGroup) =
      (least, u, r0)"
    by (metis prod_cases3)
  have best: "best_of groupRatio gs (least, u, r0)" using best_of_fold loop by metis
  then have "\<not> js_less (number_of_value (value_get groupRatio (text_of_value h))) least"
    using assms(3,4) by (auto simp: best_of_def list_all_iff)
  then have "least \<noteq> PosInf" using assms(5) by auto
  then have chosen: "u \<in> set gs" "r0 = value_get groupRatio (text_of_value u)" "r0 \<noteq> JUndef" "number_of_value r0 = least"
    using best \<open>least \<noteq> PosInf\<close> by (auto simp: best_of_def)
  have same: "g = u" "r = r0"
    using used assms(1,2) loop chosen(3) by (auto simp: used_group_def Let_def split: if_splits)
  have "\<forall>k \<in> set gs. value_get groupRatio (text_of_value k) \<noteq> JUndef \<longrightarrow>
      \<not> js_less (number_of_value (value_get groupRatio (text_of_value k))) (number_of_value r)"
    using best chosen same by (auto simp: best_of_def list_all_iff)
  moreover have "text_of_value g \<noteq> ''all'' \<Longrightarrow>
      calculateModelPrice st display currency quotaDisplayType tokenUnit precision m (text_of_value g) groupRatio =
        Inr (price, JStr (text_of_value g), r)"
    using chosen same by (intro price_when_selected [OF assms(6)]) simp_all
  ultimately show ?thesis
    using chosen(1,2) same calculated_price [OF assms(6)] by blast
qed

definition two_groups :: jsval where
  "two_groups = JObj [(''quota_type'', JNum (Fin 1)), (''model_price'', JStr ''2''),
     (''enable_groups'', JArr [JStr ''default'', JStr ''vip''])]"

definition two_ratios :: jsval where
  "two_ratios = JObj [(''default'', JNum (Fin 1)), (''vip'', JNum (Fin (1/2)))]"

definition usd_prices :: price_settings where
  "usd_prices = rates_of_status JUndef False ''USD''"

lemma two_groups_price:
  "calculateModelPrice (\<lambda>_. None) (displayPrice usd_prices) ''USD'' ''USD'' ''M'' 4 two_groups ''all'' two_ratios =
     Inr (CallPrice ''$1.000'' (JStr ''call''), JStr ''vip'', JNum (Fin (1/2)))"
  by code_simp

lemma price_is_that_of_cheapest_group_witness:
  "\<not> js_less (number_of_value (value_get two_ratios ''default'')) (Fin (1/2)) \<and> JStr ''vip'' \<in> {JStr ''default'', JStr ''vip''}"
  using price_is_that_of_cheapest_group [OF _ _ _ _ _ two_groups_price, of "[JStr ''default'', JStr ''vip'']" "JStr ''vip''"]
  by (simp add: two_groups_def two_ratios_def value_get_def obj_get_def number_of_value_def)

section \<open>Reading the shown amount back\<close>

lemma fixed_digits_chars: "0 \<le> a \<Longrightarrow> list_all number_char (fixed_digits f a)"
proof -
  assume a: "0 \<le> a"
  define ds where "ds = show_int (floor (a * pow10 (int f) + 1/2))"
  have "0 \<le> a * pow10 (int f)" using a pow10_int [of f] by simp
  then have "0 \<le> floor (a * pow10 (int f) + 1/2)" by simp
  from show_int_digits [OF this] have ds: "list_all number_char ds"
    by (auto simp: ds_def list_all_iff number_char_def)
  define pad where "pad = zeros (Suc f - length ds) @ ds"
  have "list_all number_char (zeros n)" for n
    by (simp add: zeros_def list_all_iff number_char_def is_digit_def)
  then have pad: "list_all number_char pad"
    using ds by (simp add: pad_def)
  have "set (take (length pad - f) pad) \<subseteq> set pad" "set (drop (length pad - f) pad) \<subseteq> set pad"
    by (simp_all add: set_take_subset set_drop_subset)
  then show ?thesis
    using ds pad unfolding fixed_digits_def Let_def ds_def [symmetric] pad_def [symmetric] list_all_iff
    by (auto simp: number_char_def)
qed

lemma fixed_text_chars:
  assumes "0 \<le> a" "a < pow10 21"
  shows "filter number_char (to_fixed f (Fin a)) = to_fixed f (Fin a)"
  using assms fixed_digits_chars [OF assms(1), of f] by (simp add: to_fixed_def list_all_iff)

text \<open>With a symbol that has no digit and no dot the amount itself is read back, so the price of
  a model is the shown amount, with the symbol of the site.\<close>

lemma price_read_back:
  assumes "list_all (\<lambda>c. \<not> number_char c) symbol" "0 \<le> a" "a < pow10 21"
  shows "formatTokenPrice (\<lambda>_. symbol @ to_fixed 3 (Fin a)) sign tokenUnit precision x =
    sign @ to_fixed precision (js_div (parse_float (to_fixed 3 (Fin a))) (Fin (if tokenUnit = ''K'' then 1000 else 1)))"
proof -
  have "filter number_char symbol = []" using assms(1) by (simp add: list_all_iff filter_empty_conv)
  then show ?thesis by (simp add: formatTokenPrice_def fixed_text_chars [OF assms(2,3)])
qed

text \<open>A symbol with a dot makes the price a tenth: \<open>Rs.2.000\<close> is read as \<open>.2\<close>.\<close>

lemma dotted_symbol_changes_the_price:
  "let c = (rates_of_status (JObj [(''custom_currency_symbol'', JStr ''Rs.'')]) False ''CUSTOM'')
   in displayPrice c (Fin 2) = ''Rs.2.000'' \<and>
      formatTokenPrice (displayPrice c) ''Rs.'' ''M'' 4 (Fin 2) = ''Rs.0.2000''"
  by code_simp

text \<open>The amount is rounded to thousandths before it is divided by a thousand: a price of two
  cents for a million tokens is shown as nothing for a thousand, one of 1.9996 as that of 2.\<close>

lemma price_per_thousand_loses_digits:
  "formatTokenPrice (displayPrice usd_prices) ''$'' ''K'' 4 (Fin (1/50)) = ''$0.0000'' \<and>
   formatTokenPrice (displayPrice usd_prices) ''$'' ''M'' 4 (Fin (19996/10000)) = ''$2.0000''"
  by code_simp

end
