(* ===== verification/MarketplacePage.thy ===== *)
theory MarketplacePage
  imports MarketplacePrices Machines
begin

text \<open>
  The pricing page (\<open>web/src/components/table/model-pricing/layout/PricingPage.jsx\<close> around the
  hook \<open>web/src/hooks/model-pricing/useModelPricingData.jsx\<close>): its state, its handlers and
  effects, and the address of the page, in which the filters are kept.
\<close>

section \<open>The parameters of the address\<close>

text \<open>\<open>URLSearchParams\<close>: names and values in order; a name may occur more than once.\<close>

type_synonym url_params = "(string \<times> string) list"

fun params_replace :: "string \<Rightarrow> string \<Rightarrow> url_params \<Rightarrow> url_params" where
  "params_replace k v [] = [(k, v)]"
| "params_replace k v ((j, w) # ps) =
     (if j = k then (k, v) # filter (\<lambda>(i, _). i \<noteq> k) ps else (j, w) # params_replace k v ps)"

definition params_delete :: "string \<Rightarrow> url_params \<Rightarrow> url_params" where
  "params_delete k ps = filter (\<lambda>(j, _). j \<noteq> k) ps"

definition params_get :: "url_params \<Rightarrow> string \<Rightarrow> string option" where
  "params_get ps k = map_of ps k"

text \<open>\<open>params.get(k) || d\<close>\<close>

definition param_or :: "url_params \<Rightarrow> string \<Rightarrow> string \<Rightarrow> string" where
  "param_or ps k d = (case params_get ps k of None \<Rightarrow> d | Some v \<Rightarrow> if v = [] then d else v)"

definition read_quota :: "url_params \<Rightarrow> jsval" where
  "read_quota ps =
     (if params_get ps ''quota'' = Some ''0'' then JNum (Fin 0)
      else if params_get ps ''quota'' = Some ''1'' then JNum (Fin 1)
      else if params_get ps ''quota'' = Some ''second'' then JStr ''second''
      else all_choice)"

definition readInitialValues :: "url_params \<Rightarrow> market_filters" where
  "readInitialValues ps =
     \<lparr>f_search = param_or ps ''q'' [], f_group = param_or ps ''group'' ''all'', f_quota = read_quota ps,
      f_endpoint = JStr (param_or ps ''endpoint'' ''all''), f_vendor = JStr (param_or ps ''vendor'' ''all''),
      f_tag = param_or ps ''tag'' ''all''\<rparr>"

definition set_param :: "string \<Rightarrow> jsval \<Rightarrow> jsval \<Rightarrow> url_params \<Rightarrow> url_params" where
  "set_param k v d ps =
     (if \<not> js_strict_eq v d \<and> v \<noteq> JUndef \<and> v \<noteq> JNull then params_replace k (text_of_value v) ps
      else params_delete k ps)"

definition SUBSCRIPTION_QUERY_KEYS :: "string list" where
  "SUBSCRIPTION_QUERY_KEYS =
     [''plan_tab'', ''plan_sort'', ''plan_series'', ''plan_page'', ''plan_size'', ''plan_view'']"

section \<open>The state\<close>

record market_page =
  mp_filters :: market_filters
  mp_group :: string
  mp_currency :: string
  mp_unit :: string
  mp_recharge :: bool
  mp_ratio_column :: bool
  mp_view :: string
  mp_page_size :: nat
  mp_page :: nat
  mp_rows :: "jsval list"
  mp_models :: "jsval list"
  mp_vendors :: "(string \<times> jsval) list"
  mp_loading :: bool
  mp_ratios :: jsval
  mp_usable :: jsval
  mp_endpoints :: jsval
  mp_auto :: jsval
  mp_detail :: "jsval option"
  mp_detail_shown :: bool
  mp_site_type :: string
  mp_url :: url_params

definition syncToUrl :: "market_page \<Rightarrow> market_page" where
  "syncToUrl s =
     (let f = mp_filters s;
          set1 = set_param ''q'' (JStr (f_search f)) (JStr []);
          set2 = set_param ''group'' (JStr (f_group f)) all_choice;
          set3 = set_param ''quota'' (f_quota f) all_choice;
          set4 = set_param ''endpoint'' (f_endpoint f) all_choice;
          set5 = set_param ''vendor'' (f_vendor f) all_choice;
          set6 = set_param ''tag'' (JStr (f_tag f)) all_choice;
          set7 = set_param ''currency'' (JStr (mp_currency s)) (JStr ''USD'');
          set8 = set_param ''unit'' (JStr (mp_unit s)) (JStr ''M'');
          set9 = set_param ''view'' (JStr (mp_view s)) (JStr ''list'')
      in s\<lparr>mp_url := fold params_delete (''tab'' # SUBSCRIPTION_QUERY_KEYS)
           (set9 (set8 (set7 (set6 (set5 (set4 (set3 (set2 (set1 (mp_url s))))))))))\<rparr>)"

section \<open>Effects\<close>

text \<open>The kind of display of the site sets the currency.\<close>

definition site_type_effect :: "market_page \<Rightarrow> market_page" where
  "site_type_effect s =
     (let t = mp_site_type s
      in if t = ''USD'' \<or> t = ''CNY'' \<or> t = ''CUSTOM'' then s\<lparr>mp_currency := t\<rparr>
         else if t = ''TOKENS'' then s\<lparr>mp_recharge := False, mp_currency := ''USD''\<rparr>
         else s)"

definition first_page :: "market_page \<Rightarrow> market_page" where
  "first_page s = s\<lparr>mp_page := 1\<rparr>"

definition url_fields :: "market_page \<Rightarrow> market_filters \<times> string \<times> string \<times> string" where
  "url_fields s = (mp_filters s, mp_currency s, mp_unit s, mp_view s)"

definition settle_page :: "market_page \<Rightarrow> market_page \<Rightarrow> market_page" where
  "settle_page s0 s =
     (let s1 = (if mp_site_type s \<noteq> mp_site_type s0 then site_type_effect s else s);
          s2 = (if mp_filters s1 \<noteq> mp_filters s0 then first_page s1 else s1)
      in if url_fields s2 \<noteq> url_fields s0 then syncToUrl s2 else s2)"

section \<open>Opening the page\<close>

definition site_display_type :: "jsval \<Rightarrow> string" where
  "site_display_type status = text_of_value (js_or (value_get status ''quota_display_type'') (JStr ''USD''))"

definition open_market :: "url_params \<Rightarrow> jsval \<Rightarrow> market_page" where
  "open_market ps status =
     (let f = readInitialValues ps;
          s = \<lparr>mp_filters = f, mp_group = f_group f, mp_currency = param_or ps ''currency'' ''USD'',
               mp_unit = param_or ps ''unit'' ''M'', mp_recharge = False, mp_ratio_column = False,
               mp_view = param_or ps ''view'' ''list'', mp_page_size = 20, mp_page = 1, mp_rows = [],
               mp_models = [], mp_vendors = [], mp_loading = True, mp_ratios = JObj [], mp_usable = JObj [],
               mp_endpoints = JObj [], mp_auto = JArr [], mp_detail = None, mp_detail_shown = False,
               mp_site_type = site_display_type status, mp_url = ps\<rparr>
      in syncToUrl (site_type_effect s))"

section \<open>Loading\<close>

text \<open>A reply: \<open>None\<close> is a request that failed.  An exception ends the function where it is
  thrown: what was set before stays set, and \<open>loading\<close> is not taken back.\<close>

definition load_started :: "market_page \<Rightarrow> market_page" where
  "load_started s = s\<lparr>mp_loading := True\<rparr>"

definition loadPricing ::
  "(string \<Rightarrow> string \<Rightarrow> int) \<Rightarrow> jsval option \<Rightarrow> market_page \<Rightarrow> market_page" where
  "loadPricing collate reply s =
     (case reply of
        None \<Rightarrow> s
      | Some data \<Rightarrow>
          if is_nullish data then s
          else if \<not> truthy (value_get data ''success'') then s\<lparr>mp_loading := False\<rparr>
          else
            let ratios = value_get data ''group_ratio'';
                s1 = s\<lparr>mp_ratios := ratios, mp_usable := value_get data ''usable_group'', mp_group := ''all''\<rparr>
            in (case vendor_map (value_get data ''vendors'') of
                  Inl _ \<Rightarrow> s1
                | Inr vs \<Rightarrow>
                    let s2 = s1\<lparr>mp_vendors := vs,
                                mp_endpoints := js_or (value_get data ''supported_endpoint'') (JObj []),
                                mp_auto := js_or (value_get data ''auto_groups'') (JArr [])\<rparr>
                    in (case setModelsFormat collate (value_get data ''data'') ratios vs of
                          Inl _ \<Rightarrow> s2
                        | Inr ms \<Rightarrow> s2\<lparr>mp_models := ms, mp_loading := False\<rparr>)))"

section \<open>Handlers\<close>

definition with_filters :: "(market_filters \<Rightarrow> market_filters) \<Rightarrow> market_page \<Rightarrow> market_page" where
  "with_filters g s = s\<lparr>mp_filters := g (mp_filters s)\<rparr>"

definition handleGroupClick :: "string \<Rightarrow> market_page \<Rightarrow> market_page" where
  "handleGroupClick g s = (with_filters (\<lambda>f. f\<lparr>f_group := g\<rparr>) s)\<lparr>mp_group := g\<rparr>"

definition resetPricingFilters :: "market_page \<Rightarrow> market_page" where
  "resetPricingFilters s =
     s\<lparr>mp_filters := \<lparr>f_search = [], f_group = ''all'', f_quota = all_choice, f_endpoint = all_choice,
          f_vendor = all_choice, f_tag = ''all''\<rparr>,
        mp_recharge := False, mp_currency := ''USD'', mp_ratio_column := False, mp_view := ''card'',
        mp_unit := ''M'', mp_page := 1\<rparr>"

datatype market_event =
    MkStatus jsval
  | MkRefresh
  | MkReply "jsval option"
  | MkSearch string
  | MkGroup string
  | MkClick choice
  | MkReset
  | MkPage nat
  | MkPageSize nat
  | MkCurrency string
  | MkRecharge bool
  | MkUnit string
  | MkRatioColumn bool
  | MkView string
  | MkRows "jsval list"
  | MkOpen jsval
  | MkClose
  | MkClosed

fun market_handler :: "(string \<Rightarrow> string \<Rightarrow> int) \<Rightarrow> market_event \<Rightarrow> market_page \<Rightarrow> market_page" where
  "market_handler collate (MkStatus status) s = s\<lparr>mp_site_type := site_display_type status\<rparr>"
| "market_handler collate MkRefresh s = load_started s"
| "market_handler collate (MkReply reply) s = loadPricing collate reply s"
| "market_handler collate (MkSearch v) s = with_filters (\<lambda>f. f\<lparr>f_search := v\<rparr>) s"
| "market_handler collate (MkGroup g) s = handleGroupClick g s"
| "market_handler collate (MkClick c) s = with_filters (click c) s"
| "market_handler collate MkReset s = resetPricingFilters s"
| "market_handler collate (MkPage n) s = s\<lparr>mp_page := n\<rparr>"
| "market_handler collate (MkPageSize n) s = s\<lparr>mp_page_size := n, mp_page := 1\<rparr>"
| "market_handler collate (MkCurrency c) s = s\<lparr>mp_currency := c\<rparr>"
| "market_handler collate (MkRecharge b) s = s\<lparr>mp_recharge := b\<rparr>"
| "market_handler collate (MkUnit u) s = s\<lparr>mp_unit := u\<rparr>"
| "market_handler collate (MkRatioColumn b) s = s\<lparr>mp_ratio_column := b\<rparr>"
| "market_handler collate (MkView v) s = s\<lparr>mp_view := v\<rparr>"
| "market_handler collate (MkRows rows) s = s\<lparr>mp_rows := rows\<rparr>"
| "market_handler collate (MkOpen m) s = s\<lparr>mp_detail := Some m, mp_detail_shown := True\<rparr>"
| "market_handler collate MkClose s = s\<lparr>mp_detail_shown := False\<rparr>"
| "market_handler collate MkClosed s = s\<lparr>mp_detail := None\<rparr>"

definition market_step :: "(string \<Rightarrow> string \<Rightarrow> int) \<Rightarrow> market_event \<Rightarrow> market_page \<Rightarrow> market_page option" where
  "market_step collate e s = Some (settle_page s (market_handler collate e s))"

definition paginatedModels :: "jsval list \<Rightarrow> market_page \<Rightarrow> jsval list" where
  "paginatedModels shown s =
     (let startIndex = (mp_page s - 1) * mp_page_size s
      in take (mp_page_size s) (drop startIndex shown))"

section \<open>The address describes the page\<close>

lemma params_get_delete: "params_get (params_delete k ps) j = (if j = k then None else params_get ps j)"
  by (induction ps) (auto simp: params_get_def params_delete_def)

lemma params_get_replace: "params_get (params_replace k v ps) j = (if j = k then Some v else params_get ps j)"
proof (induction k v ps rule: params_replace.induct)
  case (2 k v i w ps)
  then show ?case
    using params_get_delete [of k ps j] by (auto simp: params_get_def params_delete_def)
qed (simp add: params_get_def)

definition written :: "jsval \<Rightarrow> jsval \<Rightarrow> string option" where
  "written v d = (if \<not> js_strict_eq v d \<and> v \<noteq> JUndef \<and> v \<noteq> JNull then Some (text_of_value v) else None)"

lemma params_get_set: "params_get (set_param k v d ps) j = (if j = k then written v d else params_get ps j)"
  by (simp add: set_param_def written_def params_get_replace params_get_delete)

lemma synced_params:
  "params_get (mp_url (syncToUrl s)) ''q'' = written (JStr (f_search (mp_filters s))) (JStr [])"
  "params_get (mp_url (syncToUrl s)) ''group'' = written (JStr (f_group (mp_filters s))) all_choice"
  "params_get (mp_url (syncToUrl s)) ''quota'' = written (f_quota (mp_filters s)) all_choice"
  "params_get (mp_url (syncToUrl s)) ''endpoint'' = written (f_endpoint (mp_filters s)) all_choice"
  "params_get (mp_url (syncToUrl s)) ''vendor'' = written (f_vendor (mp_filters s)) all_choice"
  "params_get (mp_url (syncToUrl s)) ''tag'' = written (JStr (f_tag (mp_filters s))) all_choice"
  "params_get (mp_url (syncToUrl s)) ''currency'' = written (JStr (mp_currency s)) (JStr ''USD'')"
  "params_get (mp_url (syncToUrl s)) ''unit'' = written (JStr (mp_unit s)) (JStr ''M'')"
  "params_get (mp_url (syncToUrl s)) ''view'' = written (JStr (mp_view s)) (JStr ''list'')"
  by (simp_all add: syncToUrl_def Let_def params_get_delete params_get_set SUBSCRIPTION_QUERY_KEYS_def)

lemma written_text [simp]: "written (JStr v) (JStr d) = (if v = d then None else Some v)"
  by (simp add: written_def js_strict_eq_def)

definition filled_text :: "jsval \<Rightarrow> bool" where
  "filled_text v = (case v of JStr s \<Rightarrow> s \<noteq> [] | _ \<Rightarrow> False)"

definition plain_quota :: "jsval \<Rightarrow> bool" where
  "plain_quota q \<longleftrightarrow> q = all_choice \<or> q = JNum (Fin 0) \<or> q = JNum (Fin 1) \<or> q = JStr ''second''"

definition plain_filters :: "market_filters \<Rightarrow> bool" where
  "plain_filters f \<longleftrightarrow>
     f_group f \<noteq> [] \<and> f_tag f \<noteq> [] \<and> plain_quota (f_quota f) \<and> filled_text (f_endpoint f) \<and> filled_text (f_vendor f)"

definition plain_page :: "market_page \<Rightarrow> bool" where
  "plain_page s \<longleftrightarrow> plain_filters (mp_filters s) \<and> mp_currency s \<noteq> [] \<and> mp_unit s \<noteq> [] \<and> mp_view s \<noteq> []"

definition address_ok :: "market_page \<Rightarrow> bool" where
  "address_ok s \<longleftrightarrow>
     plain_page s \<and>
     readInitialValues (mp_url s) = mp_filters s \<and>
     param_or (mp_url s) ''currency'' ''USD'' = mp_currency s \<and>
     param_or (mp_url s) ''unit'' ''M'' = mp_unit s \<and>
     param_or (mp_url s) ''view'' ''list'' = mp_view s"

lemma text_of_small: "text_of_number (Fin 0) = ''0''" "text_of_number (Fin 1) = ''1''"
  by code_simp+

lemma quota_read_back:
  assumes "plain_quota q" "params_get ps ''quota'' = written q all_choice"
  shows "read_quota ps = q"
  using assms by (auto simp: plain_quota_def read_quota_def written_def js_strict_eq_def text_of_small
      simp del: text_of_number.simps)

lemma text_read_back: "v \<noteq> [] \<Longrightarrow> params_get ps k = written (JStr v) (JStr d) \<Longrightarrow> param_or ps k d = v"
  by (simp add: param_or_def)

lemma sync_address_ok:
  assumes "plain_page s"
  shows "address_ok (syncToUrl s)"
proof -
  obtain e v where ev: "f_endpoint (mp_filters s) = JStr e" "e \<noteq> []" "f_vendor (mp_filters s) = JStr v" "v \<noteq> []"
    using assms by (auto simp: plain_page_def plain_filters_def filled_text_def split: jsval.splits)
  have same: "mp_filters (syncToUrl s) = mp_filters s" "mp_currency (syncToUrl s) = mp_currency s"
      "mp_unit (syncToUrl s) = mp_unit s" "mp_view (syncToUrl s) = mp_view s"
    by (simp_all add: syncToUrl_def Let_def)
  have "param_or (mp_url (syncToUrl s)) ''q'' [] = f_search (mp_filters s)"
    by (simp add: param_or_def synced_params)
  then have "readInitialValues (mp_url (syncToUrl s)) = mp_filters s"
    using assms ev quota_read_back [OF _ synced_params(3)]
    by (intro market_filters.equality)
      (simp_all add: readInitialValues_def plain_page_def plain_filters_def text_read_back synced_params)
  then show ?thesis
    using assms by (simp add: address_ok_def same plain_page_def text_read_back synced_params)
qed

text \<open>Events with the values that the page offers: no choice is an empty text.\<close>

fun plain_event :: "market_event \<Rightarrow> bool" where
  "plain_event (MkGroup g) \<longleftrightarrow> g \<noteq> []"
| "plain_event (MkClick (ChooseQuota q)) \<longleftrightarrow> plain_quota q"
| "plain_event (MkClick (ChooseEndpoint e)) \<longleftrightarrow> filled_text e"
| "plain_event (MkClick (ChooseVendor v)) \<longleftrightarrow> filled_text v"
| "plain_event (MkClick (ChooseTag t)) \<longleftrightarrow> t \<noteq> []"
| "plain_event (MkCurrency c) \<longleftrightarrow> c \<noteq> []"
| "plain_event (MkUnit u) \<longleftrightarrow> u \<noteq> []"
| "plain_event (MkView v) \<longleftrightarrow> v \<noteq> []"
| "plain_event _ \<longleftrightarrow> True"

definition plain_step :: "(string \<Rightarrow> string \<Rightarrow> int) \<Rightarrow> market_event \<Rightarrow> market_page \<Rightarrow> market_page option" where
  "plain_step collate e s = (if plain_event e then market_step collate e s else None)"

lemma load_fields:
  "url_fields (loadPricing collate reply s) = url_fields s \<and> mp_url (loadPricing collate reply s) = mp_url s"
  by (auto simp: loadPricing_def url_fields_def Let_def split: option.splits sum.splits)

lemma plain_page_fields: "plain_page s \<longleftrightarrow>
   (case url_fields s of (f, c, u, v) \<Rightarrow> plain_filters f \<and> c \<noteq> [] \<and> u \<noteq> [] \<and> v \<noteq> [])"
  by (simp add: plain_page_def url_fields_def)

lemma address_ok_fields: "url_fields s = url_fields s' \<Longrightarrow> mp_url s = mp_url s' \<Longrightarrow> address_ok s \<longleftrightarrow> address_ok s'"
  by (simp add: address_ok_def plain_page_fields) (simp add: url_fields_def)

lemma handler_plain: "plain_event e \<Longrightarrow> plain_page s \<Longrightarrow> plain_page (market_handler collate e s)"
proof (cases e)
  case (MkClick c)
  then show "plain_event e \<Longrightarrow> plain_page s \<Longrightarrow> plain_page (market_handler collate e s)"
    by (cases c) (auto simp: plain_page_def plain_filters_def with_filters_def)
next
  case (MkReply r)
  then show "plain_event e \<Longrightarrow> plain_page s \<Longrightarrow> plain_page (market_handler collate e s)"
    using load_fields [of collate r s] by (simp add: plain_page_fields)
qed (auto simp: plain_page_def plain_filters_def with_filters_def handleGroupClick_def resetPricingFilters_def
    plain_quota_def filled_text_def load_started_def)

lemma handler_url: "mp_url (market_handler collate e s) = mp_url s"
  by (cases e) (use load_fields in \<open>auto simp: with_filters_def handleGroupClick_def resetPricingFilters_def load_started_def\<close>)

lemma site_type_plain: "plain_page s \<Longrightarrow> plain_page (site_type_effect s)"
  by (auto simp: site_type_effect_def plain_page_def Let_def)

lemma settle_address_ok:
  assumes "address_ok s0" "plain_page s" "mp_url s = mp_url s0"
  shows "address_ok (settle_page s0 s)"
proof -
  define s1 where "s1 = (if mp_site_type s \<noteq> mp_site_type s0 then site_type_effect s else s)"
  define s2 where "s2 = (if mp_filters s1 \<noteq> mp_filters s0 then first_page s1 else s1)"
  have "plain_page s1" using assms(2) site_type_plain by (simp add: s1_def)
  then have plain: "plain_page s2" by (auto simp: s2_def first_page_def plain_page_def)
  have "mp_url s1 = mp_url s0" using assms(3) by (simp add: s1_def site_type_effect_def Let_def)
  then have url: "mp_url s2 = mp_url s0" by (simp add: s2_def first_page_def)
  have "settle_page s0 s = (if url_fields s2 \<noteq> url_fields s0 then syncToUrl s2 else s2)"
    by (simp add: settle_page_def s1_def s2_def Let_def)
  then show ?thesis
    using sync_address_ok [OF plain] address_ok_fields [OF _ url] assms(1) by simp
qed

lemma open_address_ok: "address_ok (open_market ps status)"
proof -
  have "plain_filters (readInitialValues ps)"
    by (auto simp: plain_filters_def readInitialValues_def param_or_def read_quota_def plain_quota_def filled_text_def
        split: option.splits)
  moreover have "param_or ps k d \<noteq> []" if "d \<noteq> []" for k d using that by (simp add: param_or_def split: option.splits)
  ultimately show ?thesis
    unfolding open_market_def Let_def by (intro sync_address_ok site_type_plain) (simp add: plain_page_def)
qed

interpretation market: invariant_system "plain_step collate" "\<lambda>s. \<exists>ps status. s = open_market ps status" address_ok
  for collate
proof
  show "address_ok s'" if "address_ok s" "plain_step collate e s = Some s'" for s e s'
    using that settle_address_ok [OF that(1) handler_plain handler_url, of e collate]
    by (auto simp: plain_step_def market_step_def address_ok_def split: if_splits)
qed (auto simp: open_address_ok)

lemma plain_run:
  "list_all plain_event es \<Longrightarrow> run_events (plain_step collate) es s = run_events (market_step collate) es s"
  by (induction es arbitrary: s) (auto simp: plain_step_def market_step_def)

lemma opened_fields:
  "mp_filters (open_market ps status) = readInitialValues ps"
  "mp_unit (open_market ps status) = param_or ps ''unit'' ''M''"
  "mp_view (open_market ps status) = param_or ps ''view'' ''list''"
  by (simp_all add: open_market_def syncToUrl_def site_type_effect_def Let_def)

text \<open>
  C33: However the pricing page was opened and used - with filters and values it offers - the
  address always describes it: opening the address again gives the same search, the same
  filters, the same unit and the same view, whatever else happened to the page.
\<close>
theorem address_restores_the_page:
  assumes "run_events (market_step collate) es (open_market ps status) = Some s" "list_all plain_event es"
  shows "mp_filters (open_market (mp_url s) status2) = mp_filters s \<and>
    mp_unit (open_market (mp_url s) status2) = mp_unit s \<and> mp_view (open_market (mp_url s) status2) = mp_view s"
proof -
  have "run_events (plain_step collate) es (open_market ps status) = Some s"
    using assms by (simp add: plain_run)
  from market.inv_from_init [OF _ this] have "address_ok s" by blast
  then show ?thesis by (simp add: opened_fields address_ok_def)
qed

definition market_events :: "market_event list" where
  "market_events = [MkGroup ''vip'', MkClick (ChooseQuota (JNum (Fin 0))), MkSearch ''gpt'', MkPage 3, MkUnit ''K'']"

lemma market_events_run:
  "list_all plain_event market_events \<and>
   map_option mp_filters (run_events (market_step text_collate) market_events (open_market [(''tag'', ''chat'')] JUndef)) =
     Some \<lparr>f_search = ''gpt'', f_group = ''vip'', f_quota = JNum (Fin 0), f_endpoint = all_choice,
       f_vendor = all_choice, f_tag = ''chat''\<rparr>"
  by code_simp

lemma address_restores_the_page_witness:
  "\<exists>s. run_events (market_step text_collate) market_events (open_market [(''tag'', ''chat'')] JUndef) = Some s \<and>
    f_search (mp_filters (open_market (mp_url s) JUndef)) = ''gpt''"
proof -
  obtain s where s: "run_events (market_step text_collate) market_events (open_market [(''tag'', ''chat'')] JUndef) = Some s"
      "f_search (mp_filters s) = ''gpt''"
    using market_events_run by auto
  then show ?thesis
    using address_restores_the_page [OF s(1), of JUndef] market_events_run by auto
qed

section \<open>Where the page disagrees with itself\<close>

text \<open>The currency of the address is read, but the first effects put the one of the site over it
  and out of the address.\<close>

lemma currency_of_the_address_is_lost:
  "mp_currency (open_market [(''currency'', ''CNY'')] JUndef) = ''USD'' \<and>
   mp_url (open_market [(''currency'', ''CNY'')] JUndef) = []"
  by code_simp

text \<open>The group that filters and the group that prices part: after a reset the prices are still
  those of the group chosen before, and a page opened with a group shows the prices of the
  cheapest one once the models have come.\<close>

lemma reset_keeps_the_group_of_prices:
  "map_option (\<lambda>s. (f_group (mp_filters s), mp_group s, mp_view s))
     (run_events (market_step text_collate) [MkGroup ''vip'', MkReset] (open_market [] JUndef)) =
   Some (''all'', ''vip'', ''card'')"
  by code_simp

definition empty_reply :: jsval where
  "empty_reply = JObj [(''success'', JBool True), (''data'', JArr []), (''group_ratio'', JObj [])]"

lemma loading_forgets_the_group_of_prices:
  "map_option (\<lambda>s. (f_group (mp_filters s), mp_group s))
     (run_events (market_step text_collate) [MkReply (Some empty_reply)] (open_market [(''group'', ''vip'')] JUndef)) =
   Some (''vip'', ''all'')"
  by code_simp

text \<open>A request that fails, or a reply without models, leaves the page loading.\<close>

lemma failed_request_keeps_loading:
  "map_option mp_loading (run_events (market_step text_collate) [MkReply None] (open_market [] JUndef)) = Some True \<and>
   map_option mp_loading (run_events (market_step text_collate)
     [MkReply (Some (JObj [(''success'', JBool True), (''group_ratio'', JObj [])]))] (open_market [] JUndef)) = Some True"
  by code_simp

end
