(* ===== verification/RequestRules.thy ===== *)
theory RequestRules
  imports JsJson "HOL-Library.Monad_Syntax"
begin

text \<open>
  \<open>web/src/pages/Setting/Ratio/components/requestRuleExpr.js\<close>: the request rules of tiered
  billing.  A rule group multiplies the price when all its conditions on the request (a
  body parameter, a header, the time) hold.  The console edits groups as objects and stores
  them as an expression text \<open>(cond && cond ? 2 : 1) * (\<dots>)\<close>; this theory translates the
  builder, the parser with its regular expressions, and the functions that combine a
  billing expression with its rules and take them apart.  A regular expression becomes a
  scanner that returns its groups; where the expression is deterministic (each class
  excludes the character that follows it) the scanner reads what the expression matches.
  \<open>JSON.parse\<close> in the parser is not guarded by the source, so parsing may throw: results are
  \<^typ>\<open>'a js_result\<close>.
\<close>

section \<open>Data\<close>

datatype cond_source = SOURCE_PARAM | SOURCE_HEADER | SOURCE_TIME

datatype match_mode =
  MATCH_EQ | MATCH_CONTAINS | MATCH_GT | MATCH_GTE | MATCH_LT | MATCH_LTE | MATCH_EXISTS | MATCH_RANGE

datatype time_func = TF_hour | TF_minute | TF_weekday | TF_month | TF_day

definition TIME_FUNCS :: "time_func list" where
  "TIME_FUNCS = [TF_hour, TF_minute, TF_weekday, TF_month, TF_day]"

fun time_func_text :: "time_func \<Rightarrow> string" where
  "time_func_text TF_hour = ''hour''"
| "time_func_text TF_minute = ''minute''"
| "time_func_text TF_weekday = ''weekday''"
| "time_func_text TF_month = ''month''"
| "time_func_text TF_day = ''day''"

text \<open>
  A condition as the console edits it.  The fields of the source's two object shapes
  (\<open>path\<close> for a parameter or a header; \<open>timeFunc\<close>, \<open>timezone\<close>, \<open>rangeStart\<close>, \<open>rangeEnd\<close> for
  the time) are in one record; a field the object does not have is empty.
\<close>

record condition =
  source :: cond_source
  path :: string
  timeFunc :: time_func
  timezone :: string
  mode :: match_mode
  cvalue :: string
  rangeStart :: string
  rangeEnd :: string

record rule_group =
  conditions :: "condition list"
  multiplier :: string

definition createEmptyCondition :: condition where
  "createEmptyCondition =
     \<lparr>source = SOURCE_PARAM, path = [], timeFunc = TF_hour, timezone = [], mode = MATCH_EQ,
      cvalue = [], rangeStart = [], rangeEnd = []\<rparr>"

definition createEmptyTimeCondition :: condition where
  "createEmptyTimeCondition =
     \<lparr>source = SOURCE_TIME, path = [], timeFunc = TF_hour, timezone = ''Asia/Shanghai'',
      mode = MATCH_GTE, cvalue = [], rangeStart = [], rangeEnd = []\<rparr>"

definition createEmptyRuleGroup :: rule_group where
  "createEmptyRuleGroup = \<lparr>conditions = [createEmptyCondition], multiplier = []\<rparr>"

definition createEmptyTimeRuleGroup :: rule_group where
  "createEmptyTimeRuleGroup = \<lparr>conditions = [createEmptyTimeCondition], multiplier = []\<rparr>"

text \<open>The modes a source offers (the labels are the translator's).\<close>

definition getRequestRuleMatchOptions :: "cond_source \<Rightarrow> match_mode list" where
  "getRequestRuleMatchOptions src =
     (case src of
        SOURCE_TIME \<Rightarrow> [MATCH_EQ, MATCH_GTE, MATCH_LT, MATCH_RANGE]
      | SOURCE_HEADER \<Rightarrow> [MATCH_EQ, MATCH_CONTAINS, MATCH_EXISTS]
      | SOURCE_PARAM \<Rightarrow> [MATCH_EQ, MATCH_CONTAINS, MATCH_EXISTS,
                          MATCH_GT, MATCH_GTE, MATCH_LT, MATCH_LTE])"

definition normalizeCondition :: "condition \<Rightarrow> condition" where
  "normalizeCondition c =
     (let offered = mode c \<in> set (getRequestRuleMatchOptions (source c))
      in if source c = SOURCE_TIME
         then \<lparr>source = SOURCE_TIME, path = [], timeFunc = timeFunc c,
               timezone = (if timezone c = [] then ''Asia/Shanghai'' else timezone c),
               mode = (if offered then mode c else MATCH_GTE),
               cvalue = cvalue c, rangeStart = rangeStart c, rangeEnd = rangeEnd c\<rparr>
         else \<lparr>source = source c, path = path c, timeFunc = TF_hour, timezone = [],
               mode = (if offered then mode c else MATCH_EQ),
               cvalue = cvalue c, rangeStart = [], rangeEnd = []\<rparr>)"

section \<open>Literals\<close>

text \<open>\<open>NUMERIC_LITERAL_REGEX\<close> =
  \<^verbatim>\<open>/^-?(?:\d+\.?\d*|\.\d+)(?:[eE][+-]?\d+)?$/\<close>\<close>

definition exponent_tail_ok :: "string \<Rightarrow> bool" where
  "exponent_tail_ok s =
     (case s of
        [] \<Rightarrow> True
      | c # r \<Rightarrow>
          (c = CHR ''e'' \<or> c = CHR ''E'')
          \<and> (let r' = (case r of d # q \<Rightarrow> if d = CHR ''+'' \<or> d = CHR ''-'' then q else r | [] \<Rightarrow> r)
             in r' \<noteq> [] \<and> list_all is_digit r'))"

definition is_numeric_literal :: "string \<Rightarrow> bool" where
  "is_numeric_literal s =
     (let t = (case s of c # r \<Rightarrow> if c = CHR ''-'' then r else s | [] \<Rightarrow> s);
          ip = takeWhile is_digit t;
          r = dropWhile is_digit t
      in case r of
           c # q \<Rightarrow>
             if c = CHR ''.''
             then (ip \<noteq> [] \<or> takeWhile is_digit q \<noteq> []) \<and> exponent_tail_ok (dropWhile is_digit q)
             else ip \<noteq> [] \<and> exponent_tail_ok r
         | [] \<Rightarrow> ip \<noteq> [])"

text \<open>\<^verbatim>\<open>[\d.eE+-]\<close>, the class of the numbers inside the parser's expressions.\<close>

definition num_class :: "char \<Rightarrow> bool" where
  "num_class c \<longleftrightarrow> is_digit c \<or> c \<in> set ''.eE+-''"

definition parseExprLiteral :: "string \<Rightarrow> jsval" where
  "parseExprLiteral raw =
     (let txt = js_trim raw
      in if txt = ''true'' \<or> txt = ''false'' then JStr txt
         else if is_numeric_literal txt then JStr txt
         else (case json_parse txt of Inr v \<Rightarrow> v | Inl _ \<Rightarrow> JNull))"

definition buildExprLiteral :: "match_mode \<Rightarrow> string \<Rightarrow> string" where
  "buildExprLiteral m v =
     (let txt = js_trim v
      in if m = MATCH_CONTAINS then json_quote txt
         else if txt = ''true'' \<or> txt = ''false'' then txt
         else if is_numeric_literal txt then txt
         else json_quote txt)"

section \<open>Splitting at the top level\<close>

text \<open>
  The two splitters of the source are one scan with two separators.  \<open>d\<close> is the
  parenthesis depth, \<open>q\<close> tells whether the scan is inside a string literal, \<open>acc\<close> holds the
  current part in reverse.
\<close>

fun split_scan :: "string \<Rightarrow> string \<Rightarrow> int \<Rightarrow> bool \<Rightarrow> string \<Rightarrow> string list" where
  "split_scan sep acc d q [] = [rev acc]"
| "split_scan sep acc d q (c # cs) =
     (if q then
        (if c = CHR 0x5C then
           (case cs of [] \<Rightarrow> [rev (c # acc)] | e # es \<Rightarrow> split_scan sep (e # c # acc) d True es)
         else split_scan sep (c # acc) d (c \<noteq> CHR 0x22) cs)
      else if c = CHR 0x22 then split_scan sep (c # acc) d True cs
      else (let d' = d + (if c = CHR ''('' then 1 else 0) - (if c = CHR '')'' then 1 else 0)
            in if d' = 0 \<and> starts_with sep (c # cs)
               then rev acc # split_scan sep [] d' False (drop (length sep - 1) cs)
               else split_scan sep (c # acc) d' False cs))"

definition splitTopLevelMultiply :: "string \<Rightarrow> string list" where
  "splitTopLevelMultiply expr =
     filter_nonempty (map js_trim (split_scan '' * '' [] 0 False expr))"

definition splitTopLevelAnd :: "string \<Rightarrow> string list" where
  "splitTopLevelAnd expr =
     filter_nonempty (map js_trim (split_scan '' && '' [] 0 False expr))"

section \<open>Building expressions\<close>

definition buildTimeConditionExpr :: "condition \<Rightarrow> string" where
  "buildTimeConditionExpr cond =
     (let n = normalizeCondition cond;
          fn = time_func_text (timeFunc n) @ ''('' @ json_quote (timezone n) @ '')''
      in if mode n = MATCH_RANGE
         then (let s = js_trim (rangeStart n); e = js_trim (rangeEnd n)
               in if \<not> is_numeric_literal s \<or> \<not> is_numeric_literal e then []
                  else fn @ '' >= '' @ s @ '' || '' @ fn @ '' < '' @ e)
         else (let v = js_trim (cvalue n)
               in if \<not> is_numeric_literal v then []
                  else fn @ '' ''
                    @ (case mode n of MATCH_GTE \<Rightarrow> ''>='' | MATCH_LT \<Rightarrow> ''<'' | _ \<Rightarrow> ''=='')
                    @ '' '' @ v))"

fun compare_op :: "match_mode \<Rightarrow> string" where
  "compare_op MATCH_GT = ''>''"
| "compare_op MATCH_GTE = ''>=''"
| "compare_op MATCH_LT = ''<''"
| "compare_op MATCH_LTE = ''<=''"
| "compare_op _ = ''''"

definition buildRequestConditionExpr :: "condition \<Rightarrow> string" where
  "buildRequestConditionExpr cond =
     (if source cond = SOURCE_TIME then buildTimeConditionExpr cond
      else
        let n = normalizeCondition cond;
            p = js_trim (path n);
            header = (source n = SOURCE_HEADER);
            sourceExpr = (if header then ''header('' else ''param('') @ json_quote p @ '')'';
            lit = buildExprLiteral (mode n) (cvalue n)
        in if p = [] then []
           else if mode n = MATCH_EXISTS then
             (if header then sourceExpr @ '' != '' @ [CHR 0x22, CHR 0x22] else sourceExpr @ '' != nil'')
           else if mode n = MATCH_CONTAINS then
             (if header then ''has('' @ sourceExpr @ '', '' @ lit @ '')''
              else sourceExpr @ '' != nil && has('' @ sourceExpr @ '', '' @ lit @ '')'')
           else if mode n \<in> set [MATCH_GT, MATCH_GTE, MATCH_LT, MATCH_LTE] then
             (let v = js_trim (cvalue n)
              in if \<not> is_numeric_literal v then []
                 else sourceExpr @ '' != nil && '' @ sourceExpr @ '' '' @ compare_op (mode n) @ '' '' @ v)
           else sourceExpr @ '' == '' @ lit)"

definition wrap_or :: "string \<Rightarrow> string" where
  "wrap_or e = (if js_includes '' || '' e then ''('' @ e @ '')'' else e)"

definition buildRuleGroupFactor :: "rule_group \<Rightarrow> string" where
  "buildRuleGroupFactor g =
     (let m = js_trim (multiplier g);
          es = filter_nonempty (map buildRequestConditionExpr (conditions g))
      in if \<not> is_numeric_literal m then []
         else if es = [] then []
         else (let combined = (if length es = 1 then hd es else join '' && '' (map wrap_or es))
               in ''('' @ combined @ '' ? '' @ m @ '' : 1)''))"

definition buildRequestRuleExpr :: "rule_group list \<Rightarrow> string" where
  "buildRequestRuleExpr gs = join '' * '' (filter_nonempty (map buildRuleGroupFactor gs))"

section \<open>Parsing one condition\<close>

text \<open>\<^verbatim>\<open>([^"]+)"\<close>: the text up to the next quote, which is consumed.\<close>

definition take_path :: "string \<Rightarrow> (string \<times> string) option" where
  "take_path s =
     (let p = takeWhile (\<lambda>c. c \<noteq> CHR 0x22) s; r = dropWhile (\<lambda>c. c \<noteq> CHR 0x22) s
      in if p = [] \<or> r = [] then None else Some (p, tl r))"

text \<open>\<^verbatim>\<open>name\("([^"]+)"\)\<close>\<close>

definition take_call :: "string \<Rightarrow> string \<Rightarrow> (string \<times> string) option" where
  "take_call name s =
     do { r \<leftarrow> strip_prefix (name @ [CHR ''('', CHR 0x22]) s;
          (p, r1) \<leftarrow> take_path r;
          r2 \<leftarrow> strip_prefix '')'' r1;
          Some (p, r2) }"

text \<open>\<^verbatim>\<open>([\d.eE+-]+)\<close>\<close>

definition take_num :: "string \<Rightarrow> (string \<times> string) option" where
  "take_num s =
     (let n = takeWhile num_class s in if n = [] then None else Some (n, dropWhile num_class s))"

text \<open>\<^verbatim>\<open>"(?:[^"\\]|\\.)*"\<close>: a string token with its quotes (the dot matches no line break).\<close>

fun scan_string :: "string \<Rightarrow> (string \<times> string) option" where
  "scan_string [] = None"
| "scan_string (c # cs) =
     (if c = CHR 0x22 then Some ([c], cs)
      else if c = CHR 0x5C then
        (case cs of
           [] \<Rightarrow> None
         | e # es \<Rightarrow>
             if e = CHR 0x0A \<or> e = CHR 0x0D then None
             else map_option (\<lambda>(t, r). (c # e # t, r)) (scan_string es))
      else map_option (\<lambda>(t, r). (c # t, r)) (scan_string cs))"

definition take_string :: "string \<Rightarrow> (string \<times> string) option" where
  "take_string s =
     (case s of
        c # cs \<Rightarrow> if c = CHR 0x22 then map_option (\<lambda>(t, r). (c # t, r)) (scan_string cs) else None
      | [] \<Rightarrow> None)"

definition time_condition :: "time_func \<Rightarrow> string \<Rightarrow> match_mode \<Rightarrow> string \<Rightarrow> string \<Rightarrow> string \<Rightarrow> condition" where
  "time_condition f tz m v a b =
     \<lparr>source = SOURCE_TIME, path = [], timeFunc = f, timezone = tz, mode = m,
      cvalue = v, rangeStart = a, rangeEnd = b\<rparr>"

definition request_condition :: "cond_source \<Rightarrow> string \<Rightarrow> match_mode \<Rightarrow> string \<Rightarrow> condition" where
  "request_condition src p m v =
     \<lparr>source = src, path = p, timeFunc = TF_hour, timezone = [], mode = m,
      cvalue = v, rangeStart = [], rangeEnd = []\<rparr>"

fun first_call :: "time_func list \<Rightarrow> string \<Rightarrow> (time_func \<times> string \<times> string) option" where
  "first_call [] s = None"
| "first_call (f # fs) s =
     (case take_call (time_func_text f) s of
        Some (tz, r) \<Rightarrow> Some (f, tz, r)
      | None \<Rightarrow> first_call fs s)"

text \<open>\<^verbatim>\<open>f("tz") >= s || f("tz") < e\<close> over the whole text; the second call repeats the first.\<close>

definition match_time_range :: "string \<Rightarrow> condition option" where
  "match_time_range s =
     do { (f, tz, r) \<leftarrow> first_call TIME_FUNCS s;
          r1 \<leftarrow> strip_prefix '' >= '' r;
          (a, r2) \<leftarrow> take_num r1;
          r3 \<leftarrow> strip_prefix ('' || '' @ time_func_text f @ [CHR ''('', CHR 0x22] @ tz
                                 @ [CHR 0x22, CHR '')''] @ '' < '') r2;
          (b, r4) \<leftarrow> take_num r3;
          if r4 = [] then Some (time_condition f tz MATCH_RANGE [] a b) else None }"

definition match_wrapped_range :: "string \<Rightarrow> condition option" where
  "match_wrapped_range s =
     do { r \<leftarrow> strip_prefix ''('' s; b \<leftarrow> strip_suffix '')'' r; match_time_range b }"

fun first_op :: "(string \<times> match_mode) list \<Rightarrow> string \<Rightarrow> (match_mode \<times> string) option" where
  "first_op [] s = None"
| "first_op ((t, m) # ops) s =
     (case strip_prefix ('' '' @ t @ '' '') s of Some r \<Rightarrow> Some (m, r) | None \<Rightarrow> first_op ops s)"

definition match_time_simple :: "string \<Rightarrow> condition option" where
  "match_time_simple s =
     do { (f, tz, r) \<leftarrow> first_call TIME_FUNCS s;
          (m, r1) \<leftarrow> first_op [(''=='', MATCH_EQ), (''>='', MATCH_GTE), (''<'', MATCH_LT)] r;
          (v, r2) \<leftarrow> take_num r1;
          if r2 = [] then Some (time_condition f tz m v [] []) else None }"

definition tryParseTimeCondition :: "string \<Rightarrow> condition option" where
  "tryParseTimeCondition expr =
     (case match_time_range expr of Some c \<Rightarrow> Some c | None \<Rightarrow>
      case match_wrapped_range expr of Some c \<Rightarrow> Some c | None \<Rightarrow> match_time_simple expr)"

definition match_header_exists :: "string \<Rightarrow> string option" where
  "match_header_exists s =
     do { (p, r) \<leftarrow> take_call ''header'' s;
          if r = '' != '' @ [CHR 0x22, CHR 0x22] then Some p else None }"

definition match_param_exists :: "string \<Rightarrow> string option" where
  "match_param_exists s =
     do { (p, r) \<leftarrow> take_call ''param'' s; if r = '' != nil'' then Some p else None }"

text \<open>\<^verbatim>\<open>, "token")\<close> at the end of a text.\<close>

definition match_has_tail :: "string \<Rightarrow> string option" where
  "match_has_tail s =
     do { r \<leftarrow> strip_prefix '', '' s; (tok, r1) \<leftarrow> take_string r;
          if r1 = '')'' then Some tok else None }"

definition match_header_contains :: "string \<Rightarrow> (string \<times> string) option" where
  "match_header_contains s =
     do { r \<leftarrow> strip_prefix ''has('' s; (p, r1) \<leftarrow> take_call ''header'' r;
          tok \<leftarrow> match_has_tail r1; Some (p, tok) }"

definition match_param_contains :: "string \<Rightarrow> (string \<times> string \<times> string) option" where
  "match_param_contains s =
     do { (p, r) \<leftarrow> take_call ''param'' s;
          r1 \<leftarrow> strip_prefix '' != nil && has('' r;
          (p', r2) \<leftarrow> take_call ''param'' r1;
          tok \<leftarrow> match_has_tail r2; Some (p, p', tok) }"

definition match_param_compare :: "string \<Rightarrow> (string \<times> string \<times> match_mode \<times> string) option" where
  "match_param_compare s =
     do { (p, r) \<leftarrow> take_call ''param'' s;
          r1 \<leftarrow> strip_prefix '' != nil && '' r;
          (p', r2) \<leftarrow> take_call ''param'' r1;
          (m, r3) \<leftarrow> first_op [(''>'', MATCH_GT), (''>='', MATCH_GTE), (''<'', MATCH_LT), (''<='', MATCH_LTE)] r2;
          (v, r4) \<leftarrow> take_num r3;
          if r4 = [] then Some (p, p', m, v) else None }"

definition match_equals :: "string \<Rightarrow> (cond_source \<times> string \<times> string) option" where
  "match_equals s =
     do { (src, p, r) \<leftarrow> (case take_call ''param'' s of
              Some (p, r) \<Rightarrow> Some (SOURCE_PARAM, p, r)
            | None \<Rightarrow> map_option (\<lambda>(p, r). (SOURCE_HEADER, p, r)) (take_call ''header'' s));
          v \<leftarrow> strip_prefix '' == '' r;
          if v \<noteq> [] \<and> list_all (\<lambda>c. c \<noteq> CHR 0x0A \<and> c \<noteq> CHR 0x0D) v then Some (src, p, v) else None }"

text \<open>\<open>JSON.parse\<close> of a matched token, which throws when the token is not JSON.\<close>

definition contains_of_token :: "cond_source \<Rightarrow> string \<Rightarrow> string \<Rightarrow> condition option js_result" where
  "contains_of_token src p tok =
     map_sum id (\<lambda>v. Some (request_condition src p MATCH_CONTAINS (text_of_value v))) (json_parse tok)"

definition parse_equals :: "string \<Rightarrow> condition option js_result" where
  "parse_equals expr =
     (case match_equals expr of
        None \<Rightarrow> Inr None
      | Some (src, p, v) \<Rightarrow>
          (let w = parseExprLiteral v
           in Inr (if w = JNull then None
                   else Some (request_condition src p MATCH_EQ (text_of_value w)))))"

definition parse_compare :: "string \<Rightarrow> condition option js_result" where
  "parse_compare expr =
     (case match_param_compare expr of
        Some (p, p', m, v) \<Rightarrow>
          if p = p' then Inr (Some (request_condition SOURCE_PARAM p m v)) else parse_equals expr
      | None \<Rightarrow> parse_equals expr)"

definition tryParseRequestCondition :: "string \<Rightarrow> condition option js_result" where
  "tryParseRequestCondition expr =
     (case tryParseTimeCondition expr of Some c \<Rightarrow> Inr (Some c) | None \<Rightarrow>
      case match_header_exists expr of
        Some p \<Rightarrow> Inr (Some (request_condition SOURCE_HEADER p MATCH_EXISTS [])) | None \<Rightarrow>
      case match_param_exists expr of
        Some p \<Rightarrow> Inr (Some (request_condition SOURCE_PARAM p MATCH_EXISTS [])) | None \<Rightarrow>
      case match_header_contains expr of
        Some (p, tok) \<Rightarrow> contains_of_token SOURCE_HEADER p tok | None \<Rightarrow>
      (case match_param_contains expr of
         Some (p, p', tok) \<Rightarrow>
           if p = p' then contains_of_token SOURCE_PARAM p tok else parse_compare expr
       | None \<Rightarrow> parse_compare expr))"

section \<open>Parsing groups\<close>

text \<open>\<^verbatim>\<open>/^\((.+) \? ([\d.eE+-]+) : 1\)$/s\<close>\<close>

definition match_group :: "string \<Rightarrow> (string \<times> string) option" where
  "match_group s =
     do { r \<leftarrow> strip_prefix ''('' s;
          b \<leftarrow> strip_suffix '' : 1)'' r;
          let n = rev (takeWhile num_class (rev b));
          c \<leftarrow> strip_suffix '' ? '' (rev (dropWhile num_class (rev b)));
          if n = [] \<or> c = [] then None else Some (c, n) }"

definition js_cons :: "'a \<Rightarrow> 'a list option js_result \<Rightarrow> 'a list option js_result" where
  "js_cons x r = map_sum id (map_option (Cons x)) r"

fun parse_conditions :: "string list \<Rightarrow> condition list option js_result" where
  "parse_conditions [] = Inr (Some [])"
| "parse_conditions [p] =
     (case tryParseRequestCondition (js_trim p) of
        Inl e \<Rightarrow> Inl e
      | Inr None \<Rightarrow> Inr None
      | Inr (Some c) \<Rightarrow> Inr (Some [normalizeCondition c]))"
| "parse_conditions (p # q # ps) =
     (let single = (case tryParseRequestCondition (js_trim p) of
            Inl e \<Rightarrow> Inl e
          | Inr None \<Rightarrow> Inr None
          | Inr (Some c) \<Rightarrow> js_cons (normalizeCondition c) (parse_conditions (q # ps)))
      in if match_param_exists (js_trim p) = None then single
         else (case tryParseRequestCondition (js_trim p @ '' && '' @ js_trim q) of
                 Inl e \<Rightarrow> Inl e
               | Inr (Some c) \<Rightarrow> js_cons (normalizeCondition c) (parse_conditions ps)
               | Inr None \<Rightarrow> single))"

definition tryParseRuleGroupFactor :: "string \<Rightarrow> rule_group option js_result" where
  "tryParseRuleGroupFactor part =
     (case match_group part of
        None \<Rightarrow> Inr None
      | Some (c, m) \<Rightarrow>
          (case parse_conditions (splitTopLevelAnd c) of
             Inl e \<Rightarrow> Inl e
           | Inr None \<Rightarrow> Inr None
           | Inr (Some cs) \<Rightarrow>
               Inr (if cs = [] then None else Some \<lparr>conditions = cs, multiplier = m\<rparr>)))"

fun parse_groups :: "string list \<Rightarrow> rule_group list option js_result" where
  "parse_groups [] = Inr (Some [])"
| "parse_groups (p # ps) =
     (case tryParseRuleGroupFactor p of
        Inl e \<Rightarrow> Inl e
      | Inr None \<Rightarrow> Inr None
      | Inr (Some g) \<Rightarrow> js_cons g (parse_groups ps))"

definition tryParseRequestRuleExpr :: "string \<Rightarrow> rule_group list option js_result" where
  "tryParseRequestRuleExpr expr =
     (let t = js_trim expr
      in if t = [] then Inr (Some []) else parse_groups (splitTopLevelMultiply t))"

section \<open>A billing expression and its rules\<close>

fun paren_scan :: "int \<Rightarrow> string \<Rightarrow> bool" where
  "paren_scan d [] \<longleftrightarrow> d = 0"
| "paren_scan d (c # cs) \<longleftrightarrow>
     (let d' = d + (if c = CHR ''('' then 1 else 0) - (if c = CHR '')'' then 1 else 0)
      in \<not> (d' = 0 \<and> cs \<noteq> []) \<and> paren_scan d' cs)"

definition hasFullOuterParens :: "string \<Rightarrow> bool" where
  "hasFullOuterParens expr \<longleftrightarrow>
     starts_with ''('' expr \<and> ends_with '')'' expr \<and> paren_scan 0 expr"

text \<open>The loop of \<open>unwrapOuterParens\<close>; each turn removes two code units.\<close>

function unwrap_loop :: "string \<Rightarrow> string" where
  "unwrap_loop cur =
     (if hasFullOuterParens cur then unwrap_loop (js_trim (butlast (tl cur))) else cur)"
  by pat_completeness auto

lemma length_trim_le: "length (trim_by ws s) \<le> length s"
proof -
  have "length (dropWhile ws (rev (dropWhile ws s))) \<le> length (rev (dropWhile ws s))"
    by (rule length_dropWhile_le)
  also have "\<dots> \<le> length s" by (simp add: length_dropWhile_le)
  finally show ?thesis by (simp add: trim_by_def)
qed

termination unwrap_loop
proof (relation "measure length")
  fix cur
  assume "hasFullOuterParens cur"
  then obtain c cs where "cur = c # cs"
    by (cases cur) (auto simp: hasFullOuterParens_def starts_with_def)
  then show "(js_trim (butlast (tl cur)), cur) \<in> measure length"
    using length_trim_le [of js_space "butlast cs"] by simp
qed simp

declare unwrap_loop.simps [simp del]

definition unwrapOuterParens :: "string \<Rightarrow> string" where
  "unwrapOuterParens expr = unwrap_loop (js_trim expr)"

definition combineBillingExpr :: "string \<Rightarrow> string \<Rightarrow> string" where
  "combineBillingExpr baseExpr ruleExpr =
     (let base = js_trim baseExpr; rules = js_trim ruleExpr
      in if base = [] then []
         else if rules = [] then base
         else ''('' @ base @ '') * '' @ rules)"

record split_billing =
  sb_billingExpr :: string
  sb_requestRuleExpr :: string

text \<open>The loop over the parts: which are rules and which are not.\<close>

definition is_rule_part :: "string \<Rightarrow> bool js_result" where
  "is_rule_part part =
     map_sum id (\<lambda>r. case r of Some gs \<Rightarrow> gs \<noteq> [] | None \<Rightarrow> False) (tryParseRequestRuleExpr part)"

fun sort_parts :: "string list \<Rightarrow> (string list \<times> string list) js_result" where
  "sort_parts [] = Inr ([], [])"
| "sort_parts (p # ps) =
     (case is_rule_part p of
        Inl e \<Rightarrow> Inl e
      | Inr b \<Rightarrow>
          map_sum id (\<lambda>(rs, bs). if b then (p # rs, bs) else (rs, p # bs)) (sort_parts ps))"

definition splitBillingExprAndRequestRules :: "string \<Rightarrow> split_billing js_result" where
  "splitBillingExprAndRequestRules expr =
     (let t = js_trim expr;
          parts = splitTopLevelMultiply t;
          whole = \<lparr>sb_billingExpr = t, sb_requestRuleExpr = []\<rparr>
      in if t = [] then Inr \<lparr>sb_billingExpr = [], sb_requestRuleExpr = []\<rparr>
         else if length parts \<le> 1 then Inr whole
         else map_sum id
           (\<lambda>(rs, bs). if rs = [] \<or> length bs \<noteq> 1 then whole
              else \<lparr>sb_billingExpr = unwrapOuterParens (hd bs),
                    sb_requestRuleExpr = join '' * '' rs\<rparr>)
           (sort_parts parts))"

end
