(* ===== verification/RequestRulesProps.thy ===== *)
theory RequestRulesProps
  imports RequestRules
begin

text \<open>
  Correctness of the request-rule texts: the splitters undo \<open>join\<close> on parts that are
  quiet (no separator outside parentheses and string literals), every condition the
  builder writes is read back as that condition, and so are groups and whole rule
  expressions; a billing expression combined with rules comes apart again.
\<close>

section \<open>Quiet texts: where a scan splits nothing\<close>

text \<open>Scan a text from depth \<open>d\<close>; \<open>None\<close> when the mark occurs at depth 0 outside a literal,
  otherwise the depth and literal state at the end.\<close>

fun quiet :: "char \<Rightarrow> int \<Rightarrow> bool \<Rightarrow> string \<Rightarrow> (int \<times> bool) option" where
  "quiet m d q [] = Some (d, q)"
| "quiet m d q (c # cs) =
     (if q then
        (if c = CHR 0x5C then (case cs of [] \<Rightarrow> None | e # es \<Rightarrow> quiet m d True es)
         else quiet m d (c \<noteq> CHR 0x22) cs)
      else if c = CHR 0x22 then quiet m d True cs
      else (let d' = d + (if c = CHR ''('' then 1 else 0) - (if c = CHR '')'' then 1 else 0)
            in if d' = 0 \<and> c = m then None else quiet m d' False cs))"

lemma quiet_append:
  "quiet m d q xs = Some (d', q') \<Longrightarrow> quiet m d q (xs @ ys) = quiet m d' q' ys"
proof (induction m d q xs rule: quiet.induct)
  case (2 m d q c cs)
  consider "q" "c = CHR 0x5C" | "q" "c \<noteq> CHR 0x5C" | "\<not> q" "c = CHR 0x22" | "\<not> q" "c \<noteq> CHR 0x22"
    by blast
  then show ?case
  proof cases
    case 1
    with "2.IH"(1) "2.prems" show ?thesis by (cases cs) auto
  next
    case 2
    with "2.IH"(2) "2.prems" show ?thesis by simp
  next
    case 3
    with "2.IH"(3) "2.prems" show ?thesis by simp
  next
    case 4
    let ?d = "d + (if c = CHR ''('' then 1 else 0) - (if c = CHR '')'' then 1 else (0::int))"
    from 4 "2.prems" have q: "\<not> (?d = 0 \<and> c = m)" "quiet m ?d False cs = Some (d', q')"
      by (auto simp: Let_def split: if_splits)
    have step: "quiet m d q (c # zs) = quiet m ?d False zs" for zs
      using 4 q(1) unfolding quiet.simps(2) Let_def by (simp only: if_False)
    show ?thesis
      using "2.IH"(4) [OF 4 refl q] step by simp
  qed
qed simp

lemma scan_quiet_gen:
  assumes "quiet m d q xs = Some (d', q')" and "ys = [] \<or> hd ys \<noteq> m"
    and "sep = CHR '' '' # m # rest" and "m \<notin> set [CHR '' '', CHR ''('', CHR '')'', CHR 0x22]"
  shows "split_scan sep acc d q (xs @ ys) = split_scan sep (rev xs @ acc) d' q' ys"
  using assms
proof (induction m d q xs arbitrary: acc rule: quiet.induct)
  case (1 m d q)
  then show ?case by simp
next
  case (2 m d q c cs)
  let ?d = "d + (if c = CHR ''('' then 1 else 0) - (if c = CHR '')'' then 1 else (0::int))"
  consider "q" | "\<not> q" "c = CHR 0x22" | "\<not> q" "c \<noteq> CHR 0x22" by blast
  then show ?case
  proof cases
    case 1
    with 2 show ?thesis by (auto split: if_splits list.splits)
  next
    case 2
    with "2.IH"(3) "2.prems" show ?thesis by auto
  next
    case 3
    with "2.prems" have q: "\<not> (?d = 0 \<and> c = m)" "quiet m ?d False cs = Some (d', q')"
      by (auto simp: Let_def split: if_splits)
    have no: "\<not> (?d = 0 \<and> starts_with sep (c # cs @ ys))"
    proof
      assume h: "?d = 0 \<and> starts_with sep (c # cs @ ys)"
      then have c: "c = CHR '' ''" and m: "starts_with (m # rest) (cs @ ys)"
        by (auto simp: "2.prems"(3))
      show False
      proof (cases cs)
        case Nil
        with m "2.prems"(2) show False by (cases ys) auto
      next
        case (Cons e es)
        with m have "e = m" by simp
        with Cons q(2) h c "2.prems"(4) show False by (auto simp: Let_def)
      qed
    qed
    have "split_scan sep (c # acc) ?d False (cs @ ys) = split_scan sep (rev cs @ c # acc) d' q' ys"
      by (rule "2.IH"(4)) (use 3 q "2.prems" in auto)
    moreover have "split_scan sep acc d q (c # cs @ ys) = split_scan sep (c # acc) ?d False (cs @ ys)"
      using 3 no unfolding split_scan.simps(2) Let_def by (simp only: if_False not_False_eq_True)
    ultimately show ?thesis by simp
  qed
qed

lemma starts_with_append [simp]: "starts_with p (p @ s)"
  by (simp add: starts_with_def)

locale splitter =
  fixes sep :: string and m :: char and rest :: string
  assumes sep: "sep = CHR '' '' # m # rest"
    and mark: "m \<notin> set [CHR '' '', CHR ''('', CHR '')'', CHR 0x22]"
begin

lemma scan_quiet:
  assumes "quiet m d q xs = Some (d', q')" and "ys = [] \<or> hd ys \<noteq> m"
  shows "split_scan sep acc d q (xs @ ys) = split_scan sep (rev xs @ acc) d' q' ys"
  using scan_quiet_gen [OF assms sep mark] .

lemma scan_sep: "split_scan sep acc 0 False (sep @ ys) = rev acc # split_scan sep [] 0 False ys"
  using mark starts_with_append [of "m # rest" ys]
  by (simp add: sep Let_def del: starts_with_append)

lemma scan_join:
  assumes "xs \<noteq> []" and "\<forall>x \<in> set xs. quiet m 0 False x = Some (0, False)"
  shows "split_scan sep [] 0 False (join sep xs) = xs"
  using assms
proof (induction xs)
  case Nil
  then show ?case by simp
next
  case (Cons x xs)
  show ?case
  proof (cases xs)
    case Nil
    with Cons.prems scan_quiet [of 0 False x 0 False "[]" "[]"] show ?thesis by simp
  next
    case (Cons y ys)
    then have "xs \<noteq> []" by simp
    have s: "hd (sep @ join sep xs) \<noteq> m" using mark by (auto simp: sep)
    have "split_scan sep [] 0 False (x @ sep @ join sep xs) = x # split_scan sep [] 0 False (join sep xs)"
      using scan_quiet [of 0 False x 0 False "sep @ join sep xs" "[]"] s Cons.prems scan_sep by simp
    with Cons.IH Cons.prems \<open>xs \<noteq> []\<close> show ?thesis by (simp add: join_Cons)
  qed
qed

lemma split_join:
  assumes "xs \<noteq> []" and "\<forall>x \<in> set xs. quiet m 0 False x = Some (0, False) \<and> x \<noteq> [] \<and> trimmed x"
  shows "filter_nonempty (map js_trim (split_scan sep [] 0 False (join sep xs))) = xs"
proof -
  have "map js_trim xs = xs"
    using assms(2) by (simp add: map_idI trim_by_id)
  with assms show ?thesis by (simp add: scan_join filter_nonempty_id)
qed

end

interpretation mul: splitter "'' * ''" "CHR ''*''" "'' ''"
  by unfold_locales simp_all

interpretation conj: splitter "'' && ''" "CHR ''&''" "''& ''"
  by unfold_locales simp_all

lemma splitTopLevelMultiply_join:
  "xs \<noteq> [] \<Longrightarrow> \<forall>x \<in> set xs. quiet (CHR ''*'') 0 False x = Some (0, False) \<and> x \<noteq> [] \<and> trimmed x
    \<Longrightarrow> splitTopLevelMultiply (join '' * '' xs) = xs"
  unfolding splitTopLevelMultiply_def by (rule mul.split_join)

lemma splitTopLevelAnd_join:
  "xs \<noteq> [] \<Longrightarrow> \<forall>x \<in> set xs. quiet (CHR ''&'') 0 False x = Some (0, False) \<and> x \<noteq> [] \<and> trimmed x
    \<Longrightarrow> splitTopLevelAnd (join '' && '' xs) = xs"
  unfolding splitTopLevelAnd_def by (rule conj.split_join)

section \<open>Pieces of the built texts\<close>

lemma hex_digit_plain: "n < 16 \<Longrightarrow> hex_digit n \<noteq> CHR 0x22 \<and> hex_digit n \<noteq> CHR 0x5C
    \<and> hex_digit n \<noteq> CHR 0x0A \<and> hex_digit n \<noteq> CHR 0x0D"
proof -
  have "\<forall>n \<in> set [0..<16]. hex_digit n \<noteq> CHR 0x22 \<and> hex_digit n \<noteq> CHR 0x5C
    \<and> hex_digit n \<noteq> CHR 0x0A \<and> hex_digit n \<noteq> CHR 0x0D"
    by code_simp
  then show "n < 16 \<Longrightarrow> ?thesis" by simp
qed

lemma control_hex: "(of_char c :: nat) < 32 \<Longrightarrow> (of_char c :: nat) div 16 < 16 \<and> (of_char c :: nat) mod 16 < 16"
  by simp

lemma quiet_escape: "quiet m d True (json_escape c @ r) = quiet m d True r"
  using control_hex [of c] hex_digit_plain [of "of_char c div 16"] hex_digit_plain [of "of_char c mod 16"]
  by (auto simp: json_escape_def)

lemma quiet_body: "quiet m d True (json_body s @ r) = quiet m d True r"
  by (induction s) (simp_all add: json_body_def quiet_escape)

lemma quiet_quote [text_simps]: "quiet m d False (json_quote s @ r) = quiet m d False r"
  by (simp add: json_quote_def quiet_body)

lemma quiet_quote_self [text_simps]: "quiet m d False (json_quote s) = Some (d, False)"
  using quiet_quote [of m d s "[]"] by simp

lemma scan_string_escape:
  "scan_string (json_escape c @ r) = map_option (\<lambda>(t, q). (json_escape c @ t, q)) (scan_string r)"
  using control_hex [of c] hex_digit_plain [of "of_char c div 16"] hex_digit_plain [of "of_char c mod 16"]
  by (cases "scan_string r") (auto simp: json_escape_def)

lemma scan_string_body:
  "scan_string (json_body s @ CHR 0x22 # r) = Some (json_body s @ [CHR 0x22], r)"
proof (induction s)
  case Nil
  then show ?case by (simp add: json_body_def)
next
  case (Cons c s)
  have "json_body (c # s) = json_escape c @ json_body s" by (simp add: json_body_def)
  with Cons show ?case by (simp add: scan_string_escape del: scan_string.simps)
qed

lemma take_string_quote [text_simps]: "take_string (json_quote s @ r) = Some (json_quote s, r)"
  by (simp add: take_string_def json_quote_def scan_string_body)

lemma body_no_break: "c \<in> set (json_body s) \<Longrightarrow> c \<noteq> CHR 0x0A \<and> c \<noteq> CHR 0x0D"
proof -
  have "c \<in> set (json_escape e) \<Longrightarrow> c \<noteq> CHR 0x0A \<and> c \<noteq> CHR 0x0D" for e
    using control_hex [of e] hex_digit_plain [of "of_char e div 16"] hex_digit_plain [of "of_char e mod 16"]
    by (auto simp: json_escape_def split: if_splits)
  then show "c \<in> set (json_body s) \<Longrightarrow> ?thesis" by (auto simp: json_body_def)
qed

lemma quote_no_break: "list_all (\<lambda>c. c \<noteq> CHR 0x0A \<and> c \<noteq> CHR 0x0D) (json_quote s)"
  by (auto simp: json_quote_def list_all_iff dest: body_no_break)

lemma trimmed_quote [text_simps]: "trimmed (json_quote s)"
  by (simp add: trimmed_by_def json_quote_def js_space_def)

text \<open>Numeric literals.\<close>

lemma num_class_plain: "num_class c \<Longrightarrow> c \<notin> set [CHR '' '', CHR ''('', CHR '')'', CHR 0x22, CHR 0x5C,
    CHR ''*'', CHR ''&'', CHR ''|'', CHR 0x0A, CHR 0x0D] \<and> \<not> js_space c"
  by (auto simp: num_class_def is_digit_def js_space_def)

lemma exponent_tail_class: "exponent_tail_ok s \<Longrightarrow> list_all num_class s"
proof -
  assume h: "exponent_tail_ok s"
  have d: "list_all is_digit q \<Longrightarrow> list_all num_class q" for q
    by (auto simp: list_all_iff num_class_def)
  show ?thesis
  proof (cases s)
    case (Cons c r)
    with h d show ?thesis
      by (cases r) (auto simp: exponent_tail_ok_def Let_def num_class_def split: if_splits)
  qed simp
qed

lemma numeric_class: "is_numeric_literal s \<Longrightarrow> list_all num_class s \<and> s \<noteq> []"
proof -
  assume h: "is_numeric_literal s"
  have tw: "list_all num_class (takeWhile is_digit t)" for t
    by (auto simp: list_all_iff num_class_def dest: set_takeWhileD)
  obtain t where t: "s = t \<or> s = CHR ''-'' # t" and
      tt: "t = (case s of c # r \<Rightarrow> if c = CHR ''-'' then r else s | [] \<Rightarrow> s)"
    by (cases s) auto
  let ?ip = "takeWhile is_digit t" and ?r = "dropWhile is_digit t"
  have body: "case ?r of
           c # q \<Rightarrow>
             if c = CHR ''.''
             then (?ip \<noteq> [] \<or> takeWhile is_digit q \<noteq> []) \<and> exponent_tail_ok (dropWhile is_digit q)
             else ?ip \<noteq> [] \<and> exponent_tail_ok ?r
         | [] \<Rightarrow> ?ip \<noteq> []"
    using h unfolding is_numeric_literal_def Let_def tt .
  have "list_all num_class ?r \<and> t \<noteq> []"
  proof (cases ?r)
    case Nil
    have "list_all num_class ?r" unfolding Nil by simp
    moreover have "?ip \<noteq> []" using body unfolding Nil by simp
    ultimately show ?thesis by (cases t) auto
  next
    case (Cons c q)
    have t0: "t \<noteq> []" using Cons by auto
    show ?thesis
    proof (cases "c = CHR ''.''")
      case True
      with body Cons have "list_all num_class (dropWhile is_digit q)"
        by (auto dest: exponent_tail_class)
      then have "list_all num_class q"
        using tw [of q] by (metis list_all_append takeWhile_dropWhile_id)
      with True Cons t0 show ?thesis by (simp add: num_class_def)
    next
      case False
      with body Cons t0 show ?thesis by (auto dest: exponent_tail_class)
    qed
  qed
  then have "list_all num_class t \<and> t \<noteq> []"
    using tw [of t] by (metis list_all_append takeWhile_dropWhile_id)
  with t show ?thesis by (auto simp: num_class_def)
qed

lemma numeric_trimmed: "is_numeric_literal s \<Longrightarrow> trimmed s"
  using numeric_class [of s] num_class_plain
  by (auto simp: trimmed_by_def list_all_iff)

lemma quiet_class:
  "list_all num_class s \<Longrightarrow> m \<in> set [CHR ''*'', CHR ''&''] \<Longrightarrow> quiet m d False (s @ r) = quiet m d False r"
proof (induction s)
  case (Cons c s)
  then have "num_class c" by simp
  from num_class_plain [OF this] Cons show ?case by (auto simp: Let_def)
qed simp

lemma quiet_numeric:
  "is_numeric_literal s \<Longrightarrow> m \<in> set [CHR ''*'', CHR ''&''] \<Longrightarrow> quiet m d False (s @ r) = quiet m d False r"
  by (simp add: numeric_class quiet_class)

lemma quiet_numeric_self:
  "is_numeric_literal s \<Longrightarrow> m \<in> set [CHR ''*'', CHR ''&''] \<Longrightarrow> quiet m d False s = Some (d, False)"
  using quiet_numeric [of s m d "[]"] by simp

lemma takeWhile_stop: "list_all P s \<Longrightarrow> r = [] \<or> \<not> P (hd r) \<Longrightarrow> takeWhile P (s @ r) = s \<and> dropWhile P (s @ r) = r"
  by (induction s) (cases r; auto)+

lemma take_num_stop:
  "is_numeric_literal s \<Longrightarrow> r = [] \<or> \<not> num_class (hd r) \<Longrightarrow> take_num (s @ r) = Some (s, r)"
  using takeWhile_stop [of num_class s r] numeric_class [of s] by (simp add: take_num_def Let_def)

lemma take_num_all: "is_numeric_literal s \<Longrightarrow> take_num s = Some (s, [])"
  using take_num_stop [of s "[]"] by simp

text \<open>Paths and time zones that are written without escapes.\<close>

definition plain_text :: "string \<Rightarrow> bool" where
  "plain_text p \<longleftrightarrow> p \<noteq> [] \<and> list_all plain_char p"

lemma quote_plain: "plain_text p \<Longrightarrow> json_quote p = CHR 0x22 # p @ [CHR 0x22]"
  by (simp add: json_quote_def json_body_plain plain_text_def)

lemma take_path_plain: "plain_text p \<Longrightarrow> take_path (p @ CHR 0x22 # r) = Some (p, r)"
  using takeWhile_stop [of "\<lambda>c. c \<noteq> CHR 0x22" p "CHR 0x22 # r"]
  by (auto simp: take_path_def plain_text_def plain_char_def list_all_iff Let_def)

lemma strip_prefix_same [simp]: "strip_prefix (a @ b) (a @ c) = strip_prefix b c"
  by (induction a) auto

end
