(* ===== verification/RequestRoundtrip.thy ===== *)
theory RequestRoundtrip
  imports RequestRulesProps
begin

text \<open>
  Round trips of the request rules (\<open>requestRuleExpr.js\<close>): the condition texts the builder
  writes and how the parser reads each of them back, then groups, whole rule expressions,
  and billing expressions combined with rules.
\<close>

section \<open>Canonical conditions\<close>

text \<open>
  The conditions the console produces once normalized and filled in: paths and time
  zones that \<open>JSON.stringify\<close> writes without escapes, values in the form their mode
  stores them.
\<close>

definition canonical_time :: "condition \<Rightarrow> bool" where
  "canonical_time c \<longleftrightarrow>
     plain_text (timezone c)
     \<and> (if mode c = MATCH_RANGE
         then cvalue c = [] \<and> is_numeric_literal (rangeStart c) \<and> is_numeric_literal (rangeEnd c)
         else is_numeric_literal (cvalue c) \<and> rangeStart c = [] \<and> rangeEnd c = [])"

definition canonical_request :: "condition \<Rightarrow> bool" where
  "canonical_request c \<longleftrightarrow>
     plain_text (path c) \<and> trimmed (path c)
     \<and> (if mode c = MATCH_EXISTS then cvalue c = []
         else if mode c \<in> set [MATCH_GT, MATCH_GTE, MATCH_LT, MATCH_LTE] then is_numeric_literal (cvalue c)
         else trimmed (cvalue c))"

definition canonical :: "condition \<Rightarrow> bool" where
  "canonical c \<longleftrightarrow>
     normalizeCondition c = c
     \<and> (if source c = SOURCE_TIME then canonical_time c else canonical_request c)"

text \<open>A canonical condition is one of ten shapes.\<close>

lemma canonical_cases:
  assumes "canonical c"
  obtains
    (range) f tz a b where "c = time_condition f tz MATCH_RANGE [] a b" "plain_text tz"
      "is_numeric_literal a" "is_numeric_literal b"
  | (simple) f tz m v where "c = time_condition f tz m v [] []" "plain_text tz"
      "is_numeric_literal v" "m \<in> set [MATCH_EQ, MATCH_GTE, MATCH_LT]"
  | (hexists) p where "c = request_condition SOURCE_HEADER p MATCH_EXISTS []"
      "plain_text p" "trimmed p"
  | (pexists) p where "c = request_condition SOURCE_PARAM p MATCH_EXISTS []"
      "plain_text p" "trimmed p"
  | (hcontains) p v where "c = request_condition SOURCE_HEADER p MATCH_CONTAINS v"
      "plain_text p" "trimmed p" "trimmed v"
  | (pcontains) p v where "c = request_condition SOURCE_PARAM p MATCH_CONTAINS v"
      "plain_text p" "trimmed p" "trimmed v"
  | (compare) p m v where "c = request_condition SOURCE_PARAM p m v"
      "plain_text p" "trimmed p" "is_numeric_literal v"
      "m \<in> set [MATCH_GT, MATCH_GTE, MATCH_LT, MATCH_LTE]"
  | (heq) p v where "c = request_condition SOURCE_HEADER p MATCH_EQ v"
      "plain_text p" "trimmed p" "trimmed v"
  | (peq) p v where "c = request_condition SOURCE_PARAM p MATCH_EQ v"
      "plain_text p" "trimmed p" "trimmed v"
proof -
  obtain src p f tz m v a b where c: "c = \<lparr>source = src, path = p, timeFunc = f, timezone = tz,
      mode = m, cvalue = v, rangeStart = a, rangeEnd = b\<rparr>"
    by (cases c) auto
  show thesis
  proof (cases src)
    case SOURCE_TIME
    with assms c have "m \<in> set [MATCH_EQ, MATCH_GTE, MATCH_LT, MATCH_RANGE]" "p = []"
      by (auto simp: canonical_def normalizeCondition_def getRequestRuleMatchOptions_def Let_def
          split: if_splits)
    with SOURCE_TIME assms c range simple show ?thesis
      by (auto simp: canonical_def canonical_time_def time_condition_def)
  next
    case SOURCE_HEADER
    with assms c have "m \<in> set [MATCH_EQ, MATCH_CONTAINS, MATCH_EXISTS]"
      "f = TF_hour" "tz = []" "a = []" "b = []"
      by (auto simp: canonical_def normalizeCondition_def getRequestRuleMatchOptions_def Let_def
          split: if_splits)
    with SOURCE_HEADER assms c hexists hcontains heq show ?thesis
      by (auto simp: canonical_def canonical_request_def request_condition_def)
  next
    case SOURCE_PARAM
    with assms c have "m \<in> set [MATCH_EQ, MATCH_CONTAINS, MATCH_EXISTS, MATCH_GT, MATCH_GTE, MATCH_LT, MATCH_LTE]"
      "f = TF_hour" "tz = []" "a = []" "b = []"
      by (auto simp: canonical_def normalizeCondition_def getRequestRuleMatchOptions_def Let_def
          split: if_splits)
    with SOURCE_PARAM assms c pexists pcontains peq compare show ?thesis
      by (auto simp: canonical_def canonical_request_def request_condition_def)
  qed
qed

text \<open>The text the builder writes for each shape.\<close>

definition call_text :: "string \<Rightarrow> string \<Rightarrow> string" where
  "call_text name p = name @ [CHR ''('', CHR 0x22] @ p @ [CHR 0x22, CHR '')'']"

lemma call_text_quote: "plain_text p \<Longrightarrow> name @ ''('' @ json_quote p @ '')'' = call_text name p"
  by (simp add: quote_plain call_text_def)

lemma build_range:
  "plain_text tz \<Longrightarrow> is_numeric_literal a \<Longrightarrow> is_numeric_literal b \<Longrightarrow>
   buildRequestConditionExpr (time_condition f tz MATCH_RANGE [] a b)
     = call_text (time_func_text f) tz @ '' >= '' @ a @ '' || '' @ call_text (time_func_text f) tz @ '' < '' @ b"
  by (simp add: buildRequestConditionExpr_def buildTimeConditionExpr_def time_condition_def Let_def
      normalizeCondition_def getRequestRuleMatchOptions_def numeric_trimmed trim_by_id
      quote_plain call_text_def) (simp add: plain_text_def)

lemma build_simple:
  "plain_text tz \<Longrightarrow> is_numeric_literal v \<Longrightarrow> m \<in> set [MATCH_EQ, MATCH_GTE, MATCH_LT] \<Longrightarrow>
   buildRequestConditionExpr (time_condition f tz m v [] [])
     = call_text (time_func_text f) tz @ '' ''
       @ (case m of MATCH_GTE \<Rightarrow> ''>='' | MATCH_LT \<Rightarrow> ''<'' | _ \<Rightarrow> ''=='') @ '' '' @ v"
  by (auto simp: buildRequestConditionExpr_def buildTimeConditionExpr_def time_condition_def Let_def
      normalizeCondition_def getRequestRuleMatchOptions_def numeric_trimmed trim_by_id
      quote_plain call_text_def plain_text_def)

lemmas build_request_simps = buildRequestConditionExpr_def request_condition_def Let_def
  normalizeCondition_def getRequestRuleMatchOptions_def trim_by_id quote_plain call_text_def

lemma build_hexists:
  "plain_text p \<Longrightarrow> trimmed p \<Longrightarrow>
   buildRequestConditionExpr (request_condition SOURCE_HEADER p MATCH_EXISTS [])
     = call_text ''header'' p @ '' != '' @ [CHR 0x22, CHR 0x22]"
  by (auto simp: build_request_simps plain_text_def)

lemma build_pexists:
  "plain_text p \<Longrightarrow> trimmed p \<Longrightarrow>
   buildRequestConditionExpr (request_condition SOURCE_PARAM p MATCH_EXISTS [])
     = call_text ''param'' p @ '' != nil''"
  by (auto simp: build_request_simps plain_text_def)

lemma build_hcontains:
  "plain_text p \<Longrightarrow> trimmed p \<Longrightarrow> trimmed v \<Longrightarrow>
   buildRequestConditionExpr (request_condition SOURCE_HEADER p MATCH_CONTAINS v)
     = ''has('' @ call_text ''header'' p @ '', '' @ json_quote v @ '')''"
  by (auto simp: build_request_simps buildExprLiteral_def plain_text_def)

lemma build_pcontains:
  "plain_text p \<Longrightarrow> trimmed p \<Longrightarrow> trimmed v \<Longrightarrow>
   buildRequestConditionExpr (request_condition SOURCE_PARAM p MATCH_CONTAINS v)
     = call_text ''param'' p @ '' != nil && '' @ ''has('' @ call_text ''param'' p @ '', '' @ json_quote v @ '')''"
  by (auto simp: build_request_simps buildExprLiteral_def plain_text_def)

lemma build_compare:
  "plain_text p \<Longrightarrow> trimmed p \<Longrightarrow> is_numeric_literal v \<Longrightarrow>
   m \<in> set [MATCH_GT, MATCH_GTE, MATCH_LT, MATCH_LTE] \<Longrightarrow>
   buildRequestConditionExpr (request_condition SOURCE_PARAM p m v)
     = call_text ''param'' p @ '' != nil && '' @ call_text ''param'' p @ '' '' @ compare_op m @ '' '' @ v"
  by (auto simp: build_request_simps plain_text_def numeric_trimmed)

lemma build_eq:
  "plain_text p \<Longrightarrow> trimmed p \<Longrightarrow> src \<noteq> SOURCE_TIME \<Longrightarrow>
   buildRequestConditionExpr (request_condition src p MATCH_EQ v)
     = call_text (if src = SOURCE_HEADER then ''header'' else ''param'') p @ '' == '' @ buildExprLiteral MATCH_EQ v"
  by (cases src) (auto simp: build_request_simps plain_text_def)

lemmas build_texts = build_range build_simple build_hexists build_pexists build_hcontains
  build_pcontains build_compare build_eq

section \<open>Reading one condition back\<close>

lemma take_call_text [text_simps]:
  "plain_text p \<Longrightarrow> take_call name (call_text name p @ r) = Some (p, r)"
  by (simp add: take_call_def call_text_def take_path_plain)

lemma take_call_self: "plain_text p \<Longrightarrow> take_call name (call_text name p) = Some (p, [])"
  using take_call_text [of p name "[]"] by simp

lemma take_call_other:
  "strip_prefix (name @ [CHR ''('', CHR 0x22]) s = None \<Longrightarrow> take_call name s = None"
  by (simp add: take_call_def)

lemma first_call_text:
  "plain_text tz \<Longrightarrow> first_call TIME_FUNCS (call_text (time_func_text f) tz @ r) = Some (f, tz, r)"
proof -
  assume p: "plain_text tz"
  have o: "g \<noteq> f \<Longrightarrow> take_call (time_func_text g) (call_text (time_func_text f) tz @ r) = None" for g
    by (rule take_call_other, cases f; cases g) (simp_all add: call_text_def)
  show ?thesis
    using o p by (cases f) (simp_all add: TIME_FUNCS_def take_call_text del: time_func_text.simps)
qed

lemma first_call_none:
  "hd s \<notin> set ''hmwd'' \<or> (\<exists>r. s = CHR ''h'' # CHR ''e'' # r) \<or> (\<exists>r. s = CHR ''h'' # CHR ''a'' # r) \<or> s = []
   \<Longrightarrow> first_call TIME_FUNCS s = None"
  by (cases s) (auto simp: TIME_FUNCS_def take_call_def)

lemma num_head: "is_numeric_literal v \<Longrightarrow> v \<noteq> []"
  by (simp add: numeric_class)

lemma num_class_simps: "\<not> num_class (CHR '' '')" "\<not> num_class (CHR '')'')"
  by (simp_all add: num_class_def is_digit_def)

lemma parse_range:
  assumes "plain_text tz" "is_numeric_literal a" "is_numeric_literal b"
  shows "match_time_range (call_text (time_func_text f) tz @ '' >= '' @ a @ '' || ''
           @ call_text (time_func_text f) tz @ '' < '' @ b)
     = Some (time_condition f tz MATCH_RANGE [] a b)"
proof -
  have n: "take_num (a @ '' || '' @ r) = Some (a, '' || '' @ r)" for r
    by (rule take_num_stop) (simp_all add: assms num_class_simps)
  have s: "strip_prefix ('' || '' @ time_func_text f @ [CHR ''('', CHR 0x22] @ tz @ [CHR 0x22, CHR '')''] @ '' < '')
      ('' || '' @ call_text (time_func_text f) tz @ '' < '' @ b) = Some b"
    using strip_prefix_append [of "'' || '' @ time_func_text f @ [CHR ''('', CHR 0x22] @ tz @ [CHR 0x22, CHR '')''] @ '' < ''" b]
    by (simp add: call_text_def)
  show ?thesis
    unfolding match_time_range_def first_call_text [OF assms(1)]
    by (simp only: bind.bind_lunit case_prod_conv strip_prefix_append n s take_num_all assms)
       simp
qed

lemma parse_simple:
  assumes "plain_text tz" "is_numeric_literal v" "m \<in> set [MATCH_EQ, MATCH_GTE, MATCH_LT]"
  shows "tryParseTimeCondition (call_text (time_func_text f) tz @ '' ''
       @ (case m of MATCH_GTE \<Rightarrow> ''>='' | MATCH_LT \<Rightarrow> ''<'' | _ \<Rightarrow> ''=='') @ '' '' @ v)
     = Some (time_condition f tz m v [] [])"
proof -
  let ?s = "call_text (time_func_text f) tz @ '' ''
       @ (case m of MATCH_GTE \<Rightarrow> ''>='' | MATCH_LT \<Rightarrow> ''<'' | _ \<Rightarrow> ''=='') @ '' '' @ v"
  have r: "match_time_range ?s = None"
    unfolding match_time_range_def first_call_text [OF assms(1)]
    using assms(3) by (auto simp: take_num_all [OF assms(2)])
  have w: "match_wrapped_range ?s = None"
    by (cases f) (simp_all add: match_wrapped_range_def call_text_def)
  have q: "match_time_simple ?s = Some (time_condition f tz m v [] [])"
    unfolding match_time_simple_def first_call_text [OF assms(1)]
    using assms(3) by (auto simp: take_num_all [OF assms(2)])
  show ?thesis by (simp only: tryParseTimeCondition_def r w q option.case)
qed

lemma time_none:
  "first_call TIME_FUNCS s = None \<Longrightarrow> hd s \<noteq> CHR ''('' \<or> s = [] \<Longrightarrow> tryParseTimeCondition s = None"
  by (cases s) (auto simp: tryParseTimeCondition_def match_time_range_def match_wrapped_range_def
      match_time_simple_def)

lemma header_time_none: "tryParseTimeCondition (call_text ''header'' p @ r) = None"
  by (rule time_none, rule first_call_none) (simp_all add: call_text_def)

lemma param_time_none: "tryParseTimeCondition (call_text ''param'' p @ r) = None"
  by (rule time_none, rule first_call_none) (simp_all add: call_text_def)

lemma has_time_none: "tryParseTimeCondition (CHR ''h'' # CHR ''a'' # r) = None"
  by (rule time_none, rule first_call_none) simp_all

lemma param_not_header: "take_call ''header'' (call_text ''param'' p @ r) = None"
  by (rule take_call_other) (simp add: call_text_def)

lemma header_not_param: "take_call ''param'' (call_text ''header'' p @ r) = None"
  by (rule take_call_other) (simp add: call_text_def)

lemma has_not_call:
  "take_call ''header'' (CHR ''h'' # CHR ''a'' # r) = None"
  "take_call ''param'' (CHR ''h'' # CHR ''a'' # r) = None"
  by (simp_all add: take_call_other)

lemma call_not_has:
  "strip_prefix ''has('' (call_text ''header'' p @ r) = None"
  "strip_prefix ''has('' (call_text ''param'' p @ r) = None"
  by (simp_all add: call_text_def)

lemmas call_facts = param_not_header header_not_param call_not_has header_time_none param_time_none

lemma parse_hexists:
  assumes "plain_text p"
  shows "tryParseRequestCondition (call_text ''header'' p @ '' != '' @ [CHR 0x22, CHR 0x22])
     = Inr (Some (request_condition SOURCE_HEADER p MATCH_EXISTS []))"
  unfolding tryParseRequestCondition_def call_facts match_header_exists_def take_call_text [OF assms]
  by simp

lemma parse_pexists:
  assumes "plain_text p"
  shows "tryParseRequestCondition (call_text ''param'' p @ '' != nil'')
     = Inr (Some (request_condition SOURCE_PARAM p MATCH_EXISTS []))"
  unfolding tryParseRequestCondition_def call_facts match_header_exists_def match_param_exists_def
    take_call_text [OF assms]
  by simp

lemma has_tail: "match_has_tail ('', '' @ json_quote v @ '')'') = Some (json_quote v)"
  by (simp add: match_has_tail_def take_string_quote)

lemma contains_token: "contains_of_token src p (json_quote v)
    = Inr (Some (request_condition src p MATCH_CONTAINS v))"
  by (simp add: contains_of_token_def)

lemma parse_hcontains:
  assumes "plain_text p"
  shows "tryParseRequestCondition (''has('' @ call_text ''header'' p @ '', '' @ json_quote v @ '')'')
     = Inr (Some (request_condition SOURCE_HEADER p MATCH_CONTAINS v))"
proof -
  let ?s = "''has('' @ call_text ''header'' p @ '', '' @ json_quote v @ '')''"
  have t: "tryParseTimeCondition ?s = None" and e: "match_header_exists ?s = None"
    and f: "match_param_exists ?s = None"
    by (simp_all add: has_time_none match_header_exists_def match_param_exists_def has_not_call)
  have c: "match_header_contains ?s = Some (p, json_quote v)"
    unfolding match_header_contains_def strip_prefix_append
    by (simp only: bind.bind_lunit take_call_text [OF assms] case_prod_conv has_tail)
  show ?thesis
    by (simp only: tryParseRequestCondition_def t e f c option.case case_prod_conv contains_token)
qed

lemma parse_pcontains:
  assumes "plain_text p"
  shows "tryParseRequestCondition (call_text ''param'' p @ '' != nil && '' @ ''has('' @ call_text ''param'' p
            @ '', '' @ json_quote v @ '')'')
     = Inr (Some (request_condition SOURCE_PARAM p MATCH_CONTAINS v))"
proof -
  let ?t = "call_text ''param'' p @ '', '' @ json_quote v @ '')''"
  let ?s = "call_text ''param'' p @ '' != nil && '' @ ''has('' @ ?t"
  have e: "match_header_exists ?s = None" and f: "match_param_exists ?s = None"
    and h: "match_header_contains ?s = None"
    unfolding match_header_exists_def match_param_exists_def match_header_contains_def call_facts
      take_call_text [OF assms]
    by simp_all
  have sp: "strip_prefix '' != nil && has('' ('' != nil && '' @ ''has('' @ ?t) = Some ?t"
    by simp
  have c: "match_param_contains ?s = Some (p, p, json_quote v)"
    unfolding match_param_contains_def
    by (simp only: bind.bind_lunit take_call_text [OF assms] case_prod_conv has_tail sp)
  show ?thesis
    by (simp only: tryParseRequestCondition_def call_facts e f h c option.case case_prod_conv
        contains_token if_True simp_thms)
qed

lemma no_has: "match_param_contains s = None" if "take_call ''param'' s = Some (p, r)"
  "strip_prefix '' != nil && has('' r = None"
  using that by (simp add: match_param_contains_def)

lemma parse_compare_text:
  assumes "plain_text p" "is_numeric_literal v" "m \<in> set [MATCH_GT, MATCH_GTE, MATCH_LT, MATCH_LTE]"
  shows "tryParseRequestCondition (call_text ''param'' p @ '' != nil && '' @ call_text ''param'' p
            @ '' '' @ compare_op m @ '' '' @ v)
     = Inr (Some (request_condition SOURCE_PARAM p m v))"
proof -
  let ?t = "call_text ''param'' p @ '' '' @ compare_op m @ '' '' @ v"
  let ?s = "call_text ''param'' p @ '' != nil && '' @ ?t"
  have e: "match_header_exists ?s = None" and f: "match_param_exists ?s = None"
    and h: "match_header_contains ?s = None"
    unfolding match_header_exists_def match_param_exists_def match_header_contains_def call_facts
      take_call_text [OF assms(1)]
    by simp_all
  have g: "match_param_contains ?s = None"
    by (rule no_has, rule take_call_text [OF assms(1)]) (simp add: call_text_def)
  have o: "first_op [(''>'', MATCH_GT), (''>='', MATCH_GTE), (''<'', MATCH_LT), (''<='', MATCH_LTE)]
      ('' '' @ compare_op m @ '' '' @ v) = Some (m, v)"
    using assms(3) by auto
  have sp: "strip_prefix '' != nil && '' ('' != nil && '' @ ?t) = Some ?t"
    by (rule strip_prefix_append)
  have c: "match_param_compare ?s = Some (p, p, m, v)"
    unfolding match_param_compare_def
    by (simp only: bind.bind_lunit take_call_text [OF assms(1)] case_prod_conv o sp
        take_num_all [OF assms(2)] simp_thms if_True)
  show ?thesis
    by (simp only: tryParseRequestCondition_def call_facts e f h g c option.case case_prod_conv
        parse_compare_def if_True simp_thms)
qed

text \<open>An equality literal.\<close>

lemma literal_value:
  assumes "trimmed v"
  shows "parseExprLiteral (buildExprLiteral MATCH_EQ v) = JStr v"
proof -
  have q: "json_quote v \<noteq> ''true''" "json_quote v \<noteq> ''false''"
    by (simp_all add: json_quote_def)
  have n: "\<not> is_numeric_literal (json_quote v)"
    using numeric_class [of "json_quote v"] num_class_plain
    by (auto simp: json_quote_def)
  show ?thesis
    using assms q n
    by (simp add: parseExprLiteral_def buildExprLiteral_def Let_def trim_by_id trimmed_quote)
qed

lemma literal_plain:
  "buildExprLiteral MATCH_EQ v \<noteq> [] \<and> list_all (\<lambda>c. c \<noteq> CHR 0x0A \<and> c \<noteq> CHR 0x0D) (buildExprLiteral MATCH_EQ v)"
proof -
  have "is_numeric_literal t \<Longrightarrow> list_all (\<lambda>c. c \<noteq> CHR 0x0A \<and> c \<noteq> CHR 0x0D) t" for t
    using numeric_class [of t] num_class_plain by (auto simp: list_all_iff)
  moreover have "json_quote t \<noteq> []" for t by (simp add: json_quote_def)
  ultimately show ?thesis
    using num_head by (simp add: buildExprLiteral_def Let_def quote_no_break)
qed

lemma parse_eq:
  assumes "plain_text p" "trimmed v" "src \<noteq> SOURCE_TIME"
  shows "tryParseRequestCondition (call_text (if src = SOURCE_HEADER then ''header'' else ''param'') p
            @ '' == '' @ buildExprLiteral MATCH_EQ v)
     = Inr (Some (request_condition src p MATCH_EQ v))"
proof -
  let ?n = "if src = SOURCE_HEADER then ''header'' else ''param''"
  let ?l = "buildExprLiteral MATCH_EQ v"
  let ?s = "call_text ?n p @ '' == '' @ ?l"
  have src: "src = SOURCE_HEADER \<or> src = SOURCE_PARAM" using assms(3) by (cases src) auto
  have t: "tryParseTimeCondition ?s = None" using src by (elim disjE) (simp_all add: call_facts)
  have tc: "take_call ?n ?s = Some (p, '' == '' @ ?l)" by (rule take_call_text [OF assms(1)])
  have oth: "take_call (if src = SOURCE_HEADER then ''param'' else ''header'') ?s = None"
    using src by (elim disjE) (simp_all add: call_facts)
  have e: "match_header_exists ?s = None" and f: "match_param_exists ?s = None"
    and g: "match_param_contains ?s = None" and k: "match_param_compare ?s = None"
    using src tc oth
    by (auto simp: match_header_exists_def match_param_exists_def match_param_contains_def
        match_param_compare_def)
  have h: "match_header_contains ?s = None"
    using src unfolding match_header_contains_def
    by (elim disjE) (simp_all add: call_facts del: strip_prefix.simps)
  have sp: "strip_prefix '' == '' ('' == '' @ ?l) = Some ?l" by (rule strip_prefix_append)
  have m: "match_equals ?s = Some (src, p, ?l)"
    using src tc oth sp literal_plain [of v] unfolding match_equals_def
    by (auto simp del: append.simps strip_prefix.simps)
  have "parse_equals ?s = Inr (Some (request_condition src p MATCH_EQ v))"
    unfolding parse_equals_def m by (simp add: literal_value [OF assms(2)] Let_def)
  then show ?thesis
    by (simp only: tryParseRequestCondition_def t e f g h option.case parse_compare_def k)
qed

lemma parse_built:
  assumes "canonical c"
  shows "tryParseRequestCondition (buildRequestConditionExpr c) = Inr (Some c)"
  using assms
proof (cases rule: canonical_cases)
  case (range f tz a b)
  show ?thesis
    unfolding range(1) build_range [OF range(2-4)]
    by (simp only: tryParseRequestCondition_def tryParseTimeCondition_def parse_range [OF range(2-4)] option.case)
next
  case (simple f tz m v)
  show ?thesis
    unfolding simple(1) build_simple [OF simple(2-4)]
    by (simp only: tryParseRequestCondition_def parse_simple [OF simple(2-4)] option.case)
next
  case (hexists p)
  then show ?thesis by (simp only: build_hexists parse_hexists)
next
  case (pexists p)
  then show ?thesis by (simp only: build_pexists parse_pexists)
next
  case (hcontains p v)
  then show ?thesis by (simp only: build_hcontains parse_hcontains)
next
  case (pcontains p v)
  then show ?thesis by (simp only: build_pcontains parse_pcontains)
next
  case (compare p m v)
  then show ?thesis by (simp only: build_compare parse_compare_text)
next
  case (heq p v)
  then show ?thesis using parse_eq [of p v SOURCE_HEADER] by (simp add: build_eq)
next
  case (peq p v)
  then show ?thesis using parse_eq [of p v SOURCE_PARAM] by (simp add: build_eq)
qed

lemma parse_wrapped_range:
  assumes "canonical c" "mode c = MATCH_RANGE"
  shows "tryParseRequestCondition (''('' @ buildRequestConditionExpr c @ '')'') = Inr (Some c)"
  using assms(1)
proof (cases rule: canonical_cases)
  case (range f tz a b)
  let ?b = "call_text (time_func_text f) tz @ '' >= '' @ a @ '' || '' @ call_text (time_func_text f) tz @ '' < '' @ b"
  have n: "match_time_range (''('' @ ?b @ '')'') = None"
    unfolding match_time_range_def by (subst first_call_none) simp_all
  have sx: "strip_suffix '')'' (?b @ '')'') = Some ?b" by (rule strip_suffix_append)
  have w: "match_wrapped_range (''('' @ ?b @ '')'') = Some c"
    unfolding match_wrapped_range_def strip_prefix_append bind.bind_lunit sx
    by (simp only: bind.bind_lunit parse_range [OF range(2-4)] range(1))
  show ?thesis
    unfolding range(1) build_range [OF range(2-4)]
    using n w unfolding range(1) by (simp only: tryParseRequestCondition_def tryParseTimeCondition_def option.case)
qed (use assms(2) in \<open>auto simp: time_condition_def request_condition_def\<close>)

section \<open>Built texts are quiet\<close>

lemma quiet_plain: "list_all plain_char p \<Longrightarrow> quiet m d True (p @ r) = quiet m d True r"
  by (induction p) (auto simp: plain_char_def)

lemma quiet_call:
  assumes "plain_text p" "0 \<le> d" "m \<in> set [CHR ''*'', CHR ''&'']" "name \<in> set [''header'', ''param'', time_func_text f]"
  shows "quiet m d False (call_text name p @ r) = quiet m d False r"
proof -
  have q: "quiet k e True (p @ CHR 0x22 # z) = quiet k e False z" for k e z
    using quiet_plain [of p k e "CHR 0x22 # z"] assms(1) by (simp add: plain_text_def)
  show ?thesis
    using assms(2-4) by (cases f) (auto simp: call_text_def Let_def q)
qed

lemmas quiet_calls = quiet_call [where name = "''header''", simplified]
  quiet_call [where name = "''param''", simplified]

lemma quiet_time_call:
  "plain_text p \<Longrightarrow> 0 \<le> d \<Longrightarrow> m = CHR ''*'' \<or> m = CHR ''&'' \<Longrightarrow>
    quiet m d False (call_text (time_func_text f) p @ r) = quiet m d False r"
  using quiet_call [of p d m "time_func_text f" f] by simp

lemma quiet_literal:
  "m = CHR ''*'' \<or> m = CHR ''&'' \<Longrightarrow> quiet m d False (buildExprLiteral k v) = Some (d, False)"
  by (auto simp: buildExprLiteral_def Let_def quiet_quote_self quiet_numeric_self)

lemmas quiet_num = quiet_numeric [simplified] quiet_numeric_self [simplified]

lemma quiet_built:
  assumes "canonical c" "0 \<le> d" "m = CHR ''*'' \<or> m = CHR ''&'' \<and> 0 < d"
  shows "quiet m d False (buildRequestConditionExpr c) = Some (d, False)"
  using assms(1)
proof (cases rule: canonical_cases)
  case (range f tz a b)
  have m: "m = CHR ''*'' \<or> m = CHR ''&''" using assms(3) by auto
  show ?thesis
    unfolding range(1) build_range [OF range(2-4)] quiet_time_call [OF range(2) assms(2) m]
    using m assms(2,3) range quiet_time_call [OF range(2) assms(2) m]
    by (auto simp: Let_def quiet_num)
qed (use assms in \<open>auto simp: build_texts quiet_calls quiet_time_call quiet_num quiet_literal
      quiet_quote Let_def\<close>)

section \<open>The parts of a group's condition\<close>

text \<open>
  A comparison or a containment test on a parameter is written as two parts joined by
  \<open> && \<close>, the guard \<open>param("p") != nil\<close> and the test; every other condition is one part,
  put in parentheses by the builder when it is a time range beside other conditions.
\<close>

definition guard_text :: "string \<Rightarrow> string" where
  "guard_text p = call_text ''param'' p @ '' != nil''"

definition check_text :: "string \<Rightarrow> match_mode \<Rightarrow> string \<Rightarrow> string" where
  "check_text p m v =
     (if m = MATCH_CONTAINS then ''has('' @ call_text ''param'' p @ '', '' @ json_quote v @ '')''
      else call_text ''param'' p @ '' '' @ compare_op m @ '' '' @ v)"

definition guarded :: "condition \<Rightarrow> bool" where
  "guarded c \<longleftrightarrow> source c = SOURCE_PARAM \<and> mode c \<noteq> MATCH_EQ \<and> mode c \<noteq> MATCH_EXISTS"

definition cond_parts :: "bool \<Rightarrow> condition \<Rightarrow> string list" where
  "cond_parts multi c =
     (if guarded c then [guard_text (path c), check_text (path c) (mode c) (cvalue c)]
      else if multi \<and> mode c = MATCH_RANGE then [''('' @ buildRequestConditionExpr c @ '')'']
      else [buildRequestConditionExpr c])"

lemma guarded_simps [simp]:
  "\<not> guarded (time_condition f tz m v a b)"
  "\<not> guarded (request_condition SOURCE_HEADER p m v)"
  "guarded (request_condition SOURCE_PARAM p m v) \<longleftrightarrow> m \<noteq> MATCH_EQ \<and> m \<noteq> MATCH_EXISTS"
  by (simp_all add: guarded_def time_condition_def request_condition_def)

lemma condition_sel [simp]:
  "mode (time_condition f tz m v a b) = m" "mode (request_condition s p m v) = m"
  "path (request_condition s p m v) = p" "cvalue (request_condition s p m v) = v"
  by (simp_all add: time_condition_def request_condition_def)

lemma guarded_text:
  assumes "canonical c" "guarded c"
  shows "buildRequestConditionExpr c
    = guard_text (path c) @ '' && '' @ check_text (path c) (mode c) (cvalue c)"
  using assms(1)
proof (cases rule: canonical_cases)
  case (pcontains p v)
  then show ?thesis by (simp add: build_pcontains guard_text_def check_text_def)
next
  case (compare p m v)
  then have "m \<noteq> MATCH_CONTAINS" by auto
  with compare show ?thesis by (simp add: build_compare [OF compare(2-5)] guard_text_def check_text_def)
qed (use assms(2) in simp_all)

lemma parts_join: "canonical c \<Longrightarrow> join '' && '' (cond_parts False c) = buildRequestConditionExpr c"
  by (simp add: cond_parts_def guarded_text)

lemma range_includes:
  assumes "canonical c" "mode c = MATCH_RANGE"
  shows "js_includes '' || '' (buildRequestConditionExpr c)"
  using assms(1)
proof (cases rule: canonical_cases)
  case (range f tz a b)
  show ?thesis
    unfolding range(1) build_range [OF range(2-4)] includes_iff sublist_def
    by (rule exI [of _ "call_text (time_func_text f) tz @ '' >= '' @ a"], rule exI)
       (simp only: append_assoc)
qed (use assms(2) in auto)

lemma parts_join_multi:
  assumes "canonical c" "js_includes '' || '' (buildRequestConditionExpr c) \<longrightarrow> mode c = MATCH_RANGE"
  shows "join '' && '' (cond_parts True c) = wrap_or (buildRequestConditionExpr c)"
proof (cases "mode c = MATCH_RANGE")
  case True
  with assms(1) have "\<not> guarded c"
    by (cases rule: canonical_cases) auto
  with True assms(1) show ?thesis by (simp add: cond_parts_def wrap_or_def range_includes)
next
  case False
  with assms have "wrap_or (buildRequestConditionExpr c) = buildRequestConditionExpr c"
    by (auto simp: wrap_or_def)
  moreover have "cond_parts True c = cond_parts False c"
    using False by (simp add: cond_parts_def)
  ultimately show ?thesis using parts_join [OF assms(1)] by simp
qed

lemma built_nonempty: "canonical c \<Longrightarrow> buildRequestConditionExpr c \<noteq> []"
  by (erule canonical_cases) (simp_all add: build_texts call_text_def)

lemma trimmed_append:
  "a \<noteq> [] \<Longrightarrow> b \<noteq> [] \<Longrightarrow> \<not> js_space (hd a) \<Longrightarrow> \<not> js_space (last b) \<Longrightarrow> trimmed (a @ b)"
  by (simp add: trimmed_by_def)

lemma last_numeric: "is_numeric_literal v \<Longrightarrow> \<not> js_space (last v)"
  using numeric_trimmed [of v] num_head [of v] by (simp add: trimmed_by_def)

lemma last_literal: "\<not> js_space (last (buildExprLiteral MATCH_EQ v))"
  using last_numeric by (auto simp: buildExprLiteral_def Let_def json_quote_def js_space_def)

lemma call_head: "\<not> js_space (hd (call_text (time_func_text f) p @ r))"
  "\<not> js_space (hd (call_text ''param'' p @ r))" "\<not> js_space (hd (call_text ''header'' p @ r))"
  by (cases f; simp add: call_text_def js_space_def)+

lemma built_trimmed: "canonical c \<Longrightarrow> trimmed (buildRequestConditionExpr c)"
proof (erule canonical_cases)
  have ne: "buildExprLiteral MATCH_EQ v \<noteq> []" for v using literal_plain by blast
  {
    fix f tz a b assume r: "c = time_condition f tz MATCH_RANGE [] a b" "plain_text tz"
      "is_numeric_literal a" "is_numeric_literal b"
    show ?thesis
      using r(4) call_head(1) [of f tz] last_numeric [OF r(4)] num_head [OF r(4)]
      unfolding r(1) build_range [OF r(2-4)] by (simp add: trimmed_by_def)
  }
  {
    fix f tz m v assume r: "c = time_condition f tz m v [] []" "plain_text tz"
      "is_numeric_literal v" "m \<in> set [MATCH_EQ, MATCH_GTE, MATCH_LT]"
    show ?thesis
      using call_head(1) [of f tz] last_numeric [OF r(3)] num_head [OF r(3)]
      unfolding r(1) build_simple [OF r(2-4)] by (simp add: trimmed_by_def)
  }
  {
    fix p m v assume r: "c = request_condition SOURCE_PARAM p m v" "plain_text p" "trimmed p"
      "is_numeric_literal v" "m \<in> set [MATCH_GT, MATCH_GTE, MATCH_LT, MATCH_LTE]"
    show ?thesis
      using last_numeric [OF r(4)] num_head [OF r(4)] call_head(2)
      unfolding r(1) build_compare [OF r(2-5)] by (simp add: trimmed_by_def)
  }
  {
    fix p v assume r: "c = request_condition SOURCE_HEADER p MATCH_EQ v" "plain_text p" "trimmed p" "trimmed v"
    show ?thesis using call_head(3) ne [of v] last_literal [of v] r
      by (simp add: build_eq trimmed_by_def)
  }
  {
    fix p v assume r: "c = request_condition SOURCE_PARAM p MATCH_EQ v" "plain_text p" "trimmed p" "trimmed v"
    show ?thesis using call_head(2) ne [of v] last_literal [of v] r
      by (simp add: build_eq trimmed_by_def)
  }
qed (simp_all add: build_texts trimmed_by_def call_head, simp_all add: js_space_def)


lemma parts_quiet:
  assumes "canonical c" "x \<in> set (cond_parts multi c)"
  shows "quiet (CHR ''&'') 0 False x = Some (0, False)"
  using assms(1)
proof (cases rule: canonical_cases)
  case (range f tz a b)
  have "x = (if multi then ''('' @ buildRequestConditionExpr c @ '')'' else buildRequestConditionExpr c)"
    using assms(2) range(1) by (simp add: cond_parts_def split: if_splits)
  moreover have "quiet (CHR ''&'') 0 False (buildRequestConditionExpr c) = Some (0, False)"
    unfolding range(1) build_range [OF range(2-4)]
    using range quiet_time_call [OF range(2), of 0 "CHR ''&''"]
    by (auto simp: Let_def quiet_num)
  moreover have "quiet (CHR ''&'') 0 False (''('' @ buildRequestConditionExpr c @ '')'') = Some (0, False)"
    using quiet_append [OF quiet_built [OF assms(1), of 1 "CHR ''&''", simplified], of "'')''"]
    by (simp add: Let_def)
  ultimately show ?thesis by simp
next
  case (pcontains p v)
  with assms(2) show ?thesis
    by (auto simp: cond_parts_def guard_text_def check_text_def quiet_calls quiet_quote Let_def)
next
  case (compare p m v)
  then have "m \<noteq> MATCH_CONTAINS" by auto
  with compare assms(2) show ?thesis
    by (auto simp: cond_parts_def guard_text_def check_text_def quiet_calls quiet_num Let_def)
qed (use assms(2) in \<open>auto simp: cond_parts_def build_texts quiet_calls quiet_time_call quiet_num
      quiet_literal quiet_quote Let_def\<close>)

lemma parts_trimmed:
  assumes "canonical c" "x \<in> set (cond_parts multi c)"
  shows "x \<noteq> [] \<and> trimmed x"
proof -
  have g: "guard_text p \<noteq> [] \<and> trimmed (guard_text p)" for p
    using call_head(2) by (simp add: guard_text_def trimmed_by_def) (simp add: js_space_def)
  have "guarded c \<Longrightarrow> check_text (path c) (mode c) (cvalue c) \<noteq> [] \<and> trimmed (check_text (path c) (mode c) (cvalue c))"
    using assms(1)
  proof (cases rule: canonical_cases)
    case (pcontains p v)
    then show ?thesis by (simp add: check_text_def trimmed_by_def) (simp add: js_space_def)
  next
    case (compare p m v)
    then have "m \<noteq> MATCH_CONTAINS" by auto
    with compare show ?thesis
      using last_numeric [OF compare(4)] num_head [OF compare(4)] call_head(2)
      by (simp add: check_text_def trimmed_by_def)
  qed simp_all
  with g assms built_nonempty built_trimmed show ?thesis
    by (auto simp: cond_parts_def trimmed_by_def js_space_def split: if_splits)
qed

text \<open>What a part followed by another can be: the guard of an existence test never joins
  the part after it.\<close>

definition opens_cond :: "string \<Rightarrow> bool" where
  "opens_cond q \<longleftrightarrow>
     (\<exists>p r. plain_text p \<and> q = call_text ''param'' p @ r \<and> (starts_with '' != '' r \<or> starts_with '' == '' r))
     \<or> take_call ''param'' q = None
       \<and> (case strip_prefix ''has('' q of None \<Rightarrow> True | Some r \<Rightarrow> take_call ''param'' r = None)"

lemma opens_part:
  assumes "canonical c"
  shows "opens_cond (hd (cond_parts multi c))"
  using assms
proof (cases rule: canonical_cases)
  case (range f tz a b)
  then show ?thesis
    unfolding opens_cond_def cond_parts_def range(1) build_range [OF range(2-4)]
    by (intro disjI2) (cases f; cases multi; simp add: call_text_def take_call_other)
next
  case (simple f tz m v)
  then show ?thesis
    unfolding opens_cond_def cond_parts_def simple(1) build_simple [OF simple(2-4)]
    by (intro disjI2) (cases f; auto simp: call_text_def take_call_other)
next
  case (hcontains p v)
  then show ?thesis
    unfolding opens_cond_def
    by (intro disjI2) (simp add: cond_parts_def build_hcontains has_not_call header_not_param
        take_call_other call_text_def)
next
  case (hexists p)
  then show ?thesis unfolding opens_cond_def
    by (intro disjI2) (simp add: cond_parts_def build_hexists header_not_param call_not_has)
next
  case (heq p v)
  then show ?thesis unfolding opens_cond_def
    by (intro disjI2) (simp add: cond_parts_def build_eq header_not_param call_not_has)
next
  case (pexists p)
  then show ?thesis unfolding opens_cond_def
    by (intro disjI1 exI [of _ p] exI [of _ "'' != nil''"]) (simp add: cond_parts_def build_pexists)
next
  case (pcontains p v)
  then show ?thesis unfolding opens_cond_def
    by (intro disjI1 exI [of _ p] exI [of _ "'' != nil''"]) (simp add: cond_parts_def guard_text_def)
next
  case (compare p m v)
  then have "guarded c" by auto
  with compare show ?thesis unfolding opens_cond_def
    by (intro disjI1 exI [of _ p] exI [of _ "'' != nil''"]) (simp add: cond_parts_def guard_text_def)
next
  case (peq p v)
  then show ?thesis unfolding opens_cond_def
    by (intro disjI1 exI [of _ p] exI [of _ "'' == '' @ buildExprLiteral MATCH_EQ v"])
       (simp add: cond_parts_def build_eq)
qed

lemma guard_exists: "plain_text p \<Longrightarrow> match_param_exists (guard_text p) = Some p"
  by (simp add: match_param_exists_def guard_text_def take_call_text)

lemma guard_alone:
  assumes "plain_text p" "opens_cond q"
  shows "tryParseRequestCondition (guard_text p @ '' && '' @ q) = Inr None"
proof -
  let ?s = "call_text ''param'' p @ '' != nil && '' @ q"
  have e: "match_header_exists ?s = None" and f: "match_param_exists ?s = None"
    and h: "match_header_contains ?s = None"
    unfolding match_header_exists_def match_param_exists_def match_header_contains_def call_facts
      take_call_text [OF assms(1)]
    by simp_all
  have sp: "strip_prefix '' != nil && '' ('' != nil && '' @ q) = Some q"
    "strip_prefix '' != nil && has('' ('' != nil && '' @ q) = strip_prefix ''has('' q"
    by simp_all
  have x: "match_param_contains ?s = None \<and> match_param_compare ?s = None"
  proof -
    from assms(2) consider
        p' r where "plain_text p'" "q = call_text ''param'' p' @ r" "starts_with '' != '' r \<or> starts_with '' == '' r"
      | "take_call ''param'' q = None"
        "case strip_prefix ''has('' q of None \<Rightarrow> True | Some r \<Rightarrow> take_call ''param'' r = None"
      unfolding opens_cond_def by (elim disjE exE conjE) simp_all
    then show ?thesis
    proof cases
      case 1
      then obtain z where z: "r = '' != '' @ z \<or> r = '' == '' @ z"
        unfolding starts_with_iff prefix_def by blast
      have n: "strip_prefix ''has('' q = None" unfolding 1(2) by (rule call_not_has)
      have o: "first_op [(''>'', MATCH_GT), (''>='', MATCH_GTE), (''<'', MATCH_LT), (''<='', MATCH_LTE)] r = None"
        using z by auto
      have tq: "take_call ''param'' q = Some (p', r)" unfolding 1(2) by (rule take_call_text [OF 1(1)])
      show ?thesis
        unfolding match_param_contains_def match_param_compare_def
        by (simp only: bind.bind_lunit take_call_text [OF assms(1)] case_prod_conv sp n bind.bind_lzero tq o)
    next
      case 2
      then show ?thesis
        unfolding match_param_contains_def match_param_compare_def
        by (cases "strip_prefix ''has('' q")
           (simp_all only: bind.bind_lunit take_call_text [OF assms(1)] case_prod_conv sp bind.bind_lzero option.case)
    qed
  qed
  have k: "parse_equals ?s = Inr None"
    unfolding parse_equals_def match_equals_def take_call_text [OF assms(1)] by simp
  have s: "guard_text p @ '' && '' @ q = ?s" by (simp add: guard_text_def)
  show ?thesis
    unfolding s
    using x by (simp only: tryParseRequestCondition_def call_facts e f h option.case parse_compare_def k)
qed


lemma canonical_norm: "canonical c \<Longrightarrow> normalizeCondition c = c"
  by (simp add: canonical_def)

lemma part_not_guard:
  assumes "canonical c" "\<not> guarded c" "mode c \<noteq> MATCH_EXISTS \<or> source c \<noteq> SOURCE_PARAM"
  shows "match_param_exists (hd (cond_parts multi c)) = None"
  using assms(1)
proof (cases rule: canonical_cases)
  case (range f tz a b)
  then show ?thesis
    unfolding cond_parts_def match_param_exists_def range(1) build_range [OF range(2-4)]
    by (cases f; cases multi; simp add: call_text_def take_call_other)
next
  case (simple f tz m v)
  then show ?thesis
    unfolding cond_parts_def match_param_exists_def simple(1) build_simple [OF simple(2-4)]
    by (cases f; auto simp: call_text_def take_call_other)
next
  case (hcontains p v)
  then show ?thesis
    by (simp add: cond_parts_def build_hcontains match_param_exists_def has_not_call)
next
  case (hexists p)
  then show ?thesis
    by (simp add: cond_parts_def build_hexists match_param_exists_def header_not_param)
next
  case (heq p v)
  then show ?thesis
    by (simp add: cond_parts_def build_eq match_param_exists_def header_not_param)
next
  case (peq p v)
  then show ?thesis
    by (simp add: cond_parts_def build_eq match_param_exists_def take_call_text)
next
  case (pexists p)
  with assms(3) show ?thesis by (simp add: request_condition_def)
qed (use assms(2) in auto)

lemma guarded_plain: "canonical c \<Longrightarrow> guarded c \<Longrightarrow> plain_text (path c)"
  by (simp add: canonical_def guarded_def canonical_request_def)

lemma parse_part:
  assumes "canonical c" "\<not> guarded c"
  shows "tryParseRequestCondition (hd (cond_parts multi c)) = Inr (Some c)"
  using assms parse_built [OF assms(1)] parse_wrapped_range [OF assms(1)]
  by (simp add: cond_parts_def)

lemma parse_conditions_guard:
  assumes "canonical c" "guarded c"
  shows "parse_conditions (cond_parts multi c @ ps) = js_cons c (parse_conditions ps)"
proof -
  let ?g = "guard_text (path c)" and ?k = "check_text (path c) (mode c) (cvalue c)"
  have x: "cond_parts multi c = [?g, ?k]" using assms(2) by (simp add: cond_parts_def)
  have tg: "js_trim ?g = ?g" and tk: "js_trim ?k = ?k"
    using parts_trimmed [OF assms(1), of _ multi] x by (simp_all add: trim_by_id)
  have p: "tryParseRequestCondition (?g @ '' && '' @ ?k) = Inr (Some c)"
    using parse_built [OF assms(1)] guarded_text [OF assms] by simp
  show ?thesis
    unfolding x append.simps(2) [of ?g] append.simps(2) [of ?k] append.simps(1) [of ps]
      parse_conditions.simps Let_def tg tk p
      guard_exists [OF guarded_plain [OF assms]]
    by (simp only: option.distinct if_False sum.case option.case canonical_norm [OF assms(1)])
qed

lemma parse_conditions_single:
  assumes "canonical c" "\<not> guarded c" "ps = [] \<or> opens_cond (js_trim (hd ps))"
  shows "parse_conditions (cond_parts multi c @ ps) = js_cons c (parse_conditions ps)"
proof -
  obtain x where x: "cond_parts multi c = [x]"
    using assms(2) by (cases "multi \<and> mode c = MATCH_RANGE") (auto simp: cond_parts_def)
  have t: "js_trim x = x" using parts_trimmed [OF assms(1), of x multi] x by (simp add: trim_by_id)
  have p: "tryParseRequestCondition x = Inr (Some c)" using parse_part [OF assms(1,2), of multi] x by simp
  show ?thesis
  proof (cases ps)
    case Nil
    show ?thesis unfolding Nil x append.simps parse_conditions.simps t p
      by (simp add: canonical_norm [OF assms(1)] js_cons_def)
  next
    case (Cons q qs)
    have "match_param_exists x = None \<or> tryParseRequestCondition (x @ '' && '' @ js_trim q) = Inr None"
    proof (cases "mode c \<noteq> MATCH_EXISTS \<or> source c \<noteq> SOURCE_PARAM")
      case True
      from part_not_guard [OF assms(1,2) True, of multi] x show ?thesis by simp
    next
      case False
      from assms(1) obtain p where "plain_text p" "x = guard_text p"
      proof (cases rule: canonical_cases)
        case (pexists p)
        with that x show ?thesis by (simp add: cond_parts_def build_pexists guard_text_def)
      qed (use False in \<open>auto simp: request_condition_def time_condition_def\<close>)
      with assms(3) Cons show ?thesis using guard_alone by simp
    qed
    then show ?thesis
      unfolding Cons x append.simps(2) [of x] append.simps(1) [of "q # qs"] parse_conditions.simps
        t p Let_def
      by (elim disjE) (simp_all only: canonical_norm [OF assms(1)] sum.case option.case if_True simp_thms
          if_cancel)
  qed
qed

lemma parse_conditions_parts:
  "\<forall>c \<in> set cs. canonical c \<Longrightarrow> parse_conditions (concat (map (cond_parts multi) cs)) = Inr (Some cs)"
proof (induction cs)
  case Nil
  show ?case by simp
next
  case (Cons c cs)
  have ne: "cond_parts multi d \<noteq> []" for d by (simp add: cond_parts_def)
  let ?ps = "concat (map (cond_parts multi) cs)"
  have "?ps = [] \<or> opens_cond (js_trim (hd ?ps))"
  proof (cases cs)
    case (Cons d ds)
    then have d: "canonical d" using Cons.prems by simp
    have "hd ?ps = hd (cond_parts multi d)" using Cons ne by simp
    moreover have "trimmed (hd (cond_parts multi d))"
      using parts_trimmed [OF d] ne list.set_sel(1) by blast
    ultimately show ?thesis using opens_part [OF d] by (simp add: trim_by_id)
  qed simp
  then have "parse_conditions (cond_parts multi c @ ?ps) = js_cons c (parse_conditions ?ps)"
    using Cons.prems parse_conditions_guard parse_conditions_single by (cases "guarded c") auto
  with Cons.IH Cons.prems show ?case by (simp add: js_cons_def)
qed

section \<open>Groups and rule expressions\<close>

definition canonical_group :: "rule_group \<Rightarrow> bool" where
  "canonical_group g \<longleftrightarrow>
     is_numeric_literal (multiplier g) \<and> conditions g \<noteq> [] \<and> list_all canonical (conditions g)
     \<and> (2 \<le> length (conditions g) \<longrightarrow>
          list_all (\<lambda>c. js_includes '' || '' (buildRequestConditionExpr c) \<longrightarrow> mode c = MATCH_RANGE)
            (conditions g))"

definition group_text :: "rule_group \<Rightarrow> string" where
  "group_text g =
     join '' && '' (concat (map (cond_parts (2 \<le> length (conditions g))) (conditions g)))"

lemma join_concat:
  "\<forall>p \<in> set ps. p \<noteq> [] \<Longrightarrow> join sep (concat ps) = join sep (map (join sep) ps)"
proof (induction ps)
  case (Cons p ps)
  have j: "xs \<noteq> [] \<Longrightarrow> ys \<noteq> [] \<Longrightarrow> join sep (xs @ ys) = join sep xs @ sep @ join sep ys" for xs ys
    by (induction xs) (auto simp: join_Cons)
  show ?case
  proof (cases ps)
    case Nil
    then show ?thesis by simp
  next
    case (Cons q qs)
    with Cons.prems have "p \<noteq> []" "concat ps \<noteq> []" by simp_all
    with j Cons.IH Cons.prems Cons show ?thesis by (simp add: join_Cons)
  qed
qed simp

lemma group_combined:
  assumes "canonical_group g"
  shows "(let es = filter_nonempty (map buildRequestConditionExpr (conditions g))
     in es \<noteq> [] \<and> (if length es = 1 then hd es else join '' && '' (map wrap_or es)) = group_text g)"
proof -
  let ?cs = "conditions g"
  have can: "\<forall>c \<in> set ?cs. canonical c" and ne: "?cs \<noteq> []"
    using assms by (simp_all add: canonical_group_def list_all_iff)
  have es: "filter_nonempty (map buildRequestConditionExpr ?cs) = map buildRequestConditionExpr ?cs"
    using can built_nonempty by (intro filter_nonempty_id) auto
  have nep: "\<forall>p \<in> set (map (cond_parts b) ?cs). p \<noteq> []" for b by (auto simp: cond_parts_def)
  show ?thesis
  proof (cases "length ?cs = 1")
    case True
    then obtain c where "?cs = [c]" by (cases ?cs) auto
    with can es show ?thesis by (simp add: group_text_def Let_def parts_join)
  next
    case False
    with ne have l: "2 \<le> length ?cs" by (cases ?cs rule: remdups_adj.cases) auto
    have "map (join '' && '') (map (cond_parts True) ?cs) = map wrap_or (map buildRequestConditionExpr ?cs)"
      using can assms l parts_join_multi by (simp add: canonical_group_def list_all_iff)
    with l ne es False show ?thesis
      by (simp add: group_text_def Let_def join_concat [OF nep] del: map_map)
  qed
qed

lemma build_group:
  "canonical_group g \<Longrightarrow>
   buildRuleGroupFactor g = ''('' @ group_text g @ '' ? '' @ multiplier g @ '' : 1)''"
  using group_combined [of g]
  by (simp add: buildRuleGroupFactor_def Let_def canonical_group_def numeric_trimmed trim_by_id
      del: append.simps)


lemma group_text_nonempty: "canonical_group g \<Longrightarrow> group_text g \<noteq> []"
proof -
  assume g: "canonical_group g"
  then obtain c cs where c: "conditions g = c # cs" "canonical c"
    by (cases "conditions g") (auto simp: canonical_group_def)
  let ?b = "2 \<le> length (conditions g)"
  obtain x xs where x: "cond_parts ?b c = x # xs"
    by (cases "cond_parts ?b c") (auto simp: cond_parts_def split: if_splits)
  then have "x \<noteq> []" using parts_trimmed [OF c(2), of x ?b] by simp
  then have "join '' && '' (x # ys) \<noteq> []" for ys by (simp add: join_Cons)
  with x c(1) show ?thesis by (simp add: group_text_def)
qed

lemma match_group_text:
  assumes "is_numeric_literal m" "c \<noteq> []"
  shows "match_group (''('' @ c @ '' ? '' @ m @ '' : 1)'') = Some (c, m)"
proof -
  have m: "list_all num_class (rev m)" "m \<noteq> []" using numeric_class [OF assms(1)] by auto
  have n: "\<not> num_class (hd (rev (c @ '' ? '')))" by (simp add: num_class_simps)
  have w: "takeWhile num_class (rev (c @ '' ? '' @ m)) = rev m \<and>
      dropWhile num_class (rev (c @ '' ? '' @ m)) = rev (c @ '' ? '')"
    using takeWhile_stop [OF m(1), of "rev (c @ '' ? '')"] n by simp
  have sx: "strip_suffix '' : 1)'' (c @ '' ? '' @ m @ '' : 1)'') = Some (c @ '' ? '' @ m)"
    using strip_suffix_append [of "'' : 1)''" "c @ '' ? '' @ m"] by simp
  show ?thesis
    unfolding match_group_def strip_prefix_append bind.bind_lunit sx Let_def
    using w assms(2) m(2) by (simp only: rev_rev_ident strip_suffix_append bind.bind_lunit) simp
qed

lemma split_group_text:
  assumes "canonical_group g"
  shows "splitTopLevelAnd (group_text g)
    = concat (map (cond_parts (2 \<le> length (conditions g))) (conditions g))"
  unfolding group_text_def
proof (rule splitTopLevelAnd_join)
  obtain c cs where "conditions g = c # cs" using assms by (cases "conditions g") (auto simp: canonical_group_def)
  then show "concat (map (cond_parts (2 \<le> length (conditions g))) (conditions g)) \<noteq> []"
    by (simp add: cond_parts_def)
  show "\<forall>x\<in>set (concat (map (cond_parts (2 \<le> length (conditions g))) (conditions g))).
      quiet (CHR ''&'') 0 False x = Some (0, False) \<and> x \<noteq> [] \<and> trimmed x"
  proof (rule ballI)
    fix x
    assume "x \<in> set (concat (map (cond_parts (2 \<le> length (conditions g))) (conditions g)))"
    then obtain c where "canonical c" "x \<in> set (cond_parts (2 \<le> length (conditions g)) c)"
      using assms unfolding canonical_group_def list_all_iff by auto
    from parts_quiet [OF this] parts_trimmed [OF this]
    show "quiet (CHR ''&'') 0 False x = Some (0, False) \<and> x \<noteq> [] \<and> trimmed x" by blast
  qed
qed

lemma parse_group:
  assumes "canonical_group g"
  shows "tryParseRuleGroupFactor (buildRuleGroupFactor g) = Inr (Some g)"
proof -
  have n: "is_numeric_literal (multiplier g)" and ne: "conditions g \<noteq> []"
    and can: "\<forall>c \<in> set (conditions g). canonical c"
    using assms by (auto simp: canonical_group_def list_all_iff)
  show ?thesis
    using ne
    unfolding tryParseRuleGroupFactor_def build_group [OF assms]
      match_group_text [OF n group_text_nonempty [OF assms]]
    by (simp only: option.case case_prod_conv split_group_text [OF assms]
        parse_conditions_parts [OF can] sum.case if_False) simp
qed

lemma quiet_wrap:
  assumes "canonical c"
  shows "quiet (CHR ''*'') 1 False (wrap_or (buildRequestConditionExpr c)) = Some (1, False)"
proof -
  have "quiet (CHR ''*'') d False (buildRequestConditionExpr c) = Some (d, False)" if "0 \<le> d" for d
    using quiet_built [OF assms that] by simp
  from this [of 1] quiet_append [OF this [of 2], of "'')''"] show ?thesis
    by (simp add: wrap_or_def Let_def)
qed

lemma quiet_join:
  assumes "\<forall>x \<in> set xs. quiet m d False x = Some (d, False)" "quiet m d False sep = Some (d, False)"
  shows "quiet m d False (join sep xs) = Some (d, False)"
  using assms(1)
proof (induction xs)
  case (Cons x xs)
  have "quiet m d False (sep @ y) = quiet m d False y" for y
    by (rule quiet_append [OF assms(2)])
  moreover have "quiet m d False (x @ y) = quiet m d False y" for y
    by (rule quiet_append) (use Cons.prems in simp)
  ultimately show ?case using Cons by (simp add: join_Cons)
qed simp

lemma group_text_built:
  assumes "canonical_group g"
  shows "group_text g = (if length (conditions g) = 1 then buildRequestConditionExpr (hd (conditions g))
     else join '' && '' (map (\<lambda>c. wrap_or (buildRequestConditionExpr c)) (conditions g)))"
proof -
  have "\<forall>c \<in> set (conditions g). canonical c" "conditions g \<noteq> []"
    using assms by (auto simp: canonical_group_def list_all_iff)
  then have es: "filter_nonempty (map buildRequestConditionExpr (conditions g))
      = map buildRequestConditionExpr (conditions g)"
    using built_nonempty by (intro filter_nonempty_id) auto
  show ?thesis
    using group_combined [OF assms] \<open>conditions g \<noteq> []\<close> unfolding es
    by (auto simp: Let_def comp_def hd_map split: if_splits)
qed

lemma quiet_group:
  assumes "canonical_group g"
  shows "quiet (CHR ''*'') 0 False (buildRuleGroupFactor g) = Some (0, False)"
proof -
  have can: "\<forall>c \<in> set (conditions g). canonical c" and ne: "conditions g \<noteq> []"
    and n: "is_numeric_literal (multiplier g)"
    using assms by (auto simp: canonical_group_def list_all_iff)
  have "quiet (CHR ''*'') 1 False (group_text g) = Some (1, False)"
  proof (cases "length (conditions g) = 1")
    case True
    then have h: "canonical (hd (conditions g))" using can ne by simp
    show ?thesis
      using True quiet_built [OF h, of 1 "CHR ''*''"] group_text_built [OF assms] by simp
  next
    case False
    have "quiet (CHR ''*'') 1 False '' && '' = Some (1, False)" by (simp add: Let_def)
    with False show ?thesis
      using quiet_wrap can group_text_built [OF assms] by (auto intro!: quiet_join)
  qed
  then have "quiet (CHR ''*'') 1 False (group_text g @ '' ? '' @ multiplier g @ '' : 1)'') = Some (0, False)"
    by (simp add: quiet_append [of _ 1 False "group_text g" 1 False] quiet_numeric [OF n] Let_def)
  then show ?thesis by (simp add: build_group [OF assms] Let_def)
qed

lemma group_trimmed:
  assumes "canonical_group g"
  shows "buildRuleGroupFactor g \<noteq> [] \<and> trimmed (buildRuleGroupFactor g)"
  by (simp add: build_group [OF assms] trimmed_by_def) (simp add: js_space_def)

lemma parse_groups_built:
  "\<forall>g \<in> set gs. canonical_group g \<Longrightarrow> parse_groups (map buildRuleGroupFactor gs) = Inr (Some gs)"
  by (induction gs) (simp_all add: parse_group js_cons_def)

lemma build_rules:
  assumes "\<forall>g \<in> set gs. canonical_group g"
  shows "buildRequestRuleExpr gs = join '' * '' (map buildRuleGroupFactor gs)"
  using assms group_trimmed by (simp add: buildRequestRuleExpr_def filter_nonempty_id)

lemma trimmed_join:
  assumes "\<forall>x \<in> set xs. x \<noteq> [] \<and> trimmed x"
  shows "trimmed (join sep xs) \<and> (xs \<noteq> [] \<longrightarrow> join sep xs \<noteq> [])"
  using assms
proof (induction xs)
  case (Cons x xs)
  then have ih: "trimmed (join sep xs)" "xs \<noteq> [] \<longrightarrow> join sep xs \<noteq> []" by simp_all
  with Cons.prems show ?case by (auto simp: trimmed_by_def join_Cons)
qed (simp add: trimmed_by_def)

lemma split_rules:
  assumes "\<forall>g \<in> set gs. canonical_group g" "gs \<noteq> []"
  shows "splitTopLevelMultiply (buildRequestRuleExpr gs) = map buildRuleGroupFactor gs"
  unfolding build_rules [OF assms(1)]
  by (rule splitTopLevelMultiply_join) (use assms quiet_group group_trimmed in auto)

lemma rules_trimmed:
  assumes "\<forall>g \<in> set gs. canonical_group g"
  shows "trimmed (buildRequestRuleExpr gs) \<and> (gs \<noteq> [] \<longrightarrow> buildRequestRuleExpr gs \<noteq> [])"
  using trimmed_join [of "map buildRuleGroupFactor gs" "'' * ''"] assms group_trimmed
  by (simp add: build_rules [OF assms])

lemma parse_rules:
  assumes "\<forall>g \<in> set gs. canonical_group g"
  shows "tryParseRequestRuleExpr (buildRequestRuleExpr gs) = Inr (Some gs)"
proof (cases "gs = []")
  case True
  then show ?thesis by (simp add: buildRequestRuleExpr_def filter_nonempty_def tryParseRequestRuleExpr_def)
next
  case False
  with rules_trimmed [OF assms] split_rules [OF assms] show ?thesis
    by (simp add: tryParseRequestRuleExpr_def trim_by_id parse_groups_built assms)
qed


section \<open>Billing expressions with rules\<close>

lemma unwrap_loop_done: "\<not> hasFullOuterParens (unwrap_loop s)"
proof (induction s rule: unwrap_loop.induct)
  case (1 cur)
  then show ?case by (subst unwrap_loop.simps) auto
qed

lemma unwrap_loop_trimmed: "trimmed s \<Longrightarrow> trimmed (unwrap_loop s)"
proof (induction s rule: unwrap_loop.induct)
  case (1 cur)
  then show ?case by (subst unwrap_loop.simps) auto
qed

lemma unwrap_once:
  assumes "trimmed b" "hasFullOuterParens (''('' @ b @ '')'')" "\<not> hasFullOuterParens b"
  shows "unwrapOuterParens (''('' @ b @ '')'') = b"
proof -
  have "trimmed (''('' @ b @ '')'')" by (simp add: trimmed_by_def) (simp add: js_space_def)
  then have "unwrapOuterParens (''('' @ b @ '')'') = unwrap_loop (''('' @ b @ '')'')"
    by (simp add: unwrapOuterParens_def trim_by_id)
  also have "\<dots> = unwrap_loop b"
    using assms(1,2) by (subst unwrap_loop.simps) (simp add: trim_by_id)
  also have "\<dots> = b" using assms(3) by (subst unwrap_loop.simps) simp
  finally show ?thesis .
qed

text \<open>
  The nesting of parentheses after a text that stands inside \<open>d\<close> of them; \<open>None\<close> when the text
  closes all of them.  Parentheses in string literals count too, as they do for the unwrapping.
\<close>

fun level :: "int \<Rightarrow> string \<Rightarrow> int option" where
  "level d [] = Some d"
| "level d (c # cs) =
     (let d' = d + (if c = CHR ''('' then 1 else 0) - (if c = CHR '')'' then 1 else 0)
      in if d' \<le> 0 then None else level d' cs)"

lemma level_append: "level d (s @ r) = Option.bind (level d s) (\<lambda>e. level e r)"
  by (induction s arbitrary: d) (simp_all add: Let_def)

lemma level_wrapped: "level d s = Some e \<Longrightarrow> 0 < d \<Longrightarrow> paren_scan d (s @ '')'') \<longleftrightarrow> e = 1"
  by (induction s arbitrary: d) (auto simp: Let_def split: if_splits)

lemma level_closed: "level d s = None \<Longrightarrow> 0 < d \<Longrightarrow> \<not> paren_scan d (s @ [c])"
proof (induction s arbitrary: d)
  case (Cons a s)
  let ?d = "d + (if a = CHR ''('' then 1 else 0) - (if a = CHR '')'' then 1 else (0::int))"
  show ?case
  proof (cases "?d = 0")
    case False
    with Cons.prems have "0 < ?d" by (auto split: if_splits)
    with Cons show ?thesis by (simp add: Let_def)
  qed simp
qed simp

text \<open>
  What the base expression must satisfy: it is trimmed, its string literals are closed and its
  parentheses balance, outside of literals and over the whole text; it is not enclosed by one pair
  of parentheses (a first parenthesis is closed before the end); and it does not end like a rule.
\<close>

definition plain_base :: "string \<Rightarrow> bool" where
  "plain_base b \<longleftrightarrow>
     b \<noteq> [] \<and> trimmed b \<and> quiet (CHR ''*'') 1 False b = Some (1, False) \<and> level 1 b = Some 1
     \<and> (hd b = CHR ''('' \<longrightarrow> level 1 (butlast (tl b)) = None) \<and> \<not> ends_with '' : 1'' b"

lemma plain_base_parens:
  assumes "plain_base b"
  shows "hasFullOuterParens (''('' @ b @ '')'')" and "\<not> hasFullOuterParens b"
proof -
  have l: "level 1 b = Some 1" using assms by (simp add: plain_base_def)
  have "ends_with '')'' (''('' @ b @ '')'')" by (simp add: ends_with_def starts_with_def)
  moreover have "paren_scan 0 (''('' @ b @ '')'')" using level_wrapped [OF l] by simp
  ultimately show "hasFullOuterParens (''('' @ b @ '')'')" by (simp add: hasFullOuterParens_def starts_with_def)
  show "\<not> hasFullOuterParens b"
  proof
    assume h: "hasFullOuterParens b"
    then obtain s where b: "b = CHR ''('' # s" by (cases b) (auto simp: hasFullOuterParens_def starts_with_def split: if_splits)
    with h have "paren_scan 1 s" "s \<noteq> []" by (auto simp: hasFullOuterParens_def)
    then show False
      using assms level_closed [of 1 "butlast s" "last s"] by (simp add: plain_base_def b)
  qed
qed

lemma wrapped_quiet:
  assumes "plain_base b"
  shows "quiet (CHR ''*'') 0 False (''('' @ b @ '')'') = Some (0, False)"
  using assms by (simp add: plain_base_def quiet_append [of _ 1 False b 1 False] Let_def)

lemma wrapped_trimmed: "''('' @ b @ '')'' \<noteq> [] \<and> trimmed (''('' @ b @ '')'')"
  by (simp add: trimmed_by_def) (simp add: js_space_def)

lemma base_not_rule:
  assumes "plain_base b"
  shows "is_rule_part (''('' @ b @ '')'') = Inr False"
proof -
  let ?p = "''('' @ b @ '')''"
  have s: "splitTopLevelMultiply ?p = [?p]"
    using splitTopLevelMultiply_join [of "[?p]"] wrapped_quiet [OF assms] wrapped_trimmed [of b] by simp
  have "strip_suffix '' : 1)'' (b @ '')'') = None"
    using assms by (simp add: plain_base_def strip_suffix_def ends_with_def starts_with_def)
  then have "match_group ?p = None"
    unfolding match_group_def strip_prefix_append bind.bind_lunit by simp
  then have "tryParseRuleGroupFactor ?p = Inr None" by (simp add: tryParseRuleGroupFactor_def)
  moreover have "js_trim ?p = ?p" using wrapped_trimmed [of b] by (simp add: trim_by_id)
  ultimately have "tryParseRequestRuleExpr ?p = Inr None"
    using wrapped_trimmed [of b] s unfolding tryParseRequestRuleExpr_def Let_def
    by (simp only: if_False) simp
  then show ?thesis by (simp add: is_rule_part_def)
qed

lemma group_is_rule:
  assumes "canonical_group g"
  shows "is_rule_part (buildRuleGroupFactor g) = Inr True"
proof -
  have "buildRequestRuleExpr [g] = buildRuleGroupFactor g" using build_rules [of "[g]"] assms by simp
  with parse_rules [of "[g]"] assms show ?thesis by (simp add: is_rule_part_def)
qed

lemma sort_built:
  "\<forall>g \<in> set gs. canonical_group g \<Longrightarrow>
   sort_parts (map buildRuleGroupFactor gs) = Inr (map buildRuleGroupFactor gs, [])"
  by (induction gs) (simp_all add: group_is_rule)

lemma split_combined:
  assumes "plain_base b" "\<forall>g \<in> set gs. canonical_group g" "gs \<noteq> []"
  shows "splitBillingExprAndRequestRules (combineBillingExpr b (buildRequestRuleExpr gs))
    = Inr \<lparr>sb_billingExpr = b, sb_requestRuleExpr = buildRequestRuleExpr gs\<rparr>"
proof -
  let ?p = "''('' @ b @ '')''" and ?fs = "map buildRuleGroupFactor gs"
  have b: "b \<noteq> []" "trimmed b" using assms(1) by (simp_all add: plain_base_def)
  have r: "trimmed (buildRequestRuleExpr gs)" "buildRequestRuleExpr gs \<noteq> []"
    using rules_trimmed [OF assms(2)] assms(3) by simp_all
  have fs: "?fs \<noteq> []" using assms(3) by simp
  have e: "combineBillingExpr b (buildRequestRuleExpr gs) = join '' * '' (?p # ?fs)"
    using b r fs by (simp add: combineBillingExpr_def Let_def trim_by_id join_Cons build_rules [OF assms(2)])
  have s: "splitTopLevelMultiply (join '' * '' (?p # ?fs)) = ?p # ?fs"
    by (rule splitTopLevelMultiply_join)
       (use wrapped_quiet [OF assms(1)] wrapped_trimmed [of b] assms(2) quiet_group group_trimmed in auto)
  have t: "trimmed (join '' * '' (?p # ?fs)) \<and> join '' * '' (?p # ?fs) \<noteq> []"
    using trimmed_join [of "?p # ?fs" "'' * ''"] wrapped_trimmed [of b] assms(2) group_trimmed by auto
  have o: "sort_parts (?p # ?fs) = Inr (?fs, [?p])"
    using base_not_rule [OF assms(1)] sort_built [OF assms(2)] by simp
  have u: "unwrapOuterParens ?p = b"
    using b(2) plain_base_parens [OF assms(1)] by (rule unwrap_once)
  have l: "\<not> length (?p # ?fs) \<le> 1" using assms(3) by (cases gs) auto
  have tt: "js_trim (join '' * '' (?p # ?fs)) = join '' * '' (?p # ?fs)" using t by (simp add: trim_by_id)
  show ?thesis
    using t fs l unfolding splitBillingExprAndRequestRules_def e Let_def tt s o
    by (simp only: if_False map_sum.simps case_prod_conv id_def list.sel u build_rules [OF assms(2)])
       simp
qed

lemma normalize_idem: "normalizeCondition (normalizeCondition c) = normalizeCondition c"
  by (cases "source c") (auto simp: normalizeCondition_def Let_def getRequestRuleMatchOptions_def)

text \<open>What the parser accepts.\<close>

lemma js_cons_Some:
  "js_cons x r = Inr (Some ys) \<longleftrightarrow> (\<exists>zs. r = Inr (Some zs) \<and> ys = x # zs)"
  by (cases r) (auto simp: js_cons_def)

lemma parse_conditions_step:
  assumes "parse_conditions (p # ps) = Inr (Some cs)"
  obtains c rest cs' where "cs = normalizeCondition c # cs'" "parse_conditions rest = Inr (Some cs')"
    "length rest \<le> length ps"
proof (cases ps)
  case Nil
  with assms that [of _ "[]" "[]"] show ?thesis by (auto split: sum.splits option.splits)
next
  case (Cons q qs)
  let ?t = "\<lambda>s. tryParseRequestCondition s"
  let ?single = "(case ?t (js_trim p) of Inl e \<Rightarrow> Inl e | Inr None \<Rightarrow> Inr None
          | Inr (Some c) \<Rightarrow> js_cons (normalizeCondition c) (parse_conditions (q # qs)))"
  have single: thesis if "?single = Inr (Some cs)"
    using that \<open>\<And>rest cs' c. cs = normalizeCondition c # cs' \<Longrightarrow> parse_conditions rest = Inr (Some cs') \<Longrightarrow>
      length rest \<le> length ps \<Longrightarrow> thesis\<close> [of _ _ "q # qs"] Cons
    by (auto simp: js_cons_Some split: sum.splits option.splits)
  show ?thesis
  proof (cases "match_param_exists (js_trim p) = None")
    case True
    with assms have "?single = Inr (Some cs)" unfolding Cons parse_conditions.simps Let_def
      by (simp only: if_True simp_thms)
    then show ?thesis by (rule single)
  next
    case False
    show ?thesis
    proof (cases "?t (js_trim p @ '' && '' @ js_trim q)")
      case (Inl e)
      with assms False show ?thesis unfolding Cons parse_conditions.simps Let_def
        by (simp only: if_False sum.case) simp
    next
      case (Inr r)
      show ?thesis
      proof (cases r)
        case None
        with assms False Inr have "?single = Inr (Some cs)"
          unfolding Cons parse_conditions.simps Let_def by (simp only: if_False sum.case option.case)
        then show ?thesis by (rule single)
      next
        case (Some c)
        with assms False Inr have "js_cons (normalizeCondition c) (parse_conditions qs) = Inr (Some cs)"
          unfolding Cons parse_conditions.simps Let_def by (simp only: if_False sum.case option.case)
        with that [of c _ qs] Cons show ?thesis by (auto simp: js_cons_Some)
      qed
    qed
  qed
qed

lemma parse_conditions_normal:
  "parse_conditions ps = Inr (Some cs) \<Longrightarrow> c \<in> set cs \<Longrightarrow> normalizeCondition c = c"
proof (induction ps arbitrary: cs rule: length_induct)
  case (1 ps)
  show ?case
  proof (cases ps)
    case Nil
    with "1.prems" show ?thesis by simp
  next
    case (Cons p qs)
    with "1.prems"(1) have "parse_conditions (p # qs) = Inr (Some cs)" by simp
    then obtain c' rest cs' where "cs = normalizeCondition c' # cs'"
        "parse_conditions rest = Inr (Some cs')" "length rest \<le> length qs"
      by (rule parse_conditions_step)
    with 1 Cons show ?thesis by (auto simp: normalize_idem less_Suc_eq_le)
  qed
qed

lemma match_group_num: "match_group s = Some (c, m) \<Longrightarrow> m \<noteq> [] \<and> list_all num_class m \<and> c \<noteq> []"
  by (auto simp: match_group_def list_all_iff Let_def bind_eq_Some_conv
      dest: set_takeWhileD split: if_splits)

lemma parse_groups_sound:
  "parse_groups ps = Inr (Some gs) \<Longrightarrow> g \<in> set gs \<Longrightarrow>
    conditions g \<noteq> [] \<and> list_all (\<lambda>c. normalizeCondition c = c) (conditions g)
    \<and> multiplier g \<noteq> [] \<and> list_all num_class (multiplier g)"
proof (induction ps arbitrary: gs)
  case (Cons p ps)
  then obtain h hs where h: "tryParseRuleGroupFactor p = Inr (Some h)" "parse_groups ps = Inr (Some hs)"
      "gs = h # hs"
    by (auto simp: js_cons_Some split: sum.splits option.splits)
  then obtain c m cs where m: "match_group p = Some (c, m)" "parse_conditions (splitTopLevelAnd c) = Inr (Some cs)"
      "cs \<noteq> []" "h = \<lparr>conditions = cs, multiplier = m\<rparr>"
    by (auto simp: tryParseRuleGroupFactor_def split: sum.splits option.splits if_splits)
  show ?case
  proof (cases "g = h")
    case True
    with m match_group_num [OF m(1)] parse_conditions_normal [OF m(2)] show ?thesis
      by (simp add: list_all_iff)
  next
    case False
    with Cons h show ?thesis by simp
  qed
qed simp

section \<open>Properties\<close>

text \<open>
  C7: A rule expression built by \<open>buildRequestRuleExpr\<close> is read back by
  \<open>tryParseRequestRuleExpr\<close> as exactly the groups it was built from, for any number of
  groups and conditions in the console's canonical form (normalized conditions, plain
  paths and time zones, numeric multipliers; in a group of several conditions the text
  \<open> || \<close> occurs in time ranges only).
\<close>

theorem requestRules_roundtrip:
  assumes "list_all canonical_group gs"
  shows "tryParseRequestRuleExpr (buildRequestRuleExpr gs) = Inr (Some gs)"
  using assms by (intro parse_rules) (simp add: list_all_iff)

lemma requestRules_roundtrip_witness:
  "let gs = [\<lparr>conditions =
                [request_condition SOURCE_PARAM ''a'' MATCH_GTE ''1.5'',
                 time_condition TF_hour ''UTC'' MATCH_RANGE [] ''21'' ''6'',
                 request_condition SOURCE_PARAM ''b'' MATCH_EXISTS [],
                 request_condition SOURCE_HEADER ''x'' MATCH_CONTAINS ''q'']
            , multiplier = ''2''\<rparr>,
             \<lparr>conditions = [request_condition SOURCE_PARAM ''s'' MATCH_EQ ''x || y''],
              multiplier = ''0.5''\<rparr>]
   in tryParseRequestRuleExpr (buildRequestRuleExpr gs) = Inr (Some gs)"
  unfolding Let_def by (rule requestRules_roundtrip) code_simp

text \<open>
  C10: A base expression whose literals are closed and whose parentheses balance, also when those
  in its literals are counted, and that is neither enclosed in parentheses nor ends like a rule
  (\<open>plain_base\<close>), combined by \<open>combineBillingExpr\<close> with the text of canonical rule groups, comes
  apart in \<open>splitBillingExprAndRequestRules\<close> into the same base expression, without the
  parentheses that were put around it, and the same rules.  Every expression generated from tiers
  with labels free of parentheses is such a base (\<open>generated_plain\<close> in \<open>TieredEditor\<close>); a label with
  a closing parenthesis is not, and keeps the added parentheses (\<open>label_parenthesis_kept\<close>).
\<close>

theorem combined_expression_splits:
  assumes "plain_base b" "list_all canonical_group gs" "gs \<noteq> []"
  shows "splitBillingExprAndRequestRules (combineBillingExpr b (buildRequestRuleExpr gs))
    = Inr \<lparr>sb_billingExpr = b, sb_requestRuleExpr = buildRequestRuleExpr gs\<rparr>"
  using assms by (intro split_combined) (simp_all add: list_all_iff)

lemma combined_expression_splits_witness:
  "let b = ''tier('' @ json_quote ''base'' @ '', p * 2.5 + c * 15)'';
       r = buildRequestRuleExpr [\<lparr>conditions = [request_condition SOURCE_HEADER ''x'' MATCH_EXISTS []],
             multiplier = ''2''\<rparr>]
   in splitBillingExprAndRequestRules (combineBillingExpr b r)
      = Inr \<lparr>sb_billingExpr = b, sb_requestRuleExpr = r\<rparr>"
  unfolding Let_def by (rule combined_expression_splits) code_simp+

text \<open>
  \<open>unwrapOuterParens\<close> returns a trimmed text with no full pair of outer parentheses,
  and unwrapping that text again changes nothing.
\<close>

theorem unwrapOuterParens_normal:
  "\<not> hasFullOuterParens (unwrapOuterParens e) \<and> trimmed (unwrapOuterParens e)
   \<and> unwrapOuterParens (unwrapOuterParens e) = unwrapOuterParens e"
proof -
  let ?u = "unwrapOuterParens e"
  have n: "\<not> hasFullOuterParens ?u" by (simp add: unwrapOuterParens_def unwrap_loop_done)
  have t: "trimmed ?u" by (simp add: unwrapOuterParens_def unwrap_loop_trimmed)
  have "unwrap_loop ?u = ?u" using n by (subst unwrap_loop.simps) simp
  with n t show ?thesis by (simp add: unwrapOuterParens_def [of ?u] trim_by_id)
qed

text \<open>
  Whatever text \<open>tryParseRequestRuleExpr\<close> accepts, the groups it returns are well
  formed: at least one condition each, every condition normalized (its mode is one its
  source offers), a multiplier of digits, signs, dots and exponent letters.
\<close>

theorem parsed_rules_well_formed:
  assumes "tryParseRequestRuleExpr e = Inr (Some gs)"
  shows "list_all (\<lambda>g. conditions g \<noteq> [] \<and> list_all (\<lambda>c. normalizeCondition c = c
           \<and> mode c \<in> set (getRequestRuleMatchOptions (source c))) (conditions g)
         \<and> multiplier g \<noteq> [] \<and> list_all num_class (multiplier g)) gs"
proof -
  have m: "normalizeCondition c = c \<Longrightarrow> mode c \<in> set (getRequestRuleMatchOptions (source c))" for c
    by (cases "source c"; cases c)
       (auto simp: normalizeCondition_def Let_def getRequestRuleMatchOptions_def split: if_splits)
  have "conditions g \<noteq> [] \<and> list_all (\<lambda>c. normalizeCondition c = c) (conditions g)
      \<and> multiplier g \<noteq> [] \<and> list_all num_class (multiplier g)" if "g \<in> set gs" for g
    using assms that parse_groups_sound [of _ gs g]
    by (auto simp: tryParseRequestRuleExpr_def Let_def split: if_splits)
  with m show ?thesis unfolding list_all_iff by blast
qed

lemma parsed_rules_well_formed_witness:
  "let e = ''(header('' @ json_quote ''a'' @ '') != '' @ json_quote [] @ '' ? 2 : 1)'';
       gs = [\<lparr>conditions = [request_condition SOURCE_HEADER ''a'' MATCH_EXISTS []], multiplier = ''2''\<rparr>]
   in list_all (\<lambda>g. conditions g \<noteq> [] \<and> list_all (\<lambda>c. normalizeCondition c = c
           \<and> mode c \<in> set (getRequestRuleMatchOptions (source c))) (conditions g)
         \<and> multiplier g \<noteq> [] \<and> list_all num_class (multiplier g)) gs"
  unfolding Let_def
  by (rule parsed_rules_well_formed
      [of "''(header('' @ json_quote ''a'' @ '') != '' @ json_quote [] @ '' ? 2 : 1)''"]) code_simp

section \<open>Where texts and conditions part\<close>

text \<open>
  A value with the text \<open> || \<close> beside another condition is put in parentheses that the
  parser does not take off again; a time zone or path with a quote is cut short; a token
  that is no JSON makes the parser throw; a base expression with a parenthesis in a tier
  label keeps the parentheses put around it.
\<close>

lemma bars_in_value_lost:
  "let g = \<lparr>conditions = [request_condition SOURCE_PARAM ''a'' MATCH_EQ ''x || y'',
                request_condition SOURCE_PARAM ''b'' MATCH_EXISTS []], multiplier = ''2''\<rparr>
   in tryParseRequestRuleExpr (buildRequestRuleExpr [g]) = Inr None"
  by code_simp

lemma quote_in_path_changed:
  "let c = request_condition SOURCE_HEADER [CHR ''a'', CHR 0x5C, CHR ''b''] MATCH_EXISTS []
   in tryParseRequestCondition (buildRequestConditionExpr c)
      = Inr (Some (c\<lparr>path := [CHR ''a'', CHR 0x5C, CHR 0x5C, CHR ''b'']\<rparr>))"
  by code_simp

lemma bad_token_throws:
  "tryParseRequestCondition (''has(header('' @ json_quote ''a'' @ ''), ''
      @ [CHR 0x22, CHR 0x5C, CHR ''q'', CHR 0x22] @ '')'') = Inl SyntaxError"
  by code_simp

lemma label_parenthesis_kept:
  "let b = ''tier('' @ json_quote '')'' @ '', p * 1)'';
       r = buildRequestRuleExpr [\<lparr>conditions = [request_condition SOURCE_HEADER ''x'' MATCH_EXISTS []],
             multiplier = ''2''\<rparr>]
   in splitBillingExprAndRequestRules (combineBillingExpr b r)
      = Inr \<lparr>sb_billingExpr = ''('' @ b @ '')'', sb_requestRuleExpr = r\<rparr>"
  by code_simp

end
