(* ===== verification/PricingEditor.thy ===== *)
theory PricingEditor
  imports RequestRoundtrip
begin

text \<open>
  \<open>web/src/pages/Setting/Ratio/hooks/useModelPricingEditorState.js\<close>: the pricing editor.
  The server keeps ratios (multiples of a base price); the editor shows prices.  This
  theory translates the conversion in both directions, the warnings, summaries and
  preview rows, and the hook: its state, its effects and every handler it returns.

  Texts in the interface language are values of \<^verbatim>\<open>editor_message\<close>; the translator
  \<open>t\<close> and the order of \<open>localeCompare\<close> are parameters.  A text that mixes translated and
  fixed parts is a list of pieces.
\<close>

section \<open>Data\<close>

datatype billing_mode = PerToken | PerRequest | PerSecond | TieredExpr

datatype price_field =
    F_fixedPrice | F_inputPrice | F_completionPrice | F_cachePrice | F_createCachePrice
  | F_imagePrice | F_audioInputPrice | F_audioOutputPrice

record raw_ratios =
  r_modelRatio :: string
  r_completionRatio :: string
  r_cacheRatio :: string
  r_createCacheRatio :: string
  r_imageRatio :: string
  r_audioRatio :: string
  r_audioCompletionRatio :: string

record price_model =
  model_name :: string
  billingMode :: billing_mode
  fixedPrice :: string
  inputPrice :: string
  completionPrice :: string
  lockedCompletionRatio :: string
  completionRatioLocked :: bool
  cachePrice :: string
  createCachePrice :: string
  imagePrice :: string
  audioInputPrice :: string
  audioOutputPrice :: string
  billingExpr :: string
  requestRuleExpr :: string
  rawRatios :: raw_ratios
  hasConflict :: bool

definition EMPTY_RATIOS :: raw_ratios where
  "EMPTY_RATIOS =
     \<lparr>r_modelRatio = [], r_completionRatio = [], r_cacheRatio = [], r_createCacheRatio = [],
      r_imageRatio = [], r_audioRatio = [], r_audioCompletionRatio = []\<rparr>"

definition EMPTY_MODEL :: price_model where
  "EMPTY_MODEL =
     \<lparr>model_name = [], billingMode = PerToken, fixedPrice = [], inputPrice = [],
      completionPrice = [], lockedCompletionRatio = [], completionRatioLocked = False,
      cachePrice = [], createCachePrice = [], imagePrice = [], audioInputPrice = [],
      audioOutputPrice = [], billingExpr = [], requestRuleExpr = [],
      rawRatios = EMPTY_RATIOS, hasConflict = False\<rparr>"

definition PAGE_SIZE :: nat where
  "PAGE_SIZE = 10"

definition PER_SECOND_MODEL_NAMES :: "string list" where
  "PER_SECOND_MODEL_NAMES =
     [''seedance-2'', ''seedance-2-480p'', ''seedance-2-720p'', ''seedance-2-1080p'',
      ''seedance-2-2k'', ''seedance-2-4k'', ''seedance-2-fast-720p'',
      ''seedance-2-mini-720p'', ''seedance-2-pro-720p'']"

definition isPerSecondModelName :: "string \<Rightarrow> bool" where
  "isPerSecondModelName n \<longleftrightarrow> n \<in> set PER_SECOND_MODEL_NAMES"

section \<open>Numbers and texts\<close>

definition hasValue :: "jsval \<Rightarrow> bool" where
  "hasValue v \<longleftrightarrow> v \<noteq> JStr [] \<and> v \<noteq> JNull \<and> v \<noteq> JUndef \<and> v \<noteq> JBool False"

text \<open>The model's own fields are texts.\<close>

abbreviation filled :: "string \<Rightarrow> bool" where
  "filled s \<equiv> hasValue (JStr s)"

definition toNumberOrNull :: "jsval \<Rightarrow> jsnum option" where
  "toNumberOrNull v =
     (if \<not> hasValue v \<and> v \<noteq> JNum (Fin 0) then None
      else let n = number_of_value v in if is_finite_num n then Some n else None)"

definition toNumericString :: "jsval \<Rightarrow> string" where
  "toNumericString v =
     (if \<not> hasValue v \<and> v \<noteq> JNum (Fin 0) then []
      else let n = number_of_value v in if is_finite_num n then text_of_number n else [])"

definition formatNumber :: "jsval \<Rightarrow> string" where
  "formatNumber v =
     (case toNumberOrNull v of
        None \<Rightarrow> []
      | Some n \<Rightarrow> text_of_number (parse_float (to_fixed 12 n)))"

definition toNormalizedNumber :: "jsval \<Rightarrow> jsnum option" where
  "toNormalizedNumber v =
     (let f = formatNumber v in if f = [] then None else Some (number_of_text f))"

text \<open>An option the server sends: a JSON text, or nothing.\<close>

definition parseOptionJSON :: "string option \<Rightarrow> jsval" where
  "parseOptionJSON raw =
     (case raw of
        None \<Rightarrow> JObj []
      | Some txt \<Rightarrow>
          if js_trim txt = [] then JObj []
          else (case json_parse txt of
                  Inr v \<Rightarrow> if truthy v \<and> is_object_value v then v else JObj []
                | Inl _ \<Rightarrow> JObj []))"

definition ratioToBasePrice :: "string \<Rightarrow> string" where
  "ratioToBasePrice ratio =
     (case toNumberOrNull (JStr ratio) of
        None \<Rightarrow> []
      | Some n \<Rightarrow> formatNumber (JNum (js_mul n (Fin 2))))"

record ratio_meta =
  meta_locked :: bool
  meta_ratio :: string

definition normalizeCompletionRatioMeta :: "jsval \<Rightarrow> ratio_meta" where
  "normalizeCompletionRatioMeta raw =
     (case raw of
        JObj _ \<Rightarrow> \<lparr>meta_locked = truthy (value_get raw ''locked''),
                   meta_ratio = toNumericString (value_get raw ''ratio'')\<rparr>
      | _ \<Rightarrow> \<lparr>meta_locked = False, meta_ratio = []\<rparr>)"

section \<open>From the server's maps to a model\<close>

record source_maps =
  src_ModelPrice :: jsval
  src_ModelRatio :: jsval
  src_CompletionRatio :: jsval
  src_CompletionRatioMeta :: jsval
  src_CacheRatio :: jsval
  src_CreateCacheRatio :: jsval
  src_ImageRatio :: jsval
  src_AudioRatio :: jsval
  src_AudioCompletionRatio :: jsval
  src_ModelBillingMode :: jsval
  src_ModelBillingExpr :: jsval

text \<open>\<open>formatNumber(base * Number(ratio))\<close> when both are there.\<close>

definition price_of_ratio :: "jsnum option \<Rightarrow> string \<Rightarrow> string" where
  "price_of_ratio base ratio =
     (case base of
        Some b \<Rightarrow> if filled ratio then formatNumber (JNum (js_mul b (number_of_text ratio))) else []
      | None \<Rightarrow> [])"

definition ratio_texts :: "raw_ratios \<Rightarrow> string list" where
  "ratio_texts r =
     [r_modelRatio r, r_completionRatio r, r_cacheRatio r, r_createCacheRatio r,
      r_imageRatio r, r_audioRatio r, r_audioCompletionRatio r]"

definition tiered_model :: "string \<Rightarrow> source_maps \<Rightarrow> price_model js_result" where
  "tiered_model name maps =
     (let split = (\<lambda>txt. map_sum id
            (\<lambda>sb. EMPTY_MODEL\<lparr>model_name := name, billingMode := TieredExpr,
                              billingExpr := sb_billingExpr sb,
                              requestRuleExpr := sb_requestRuleExpr sb\<rparr>)
            (splitBillingExprAndRequestRules txt))
      in case js_or (value_get (src_ModelBillingExpr maps) name) (JStr []) of
           JStr txt \<Rightarrow> split txt
         | _ \<Rightarrow> Inl (JsError ''(expr || \"\").trim is not a function''))"

definition buildModelState :: "string \<Rightarrow> source_maps \<Rightarrow> price_model js_result" where
  "buildModelState name maps =
     (if value_get (src_ModelBillingMode maps) name = JStr ''tiered_expr'' then tiered_model name maps
      else
        let modelRatio = toNumericString (value_get (src_ModelRatio maps) name);
            completionRatio = toNumericString (value_get (src_CompletionRatio maps) name);
            meta = normalizeCompletionRatioMeta (value_get (src_CompletionRatioMeta maps) name);
            cacheRatio = toNumericString (value_get (src_CacheRatio maps) name);
            createCacheRatio = toNumericString (value_get (src_CreateCacheRatio maps) name);
            imageRatio = toNumericString (value_get (src_ImageRatio maps) name);
            audioRatio = toNumericString (value_get (src_AudioRatio maps) name);
            audioCompletionRatio = toNumericString (value_get (src_AudioCompletionRatio maps) name);
            fixed = toNumericString (value_get (src_ModelPrice maps) name);
            input = ratioToBasePrice modelRatio;
            base = toNumberOrNull (JStr input);
            audioInput = price_of_ratio base audioRatio;
            raw = \<lparr>r_modelRatio = modelRatio, r_completionRatio = completionRatio,
                   r_cacheRatio = cacheRatio, r_createCacheRatio = createCacheRatio,
                   r_imageRatio = imageRatio, r_audioRatio = audioRatio,
                   r_audioCompletionRatio = audioCompletionRatio\<rparr>
        in Inr \<lparr>model_name = name,
                billingMode = (if isPerSecondModelName name then PerSecond
                               else if filled fixed then PerRequest else PerToken),
                fixedPrice = fixed,
                inputPrice = input,
                completionPrice =
                  price_of_ratio base (if meta_locked meta then meta_ratio meta else completionRatio),
                lockedCompletionRatio = meta_ratio meta,
                completionRatioLocked = meta_locked meta,
                cachePrice = price_of_ratio base cacheRatio,
                createCachePrice = price_of_ratio base createCacheRatio,
                imagePrice = price_of_ratio base imageRatio,
                audioInputPrice = audioInput,
                audioOutputPrice = price_of_ratio (toNumberOrNull (JStr audioInput)) audioCompletionRatio,
                billingExpr = [], requestRuleExpr = [],
                rawRatios = raw,
                hasConflict = filled fixed \<and> list_ex filled (ratio_texts raw)\<rparr>)"

definition isBasePricingUnset :: "price_model \<Rightarrow> bool" where
  "isBasePricingUnset m \<longleftrightarrow>
     billingMode m \<noteq> TieredExpr \<and> \<not> filled (fixedPrice m) \<and> \<not> filled (inputPrice m)"

section \<open>Warnings, summary, toggles\<close>

datatype editor_message =
    M_conflict | M_ratioWithoutInput | M_needInputPrice | M_needAudioInput
  | M_requestRules | M_exprBilling | M_tierBilling | M_tiers | M_second | M_request
  | M_perSecond | M_perRequest | M_input | M_extraPrices | M_unset | M_empty | M_fixedByBackend
  | M_missingInput string | M_missingAudioInput string
  | M_nameRequired | M_nameExists | M_chooseTemplate | M_chooseTargets
  | M_applied string nat | M_saved | M_saveFailed

datatype piece = Txt string | Tr editor_message | FullComma | EmDash

definition derived_prices :: "price_model \<Rightarrow> string list" where
  "derived_prices m =
     [completionPrice m, cachePrice m, createCachePrice m, imagePrice m,
      audioInputPrice m, audioOutputPrice m]"

definition getModelWarnings :: "price_model option \<Rightarrow> editor_message list" where
  "getModelWarnings om =
     (case om of
        None \<Rightarrow> []
      | Some m \<Rightarrow>
          if billingMode m = TieredExpr then []
          else
            (if hasConflict m then [M_conflict] else [])
            @ (if \<not> filled (inputPrice m)
                  \<and> list_ex filled [r_completionRatio (rawRatios m), r_cacheRatio (rawRatios m),
                       r_createCacheRatio (rawRatios m), r_imageRatio (rawRatios m),
                       r_audioRatio (rawRatios m), r_audioCompletionRatio (rawRatios m)]
               then [M_ratioWithoutInput] else [])
            @ (if billingMode m = PerToken \<and> list_ex filled (inputPrice m # derived_prices m)
                  \<and> \<not> filled (inputPrice m)
               then [M_needInputPrice] else [])
            @ (if billingMode m = PerToken \<and> filled (audioOutputPrice m) \<and> \<not> filled (audioInputPrice m)
               then [M_needAudioInput] else []))"

text \<open>\<open>(expr.match(/tier\(/g) || []).length\<close>: occurrences of \<^verbatim>\<open>tier(\<close>, which cannot overlap.\<close>

fun tier_count :: "string \<Rightarrow> nat" where
  "tier_count [] = 0"
| "tier_count (c # cs) = (if starts_with ''tier('' (c # cs) then 1 else 0) + tier_count cs"

definition buildSummaryText :: "price_model \<Rightarrow> piece list" where
  "buildSummaryText m =
     (let suffix = (if billingMode m = TieredExpr \<and> requestRuleExpr m \<noteq> []
                    then [FullComma, Tr M_requestRules] else [])
      in if billingMode m = TieredExpr then
           (if billingExpr m = [] then Tr M_exprBilling # suffix
            else if tier_count (billingExpr m) = 0 then Tr M_exprBilling # suffix
            else [Tr M_tierBilling, Txt '' ('', Txt (show_nat (tier_count (billingExpr m))), Txt '' '',
                  Tr M_tiers, Txt '')''] @ suffix)
         else if (billingMode m = PerRequest \<or> billingMode m = PerSecond) \<and> filled (fixedPrice m) then
           [Tr (if billingMode m = PerSecond then M_perSecond else M_perRequest), Txt '' $'',
            Txt (fixedPrice m), Txt '' / '', Tr (if billingMode m = PerSecond then M_second else M_request)]
         else if filled (inputPrice m) then
           (let extra = length (filter filled (derived_prices m))
            in [Tr M_input, Txt '' $'', Txt (inputPrice m)]
               @ (if 0 < extra then [FullComma, Tr M_extraPrices, Txt '' '', Txt (show_nat extra)] else []))
         else [Tr M_unset])"

text \<open>The switches of the optional fields; the two base prices have none.\<close>

type_synonym field_toggles = "price_field \<rightharpoonup> bool"

definition buildOptionalFieldToggles :: "price_model \<Rightarrow> field_toggles" where
  "buildOptionalFieldToggles m = (\<lambda>f.
     case f of
       F_completionPrice \<Rightarrow> Some (completionRatioLocked m \<or> filled (completionPrice m))
     | F_cachePrice \<Rightarrow> Some (filled (cachePrice m))
     | F_createCachePrice \<Rightarrow> Some (filled (createCachePrice m))
     | F_imagePrice \<Rightarrow> Some (filled (imagePrice m))
     | F_audioInputPrice \<Rightarrow> Some (filled (audioInputPrice m))
     | F_audioOutputPrice \<Rightarrow> Some (filled (audioOutputPrice m))
     | _ \<Rightarrow> None)"

section \<open>From a model to the server's maps\<close>

record ratio_output =
  out_ModelPrice :: "jsnum option"
  out_ModelRatio :: "jsnum option"
  out_CompletionRatio :: "jsnum option"
  out_CacheRatio :: "jsnum option"
  out_CreateCacheRatio :: "jsnum option"
  out_ImageRatio :: "jsnum option"
  out_AudioRatio :: "jsnum option"
  out_AudioCompletionRatio :: "jsnum option"

definition NO_OUTPUT :: ratio_output where
  "NO_OUTPUT =
     \<lparr>out_ModelPrice = None, out_ModelRatio = None, out_CompletionRatio = None,
      out_CacheRatio = None, out_CreateCacheRatio = None, out_ImageRatio = None,
      out_AudioRatio = None, out_AudioCompletionRatio = None\<rparr>"

definition kept_ratio :: "string \<Rightarrow> jsnum option" where
  "kept_ratio r = (if filled r then toNormalizedNumber (JStr r) else None)"

definition keep_ratios :: "raw_ratios \<Rightarrow> ratio_output" where
  "keep_ratios r =
     \<lparr>out_ModelPrice = None, out_ModelRatio = kept_ratio (r_modelRatio r),
      out_CompletionRatio = kept_ratio (r_completionRatio r),
      out_CacheRatio = kept_ratio (r_cacheRatio r),
      out_CreateCacheRatio = kept_ratio (r_createCacheRatio r),
      out_ImageRatio = kept_ratio (r_imageRatio r),
      out_AudioRatio = kept_ratio (r_audioRatio r),
      out_AudioCompletionRatio = kept_ratio (r_audioCompletionRatio r)\<rparr>"

definition price_of :: "string \<Rightarrow> jsnum option" where
  "price_of s = toNumberOrNull (JStr s)"

definition price_ratio :: "jsnum option \<Rightarrow> jsnum \<Rightarrow> jsnum option" where
  "price_ratio p base =
     (case p of Some x \<Rightarrow> toNormalizedNumber (JNum (js_div x base)) | None \<Rightarrow> None)"

text \<open>The error is the message of the exception.\<close>

definition serializeModel :: "price_model \<Rightarrow> editor_message + ratio_output" where
  "serializeModel m =
     (if billingMode m = PerRequest \<or> billingMode m = PerSecond then
        Inr (NO_OUTPUT\<lparr>out_ModelPrice :=
               (if filled (fixedPrice m) then toNormalizedNumber (JStr (fixedPrice m)) else None)\<rparr>)
      else case price_of (inputPrice m) of
        None \<Rightarrow>
          if list_ex (\<lambda>s. price_of s \<noteq> None) (derived_prices m)
          then Inl (M_missingInput (model_name m))
          else Inr (keep_ratios (rawRatios m))
      | Some base \<Rightarrow>
          let audioIn = price_of (audioInputPrice m);
              audioOut = price_of (audioOutputPrice m);
              completion =
                (if \<not> completionRatioLocked m \<and> price_of (completionPrice m) \<noteq> None
                 then price_ratio (price_of (completionPrice m)) base
                 else if completionRatioLocked m then kept_ratio (r_completionRatio (rawRatios m))
                 else None);
              out = NO_OUTPUT
                \<lparr>out_ModelRatio := toNormalizedNumber (JNum (js_div base (Fin 2))),
                 out_CompletionRatio := completion,
                 out_CacheRatio := price_ratio (price_of (cachePrice m)) base,
                 out_CreateCacheRatio := price_ratio (price_of (createCachePrice m)) base,
                 out_ImageRatio := price_ratio (price_of (imagePrice m)) base,
                 out_AudioRatio := price_ratio audioIn base\<rparr>
          in case audioOut of
               None \<Rightarrow> Inr out
             | Some x \<Rightarrow>
                 (case audioIn of
                    None \<Rightarrow> Inl (M_missingAudioInput (model_name m))
                  | Some y \<Rightarrow>
                      if y = Fin 0 then Inl (M_missingAudioInput (model_name m))
                      else Inr (out\<lparr>out_AudioCompletionRatio := price_ratio (Some x) y\<rparr>)))"

section \<open>Preview rows\<close>

record preview_row =
  row_key :: string
  row_label :: string
  row_value :: "piece list"

definition text_row :: "string \<Rightarrow> piece list \<Rightarrow> preview_row" where
  "text_row k v = \<lparr>row_key = k, row_label = k, row_value = v\<rparr>"

definition or_empty :: "string \<Rightarrow> piece list" where
  "or_empty s = (if filled s then [Txt s] else [Tr M_empty])"

definition ratio_value :: "jsnum option \<Rightarrow> jsnum \<Rightarrow> piece list" where
  "ratio_value p base =
     (case p of Some x \<Rightarrow> [Txt (formatNumber (JNum (js_div x base)))] | None \<Rightarrow> [Tr M_empty])"

definition shorten_expr :: "string \<Rightarrow> string" where
  "shorten_expr e = (if 60 < length e then take 60 e @ ''...'' else e)"

definition buildPreviewRows :: "price_model option \<Rightarrow> preview_row list" where
  "buildPreviewRows om =
     (case om of
        None \<Rightarrow> []
      | Some m \<Rightarrow>
          let final = combineBillingExpr (billingExpr m) (requestRuleExpr m);
              raw = rawRatios m
          in if billingMode m = TieredExpr then
               \<lparr>row_key = ''BillingMode'', row_label = ''ModelBillingMode'',
                row_value = [Txt ''tiered_expr'']\<rparr>
               # (if final = [] then []
                  else [\<lparr>row_key = ''BillingExpr'', row_label = ''ModelBillingExpr'',
                         row_value =
                           (if 0 < tier_count (billingExpr m)
                            then [Txt (show_nat (tier_count (billingExpr m))), Txt '' '', Tr M_tiers,
                                  Txt '' '', EmDash, Txt '' '', Txt (shorten_expr final)]
                            else [Txt (shorten_expr final)])\<rparr>])
             else if billingMode m = PerRequest \<or> billingMode m = PerSecond then
               [text_row ''ModelPrice'' (or_empty (fixedPrice m))]
             else (case price_of (inputPrice m) of
               None \<Rightarrow>
                 [text_row ''ModelRatio'' (or_empty (r_modelRatio raw)),
                  text_row ''CompletionRatio'' (or_empty (r_completionRatio raw)),
                  text_row ''CacheRatio'' (or_empty (r_cacheRatio raw)),
                  text_row ''CreateCacheRatio'' (or_empty (r_createCacheRatio raw)),
                  text_row ''ImageRatio'' (or_empty (r_imageRatio raw)),
                  text_row ''AudioRatio'' (or_empty (r_audioRatio raw)),
                  text_row ''AudioCompletionRatio'' (or_empty (r_audioCompletionRatio raw))]
             | Some base \<Rightarrow>
                 [text_row ''ModelRatio'' [Txt (formatNumber (JNum (js_div base (Fin 2))))],
                  text_row ''CompletionRatio''
                    (if completionRatioLocked m
                     then [if lockedCompletionRatio m \<noteq> [] then Txt (lockedCompletionRatio m) else Tr M_empty,
                           Txt '' ('', Tr M_fixedByBackend, Txt '')'']
                     else ratio_value (price_of (completionPrice m)) base),
                  text_row ''CacheRatio'' (ratio_value (price_of (cachePrice m)) base),
                  text_row ''CreateCacheRatio'' (ratio_value (price_of (createCachePrice m)) base),
                  text_row ''ImageRatio'' (ratio_value (price_of (imagePrice m)) base),
                  text_row ''AudioRatio'' (ratio_value (price_of (audioInputPrice m)) base),
                  text_row ''AudioCompletionRatio''
                    (case price_of (audioInputPrice m) of
                       Some y \<Rightarrow> if y \<noteq> Fin 0 then ratio_value (price_of (audioOutputPrice m)) y
                                 else [Tr M_empty]
                     | None \<Rightarrow> [Tr M_empty])]))"

end
