(* ===== verification/PricingHook.thy ===== *)
theory PricingHook
  imports PricingEditor Machines
begin

text \<open>
  The hook \<open>useModelPricingEditorState\<close>: its nine state cells, the values derived from
  them, its effects and its handlers.  A handler is a function on the state: what it reads
  of the render (\<open>models\<close>, \<open>selectedModel\<close>, \<open>selectedModelNames\<close>) are the cells at the
  time of the call; the effects run after the event that made the render.
\<close>

section \<open>State\<close>

datatype filter_mode = FilterAll | FilterUnset

record editor_state =
  models :: "price_model list"
  initialVisibleModelNames :: "string list"
  selectedModelName :: string
  selectedModelNames :: "string list"
  searchText :: string
  currentPage :: nat
  loading :: bool
  conflictOnly :: bool
  optionalFieldToggles :: "string \<rightharpoonup> field_toggles"
  filterMode :: filter_mode

definition initial_editor :: "filter_mode \<Rightarrow> editor_state" where
  "initial_editor fm =
     \<lparr>models = [], initialVisibleModelNames = [], selectedModelName = [], selectedModelNames = [],
      searchText = [], currentPage = 1, loading = False, conflictOnly = False,
      optionalFieldToggles = Map.empty, filterMode = fm\<rparr>"

section \<open>Loading the options\<close>

text \<open>The options by name; a missing one is \<open>undefined\<close>.\<close>

definition read_source_maps :: "(string \<rightharpoonup> string) \<Rightarrow> source_maps" where
  "read_source_maps opts =
     \<lparr>src_ModelPrice = parseOptionJSON (opts ''ModelPrice''),
      src_ModelRatio = parseOptionJSON (opts ''ModelRatio''),
      src_CompletionRatio = parseOptionJSON (opts ''CompletionRatio''),
      src_CompletionRatioMeta = parseOptionJSON (opts ''CompletionRatioMeta''),
      src_CacheRatio = parseOptionJSON (opts ''CacheRatio''),
      src_CreateCacheRatio = parseOptionJSON (opts ''CreateCacheRatio''),
      src_ImageRatio = parseOptionJSON (opts ''ImageRatio''),
      src_AudioRatio = parseOptionJSON (opts ''AudioRatio''),
      src_AudioCompletionRatio = parseOptionJSON (opts ''AudioCompletionRatio''),
      src_ModelBillingMode = parseOptionJSON (opts ''billing_setting.billing_mode''),
      src_ModelBillingExpr = parseOptionJSON (opts ''billing_setting.billing_expr'')\<rparr>"

definition source_names :: "string list \<Rightarrow> source_maps \<Rightarrow> string list" where
  "source_names candidates maps =
     js_unique (candidates @ concat (map value_keys
       [src_ModelPrice maps, src_ModelRatio maps, src_CompletionRatio maps,
        src_CompletionRatioMeta maps, src_CacheRatio maps, src_CreateCacheRatio maps,
        src_ImageRatio maps, src_AudioRatio maps, src_AudioCompletionRatio maps,
        src_ModelBillingMode maps, src_ModelBillingExpr maps]))"

fun build_models :: "source_maps \<Rightarrow> string list \<Rightarrow> price_model list js_result" where
  "build_models maps [] = Inr []"
| "build_models maps (n # ns) =
     (case buildModelState n maps of
        Inl e \<Rightarrow> Inl e
      | Inr m \<Rightarrow> map_sum id (Cons m) (build_models maps ns))"

definition names_of :: "price_model list \<Rightarrow> string list" where
  "names_of ms = map model_name ms"

definition initially_visible :: "filter_mode \<Rightarrow> price_model list \<Rightarrow> price_model list" where
  "initially_visible fm ms = (case fm of FilterUnset \<Rightarrow> filter isBasePricingUnset ms | FilterAll \<Rightarrow> ms)"

definition first_name :: "price_model list \<Rightarrow> string" where
  "first_name ms = (case ms of m # _ \<Rightarrow> model_name m | [] \<Rightarrow> [])"

text \<open>The effect on \<open>[candidateModelNames, filterMode, options]\<close>.  \<open>le\<close> is the order of
  \<open>localeCompare\<close>.\<close>

definition load_options ::
  "(string \<Rightarrow> string \<Rightarrow> bool) \<Rightarrow> string list \<Rightarrow> (string \<rightharpoonup> string) \<Rightarrow> editor_state \<Rightarrow> editor_state js_result" where
  "load_options le candidates opts s =
     (let maps = read_source_maps opts
      in case build_models maps (source_names candidates maps) of
           Inl e \<Rightarrow> Inl e
         | Inr built \<Rightarrow>
             let next = sort_by (\<lambda>a b. le (model_name a) (model_name b)) built;
                 prev = selectedModelName s
             in Inr (s\<lparr>models := next,
                       initialVisibleModelNames := names_of (initially_visible (filterMode s) next),
                       optionalFieldToggles :=
                         map_of (map (\<lambda>m. (model_name m, buildOptionalFieldToggles m)) next),
                       selectedModelName :=
                         (if prev \<noteq> [] \<and> prev \<in> set (names_of next) then prev
                          else first_name (initially_visible (filterMode s) next))\<rparr>))"

section \<open>Derived values\<close>

definition visibleModels :: "editor_state \<Rightarrow> price_model list" where
  "visibleModels s =
     (case filterMode s of
        FilterUnset \<Rightarrow> filter (\<lambda>m. model_name m \<in> set (initialVisibleModelNames s)) (models s)
      | FilterAll \<Rightarrow> models s)"

definition filteredModels :: "editor_state \<Rightarrow> price_model list" where
  "filteredModels s =
     filter (\<lambda>m. let keyword = js_lower (js_trim (searchText s))
                 in (keyword = [] \<or> js_includes keyword (js_lower (model_name m)))
                    \<and> (conflictOnly s \<longrightarrow> hasConflict m))
       (visibleModels s)"

definition pagedData :: "editor_state \<Rightarrow> price_model list" where
  "pagedData s = take PAGE_SIZE (drop ((currentPage s - 1) * PAGE_SIZE) (filteredModels s))"

definition selectedModel :: "editor_state \<Rightarrow> price_model option" where
  "selectedModel s = find (\<lambda>m. model_name m = selectedModelName s) (visibleModels s)"

section \<open>Effects\<close>

definition reset_page :: "editor_state \<Rightarrow> editor_state" where
  "reset_page s = s\<lparr>currentPage := 1\<rparr>"

definition prune_selected :: "editor_state \<Rightarrow> editor_state" where
  "prune_selected s =
     s\<lparr>selectedModelNames := filter (\<lambda>n. n \<in> set (names_of (visibleModels s))) (selectedModelNames s)\<rparr>"

definition reselect :: "editor_state \<Rightarrow> editor_state" where
  "reselect s =
     (if visibleModels s = [] then s\<lparr>selectedModelName := []\<rparr>
      else if selectedModelName s \<in> set (names_of (visibleModels s)) then s
      else s\<lparr>selectedModelName := first_name (visibleModels s)\<rparr>)"

section \<open>Handlers\<close>

definition upsertModel :: "string \<Rightarrow> (price_model \<Rightarrow> price_model) \<Rightarrow> editor_state \<Rightarrow> editor_state" where
  "upsertModel n f s = s\<lparr>models := map (\<lambda>m. if model_name m \<noteq> n then m else f m) (models s)\<rparr>"

text \<open>\<open>undefined\<close>, for the two base prices, is \<open>None\<close>.\<close>

definition isOptionalFieldEnabled :: "editor_state \<Rightarrow> price_model option \<Rightarrow> price_field \<Rightarrow> bool option" where
  "isOptionalFieldEnabled s om f =
     (case om of
        None \<Rightarrow> Some False
      | Some m \<Rightarrow>
          (case optionalFieldToggles s (model_name m) of
             Some ts \<Rightarrow> (case ts f of Some b \<Rightarrow> Some b | None \<Rightarrow> buildOptionalFieldToggles m f)
           | None \<Rightarrow> buildOptionalFieldToggles m f))"

definition toggles_of :: "editor_state \<Rightarrow> string \<Rightarrow> field_toggles" where
  "toggles_of s n = (case optionalFieldToggles s n of Some ts \<Rightarrow> ts | None \<Rightarrow> Map.empty)"

definition updateOptionalFieldToggle :: "string \<Rightarrow> price_field \<Rightarrow> bool \<Rightarrow> editor_state \<Rightarrow> editor_state" where
  "updateOptionalFieldToggle n f b s =
     s\<lparr>optionalFieldToggles := (optionalFieldToggles s)(n \<mapsto> (toggles_of s n)(f \<mapsto> b))\<rparr>"

text \<open>\<open>{ ...model, [field]: value }\<close>\<close>

fun set_field :: "price_field \<Rightarrow> string \<Rightarrow> price_model \<Rightarrow> price_model" where
  "set_field F_fixedPrice v m = m\<lparr>fixedPrice := v\<rparr>"
| "set_field F_inputPrice v m = m\<lparr>inputPrice := v\<rparr>"
| "set_field F_completionPrice v m = m\<lparr>completionPrice := v\<rparr>"
| "set_field F_cachePrice v m = m\<lparr>cachePrice := v\<rparr>"
| "set_field F_createCachePrice v m = m\<lparr>createCachePrice := v\<rparr>"
| "set_field F_imagePrice v m = m\<lparr>imagePrice := v\<rparr>"
| "set_field F_audioInputPrice v m = m\<lparr>audioInputPrice := v\<rparr>"
| "set_field F_audioOutputPrice v m = m\<lparr>audioOutputPrice := v\<rparr>"

definition handleOptionalFieldToggle :: "price_field \<Rightarrow> bool \<Rightarrow> editor_state \<Rightarrow> editor_state" where
  "handleOptionalFieldToggle f checked s =
     (case selectedModel s of
        None \<Rightarrow> s
      | Some sel \<Rightarrow>
          let n = model_name sel; s1 = updateOptionalFieldToggle n f checked s
          in if checked then s1
             else if f = F_audioInputPrice then
               updateOptionalFieldToggle n F_audioOutputPrice False
                 (updateOptionalFieldToggle n F_audioInputPrice False
                   (upsertModel n (\<lambda>m. set_field F_audioOutputPrice [] (set_field f [] m)) s1))
             else upsertModel n (set_field f []) s1)"

text \<open>A price the user has not given, from the ratio kept for it.\<close>

definition fill_price :: "jsnum \<Rightarrow> string \<Rightarrow> string \<Rightarrow> string" where
  "fill_price base price ratio =
     (if \<not> filled price \<and> filled ratio
      then formatNumber (JNum (js_mul base (number_of_text ratio))) else price)"

definition fillDerivedPricesFromBase :: "price_model \<Rightarrow> string \<Rightarrow> price_model" where
  "fillDerivedPricesFromBase m nextInput =
     (case toNumberOrNull (JStr nextInput) of
        None \<Rightarrow> m
      | Some base \<Rightarrow>
          let raw = rawRatios m
          in m\<lparr>completionPrice :=
                 (if completionRatioLocked m \<and> filled (lockedCompletionRatio m)
                  then formatNumber (JNum (js_mul base (number_of_text (lockedCompletionRatio m))))
                  else fill_price base (completionPrice m) (r_completionRatio raw)),
               cachePrice := fill_price base (cachePrice m) (r_cacheRatio raw),
               createCachePrice := fill_price base (createCachePrice m) (r_createCacheRatio raw),
               imagePrice := fill_price base (imagePrice m) (r_imageRatio raw),
               audioInputPrice := fill_price base (audioInputPrice m) (r_audioRatio raw),
               audioOutputPrice :=
                 (if \<not> filled (audioOutputPrice m) \<and> filled (r_audioRatio raw)
                     \<and> filled (r_audioCompletionRatio raw)
                  then formatNumber (JNum (js_mul (js_mul base (number_of_text (r_audioRatio raw)))
                                            (number_of_text (r_audioCompletionRatio raw))))
                  else audioOutputPrice m)\<rparr>)"

text \<open>\<open>NUMERIC_INPUT_REGEX\<close> = \<^verbatim>\<open>/^(\d+(\.\d*)?|\.\d*)?$/\<close>\<close>

definition numeric_input :: "string \<Rightarrow> bool" where
  "numeric_input v =
     (case dropWhile is_digit v of
        [] \<Rightarrow> True
      | c # r \<Rightarrow> c = CHR ''.'' \<and> list_all is_digit r)"

definition handleNumericFieldChange :: "price_field \<Rightarrow> string \<Rightarrow> editor_state \<Rightarrow> editor_state" where
  "handleNumericFieldChange f v s =
     (case selectedModel s of
        None \<Rightarrow> s
      | Some sel \<Rightarrow>
          if \<not> numeric_input v then s
          else upsertModel (model_name sel)
                 (\<lambda>m. let u = set_field f v m
                      in if f = F_inputPrice then fillDerivedPricesFromBase u v else u) s)"

definition DEFAULT_TIER_EXPR :: string where
  "DEFAULT_TIER_EXPR = ''tier('' @ json_quote ''base'' @ '', p * 0 + c * 0)''"

definition handleBillingModeChange :: "billing_mode \<Rightarrow> editor_state \<Rightarrow> editor_state" where
  "handleBillingModeChange v s =
     (case selectedModel s of
        None \<Rightarrow> s
      | Some sel \<Rightarrow>
          if isPerSecondModelName (model_name sel) then s
          else upsertModel (model_name sel)
                 (\<lambda>m. let nx = m\<lparr>billingMode := v\<rparr>
                      in if v = TieredExpr \<and> billingExpr m = []
                         then nx\<lparr>billingExpr := DEFAULT_TIER_EXPR\<rparr> else nx) s)"

definition handleBillingExprChange :: "string \<Rightarrow> editor_state \<Rightarrow> editor_state" where
  "handleBillingExprChange e s =
     (case selectedModel s of
        None \<Rightarrow> s
      | Some sel \<Rightarrow> upsertModel (model_name sel) (\<lambda>m. m\<lparr>billingExpr := e\<rparr>) s)"

definition handleRequestRuleExprChange :: "string \<Rightarrow> editor_state \<Rightarrow> editor_state" where
  "handleRequestRuleExprChange e s =
     (case selectedModel s of
        None \<Rightarrow> s
      | Some sel \<Rightarrow> upsertModel (model_name sel) (\<lambda>m. m\<lparr>requestRuleExpr := e\<rparr>) s)"

text \<open>What a handler shows: an error or a success message.\<close>

datatype notice = ErrorNotice editor_message | SuccessNotice editor_message

definition addModel :: "string \<Rightarrow> editor_state \<Rightarrow> bool \<times> notice option \<times> editor_state" where
  "addModel raw s =
     (let n = js_trim raw
      in if n = [] then (False, Some (ErrorNotice M_nameRequired), s)
         else if n \<in> set (names_of (models s)) then (False, Some (ErrorNotice M_nameExists), s)
         else let m = EMPTY_MODEL\<lparr>model_name := n\<rparr>
              in (True, None,
                  s\<lparr>models := m # models s,
                    optionalFieldToggles := (optionalFieldToggles s)(n \<mapsto> buildOptionalFieldToggles m),
                    selectedModelName := n,
                    currentPage := 1\<rparr>))"

definition deleteModel :: "string \<Rightarrow> editor_state \<Rightarrow> editor_state" where
  "deleteModel n s =
     (let next = filter (\<lambda>m. model_name m \<noteq> n) (models s)
      in s\<lparr>models := next,
           optionalFieldToggles := (optionalFieldToggles s)(n := None),
           selectedModelNames := filter (\<lambda>x. x \<noteq> n) (selectedModelNames s),
           selectedModelName := (if selectedModelName s = n then first_name next else selectedModelName s)\<rparr>)"

section \<open>Applying one model's prices to others\<close>

definition apply_mode :: "billing_mode \<Rightarrow> billing_mode \<Rightarrow> billing_mode" where
  "apply_mode target template =
     (if target = PerSecond then PerSecond
      else if template = PerSecond then PerRequest else template)"

definition apply_template :: "price_model \<Rightarrow> price_model \<Rightarrow> price_model" where
  "apply_template sel m =
     (let nx = m\<lparr>billingMode := apply_mode (billingMode m) (billingMode sel),
                 fixedPrice := fixedPrice sel, inputPrice := inputPrice sel,
                 completionPrice := completionPrice sel, cachePrice := cachePrice sel,
                 createCachePrice := createCachePrice sel, imagePrice := imagePrice sel,
                 audioInputPrice := audioInputPrice sel, audioOutputPrice := audioOutputPrice sel,
                 billingExpr := billingExpr sel, requestRuleExpr := requestRuleExpr sel\<rparr>
      in if billingMode nx = PerToken \<and> completionRatioLocked nx \<and> filled (inputPrice nx)
            \<and> filled (lockedCompletionRatio nx)
         then nx\<lparr>completionPrice :=
                   formatNumber (JNum (js_mul (number_of_text (inputPrice nx))
                                              (number_of_text (lockedCompletionRatio nx))))\<rparr>
         else nx)"

definition is_on :: "field_toggles \<Rightarrow> price_field \<Rightarrow> bool" where
  "is_on ts f \<longleftrightarrow> ts f = Some True"

definition apply_toggles :: "field_toggles \<Rightarrow> price_model option \<Rightarrow> field_toggles" where
  "apply_toggles src target = (\<lambda>f.
     case f of
       F_completionPrice \<Rightarrow>
         Some (if (case target of Some m \<Rightarrow> completionRatioLocked m | None \<Rightarrow> False) then True
               else is_on src F_completionPrice)
     | F_audioOutputPrice \<Rightarrow> Some (is_on src F_audioInputPrice \<and> is_on src F_audioOutputPrice)
     | F_fixedPrice \<Rightarrow> None
     | F_inputPrice \<Rightarrow> None
     | _ \<Rightarrow> Some (is_on src f))"

definition applySelectedModelPricing :: "editor_state \<Rightarrow> bool \<times> notice option \<times> editor_state" where
  "applySelectedModelPricing s =
     (case selectedModel s of
        None \<Rightarrow> (False, Some (ErrorNotice M_chooseTemplate), s)
      | Some sel \<Rightarrow>
          if selectedModelNames s = [] then (False, Some (ErrorNotice M_chooseTargets), s)
          else let src = toggles_of s (model_name sel)
               in (True,
                   Some (SuccessNotice (M_applied (model_name sel) (length (selectedModelNames s)))),
                   s\<lparr>models := map (\<lambda>m. if model_name m \<in> set (selectedModelNames s)
                                        then apply_template sel m else m) (models s),
                     optionalFieldToggles := foldl
                       (\<lambda>ts n. ts(n \<mapsto> apply_toggles src (find (\<lambda>m. model_name m = n) (models s))))
                       (optionalFieldToggles s) (selectedModelNames s)\<rparr>))"

section \<open>Saving\<close>

text \<open>The two groups of options a save writes, as objects under construction.\<close>

type_synonym option_objects = "(string \<times> (string \<times> jsval) list) list"

definition output_entries :: "ratio_output \<Rightarrow> (string \<times> jsnum option) list" where
  "output_entries r =
     [(''ModelPrice'', out_ModelPrice r), (''ModelRatio'', out_ModelRatio r),
      (''CompletionRatio'', out_CompletionRatio r), (''CacheRatio'', out_CacheRatio r),
      (''CreateCacheRatio'', out_CreateCacheRatio r), (''ImageRatio'', out_ImageRatio r),
      (''AudioRatio'', out_AudioRatio r), (''AudioCompletionRatio'', out_AudioCompletionRatio r)]"

definition empty_output :: option_objects where
  "empty_output = map (\<lambda>(k, _). (k, [])) (output_entries NO_OUTPUT)"

definition empty_tiered :: option_objects where
  "empty_tiered = [(''billing_setting.billing_mode'', []), (''billing_setting.billing_expr'', [])]"

definition store_entry :: "string \<Rightarrow> string \<Rightarrow> jsval \<Rightarrow> option_objects \<Rightarrow> option_objects" where
  "store_entry key n v os = map (\<lambda>(k, kvs). if k = key then (k, obj_put n v kvs) else (k, kvs)) os"

definition store_ratios :: "string \<Rightarrow> ratio_output \<Rightarrow> option_objects \<Rightarrow> option_objects" where
  "store_ratios n r os =
     foldl (\<lambda>acc (k, v). case v of Some x \<Rightarrow> store_entry k n (JNum x) acc | None \<Rightarrow> acc)
       os (output_entries r)"

definition store_tiered :: "price_model \<Rightarrow> option_objects \<Rightarrow> option_objects" where
  "store_tiered m os =
     (let final = combineBillingExpr (billingExpr m) (requestRuleExpr m)
      in if billingMode m = TieredExpr \<and> final \<noteq> []
         then store_entry ''billing_setting.billing_expr'' (model_name m) (JStr final)
                (store_entry ''billing_setting.billing_mode'' (model_name m) (JStr ''tiered_expr'') os)
         else os)"

text \<open>The loop over the models.  The error of a model that is not tiered ends the save.\<close>

fun collect_output ::
  "price_model list \<Rightarrow> option_objects \<times> option_objects \<Rightarrow> editor_message + (option_objects \<times> option_objects)" where
  "collect_output [] out = Inr out"
| "collect_output (m # ms) (ro, te) =
     (let te' = store_tiered m te
      in case serializeModel m of
           Inr r \<Rightarrow> collect_output ms (store_ratios (model_name m) r ro, te')
         | Inl e \<Rightarrow> if billingMode m \<noteq> TieredExpr then Inl e else collect_output ms (ro, te'))"

definition save_requests :: "price_model list \<Rightarrow> editor_message + (string \<times> string) list" where
  "save_requests ms =
     map_sum id (\<lambda>(ro, te). map (\<lambda>(k, kvs). (k, json_pretty [] (JObj kvs))) (ro @ te))
       (collect_output ms (empty_output, empty_tiered))"

text \<open>
  The message shown: one of the editor's own, or a text of the server or the network.
  \<open>put_all\<close> is the outcome of \<open>Promise.all\<close> over the requests: the message of the first
  rejection, or the responses.
\<close>

datatype save_message = Own editor_message | Foreign string

definition reply_ok :: "jsval \<Rightarrow> bool" where
  "reply_ok res \<longleftrightarrow> truthy (value_get (value_get res ''data'') ''success'')"

definition message_or_default :: "jsval \<Rightarrow> save_message" where
  "message_or_default v =
     (if truthy v \<and> text_of_value v \<noteq> [] then Foreign (text_of_value v) else Own M_saveFailed)"

definition save_result :: "((string \<times> string) list \<Rightarrow> string + jsval list) \<Rightarrow> price_model list \<Rightarrow> save_message + unit" where
  "save_result put_all ms =
     (case save_requests ms of
        Inl e \<Rightarrow> Inl (Own e)
      | Inr reqs \<Rightarrow>
          (case put_all reqs of
             Inl msg \<Rightarrow> Inl (message_or_default (JStr msg))
           | Inr rs \<Rightarrow>
               (case find (\<lambda>r. \<not> reply_ok r) rs of
                  Some r \<Rightarrow> Inl (message_or_default (value_get (value_get r ''data'') ''message''))
                | None \<Rightarrow> Inr ())))"

text \<open>\<open>refresh\<close> is the caller's; it runs after a save that succeeded, and its failure is
  reported as a failed save.  The result is what is shown, in order, and the state.\<close>

datatype save_toast = SaveDone | SaveError save_message

definition handleSubmit ::
  "((string \<times> string) list \<Rightarrow> string + jsval list) \<Rightarrow> (editor_state \<Rightarrow> string + editor_state)
    \<Rightarrow> editor_state \<Rightarrow> save_toast list \<times> editor_state" where
  "handleSubmit put_all refresh s =
     (let s1 = s\<lparr>loading := True\<rparr>
      in case save_result put_all (models s1) of
           Inl msg \<Rightarrow> ([SaveError msg], s1\<lparr>loading := False\<rparr>)
         | Inr _ \<Rightarrow>
             (case refresh s1 of
                Inl msg \<Rightarrow> ([SaveDone, SaveError (message_or_default (JStr msg))], s1\<lparr>loading := False\<rparr>)
              | Inr s2 \<Rightarrow> ([SaveDone], s2\<lparr>loading := False\<rparr>)))"

section \<open>The hook as a machine\<close>

text \<open>
  Everything that changes the state: new options or candidates from the caller, the
  setters the hook returns, and its handlers.  Pages are counted from 1, so a page is
  given by its predecessor.
\<close>

datatype editor_event =
    OptionsChanged "string list" "string \<rightharpoonup> string"
  | CandidatesChanged "string list" "string \<rightharpoonup> string"
  | SelectModel string
  | SelectModels "string list"
  | SetSearch string
  | SetPage nat
  | SetConflictOnly bool
  | ToggleField price_field bool
  | ChangeNumeric price_field string
  | ChangeMode billing_mode
  | ChangeExpr string
  | ChangeRules string
  | AddModel string
  | DeleteModel string
  | ApplyPricing

text \<open>Whether the event replaces the model list, which makes the effect on
  \<open>visibleModels\<close> run.\<close>

definition replaces_models :: "editor_event \<Rightarrow> editor_state \<Rightarrow> bool" where
  "replaces_models ev s \<longleftrightarrow>
     (case ev of
        OptionsChanged _ _ \<Rightarrow> True
      | CandidatesChanged _ _ \<Rightarrow> True
      | ToggleField _ b \<Rightarrow> selectedModel s \<noteq> None \<and> \<not> b
      | ChangeNumeric _ v \<Rightarrow> selectedModel s \<noteq> None \<and> numeric_input v
      | ChangeMode _ \<Rightarrow>
          (case selectedModel s of Some m \<Rightarrow> \<not> isPerSecondModelName (model_name m) | None \<Rightarrow> False)
      | ChangeExpr _ \<Rightarrow> selectedModel s \<noteq> None
      | ChangeRules _ \<Rightarrow> selectedModel s \<noteq> None
      | AddModel n \<Rightarrow> fst (addModel n s)
      | DeleteModel _ \<Rightarrow> True
      | ApplyPricing \<Rightarrow> fst (applySelectedModelPricing s)
      | _ \<Rightarrow> False)"

definition handle_event ::
  "(string \<Rightarrow> string \<Rightarrow> bool) \<Rightarrow> editor_event \<Rightarrow> editor_state \<Rightarrow> editor_state option" where
  "handle_event le ev s =
     (case ev of
        OptionsChanged cs opts \<Rightarrow> (case load_options le cs opts s of Inr s' \<Rightarrow> Some s' | Inl _ \<Rightarrow> None)
      | CandidatesChanged cs opts \<Rightarrow>
          (case load_options le cs opts s of Inr s' \<Rightarrow> Some (reset_page s') | Inl _ \<Rightarrow> None)
      | SelectModel n \<Rightarrow> Some (s\<lparr>selectedModelName := n\<rparr>)
      | SelectModels ns \<Rightarrow> Some (s\<lparr>selectedModelNames := ns\<rparr>)
      | SetSearch txt \<Rightarrow> Some (if txt = searchText s then s else reset_page (s\<lparr>searchText := txt\<rparr>))
      | SetPage p \<Rightarrow> Some (s\<lparr>currentPage := Suc p\<rparr>)
      | SetConflictOnly b \<Rightarrow> Some (if b = conflictOnly s then s else reset_page (s\<lparr>conflictOnly := b\<rparr>))
      | ToggleField f b \<Rightarrow> Some (handleOptionalFieldToggle f b s)
      | ChangeNumeric f v \<Rightarrow> Some (handleNumericFieldChange f v s)
      | ChangeMode m \<Rightarrow> Some (handleBillingModeChange m s)
      | ChangeExpr e \<Rightarrow> Some (handleBillingExprChange e s)
      | ChangeRules e \<Rightarrow> Some (handleRequestRuleExprChange e s)
      | AddModel n \<Rightarrow> Some (snd (snd (addModel n s)))
      | DeleteModel n \<Rightarrow> Some (deleteModel n s)
      | ApplyPricing \<Rightarrow> Some (snd (snd (applySelectedModelPricing s))))"

text \<open>One event and the effects of the render after it.\<close>

definition editor_step ::
  "(string \<Rightarrow> string \<Rightarrow> bool) \<Rightarrow> editor_event \<Rightarrow> editor_state \<Rightarrow> editor_state option" where
  "editor_step le ev s =
     map_option (\<lambda>s'. reselect (if replaces_models ev s then prune_selected s' else s'))
       (handle_event le ev s)"

end
