(* ===== verification/PricingProps.thy ===== *)
theory PricingProps
  imports PricingHook
begin

text \<open>
  Correctness of the pricing editor: what a save writes and when it is refused, the
  invariant of the hook over all sequences of events, the effect of applying one model's
  prices to others, and the pages.
\<close>

section \<open>Serializing one model\<close>

text \<open>A price and a ratio are never written for the same model.\<close>

definition exclusive_output :: "ratio_output \<Rightarrow> bool" where
  "exclusive_output r \<longleftrightarrow>
     out_ModelPrice r = None
     \<or> (out_ModelRatio r = None \<and> out_CompletionRatio r = None \<and> out_CacheRatio r = None
        \<and> out_CreateCacheRatio r = None \<and> out_ImageRatio r = None \<and> out_AudioRatio r = None
        \<and> out_AudioCompletionRatio r = None)"

lemma serialize_exclusive: "serializeModel m = Inr r \<Longrightarrow> exclusive_output r"
  by (auto simp: serializeModel_def exclusive_output_def NO_OUTPUT_def keep_ratios_def Let_def
      split: if_splits option.splits)

definition serialize_error :: "price_model \<Rightarrow> bool" where
  "serialize_error m \<longleftrightarrow>
     (billingMode m = PerToken \<or> billingMode m = TieredExpr)
     \<and> (if price_of (inputPrice m) = None
        then list_ex (\<lambda>s. price_of s \<noteq> None) (derived_prices m)
        else price_of (audioOutputPrice m) \<noteq> None
             \<and> (price_of (audioInputPrice m) = None \<or> price_of (audioInputPrice m) = Some (Fin 0)))"

lemma serialize_error_iff: "(\<exists>e. serializeModel m = Inl e) \<longleftrightarrow> serialize_error m"
  by (cases "billingMode m")
     (auto simp: serializeModel_def serialize_error_def Let_def split: option.splits)

lemma price_filled: "price_of s \<noteq> None \<Longrightarrow> filled s"
  by (auto simp: price_of_def toNumberOrNull_def split: if_splits)

section \<open>Writing the options\<close>

definition stored :: "option_objects \<Rightarrow> string \<Rightarrow> string \<Rightarrow> jsval option" where
  "stored os k n = (case map_of os k of Some kvs \<Rightarrow> obj_get kvs n | None \<Rightarrow> None)"

lemma map_of_store_entry:
  "map_of (store_entry key n v os) k =
     (case map_of os k of
        Some kvs \<Rightarrow> Some (if k = key then obj_put n v kvs else kvs) | None \<Rightarrow> None)"
  by (induction os) (auto simp: store_entry_def split: option.splits)

lemma stored_store_entry:
  "map_of os key \<noteq> None \<Longrightarrow>
   stored (store_entry key n v os) k j = (if k = key \<and> j = n then Some v else stored os k j)"
  by (auto simp: stored_def map_of_store_entry split: option.splits)

lemma dom_store_entry: "map fst (store_entry key n v os) = map fst os"
  by (induction os) (auto simp: store_entry_def)

lemma known_store_entry: "map_of (store_entry key n v os) k = None \<longleftrightarrow> map_of os k = None"
  by (auto simp: map_of_store_entry split: option.splits)

definition store_some :: "string \<Rightarrow> string \<times> jsnum option \<Rightarrow> option_objects \<Rightarrow> option_objects" where
  "store_some n kv os = (case kv of (k, Some x) \<Rightarrow> store_entry k n (JNum x) os | (k, None) \<Rightarrow> os)"

lemma known_store_some: "map_of (store_some n kv os) k = None \<longleftrightarrow> map_of os k = None"
  by (auto simp: store_some_def known_store_entry simp del: not_None_eq split: prod.splits option.splits)

lemma known_store_tiered: "map_of (store_tiered m os) k = None \<longleftrightarrow> map_of os k = None"
  by (simp add: store_tiered_def known_store_entry Let_def del: not_None_eq)

lemma store_ratios_fold:
  "store_ratios n r os = foldl (\<lambda>acc kv. store_some n kv acc) os (output_entries r)"
proof -
  have "(\<lambda>acc (k, v). case v of Some x \<Rightarrow> store_entry k n (JNum x) acc | None \<Rightarrow> acc)
      = (\<lambda>acc kv. store_some n kv acc)"
    by (auto simp: store_some_def fun_eq_iff split: prod.splits option.splits)
  then show ?thesis by (simp add: store_ratios_def)
qed

lemma stored_fold:
  assumes "distinct (map fst kvs)" and "\<forall>kv \<in> set kvs. map_of os (fst kv) \<noteq> None"
  shows "stored (foldl (\<lambda>acc kv. store_some n kv acc) os kvs) k j
    = (if j = n \<and> (\<exists>x. map_of kvs k = Some (Some x)) then map_option JNum (the (map_of kvs k)) else stored os k j)"
  using assms
proof (induction kvs arbitrary: os)
  case (Cons kv kvs)
  obtain key v where kv: "kv = (key, v)" by fastforce
  have kn: "\<forall>kv' \<in> set kvs. map_of (store_some n kv os) (fst kv') \<noteq> None"
    using Cons.prems(2) by (simp add: known_store_some del: not_None_eq)
  have nk: "map_of kvs key = None"
    using Cons.prems(1) by (simp add: kv map_of_eq_None_iff)
  have s1: "stored (store_some n kv os) k j
      = (if k = key \<and> j = n \<and> v \<noteq> None then map_option JNum v else stored os k j)"
    using Cons.prems(2) by (auto simp: store_some_def kv stored_store_entry split: option.splits)
  have d: "distinct (map fst kvs)" using Cons.prems(1) by simp
  show ?case
    unfolding foldl_Cons Cons.IH [OF d kn] s1
    using nk by (cases "k = key"; cases v) (auto simp: kv)
qed simp

lemma known_store_ratios: "map_of (store_ratios n r os) k = None \<longleftrightarrow> map_of os k = None"
proof -
  have "map_of (foldl (\<lambda>acc kv. store_some n kv acc) os kvs) k = None \<longleftrightarrow> map_of os k = None" for kvs
    by (induction kvs arbitrary: os) (simp_all add: known_store_some)
  then show ?thesis by (simp add: store_ratios_fold)
qed

definition ratio_ready :: "option_objects \<Rightarrow> bool" where
  "ratio_ready os \<longleftrightarrow> (\<forall>kv \<in> set (output_entries NO_OUTPUT). map_of os (fst kv) \<noteq> None)"

definition tiered_ready :: "option_objects \<Rightarrow> bool" where
  "tiered_ready os \<longleftrightarrow> (\<forall>k \<in> set (map fst empty_tiered). map_of os k \<noteq> None)"

lemma entries_keys: "fst ` set (output_entries r) = fst ` set (output_entries NO_OUTPUT)"
  by (simp add: output_entries_def)

lemma stored_ratios:
  assumes "ratio_ready os"
  shows "stored (store_ratios n r os) k j
    = (case map_of (output_entries r) k of
         Some (Some x) \<Rightarrow> if j = n then Some (JNum x) else stored os k j
       | _ \<Rightarrow> stored os k j)"
proof -
  have d: "distinct (map fst (output_entries r))" by (simp add: output_entries_def)
  have kn: "\<forall>kv \<in> set (output_entries r). map_of os (fst kv) \<noteq> None"
    using assms entries_keys [of r] unfolding ratio_ready_def by (metis imageE imageI)
  show ?thesis
    unfolding store_ratios_fold stored_fold [OF d kn] by (auto split: option.splits)
qed

lemma ratio_ready_store: "ratio_ready (store_ratios n r os) = ratio_ready os"
  by (simp add: ratio_ready_def known_store_ratios)

lemma tiered_ready_store: "tiered_ready (store_tiered m os) = tiered_ready os"
  by (simp add: tiered_ready_def known_store_tiered del: not_None_eq)

text \<open>What a saved model leaves in the two groups of options.\<close>

definition final_expr :: "price_model \<Rightarrow> string" where
  "final_expr m = combineBillingExpr (billingExpr m) (requestRuleExpr m)"

definition written_ratio :: "price_model \<Rightarrow> string \<Rightarrow> jsval option" where
  "written_ratio m k =
     (case serializeModel m of
        Inr r \<Rightarrow> (case map_of (output_entries r) k of Some (Some x) \<Rightarrow> Some (JNum x) | _ \<Rightarrow> None)
      | Inl _ \<Rightarrow> None)"

definition written_tier :: "price_model \<Rightarrow> string \<Rightarrow> jsval option" where
  "written_tier m k =
     (if billingMode m = TieredExpr \<and> final_expr m \<noteq> []
      then (if k = ''billing_setting.billing_mode'' then Some (JStr ''tiered_expr'')
            else if k = ''billing_setting.billing_expr'' then Some (JStr (final_expr m)) else None)
      else None)"

lemma stored_tiered:
  assumes "tiered_ready os"
  shows "stored (store_tiered m os) k j
    = (if j = model_name m \<and> written_tier m k \<noteq> None then written_tier m k else stored os k j)"
proof -
  have "map_of os ''billing_setting.billing_mode'' \<noteq> None" "map_of os ''billing_setting.billing_expr'' \<noteq> None"
    using assms by (auto simp: tiered_ready_def empty_tiered_def)
  then show ?thesis
    by (auto simp: store_tiered_def written_tier_def final_expr_def Let_def stored_store_entry known_store_entry)
qed

lemma collect_written:
  assumes "collect_output ms (ro, te) = Inr (ro', te')" "distinct (names_of ms)"
    "ratio_ready ro" "tiered_ready te"
  shows "(\<forall>m \<in> set ms. \<forall>k. stored ro' k (model_name m)
             = (case written_ratio m k of Some v \<Rightarrow> Some v | None \<Rightarrow> stored ro k (model_name m)))
    \<and> (\<forall>m \<in> set ms. \<forall>k. stored te' k (model_name m)
             = (case written_tier m k of Some v \<Rightarrow> Some v | None \<Rightarrow> stored te k (model_name m)))
    \<and> (\<forall>n k. n \<notin> set (names_of ms) \<longrightarrow> stored ro' k n = stored ro k n \<and> stored te' k n = stored te k n)"
  using assms
proof (induction ms arbitrary: ro te)
  case (Cons m ms)
  obtain ro1 where c: "collect_output ms (ro1, store_tiered m te) = Inr (ro', te')"
    and r1: "ratio_ready ro1"
    and w: "\<And>k j. stored ro1 k j = (if j = model_name m \<and> written_ratio m k \<noteq> None
        then written_ratio m k else stored ro k j)"
  proof (cases "serializeModel m")
    case (Inl e)
    with Cons.prems that [of ro] show ?thesis
      by (auto simp: Let_def written_ratio_def split: if_splits)
  next
    case (Inr r)
    with Cons.prems that [of "store_ratios (model_name m) r ro"] show ?thesis
      by (auto simp: Let_def written_ratio_def ratio_ready_store stored_ratios split: option.splits)
  qed
  have t1: "tiered_ready (store_tiered m te)" using Cons.prems(4) by (simp add: tiered_ready_store)
  have d: "distinct (names_of ms)" and nm: "model_name m \<notin> set (names_of ms)"
    using Cons.prems(2) by (auto simp: names_of_def)
  note ih = Cons.IH [OF c d r1 t1]
  note wt = stored_tiered [OF Cons.prems(4), of m]
  have ne: "x \<in> set ms \<Longrightarrow> model_name x \<noteq> model_name m" for x
    using nm by (metis image_eqI names_of_def set_map)
  show ?case
  proof (intro conjI ballI allI impI)
    fix x k assume x: "x \<in> set (m # ms)"
    show "stored ro' k (model_name x)
        = (case written_ratio x k of Some v \<Rightarrow> Some v | None \<Rightarrow> stored ro k (model_name x))"
    proof (cases "x \<in> set ms")
      case True
      with ih ne show ?thesis by (simp add: w split: option.splits)
    next
      case False
      with x have "x = m" by simp
      with ih nm show ?thesis by (simp add: w split: option.splits)
    qed
    show "stored te' k (model_name x)
        = (case written_tier x k of Some v \<Rightarrow> Some v | None \<Rightarrow> stored te k (model_name x))"
    proof (cases "x \<in> set ms")
      case True
      with ih ne show ?thesis by (simp add: wt split: option.splits)
    next
      case False
      with x have "x = m" by simp
      with ih nm show ?thesis by (simp add: wt split: option.splits)
    qed
  next
    fix n k assume n: "n \<notin> set (names_of (m # ms))"
    then have "n \<noteq> model_name m" "n \<notin> set (names_of ms)" by (auto simp: names_of_def)
    with ih show "stored ro' k n = stored ro k n" "stored te' k n = stored te k n"
      by (auto simp: w wt)
  qed
qed simp


section \<open>Names, switches and the selection\<close>

lemma names_of_upsert: "(\<And>m. model_name (f m) = model_name m) \<Longrightarrow>
    names_of (models (upsertModel n f s)) = names_of (models s)"
  by (simp add: upsertModel_def names_of_def)

lemma set_field_name [simp]: "model_name (set_field f v m) = model_name m"
  by (cases f) simp_all

lemma fill_name [simp]: "model_name (fillDerivedPricesFromBase m v) = model_name m"
  by (simp add: fillDerivedPricesFromBase_def Let_def split: option.splits)

lemma apply_template_name [simp]: "model_name (apply_template sel m) = model_name m"
  by (simp add: apply_template_def Let_def)

lemma build_name: "buildModelState n maps = Inr m \<Longrightarrow> model_name m = n"
proof -
  have r: "map_sum id f r = Inr m \<Longrightarrow> (\<And>x. model_name (f x) = n) \<Longrightarrow> model_name m = n"
    for f and r :: "split_billing js_result"
    by (cases r) auto
  show "buildModelState n maps = Inr m \<Longrightarrow> ?thesis"
    by (auto simp: buildModelState_def tiered_model_def Let_def split: if_splits jsval.splits dest: r)
qed

lemma build_names: "build_models maps ns = Inr ms \<Longrightarrow> names_of ms = ns"
proof (induction ns arbitrary: ms)
  case (Cons n ns)
  then obtain m ms' where "buildModelState n maps = Inr m" "build_models maps ns = Inr ms'" "ms = m # ms'"
    by (cases "build_models maps ns") (auto split: sum.splits)
  with Cons.IH build_name show ?case by (simp add: names_of_def)
qed (simp add: names_of_def)

definition editor_ok :: "editor_state \<Rightarrow> bool" where
  "editor_ok s \<longleftrightarrow>
     distinct (names_of (models s)) \<and> 1 \<le> currentPage s
     \<and> (\<forall>n \<in> set (names_of (models s)). optionalFieldToggles s n \<noteq> None)"

definition selection_ok :: "editor_state \<Rightarrow> bool" where
  "selection_ok s \<longleftrightarrow>
     (if visibleModels s = [] then selectedModelName s = []
      else selectedModelName s \<in> set (names_of (visibleModels s)))"

lemma reselect_ok: "editor_ok s \<Longrightarrow> editor_ok (reselect s) \<and> selection_ok (reselect s)"
proof -
  assume e: "editor_ok s"
  have v: "visibleModels (s\<lparr>selectedModelName := n\<rparr>) = visibleModels s" for n
    by (cases "filterMode s") (simp_all add: visibleModels_def)
  have "visibleModels s \<noteq> [] \<Longrightarrow> first_name (visibleModels s) \<in> set (names_of (visibleModels s))"
    by (cases "visibleModels s") (simp_all add: first_name_def names_of_def)
  with e show ?thesis
    by (simp add: reselect_def selection_ok_def editor_ok_def v)
qed

lemma prune_ok: "editor_ok (prune_selected s) = editor_ok s"
  by (simp add: prune_selected_def editor_ok_def)

lemma toggle_ok: "editor_ok s \<Longrightarrow> editor_ok (updateOptionalFieldToggle n f b s)"
  by (auto simp: editor_ok_def updateOptionalFieldToggle_def)

lemma upsert_ok: "(\<And>m. model_name (f m) = model_name m) \<Longrightarrow> editor_ok s \<Longrightarrow> editor_ok (upsertModel n f s)"
  using names_of_upsert [of f n s] by (simp add: editor_ok_def) (auto simp: upsertModel_def)

lemma load_ok: "load_options le cs opts s = Inr s' \<Longrightarrow> 1 \<le> currentPage s \<Longrightarrow> editor_ok s'"
proof -
  assume l: "load_options le cs opts s = Inr s'" and p: "1 \<le> currentPage s"
  let ?maps = "read_source_maps opts"
  obtain built where b: "build_models ?maps (source_names cs ?maps) = Inr built"
    and s': "models s' = sort_by (\<lambda>a b. le (model_name a) (model_name b)) built"
      "currentPage s' = currentPage s"
      "optionalFieldToggles s' = map_of (map (\<lambda>m. (model_name m, buildOptionalFieldToggles m)) (models s'))"
    using l by (cases "build_models ?maps (source_names cs ?maps)") (auto simp: load_options_def Let_def)
  have "distinct (names_of (models s'))"
    using build_names [OF b] by (simp add: s'(1) names_of_def source_names_def)
  moreover have "\<forall>n \<in> set (names_of (models s')). optionalFieldToggles s' n \<noteq> None"
    unfolding s'(3) map_of_eq_None_iff by (force simp: names_of_def simp del: not_None_eq)
  ultimately show ?thesis using p s'(2) by (simp add: editor_ok_def)
qed

lemma toggles_fold_some:
  "ts k \<noteq> None \<Longrightarrow> foldl (\<lambda>ts n. ts(n \<mapsto> f n)) ts ns k \<noteq> None"
  by (induction ns arbitrary: ts) (simp_all del: not_None_eq)

lemma apply_ok: "editor_ok s \<Longrightarrow> editor_ok (snd (snd (applySelectedModelPricing s)))"
proof (cases "selectedModel s")
  case (Some sel)
  assume e: "editor_ok s"
  show ?thesis
  proof (cases "selectedModelNames s = []")
    case False
    have "names_of (map (\<lambda>m. if model_name m \<in> set (selectedModelNames s) then apply_template sel m else m) (models s))
        = names_of (models s)"
      by (simp add: names_of_def)
    with e Some False show ?thesis
      using toggles_fold_some [of "optionalFieldToggles s" _
          "\<lambda>n. apply_toggles (toggles_of s (model_name sel)) (find (\<lambda>m. model_name m = n) (models s))" "selectedModelNames s"]
      by (simp add: applySelectedModelPricing_def editor_ok_def Let_def del: not_None_eq)
  qed (use e Some in \<open>simp add: applySelectedModelPricing_def\<close>)
qed (simp add: applySelectedModelPricing_def)

lemma handle_ok:
  assumes "editor_ok s" "handle_event le ev s = Some s'"
  shows "editor_ok s'"
proof (cases ev)
  case (OptionsChanged cs opts)
  with assms load_ok show ?thesis by (auto simp: handle_event_def editor_ok_def split: sum.splits)
next
  case (CandidatesChanged cs opts)
  with assms obtain t where t: "load_options le cs opts s = Inr t" "s' = reset_page t"
    by (auto simp: handle_event_def split: sum.splits)
  have "editor_ok t" using load_ok [OF t(1)] assms(1) by (simp add: editor_ok_def)
  with t(2) show ?thesis by (simp add: reset_page_def editor_ok_def)
next
  case (ToggleField f b)
  with assms show ?thesis
    by (auto simp: handle_event_def handleOptionalFieldToggle_def Let_def
        intro!: toggle_ok upsert_ok split: option.splits)
next
  case (ChangeNumeric f v)
  with assms show ?thesis
    by (auto simp: handle_event_def handleNumericFieldChange_def Let_def intro!: upsert_ok split: option.splits)
next
  case (ChangeMode v)
  with assms show ?thesis
    by (auto simp: handle_event_def handleBillingModeChange_def Let_def intro!: upsert_ok split: option.splits)
next
  case (ChangeExpr e)
  with assms show ?thesis
    by (auto simp: handle_event_def handleBillingExprChange_def intro!: upsert_ok split: option.splits)
next
  case (ChangeRules e)
  with assms show ?thesis
    by (auto simp: handle_event_def handleRequestRuleExprChange_def intro!: upsert_ok split: option.splits)
next
  case (AddModel n)
  with assms show ?thesis
    by (auto simp: handle_event_def addModel_def editor_ok_def names_of_def EMPTY_MODEL_def Let_def split: if_splits)
next
  case (DeleteModel n)
  have "distinct (map model_name (filter P ms))" if "distinct (map model_name ms)" for P ms
    using that by (rule distinct_map_filter)
  with DeleteModel assms show ?thesis
    by (auto simp: handle_event_def deleteModel_def editor_ok_def names_of_def Let_def)
next
  case ApplyPricing
  with assms apply_ok show ?thesis by (auto simp: handle_event_def)
qed (use assms in \<open>auto simp: handle_event_def editor_ok_def reset_page_def split: if_splits\<close>)

definition editor_inv :: "editor_state \<Rightarrow> bool" where
  "editor_inv s \<longleftrightarrow> editor_ok s \<and> selection_ok s"

lemma step_ok: "editor_inv s \<Longrightarrow> editor_step le ev s = Some s' \<Longrightarrow> editor_inv s'"
proof -
  assume i: "editor_inv s" and st: "editor_step le ev s = Some s'"
  then obtain t where t: "handle_event le ev s = Some t"
      "s' = reselect (if replaces_models ev s then prune_selected t else t)"
    by (auto simp: editor_step_def)
  have "editor_ok t" using handle_ok [OF _ t(1)] i by (simp add: editor_inv_def)
  then have "editor_ok (if replaces_models ev s then prune_selected t else t)" by (simp add: prune_ok)
  from reselect_ok [OF this] t(2) show ?thesis by (simp add: editor_inv_def)
qed

interpretation editor: invariant_system "editor_step le" "\<lambda>s. s = initial_editor fm" editor_inv
proof unfold_locales
  show "s = initial_editor fm \<Longrightarrow> editor_inv s" for s
    by (cases fm) (simp_all add: editor_inv_def editor_ok_def selection_ok_def initial_editor_def
        names_of_def visibleModels_def)
  show "editor_inv s \<Longrightarrow> editor_step le e s = Some s' \<Longrightarrow> editor_inv s'" for s e s'
    by (rule step_ok)
qed

section \<open>Pages\<close>

lemma take_drop_pages:
  "0 < k \<Longrightarrow> n * k \<ge> length xs \<Longrightarrow> concat (map (\<lambda>p. take k (drop (p * k) xs)) [0..<n]) = xs"
proof (induction n arbitrary: xs)
  case (Suc n)
  have e: "take k (drop (Suc p * k) xs) = take k (drop (p * k) (drop k xs))" for p
    by (simp add: add.commute)
  have "concat (map (\<lambda>p. take k (drop (Suc p * k) xs)) [0..<n]) = drop k xs"
    unfolding e using Suc by (intro Suc.IH) auto
  moreover have "[0..<Suc n] = 0 # map Suc [0..<n]" by (simp add: upt_conv_Cons map_Suc_upt)
  ultimately show ?case by (simp add: comp_def)
qed simp

definition page_count :: "editor_state \<Rightarrow> nat" where
  "page_count s = (length (filteredModels s) + PAGE_SIZE - 1) div PAGE_SIZE"

lemma page_irrelevant: "filteredModels (s\<lparr>currentPage := p\<rparr>) = filteredModels s"
  by (cases "filterMode s") (simp_all add: filteredModels_def visibleModels_def)

lemma pages_all:
  "concat (map (\<lambda>p. pagedData (s\<lparr>currentPage := Suc p\<rparr>)) [0..<page_count s]) = filteredModels s"
proof -
  have "length (filteredModels s) \<le> page_count s * PAGE_SIZE"
    by (simp add: page_count_def PAGE_SIZE_def)
  then show ?thesis
    using take_drop_pages [of PAGE_SIZE "filteredModels s" "page_count s"]
    by (simp add: pagedData_def page_irrelevant PAGE_SIZE_def)
qed

section \<open>Which saves fail\<close>

lemma ready_empty: "ratio_ready empty_output" "tiered_ready empty_tiered"
  by (simp_all add: ratio_ready_def tiered_ready_def empty_output_def output_entries_def empty_tiered_def)

lemma stored_empty: "stored empty_output k n = None" "stored empty_tiered k n = None"
  by (auto simp: stored_def empty_output_def output_entries_def empty_tiered_def)

section \<open>Properties\<close>

text \<open>
  C14: A successful save writes, for every model of the list, exactly the ratios and prices
  that \<open>serializeModel\<close> gives it, under its name, and the billing mode and expression of a
  tiered model; nothing is written for any other name.
\<close>

theorem save_writes_models:
  assumes "collect_output ms (empty_output, empty_tiered) = Inr (ro, te)" "distinct (names_of ms)"
  shows "(\<forall>m. m \<in> set ms \<longrightarrow> stored ro k (model_name m) = written_ratio m k
                           \<and> stored te k (model_name m) = written_tier m k)
    \<and> (n \<notin> set (names_of ms) \<longrightarrow> stored ro k n = None \<and> stored te k n = None)"
  using collect_written [OF assms ready_empty]
  by (auto simp: stored_empty split: option.splits)

definition sample_models :: "price_model list" where
  "sample_models =
     [EMPTY_MODEL\<lparr>model_name := ''a'', inputPrice := ''4'', completionPrice := ''8''\<rparr>,
      EMPTY_MODEL\<lparr>model_name := ''b'', billingMode := PerRequest, fixedPrice := ''0.5''\<rparr>,
      EMPTY_MODEL\<lparr>model_name := ''c'', billingMode := TieredExpr, billingExpr := ''p * 2'',
                  completionPrice := ''8''\<rparr>]"

lemma save_writes_models_witness:
  "\<exists>ro te. collect_output sample_models (empty_output, empty_tiered) = Inr (ro, te)
     \<and> stored ro ''ModelRatio'' ''a'' = written_ratio (hd sample_models) ''ModelRatio''
     \<and> stored ro ''ModelRatio'' ''zzz'' = None"
proof -
  obtain ro te where c: "collect_output sample_models (empty_output, empty_tiered) = Inr (ro, te)"
  proof -
    have "case collect_output sample_models (empty_output, empty_tiered) of Inr _ \<Rightarrow> True | Inl _ \<Rightarrow> False"
      by code_simp
    then show ?thesis using that
      by (cases "collect_output sample_models (empty_output, empty_tiered)") auto
  qed
  have d: "distinct (names_of sample_models)" by code_simp
  have h: "hd sample_models \<in> set sample_models" and n: "model_name (hd sample_models) = ''a''"
    and z: "''zzz'' \<notin> set (names_of sample_models)"
    by (simp_all add: sample_models_def names_of_def EMPTY_MODEL_def)
  note w = save_writes_models [OF c d, of "''ModelRatio''" "''zzz''"]
  have "stored ro ''ModelRatio'' (model_name (hd sample_models)) = written_ratio (hd sample_models) ''ModelRatio''"
    by (rule conjunct1 [OF conjunct1 [OF w, rule_format, OF h]])
  moreover have "stored ro ''ModelRatio'' ''zzz'' = None"
    by (rule conjunct1 [OF conjunct2 [OF w, rule_format, OF z]])
  ultimately show ?thesis using c by (intro exI conjI) (simp_all only: n)
qed

text \<open>
  C16: No save writes both a fixed price and a ratio for the same model name, so the
  conflict the editor warns about is gone after saving.
\<close>

theorem save_resolves_conflicts:
  assumes "collect_output ms (empty_output, empty_tiered) = Inr (ro, te)" "distinct (names_of ms)"
    and "k \<in> set (map fst (tl (output_entries NO_OUTPUT)))"
  shows "stored ro ''ModelPrice'' n = None \<or> stored ro k n = None"
proof (cases "n \<in> set (names_of ms)")
  case True
  then obtain m where m: "m \<in> set ms" "n = model_name m" by (auto simp: names_of_def)
  have "written_ratio m ''ModelPrice'' = None \<or> written_ratio m k = None"
  proof (cases "serializeModel m")
    case (Inr r)
    show ?thesis
    proof (cases "out_ModelPrice r")
      case None
      with Inr show ?thesis by (simp add: written_ratio_def output_entries_def)
    next
      case (Some x)
      have "k \<in> {''ModelRatio'', ''CompletionRatio'', ''CacheRatio'', ''CreateCacheRatio'',
          ''ImageRatio'', ''AudioRatio'', ''AudioCompletionRatio''}"
        using assms(3) by (simp add: output_entries_def)
      with Some Inr serialize_exclusive [OF Inr] have "written_ratio m k = None"
        by (simp only: insert_iff empty_iff simp_thms, elim disjE)
           (simp_all add: written_ratio_def output_entries_def exclusive_output_def)
      then show ?thesis ..
    qed
  qed (simp add: written_ratio_def)
  with collect_written [OF assms(1,2) ready_empty] m show ?thesis
    by (auto simp: stored_empty split: option.splits)
next
  case False
  with collect_written [OF assms(1,2) ready_empty] show ?thesis by (simp add: stored_empty)
qed

definition conflict_models :: "price_model list" where
  "conflict_models =
     [EMPTY_MODEL\<lparr>model_name := ''a'', billingMode := PerRequest, fixedPrice := ''1'', inputPrice := ''4'',
        rawRatios := EMPTY_RATIOS\<lparr>r_modelRatio := ''2''\<rparr>, hasConflict := True\<rparr>]"

lemma save_resolves_conflicts_witness:
  "\<exists>ro te. collect_output conflict_models (empty_output, empty_tiered) = Inr (ro, te)
     \<and> (stored ro ''ModelPrice'' ''a'' = None \<or> stored ro ''ModelRatio'' ''a'' = None)"
proof -
  obtain ro te where c: "collect_output conflict_models (empty_output, empty_tiered) = Inr (ro, te)"
    by (simp add: conflict_models_def EMPTY_MODEL_def serializeModel_def store_tiered_def Let_def)
  have "distinct (names_of conflict_models)" by (simp add: conflict_models_def names_of_def)
  moreover have "''ModelRatio'' \<in> set (map fst (tl (output_entries NO_OUTPUT)))"
    by (simp add: output_entries_def)
  ultimately show ?thesis using save_resolves_conflicts [OF c] c by blast
qed

text \<open>A model billed per token with a price that is derived from one that is not there.\<close>

definition lacks_input :: "price_model \<Rightarrow> bool" where
  "lacks_input m \<longleftrightarrow>
     billingMode m = PerToken \<and> price_of (inputPrice m) = None
     \<and> (price_of (completionPrice m) \<noteq> None \<or> price_of (cachePrice m) \<noteq> None
        \<or> price_of (createCachePrice m) \<noteq> None \<or> price_of (imagePrice m) \<noteq> None
        \<or> price_of (audioInputPrice m) \<noteq> None \<or> price_of (audioOutputPrice m) \<noteq> None)"

definition lacks_audio_input :: "price_model \<Rightarrow> bool" where
  "lacks_audio_input m \<longleftrightarrow>
     billingMode m = PerToken \<and> price_of (inputPrice m) \<noteq> None \<and> price_of (audioOutputPrice m) \<noteq> None
     \<and> (price_of (audioInputPrice m) = None \<or> price_of (audioInputPrice m) = Some (Fin 0))"

lemma token_model_fails:
  assumes "billingMode m \<noteq> TieredExpr"
  shows "case serializeModel m of
      Inl e \<Rightarrow> (lacks_input m \<or> lacks_audio_input m)
        \<and> e = (if lacks_input m then M_missingInput (model_name m) else M_missingAudioInput (model_name m))
    | Inr r \<Rightarrow> \<not> lacks_input m \<and> \<not> lacks_audio_input m"
proof (cases "price_of (inputPrice m)")
  case None
  then show ?thesis
    using assms
    by (cases "billingMode m") (auto simp: serializeModel_def lacks_input_def lacks_audio_input_def derived_prices_def)
next
  case (Some base)
  then show ?thesis
    using assms
    by (cases "billingMode m") (auto simp: serializeModel_def lacks_input_def lacks_audio_input_def Let_def
        split: option.splits)
qed

lemma first_failure:
  "case find (\<lambda>m. lacks_input m \<or> lacks_audio_input m) ms of
     None \<Rightarrow> \<exists>r. collect_output ms out = Inr r
   | Some m \<Rightarrow> collect_output ms out =
       Inl (if lacks_input m then M_missingInput (model_name m) else M_missingAudioInput (model_name m))"
proof (induction ms arbitrary: out)
  case (Cons m ms)
  obtain ro te where out: "out = (ro, te)" by fastforce
  have go: ?case if "\<not> lacks_input m" "\<not> lacks_audio_input m"
      "collect_output (m # ms) out = collect_output ms out'" for out'
    unfolding that(3) using Cons.IH [of out'] that(1,2) by (simp only: find.simps simp_thms if_False)
  show ?case
  proof (cases "billingMode m = TieredExpr")
    case True
    then have "\<not> lacks_input m" "\<not> lacks_audio_input m" by (simp_all add: lacks_input_def lacks_audio_input_def)
    with True go show ?thesis by (cases "serializeModel m") (simp_all add: out Let_def)
  next
    case False
    show ?thesis
    proof (cases "serializeModel m")
      case (Inl e)
      with token_model_fails [OF False] False show ?thesis by (simp add: out Let_def)
    next
      case (Inr r)
      with token_model_fails [OF False] go show ?thesis by (simp add: out Let_def)
    qed
  qed
qed (auto simp: split_paired_all)

text \<open>
  C35: A save is refused for the first model in the list that is billed per token and has a
  dependent price without a usable base, and for no other reason: a completion, cache, image or
  audio price without an input price, or an audio output price without a nonzero audio input
  price.  The message names that model and the missing price.  Models billed per request or per
  second have no such prices, and tiered models are saved without their fallback ratios.
\<close>

theorem save_refused_iff:
  "case find (\<lambda>m. lacks_input m \<or> lacks_audio_input m) ms of
     None \<Rightarrow> \<exists>rs. save_requests ms = Inr rs
   | Some m \<Rightarrow> save_requests ms =
       Inl (if lacks_input m then M_missingInput (model_name m) else M_missingAudioInput (model_name m))"
  using first_failure [of ms "(empty_output, empty_tiered)"]
  by (auto simp: save_requests_def split: option.splits)

text \<open>
  The warnings announce a refused save: when a model billed per token cannot be
  serialized, the editor shows the warning for the missing input price or for the missing
  audio input price, unless the base text is there but is no usable number (\<open>.\<close>, or an
  audio input price of zero).
\<close>

theorem refused_save_is_warned:
  assumes "serializeModel m = Inl e"
  shows "M_needInputPrice \<in> set (getModelWarnings (Some m)) \<or> M_needAudioInput \<in> set (getModelWarnings (Some m))
    \<or> billingMode m = TieredExpr
    \<or> (filled (inputPrice m) \<and> price_of (inputPrice m) = None)
    \<or> (filled (audioInputPrice m) \<and> price_of (audioInputPrice m) \<in> {None, Some (Fin 0)})"
proof -
  have "serialize_error m" using assms serialize_error_iff by blast
  then have pt: "billingMode m = TieredExpr \<or> billingMode m = PerToken"
    and er: "if price_of (inputPrice m) = None
        then list_ex (\<lambda>s. price_of s \<noteq> None) (derived_prices m)
        else price_of (audioOutputPrice m) \<noteq> None
             \<and> (price_of (audioInputPrice m) = None \<or> price_of (audioInputPrice m) = Some (Fin 0))"
    by (auto simp: serialize_error_def)
  have d: "list_ex (\<lambda>s. price_of s \<noteq> None) xs \<Longrightarrow> list_ex filled xs" for xs
    using price_filled by (auto simp: list_ex_iff)
  show ?thesis
  proof (cases "price_of (inputPrice m) = None")
    case True
    with er d have "list_ex filled (derived_prices m)" by simp
    with True pt show ?thesis by (auto simp: getModelWarnings_def)
  next
    case False
    with er price_filled have "filled (audioOutputPrice m)"
      "price_of (audioInputPrice m) = None \<or> price_of (audioInputPrice m) = Some (Fin 0)" by auto
    with pt price_filled [of "audioInputPrice m"] show ?thesis
      by (cases "filled (audioInputPrice m)") (auto simp: getModelWarnings_def)
  qed
qed

lemma refused_save_is_warned_witness:
  "let m = EMPTY_MODEL\<lparr>model_name := ''a'', cachePrice := ''1''\<rparr>
   in serializeModel m = Inl (M_missingInput ''a'')
     \<and> (M_needInputPrice \<in> set (getModelWarnings (Some m)) \<or> M_needAudioInput \<in> set (getModelWarnings (Some m))
        \<or> billingMode m = TieredExpr
        \<or> (filled (inputPrice m) \<and> price_of (inputPrice m) = None)
        \<or> (filled (audioInputPrice m) \<and> price_of (audioInputPrice m) \<in> {None, Some (Fin 0)}))"
proof -
  let ?m = "EMPTY_MODEL\<lparr>model_name := ''a'', cachePrice := ''1''\<rparr>"
  have s: "serializeModel ?m = Inl (M_missingInput ''a'')" by code_simp
  show ?thesis unfolding Let_def using s refused_save_is_warned [OF s] by (intro conjI)
qed

text \<open>
  C18: In every state the editor reaches, whatever options arrive and whatever the user
  does, model names are distinct, the page is at least 1, every model has its switches,
  and a model is selected whenever one is visible.
\<close>

theorem editor_reaches_ok:
  assumes "reached (editor_step le) (initial_editor fm) s"
  shows "distinct (names_of (models s)) \<and> 1 \<le> currentPage s
    \<and> (\<forall>n \<in> set (names_of (models s)). optionalFieldToggles s n \<noteq> None)
    \<and> (visibleModels s \<noteq> [] \<longrightarrow> selectedModel s \<noteq> None)"
proof -
  have i: "editor_inv s" using editor.inv_reached [OF assms refl] .
  have "selectedModel s \<noteq> None" if "visibleModels s \<noteq> []"
  proof -
    have "selectedModelName s \<in> set (names_of (visibleModels s))"
      using i that by (simp add: editor_inv_def selection_ok_def)
    then show ?thesis by (auto simp: selectedModel_def find_None_iff names_of_def simp del: not_None_eq)
  qed
  with i show ?thesis unfolding editor_inv_def editor_ok_def by blast
qed

lemma editor_reaches_ok_witness:
  "\<exists>s. reached (editor_step (\<lambda>a b. True)) (initial_editor FilterAll) s \<and> visibleModels s \<noteq> []
     \<and> selectedModel s \<noteq> None"
proof -
  let ?le = "\<lambda>a b. True"
  obtain s where s: "editor_step ?le (AddModel ''gpt'') (initial_editor FilterAll) = Some s"
    by (simp add: editor_step_def handle_event_def)
  then have "visibleModels s \<noteq> []"
    by (auto simp: editor_step_def handle_event_def addModel_def Let_def trim_by_def js_space_def
        initial_editor_def names_of_def reselect_def visibleModels_def replaces_models_def prune_selected_def
        EMPTY_MODEL_def)
  moreover have "reached (editor_step ?le) (initial_editor FilterAll) s"
    using s by (rule reached.event [OF reached.start])
  ultimately show ?thesis using editor_reaches_ok by blast
qed

text \<open>
  Applying the selected model's prices changes exactly the ticked models: the names
  and their order stay, a model that is not ticked is untouched, a ticked one gets the
  template's prices and expressions, and whether a model is billed per second never changes.
\<close>

theorem apply_pricing_effect:
  assumes "applySelectedModelPricing s = (True, nt, s')" "selectedModel s = Some sel"
    and "i < length (models s)"
  shows "length (models s') = length (models s)
    \<and> model_name (models s' ! i) = model_name (models s ! i)
    \<and> (billingMode (models s' ! i) = PerSecond \<longleftrightarrow> billingMode (models s ! i) = PerSecond)
    \<and> (if model_name (models s ! i) \<in> set (selectedModelNames s)
       then fixedPrice (models s' ! i) = fixedPrice sel \<and> inputPrice (models s' ! i) = inputPrice sel
         \<and> cachePrice (models s' ! i) = cachePrice sel
         \<and> createCachePrice (models s' ! i) = createCachePrice sel
         \<and> imagePrice (models s' ! i) = imagePrice sel
         \<and> audioInputPrice (models s' ! i) = audioInputPrice sel
         \<and> audioOutputPrice (models s' ! i) = audioOutputPrice sel
         \<and> billingExpr (models s' ! i) = billingExpr sel
         \<and> requestRuleExpr (models s' ! i) = requestRuleExpr sel
         \<and> (completionRatioLocked (models s ! i) \<or> completionPrice (models s' ! i) = completionPrice sel)
       else models s' ! i = models s ! i)"
proof -
  let ?sel = "set (selectedModelNames s)"
  have ms: "models s' = map (\<lambda>m. if model_name m \<in> ?sel then apply_template sel m else m) (models s)"
    using assms(1,2) by (auto simp: applySelectedModelPricing_def Let_def split: if_splits)
  have i: "models s' ! i = (if model_name (models s ! i) \<in> ?sel
      then apply_template sel (models s ! i) else models s ! i)"
    using assms(3) by (simp add: ms)
  show ?thesis
    unfolding i by (simp add: ms apply_template_def apply_mode_def Let_def)
qed

lemma apply_pricing_effect_witness:
  "\<exists>s s' sel. applySelectedModelPricing s = (True, Some (SuccessNotice (M_applied ''a'' 1)), s')
     \<and> selectedModel s = Some sel \<and> fixedPrice (models s' ! 1) = ''2''"
proof -
  let ?a = "EMPTY_MODEL\<lparr>model_name := ''a'', billingMode := PerRequest, fixedPrice := ''2''\<rparr>"
  let ?b = "EMPTY_MODEL\<lparr>model_name := ''b''\<rparr>"
  let ?s = "(initial_editor FilterAll)\<lparr>models := [?a, ?b], selectedModelName := ''a'',
      selectedModelNames := [''b'']\<rparr>"
  have sel: "selectedModel ?s = Some ?a"
    by (simp add: selectedModel_def visibleModels_def initial_editor_def)
  obtain s' where s': "applySelectedModelPricing ?s = (True, Some (SuccessNotice (M_applied ''a'' 1)), s')"
    by (simp add: applySelectedModelPricing_def sel Let_def)
  have "1 < length (models ?s)" "model_name (models ?s ! 1) \<in> set (selectedModelNames ?s)" by simp_all
  with apply_pricing_effect [OF s' sel, of 1] have "fixedPrice (models s' ! 1) = ''2''" by simp
  with s' sel show ?thesis by blast
qed

text \<open>
  The pages show every filtered model exactly once and in order: the pages
  \<open>1, 2, \<dots>\<close> put together are the filtered list.
\<close>

theorem pages_show_all:
  "concat (map (\<lambda>p. pagedData (s\<lparr>currentPage := Suc p\<rparr>)) [0..<page_count s]) = filteredModels s"
  by (rule pages_all)

section \<open>Where the editor parts from its intent\<close>

text \<open>A per-second model added by hand is billed per token, and its mode cannot be changed.\<close>

lemma added_per_second_model_stuck:
  "let s = snd (snd (addModel ''seedance-2'' (initial_editor FilterAll)))
   in isPerSecondModelName ''seedance-2'' \<and> map billingMode (models s) = [PerToken]
      \<and> map billingMode (models (handleBillingModeChange PerSecond s)) = [PerToken]"
  by (simp add: addModel_def Let_def trim_by_def js_space_def initial_editor_def names_of_def
      EMPTY_MODEL_def isPerSecondModelName_def PER_SECOND_MODEL_NAMES_def handleBillingModeChange_def
      selectedModel_def visibleModels_def)

text \<open>An input price of \<open>.\<close> passes the input filter, raises no warning and fails the save.\<close>

lemma dot_price_not_warned:
  "let m = EMPTY_MODEL\<lparr>model_name := ''a'', inputPrice := ''.'', cachePrice := ''1''\<rparr>
   in numeric_input (inputPrice m) \<and> getModelWarnings (Some m) = []
      \<and> serializeModel m = Inl (M_missingInput ''a'')"
  by code_simp

text \<open>A model added while only unset models are shown stays invisible.\<close>

lemma added_model_invisible:
  "filterMode s = FilterUnset \<Longrightarrow> n \<notin> set (initialVisibleModelNames s) \<Longrightarrow> js_trim n = n \<Longrightarrow>
   visibleModels (snd (snd (addModel n s))) = visibleModels s"
  by (simp add: addModel_def Let_def visibleModels_def EMPTY_MODEL_def)

end
