(* ===== verification/Base64.thy ===== *)
theory Base64
  imports JsValue
begin

text \<open>
  Bytes as text: \<open>btoa\<close> and \<open>atob\<close> of the browser, the UTF-8 bytes of a string
  (\<open>TextEncoder\<close>; our characters are the code points below 256, of one or two bytes), and
  \<open>encodeURIComponent\<close>.  A string with one byte per character is a binary string; the buffers of
  \<open>Passkeys\<close> are lists of 8-bit words.
\<close>

section \<open>The alphabet\<close>

definition b64_alphabet :: string where
  "b64_alphabet = ''ABCDEFGHIJKLMNOPQRSTUVWXYZabcdefghijklmnopqrstuvwxyz0123456789+/''"

definition b64_char :: "nat \<Rightarrow> char" where
  "b64_char i = b64_alphabet ! i"

definition b64_value :: "char \<Rightarrow> nat option" where
  "b64_value c = find_index (\<lambda>x. x = c) b64_alphabet"

lemma b64_table: "list_all (\<lambda>i. b64_value (b64_char i) = Some i \<and> b64_char i \<noteq> CHR ''='' \<and> \<not> js_space (b64_char i)) [0..<64]"
  by code_simp

lemma b64_value_char [simp]: "i < 64 \<Longrightarrow> b64_value (b64_char i) = Some i"
  and b64_char_not_pad: "i < 64 \<Longrightarrow> b64_char i \<noteq> CHR ''=''"
  and b64_char_not_space: "i < 64 \<Longrightarrow> \<not> js_space (b64_char i)"
  using b64_table by (simp_all add: list_all_iff)

section \<open>btoa and atob\<close>

text \<open>Three bytes are four digits of six bits; one or two bytes at the end are padded.\<close>

definition byte_of :: "char \<Rightarrow> nat" where
  "byte_of c = of_char c"

definition char_of_byte :: "nat \<Rightarrow> char" where
  "char_of_byte n = char_of n"

lemma byte_bound [simp]: "byte_of c < 256"
  unfolding byte_of_def by (rule nat_of_char_less_256)

lemma char_of_byte_of [simp]: "char_of_byte (byte_of c) = c"
  by (simp add: char_of_byte_def byte_of_def)

text \<open>The four digits of three bytes, and the bytes of the digits.\<close>

definition sextet1 :: "nat \<Rightarrow> nat" where "sextet1 a = a div 4"
definition sextet2 :: "nat \<Rightarrow> nat \<Rightarrow> nat" where "sextet2 a b = a mod 4 * 16 + b div 16"
definition sextet3 :: "nat \<Rightarrow> nat \<Rightarrow> nat" where "sextet3 b c = b mod 16 * 4 + c div 64"
definition sextet4 :: "nat \<Rightarrow> nat" where "sextet4 c = c mod 64"
definition octet1 :: "nat \<Rightarrow> nat \<Rightarrow> nat" where "octet1 p q = p * 4 + q div 16"
definition octet2 :: "nat \<Rightarrow> nat \<Rightarrow> nat" where "octet2 q r = q mod 16 * 16 + r div 4"
definition octet3 :: "nat \<Rightarrow> nat \<Rightarrow> nat" where "octet3 r t = r mod 4 * 64 + t"

lemma div_mod_digit: "b < m \<Longrightarrow> (a * m + b) div m = (a::nat)" "b < m \<Longrightarrow> (a * m + b) mod m = (b::nat)"
  by simp_all

lemma sextet_bounds [simp]:
  "a < 256 \<Longrightarrow> sextet1 a < 64" "b < 256 \<Longrightarrow> sextet2 a b < 64" "c < 256 \<Longrightarrow> sextet3 b c < 64"
  "sextet4 c < 64"
proof -
  show "sextet1 a < 64" if "a < 256" using that by (simp add: sextet1_def less_mult_imp_div_less)
  show "sextet4 c < 64" by (simp add: sextet4_def)
  show "sextet2 a b < 64" if "b < 256"
  proof -
    have "b div 16 < 16" "a mod 4 < 4" using that by (simp_all add: less_mult_imp_div_less)
    then show ?thesis by (simp add: sextet2_def)
  qed
  show "sextet3 b c < 64" if "c < 256"
  proof -
    have "c div 64 < 4" "b mod 16 < 16" using that by (simp_all add: less_mult_imp_div_less)
    then show ?thesis by (simp add: sextet3_def)
  qed
qed

lemma octet_sextet [simp]:
  "b < 256 \<Longrightarrow> octet1 (sextet1 a) (sextet2 a b) = a"
  "b < 256 \<Longrightarrow> c < 256 \<Longrightarrow> octet2 (sextet2 a b) (sextet3 b c) = b"
  "c < 256 \<Longrightarrow> octet3 (sextet3 b c) (sextet4 c) = c"
proof -
  have digit: "b div 16 < 16" if "b < 256" for b :: nat using that by (simp add: less_mult_imp_div_less)
  have top: "c div 64 < 4" if "c < 256" for c :: nat using that by (simp add: less_mult_imp_div_less)
  show "octet1 (sextet1 a) (sextet2 a b) = a" if "b < 256"
    by (simp only: octet1_def sextet1_def sextet2_def div_mod_digit(1) [OF digit [OF that]] div_mult_mod_eq)
  show "octet2 (sextet2 a b) (sextet3 b c) = b" if "b < 256" "c < 256"
    by (simp only: octet2_def sextet3_def sextet2_def div_mod_digit(1) [OF top [OF that(2)]]
        div_mod_digit(2) [OF digit [OF that(1)]] div_mult_mod_eq)
  show "octet3 (sextet3 b c) (sextet4 c) = c" if "c < 256"
    by (simp only: octet3_def sextet3_def sextet4_def div_mod_digit(2) [OF top [OF that]]
        div_mult_mod_eq)
qed

fun btoa :: "string \<Rightarrow> string" where
  "btoa [] = []"
| "btoa [a] =
     [b64_char (sextet1 (byte_of a)), b64_char (sextet2 (byte_of a) 0), CHR ''='', CHR ''='']"
| "btoa [a, b] =
     [b64_char (sextet1 (byte_of a)), b64_char (sextet2 (byte_of a) (byte_of b)),
      b64_char (sextet3 (byte_of b) 0), CHR ''='']"
| "btoa (a # b # c # s) =
     b64_char (sextet1 (byte_of a)) # b64_char (sextet2 (byte_of a) (byte_of b))
     # b64_char (sextet3 (byte_of b) (byte_of c)) # b64_char (sextet4 (byte_of c)) # btoa s"

text \<open>\<open>atob\<close>: white space is dropped, then at most two padding characters at the end of a text
  whose length is a multiple of four.  A rest of one digit, or a character that is no digit, is an
  error; the last bits of a rest of two or three digits are dropped.\<close>

definition InvalidCharacterError :: js_error where
  "InvalidCharacterError = JsError ''InvalidCharacterError''"

definition ascii_space :: "char \<Rightarrow> bool" where
  "ascii_space c \<longleftrightarrow> c \<in> {CHR 0x20, CHR 0x09, CHR 0x0A, CHR 0x0C, CHR 0x0D}"

fun digits_bytes :: "nat list \<Rightarrow> string option" where
  "digits_bytes [] = Some []"
| "digits_bytes [p] = None"
| "digits_bytes [p, q] = Some [char_of_byte (octet1 p q)]"
| "digits_bytes [p, q, r] = Some [char_of_byte (octet1 p q), char_of_byte (octet2 q r)]"
| "digits_bytes (p # q # r # t # ds) =
     map_option (\<lambda>s. char_of_byte (octet1 p q) # char_of_byte (octet2 q r)
       # char_of_byte (octet3 r t) # s) (digits_bytes ds)"

fun b64_values :: "string \<Rightarrow> nat list option" where
  "b64_values [] = Some []"
| "b64_values (c # s) =
     (case b64_value c of
        None \<Rightarrow> None
      | Some v \<Rightarrow> map_option (\<lambda>vs. v # vs) (b64_values s))"

definition drop_padding :: "string \<Rightarrow> string" where
  "drop_padding s =
     (if length s mod 4 = 0 \<and> s \<noteq> []
      then (if last s \<noteq> CHR ''='' then s
            else if last (butlast s) \<noteq> CHR ''='' then butlast s else butlast (butlast s))
      else s)"

definition atob :: "string \<Rightarrow> string js_result" where
  "atob s =
     (case b64_values (drop_padding (filter (\<lambda>c. \<not> ascii_space c) s)) of
        None \<Rightarrow> Inl InvalidCharacterError
      | Some ds \<Rightarrow> (case digits_bytes ds of None \<Rightarrow> Inl InvalidCharacterError | Some bytes \<Rightarrow> Inr bytes))"

text \<open>The digits of a text without padding.\<close>

fun b64_digits :: "string \<Rightarrow> nat list" where
  "b64_digits [] = []"
| "b64_digits [a] = [sextet1 (byte_of a), sextet2 (byte_of a) 0]"
| "b64_digits [a, b] =
     [sextet1 (byte_of a), sextet2 (byte_of a) (byte_of b), sextet3 (byte_of b) 0]"
| "b64_digits (a # b # c # s) =
     sextet1 (byte_of a) # sextet2 (byte_of a) (byte_of b) # sextet3 (byte_of b) (byte_of c)
     # sextet4 (byte_of c) # b64_digits s"

lemma b64_digits_bound: "d \<in> set (b64_digits s) \<Longrightarrow> d < 64"
  by (induction s rule: b64_digits.induct) auto

lemma digits_bytes_digits: "digits_bytes (b64_digits s) = Some s"
  by (induction s rule: b64_digits.induct) simp_all

text \<open>The padding of a text of \<open>n\<close> bytes.\<close>

fun padding_for :: "'a list \<Rightarrow> string" where
  "padding_for [] = []"
| "padding_for [a] = ''==''"
| "padding_for [a, b] = ''=''"
| "padding_for (a # b # c # s) = padding_for s"

lemma btoa_digits: "btoa s = map b64_char (b64_digits s) @ padding_for s"
  by (induction s rule: btoa.induct) simp_all

lemma b64_values_chars: "\<forall>d \<in> set ds. d < 64 \<Longrightarrow> b64_values (map b64_char ds) = Some ds"
  by (induction ds) auto

lemma length_btoa: "length (btoa s) mod 4 = 0"
  by (induction s rule: btoa.induct) simp_all

lemma padding_cases: "padding_for s = [] \<or> padding_for s = ''='' \<or> padding_for s = ''==''"
  by (induction s rule: padding_for.induct) simp_all

lemma digits_of_padded: "padding_for s \<noteq> [] \<Longrightarrow> b64_digits s \<noteq> []"
  by (cases s rule: b64_digits.cases) simp_all

lemma digit_texts:
  assumes "ds = b64_digits s" "w = map b64_char ds"
  shows "c \<in> set w \<Longrightarrow> c \<noteq> CHR ''='' \<and> \<not> js_space c" and "b64_values w = Some ds"
  using assms b64_digits_bound [of _ s] b64_char_not_pad b64_char_not_space
  by (auto intro: b64_values_chars)

lemma ascii_space_js: "ascii_space c \<Longrightarrow> js_space c"
  by (auto simp: ascii_space_def js_space_def)

lemma no_space_btoa: "filter (\<lambda>c. \<not> ascii_space c) (btoa s) = btoa s"
proof (rule filter_True, rule ballI)
  fix c assume "c \<in> set (btoa s)"
  then consider "c \<in> set (map b64_char (b64_digits s))" | "c = CHR ''=''"
    using padding_cases [of s] by (auto simp: btoa_digits)
  then show "\<not> ascii_space c"
    by cases (use digit_texts(1) [OF refl refl, of c s] ascii_space_js [of c] in
      \<open>auto simp: ascii_space_def\<close>)
qed

lemma drop_padding_btoa: "drop_padding (btoa s) = map b64_char (b64_digits s)"
proof -
  let ?w = "map b64_char (b64_digits s)"
  have last_w: "last ?w \<noteq> CHR ''=''" if "?w \<noteq> []"
    using digit_texts(1) [OF refl refl, of "last ?w" s] last_in_set [OF that] by blast
  have w: "?w \<noteq> []" if "padding_for s \<noteq> []" using digits_of_padded [OF that] by simp
  show ?thesis
    using padding_cases [of s] length_btoa [of s] last_w w
    by (auto simp: drop_padding_def btoa_digits butlast_append)
qed

lemma atob_btoa [simp]: "atob (btoa s) = Inr s"
  by (simp add: atob_def no_space_btoa drop_padding_btoa digit_texts(2) [OF refl refl]
      digits_bytes_digits)

section \<open>UTF-8\<close>

text \<open>The bytes of \<open>new TextEncoder().encode(text)\<close>, as a binary string, and their reading back.\<close>

definition utf8_char :: "char \<Rightarrow> string" where
  "utf8_char c =
     (if byte_of c < 128 then [c]
      else [char_of_byte (192 + byte_of c div 64), char_of_byte (128 + byte_of c mod 64)])"

definition utf8_bytes :: "string \<Rightarrow> string" where
  "utf8_bytes s = concat (map utf8_char s)"

fun utf8_text :: "string \<Rightarrow> string option" where
  "utf8_text [] = Some []"
| "utf8_text [b] = (if byte_of b < 128 then Some [b] else None)"
| "utf8_text (b # c # s) =
     (if byte_of b < 128 then map_option (\<lambda>t. b # t) (utf8_text (c # s))
      else if 194 \<le> byte_of b \<and> byte_of b < 196 \<and> 128 \<le> byte_of c \<and> byte_of c < 192
      then map_option (\<lambda>t. char_of_byte ((byte_of b - 192) * 64 + (byte_of c - 128)) # t) (utf8_text s)
      else None)"

lemma byte_of_char_of [simp]: "n < 256 \<Longrightarrow> byte_of (char_of_byte n) = n"
  by (simp add: byte_of_def char_of_byte_def)

lemma two_byte_char:
  assumes "n < 256" "\<not> n < 128"
  shows "192 + n div 64 < 256" "194 \<le> 192 + n div 64" "192 + n div 64 < 196"
    "128 + n mod 64 < 256" "128 + n mod 64 < 192" "(192 + n div 64 - 192) * 64 + (128 + n mod 64 - 128) = (n::nat)"
proof -
  have "n div 64 < 4" using assms by (simp add: less_mult_imp_div_less)
  moreover have "2 \<le> n div 64" using assms by (simp add: less_eq_div_iff_mult_less_eq)
  moreover have "n mod 64 < 64" by simp
  ultimately show "192 + n div 64 < 256" "194 \<le> 192 + n div 64" "192 + n div 64 < 196"
    "128 + n mod 64 < 256" "128 + n mod 64 < 192" by linarith+
  show "(192 + n div 64 - 192) * 64 + (128 + n mod 64 - 128) = n" by simp
qed

lemma utf8_text_char: "utf8_text (utf8_char c @ s) = map_option (\<lambda>t. c # t) (utf8_text s)"
proof (cases "byte_of c < 128")
  case True
  then show ?thesis by (cases s) (simp_all add: utf8_char_def)
next
  case False
  note bounds = two_byte_char [OF byte_bound False]
  with False show ?thesis by (simp add: utf8_char_def)
qed

lemma utf8_text_bytes [simp]: "utf8_text (utf8_bytes s) = Some s"
  by (induction s) (simp_all add: utf8_bytes_def utf8_text_char)

section \<open>\<open>encodeURIComponent\<close>\<close>

definition uri_unreserved :: "char \<Rightarrow> bool" where
  "uri_unreserved c \<longleftrightarrow>
     c \<in> set ''ABCDEFGHIJKLMNOPQRSTUVWXYZabcdefghijklmnopqrstuvwxyz0123456789-_.!~*'()''"

definition hex_digits :: string where "hex_digits = ''0123456789ABCDEF''"

definition upper_hex :: "nat \<Rightarrow> char" where "upper_hex d = hex_digits ! d"

definition hex_number :: "char \<Rightarrow> nat option" where
  "hex_number c = find_index (\<lambda>x. x = c) hex_digits"

definition percent_byte :: "char \<Rightarrow> string" where
  "percent_byte c = [CHR 0x25, upper_hex (byte_of c div 16), upper_hex (byte_of c mod 16)]"

definition encodeURIComponent_char :: "char \<Rightarrow> string" where
  "encodeURIComponent_char c =
     (if uri_unreserved c then [c] else concat (map percent_byte (utf8_char c)))"

definition encodeURIComponent :: "string \<Rightarrow> string" where
  "encodeURIComponent s = concat (map encodeURIComponent_char s)"

text \<open>\<open>text.replace(/%([0-9A-F]{2})/g, \<dots>)\<close> puts the bytes back.\<close>

fun percent_bytes :: "string \<Rightarrow> string" where
  "percent_bytes (p # x # y # s) =
     (if p = CHR 0x25
      then (case (hex_number x, hex_number y) of
              (Some m, Some n) \<Rightarrow> char_of_byte (m * 16 + n) # percent_bytes s
            | _ \<Rightarrow> p # percent_bytes (x # y # s))
      else p # percent_bytes (x # y # s))"
| "percent_bytes (p # s) = p # percent_bytes s"
| "percent_bytes [] = []"

lemma hex_table: "list_all (\<lambda>i. hex_number (upper_hex i) = Some i) [0..<16]"
  by code_simp

lemma hex_number_upper [simp]: "i < 16 \<Longrightarrow> hex_number (upper_hex i) = Some i"
  using hex_table by (simp add: list_all_iff)

lemma percent_bytes_byte [simp]: "percent_bytes (percent_byte c @ s) = c # percent_bytes s"
proof -
  have "byte_of c div 16 < 16" by (simp add: less_mult_imp_div_less)
  then show ?thesis by (simp add: percent_byte_def div_mult_mod_eq)
qed

lemma percent_bytes_plain: "p \<noteq> CHR 0x25 \<Longrightarrow> percent_bytes (p # s) = p # percent_bytes s"
  by (cases s; cases "tl s") auto

lemma percent_bytes_all: "percent_bytes (concat (map percent_byte bs) @ s) = bs @ percent_bytes s"
  by (induction bs) simp_all

lemma unreserved_small: "uri_unreserved c \<Longrightarrow> byte_of c < 128 \<and> c \<noteq> CHR 0x25"
  by (auto simp: uri_unreserved_def byte_of_def)

lemma percent_bytes_encoded: "percent_bytes (encodeURIComponent s) = utf8_bytes s"
proof (induction s)
  case (Cons c s)
  show ?case
  proof (cases "uri_unreserved c")
    case True
    with Cons unreserved_small [OF True] show ?thesis
      by (simp add: encodeURIComponent_def encodeURIComponent_char_def utf8_bytes_def utf8_char_def
          percent_bytes_plain)
  next
    case False
    with Cons show ?thesis
      by (simp add: encodeURIComponent_def encodeURIComponent_char_def utf8_bytes_def
          percent_bytes_all)
  qed
qed (simp add: encodeURIComponent_def utf8_bytes_def)

text \<open>\<open>decodeURIComponent\<close>, as the program that receives a link reads it.\<close>

definition decodeURIComponent :: "string \<Rightarrow> string option" where
  "decodeURIComponent s = utf8_text (percent_bytes s)"

lemma decode_encodeURIComponent [simp]: "decodeURIComponent (encodeURIComponent s) = Some s"
  by (simp add: decodeURIComponent_def percent_bytes_encoded)

section \<open>\<open>helpers/base64.js\<close>\<close>

text \<open>\<open>has_encoder\<close> is whether the environment has a \<open>TextEncoder\<close>.\<close>

definition toBinaryString :: "bool \<Rightarrow> string \<Rightarrow> string" where
  "toBinaryString has_encoder s =
     (if has_encoder then utf8_bytes s else percent_bytes (encodeURIComponent s))"

text \<open>The environments the code tells apart: a browser window, a global \<open>Buffer\<close>, a global
  \<open>btoa\<close>, none of them.\<close>

datatype base64_env = WindowEnv | BufferEnv | BtoaEnv | BareEnv

definition encodeToBase64 :: "base64_env \<Rightarrow> bool \<Rightarrow> jsval \<Rightarrow> string js_result" where
  "encodeToBase64 env has_encoder v =
     (let s = (if is_nullish v then [] else text_of_value v)
      in case env of
           WindowEnv \<Rightarrow> Inr (btoa (toBinaryString has_encoder s))
         | BufferEnv \<Rightarrow> Inr (btoa (utf8_bytes s))
         | BtoaEnv \<Rightarrow> Inr (btoa (toBinaryString has_encoder s))
         | BareEnv \<Rightarrow> Inl (JsError ''Base64 encoding is unavailable in the current environment''))"

lemma toBinaryString_utf8 [simp]: "toBinaryString e s = utf8_bytes s"
  by (simp add: toBinaryString_def percent_bytes_encoded)

lemma encodeToBase64_text:
  "env \<noteq> BareEnv \<Longrightarrow> encodeToBase64 env e (JStr s) = Inr (btoa (utf8_bytes s))"
  by (cases env) (simp_all add: encodeToBase64_def)

end
