(* ===== verification/Passkeys.thy ===== *)
theory Passkeys
  imports Base64 StoredData "HOL-Library.Word"
begin

text \<open>
  Passkeys (\<open>web/src/helpers/passkey.js\<close>): the conversion between the base64url texts of the
  server and the buffers of the browser's credential interface, the options handed to that
  interface and the results sent back.  A buffer is a list of 8-bit words; a missing one is
  \<open>None\<close>.  What the browser supports and returns is an argument.
\<close>

section \<open>Buffers\<close>

type_synonym byte_buffer = "8 word list"

definition char_of_word :: "8 word \<Rightarrow> char" where
  "char_of_word w = char_of_byte (unat w)"

definition word_of_char :: "char \<Rightarrow> 8 word" where
  "word_of_char c = word_of_nat (byte_of c)"

lemma word_of_char_of_word [simp]: "word_of_char (char_of_word w) = w"
proof -
  have "unat w < 2 ^ 8" using unsigned_less [of w] by simp
  then show ?thesis by (simp add: word_of_char_def char_of_word_def)
qed

text \<open>\<open>(4 - (base64url.length % 4)) % 4\<close>; a value without a length repeats nothing.\<close>

definition missing_padding :: "jsval \<Rightarrow> string" where
  "missing_padding v =
     (let pad = (\<lambda>n. replicate ((4 - n mod 4) mod 4) CHR ''='')
      in case v of JStr s \<Rightarrow> pad (length s) | JArr vs \<Rightarrow> pad (length vs) | _ \<Rightarrow> [])"

definition standard_char :: "char \<Rightarrow> char" where
  "standard_char c = (if c = CHR ''-'' then CHR ''+'' else if c = CHR ''_'' then CHR ''/'' else c)"

definition url_char :: "char \<Rightarrow> char" where
  "url_char c = (if c = CHR ''+'' then CHR ''-'' else if c = CHR ''/'' then CHR ''_'' else c)"

definition base64UrlToBuffer :: "jsval \<Rightarrow> byte_buffer js_result" where
  "base64UrlToBuffer base64url =
     (if \<not> truthy base64url then Inr []
      else (case atob (map standard_char (text_of_value base64url @ missing_padding base64url)) of
              Inl e \<Rightarrow> Inl e
            | Inr rawData \<Rightarrow> Inr (map word_of_char rawData)))"

text \<open>\<open>/=+$/\<close> drops the padding at the end.\<close>

definition drop_end :: "char \<Rightarrow> string \<Rightarrow> string" where
  "drop_end c s = rev (dropWhile (\<lambda>x. x = c) (rev s))"

definition bufferToBase64Url :: "byte_buffer option \<Rightarrow> string" where
  "bufferToBase64Url buffer =
     (case buffer of
        None \<Rightarrow> []
      | Some bytes \<Rightarrow> drop_end CHR ''='' (map url_char (btoa (map char_of_word bytes))))"

subsection \<open>Reading undoes writing\<close>

lemma url_char_table:
  "list_all (\<lambda>i. standard_char (url_char (b64_char i)) = b64_char i \<and> url_char (b64_char i) \<noteq> CHR ''=''
     \<and> uri_unreserved (url_char (b64_char i))) [0..<64]"
  by code_simp

lemma url_char_digit:
  assumes "i < 64"
  shows "standard_char (url_char (b64_char i)) = b64_char i" and "CHR ''='' \<noteq> url_char (b64_char i)"
    and "uri_unreserved (url_char (b64_char i))"
    using url_char_table assms by (auto simp: list_all_iff)

lemmas url_digit = url_char_digit [OF b64_digits_bound]

lemma dropWhile_replicate: "dropWhile (\<lambda>x. x = c) (replicate n c @ s) = dropWhile (\<lambda>x. x = c) s"
  by (induction n) simp_all

lemma drop_end_append: "c \<notin> set s \<Longrightarrow> drop_end c (s @ replicate n c) = s"
  by (cases s rule: rev_cases) (auto simp: drop_end_def dropWhile_replicate)

lemma padding_replicate: "padding_for s = replicate (length (padding_for s)) CHR ''=''"
  using padding_cases [of s] by (auto simp: numeral_2_eq_2)

lemma buffer_digits:
  "bufferToBase64Url (Some bytes) = map url_char (map b64_char (b64_digits (map char_of_word bytes)))"
proof -
  let ?s = "map char_of_word bytes" and ?w = "map url_char (map b64_char (b64_digits (map char_of_word bytes)))"
  have "map url_char (btoa ?s) = ?w @ map url_char (padding_for ?s)"
    by (simp add: btoa_digits)
  also have "map url_char (padding_for ?s) = replicate (length (padding_for ?s)) CHR ''=''"
    using padding_cases [of ?s] by (auto simp: url_char_def numeral_2_eq_2)
  finally have "map url_char (btoa ?s) = ?w @ replicate (length (padding_for ?s)) CHR ''=''" .
  moreover have "CHR ''='' \<notin> set ?w" using url_digit(2) by auto
  ultimately show ?thesis
    unfolding bufferToBase64Url_def option.case by (simp only: drop_end_append not_False_eq_True)
qed

lemma padding_of_digits:
  "replicate ((4 - length (b64_digits s) mod 4) mod 4) CHR ''='' = padding_for s"
proof (induction s rule: b64_digits.induct)
  case (4 a b c s)
  have "length (b64_digits (a # b # c # s)) mod 4 = length (b64_digits s) mod 4"
  proof -
    have "length (b64_digits (a # b # c # s)) = length (b64_digits s) + 4" by simp
    then show ?thesis by (simp only: mod_add_self2)
  qed
  with 4 show ?case by (simp only: padding_for.simps)
qed (simp_all add: numeral_2_eq_2)

lemma read_padded:
  "map standard_char (bufferToBase64Url (Some bytes) @ missing_padding (JStr (bufferToBase64Url (Some bytes))))
   = btoa (map char_of_word bytes)"
proof -
  let ?s = "map char_of_word bytes"
  have digits: "map standard_char (map url_char (map b64_char (b64_digits ?s))) = map b64_char (b64_digits ?s)"
    using url_digit(1) by auto
  have "missing_padding (JStr (bufferToBase64Url (Some bytes))) = padding_for ?s"
    using padding_of_digits [of ?s] by (simp add: missing_padding_def buffer_digits)
  moreover have "map standard_char (padding_for ?s) = padding_for ?s"
    using padding_cases [of ?s] by (auto simp: standard_char_def)
  ultimately show ?thesis
    using digits by (simp only: buffer_digits btoa_digits map_append)
qed

lemma empty_buffer_text: "bufferToBase64Url (Some bytes) = [] \<longleftrightarrow> bytes = []"
  unfolding buffer_digits by (cases "map char_of_word bytes" rule: b64_digits.cases) auto

lemma base64url_reads_back [simp]:
  "base64UrlToBuffer (JStr (bufferToBase64Url (Some bytes))) = Inr bytes"
proof (cases "bytes = []")
  case True
  then show ?thesis by (simp add: base64UrlToBuffer_def empty_buffer_text)
next
  case False
  have "base64UrlToBuffer (JStr (bufferToBase64Url (Some bytes)))
      = (case atob (btoa (map char_of_word bytes)) of
           Inl e \<Rightarrow> Inl e | Inr rawData \<Rightarrow> Inr (map word_of_char rawData))"
    using False by (simp only: base64UrlToBuffer_def truthy.simps text_of_value.simps read_padded
        empty_buffer_text not_not if_False)
  then show ?thesis by (simp add: comp_def)
qed

lemma base64url_url_safe:
  "list_all uri_unreserved (bufferToBase64Url (Some bytes))"
  "CHR ''='' \<notin> set (bufferToBase64Url (Some bytes))"
  unfolding buffer_digits using url_digit(2,3) by (auto simp: list_all_iff)

definition buffer_bytes :: "byte_buffer option \<Rightarrow> byte_buffer" where
  "buffer_bytes b = (case b of None \<Rightarrow> [] | Some bytes \<Rightarrow> bytes)"

lemma buffer_bytes_Some [simp]: "buffer_bytes (Some bytes) = bytes"
  by (simp add: buffer_bytes_def)

lemma buffer_text_reads_back [simp]:
  "base64UrlToBuffer (JStr (bufferToBase64Url b)) = Inr (buffer_bytes b)"
proof (cases b)
  case None
  then show ?thesis by (simp add: bufferToBase64Url_def base64UrlToBuffer_def buffer_bytes_def)
qed (simp add: buffer_bytes_def)

lemma buffer_text_url_safe:
  "list_all uri_unreserved (bufferToBase64Url b)" "CHR ''='' \<notin> set (bufferToBase64Url b)"
  using base64url_url_safe by (cases b; simp add: bufferToBase64Url_def)+

section \<open>Options for the browser\<close>

text \<open>An object handed to the browser: properties of the reply, with buffers in some places.\<close>

datatype cred_value =
    Plain jsval
  | Buffer byte_buffer
  | Fields "(string \<times> cred_value) list"
  | Items "cred_value list"

type_synonym cred_fields = "(string \<times> cred_value) list"

definition copied_fields :: "jsval \<Rightarrow> cred_fields" where
  "copied_fields v = map (\<lambda>(k, w). (k, Plain w)) (own_entries v)"

definition put_buffer :: "string \<Rightarrow> jsval \<Rightarrow> cred_fields \<Rightarrow> cred_fields js_result" where
  "put_buffer k v fs =
     (case base64UrlToBuffer v of Inl e \<Rightarrow> Inl e | Inr b \<Rightarrow> Inr (obj_put k (Buffer b) fs))"

fun credential_items :: "jsval list \<Rightarrow> cred_value list js_result" where
  "credential_items [] = Inr []"
| "credential_items (item # vs) =
     (if is_nullish item then Inl TypeError
      else (case put_buffer ''id'' (value_get item ''id'') (copied_fields item) of
              Inl e \<Rightarrow> Inl e
            | Inr fs \<Rightarrow> (case credential_items vs of
                            Inl e \<Rightarrow> Inl e
                          | Inr items \<Rightarrow> Inr (Fields fs # items))))"

definition put_credentials :: "string \<Rightarrow> jsval \<Rightarrow> cred_fields \<Rightarrow> cred_fields js_result" where
  "put_credentials k options fs =
     (case value_get options k of
        JArr vs \<Rightarrow> (case credential_items vs of
                       Inl e \<Rightarrow> Inl e
                     | Inr items \<Rightarrow> Inr (obj_put k (Items items) fs))
      | _ \<Rightarrow> Inr fs)"

definition payload_options :: "jsval \<Rightarrow> jsval" where
  "payload_options payload =
     js_or (value_get payload ''publicKey'') (js_or (value_get payload ''PublicKey'')
       (js_or (value_get payload ''response'') (value_get payload ''Response'')))"

text \<open>The errors of a reply without options carry texts of the interface.\<close>

definition NoRegistrationOptions :: js_error where
  "NoRegistrationOptions = JsError ''NoRegistrationOptions''"

definition NoLoginOptions :: js_error where
  "NoLoginOptions = JsError ''NoLoginOptions''"

definition prepareCredentialCreationOptions :: "jsval \<Rightarrow> cred_fields js_result" where
  "prepareCredentialCreationOptions payload =
     (let options = payload_options payload; user = value_get options ''user''
      in if \<not> truthy options then Inl NoRegistrationOptions
         else (case put_buffer ''challenge'' (value_get options ''challenge'') (copied_fields options) of
                 Inl e \<Rightarrow> Inl e
               | Inr fs1 \<Rightarrow>
                   (case put_buffer ''id'' (value_get user ''id'') (copied_fields user) of
                      Inl e \<Rightarrow> Inl e
                    | Inr user_fields \<Rightarrow>
                        (case put_credentials ''excludeCredentials'' options
                                (obj_put ''user'' (Fields user_fields) fs1) of
                           Inl e \<Rightarrow> Inl e
                         | Inr fs2 \<Rightarrow>
                             Inr (if value_get options ''attestationFormats'' = JArr []
                                  then obj_del ''attestationFormats'' fs2 else fs2)))))"

definition prepareCredentialRequestOptions :: "jsval \<Rightarrow> cred_fields js_result" where
  "prepareCredentialRequestOptions payload =
     (let options = payload_options payload
      in if \<not> truthy options then Inl NoLoginOptions
         else (case put_buffer ''challenge'' (value_get options ''challenge'') (copied_fields options) of
                 Inl e \<Rightarrow> Inl e
               | Inr fs \<Rightarrow> put_credentials ''allowCredentials'' options fs))"

section \<open>Results for the server\<close>

text \<open>The credential the browser gives: \<open>None\<close> in the last field of each record is a missing
  method, \<open>Some v\<close> the value it returns.\<close>

record credential_response =
  attestationObject :: "byte_buffer option"
  clientDataJSON :: "byte_buffer option"
  authenticatorData :: "byte_buffer option"
  signature :: "byte_buffer option"
  userHandle :: "byte_buffer option"
  getTransports :: "jsval option"

record credential =
  cred_id :: jsval
  cred_rawId :: "byte_buffer option"
  cred_type :: jsval
  cred_attachment :: jsval
  cred_response :: credential_response
  getClientExtensionResults :: "jsval option"

definition extension_results :: "credential \<Rightarrow> jsval" where
  "extension_results c =
     js_coalesce (case getClientExtensionResults c of None \<Rightarrow> JUndef | Some v \<Rightarrow> v) (JObj [])"

definition buildRegistrationResult :: "credential option \<Rightarrow> jsval" where
  "buildRegistrationResult credential =
     (case credential of
        None \<Rightarrow> JNull
      | Some c \<Rightarrow>
          let response = cred_response c;
              transports = (case getTransports response of None \<Rightarrow> JUndef | Some v \<Rightarrow> v)
          in JObj [(''id'', cred_id c),
                   (''rawId'', JStr (bufferToBase64Url (cred_rawId c))),
                   (''type'', cred_type c),
                   (''authenticatorAttachment'', cred_attachment c),
                   (''response'', JObj
                      [(''attestationObject'', JStr (bufferToBase64Url (attestationObject response))),
                       (''clientDataJSON'', JStr (bufferToBase64Url (clientDataJSON response))),
                       (''transports'', transports)]),
                   (''clientExtensionResults'', extension_results c)])"

definition buildAssertionResult :: "credential option \<Rightarrow> jsval" where
  "buildAssertionResult assertion =
     (case assertion of
        None \<Rightarrow> JNull
      | Some c \<Rightarrow>
          let response = cred_response c
          in JObj [(''id'', cred_id c),
                   (''rawId'', JStr (bufferToBase64Url (cred_rawId c))),
                   (''type'', cred_type c),
                   (''authenticatorAttachment'', cred_attachment c),
                   (''response'', JObj
                      [(''authenticatorData'', JStr (bufferToBase64Url (authenticatorData response))),
                       (''clientDataJSON'', JStr (bufferToBase64Url (clientDataJSON response))),
                       (''signature'', JStr (bufferToBase64Url (signature response))),
                       (''userHandle'', case userHandle response of
                                            None \<Rightarrow> JNull
                                          | Some b \<Rightarrow> JStr (bufferToBase64Url (Some b)))]),
                   (''clientExtensionResults'', extension_results c)])"

section \<open>What the browser supports\<close>

text \<open>A method of \<open>window.PublicKeyCredential\<close>: not there, throwing, or giving an answer.\<close>

datatype support_call = NoMethod | Throws | Gives bool

definition isPasskeySupported :: "bool \<Rightarrow> support_call \<Rightarrow> support_call \<Rightarrow> bool" where
  "isPasskeySupported has_credentials conditional platform =
     (if \<not> has_credentials then False
      else if conditional = Gives True then True
      else (case platform of NoMethod \<Rightarrow> True | Throws \<Rightarrow> False | Gives b \<Rightarrow> b))"

section \<open>Properties\<close>

section \<open>Properties\<close>

lemma literal_get: "value_get (JObj o1) k = (case map_of o1 k of Some w \<Rightarrow> w | None \<Rightarrow> JUndef)"
  by (simp add: value_get_def obj_get_def)

definition response_field :: "jsval \<Rightarrow> string \<Rightarrow> jsval" where
  "response_field result k = value_get (value_get result ''response'') k"

lemmas result_simps = response_field_def literal_get extension_results_def Let_def

text \<open>
  C9: What the browser signs reaches the server unchanged: reading the identifier, the client
  data, the signature, the authenticator data and the user handle of an assertion gives the very
  bytes the browser gave (a missing user handle stays missing), and the texts they travel in consist
  of characters that need no escaping in a URL or in JSON, without padding.
\<close>

theorem assertion_reaches_server:
  "base64UrlToBuffer (value_get (buildAssertionResult (Some c)) ''rawId'') = Inr (buffer_bytes (cred_rawId c))
   \<and> base64UrlToBuffer (response_field (buildAssertionResult (Some c)) ''clientDataJSON'')
       = Inr (buffer_bytes (clientDataJSON (cred_response c)))
   \<and> base64UrlToBuffer (response_field (buildAssertionResult (Some c)) ''signature'')
       = Inr (buffer_bytes (signature (cred_response c)))
   \<and> base64UrlToBuffer (response_field (buildAssertionResult (Some c)) ''authenticatorData'')
       = Inr (buffer_bytes (authenticatorData (cred_response c)))
   \<and> (case userHandle (cred_response c) of
          None \<Rightarrow> response_field (buildAssertionResult (Some c)) ''userHandle'' = JNull
        | Some bytes \<Rightarrow> base64UrlToBuffer (response_field (buildAssertionResult (Some c)) ''userHandle'') = Inr bytes)
   \<and> list_all uri_unreserved (bufferToBase64Url b) \<and> CHR ''='' \<notin> set (bufferToBase64Url b)"
  by (simp add: buildAssertionResult_def result_simps buffer_text_url_safe split: option.split)

text \<open>A registration likewise; a missing user handle stays missing.\<close>

lemma registration_reaches_server:
  "base64UrlToBuffer (value_get (buildRegistrationResult (Some c)) ''rawId'') = Inr (buffer_bytes (cred_rawId c))"
  "base64UrlToBuffer (response_field (buildRegistrationResult (Some c)) ''attestationObject'')
     = Inr (buffer_bytes (attestationObject (cred_response c)))"
  by (simp_all add: buildRegistrationResult_def result_simps)

lemma missing_user_handle:
  "response_field (buildAssertionResult (Some c)) ''userHandle'' = JNull \<longleftrightarrow> userHandle (cred_response c) = None"
  by (simp add: buildAssertionResult_def result_simps split: option.splits)

text \<open>The challenge of the server, written as base64url, is what the browser signs.\<close>

lemma request_challenge:
  assumes "payload_options payload = JObj o1" "obj_get o1 ''challenge'' = Some (JStr (bufferToBase64Url (Some bytes)))"
    and "value_get (JObj o1) ''allowCredentials'' = JUndef"
  shows "prepareCredentialRequestOptions payload
     = Inr (obj_put ''challenge'' (Buffer bytes) (copied_fields (JObj o1)))"
proof -
  have "value_get (JObj o1) ''challenge'' = JStr (bufferToBase64Url (Some bytes))"
    using assms(2) by (simp add: value_get_def)
  then show ?thesis
    using assms(1,3) by (simp add: prepareCredentialRequestOptions_def put_buffer_def put_credentials_def Let_def)
qed

text \<open>A credential whose identifier is not base64url makes the preparation fail before the browser
  is asked.\<close>

lemma bad_challenge_refused:
  "prepareCredentialRequestOptions (JObj [(''publicKey'', JObj [(''challenge'', JStr ''a*b'')])])
     = Inl InvalidCharacterError"
  by code_simp

end
