(* ===== verification/SecureVerification.thy ===== *)
theory SecureVerification
  imports Passkeys Machines
begin

text \<open>
  Verification before sensitive calls (\<open>web/src/helpers/secureApiCall.js\<close>,
  \<open>services/secureVerification.js\<close>, \<open>hooks/common/useSecureVerification.jsx\<close> and the dialog
  \<open>components/common/modals/SecureVerificationModal.jsx\<close>): a call the server refuses with a
  demand for verification opens a dialog, and is repeated after the server has accepted a code
  or a passkey.  Replies of the server and of the browser are arguments; a protected call is its
  number.  Messages of the interface are named texts.
\<close>

section \<open>Errors\<close>

text \<open>An error as the code reads it: its name, its message, and the status and body of the answer
  when the HTTP client made it from one.\<close>

record api_error =
  ae_name :: string
  ae_message :: string
  ae_response :: "(int \<times> jsval) option"

type_synonym 'a reply = "api_error + 'a"

definition plain_error :: "string \<Rightarrow> api_error" where
  "plain_error m = \<lparr> ae_name = ''Error'', ae_message = m, ae_response = None \<rparr>"

definition thrown_error :: "js_error \<Rightarrow> api_error" where
  "thrown_error e = plain_error (case e of SyntaxError \<Rightarrow> ''SyntaxError'' | JsError m \<Rightarrow> m)"

definition verificationCodes :: "jsval list" where
  "verificationCodes =
     [JStr ''VERIFICATION_REQUIRED'', JStr ''VERIFICATION_EXPIRED'', JStr ''VERIFICATION_INVALID'']"

definition isVerificationRequiredError :: "api_error \<Rightarrow> bool" where
  "isVerificationRequiredError e =
     (case ae_response e of
        None \<Rightarrow> False
      | Some (status, data) \<Rightarrow>
          status = 403 \<and> truthy data \<and> value_get data ''code'' \<in> set verificationCodes)"

definition VERIFICATION_NEEDED :: string where "VERIFICATION_NEEDED = ''verification needed''"

definition extractVerificationInfo :: "api_error \<Rightarrow> jsval" where
  "extractVerificationInfo e =
     (let data = js_or (case ae_response e of None \<Rightarrow> JUndef | Some (_, d) \<Rightarrow> d) (JObj [])
      in JObj [(''code'', value_get data ''code''),
               (''message'', js_or (value_get data ''message'') (JStr VERIFICATION_NEEDED)),
               (''required'', JBool True)])"

section \<open>The verification service\<close>

record verification_methods =
  has2FA :: jsval
  hasPasskey :: jsval
  passkeySupported :: bool

definition no_methods :: verification_methods where
  "no_methods = \<lparr> has2FA = JBool False, hasPasskey = JBool False, passkeySupported = False \<rparr>"

definition and_value :: "jsval \<Rightarrow> jsval \<Rightarrow> jsval" where
  "and_value a b = (if truthy a then b else a)"

definition enabled_in :: "jsval \<Rightarrow> jsval" where
  "enabled_in data =
     and_value (value_get data ''success'')
       (JBool (value_get (value_get data ''data'') ''enabled'' = JBool True))"

definition checkAvailableVerificationMethods ::
    "jsval reply \<Rightarrow> jsval reply \<Rightarrow> bool \<Rightarrow> verification_methods" where
  "checkAvailableVerificationMethods twoFAResponse passkeyResponse supported =
     (case (twoFAResponse, passkeyResponse) of
        (Inr twoFA, Inr passkey) \<Rightarrow>
          \<lparr> has2FA = enabled_in twoFA, hasPasskey = enabled_in passkey, passkeySupported = supported \<rparr>
      | _ \<Rightarrow> no_methods)"

datatype verify_request = Post2FA string | PostBegin | PostFinish jsval | PostPasskey

definition CODE_MISSING :: string where "CODE_MISSING = ''enter a code''"
definition VERIFY_FAILED :: string where "VERIFY_FAILED = ''verification failed''"
definition BEGIN_FAILED :: string where "BEGIN_FAILED = ''verification could not begin''"
definition PASSKEY_CANCELLED :: string where "PASSKEY_CANCELLED = ''passkey cancelled''"
definition PASSKEY_TIMEOUT :: string where "PASSKEY_TIMEOUT = ''passkey cancelled or timed out''"
definition PASSKEY_INVALID :: string where "PASSKEY_INVALID = ''passkey in an invalid state''"
definition UNSUPPORTED_METHOD :: string where "UNSUPPORTED_METHOD = ''unsupported method: ''"

text \<open>A body without \<open>success\<close> is turned into an error with its message or a default.\<close>

definition confirmed :: "string \<Rightarrow> jsval reply \<Rightarrow> jsval reply" where
  "confirmed failure r =
     (case r of
        Inl e \<Rightarrow> Inl e
      | Inr data \<Rightarrow>
          if truthy (value_get data ''success'') then Inr data
          else Inl (plain_error (text_of_value (js_or (value_get data ''message'') (JStr failure)))))"

text \<open>The requests sent, in order, and the outcome.\<close>

definition verify2FA :: "string \<Rightarrow> jsval reply \<Rightarrow> verify_request list \<times> unit reply" where
  "verify2FA code answer =
     (if js_trim code = [] then ([], Inl (plain_error CODE_MISSING))
      else ([Post2FA (js_trim code)],
            case confirmed VERIFY_FAILED answer of Inl e \<Rightarrow> Inl e | Inr _ \<Rightarrow> Inr ()))"

record passkey_replies =
  pk_begin :: "jsval reply"
  pk_get :: "cred_fields \<Rightarrow> credential option reply"
  pk_finish :: "jsval \<Rightarrow> jsval reply"
  pk_verify :: "jsval reply"

definition passkey_error :: "api_error \<Rightarrow> api_error" where
  "passkey_error e =
     (if ae_name e = ''NotAllowedError'' then plain_error PASSKEY_TIMEOUT
      else if ae_name e = ''InvalidStateError'' then plain_error PASSKEY_INVALID
      else e)"

definition passkey_options :: "jsval \<Rightarrow> cred_fields reply" where
  "passkey_options data =
     (if is_nullish (value_get data ''data'') then Inl (thrown_error TypeError)
      else (case prepareCredentialRequestOptions (value_get (value_get data ''data'') ''options'') of
              Inl e \<Rightarrow> Inl (thrown_error e)
            | Inr publicKey \<Rightarrow> Inr publicKey))"

definition verifyPasskey :: "passkey_replies \<Rightarrow> verify_request list \<times> unit reply" where
  "verifyPasskey env =
     (let failed = (\<lambda>sent e. (sent, Inl (passkey_error e)))
      in case confirmed BEGIN_FAILED (pk_begin env) of
           Inl e \<Rightarrow> failed [PostBegin] e
         | Inr data \<Rightarrow>
             (case passkey_options data of
                Inl e \<Rightarrow> failed [PostBegin] e
              | Inr publicKey \<Rightarrow>
                  (case pk_get env publicKey of
                     Inl e \<Rightarrow> failed [PostBegin] e
                   | Inr None \<Rightarrow> failed [PostBegin] (plain_error PASSKEY_CANCELLED)
                   | Inr (Some credential) \<Rightarrow>
                       let assertion = buildAssertionResult (Some credential)
                       in case confirmed VERIFY_FAILED (pk_finish env assertion) of
                            Inl e \<Rightarrow> failed [PostBegin, PostFinish assertion] e
                          | Inr _ \<Rightarrow>
                              (case confirmed VERIFY_FAILED (pk_verify env) of
                                 Inl e \<Rightarrow> failed [PostBegin, PostFinish assertion, PostPasskey] e
                               | Inr _ \<Rightarrow> ([PostBegin, PostFinish assertion, PostPasskey], Inr ())))))"

text \<open>The answer to the code and the answers to the passkey, of which a verification uses one.\<close>

definition verify :: "jsval \<Rightarrow> string \<Rightarrow> jsval reply \<Rightarrow> passkey_replies \<Rightarrow> verify_request list \<times> unit reply" where
  "verify method code answer env =
     (if method = JStr ''2fa'' then verify2FA code answer
      else if method = JStr ''passkey'' then verifyPasskey env
      else ([], Inl (plain_error (UNSUPPORTED_METHOD @ text_of_value method))))"

text \<open>The prepared calls: the request they send.\<close>

datatype api_call = GetCall string jsval | PostCall string jsval | PutCall string jsval | DeleteCall string jsval

definition UNSUPPORTED_HTTP :: string where "UNSUPPORTED_HTTP = ''unsupported HTTP method: ''"

definition viewChannelKey :: "jsval \<Rightarrow> api_call" where
  "viewChannelKey channelId = PostCall (''/api/channel/'' @ text_of_value channelId @ ''/key'') (JObj [])"

definition custom_call :: "string \<Rightarrow> string \<Rightarrow> jsval \<Rightarrow> api_call reply" where
  "custom_call url method data =
     (let m = js_upper method
      in if m = ''GET'' then Inr (GetCall url data)
         else if m = ''POST'' then Inr (PostCall url data)
         else if m = ''PUT'' then Inr (PutCall url data)
         else if m = ''DELETE'' then Inr (DeleteCall url data)
         else Inl (plain_error (UNSUPPORTED_HTTP @ method)))"

section \<open>The hook\<close>

record verification_ui =
  v_methods :: verification_methods
  v_visible :: bool
  v_method :: jsval
  v_loading :: bool
  v_code :: string
  v_call :: "nat option"
  v_title :: jsval
  v_description :: jsval

definition initial_ui :: verification_ui where
  "initial_ui =
     \<lparr> v_methods = no_methods, v_visible = False, v_method = JNull, v_loading = False, v_code = [],
       v_call = None, v_title = JUndef, v_description = JUndef \<rparr>"

record verification_options =
  preferredMethod :: jsval
  vo_title :: jsval
  vo_description :: jsval

definition resetState :: "verification_ui \<Rightarrow> verification_ui" where
  "resetState ui = initial_ui\<lparr> v_methods := v_methods ui \<rparr>"

definition setVerificationCode :: "string \<Rightarrow> verification_ui \<Rightarrow> verification_ui" where
  "setVerificationCode code ui = ui\<lparr> v_code := code \<rparr>"

definition switchVerificationMethod :: "jsval \<Rightarrow> verification_ui \<Rightarrow> verification_ui" where
  "switchVerificationMethod method ui = ui\<lparr> v_method := method, v_code := [] \<rparr>"

definition cancelVerification :: "verification_ui \<Rightarrow> verification_ui" where
  "cancelVerification ui = resetState ui"

definition canUseMethod :: "jsval \<Rightarrow> verification_methods \<Rightarrow> jsval" where
  "canUseMethod method methods =
     (if method = JStr ''2fa'' then has2FA methods
      else if method = JStr ''passkey'' then and_value (hasPasskey methods) (JBool (passkeySupported methods))
      else JBool False)"

definition getRecommendedMethod :: "verification_methods \<Rightarrow> jsval" where
  "getRecommendedMethod methods =
     (if truthy (hasPasskey methods) \<and> passkeySupported methods then JStr ''passkey''
      else if truthy (has2FA methods) then JStr ''2fa'' else JNull)"

text \<open>The method a verification starts with.\<close>

definition defaultMethod :: "jsval \<Rightarrow> verification_methods \<Rightarrow> jsval" where
  "defaultMethod preferred methods =
     (if truthy preferred then preferred
      else if truthy (hasPasskey methods) \<and> passkeySupported methods then JStr ''passkey''
      else if truthy (has2FA methods) then JStr ''2fa'' else preferred)"

text \<open>\<open>startVerification\<close> once the methods are known.\<close>

definition startVerification ::
    "nat \<Rightarrow> verification_options \<Rightarrow> verification_methods \<Rightarrow> verification_ui \<Rightarrow> verification_ui" where
  "startVerification call opts methods ui =
     (if \<not> truthy (has2FA methods) \<and> \<not> truthy (hasPasskey methods)
      then ui\<lparr> v_methods := methods \<rparr>
      else ui\<lparr> v_methods := methods, v_method := defaultMethod (preferredMethod opts) methods,
               v_call := Some call, v_title := vo_title opts, v_description := vo_description opts,
               v_visible := True \<rparr>)"

section \<open>Sessions\<close>

text \<open>What is under way: a protected call sent for the first time, a check of the methods (for a
  refused call, or the one of mounting the page), a verification, a protected call repeated.\<close>

datatype task =
    Trying nat verification_options
  | Checking "(nat \<times> verification_options) option"
  | Verifying nat jsval string
  | Retrying nat jsval

text \<open>What happened, the latest first.\<close>

datatype entry =
    Tried nat
  | Refused nat
  | Asked verify_request
  | Verified nat
  | Retried nat
  | Result nat jsval
  | Failure nat string
  | Misconfigured

record verification_session =
  vs_ui :: verification_ui
  vs_tasks :: "task list"
  vs_log :: "entry list"

text \<open>The options of the hook: whether it resets itself, and what the callback \<open>onSuccess\<close>
  does with the result and the method (it may throw).\<close>

record verification_config =
  autoReset :: bool
  onSuccess :: "jsval \<Rightarrow> jsval \<Rightarrow> api_error option"

definition VERIFY_RETRY :: string where "VERIFY_RETRY = ''verification failed, try again''"
definition ENABLE_FIRST :: string where "ENABLE_FIRST = ''enable two-step verification first''"

definition shown_message :: "api_error \<Rightarrow> string" where
  "shown_message e = (if ae_message e \<noteq> [] then ae_message e else VERIFY_RETRY)"

definition drop_task :: "nat \<Rightarrow> verification_session \<Rightarrow> verification_session" where
  "drop_task i s = s\<lparr> vs_tasks := take i (vs_tasks s) @ drop (Suc i) (vs_tasks s) \<rparr>"

definition add_task :: "task \<Rightarrow> verification_session \<Rightarrow> verification_session" where
  "add_task t s = s\<lparr> vs_tasks := vs_tasks s @ [t] \<rparr>"

definition note_entries :: "entry list \<Rightarrow> verification_session \<Rightarrow> verification_session" where
  "note_entries es s = s\<lparr> vs_log := es @ vs_log s \<rparr>"

definition on_ui :: "(verification_ui \<Rightarrow> verification_ui) \<Rightarrow> verification_session \<Rightarrow> verification_session" where
  "on_ui f s = s\<lparr> vs_ui := f (vs_ui s) \<rparr>"

text \<open>\<open>withVerification(apiCall, options)\<close>: the call is sent at once.\<close>

definition withVerification :: "nat \<Rightarrow> verification_options \<Rightarrow> verification_session \<Rightarrow> verification_session" where
  "withVerification call opts s = note_entries [Tried call] (add_task (Trying call opts) s)"

definition first_reply :: "nat \<Rightarrow> verification_options \<Rightarrow> jsval reply \<Rightarrow> verification_session \<Rightarrow> verification_session" where
  "first_reply call opts r s =
     (case r of
        Inr v \<Rightarrow> note_entries [Result call v] s
      | Inl e \<Rightarrow>
          if isVerificationRequiredError e
          then note_entries [Refused call] (add_task (Checking (Some (call, opts))) s)
          else note_entries [Failure call (ae_message e)] s)"

definition methods_reply ::
    "(nat \<times> verification_options) option \<Rightarrow> verification_methods \<Rightarrow> verification_session \<Rightarrow> verification_session" where
  "methods_reply target methods s =
     (case target of
        None \<Rightarrow> on_ui (\<lambda>ui. ui\<lparr> v_methods := methods \<rparr>) s
      | Some (call, opts) \<Rightarrow>
          (if \<not> truthy (has2FA methods) \<and> \<not> truthy (hasPasskey methods)
           then note_entries [Failure call ENABLE_FIRST] else id)
            (on_ui (startVerification call opts methods) s))"

text \<open>\<open>executeVerification\<close>: the part before the first \<open>await\<close>; then the \<open>catch\<close> and the
  \<open>finally\<close>; then the parts that follow the two awaited answers.\<close>

definition executeVerification :: "jsval \<Rightarrow> string \<Rightarrow> verification_session \<Rightarrow> verification_session" where
  "executeVerification method code s =
     (case v_call (vs_ui s) of
        None \<Rightarrow> note_entries [Misconfigured] s
      | Some call \<Rightarrow>
          add_task (Verifying call method code) (on_ui (\<lambda>ui. ui\<lparr> v_loading := True \<rparr>) s))"

definition run_ended :: "verification_ui \<Rightarrow> verification_ui" where
  "run_ended ui = ui\<lparr> v_loading := False \<rparr>"

definition run_failed :: "nat \<Rightarrow> api_error \<Rightarrow> verification_session \<Rightarrow> verification_session" where
  "run_failed call e s = note_entries [Failure call (shown_message e)] (on_ui run_ended s)"

definition verify_reply ::
    "nat \<Rightarrow> jsval \<Rightarrow> verify_request list \<times> unit reply \<Rightarrow> verification_session \<Rightarrow> verification_session" where
  "verify_reply call method outcome s =
     (case outcome of
        (requests, Inl e) \<Rightarrow> run_failed call e (note_entries (rev (map Asked requests)) s)
      | (requests, Inr _) \<Rightarrow>
          add_task (Retrying call method)
            (note_entries ([Retried call, Verified call] @ rev (map Asked requests)) s))"

definition retry_reply ::
    "verification_config \<Rightarrow> nat \<Rightarrow> jsval \<Rightarrow> jsval reply \<Rightarrow> verification_session \<Rightarrow> verification_session" where
  "retry_reply cfg call method r s =
     (case r of
        Inl e \<Rightarrow> run_failed call e s
      | Inr v \<Rightarrow>
          (case onSuccess cfg v method of
             Some e \<Rightarrow> run_failed call e s
           | None \<Rightarrow>
               note_entries [Result call v]
                 (on_ui (run_ended \<circ> (if autoReset cfg then resetState else id)) s)))"

section \<open>The dialog\<close>

definition dialog_empty :: "verification_ui \<Rightarrow> bool" where
  "dialog_empty ui \<longleftrightarrow> \<not> truthy (has2FA (v_methods ui)) \<and> \<not> truthy (hasPasskey (v_methods ui))"

text \<open>The tabs there are, and the tab whose pane is shown.\<close>

definition dialog_tabs :: "verification_ui \<Rightarrow> jsval list" where
  "dialog_tabs ui =
     (if truthy (has2FA (v_methods ui)) then [JStr ''2fa''] else [])
     @ (if truthy (hasPasskey (v_methods ui)) \<and> passkeySupported (v_methods ui) then [JStr ''passkey''] else [])"

definition pane_shown :: "jsval \<Rightarrow> verification_ui \<Rightarrow> bool" where
  "pane_shown m ui \<longleftrightarrow> v_visible ui \<and> \<not> dialog_empty ui \<and> m = v_method ui \<and> m \<in> set (dialog_tabs ui)"

datatype dialog_event = PressVerify | PressCancel | TypeCode string | PickTab jsval

definition dialog_allows :: "dialog_event \<Rightarrow> verification_ui \<Rightarrow> bool" where
  "dialog_allows e ui \<longleftrightarrow>
     (case e of
        PressVerify \<Rightarrow>
          \<not> v_loading ui
          \<and> (pane_shown (JStr ''2fa'') ui \<and> js_trim (v_code ui) \<noteq> [] \<or> pane_shown (JStr ''passkey'') ui)
      | PressCancel \<Rightarrow> v_visible ui \<and> (dialog_empty ui \<or> \<not> v_loading ui)
      | TypeCode code \<Rightarrow> pane_shown (JStr ''2fa'') ui \<and> \<not> v_loading ui \<and> length code \<le> 8
      | PickTab m \<Rightarrow>
          v_visible ui \<and> \<not> dialog_empty ui \<and> m \<in> set (dialog_tabs ui) \<and> m \<noteq> v_method ui)"

definition dialog_action :: "dialog_event \<Rightarrow> verification_session \<Rightarrow> verification_session" where
  "dialog_action e s =
     (case e of
        PressVerify \<Rightarrow>
          executeVerification (v_method (vs_ui s))
            (if v_method (vs_ui s) = JStr ''2fa'' then v_code (vs_ui s) else []) s
      | PressCancel \<Rightarrow> on_ui cancelVerification s
      | TypeCode code \<Rightarrow> on_ui (setVerificationCode code) s
      | PickTab m \<Rightarrow> on_ui (switchVerificationMethod m) s)"

section \<open>The machine\<close>

text \<open>A reply names the task it answers; a reply of another kind, and an event the dialog does not
  offer, cannot happen.\<close>

datatype verification_event =
    Protect nat verification_options
  | Dialog dialog_event
  | CallReply nat "jsval reply"
  | MethodsReply nat "jsval reply" "jsval reply" bool
  | VerifyReply nat "jsval reply" passkey_replies

definition task_at :: "verification_session \<Rightarrow> nat \<Rightarrow> task option" where
  "task_at s i = (if i < length (vs_tasks s) then Some (vs_tasks s ! i) else None)"

definition vstep ::
    "verification_config \<Rightarrow> verification_event \<Rightarrow> verification_session \<Rightarrow> verification_session option" where
  "vstep cfg e s =
     (case e of
        Protect call opts \<Rightarrow> Some (withVerification call opts s)
      | Dialog d \<Rightarrow> if dialog_allows d (vs_ui s) then Some (dialog_action d s) else None
      | CallReply i r \<Rightarrow>
          (case task_at s i of
             Some (Trying call opts) \<Rightarrow> Some (first_reply call opts r (drop_task i s))
           | Some (Retrying call method) \<Rightarrow> Some (retry_reply cfg call method r (drop_task i s))
           | _ \<Rightarrow> None)
      | MethodsReply i twoFA passkey supported \<Rightarrow>
          (case task_at s i of
             Some (Checking target) \<Rightarrow>
               Some (methods_reply target (checkAvailableVerificationMethods twoFA passkey supported)
                 (drop_task i s))
           | _ \<Rightarrow> None)
      | VerifyReply i answer env \<Rightarrow>
          (case task_at s i of
             Some (Verifying call method code) \<Rightarrow>
               Some (verify_reply call method (verify method code answer env) (drop_task i s))
           | _ \<Rightarrow> None))"

definition initial_session :: verification_session where
  "initial_session = \<lparr> vs_ui = initial_ui, vs_tasks = [Checking None], vs_log = [] \<rparr>"

section \<open>What a verification needs\<close>

definition accepted :: "jsval reply \<Rightarrow> bool" where
  "accepted r = (case r of Inl _ \<Rightarrow> False | Inr data \<Rightarrow> truthy (value_get data ''success''))"

definition server_accepts :: "jsval reply \<Rightarrow> passkey_replies \<Rightarrow> bool" where
  "server_accepts answer env \<longleftrightarrow> accepted answer \<or> accepted (pk_begin env) \<and> accepted (pk_verify env)"

lemma confirmed_accepted: "confirmed m r = Inr d \<Longrightarrow> accepted r"
  by (auto simp: confirmed_def accepted_def split: sum.splits if_splits)

lemma verify2FA_accepts: "snd (verify2FA code answer) = Inr u \<Longrightarrow> accepted answer \<and> js_trim code \<noteq> []"
  by (auto simp: verify2FA_def split: if_splits sum.splits dest: confirmed_accepted)

lemma verifyPasskey_accepts:
  assumes "snd (verifyPasskey env) = Inr u"
  shows "accepted (pk_begin env) \<and> accepted (pk_verify env)"
proof -
  from assms obtain d e where "confirmed BEGIN_FAILED (pk_begin env) = Inr d"
    and "confirmed VERIFY_FAILED (pk_verify env) = Inr e"
    by (auto simp: verifyPasskey_def Let_def split: sum.splits option.splits)
  then show ?thesis using confirmed_accepted by blast
qed

lemma verify_accepts:
  assumes "snd (verify meth code answer env) = Inr u"
  shows "server_accepts answer env"
  using assms verify2FA_accepts [of code answer u] verifyPasskey_accepts [of env u]
  by (simp add: verify_def server_accepts_def split: if_splits)

section \<open>The invariant\<close>

fun log_ok :: "entry list \<Rightarrow> bool" where
  "log_ok [] \<longleftrightarrow> True"
| "log_ok (Retried c # es) \<longleftrightarrow> log_ok es \<and> es \<noteq> [] \<and> hd es = Verified c"
| "log_ok (Verified c # es) \<longleftrightarrow> log_ok es \<and> Refused c \<in> set es"
| "log_ok (_ # es) \<longleftrightarrow> log_ok es"

fun pending_ok :: "entry list \<Rightarrow> task \<Rightarrow> bool" where
  "pending_ok es (Checking (Some (c, _))) \<longleftrightarrow> Refused c \<in> set es"
| "pending_ok es (Verifying c _ _) \<longleftrightarrow> Refused c \<in> set es"
| "pending_ok es (Retrying c _) \<longleftrightarrow> Retried c \<in> set es"
| "pending_ok es _ \<longleftrightarrow> True"

fun is_run :: "task \<Rightarrow> bool" where
  "is_run (Verifying _ _ _) \<longleftrightarrow> True"
| "is_run (Retrying _ _) \<longleftrightarrow> True"
| "is_run _ \<longleftrightarrow> False"

definition ui_ok :: "verification_ui \<Rightarrow> task list \<Rightarrow> entry list \<Rightarrow> bool" where
  "ui_ok ui ts es \<longleftrightarrow>
     (v_visible ui \<longleftrightarrow> v_call ui \<noteq> None)
     \<and> (v_loading ui \<longrightarrow> v_visible ui \<and> list_ex is_run ts)
     \<and> (case v_call ui of None \<Rightarrow> True | Some c \<Rightarrow> Refused c \<in> set es)"

definition verification_ok :: "verification_session \<Rightarrow> bool" where
  "verification_ok s \<longleftrightarrow>
     ui_ok (vs_ui s) (vs_tasks s) (vs_log s) \<and> list_all (pending_ok (vs_log s)) (vs_tasks s) \<and> log_ok (vs_log s)"

lemma pending_task_ok_more: "pending_ok es t \<Longrightarrow> pending_ok (fs @ es) t"
  by (cases "(es, t)" rule: pending_ok.cases) auto

lemma pending_ok_more: "list_all (pending_ok es) ts \<Longrightarrow> list_all (pending_ok (fs @ es)) ts"
  by (auto simp: list_all_iff pending_task_ok_more)

fun plain_entry :: "entry \<Rightarrow> bool" where
  "plain_entry (Retried _) \<longleftrightarrow> False"
| "plain_entry (Verified _) \<longleftrightarrow> False"
| "plain_entry _ \<longleftrightarrow> True"

lemma log_ok_plain:
  "list_all plain_entry fs \<Longrightarrow> log_ok es
   \<Longrightarrow> log_ok (fs @ es)"
proof (induction fs)
  case (Cons f fs)
  then show ?case by (cases f) simp_all
qed simp

text \<open>Taking a task off the list.\<close>

lemma dropped_task:
  assumes "task_at s i = Some t"
  obtains pre post where "vs_tasks s = pre @ t # post" "drop_task i s = s\<lparr> vs_tasks := pre @ post \<rparr>"
proof -
  have i: "i < length (vs_tasks s)" and t: "t = vs_tasks s ! i"
    using assms by (auto simp: task_at_def split: if_splits)
  show thesis
    using that [of "take i (vs_tasks s)" "drop (Suc i) (vs_tasks s)"] id_take_nth_drop [OF i] t
    by (simp add: drop_task_def)
qed

lemmas session_simps =
  note_entries_def add_task_def on_ui_def ui_ok_def run_ended_def resetState_def initial_ui_def

lemma ok_without_task:
  assumes "verification_ok s" "task_at s i = Some t" "\<not> is_run t"
  shows "verification_ok (drop_task i s)" "pending_ok (vs_log s) t"
proof -
  obtain pre post where tasks: "vs_tasks s = pre @ t # post" "drop_task i s = s\<lparr> vs_tasks := pre @ post \<rparr>"
    using dropped_task [OF assms(2)] .
  with assms show "verification_ok (drop_task i s)" "pending_ok (vs_log s) t"
    by (auto simp: verification_ok_def ui_ok_def)
qed

text \<open>Taking a run off the list leaves everything in order once the dialog is released, or a new
  run is added.\<close>

definition ok_but_run :: "verification_session \<Rightarrow> bool" where
  "ok_but_run s \<longleftrightarrow>
     verification_ok (s\<lparr> vs_ui := run_ended (vs_ui s) \<rparr>) \<and> (v_loading (vs_ui s) \<longrightarrow> v_visible (vs_ui s))"

lemma ok_without_run:
  assumes "verification_ok s" "task_at s i = Some t"
  shows "ok_but_run (drop_task i s)" "pending_ok (vs_log s) t"
proof -
  obtain pre post where tasks: "vs_tasks s = pre @ t # post" "drop_task i s = s\<lparr> vs_tasks := pre @ post \<rparr>"
    using dropped_task [OF assms(2)] .
  with assms show "ok_but_run (drop_task i s)" "pending_ok (vs_log s) t"
    by (auto simp: ok_but_run_def verification_ok_def ui_ok_def run_ended_def)
qed

lemma ok_note:
  assumes "verification_ok s" "list_all plain_entry fs"
  shows "verification_ok (note_entries fs s)"
  using assms pending_ok_more [of "vs_log s" "vs_tasks s" fs] log_ok_plain [of fs "vs_log s"]
  by (auto simp: verification_ok_def note_entries_def ui_ok_def split: option.splits)

lemma ok_add: "verification_ok s \<Longrightarrow> pending_ok (vs_log s) t \<Longrightarrow> verification_ok (add_task t s)"
  by (auto simp: verification_ok_def add_task_def ui_ok_def)

section \<open>Every step keeps the invariant\<close>

lemma ok_protect: "verification_ok s \<Longrightarrow> verification_ok (withVerification call opts s)"
  unfolding withVerification_def by (intro ok_note ok_add) simp_all

lemma ok_first_reply: "verification_ok s \<Longrightarrow> verification_ok (first_reply call opts r s)"
proof (cases r)
  case (Inl e)
  assume ok: "verification_ok s"
  have "note_entries [Refused call] (add_task (Checking (Some (call, opts))) s)
      = add_task (Checking (Some (call, opts))) (note_entries [Refused call] s)"
    by (simp add: note_entries_def add_task_def)
  moreover have "verification_ok (add_task (Checking (Some (call, opts))) (note_entries [Refused call] s))"
    using ok by (intro ok_add ok_note) (simp_all add: note_entries_def)
  moreover have "verification_ok (note_entries [Failure call (ae_message e)] s)"
    using ok by (intro ok_note) simp_all
  ultimately show ?thesis using Inl by (simp add: first_reply_def)
qed (simp add: first_reply_def ok_note)

lemma ok_on_ui:
  assumes "verification_ok s" "ui_ok (f (vs_ui s)) (vs_tasks s) (vs_log s)"
  shows "verification_ok (on_ui f s)"
  using assms by (simp add: verification_ok_def on_ui_def)

lemma ok_methods_reply:
  assumes "verification_ok s" "pending_ok (vs_log s) (Checking target)"
  shows "verification_ok (methods_reply target methods s)"
proof (cases target)
  case None
  with assms show ?thesis
    by (auto simp: methods_reply_def verification_ok_def ui_ok_def on_ui_def)
next
  case (Some ct)
  obtain call opts where ct: "ct = (call, opts)" by (cases ct)
  have "verification_ok (on_ui (startVerification call opts methods) s)"
    using assms Some ct
    by (intro ok_on_ui) (auto simp: verification_ok_def ui_ok_def startVerification_def)
  then show ?thesis using Some ct by (simp add: methods_reply_def ok_note)
qed

lemma ok_dialog:
  assumes "verification_ok s" "dialog_allows d (vs_ui s)"
  shows "verification_ok (dialog_action d s)"
proof (cases d)
  case PressVerify
  with assms have "v_visible (vs_ui s)" by (auto simp: dialog_allows_def pane_shown_def)
  with assms obtain c where c: "v_call (vs_ui s) = Some c" "Refused c \<in> set (vs_log s)"
    by (auto simp: verification_ok_def ui_ok_def)
  then show ?thesis
    using assms PressVerify
    by (auto simp: dialog_action_def executeVerification_def verification_ok_def ui_ok_def add_task_def on_ui_def)
next
  case PressCancel
  with assms show ?thesis
    by (auto simp: dialog_action_def cancelVerification_def verification_ok_def session_simps)
qed (use assms in \<open>auto simp: dialog_action_def setVerificationCode_def switchVerificationMethod_def
  verification_ok_def ui_ok_def on_ui_def\<close>)

lemma ok_run_failed: "ok_but_run s \<Longrightarrow> verification_ok (run_failed call e s)"
  unfolding run_failed_def by (rule ok_note) (simp_all add: ok_but_run_def on_ui_def)

lemma ok_but_run_note:
  assumes "ok_but_run s" "list_all plain_entry fs"
  shows "ok_but_run (note_entries fs s)"
proof -
  have "(note_entries fs s)\<lparr> vs_ui := run_ended (vs_ui (note_entries fs s)) \<rparr>
      = note_entries fs (s\<lparr> vs_ui := run_ended (vs_ui s) \<rparr>)"
    by (simp add: note_entries_def)
  moreover have "verification_ok (note_entries fs (s\<lparr> vs_ui := run_ended (vs_ui s) \<rparr>))"
    using assms by (intro ok_note) (simp_all add: ok_but_run_def)
  moreover have "vs_ui (note_entries fs s) = vs_ui s" by (simp add: note_entries_def)
  ultimately show ?thesis using assms(1) by (simp add: ok_but_run_def)
qed

definition asked :: "verify_request list \<Rightarrow> entry list" where
  "asked requests = rev (map Asked requests)"

lemma asked_plain:
  "list_all plain_entry (asked requests)"
  by (induction requests) (simp_all add: asked_def)

lemma ok_verify_reply:
  assumes "ok_but_run s" "Refused call \<in> set (vs_log s)"
  shows "verification_ok (verify_reply call meth (requests, r) s)"
proof -
  have noted: "ok_but_run (note_entries (asked requests) s)"
    using assms(1) asked_plain by (rule ok_but_run_note)
  show ?thesis
  proof (cases r)
    case (Inl e)
    with ok_run_failed [OF noted, of call e] show ?thesis by (simp add: verify_reply_def asked_def)
  next
    case (Inr u)
    with noted assms(2) pending_ok_more [of "vs_log (note_entries (asked requests) s)" "vs_tasks s" "[Retried call, Verified call]"]
    show ?thesis
      by (auto simp: verify_reply_def asked_def ok_but_run_def verification_ok_def ui_ok_def add_task_def
          note_entries_def run_ended_def split: option.splits)
  qed
qed

lemma ok_retry_reply:
  assumes "ok_but_run s"
  shows "verification_ok (retry_reply cfg call meth r s)"
proof -
  let ?f = "run_ended \<circ> (if autoReset cfg then resetState else id)"
  have "verification_ok (on_ui ?f s)"
    using assms by (auto simp: ok_but_run_def verification_ok_def session_simps)
  then have "verification_ok (note_entries [Result call v] (on_ui ?f s))" for v
    by (rule ok_note) simp
  then show ?thesis
    using ok_run_failed [OF assms] by (auto simp: retry_reply_def split: sum.splits option.splits)
qed

lemma ok_step:
  assumes "verification_ok s" "vstep cfg e s = Some s'"
  shows "verification_ok s'"
proof (cases e)
  case (Protect call opts)
  with assms show ?thesis by (auto simp: vstep_def ok_protect)
next
  case (Dialog d)
  with assms show ?thesis by (auto simp: vstep_def ok_dialog split: if_splits)
next
  case (CallReply i r)
  with assms(2) obtain t where t: "task_at s i = Some t" by (auto simp: vstep_def split: option.splits)
  show ?thesis
    using CallReply assms(2) t ok_without_task(1) [OF assms(1) t] ok_without_run(1) [OF assms(1) t]
    by (cases t) (auto simp: vstep_def ok_first_reply ok_retry_reply)
next
  case (MethodsReply i a b c)
  with assms(2) obtain target where t: "task_at s i = Some (Checking target)"
    by (auto simp: vstep_def split: option.splits task.splits)
  have "pending_ok (vs_log (drop_task i s)) (Checking target)"
    using ok_without_task(2) [OF assms(1) t] by (simp add: drop_task_def)
  then show ?thesis
    using MethodsReply assms(2) t ok_without_task(1) [OF assms(1) t]
    by (auto simp: vstep_def ok_methods_reply)
next
  case (VerifyReply i answer env)
  with assms(2) obtain call meth code where t: "task_at s i = Some (Verifying call meth code)"
    by (auto simp: vstep_def split: option.splits task.splits)
  obtain requests r where out: "verify meth code answer env = (requests, r)" by fastforce
  have "Refused call \<in> set (vs_log (drop_task i s))"
    using ok_without_run(2) [OF assms(1) t] by (simp add: drop_task_def)
  then show ?thesis
    using VerifyReply assms(2) t out ok_without_run(1) [OF assms(1) t]
    by (auto simp: vstep_def ok_verify_reply)
qed

interpretation secure: invariant_system "vstep cfg" "\<lambda>s. s = initial_session" verification_ok
  for cfg
proof
  show "verification_ok s" if "s = initial_session" for s
    using that by (simp add: initial_session_def verification_ok_def ui_ok_def initial_ui_def)
  show "verification_ok s'" if "verification_ok s" "vstep cfg e s = Some s'" for s e s'
    using that by (rule ok_step)
qed

section \<open>Properties\<close>

fun is_retry :: "entry \<Rightarrow> bool" where
  "is_retry (Retried _) \<longleftrightarrow> True"
| "is_retry _ \<longleftrightarrow> False"

definition retries :: "verification_session \<Rightarrow> nat" where
  "retries s = length (filter is_retry (vs_log s))"

fun accepted_verification :: "verification_event \<Rightarrow> bool" where
  "accepted_verification (VerifyReply _ answer env) \<longleftrightarrow> server_accepts answer env"
| "accepted_verification _ \<longleftrightarrow> False"

lemma retries_basic [simp]:
  "retries (drop_task i s) = retries s" "retries (add_task t s) = retries s"
  "retries (on_ui f s) = retries s"
  "retries (note_entries fs s) = length (filter is_retry fs) + retries s"
  by (simp_all add: retries_def drop_task_def add_task_def on_ui_def note_entries_def)

lemma no_retry_asked [simp]: "filter is_retry (rev (map Asked requests)) = []"
  by (induction requests) simp_all

lemma retries_step:
  assumes "vstep cfg e s = Some s'"
  shows "retries s' \<le> retries s + (if accepted_verification e then 1 else 0)"
proof (cases e)
  case (VerifyReply i answer env)
  with assms obtain call meth code where t: "task_at s i = Some (Verifying call meth code)"
    by (auto simp: vstep_def split: option.splits task.splits)
  obtain requests r where out: "verify meth code answer env = (requests, r)" by fastforce
  then have r: "r = snd (verify meth code answer env)" by simp
  show ?thesis
  proof (cases r)
    case (Inl f)
    with assms VerifyReply t out show ?thesis by (auto simp: vstep_def verify_reply_def run_failed_def)
  next
    case (Inr u)
    with r verify_accepts [of meth code answer env u] have "server_accepts answer env" by simp
    with Inr assms VerifyReply t out show ?thesis by (auto simp: vstep_def verify_reply_def)
  qed
next
  case (Dialog d)
  with assms show ?thesis
    by (cases d) (auto simp: vstep_def dialog_action_def executeVerification_def split: if_splits option.splits)
qed (use assms in \<open>auto simp: vstep_def withVerification_def first_reply_def methods_reply_def
  retry_reply_def run_failed_def split: option.splits task.splits sum.splits\<close>)

lemma retries_run:
  "run_events (vstep cfg) es s = Some s' \<Longrightarrow> retries s' \<le> retries s + length (filter accepted_verification es)"
proof (induction es arbitrary: s)
  case (Cons e es)
  then obtain r where r: "vstep cfg e s = Some r" "run_events (vstep cfg) es r = Some s'"
    by (auto split: option.splits)
  from Cons.IH [OF r(2)] retries_step [OF r(1)] show ?case by (simp split: if_splits)
qed simp

lemma log_ok_tail: "log_ok (fs @ es) \<Longrightarrow> log_ok es"
proof (induction fs)
  case (Cons f fs)
  then show ?case by (cases f) auto
qed simp

text \<open>
  C1: A protected call is repeated only after the server has accepted a verification: in every
  session, each repetition directly follows a completed verification of that same call, which
  the server had refused with a demand for it; and there are never more repetitions than
  verifications the server accepted.
\<close>

theorem retried_calls_were_verified:
  assumes "run_events (vstep cfg) es initial_session = Some s"
  shows "retries s \<le> length (filter accepted_verification es)
    \<and> (\<forall>newer c older. vs_log s = newer @ Retried c # older \<longrightarrow>
         (\<exists>before. older = Verified c # before \<and> Refused c \<in> set before))"
proof (intro conjI allI impI)
  show "retries s \<le> length (filter accepted_verification es)"
    using retries_run [OF assms] by (simp add: retries_def initial_session_def)
  fix newer c older
  assume log: "vs_log s = newer @ Retried c # older"
  have "verification_ok s" using secure.inv_from_init [OF refl assms] .
  then have "log_ok (newer @ Retried c # older)" by (simp add: verification_ok_def log)
  then have "log_ok (Retried c # older)" by (rule log_ok_tail)
  then show "\<exists>before. older = Verified c # before \<and> Refused c \<in> set before"
    by (cases older) auto
qed

text \<open>A session: a call is refused, the user enters a code, the call is repeated.\<close>

definition demand_error :: api_error where
  "demand_error = \<lparr> ae_name = ''AxiosError'', ae_message = ''403'',
     ae_response = Some (403, JObj [(''code'', JStr ''VERIFICATION_REQUIRED'')]) \<rparr>"

definition success_body :: jsval where "success_body = JObj [(''success'', JBool True)]"

definition enabled_body :: "bool \<Rightarrow> jsval" where
  "enabled_body b = JObj [(''success'', JBool True), (''data'', JObj [(''enabled'', JBool b)])]"

definition no_passkey :: passkey_replies where
  "no_passkey = \<lparr> pk_begin = Inl demand_error, pk_get = (\<lambda>_. Inl demand_error), pk_finish = (\<lambda>_. Inl demand_error),
     pk_verify = Inl demand_error \<rparr>"

definition plain_options :: verification_options where
  "plain_options = \<lparr> preferredMethod = JUndef, vo_title = JUndef, vo_description = JUndef \<rparr>"

definition plain_hook :: verification_config where
  "plain_hook = \<lparr> autoReset = True, onSuccess = (\<lambda>_ _. None) \<rparr>"

definition code_session :: "verification_event list" where
  "code_session =
     [MethodsReply 0 (Inr (enabled_body True)) (Inr (enabled_body False)) True,
      Protect 7 plain_options, CallReply 0 (Inl demand_error),
      MethodsReply 0 (Inr (enabled_body True)) (Inr (enabled_body False)) True,
      Dialog (TypeCode ''123456''), Dialog PressVerify, VerifyReply 0 (Inr success_body) no_passkey,
      CallReply 0 (Inr JNull)]"

lemma code_session_run:
  "map_option (\<lambda>s. (vs_log s, v_visible (vs_ui s))) (run_events (vstep plain_hook) code_session initial_session)
   = Some ([Result 7 JNull, Retried 7, Verified 7, Asked (Post2FA ''123456''), Refused 7, Tried 7], False)"
  by code_simp

theorem retried_calls_were_verified_witness:
  "\<exists>s. run_events (vstep plain_hook) code_session initial_session = Some s
     \<and> 1 \<le> length (filter accepted_verification code_session)"
proof -
  obtain s where s: "run_events (vstep plain_hook) code_session initial_session = Some s"
      and log: "vs_log s = [Result 7 JNull, Retried 7, Verified 7, Asked (Post2FA ''123456''), Refused 7, Tried 7]"
    using code_session_run by auto
  from log have "retries s = 1" by (simp add: retries_def)
  with retried_calls_were_verified [OF s] s show ?thesis by auto
qed

section \<open>The dialog never stays locked\<close>

lemma list_ex_position: "list_ex P xs \<Longrightarrow> \<exists>i < length xs. P (xs ! i)"
  by (metis in_set_conv_nth list_ex_iff)

lemma locked_has_run:
  assumes "verification_ok s" "v_loading (vs_ui s)"
  obtains i t where "task_at s i = Some t" "is_run t"
proof -
  have "list_ex is_run (vs_tasks s)" using assms by (simp add: verification_ok_def ui_ok_def)
  then obtain i where "i < length (vs_tasks s)" "is_run (vs_tasks s ! i)"
    using list_ex_position by blast
  then show thesis using that [of i "vs_tasks s ! i"] by (simp add: task_at_def)
qed

lemma retry_reply_unlocks: "\<not> v_loading (vs_ui (retry_reply cfg call meth r s))"
  by (simp add: retry_reply_def run_failed_def note_entries_def on_ui_def run_ended_def
      split: sum.splits option.splits)

lemma retry_task_unlocks:
  assumes "task_at s i = Some (Retrying call meth)"
  shows "\<exists>s'. vstep cfg (CallReply i r) s = Some s' \<and> \<not> v_loading (vs_ui s')"
  using assms by (simp add: vstep_def retry_reply_unlocks)

lemma verify_reply_progress:
  "\<not> v_loading (vs_ui (verify_reply call meth out s))
   \<or> (\<exists>i. task_at (verify_reply call meth out s) i = Some (Retrying call meth))"
proof (cases out)
  case (Pair requests r)
  show ?thesis
  proof (cases r)
    case (Inl e)
    then show ?thesis using Pair
      by (simp add: verify_reply_def run_failed_def note_entries_def on_ui_def run_ended_def)
  next
    case (Inr u)
    have "task_at (verify_reply call meth out s) (length (vs_tasks s)) = Some (Retrying call meth)"
      using Pair Inr by (simp add: verify_reply_def add_task_def note_entries_def task_at_def)
    then show ?thesis by blast
  qed
qed

text \<open>
  C29: The dialog never stays locked: whenever its buttons are disabled, a request is under way
  whose answer, or that of the call repeated after it, enables them again, whatever the server
  answers.
\<close>

theorem verification_never_hangs:
  assumes "reached (vstep cfg) initial_session s" and "v_loading (vs_ui s)"
  shows "\<exists>es s'. set es \<subseteq> range (\<lambda>i. VerifyReply i answer env) \<union> range (\<lambda>i. CallReply i r)
           \<and> length es \<le> 2 \<and> run_events (vstep cfg) es s = Some s' \<and> \<not> v_loading (vs_ui s')"
proof -
  have "verification_ok s" using secure.inv_reached [OF assms(1) refl] .
  then obtain i t where t: "task_at s i = Some t" "is_run t" using locked_has_run assms(2) by blast
  show ?thesis
  proof (cases t)
    case (Retrying call meth)
    with t obtain s' where "vstep cfg (CallReply i r) s = Some s'" "\<not> v_loading (vs_ui s')"
      using retry_task_unlocks by blast
    then show ?thesis by (intro exI [of _ "[CallReply i r]"] exI [of _ s']) simp
  next
    case (Verifying call meth code)
    define s1 where "s1 = verify_reply call meth (verify meth code answer env) (drop_task i s)"
    have step: "vstep cfg (VerifyReply i answer env) s = Some s1"
      using t Verifying by (simp add: vstep_def s1_def)
    from verify_reply_progress [of call meth "verify meth code answer env" "drop_task i s"]
    consider "\<not> v_loading (vs_ui s1)" | j where "task_at s1 j = Some (Retrying call meth)"
      by (auto simp: s1_def)
    then show ?thesis
    proof cases
      case 1
      with step show ?thesis by (intro exI [of _ "[VerifyReply i answer env]"] exI [of _ s1]) simp
    next
      case (2 j)
      then obtain s' where "vstep cfg (CallReply j r) s1 = Some s'" "\<not> v_loading (vs_ui s')"
        using retry_task_unlocks by blast
      with step show ?thesis
        by (intro exI [of _ "[VerifyReply i answer env, CallReply j r]"] exI [of _ s']) simp
    qed
  qed (use t in simp_all)
qed

definition locked_session :: "verification_event list" where
  "locked_session = take 6 code_session"

lemma locked_session_run:
  "map_option (\<lambda>s. v_loading (vs_ui s)) (run_events (vstep plain_hook) locked_session initial_session)
   = Some True"
  by code_simp

theorem verification_never_hangs_witness:
  "\<exists>s es s'. v_loading (vs_ui s) \<and> run_events (vstep plain_hook) es s = Some s' \<and> \<not> v_loading (vs_ui s')"
proof -
  obtain s where s: "run_events (vstep plain_hook) locked_session initial_session = Some s"
      and locked: "v_loading (vs_ui s)"
    using locked_session_run by auto
  from s have "reached (vstep plain_hook) initial_session s"
    unfolding reached_iff_run by (rule exI)
  from verification_never_hangs [OF this locked, of "Inl demand_error" no_passkey "Inl demand_error"]
  show ?thesis using locked by (elim exE conjE) (intro exI conjI)
qed

section \<open>What the dialog does not handle\<close>

text \<open>Both pages that use the hook prefer the passkey.  A user who has only the code then sees a
  dialog without a pane: nothing can be confirmed before a tab is picked.\<close>

lemma preferred_passkey_hides_the_code:
  assumes "preferredMethod opts = JStr ''passkey''" "truthy (has2FA methods)"
    and "\<not> (truthy (hasPasskey methods) \<and> passkeySupported methods)"
    and "ui' = startVerification call opts methods ui"
  shows "v_visible ui' \<and> \<not> pane_shown m ui' \<and> \<not> dialog_allows PressVerify ui'
    \<and> dialog_tabs ui' = [JStr ''2fa'']"
  using assms by (auto simp: startVerification_def defaultMethod_def pane_shown_def dialog_tabs_def
      dialog_allows_def)

text \<open>A user whose only method is a passkey this browser does not support gets a dialog in which
  nothing can be done but to close it.\<close>

lemma unsupported_passkey_dead_end:
  assumes "\<not> truthy (has2FA methods)" "truthy (hasPasskey methods)" "\<not> passkeySupported methods"
    and "ui' = startVerification call opts methods ui"
  shows "v_visible ui' \<and> dialog_tabs ui' = [] \<and> \<not> dialog_allows PressVerify ui' \<and> \<not> dialog_allows (PickTab m) ui'"
  using assms by (auto simp: startVerification_def pane_shown_def dialog_tabs_def dialog_allows_def)

text \<open>A second protected call refused while the first is being verified takes over the dialog,
  and the end of the first closes it: the second call is never repeated and reports nothing.\<close>

definition two_calls :: "verification_event list" where
  "two_calls =
     [Protect 1 plain_options, Protect 2 plain_options, CallReply 1 (Inl demand_error),
      MethodsReply 2 (Inr (enabled_body True)) (Inr (enabled_body False)) True,
      Dialog (TypeCode ''1''), Dialog PressVerify, CallReply 1 (Inl demand_error),
      MethodsReply 2 (Inr (enabled_body True)) (Inr (enabled_body False)) True,
      VerifyReply 1 (Inr success_body) no_passkey, CallReply 1 (Inr JNull)]"

lemma second_call_is_lost:
  "map_option (\<lambda>s. (v_visible (vs_ui s), v_call (vs_ui s), vs_tasks s, vs_log s))
     (run_events (vstep plain_hook) two_calls initial_session)
   = Some (False, None, [Checking None],
       [Result 1 JNull, Retried 1, Verified 1, Asked (Post2FA ''1''), Refused 2, Refused 1, Tried 2, Tried 1])"
  by code_simp

text \<open>A callback that throws after the repeated call has succeeded makes the run a failed one: an
  error is shown and the dialog stays open.\<close>

lemma callback_error_is_failure:
  assumes "onSuccess cfg v meth = Some e" "v_visible (vs_ui s)"
  shows "vs_log (retry_reply cfg call meth (Inr v) s) = Failure call (shown_message e) # vs_log s
    \<and> v_visible (vs_ui (retry_reply cfg call meth (Inr v) s))"
  using assms by (simp add: retry_reply_def run_failed_def note_entries_def on_ui_def run_ended_def)

end
