(* ===== verification/EdgeProxy.thy ===== *)
theory EdgeProxy
  imports JsJson Machines
begin

text \<open>
  The edge proxies in front of the backend: \<open>web/functions/_utils/proxy.js\<close> (Cloudflare
  functions), \<open>web/api/_utils/proxy.js\<close> and \<open>web/api/proxy.js\<close> (Vercel edge functions) and
  \<open>web/api/_utils/rate-limit-response.js\<close>.  A request is checked against the
  anti-distribution configuration, forwarded without hop-by-hop headers, and answered with
  public cache headers where that is safe.

  \<open>new URL\<close>, \<open>fetch\<close> and the clock belong to the platform: \<open>parse_url\<close>, \<open>fetch\<close> and
  \<open>now\<close> are arguments.  \<open>Headers\<close> objects are lists of lower-case names and values.  The
  Chinese texts are constructors.
\<close>

section \<open>Data\<close>

record url_parts =
  url_protocol :: string
  url_host :: string
  url_hostname :: string
  url_pathname :: string
  url_search :: string

type_synonym http_headers = "(string \<times> string) list"

record edge_request =
  req_method :: string
  req_url :: string
  req_headers :: http_headers
  req_body :: string

definition hdr_get :: "http_headers \<Rightarrow> string \<Rightarrow> string option" where
  "hdr_get h k = obj_get h (js_lower k)"

definition hdr_has :: "http_headers \<Rightarrow> string \<Rightarrow> bool" where
  "hdr_has h k \<longleftrightarrow> hdr_get h k \<noteq> None"

definition hdr_set :: "string \<Rightarrow> string \<Rightarrow> http_headers \<Rightarrow> http_headers" where
  "hdr_set k v h = obj_put (js_lower k) v h"

definition hdr_delete :: "string \<Rightarrow> http_headers \<Rightarrow> http_headers" where
  "hdr_delete k h = obj_del (js_lower k) h"

definition HOP_BY_HOP_HEADERS :: "string list" where
  "HOP_BY_HOP_HEADERS =
     [''connection'', ''content-length'', ''host'', ''keep-alive'', ''proxy-authenticate'',
      ''proxy-authorization'', ''te'', ''trailer'', ''transfer-encoding'', ''upgrade'']"

definition drop_hop_headers :: "string list \<Rightarrow> http_headers \<Rightarrow> http_headers" where
  "drop_hop_headers names h = foldl (\<lambda>acc n. hdr_delete n acc) h names"

section \<open>Public caching\<close>

text \<open>A rule \<^verbatim>\<open>/^\/api\/name\/?$/\<close> with its time to live in seconds.\<close>

type_synonym cache_rules = "(string \<times> int) list"

definition PUBLIC_CACHE_RULES :: cache_rules where
  "PUBLIC_CACHE_RULES =
     [(''/api/status'', 30), (''/api/pricing'', 30), (''/api/subscription/plans'', 30),
      (''/api/notice'', 60), (''/api/about'', 300), (''/api/user-agreement'', 300),
      (''/api/privacy-policy'', 300), (''/api/home_page_content'', 300), (''/api/ratio_config'', 300)]"

definition VERCEL_CACHE_RULES :: cache_rules where
  "VERCEL_CACHE_RULES =
     [(''/api/status'', 30), (''/api/notice'', 60), (''/api/about'', 300),
      (''/api/user-agreement'', 300), (''/api/privacy-policy'', 300),
      (''/api/home_page_content'', 300), (''/api/ratio_config'', 300)]"

definition rule_matches :: "string \<Rightarrow> string \<Rightarrow> bool" where
  "rule_matches base path \<longleftrightarrow> path = base \<or> path = base @ ''/''"

definition has_credentials :: "http_headers \<Rightarrow> bool" where
  "has_credentials h \<longleftrightarrow> hdr_has h ''authorization'' \<or> hdr_has h ''cookie'' \<or> hdr_has h ''x-api-key''"

definition bodyless :: "string \<Rightarrow> bool" where
  "bodyless m \<longleftrightarrow> m = ''GET'' \<or> m = ''HEAD''"

definition cache_ttl ::
  "(string \<Rightarrow> url_parts option) \<Rightarrow> cache_rules \<Rightarrow> edge_request \<Rightarrow> int js_result" where
  "cache_ttl parse_url rules r =
     (if \<not> bodyless (req_method r) then Inr 0
      else case parse_url (req_url r) of
        None \<Rightarrow> Inl (JsError ''Invalid URL'')
      | Some u \<Rightarrow>
          Inr (if has_credentials (req_headers r) then 0
               else (case find (\<lambda>(b, _). rule_matches b (url_pathname u)) rules of
                       Some (_, ttl) \<Rightarrow> ttl | None \<Rightarrow> 0)))"

definition getCacheTTL :: "(string \<Rightarrow> url_parts option) \<Rightarrow> edge_request \<Rightarrow> int js_result" where
  "getCacheTTL parse_url r = cache_ttl parse_url PUBLIC_CACHE_RULES r"

definition vercel_getCacheTTL :: "(string \<Rightarrow> url_parts option) \<Rightarrow> edge_request \<Rightarrow> int js_result" where
  "vercel_getCacheTTL parse_url r = cache_ttl parse_url VERCEL_CACHE_RULES r"

definition cache_value :: "int \<Rightarrow> string" where
  "cache_value ttl =
     ''public, max-age=0, s-maxage='' @ show_int ttl @ '', stale-while-revalidate='' @ show_int (ttl * 5)"

definition applyCacheHeaders :: "int \<Rightarrow> http_headers \<Rightarrow> http_headers" where
  "applyCacheHeaders ttl h =
     (if ttl = 0 then h
      else hdr_set ''CDN-Cache-Control'' (cache_value ttl) (hdr_set ''Cache-Control'' (cache_value ttl) h))"

definition vercel_applyCacheHeaders :: "int \<Rightarrow> http_headers \<Rightarrow> http_headers" where
  "vercel_applyCacheHeaders ttl h =
     (if ttl = 0 then h
      else hdr_set ''Vercel-CDN-Cache-Control'' (cache_value ttl) (applyCacheHeaders ttl h))"

section \<open>Hosts and the anti-distribution check\<close>

definition strip_slashes :: "string \<Rightarrow> string" where
  "strip_slashes s = rev (dropWhile (\<lambda>c. c = CHR ''/'') (rev s))"

definition DEFAULT_BACKEND_ORIGIN :: string where
  "DEFAULT_BACKEND_ORIGIN = ''https://nbility.dev''"

text \<open>The environment gives a text per variable, empty when it is not set.\<close>

record edge_env =
  env_BACKEND_ORIGIN :: string
  env_REACT_BACKEND_ORIGIN :: string
  env_REACT_SERVER_URL :: string

definition first_text :: "string list \<Rightarrow> string" where
  "first_text ss = (case filter_nonempty ss of s # _ \<Rightarrow> s | [] \<Rightarrow> [])"

definition getBackendOrigin :: "edge_env \<Rightarrow> string" where
  "getBackendOrigin env =
     strip_slashes (first_text [env_BACKEND_ORIGIN env, env_REACT_BACKEND_ORIGIN env,
                                env_REACT_SERVER_URL env, DEFAULT_BACKEND_ORIGIN])"

text \<open>The three replacements \<^verbatim>\<open>/^\[/\<close>, \<^verbatim>\<open>/\]$/\<close> and \<^verbatim>\<open>/:\d+$/\<close>.\<close>

definition strip_open_bracket :: "string \<Rightarrow> string" where
  "strip_open_bracket s = (case s of c # r \<Rightarrow> if c = CHR ''['' then r else s | [] \<Rightarrow> [])"

definition strip_close_bracket :: "string \<Rightarrow> string" where
  "strip_close_bracket s = (if s \<noteq> [] \<and> last s = CHR '']'' then butlast s else s)"

definition strip_port :: "string \<Rightarrow> string" where
  "strip_port s =
     (let ds = takeWhile is_digit (rev s); r = dropWhile is_digit (rev s)
      in if ds \<noteq> [] \<and> r \<noteq> [] \<and> hd r = CHR '':'' then rev (tl r) else s)"

definition plain_host :: "string \<Rightarrow> string" where
  "plain_host s = js_lower (strip_port (strip_close_bracket (strip_open_bracket (js_trim s))))"

definition url_host_or_empty :: "(string \<Rightarrow> url_parts option) \<Rightarrow> string \<Rightarrow> string" where
  "url_host_or_empty parse_url s =
     (case parse_url s of Some u \<Rightarrow> js_lower (url_hostname u) | None \<Rightarrow> [])"

text \<open>
  The configuration is JSON from the backend, so a pattern may be any value.  A value
  without \<open>includes\<close> makes the guarded test throw, which gives the empty host; an array has
  \<open>includes\<close> but no \<open>trim\<close>.
\<close>

definition normalizeHost :: "(string \<Rightarrow> url_parts option) \<Rightarrow> jsval \<Rightarrow> string js_result" where
  "normalizeHost parse_url v =
     (if \<not> truthy v then Inr []
      else case v of
        JStr s \<Rightarrow>
          Inr (if js_includes ''://'' s then url_host_or_empty parse_url s else plain_host s)
      | JArr vs \<Rightarrow>
          if JStr ''://'' \<in> set vs then Inr (url_host_or_empty parse_url (text_of_value v))
          else Inl (JsError ''raw.trim is not a function'')
      | _ \<Rightarrow> Inr [])"

definition pattern_matches :: "string \<Rightarrow> string \<Rightarrow> bool" where
  "pattern_matches h p \<longleftrightarrow>
     h \<noteq> [] \<and> p \<noteq> [] \<and> (h = p \<or> starts_with ''*.'' p \<and> ends_with (tl p) h)"

definition hostMatchesPattern :: "(string \<Rightarrow> url_parts option) \<Rightarrow> string \<Rightarrow> jsval \<Rightarrow> bool js_result" where
  "hostMatchesPattern parse_url host pattern =
     (case normalizeHost parse_url (JStr host) of
        Inl e \<Rightarrow> Inl e
      | Inr h \<Rightarrow> map_sum id (pattern_matches h) (normalizeHost parse_url pattern))"

fun host_matches_some :: "(string \<Rightarrow> url_parts option) \<Rightarrow> string \<Rightarrow> jsval list \<Rightarrow> bool js_result" where
  "host_matches_some parse_url host [] = Inr False"
| "host_matches_some parse_url host (p # ps) =
     (case hostMatchesPattern parse_url host p of
        Inl e \<Rightarrow> Inl e
      | Inr b \<Rightarrow> if b then Inr True else host_matches_some parse_url host ps)"

text \<open>\<open>patterns.some\<close> on the value of the configuration, \<open>[]\<close> when it is falsy.\<close>

definition hostMatchesAny :: "(string \<Rightarrow> url_parts option) \<Rightarrow> string \<Rightarrow> jsval \<Rightarrow> bool js_result" where
  "hostMatchesAny parse_url host patterns =
     (case js_or patterns (JArr []) of
        JArr ps \<Rightarrow> host_matches_some parse_url host ps
      | _ \<Rightarrow> Inl (JsError ''patterns.some is not a function''))"

definition extractHeaderHost :: "(string \<Rightarrow> url_parts option) \<Rightarrow> string option \<Rightarrow> string" where
  "extractHeaderHost parse_url value =
     (case value of
        None \<Rightarrow> []
      | Some v \<Rightarrow>
          if v = [] then []
          else (case parse_url v of
                  None \<Rightarrow> []
                | Some u \<Rightarrow>
                    (case normalizeHost parse_url (JStr (url_hostname u)) of Inr h \<Rightarrow> h | Inl _ \<Rightarrow> [])))"

datatype ad_action = Allow | Observe | Block

datatype ad_reason = No_reason | Host_not_allowed | Origin_not_allowed | Referer_not_allowed

fun reason_text :: "ad_reason \<Rightarrow> string" where
  "reason_text No_reason = []"
| "reason_text Host_not_allowed = ''request_host_not_allowed''"
| "reason_text Origin_not_allowed = ''origin_host_not_allowed''"
| "reason_text Referer_not_allowed = ''referer_host_not_allowed''"

text \<open>A decision; its detail is the Chinese text of its reason.\<close>

record ad_decision =
  dec_action :: ad_action
  dec_reason :: ad_reason

definition refusal :: "jsval \<Rightarrow> ad_reason \<Rightarrow> ad_decision" where
  "refusal config why =
     \<lparr>dec_action = (if truthy (value_get config ''log_only'') then Observe else Block), dec_reason = why\<rparr>"

definition evaluateAntiDistribution ::
  "(string \<Rightarrow> url_parts option) \<Rightarrow> edge_request \<Rightarrow> jsval \<Rightarrow> ad_decision js_result" where
  "evaluateAntiDistribution parse_url r config =
     (case parse_url (req_url r) of
        None \<Rightarrow> Inl (JsError ''Invalid URL'')
      | Some u \<Rightarrow>
          (case normalizeHost parse_url (JStr (url_hostname u)) of
             Inl e \<Rightarrow> Inl e
           | Inr requestHost \<Rightarrow>
               let originHost = extractHeaderHost parse_url (hdr_get (req_headers r) ''origin'');
                   refererHost = extractHeaderHost parse_url (hdr_get (req_headers r) ''referer'');
                   hosts = value_get config ''allowed_hosts'';
                   sources = value_get config ''allowed_sources'';
                   refererCheck =
                     (if refererHost = [] then Inr \<lparr>dec_action = Allow, dec_reason = No_reason\<rparr>
                      else map_sum id (\<lambda>ok. if ok then \<lparr>dec_action = Allow, dec_reason = No_reason\<rparr>
                                            else refusal config Referer_not_allowed)
                             (hostMatchesAny parse_url refererHost sources))
               in (case hostMatchesAny parse_url requestHost hosts of
                     Inl e \<Rightarrow> Inl e
                   | Inr False \<Rightarrow> Inr (refusal config Host_not_allowed)
                   | Inr True \<Rightarrow>
                       if originHost = [] then refererCheck
                       else (case hostMatchesAny parse_url originHost sources of
                               Inl e \<Rightarrow> Inl e
                             | Inr False \<Rightarrow> Inr (refusal config Origin_not_allowed)
                             | Inr True \<Rightarrow> refererCheck))))"

section \<open>The cached configuration\<close>

definition ANTI_DISTRIBUTION_CACHE_TTL :: int where
  "ANTI_DISTRIBUTION_CACHE_TTL = 30 * 1000"

record ad_cache =
  cache_expiresAt :: int
  cache_data :: jsval

definition initial_cache :: ad_cache where
  "initial_cache = \<lparr>cache_expiresAt = 0, cache_data = JNull\<rparr>"

text \<open>The answer of the configuration endpoint: not reachable (or not JSON), an error
  status, or a payload.\<close>

datatype config_reply = Unreachable | NotOk | Payload jsval

definition cache_fresh :: "int \<Rightarrow> ad_cache \<Rightarrow> bool" where
  "cache_fresh now c \<longleftrightarrow> truthy (cache_data c) \<and> now < cache_expiresAt c"

definition getAntiDistributionConfig ::
  "int \<Rightarrow> config_reply \<Rightarrow> ad_cache \<Rightarrow> jsval \<times> ad_cache" where
  "getAntiDistributionConfig now reply c =
     (if cache_fresh now c then (cache_data c, c)
      else case reply of
        Payload p \<Rightarrow>
          (let data = js_or (value_get p ''data'') JNull
           in (data, \<lparr>cache_expiresAt = now + ANTI_DISTRIBUTION_CACHE_TTL, cache_data = data\<rparr>))
      | _ \<Rightarrow> (JNull, c))"

section \<open>Responses\<close>

text \<open>A text the proxy writes: the configured or the default message, and the detail of the
  decision.\<close>

datatype ad_text = AdText "string option" ad_reason

datatype edge_body =
    UpstreamBody string
  | BlockedApi ad_text string
  | BlockedRelay ad_text
  | BlockedPlain ad_text
  | JsonBody jsval
  | PlainBody string

record edge_response =
  rsp_status :: int
  rsp_headers :: http_headers
  rsp_body :: edge_body

text \<open>\<open>(config?.blocked_message || default).trim()\<close>\<close>

definition blocked_message :: "jsval \<Rightarrow> string option js_result" where
  "blocked_message config =
     (case value_get config ''blocked_message'' of
        JStr s \<Rightarrow> Inr (if s = [] then None else Some (js_trim s))
      | v \<Rightarrow> if truthy v then Inl (JsError ''trim is not a function'') else Inr None)"

definition RELAY_PREFIXES :: "string list" where
  "RELAY_PREFIXES = [''/v1/'', ''/v1beta/'', ''/mj/'', ''/pg/'', ''/suno/'', ''/kling/'', ''/jimeng'']"

definition blocked_headers :: "ad_reason \<Rightarrow> string \<Rightarrow> http_headers" where
  "blocked_headers why ctype =
     foldl (\<lambda>h (k, v). hdr_set k v h) []
       [(''cache-control'', ''no-store''), (''access-control-allow-origin'', ''*''),
        (''access-control-expose-headers'', ''*''), (''x-anti-distribution-layer'', ''web''),
        (''x-anti-distribution-action'', ''block''), (''x-anti-distribution-reason'', reason_text why),
        (''content-type'', ctype)]"

definition buildBlockedResponse ::
  "(string \<Rightarrow> url_parts option) \<Rightarrow> edge_request \<Rightarrow> jsval \<Rightarrow> ad_decision \<Rightarrow> edge_response js_result" where
  "buildBlockedResponse parse_url r config d =
     (case blocked_message config of
        Inl e \<Rightarrow> Inl e
      | Inr m \<Rightarrow>
          (case parse_url (req_url r) of
             None \<Rightarrow> Inl (JsError ''Invalid URL'')
           | Some u \<Rightarrow>
               let msg = AdText m (dec_reason d);
                   json = ''application/json; charset=utf-8''
               in Inr (if starts_with ''/api/'' (url_pathname u) then
                         \<lparr>rsp_status = 403, rsp_headers = blocked_headers (dec_reason d) json,
                          rsp_body = BlockedApi msg (reason_text (dec_reason d))\<rparr>
                       else if list_ex (\<lambda>p. starts_with p (url_pathname u)) RELAY_PREFIXES then
                         \<lparr>rsp_status = 403, rsp_headers = blocked_headers (dec_reason d) json,
                          rsp_body = BlockedRelay msg\<rparr>
                       else
                         \<lparr>rsp_status = 403,
                          rsp_headers = blocked_headers (dec_reason d) ''text/plain; charset=utf-8'',
                          rsp_body = BlockedPlain msg\<rparr>)))"

section \<open>Forwarding\<close>

record upstream_request =
  up_url :: string
  up_method :: string
  up_headers :: http_headers
  up_body :: "string option"

record upstream_response =
  ur_status :: int
  ur_headers :: http_headers
  ur_body :: string
  ur_unreadable :: bool

text \<open>\<open>ur_unreadable\<close>: reading the body as text fails.\<close>

definition ur_ok :: "upstream_response \<Rightarrow> bool" where
  "ur_ok x \<longleftrightarrow> 200 \<le> ur_status x \<and> ur_status x \<le> 299"

definition forward_headers :: "edge_request \<Rightarrow> string \<Rightarrow> string \<Rightarrow> http_headers" where
  "forward_headers r host proto =
     hdr_set ''x-forwarded-proto'' proto
       (hdr_set ''x-forwarded-host'' host (drop_hop_headers HOP_BY_HOP_HEADERS (req_headers r)))"

definition upstream_init :: "edge_request \<Rightarrow> string \<Rightarrow> http_headers \<Rightarrow> upstream_request" where
  "upstream_init r url h =
     \<lparr>up_url = url, up_method = req_method r, up_headers = h,
      up_body = (if bodyless (req_method r) then None else Some (req_body r))\<rparr>"

definition relay_response :: "(int \<Rightarrow> http_headers \<Rightarrow> http_headers) \<Rightarrow> int \<Rightarrow> upstream_response \<Rightarrow> edge_response" where
  "relay_response cache ttl x =
     (let h = drop_hop_headers HOP_BY_HOP_HEADERS (ur_headers x)
      in \<lparr>rsp_status = ur_status x,
          rsp_headers = (if ur_ok x then cache ttl h else h),
          rsp_body = UpstreamBody (ur_body x)\<rparr>)"

text \<open>What a handler does: the response (or the exception) and the request it sent to the
  backend, if it sent one.\<close>

record edge_outcome =
  out_response :: "edge_response js_result"
  out_sent :: "upstream_request option"

definition failed :: "js_error \<Rightarrow> edge_outcome" where
  "failed e = \<lparr>out_response = Inl e, out_sent = None\<rparr>"

definition answered :: "edge_response \<Rightarrow> edge_outcome" where
  "answered r = \<lparr>out_response = Inr r, out_sent = None\<rparr>"

definition send_upstream ::
  "(upstream_request \<Rightarrow> upstream_response js_result) \<Rightarrow> (upstream_response \<Rightarrow> edge_response)
    \<Rightarrow> upstream_request \<Rightarrow> edge_outcome" where
  "send_upstream fetch respond q =
     \<lparr>out_response = map_sum id respond (fetch q), out_sent = Some q\<rparr>"

text \<open>The check in front of both proxies: the response of a blocked request, or \<open>None\<close> to go on.\<close>

definition anti_distribution_gate ::
  "(string \<Rightarrow> url_parts option) \<Rightarrow> edge_request \<Rightarrow> jsval \<Rightarrow> edge_response option js_result" where
  "anti_distribution_gate parse_url r config =
     (if \<not> truthy (value_get config ''enabled'') then Inr None
      else case evaluateAntiDistribution parse_url r config of
        Inl e \<Rightarrow> Inl e
      | Inr d \<Rightarrow>
          if dec_action d = Block then map_sum id Some (buildBlockedResponse parse_url r config d)
          else Inr None)"

datatype path_params = NoParams | PathList "string list" | PathText string | PathOther

definition getTailPath :: "path_params \<Rightarrow> string" where
  "getTailPath p =
     (case p of
        PathList ps \<Rightarrow> join ''/'' (filter_nonempty ps)
      | PathText s \<Rightarrow> s
      | _ \<Rightarrow> [])"

definition missing_origin :: edge_response where
  "missing_origin =
     \<lparr>rsp_status = 500,
      rsp_headers = hdr_set ''cache-control'' ''no-store''
                      (hdr_set ''content-type'' ''application/json; charset=utf-8'' []),
      rsp_body = JsonBody (JObj [(''success'', JBool False),
                                 (''message'', JStr ''Missing backend origin.'')])\<rparr>"

text \<open>\<open>requestUrl.protocol.replace(':', '')\<close> removes the first colon.\<close>

fun drop_colon :: "string \<Rightarrow> string" where
  "drop_colon [] = []"
| "drop_colon (c # cs) = (if c = CHR '':'' then cs else c # drop_colon cs)"

definition proxyRequest ::
  "(string \<Rightarrow> url_parts option) \<Rightarrow> (upstream_request \<Rightarrow> upstream_response js_result)
    \<Rightarrow> int \<Rightarrow> config_reply \<Rightarrow> edge_env \<Rightarrow> edge_request \<Rightarrow> path_params \<Rightarrow> string
    \<Rightarrow> ad_cache \<Rightarrow> edge_outcome \<times> ad_cache" where
  "proxyRequest parse_url fetch now reply env r params basePath c =
     (let origin = getBackendOrigin env
      in if origin = [] then (answered missing_origin, c)
         else
           let (config, c') = getAntiDistributionConfig now reply c
           in case anti_distribution_gate parse_url r config of
                Inl e \<Rightarrow> (failed e, c')
              | Inr (Some blocked) \<Rightarrow> (answered blocked, c')
              | Inr None \<Rightarrow>
                  (case parse_url (req_url r) of
                     None \<Rightarrow> (failed (JsError ''Invalid URL''), c')
                   | Some u \<Rightarrow>
                       (case getCacheTTL parse_url r of
                          Inl e \<Rightarrow> (failed e, c')
                        | Inr ttl \<Rightarrow>
                            let tail = getTailPath params;
                                path = (if tail \<noteq> [] then basePath @ ''/'' @ tail else basePath);
                                h = forward_headers r (url_host u) (drop_colon (url_protocol u))
                            in (send_upstream fetch (relay_response applyCacheHeaders ttl)
                                  (upstream_init r (origin @ path @ url_search u) h), c'))))"

section \<open>Rate limits of the backend\<close>

definition RATE_LIMIT_HOP_HEADERS :: "string list" where
  "RATE_LIMIT_HOP_HEADERS =
     [''connection'', ''content-length'', ''keep-alive'', ''proxy-authenticate'',
      ''proxy-authorization'', ''te'', ''trailer'', ''transfer-encoding'', ''upgrade'']"

record error_payload =
  ep_message :: string
  ep_error :: jsval

definition default_payload :: error_payload where
  "default_payload = \<lparr>ep_message = ''Upstream rate limit exceeded'', ep_error = JObj []\<rparr>"

text \<open>A text value that is not blank, trimmed.\<close>

definition text_value :: "jsval \<Rightarrow> string option" where
  "text_value v = (case v of JStr s \<Rightarrow> if js_trim s = [] then None else Some (js_trim s) | _ \<Rightarrow> None)"

definition readErrorPayload :: "upstream_response \<Rightarrow> error_payload" where
  "readErrorPayload x =
     (let txt = js_trim (ur_body x)
      in if ur_unreadable x \<or> txt = [] then default_payload
         else case json_parse txt of
           Inl _ \<Rightarrow> \<lparr>ep_message = txt, ep_error = JObj []\<rparr>
         | Inr payload \<Rightarrow>
             let err = value_get payload ''error'';
                 upstreamError = (if is_object_value err then err else JObj [])
             in \<lparr>ep_message =
                   (case text_value (value_get payload ''detail'') of
                      Some m \<Rightarrow> m
                    | None \<Rightarrow> (case text_value (value_get err ''message'') of Some m \<Rightarrow> m | None \<Rightarrow> txt)),
                 ep_error = upstreamError\<rparr>)"

text \<open>The own properties that \<open>...v\<close> copies.\<close>

definition value_entries :: "jsval \<Rightarrow> (string \<times> jsval) list" where
  "value_entries v = map (\<lambda>k. (k, value_get v k)) (value_keys v)"

definition rate_limit_error :: "error_payload \<Rightarrow> (string \<times> jsval) list" where
  "rate_limit_error p =
     obj_put ''message'' (JStr (ep_message p))
       (obj_put ''type'' (JStr ''rate_limit_error'') (obj_spread [] (value_entries (ep_error p))))"

definition buildJsonRateLimitResponse :: "upstream_response \<Rightarrow> error_payload \<Rightarrow> edge_response" where
  "buildJsonRateLimitResponse x p =
     \<lparr>rsp_status = 429,
      rsp_headers = hdr_set ''cache-control'' ''no-store''
        (hdr_set ''content-type'' ''application/json; charset=utf-8''
          (drop_hop_headers RATE_LIMIT_HOP_HEADERS (ur_headers x))),
      rsp_body = JsonBody (JObj [(''type'', JStr ''error''), (''error'', JObj (rate_limit_error p))])\<rparr>"

definition rewriteRateLimitResponse :: "upstream_response \<Rightarrow> edge_response option" where
  "rewriteRateLimitResponse x =
     (if ur_status x \<noteq> 429 then None
      else Some (buildJsonRateLimitResponse x (readErrorPayload x)))"

section \<open>The Vercel functions\<close>

definition vercel_relay :: "int \<Rightarrow> upstream_response \<Rightarrow> edge_response" where
  "vercel_relay ttl x =
     (case rewriteRateLimitResponse x of
        Some r \<Rightarrow> r
      | None \<Rightarrow> relay_response vercel_applyCacheHeaders ttl x)"

definition buildProxyHeaders ::
  "(string \<Rightarrow> url_parts option) \<Rightarrow> edge_request \<Rightarrow> http_headers js_result" where
  "buildProxyHeaders parse_url r =
     (case parse_url (req_url r) of
        None \<Rightarrow> Inl (JsError ''Invalid URL'')
      | Some u \<Rightarrow> Inr (forward_headers r (url_host u) ''https''))"

definition proxyToPath ::
  "(string \<Rightarrow> url_parts option) \<Rightarrow> (upstream_request \<Rightarrow> upstream_response js_result)
    \<Rightarrow> int \<Rightarrow> config_reply \<Rightarrow> edge_env \<Rightarrow> edge_request \<Rightarrow> string
    \<Rightarrow> ad_cache \<Rightarrow> edge_outcome \<times> ad_cache" where
  "proxyToPath parse_url fetch now reply env r upstreamPath c =
     (let origin = getBackendOrigin env
      in if origin = [] then (failed (JsError ''Missing backend origin.''), c)
         else
           let (config, c') = getAntiDistributionConfig now reply c
           in case anti_distribution_gate parse_url r config of
                Inl e \<Rightarrow> (failed e, c')
              | Inr (Some blocked) \<Rightarrow> (answered blocked, c')
              | Inr None \<Rightarrow>
                  (case parse_url (req_url r) of
                     None \<Rightarrow> (failed (JsError ''Invalid URL''), c')
                   | Some u \<Rightarrow>
                       (case (vercel_getCacheTTL parse_url r, buildProxyHeaders parse_url r) of
                          (Inr ttl, Inr h) \<Rightarrow>
                            (send_upstream fetch (vercel_relay ttl)
                              (upstream_init r (origin @ upstreamPath @ url_search u) h), c')
                        | (Inl e, _) \<Rightarrow> (failed e, c')
                        | (_, Inl e) \<Rightarrow> (failed e, c'))))"

text \<open>The handlers turn an exception into a response; \<open>message_of\<close> is \<open>error.message\<close>.\<close>

definition proxy_error :: "(js_error \<Rightarrow> string) \<Rightarrow> js_error \<Rightarrow> edge_response" where
  "proxy_error message_of e =
     \<lparr>rsp_status = 500,
      rsp_headers = hdr_set ''cache-control'' ''no-store''
                      (hdr_set ''content-type'' ''application/json; charset=utf-8'' []),
      rsp_body = JsonBody (JObj [(''success'', JBool False), (''message'', JStr (message_of e))])\<rparr>"

definition caught :: "(js_error \<Rightarrow> string) \<Rightarrow> edge_outcome \<Rightarrow> edge_outcome" where
  "caught message_of o1 =
     (case out_response o1 of
        Inr _ \<Rightarrow> o1
      | Inl e \<Rightarrow> o1\<lparr>out_response := Inr (proxy_error message_of e)\<rparr>)"

definition strip_api :: "string \<Rightarrow> string" where
  "strip_api path =
     (case strip_prefix ''/api'' path of
        None \<Rightarrow> path
      | Some r \<Rightarrow> (case strip_prefix ''/'' r of Some q \<Rightarrow> q | None \<Rightarrow> r))"

definition buildUpstreamPath :: "url_parts \<Rightarrow> string" where
  "buildUpstreamPath u =
     (let tail = strip_api (url_pathname u)
      in if tail = [] then ''/api''
         else ''/api/'' @ tail
              @ (if ends_with ''/'' (url_pathname u) \<and> \<not> ends_with ''/'' tail then ''/'' else []))"

definition path_handler where
  "path_handler parse_url fetch message_of now reply env r c =
     (case parse_url (req_url r) of
        None \<Rightarrow> (caught message_of (failed (JsError ''Invalid URL'')), c)
      | Some u \<Rightarrow>
          (let (o1, c') = proxyToPath parse_url fetch now reply env r (buildUpstreamPath u) c
           in (caught message_of o1, c')))"

definition index_handler where
  "index_handler parse_url fetch message_of now reply env r c =
     (let (o1, c') = proxyToPath parse_url fetch now reply env r ''/api'' c
      in (caught message_of o1, c'))"

text \<open>
  \<open>web/api/proxy.js\<close>: the target comes from two query parameters.  \<open>parse_query\<close> and
  \<open>print_query\<close> stand for \<open>URLSearchParams\<close>.
\<close>

definition ALLOWED_BASES :: "string list" where
  "ALLOWED_BASES = [''api'', ''v1'', ''v1beta'', ''mj'', ''pg'']"

definition query_get :: "(string \<times> string) list \<Rightarrow> string \<Rightarrow> string" where
  "query_get q k = (case map_of q k of Some v \<Rightarrow> v | None \<Rightarrow> [])"

definition query_without :: "(string \<times> string) list \<Rightarrow> (string \<times> string) list" where
  "query_without q = filter (\<lambda>(k, _). k \<noteq> ''__proxy_base'' \<and> k \<noteq> ''__proxy_path'') q"

definition proxy_pathname :: "string \<Rightarrow> string \<Rightarrow> string" where
  "proxy_pathname base p =
     (let norm = join ''/'' (filter_nonempty (split_on (\<lambda>c. c = CHR ''/'') p))
      in if norm \<noteq> [] then ''/'' @ base @ ''/'' @ norm @ (if ends_with ''/'' p then ''/'' else [])
         else ''/'' @ base)"

definition buildUpstreamUrl ::
  "((string \<times> string) list \<Rightarrow> string) \<Rightarrow> edge_env \<Rightarrow> (string \<times> string) list \<Rightarrow> string option js_result" where
  "buildUpstreamUrl print_query env q =
     (if query_get q ''__proxy_base'' \<notin> set ALLOWED_BASES then Inr None
      else if getBackendOrigin env = [] then Inl (JsError ''Missing backend origin.'')
      else Inr (Some (getBackendOrigin env
             @ proxy_pathname (query_get q ''__proxy_base'') (query_get q ''__proxy_path'')
             @ print_query (query_without q))))"

definition unsupported_base :: edge_response where
  "unsupported_base = \<lparr>rsp_status = 400, rsp_headers = [], rsp_body = PlainBody ''Unsupported proxy base''\<rparr>"

definition proxy_handler ::
  "(string \<Rightarrow> url_parts option) \<Rightarrow> (string \<Rightarrow> (string \<times> string) list)
    \<Rightarrow> ((string \<times> string) list \<Rightarrow> string) \<Rightarrow> (upstream_request \<Rightarrow> upstream_response js_result)
    \<Rightarrow> (js_error \<Rightarrow> string) \<Rightarrow> edge_env \<Rightarrow> edge_request \<Rightarrow> edge_outcome" where
  "proxy_handler parse_url parse_query print_query fetch message_of env r =
     caught message_of
       (case vercel_getCacheTTL parse_url r of
          Inl e \<Rightarrow> failed e
        | Inr ttl \<Rightarrow>
            (case parse_url (req_url r) of
               None \<Rightarrow> failed (JsError ''Invalid URL'')
             | Some u \<Rightarrow>
                 (case buildUpstreamUrl print_query env (parse_query (req_url r)) of
                    Inl e \<Rightarrow> failed e
                  | Inr None \<Rightarrow> answered unsupported_base
                  | Inr (Some url) \<Rightarrow>
                      (case buildProxyHeaders parse_url r of
                         Inl e \<Rightarrow> failed e
                       | Inr h \<Rightarrow> send_upstream fetch (vercel_relay ttl) (upstream_init r url h)))))"

end
