(* ===== verification/EdgeProps.thy ===== *)
theory EdgeProps
  imports EdgeProxy
begin

text \<open>
  Correctness of the edge proxies: what is forwarded and what is not, which responses may
  be cached, which requests are refused, how long a configuration is used, and that the
  handlers always answer.
\<close>

section \<open>Headers\<close>

lemma hdr_get_set: "hdr_get (hdr_set k v h) j = (if js_lower j = js_lower k then Some v else hdr_get h j)"
  by (simp add: hdr_get_def hdr_set_def)

lemma hdr_get_delete: "hdr_get (hdr_delete k h) j = (if js_lower j = js_lower k then None else hdr_get h j)"
  by (simp add: hdr_get_def hdr_delete_def)

lemma hdr_get_drop:
  "hdr_get (drop_hop_headers names h) j = (if js_lower j \<in> set (map js_lower names) then None else hdr_get h j)"
  by (induction names arbitrary: h) (auto simp: drop_hop_headers_def hdr_get_delete)

text \<open>The names the proxies set themselves are no hop-by-hop names.\<close>

definition own_names :: "string list" where
  "own_names =
     [''x-forwarded-proto'', ''x-forwarded-host'', ''Cache-Control'', ''CDN-Cache-Control'',
      ''Vercel-CDN-Cache-Control'', ''content-type'', ''cache-control'']"

lemma own_names_not_hop:
  "\<forall>n \<in> set own_names. \<forall>h \<in> set HOP_BY_HOP_HEADERS. js_lower h \<noteq> js_lower n"
  by code_simp

lemma hop_own: "h \<in> set HOP_BY_HOP_HEADERS \<Longrightarrow> n \<in> set own_names \<Longrightarrow> js_lower h \<noteq> js_lower n"
  using own_names_not_hop by blast

lemma hop_set: "h \<in> set HOP_BY_HOP_HEADERS \<Longrightarrow> n \<in> set own_names \<Longrightarrow> hdr_get (hdr_set n v hs) h = hdr_get hs h"
  using hop_own by (simp add: hdr_get_set)

lemma hop_drop: "h \<in> set HOP_BY_HOP_HEADERS \<Longrightarrow> hdr_get (drop_hop_headers HOP_BY_HOP_HEADERS hs) h = None"
  by (simp add: hdr_get_drop)

lemma hop_forward: "h \<in> set HOP_BY_HOP_HEADERS \<Longrightarrow> hdr_get (forward_headers r host proto) h = None"
proof -
  assume h: "h \<in> set HOP_BY_HOP_HEADERS"
  have n: "''x-forwarded-proto'' \<in> set own_names" "''x-forwarded-host'' \<in> set own_names"
    by (simp_all add: own_names_def)
  show ?thesis by (simp only: forward_headers_def hop_set [OF h n(1)] hop_set [OF h n(2)] hop_drop [OF h])
qed

lemma hop_cache:
  assumes "h \<in> set HOP_BY_HOP_HEADERS"
  shows "hdr_get (applyCacheHeaders ttl hs) h = hdr_get hs h"
    "hdr_get (vercel_applyCacheHeaders ttl hs) h = hdr_get hs h"
proof -
  have n: "''Cache-Control'' \<in> set own_names" "''CDN-Cache-Control'' \<in> set own_names"
    "''Vercel-CDN-Cache-Control'' \<in> set own_names"
    by (simp_all add: own_names_def)
  show a: "hdr_get (applyCacheHeaders ttl hs) h = hdr_get hs h" for hs
    by (simp add: applyCacheHeaders_def hop_set [OF assms n(1)] hop_set [OF assms n(2)])
  show "hdr_get (vercel_applyCacheHeaders ttl hs) h = hdr_get hs h"
    by (simp add: vercel_applyCacheHeaders_def hop_set [OF assms n(3)] a)
qed

section \<open>What a handler sends\<close>

lemma sent_simps [simp]:
  "out_sent (failed e) = None" "out_sent (answered r) = None"
  "out_sent (send_upstream f g q) = Some q" "out_sent (caught mo x) = out_sent x"
  "out_response (failed e) = Inl e" "out_response (answered r) = Inr r"
  by (simp_all add: failed_def answered_def send_upstream_def caught_def split: sum.splits)

lemma proxyRequest_sent:
  assumes "out_sent (fst (proxyRequest parse_url fetch now reply env r params base c)) = Some q"
  obtains u ttl where "parse_url (req_url r) = Some u" "getCacheTTL parse_url r = Inr ttl"
    "up_headers q = forward_headers r (url_host u) (drop_colon (url_protocol u))"
    "anti_distribution_gate parse_url r (fst (getAntiDistributionConfig now reply c)) = Inr None"
    "fst (proxyRequest parse_url fetch now reply env r params base c)
       = send_upstream fetch (relay_response applyCacheHeaders ttl) q"
  using assms
  by (auto simp: proxyRequest_def Let_def upstream_init_def
      split: if_splits prod.splits sum.splits option.splits)

lemma proxyToPath_sent:
  assumes "out_sent (fst (proxyToPath parse_url fetch now reply env r path c)) = Some q"
  obtains u ttl where "parse_url (req_url r) = Some u" "vercel_getCacheTTL parse_url r = Inr ttl"
    "up_headers q = forward_headers r (url_host u) ''https''"
    "anti_distribution_gate parse_url r (fst (getAntiDistributionConfig now reply c)) = Inr None"
    "fst (proxyToPath parse_url fetch now reply env r path c) = send_upstream fetch (vercel_relay ttl) q"
  using assms
  by (auto simp: proxyToPath_def Let_def upstream_init_def buildProxyHeaders_def
      split: if_splits prod.splits sum.splits option.splits)

lemma proxy_handler_sent:
  assumes "out_sent (proxy_handler parse_url pq prq fetch mo env r) = Some q"
  obtains u ttl url where "parse_url (req_url r) = Some u" "vercel_getCacheTTL parse_url r = Inr ttl"
    "up_headers q = forward_headers r (url_host u) ''https''"
    "buildUpstreamUrl prq env (pq (req_url r)) = Inr (Some url)" "up_url q = url"
    "proxy_handler parse_url pq prq fetch mo env r = caught mo (send_upstream fetch (vercel_relay ttl) q)"
  using assms
  by (auto simp: proxy_handler_def upstream_init_def buildProxyHeaders_def split: sum.splits option.splits)

section \<open>Caching and credentials\<close>

lemma ttl_private:
  assumes "cache_ttl parse_url rules r = Inr ttl" "has_credentials (req_headers r) \<or> \<not> bodyless (req_method r)"
  shows "ttl = 0"
  using assms by (auto simp: cache_ttl_def split: if_splits option.splits)

lemma relay_private:
  "relay_response applyCacheHeaders 0 x =
     \<lparr>rsp_status = ur_status x, rsp_headers = drop_hop_headers HOP_BY_HOP_HEADERS (ur_headers x),
      rsp_body = UpstreamBody (ur_body x)\<rparr>"
  "relay_response vercel_applyCacheHeaders 0 x =
     \<lparr>rsp_status = ur_status x, rsp_headers = drop_hop_headers HOP_BY_HOP_HEADERS (ur_headers x),
      rsp_body = UpstreamBody (ur_body x)\<rparr>"
  by (simp_all add: relay_response_def applyCacheHeaders_def vercel_applyCacheHeaders_def Let_def)

section \<open>The check\<close>

text \<open>The configuration the server sends (\<open>GetAntiDistributionPublicConfig\<close> of
  \<open>controller/anti_distribution.go\<close>) while the restriction is on, and what the check reads of a
  configuration: any other properties are allowed, an empty list may be \<open>null\<close>.\<close>

definition server_config :: "bool \<Rightarrow> jsval \<Rightarrow> jsval \<Rightarrow> jsval \<Rightarrow> string \<Rightarrow> jsval" where
  "server_config log_only hosts sources direct message =
     JObj [(''enabled'', JBool True), (''log_only'', JBool log_only), (''allowed_hosts'', hosts),
           (''allowed_sources'', sources), (''direct_web_access_blocked_hosts'', direct),
           (''blocked_message'', JStr message)]"

definition texts :: "string list \<Rightarrow> jsval \<Rightarrow> bool" where
  "texts xs v \<longleftrightarrow> v = JArr (map JStr xs) \<or> xs = [] \<and> v = JNull"

definition enforces :: "jsval \<Rightarrow> bool \<Rightarrow> string list \<Rightarrow> string list \<Rightarrow> bool" where
  "enforces config log_only hosts sources \<longleftrightarrow>
     value_get config ''enabled'' = JBool True \<and> value_get config ''log_only'' = JBool log_only
     \<and> texts hosts (value_get config ''allowed_hosts'') \<and> texts sources (value_get config ''allowed_sources'')
     \<and> (case value_get config ''blocked_message'' of JStr _ \<Rightarrow> True | JUndef \<Rightarrow> True | _ \<Rightarrow> False)"

lemma server_config_enforces:
  "texts hs hosts \<Longrightarrow> texts ss sources \<Longrightarrow> enforces (server_config l hosts sources direct m) l hs ss"
  by (simp add: enforces_def server_config_def value_get_def obj_get_def)

definition norm_host :: "(string \<Rightarrow> url_parts option) \<Rightarrow> string \<Rightarrow> string" where
  "norm_host parse_url s =
     (if s = [] then [] else if js_includes ''://'' s then url_host_or_empty parse_url s else plain_host s)"

lemma normalize_text: "normalizeHost parse_url (JStr s) = Inr (norm_host parse_url s)"
  by (simp add: normalizeHost_def norm_host_def)

definition listed :: "(string \<Rightarrow> url_parts option) \<Rightarrow> string \<Rightarrow> string list \<Rightarrow> bool" where
  "listed parse_url h ps \<longleftrightarrow> (\<exists>p \<in> set ps. pattern_matches (norm_host parse_url h) (norm_host parse_url p))"

lemma matches_texts: "host_matches_some parse_url h (map JStr ps) = Inr (listed parse_url h ps)"
  by (induction ps) (simp_all add: hostMatchesPattern_def normalize_text listed_def)

lemma matches_any_texts: "texts ps v \<Longrightarrow> hostMatchesAny parse_url h v = Inr (listed parse_url h ps)"
  using matches_texts [of parse_url h ps] matches_texts [of parse_url h "[]"]
  by (auto simp: texts_def hostMatchesAny_def js_or_def)

text \<open>A header that names a host which is not listed as a source.\<close>

definition foreign_source :: "(string \<Rightarrow> url_parts option) \<Rightarrow> edge_request \<Rightarrow> string list \<Rightarrow> string \<Rightarrow> bool" where
  "foreign_source parse_url r ss name \<longleftrightarrow>
     (let h = extractHeaderHost parse_url (hdr_get (req_headers r) name)
      in h \<noteq> [] \<and> \<not> listed parse_url h ss)"

lemma evaluate_config:
  assumes "parse_url (req_url r) = Some u" "enforces config l hs ss"
  shows "evaluateAntiDistribution parse_url r config =
    Inr (if \<not> listed parse_url (norm_host parse_url (url_hostname u)) hs then refusal config Host_not_allowed
         else if foreign_source parse_url r ss ''origin'' then refusal config Origin_not_allowed
         else if foreign_source parse_url r ss ''referer'' then refusal config Referer_not_allowed
         else \<lparr>dec_action = Allow, dec_reason = No_reason\<rparr>)"
proof -
  have "texts hs (value_get config ''allowed_hosts'')" "texts ss (value_get config ''allowed_sources'')"
    using assms(2) by (simp_all add: enforces_def)
  note lists = this [THEN matches_any_texts]
  show ?thesis
    using assms(1)
    by (auto simp: evaluateAntiDistribution_def normalize_text lists foreign_source_def Let_def split: bool.splits)
qed

definition admitted :: "(string \<Rightarrow> url_parts option) \<Rightarrow> edge_request \<Rightarrow> url_parts \<Rightarrow> string list \<Rightarrow> string list \<Rightarrow> bool" where
  "admitted parse_url r u hs ss \<longleftrightarrow>
     listed parse_url (norm_host parse_url (url_hostname u)) hs
     \<and> \<not> foreign_source parse_url r ss ''origin'' \<and> \<not> foreign_source parse_url r ss ''referer''"

lemma gate_config:
  assumes "parse_url (req_url r) = Some u" "enforces config l hs ss"
  shows "case anti_distribution_gate parse_url r config of
           Inl _ \<Rightarrow> False
         | Inr None \<Rightarrow> l \<or> admitted parse_url r u hs ss
         | Inr (Some rsp) \<Rightarrow> \<not> l \<and> \<not> admitted parse_url r u hs ss \<and> rsp_status rsp = 403"
proof -
  have on: "value_get config ''enabled'' = JBool True" "value_get config ''log_only'' = JBool l"
    using assms(2) by (simp_all add: enforces_def)
  obtain m where m: "blocked_message config = Inr m"
    using assms(2) by (auto simp: enforces_def blocked_message_def split: jsval.splits)
  show ?thesis
    unfolding anti_distribution_gate_def evaluate_config [of parse_url, OF assms]
    by (auto simp: admitted_def refusal_def buildBlockedResponse_def m on assms(1) Let_def)
qed

section \<open>The cache as a machine\<close>

text \<open>Requests come at later and later times, each with the answer the endpoint would give.\<close>

definition cache_step :: "nat \<times> config_reply \<Rightarrow> int \<times> ad_cache \<Rightarrow> (int \<times> ad_cache) option" where
  "cache_step ev st =
     (case (ev, st) of ((dt, reply), (now, c)) \<Rightarrow>
        let t = now + int dt in Some (t, snd (getAntiDistributionConfig t reply c)))"

definition cache_bounded :: "int \<times> ad_cache \<Rightarrow> bool" where
  "cache_bounded st \<longleftrightarrow> cache_expiresAt (snd st) \<le> fst st + ANTI_DISTRIBUTION_CACHE_TTL"

interpretation ad_cache: invariant_system cache_step "\<lambda>st. snd st = initial_cache \<and> 0 \<le> fst st" cache_bounded
proof unfold_locales
  show "snd s = initial_cache \<and> 0 \<le> fst s \<Longrightarrow> cache_bounded s" for s
    by (simp add: cache_bounded_def initial_cache_def ANTI_DISTRIBUTION_CACHE_TTL_def)
  show "cache_bounded s \<Longrightarrow> cache_step e s = Some s' \<Longrightarrow> cache_bounded s'" for s e s'
    by (cases s; cases e)
       (auto simp: cache_step_def cache_bounded_def getAntiDistributionConfig_def Let_def split: config_reply.splits)
qed

section \<open>Properties\<close>

text \<open>
  No hop-by-hop header of a client (connection, host, transfer-encoding, proxy
  credentials, \<dots>) is ever forwarded to the backend, by any of the three proxies.
\<close>

theorem hop_headers_not_forwarded:
  assumes "out_sent (fst (proxyRequest parse_url fetch now reply env r params base c)) = Some q
      \<or> out_sent (fst (proxyToPath parse_url fetch now reply env r path c)) = Some q
      \<or> out_sent (proxy_handler parse_url pq prq fetch mo env r) = Some q"
    and "h \<in> set HOP_BY_HOP_HEADERS"
  shows "hdr_get (up_headers q) h = None"
  using assms(1)
proof (elim disjE)
  assume "out_sent (fst (proxyRequest parse_url fetch now reply env r params base c)) = Some q"
  then show ?thesis by (rule proxyRequest_sent) (simp add: hop_forward [OF assms(2)])
next
  assume "out_sent (fst (proxyToPath parse_url fetch now reply env r path c)) = Some q"
  then show ?thesis by (rule proxyToPath_sent) (simp add: hop_forward [OF assms(2)])
next
  assume "out_sent (proxy_handler parse_url pq prq fetch mo env r) = Some q"
  then show ?thesis by (rule proxy_handler_sent) (simp add: hop_forward [OF assms(2)])
qed

text \<open>A platform for the examples: every text is a URL of one host.\<close>

definition demo_url :: "string \<Rightarrow> url_parts option" where
  "demo_url s =
     Some \<lparr>url_protocol = ''https:'', url_host = ''a.example.com'', url_hostname = ''a.example.com'',
           url_pathname = ''/api/status'', url_search = []\<rparr>"

definition demo_fetch :: "upstream_request \<Rightarrow> upstream_response js_result" where
  "demo_fetch q = Inr \<lparr>ur_status = 200, ur_headers = [(''x'', ''y'')], ur_body = ''ok'', ur_unreadable = False\<rparr>"

definition demo_env :: edge_env where
  "demo_env = \<lparr>env_BACKEND_ORIGIN = ''https://b/'', env_REACT_BACKEND_ORIGIN = [], env_REACT_SERVER_URL = []\<rparr>"

definition demo_request :: edge_request where
  "demo_request =
     \<lparr>req_method = ''GET'', req_url = ''u'', req_headers = [(''host'', ''h''), (''cookie'', ''c'')], req_body = []\<rparr>"

definition demo_sent :: upstream_request where
  "demo_sent =
     \<lparr>up_url = ''https://b/api'', up_method = ''GET'',
      up_headers = [(''cookie'', ''c''), (''x-forwarded-host'', ''a.example.com''),
                    (''x-forwarded-proto'', ''https'')],
      up_body = None\<rparr>"

lemma demo_runs:
  "out_sent (fst (proxyRequest demo_url demo_fetch 0 NotOk demo_env demo_request NoParams ''/api'' initial_cache))
     = Some demo_sent"
  by code_simp

lemma hop_headers_not_forwarded_witness: "hdr_get (up_headers demo_sent) ''host'' = None"
  using hop_headers_not_forwarded [OF disjI1 [OF demo_runs], of "''host''"]
  by (simp add: HOP_BY_HOP_HEADERS_def)

text \<open>
  C23: A response to a request with credentials (authorization, cookie or API key), or to a
  request that is neither GET nor HEAD, is never made publicly cacheable: its headers are
  the backend's own, less the hop-by-hop ones.
\<close>

theorem private_responses_not_cached:
  assumes "has_credentials (req_headers r) \<or> \<not> bodyless (req_method r)"
    and "out_sent (fst (proxyRequest parse_url fetch now reply env r params base c)) = Some q"
    and "fetch q = Inr x"
  shows "out_response (fst (proxyRequest parse_url fetch now reply env r params base c))
    = Inr \<lparr>rsp_status = ur_status x, rsp_headers = drop_hop_headers HOP_BY_HOP_HEADERS (ur_headers x),
           rsp_body = UpstreamBody (ur_body x)\<rparr>"
  using assms(2)
proof (rule proxyRequest_sent)
  fix u ttl
  assume "getCacheTTL parse_url r = Inr ttl"
    and e: "fst (proxyRequest parse_url fetch now reply env r params base c)
       = send_upstream fetch (relay_response applyCacheHeaders ttl) q"
  then have "ttl = 0" using ttl_private assms(1) unfolding getCacheTTL_def by blast
  with e assms(3) show ?thesis by (simp add: send_upstream_def relay_private)
qed

lemma private_responses_not_cached_witness:
  "out_response (fst (proxyRequest demo_url demo_fetch 0 NotOk demo_env demo_request NoParams ''/api'' initial_cache))
    = Inr \<lparr>rsp_status = 200, rsp_headers = drop_hop_headers HOP_BY_HOP_HEADERS [(''x'', ''y'')],
           rsp_body = UpstreamBody ''ok''\<rparr>"
proof -
  have "has_credentials (req_headers demo_request) \<or> \<not> bodyless (req_method demo_request)" by code_simp
  from private_responses_not_cached [OF this demo_runs]
  show ?thesis by (simp add: demo_fetch_def)
qed

lemma ttl_known: "parse_url (req_url r) = Some u \<Longrightarrow> \<exists>ttl. cache_ttl parse_url rules r = Inr ttl"
  by (simp add: cache_ttl_def)

text \<open>
  C26: While the proxies of both platforms have an enabled configuration of allowed hosts and
  sources, whatever else it contains, a request to a deployment with a backend reaches the
  backend exactly if it is admitted - its host matches an allowed pattern, and neither its
  origin nor its referer names a host outside the allowed sources - or if the configuration
  only logs.  Otherwise it is answered with status 403 and nothing is sent.  (A disabled or
  unreachable configuration lets every request pass, and the query proxy of Vercel has no check.)
\<close>

theorem only_admitted_requests_forwarded:
  assumes "parse_url (req_url r) = Some u" "enforces (fst (getAntiDistributionConfig now reply c)) l hs ss"
    and "getBackendOrigin env \<noteq> []"
    and "out \<in> {fst (proxyRequest parse_url fetch now reply env r params base c),
                fst (proxyToPath parse_url fetch now reply env r path c)}"
  shows "(out_sent out \<noteq> None \<longleftrightarrow> l \<or> admitted parse_url r u hs ss)
    \<and> (\<not> l \<and> \<not> admitted parse_url r u hs ss \<longrightarrow>
         out_sent out = None \<and> (\<exists>rsp. out_response out = Inr rsp \<and> rsp_status rsp = 403))"
proof -
  obtain config c' where c: "getAntiDistributionConfig now reply c = (config, c')" by fastforce
  with assms(2) have "enforces config l hs ss" by simp
  note g = gate_config [of parse_url r u, OF assms(1) this]
  obtain t1 t2 where ttl: "getCacheTTL parse_url r = Inr t1" "vercel_getCacheTTL parse_url r = Inr t2"
    using ttl_known [of parse_url r u, OF assms(1)] unfolding getCacheTTL_def vercel_getCacheTTL_def by metis
  show ?thesis
  proof (cases "anti_distribution_gate parse_url r config")
    case (Inl e)
    with g show ?thesis by simp
  next
    case (Inr b)
    show ?thesis
    proof (cases b)
      case None
      with Inr g have "l \<or> admitted parse_url r u hs ss" by simp
      moreover have "out_sent out \<noteq> None"
        using assms(1,3,4) None Inr c ttl
        by (auto simp: proxyRequest_def proxyToPath_def buildProxyHeaders_def Let_def send_upstream_def
            split: sum.splits)
      ultimately show ?thesis by blast
    next
      case (Some rsp)
      with Inr g have "\<not> l" "\<not> admitted parse_url r u hs ss" "rsp_status rsp = 403" by simp_all
      with Some Inr c assms(3,4) show ?thesis
        by (auto simp: proxyRequest_def proxyToPath_def Let_def answered_def)
    qed
  qed
qed

definition demo_config :: jsval where
  "demo_config = server_config False (JArr [JStr ''*.other.org'']) JNull JNull ''no''"

lemma only_admitted_requests_forwarded_witness:
  "let c = \<lparr>cache_expiresAt = 10, cache_data = demo_config\<rparr>
   in \<exists>rsp. out_response (fst (proxyRequest demo_url demo_fetch 0 NotOk demo_env demo_request NoParams ''/api'' c)) = Inr rsp
        \<and> rsp_status rsp = 403"
proof -
  let ?c = "\<lparr>cache_expiresAt = 10, cache_data = demo_config\<rparr>"
  obtain u where u: "demo_url (req_url demo_request) = Some u" by (simp add: demo_url_def)
  have "enforces demo_config False [''*.other.org''] []"
    unfolding demo_config_def by (rule server_config_enforces) (simp_all add: texts_def)
  moreover have "fst (getAntiDistributionConfig 0 NotOk ?c) = demo_config"
    by (simp add: getAntiDistributionConfig_def cache_fresh_def demo_config_def server_config_def)
  ultimately have c: "enforces (fst (getAntiDistributionConfig 0 NotOk ?c)) False [''*.other.org''] []" by simp
  have e: "getBackendOrigin demo_env \<noteq> []" by code_simp
  have "\<not> (case demo_url (req_url demo_request) of Some v \<Rightarrow> admitted demo_url demo_request v [''*.other.org''] [] | None \<Rightarrow> True)"
    by code_simp
  with u have "\<not> admitted demo_url demo_request u [''*.other.org''] []" by simp
  with only_admitted_requests_forwarded [of demo_url, OF u c e insertI1] show ?thesis unfolding Let_def by blast
qed

text \<open>
  The configuration is fetched anew at most 30 seconds after the last successful fetch:
  at every point of every sequence of requests the cached copy expires within the time to
  live, and while it is fresh no answer of the endpoint is looked at.
\<close>

theorem config_cache_bounded:
  assumes "run_events cache_step es (t0, initial_cache) = Some (now, c)" "0 \<le> t0"
  shows "cache_expiresAt c \<le> now + ANTI_DISTRIBUTION_CACHE_TTL
    \<and> (cache_fresh t c \<longrightarrow> getAntiDistributionConfig t reply c = (cache_data c, c))
    \<and> (now + ANTI_DISTRIBUTION_CACHE_TTL \<le> t \<longrightarrow> \<not> cache_fresh t c)"
proof -
  have "cache_bounded (now, c)"
    by (rule ad_cache.inv_from_init [OF _ assms(1)]) (use assms(2) in simp)
  then show ?thesis by (auto simp: cache_bounded_def getAntiDistributionConfig_def cache_fresh_def)
qed

lemma config_cache_bounded_witness:
  "\<exists>now c. run_events cache_step [(5, Payload (JObj [(''data'', server_config True JNull JNull JNull [])])), (7, NotOk)] (0, initial_cache)
       = Some (now, c) \<and> cache_expiresAt c \<le> now + ANTI_DISTRIBUTION_CACHE_TTL"
proof -
  obtain now c where r: "run_events cache_step
      [(5, Payload (JObj [(''data'', server_config True JNull JNull JNull [])])), (7, NotOk)] (0, initial_cache) = Some (now, c)"
    by (simp add: cache_step_def Let_def)
  from config_cache_bounded [OF r] r show ?thesis by auto
qed

text \<open>
  The Vercel handlers always answer: whatever the URL, the environment, the
  configuration or the backend do, an exception becomes a response of status 500.
\<close>

theorem handlers_always_answer:
  "(\<exists>rsp. out_response (fst (path_handler parse_url fetch mo now reply env r c)) = Inr rsp)
   \<and> (\<exists>rsp. out_response (fst (index_handler parse_url fetch mo now reply env r c)) = Inr rsp)
   \<and> (\<exists>rsp. out_response (proxy_handler parse_url pq prq fetch mo env r) = Inr rsp)"
proof -
  have c: "\<exists>rsp. out_response (caught mo x) = Inr rsp" for x
    by (simp add: caught_def split: sum.splits)
  show ?thesis
    using c by (auto simp: path_handler_def index_handler_def proxy_handler_def Let_def
        split: option.splits prod.splits)
qed

text \<open>
  A rate limit of the backend is always answered as a JSON error of status 429 whose
  type is \<open>rate_limit_error\<close> and whose message is not blank, whatever the backend's error
  object contains; every other status is left alone.
\<close>

theorem rate_limit_rewritten:
  "(ur_status x \<noteq> 429 \<longrightarrow> rewriteRateLimitResponse x = None)
   \<and> (ur_status x = 429 \<longrightarrow>
        (\<exists>rsp err. rewriteRateLimitResponse x = Some rsp \<and> rsp_status rsp = 429
           \<and> rsp_body rsp = JsonBody (JObj [(''type'', JStr ''error''), (''error'', JObj err)])
           \<and> obj_get err ''type'' = Some (JStr ''rate_limit_error'')
           \<and> (\<exists>m. obj_get err ''message'' = Some (JStr m) \<and> js_trim m \<noteq> [])
           \<and> hdr_get (rsp_headers rsp) ''cache-control'' = Some ''no-store''))"
proof -
  have tv: "text_value v = Some m \<Longrightarrow> js_trim m \<noteq> []" for v m
    by (cases v) (auto simp: text_value_def split: if_splits)
  have d: "js_trim (ep_message default_payload) \<noteq> []" by code_simp
  have ne: "js_trim (ep_message (readErrorPayload x)) \<noteq> []"
  proof (cases "ur_unreadable x \<or> js_trim (ur_body x) = []")
    case True
    then show ?thesis using d by (simp add: readErrorPayload_def Let_def)
  next
    case False
    then show ?thesis
    proof (cases "json_parse (js_trim (ur_body x))")
      case (Inr payload)
      with False tv show ?thesis
        by (cases "text_value (value_get payload ''detail'')";
            cases "text_value (value_get (value_get payload ''error'') ''message'')")
           (simp_all add: readErrorPayload_def Let_def)
    qed (simp add: readErrorPayload_def Let_def)
  qed
  have "hdr_get (rsp_headers (buildJsonRateLimitResponse x p)) ''cache-control'' = Some ''no-store''" for p
    by (simp add: buildJsonRateLimitResponse_def hdr_get_set)
  moreover have "obj_get (rate_limit_error p) ''type'' = Some (JStr ''rate_limit_error'')"
    "obj_get (rate_limit_error p) ''message'' = Some (JStr (ep_message p))" for p
    by (simp_all add: rate_limit_error_def)
  ultimately show ?thesis
    using ne by (auto simp: rewriteRateLimitResponse_def buildJsonRateLimitResponse_def)
qed

lemma rate_limit_rewritten_witness:
  "let x = \<lparr>ur_status = 429, ur_headers = [], ur_body = ''slow down'', ur_unreadable = False\<rparr>
   in \<exists>rsp. rewriteRateLimitResponse x = Some rsp \<and> rsp_status rsp = 429"
  using rate_limit_rewritten [of "\<lparr>ur_status = 429, ur_headers = [], ur_body = ''slow down'', ur_unreadable = False\<rparr>"]
  unfolding Let_def by auto

section \<open>Where the query proxy differs\<close>

text \<open>The path parameter of \<open>api/proxy.js\<close> keeps dot segments, so a request for an allowed base
  names a path outside it once the platform resolves the segments.\<close>

lemma dot_segments_kept:
  "buildUpstreamUrl (\<lambda>q. []) demo_env [(''__proxy_base'', ''api''), (''__proxy_path'', ''../internal'')]
     = Inr (Some ''https://b/api/../internal'')"
  by code_simp

end
