(* ===== verification/Desktop.thy ===== *)
theory Desktop
  imports Machines
begin

text \<open>
  \<open>electron/main.js\<close>: the desktop application.  It starts the server process, waits for it,
  then shows a tray icon and a window; it keeps the server's error log, explains a crash,
  hides the window instead of closing it, and stops the server before it exits.  The
  callbacks of the file are the events of a machine.  Dialog texts, log files and console
  output are not modelled; an explained error is a constructor.
\<close>

section \<open>Explaining an error log\<close>

datatype known_error =
    PortInUse | DatabaseLocked | PermissionDenied | NetworkFailed | ConfigInvalid | OutOfMemory | FileMissing

definition analyzeError :: "string list \<Rightarrow> known_error option" where
  "analyzeError errorLogs =
     (let allLogs = join [CHR 0x0A] errorLogs;
          has = (\<lambda>t. js_includes t allLogs)
      in if has ''failed to start HTTP server'' \<or> has ''bind: address already in use''
            \<or> has ''listen tcp'' \<and> has ''bind: address already in use''
         then Some PortInUse
         else if has ''database is locked'' \<or> has ''unable to open database'' then Some DatabaseLocked
         else if has ''permission denied'' \<or> has ''access denied'' then Some PermissionDenied
         else if has ''network is unreachable'' \<or> has ''no such host'' \<or> has ''connection refused''
         then Some NetworkFailed
         else if has ''invalid configuration'' \<or> has ''failed to parse config'' \<or> has ''yaml''
            \<or> has ''json'' \<and> has ''parse''
         then Some ConfigInvalid
         else if has ''out of memory'' \<or> has ''cannot allocate memory'' then Some OutOfMemory
         else if has ''no such file or directory'' \<or> has ''cannot find the file'' then Some FileMissing
         else None)"

section \<open>Waiting for the server\<close>

text \<open>
  \<open>checkServerAvailability\<close>: the attempts made so far, the timers that will make another
  one, and how the promise was settled (only the first settlement counts).
\<close>

datatype settlement = Resolved | Rejected

record connect_state =
  currentAttempt :: nat
  retry_timers :: nat
  settled :: "settlement option"

datatype connect_event = Responded | Errored | TimedOut | RetryTimer

definition settle_promise :: "settlement \<Rightarrow> connect_state \<Rightarrow> connect_state" where
  "settle_promise r s = (if settled s = None then s\<lparr>settled := Some r\<rparr> else s)"

definition connect_failed :: "nat \<Rightarrow> connect_state \<Rightarrow> connect_state" where
  "connect_failed maxRetries s =
     (if maxRetries \<le> currentAttempt s then settle_promise Rejected s
      else s\<lparr>retry_timers := retry_timers s + 1\<rparr>)"

definition connect_step :: "nat \<Rightarrow> connect_event \<Rightarrow> connect_state \<Rightarrow> connect_state option" where
  "connect_step maxRetries ev s =
     (case ev of
        Responded \<Rightarrow> Some (settle_promise Resolved s)
      | Errored \<Rightarrow> Some (connect_failed maxRetries s)
      | TimedOut \<Rightarrow> Some (connect_failed maxRetries s)
      | RetryTimer \<Rightarrow>
          (if retry_timers s = 0 then None
           else Some (s\<lparr>currentAttempt := currentAttempt s + 1, retry_timers := retry_timers s - 1\<rparr>)))"

definition connect_start :: connect_state where
  "connect_start = \<lparr>currentAttempt = 1, retry_timers = 0, settled = None\<rparr>"

definition MAX_RETRIES :: nat where
  "MAX_RETRIES = 30"

section \<open>State\<close>

datatype startup = Starting | Started | StartFailed

text \<open>The variable \<open>serverProcess\<close>: no process object, a running process, or the object of a
  process that has ended.\<close>

datatype server_process = NoServer | ServerUp | ServerGone

datatype dialog =
    CrashDialog "known_error option" | CrashConfirm | StartDialog "known_error option" | StartConfirm

text \<open>
  \<open>mainWindow\<close> is whether the window referenced by the variable exists and is visible;
  \<open>orphans\<close> counts windows the variable no longer refers to.
\<close>

record desktop =
  isDev :: bool
  isMac :: bool
  startup :: startup
  serverProcess :: server_process
  serverErrorLogs :: "string list"
  mainWindow :: "bool option"
  orphans :: nat
  dockShown :: bool
  tray :: bool
  isQuitting :: bool
  dialogs :: "dialog list"
  killTimers :: nat
  quitHooks :: nat
  exited :: bool

definition MAX_LOGS :: nat where
  "MAX_LOGS = 100"

text \<open>After \<open>whenReady\<close> has called \<open>startServer\<close>; in development nothing is spawned.\<close>

definition launched :: "bool \<Rightarrow> bool \<Rightarrow> desktop" where
  "launched dev mac =
     \<lparr>isDev = dev, isMac = mac, startup = Starting,
      serverProcess = (if dev then NoServer else ServerUp), serverErrorLogs = [],
      mainWindow = None, orphans = 0, dockShown = True, tray = False, isQuitting = False,
      dialogs = [], killTimers = 0, quitHooks = 0, exited = False\<rparr>"

section \<open>Actions\<close>

definition push_log :: "string \<Rightarrow> string list \<Rightarrow> string list" where
  "push_log msg logs =
     (let ls = logs @ [msg] in if MAX_LOGS < length ls then tl ls else ls)"

definition createWindow :: "desktop \<Rightarrow> desktop" where
  "createWindow s =
     s\<lparr>mainWindow := Some True,
       orphans := (if mainWindow s = None then orphans s else orphans s + 1)\<rparr>"

text \<open>\<open>getBinaryPath\<close>: the file name of the server.\<close>

definition binary_name :: "string \<Rightarrow> string" where
  "binary_name platform = (if platform = ''win32'' then ''new-api.exe'' else ''new-api'')"

definition hide_main :: "desktop \<Rightarrow> desktop" where
  "hide_main s =
     s\<lparr>mainWindow := map_option (\<lambda>_. False) (mainWindow s),
       dockShown := (if isMac s then False else dockShown s)\<rparr>"

text \<open>The close handler of the window: the user's close button or \<open>mainWindow.close()\<close>.\<close>

definition close_main :: "desktop \<Rightarrow> desktop" where
  "close_main s =
     (if mainWindow s = None then s
      else if isQuitting s then s\<lparr>mainWindow := None\<rparr>
      else hide_main s)"

text \<open>The same handler on a window that \<open>mainWindow\<close> no longer refers to; its \<open>closed\<close>
  handler clears the variable all the same.  Without a main window the handler throws after
  it has kept the window open.\<close>

definition close_orphan :: "desktop \<Rightarrow> desktop" where
  "close_orphan s =
     (if orphans s = 0 then s
      else if isQuitting s
        then s\<lparr>orphans := orphans s - 1 + (if mainWindow s = None then 0 else 1), mainWindow := None\<rparr>
      else if mainWindow s = None then s
      else hide_main s)"

definition open_windows :: "desktop \<Rightarrow> nat" where
  "open_windows s = orphans s + (if mainWindow s = None then 0 else 1)"

text \<open>
  \<open>app.quit()\<close>: the handler of \<open>before-quit\<close> stops the quit while there is a process object,
  asks the process to end and arms a timer and a hook; otherwise the windows are closed, and
  a window that refuses stops the quit.
\<close>

definition app_quit :: "desktop \<Rightarrow> desktop" where
  "app_quit s =
     (if serverProcess s \<noteq> NoServer
      then s\<lparr>killTimers := killTimers s + 1, quitHooks := quitHooks s + 1\<rparr>
      else if open_windows s = 0 \<or> isQuitting s then s\<lparr>exited := True\<rparr>
      else hide_main s)"

definition quit_now :: "desktop \<Rightarrow> desktop" where
  "quit_now s = app_quit (s\<lparr>isQuitting := True\<rparr>)"

section \<open>Events\<close>

datatype desktop_event =
    Stderr string
  | SpawnError
  | ServerClosed "int option"
  | ServerReachable
  | ServerUnreachable
  | Answer nat nat
  | TrayShow
  | TrayQuit
  | TrayClick
  | WindowClose
  | OrphanClose
  | Activate
  | AppQuit
  | KillTimer

text \<open>The process ended: the handler of \<open>startServer\<close>, then the hooks of \<open>before-quit\<close>.\<close>

definition server_closed :: "int option \<Rightarrow> desktop \<Rightarrow> desktop" where
  "server_closed code s =
     (if serverProcess s \<noteq> ServerUp then s
      else
        let s1 = s\<lparr>serverProcess := ServerGone\<rparr>;
            s2 = (if code \<noteq> None \<and> code \<noteq> Some 0
                  then s1\<lparr>dialogs := dialogs s1 @ [CrashDialog (analyzeError (serverErrorLogs s1))]\<rparr>
                  else close_main s1)
        in if 0 < quitHooks s2 then s2\<lparr>serverProcess := NoServer, exited := True\<rparr> else s2)"

definition start_failed :: "desktop \<Rightarrow> desktop" where
  "start_failed s =
     (if startup s = Starting
      then s\<lparr>startup := StartFailed,
             dialogs := dialogs s @ [StartDialog (analyzeError (serverErrorLogs s))]\<rparr>
      else s)"

definition start_done :: "desktop \<Rightarrow> desktop" where
  "start_done s =
     (if startup s = Starting then createWindow (s\<lparr>startup := Started, tray := True\<rparr>) else s)"

definition remove_at :: "nat \<Rightarrow> 'a list \<Rightarrow> 'a list" where
  "remove_at i xs = take i xs @ drop (Suc i) xs"

text \<open>The user answers a dialog; button 1 shows the log, every other answer quits.\<close>

definition answer_dialog :: "nat \<Rightarrow> nat \<Rightarrow> desktop \<Rightarrow> desktop" where
  "answer_dialog i response s =
     (if length (dialogs s) \<le> i then s
      else
        let rest = s\<lparr>dialogs := remove_at i (dialogs s)\<rparr>
        in case dialogs s ! i of
             CrashDialog _ \<Rightarrow>
               if response = 1 then s\<lparr>dialogs := (dialogs s)[i := CrashConfirm]\<rparr> else quit_now rest
           | CrashConfirm \<Rightarrow> quit_now rest
           | StartDialog _ \<Rightarrow>
               if response = 1 then s\<lparr>dialogs := (dialogs s)[i := StartConfirm]\<rparr> else app_quit rest
           | StartConfirm \<Rightarrow> app_quit rest)"

definition show_main :: "desktop \<Rightarrow> desktop" where
  "show_main s = s\<lparr>mainWindow := Some True, dockShown := (if isMac s then True else dockShown s)\<rparr>"

definition tray_show :: "desktop \<Rightarrow> desktop" where
  "tray_show s = (if mainWindow s = None then createWindow s else show_main s)"

definition tray_click :: "desktop \<Rightarrow> desktop" where
  "tray_click s =
     (case mainWindow s of
        None \<Rightarrow> createWindow s
      | Some True \<Rightarrow> s\<lparr>mainWindow := Some False\<rparr>
      | Some False \<Rightarrow> show_main s)"

definition desktop_step :: "desktop_event \<Rightarrow> desktop \<Rightarrow> desktop option" where
  "desktop_step ev s =
     (if exited s then None
      else Some (case ev of
          Stderr msg \<Rightarrow>
            if serverProcess s = ServerUp then s\<lparr>serverErrorLogs := push_log msg (serverErrorLogs s)\<rparr> else s
        | SpawnError \<Rightarrow>
            if serverProcess s = ServerUp \<and> startup s = Starting
            then start_failed (s\<lparr>serverProcess := ServerGone\<rparr>) else s
        | ServerClosed code \<Rightarrow> server_closed code s
        | ServerReachable \<Rightarrow> start_done s
        | ServerUnreachable \<Rightarrow> start_failed s
        | Answer i r \<Rightarrow> answer_dialog i r s
        | TrayShow \<Rightarrow> if tray s then tray_show s else s
        | TrayQuit \<Rightarrow> if tray s then quit_now s else s
        | TrayClick \<Rightarrow> if tray s then tray_click s else s
        | WindowClose \<Rightarrow> close_main s
        | OrphanClose \<Rightarrow> close_orphan s
        | Activate \<Rightarrow> if open_windows s = 0 then createWindow s else s
        | AppQuit \<Rightarrow> app_quit s
        | KillTimer \<Rightarrow>
            if killTimers s = 0 then s
            else s\<lparr>serverProcess := (if serverProcess s = ServerUp then ServerGone else serverProcess s),
                   killTimers := killTimers s - 1, exited := True\<rparr>))"

section \<open>The error log\<close>

lemma push_logs:
  "foldl (\<lambda>l m. push_log m l) l0 ms = drop (length l0 + length ms - MAX_LOGS) (l0 @ ms)"
  if "length l0 \<le> MAX_LOGS"
  using that
proof (induction ms arbitrary: l0)
  case (Cons m ms)
  show ?case
  proof (cases "length l0 = MAX_LOGS")
    case True
    then obtain x xs where l0: "l0 = x # xs" by (cases l0) (auto simp: MAX_LOGS_def)
    then have M: "MAX_LOGS = Suc (length xs)" using True by simp
    then have p: "push_log m (x # xs) = xs @ [m]" by (simp add: push_log_def Let_def)
    have "length (xs @ [m]) \<le> MAX_LOGS" using M by simp
    from Cons.IH [OF this] show ?thesis by (simp add: p l0 M)
  next
    case False
    with Cons.prems have p: "push_log m l0 = l0 @ [m]" "length (l0 @ [m]) \<le> MAX_LOGS"
      by (simp_all add: push_log_def Let_def)
    from Cons.IH [OF p(2)] show ?thesis by (simp add: p(1))
  qed
qed simp

section \<open>The invariant\<close>

definition desktop_ok :: "desktop \<Rightarrow> bool" where
  "desktop_ok s \<longleftrightarrow>
     length (serverErrorLogs s) \<le> MAX_LOGS
     \<and> (isDev s \<longrightarrow> serverProcess s = NoServer)
     \<and> (exited s \<longrightarrow> serverProcess s \<noteq> ServerUp)
     \<and> (0 < killTimers s \<and> \<not> exited s \<longrightarrow> serverProcess s \<noteq> NoServer)
     \<and> (\<not> exited s \<longrightarrow> killTimers s = quitHooks s)
     \<and> (\<not> isDev s \<and> \<not> exited s \<longrightarrow> serverProcess s \<noteq> NoServer)
     \<and> (tray s \<longleftrightarrow> startup s = Started)
     \<and> (mainWindow s = None \<longrightarrow> startup s = Started \<longrightarrow> isQuitting s)"

lemmas action_defs = createWindow_def hide_main_def close_main_def close_orphan_def app_quit_def
  quit_now_def server_closed_def start_failed_def start_done_def answer_dialog_def show_main_def
  tray_show_def tray_click_def

lemma push_log_length: "length l \<le> MAX_LOGS \<Longrightarrow> length (push_log m l) \<le> MAX_LOGS"
  by (simp add: push_log_def Let_def)

lemma quit_ok: "desktop_ok s \<Longrightarrow> \<not> exited s \<Longrightarrow> desktop_ok (app_quit s) \<and> desktop_ok (quit_now s)"
  by (auto simp: desktop_ok_def app_quit_def quit_now_def hide_main_def)

lemma desktop_ok_dialogs: "desktop_ok (s\<lparr>dialogs := d\<rparr>) = desktop_ok s"
  by (simp add: desktop_ok_def)

lemma answer_ok: "desktop_ok s \<Longrightarrow> \<not> exited s \<Longrightarrow> desktop_ok (answer_dialog i r s)"
  using quit_ok [of "s\<lparr>dialogs := remove_at i (dialogs s)\<rparr>"]
  by (simp add: answer_dialog_def Let_def desktop_ok_dialogs split: dialog.split)

lemma create_ok: "desktop_ok s \<Longrightarrow> desktop_ok (createWindow s)"
  by (auto simp: desktop_ok_def createWindow_def)

lemma show_ok: "desktop_ok s \<Longrightarrow> desktop_ok (show_main s)"
  by (auto simp: desktop_ok_def show_main_def)

lemma hide_ok: "desktop_ok s \<Longrightarrow> desktop_ok (hide_main s)"
  by (auto simp: desktop_ok_def hide_main_def)

lemma invisible_ok: "desktop_ok s \<Longrightarrow> desktop_ok (s\<lparr>mainWindow := Some b\<rparr>)"
  by (auto simp: desktop_ok_def)

lemma close_ok: "desktop_ok s \<Longrightarrow> desktop_ok (close_main s)"
  by (cases "isQuitting s") (auto simp: close_main_def hide_ok, auto simp: desktop_ok_def)

lemma orphan_ok: "desktop_ok s \<Longrightarrow> desktop_ok (close_orphan s)"
  by (cases "isQuitting s") (auto simp: close_orphan_def hide_ok, auto simp: desktop_ok_def)

lemma failed_ok: "desktop_ok s \<Longrightarrow> desktop_ok (start_failed s)"
  by (cases "startup s") (auto simp: desktop_ok_def start_failed_def)

lemma done_ok: "desktop_ok s \<Longrightarrow> desktop_ok (start_done s)"
  by (cases "startup s") (auto simp: desktop_ok_def start_done_def createWindow_def)

lemma gone_ok: "desktop_ok s \<Longrightarrow> serverProcess s = ServerUp \<Longrightarrow> desktop_ok (s\<lparr>serverProcess := ServerGone\<rparr>)"
  by (auto simp: desktop_ok_def)

lemma closed_ok:
  assumes "desktop_ok s" "\<not> exited s"
  shows "desktop_ok (server_closed code s)"
proof (cases "serverProcess s = ServerUp")
  case True
  let ?s1 = "s\<lparr>serverProcess := ServerGone\<rparr>"
  let ?s2 = "if code \<noteq> None \<and> code \<noteq> Some 0
      then ?s1\<lparr>dialogs := dialogs ?s1 @ [CrashDialog (analyzeError (serverErrorLogs ?s1))]\<rparr>
      else close_main ?s1"
  have g: "desktop_ok ?s1" using gone_ok [OF assms(1) True] .
  have s2: "desktop_ok ?s2"
    using g close_ok [OF g] by (simp add: desktop_ok_dialogs)
  have "desktop_ok (?s2\<lparr>serverProcess := NoServer, exited := True\<rparr>)"
    using s2 by (auto simp: desktop_ok_def)
  with s2 show ?thesis
    using True unfolding server_closed_def Let_def by (simp only: simp_thms if_False) simp
qed (use assms in \<open>simp add: server_closed_def\<close>)

lemma timer_ok:
  "desktop_ok s \<Longrightarrow> desktop_ok (s\<lparr>serverProcess := (if serverProcess s = ServerUp then ServerGone else serverProcess s),
      killTimers := n, exited := True\<rparr>)"
  by (auto simp: desktop_ok_def)

lemma log_ok: "desktop_ok s \<Longrightarrow> desktop_ok (s\<lparr>serverErrorLogs := push_log m (serverErrorLogs s)\<rparr>)"
  using push_log_length [of "serverErrorLogs s" m] by (auto simp: desktop_ok_def)

lemma desktop_step_ok:
  assumes "desktop_ok s" "desktop_step ev s = Some s'"
  shows "desktop_ok s'"
proof -
  have ne: "\<not> exited s" using assms(2) by (auto simp: desktop_step_def)
  note st = assms(2) [unfolded desktop_step_def] ne
  show ?thesis
    using st answer_ok [OF assms(1) ne] log_ok [OF assms(1)] quit_ok [OF assms(1) ne]
      create_ok [OF assms(1)] show_ok [OF assms(1)] hide_ok [OF assms(1)] close_ok [OF assms(1)]
      orphan_ok [OF assms(1)] failed_ok [OF assms(1)] done_ok [OF assms(1)] closed_ok [OF assms(1) ne]
      timer_ok [OF assms(1)] failed_ok [OF gone_ok [OF assms(1)]] assms(1)
      invisible_ok [OF assms(1)]
    by (cases ev) (auto simp: tray_show_def tray_click_def split: if_splits option.splits bool.splits)
qed

interpretation desktop: invariant_system desktop_step "\<lambda>s. \<exists>dev mac. s = launched dev mac" desktop_ok
proof unfold_locales
  show "\<exists>dev mac. s = launched dev mac \<Longrightarrow> desktop_ok s" for s
    by (auto simp: launched_def desktop_ok_def MAX_LOGS_def)
  show "desktop_ok s \<Longrightarrow> desktop_step e s = Some s' \<Longrightarrow> desktop_ok s'" for s e s'
    by (rule desktop_step_ok)
qed

section \<open>Quitting\<close>

lemma timers_grow:
  assumes "desktop_step ev s = Some s'" "\<not> exited s'"
  shows "killTimers s \<le> killTimers s'"
proof -
  have q: "killTimers s \<le> killTimers (app_quit s)" "killTimers s \<le> killTimers (quit_now s)" for s
    by (simp_all add: app_quit_def quit_now_def hide_main_def)
  have "\<not> exited s" using assms(1) by (auto simp: desktop_step_def)
  show ?thesis
  proof (cases ev)
    case (Answer i r)
    have "killTimers s \<le> killTimers (answer_dialog i r s)"
      using q [of "s\<lparr>dialogs := remove_at i (dialogs s)\<rparr>"]
      by (simp add: answer_dialog_def Let_def split: dialog.split)
    with Answer assms \<open>\<not> exited s\<close> show ?thesis by (simp add: desktop_step_def)
  qed (use assms \<open>\<not> exited s\<close> q in \<open>auto simp: desktop_step_def action_defs Let_def
        split: if_splits option.splits bool.splits\<close>)
qed

lemma armed_run:
  assumes "run_events desktop_step es s = Some s'" "0 < killTimers s" "\<not> exited s'"
  shows "0 < killTimers s'"
  using assms
proof (induction es arbitrary: s)
  case (Cons e es)
  then obtain t where t: "desktop_step e s = Some t" "run_events desktop_step es t = Some s'"
    by (auto split: option.splits)
  have "\<not> exited t"
  proof
    assume x: "exited t"
    with t(2) Cons.prems(3) show False
      by (cases es) (auto simp: desktop_step_def)
  qed
  with timers_grow [OF t(1)] Cons.prems(2) have "0 < killTimers t" by simp
  from Cons.IH [OF t(2) this Cons.prems(3)] show ?case .
qed simp

section \<open>Properties\<close>

text \<open>
  C30: In every state the desktop application reaches: the error log holds at most 100
  entries, the tray icon exists exactly once startup has finished, the window exists as
  long as the user has not chosen to quit (closing it only hides it), and when the
  application has exited its server process is no longer running.
\<close>

theorem desktop_reaches_ok:
  assumes "reached desktop_step (launched dev mac) s"
  shows "length (serverErrorLogs s) \<le> 100 \<and> (tray s \<longleftrightarrow> startup s = Started)
    \<and> (startup s = Started \<and> \<not> isQuitting s \<longrightarrow> mainWindow s \<noteq> None)
    \<and> (exited s \<longrightarrow> serverProcess s \<noteq> ServerUp)"
proof -
  have "desktop_ok s" using desktop.inv_reached [OF assms] by blast
  then show ?thesis unfolding desktop_ok_def MAX_LOGS_def by blast
qed

lemma desktop_reaches_ok_witness:
  "\<exists>s. reached desktop_step (launched False False) s \<and> startup s = Started \<and> mainWindow s \<noteq> None"
proof -
  obtain s where s: "desktop_step ServerReachable (launched False False) = Some s"
    by (simp add: desktop_step_def launched_def)
  then have st: "startup s = Started" "\<not> isQuitting s"
    by (auto simp: desktop_step_def launched_def start_done_def createWindow_def)
  have "reached desktop_step (launched False False) s"
    using s by (rule reached.event [OF reached.start])
  with desktop_reaches_ok [OF this] st show ?thesis by blast
qed

text \<open>
  C32: Quitting ends the application: in production, once a quit is requested, whatever happens
  afterwards, it has ended or a kill timer is running whose firing ends it.
\<close>

theorem quit_terminates:
  assumes "reached desktop_step (launched False mac) s" "desktop_step AppQuit s = Some s1"
    and "run_events desktop_step es s1 = Some t"
  shows "exited t \<or> 0 < killTimers t \<and> (\<exists>t'. desktop_step KillTimer t = Some t' \<and> exited t')"
proof -
  have ok: "desktop_ok s" using desktop.inv_reached [OF assms(1)] by blast
  have dev: "\<not> isDev s"
    using assms(1)
  proof induction
    case (event s e s')
    have q: "isDev (app_quit s) = isDev s" "isDev (quit_now s) = isDev s" for s
      by (simp_all add: app_quit_def quit_now_def hide_main_def)
    have "isDev s' = isDev s"
      using event.hyps(2)
      by (cases e) (auto simp: desktop_step_def answer_dialog_def q action_defs Let_def
          split: if_splits option.splits bool.splits dialog.splits)
    with event show ?case by simp
  qed (simp add: launched_def)
  have ne: "\<not> exited s" using assms(2) by (auto simp: desktop_step_def)
  have armed: "0 < killTimers s1"
    using assms(2) ok dev ne by (auto simp: desktop_step_def app_quit_def desktop_ok_def)
  show ?thesis
    using armed_run [OF assms(3) armed] by (cases "exited t") (simp_all add: desktop_step_def)
qed

lemma quit_terminates_witness:
  "\<exists>s1 t. desktop_step AppQuit (launched False True) = Some s1
     \<and> run_events desktop_step [KillTimer] s1 = Some t \<and> exited t"
proof -
  obtain s1 where s1: "desktop_step AppQuit (launched False True) = Some s1"
    and n: "\<not> exited s1"
    by (simp add: desktop_step_def launched_def app_quit_def)
  have "run_events desktop_step [] s1 = Some s1" by simp
  from quit_terminates [OF reached.start s1 this] n s1 show ?thesis by auto
qed

text \<open>
  The error log the application keeps is the most recent 100 messages of the server, in
  the order they arrived.
\<close>

theorem error_log_keeps_latest:
  "foldl (\<lambda>l m. push_log m l) [] ms = drop (length ms - 100) ms"
  using push_logs [of "[]" ms] by (simp add: MAX_LOGS_def)

text \<open>
  The requests on the wire beside the promise: how many attempts are open, and how many were cut
  off by their timeout and have not yet raised their error.  An open attempt is answered, is
  refused, or times out; the timeout destroys the request, which raises its error event later.
\<close>

record waiting =
  promise :: connect_state
  open_requests :: nat
  cut_requests :: nat

datatype wait_event = ServerAnswers | RequestRefused | RequestTimesOut | CutRequestErrs | TimerFires

definition wait_start :: waiting where
  "wait_start = \<lparr>promise = connect_start, open_requests = 1, cut_requests = 0\<rparr>"

definition wait_step :: "nat \<Rightarrow> wait_event \<Rightarrow> waiting \<Rightarrow> waiting option" where
  "wait_step n ev w =
     (let to = (\<lambda>e opened cut. map_option (\<lambda>s. \<lparr>promise = s, open_requests = opened, cut_requests = cut\<rparr>)
                   (connect_step n e (promise w)));
          k = open_requests w; c = cut_requests w
      in case ev of
           ServerAnswers \<Rightarrow> if k = 0 then None else to Responded (k - 1) c
         | RequestRefused \<Rightarrow> if k = 0 then None else to Errored (k - 1) c
         | RequestTimesOut \<Rightarrow> if k = 0 then None else to TimedOut (k - 1) (c + 1)
         | CutRequestErrs \<Rightarrow> if c = 0 then None else to Errored k (c - 1)
         | TimerFires \<Rightarrow> to RetryTimer (k + 1) c)"

lemmas wait_defs = wait_step_def connect_step_def connect_failed_def settle_promise_def Let_def

text \<open>
  Every attempt fails at most twice, and only failures before the last allowed attempt schedule
  another one.
\<close>

definition waiting_ok :: "nat \<Rightarrow> waiting \<Rightarrow> bool" where
  "waiting_ok n w \<longleftrightarrow>
     (let a = currentAttempt (promise w); t = retry_timers (promise w)
      in 0 < a \<and> a + t \<le> 2 * n - 1
         \<and> (a < n \<longrightarrow> t + 2 * open_requests w + cut_requests w \<le> a + 1)
         \<and> (settled (promise w) = None \<longrightarrow> 0 < open_requests w + cut_requests w + t)
         \<and> (settled (promise w) = Some Rejected \<longrightarrow> n \<le> a))"

definition left_to_do :: "nat \<Rightarrow> waiting \<Rightarrow> nat" where
  "left_to_do n w =
     2 * open_requests w + cut_requests w + 3 * retry_timers (promise w)
     + 3 * (2 * n - 1 - (currentAttempt (promise w) + retry_timers (promise w)))"

lemma waiting_ok_step: "waiting_ok n w \<Longrightarrow> wait_step n e w = Some w' \<Longrightarrow> waiting_ok n w'"
  by (cases e) (auto simp: wait_defs waiting_ok_def split: if_splits)

lemma waiting_ok_start: "0 < n \<Longrightarrow> waiting_ok n wait_start"
  by (simp add: waiting_ok_def wait_start_def connect_start_def)

lemma wait_step_less: "waiting_ok n w \<Longrightarrow> wait_step n e w = Some w' \<Longrightarrow> left_to_do n w' < left_to_do n w"
  by (cases e) (auto simp: wait_defs waiting_ok_def left_to_do_def split: if_splits)

interpretation connecting: invariant_system "wait_step n" "\<lambda>w. 0 < n \<and> w = wait_start" "waiting_ok n"
  using waiting_ok_start waiting_ok_step by unfold_locales auto

lemma run_is_short:
  "waiting_ok n w \<Longrightarrow> run_events (wait_step n) es w = Some w' \<Longrightarrow> length es + left_to_do n w' \<le> left_to_do n w"
proof (induction es arbitrary: w)
  case (Cons e es)
  then obtain v where v: "wait_step n e w = Some v" "run_events (wait_step n) es v = Some w'"
    by (auto split: option.splits)
  with Cons.IH [of v] Cons.prems(1) waiting_ok_step [of n w e v] wait_step_less [of n w e v] show ?case by simp
qed simp

text \<open>Runs in which some events do not occur.\<close>

lemma run_without:
  assumes "\<And>e w w'. P w \<Longrightarrow> e \<noteq> x \<Longrightarrow> wait_step n e w = Some w' \<Longrightarrow> P w'"
  shows "P w \<Longrightarrow> x \<notin> set es \<Longrightarrow> run_events (wait_step n) es w = Some w' \<Longrightarrow> P w'"
proof (induction es arbitrary: w)
  case (Cons e es)
  then obtain v where v: "wait_step n e w = Some v" "run_events (wait_step n) es v = Some w'"
    by (auto split: option.splits)
  from Cons.prems(1,2) v(1) have "P v" by (auto intro: assms)
  with Cons.IH [of v] Cons.prems(2) v(2) show ?case by simp
qed simp

lemma unanswered:
  assumes "run_events (wait_step n) es wait_start = Some w" "ServerAnswers \<notin> set es"
  shows "settled (promise w) \<noteq> Some Resolved"
proof (rule run_without [where P = "\<lambda>w. settled (promise w) \<noteq> Some Resolved", OF _ _ assms(2,1)])
  show "settled (promise v') \<noteq> Some Resolved"
    if "settled (promise v) \<noteq> Some Resolved" "e \<noteq> ServerAnswers" "wait_step n e v = Some v'" for e v v'
    using that by (cases e) (auto simp: wait_defs split: if_splits)
qed (simp add: wait_start_def connect_start_def)

definition one_by_one :: "nat \<Rightarrow> waiting \<Rightarrow> bool" where
  "one_by_one n w \<longleftrightarrow>
     (let a = currentAttempt (promise w); t = retry_timers (promise w)
      in cut_requests w = 0 \<and> open_requests w + t \<le> 1 \<and> a \<le> n \<and> (a = n \<longrightarrow> t = 0))"

lemma punctual:
  assumes "run_events (wait_step n) es wait_start = Some w" "RequestTimesOut \<notin> set es" "0 < n"
  shows "currentAttempt (promise w) \<le> n"
proof -
  have "one_by_one n w"
  proof (rule run_without [where P = "one_by_one n", OF _ _ assms(2,1)])
    show "one_by_one n v'"
      if "one_by_one n v" "e \<noteq> RequestTimesOut" "wait_step n e v = Some v'" for e v v'
      using that by (cases e) (auto simp: wait_defs one_by_one_def split: if_splits)
  qed (use assms(3) in \<open>simp add: one_by_one_def wait_start_def connect_start_def\<close>)
  then show ?thesis by (simp add: one_by_one_def Let_def)
qed

lemma stuck_waiting:
  "(\<forall>e. wait_step n e w = None) \<longleftrightarrow>
     open_requests w = 0 \<and> cut_requests w = 0 \<and> retry_timers (promise w) = 0"
proof
  assume h: "\<forall>e. wait_step n e w = None"
  then have "wait_step n RequestRefused w = None" "wait_step n CutRequestErrs w = None" "wait_step n TimerFires w = None"
    by blast+
  then show "open_requests w = 0 \<and> cut_requests w = 0 \<and> retry_timers (promise w) = 0"
    by (simp add: wait_step_def connect_step_def Let_def split: if_splits)
next
  assume z: "open_requests w = 0 \<and> cut_requests w = 0 \<and> retry_timers (promise w) = 0"
  show "\<forall>e. wait_step n e w = None"
  proof
    show "wait_step n e w = None" for e using z by (cases e) (simp_all add: wait_step_def connect_step_def)
  qed
qed

text \<open>
  C40: Waiting for the server ends, in whatever order its requests are answered, refused or time out
  and its timers fire: after at most 176 events nothing is left to happen, at most 59 attempts were
  made, and the promise is settled - rejected if the server never answered.  It is never rejected
  before the 30th attempt, and when no request times out there are at most 30 attempts (a timed-out
  attempt schedules two others, which is why there can be more).
\<close>

theorem waiting_gives_up:
  assumes "run_events (wait_step MAX_RETRIES) es wait_start = Some w"
  shows "length es \<le> 176 \<and> currentAttempt (promise w) \<le> 59
    \<and> ((\<forall>e. wait_step MAX_RETRIES e w = None) \<longrightarrow>
         settled (promise w) \<noteq> None \<and> (ServerAnswers \<notin> set es \<longrightarrow> settled (promise w) = Some Rejected))
    \<and> (settled (promise w) = Some Rejected \<longrightarrow> 30 \<le> currentAttempt (promise w))
    \<and> (RequestTimesOut \<notin> set es \<longrightarrow> currentAttempt (promise w) \<le> 30)"
proof -
  have n: "0 < MAX_RETRIES" by (simp add: MAX_RETRIES_def)
  have ok: "waiting_ok MAX_RETRIES w" using connecting.inv_from_init [OF _ assms] n by simp
  have "length es \<le> left_to_do MAX_RETRIES wait_start"
    using run_is_short [OF waiting_ok_start [OF n] assms] by simp
  moreover have "left_to_do MAX_RETRIES wait_start = 176" by code_simp
  moreover have "settled (promise w) \<noteq> None" if "\<forall>e. wait_step MAX_RETRIES e w = None"
    using that ok by (auto simp: stuck_waiting waiting_ok_def Let_def)
  moreover have "settled (promise w) = Some Rejected"
    if "settled (promise w) \<noteq> None" "ServerAnswers \<notin> set es"
    using unanswered [OF assms that(2)] that(1) by (cases "settled (promise w)") (auto intro: settlement.exhaust)
  moreover have "currentAttempt (promise w) \<le> 59" "settled (promise w) = Some Rejected \<longrightarrow> 30 \<le> currentAttempt (promise w)"
    using ok by (simp_all add: waiting_ok_def MAX_RETRIES_def Let_def)
  moreover have "RequestTimesOut \<notin> set es \<longrightarrow> currentAttempt (promise w) \<le> 30"
    using punctual [OF assms] by (simp add: MAX_RETRIES_def)
  ultimately show ?thesis by simp
qed

text \<open>A server that is never reached, and one whose requests all time out.\<close>

definition refused_waits :: "wait_event list" where
  "refused_waits = concat (replicate 29 [RequestRefused, TimerFires]) @ [RequestRefused]"

lemma waiting_gives_up_witness:
  "case run_events (wait_step MAX_RETRIES) refused_waits wait_start of
     None \<Rightarrow> False
   | Some w \<Rightarrow> settled (promise w) = Some Rejected \<and> currentAttempt (promise w) = 30"
proof -
  have "case run_events (wait_step MAX_RETRIES) refused_waits wait_start of
      None \<Rightarrow> False
    | Some w \<Rightarrow> open_requests w = 0 \<and> cut_requests w = 0 \<and> retry_timers (promise w) = 0" by code_simp
  then obtain w where w: "run_events (wait_step MAX_RETRIES) refused_waits wait_start = Some w"
      and z: "open_requests w = 0 \<and> cut_requests w = 0 \<and> retry_timers (promise w) = 0"
    by (auto split: option.splits)
  have "ServerAnswers \<notin> set refused_waits" "RequestTimesOut \<notin> set refused_waits"
    by (simp_all add: refused_waits_def)
  with waiting_gives_up [OF w] z [folded stuck_waiting [of MAX_RETRIES w]] show ?thesis by (auto simp: w intro: antisym)
qed

text \<open>With timeouts there are more attempts than allowed.\<close>

lemma timeouts_exceed_the_limit:
  "case run_events (wait_step 3)
      [RequestTimesOut, CutRequestErrs, TimerFires, RequestTimesOut, CutRequestErrs, TimerFires, TimerFires, TimerFires]
      wait_start of
     None \<Rightarrow> False | Some w \<Rightarrow> currentAttempt (promise w) = 5"
  by code_simp

section \<open>Where the application parts from its intent\<close>

text \<open>A timeout destroys the request, which also raises its error event: two further attempts
  are scheduled for one.\<close>

lemma timeout_schedules_twice:
  "map_option retry_timers (run_events (connect_step MAX_RETRIES) [TimedOut, Errored] connect_start) = Some 2"
  by (simp add: connect_step_def connect_failed_def connect_start_def MAX_RETRIES_def)

text \<open>An activation before the server is ready opens a window, and the end of startup a
  second one.\<close>

lemma activate_while_starting:
  "map_option open_windows (run_events desktop_step [Activate, ServerReachable] (launched False True)) = Some 2"
  by (simp add: desktop_step_def launched_def open_windows_def createWindow_def start_done_def)

text \<open>After a crash the process object is kept, so a quit waits for the timer.\<close>

lemma quit_after_crash_waits:
  "map_option (\<lambda>s. (exited s, killTimers s))
     (run_events desktop_step [ServerReachable, ServerClosed (Some 1), Answer 0 0] (launched False True)) = Some (False, 1)"
  by (simp add: desktop_step_def launched_def start_done_def createWindow_def server_closed_def
      answer_dialog_def quit_now_def app_quit_def Let_def)

end
