(* ===== verification/TieredConfig.thy ===== *)
theory TieredConfig
  imports RequestRules JsRegex
begin

text \<open>
  Tiered billing expressions: the registry of billing variables
  (\<open>web/src/constants/billing.constants.js\<close>) and the visual configuration of
  \<open>web/src/pages/Setting/Ratio/components/TieredPricingEditor.jsx\<close> with the generation of its
  expression and the parser that reads an expression back.  The regular expressions of the
  parser are backtracking matchers.  The text of an automatic tier label (\<open>tierName n\<close>, the
  Chinese for "tier n") is an argument, because its characters are not Latin-1.
\<close>

section \<open>Billing variables\<close>

datatype var_side = Input_side | Output_side | Condition_side

datatype var_group = Cache_group | Media_group

record billing_var =
  bv_key :: string
  bv_field :: "string option"
  bv_tierField :: "string option"
  bv_side :: var_side
  bv_group :: "var_group option"
  bv_isBase :: bool
  bv_isConditionOnly :: bool

definition priced_var :: "string \<Rightarrow> string \<Rightarrow> string \<Rightarrow> var_side \<Rightarrow> var_group option \<Rightarrow> bool \<Rightarrow> billing_var" where
  "priced_var k f tf sd g base =
     \<lparr>bv_key = k, bv_field = Some f, bv_tierField = Some tf, bv_side = sd, bv_group = g, bv_isBase = base,
      bv_isConditionOnly = False\<rparr>"

definition BILLING_VARS :: "billing_var list" where
  "BILLING_VARS =
     [priced_var ''p'' ''inputPrice'' ''input_unit_cost'' Input_side None True,
      priced_var ''c'' ''outputPrice'' ''output_unit_cost'' Output_side None True,
      \<lparr>bv_key = ''len'', bv_field = None, bv_tierField = None, bv_side = Condition_side, bv_group = None,
       bv_isBase = False, bv_isConditionOnly = True\<rparr>,
      priced_var ''cr'' ''cacheReadPrice'' ''cache_read_unit_cost'' Input_side (Some Cache_group) False,
      priced_var ''cc'' ''cacheCreatePrice'' ''cache_create_unit_cost'' Input_side (Some Cache_group) False,
      priced_var ''cc1h'' ''cacheCreate1hPrice'' ''cache_create_1h_unit_cost'' Input_side (Some Cache_group) False,
      priced_var ''img'' ''imagePrice'' ''image_unit_cost'' Input_side (Some Media_group) False,
      priced_var ''img_o'' ''imageOutputPrice'' ''image_output_unit_cost'' Output_side (Some Media_group) False,
      priced_var ''ai'' ''audioInputPrice'' ''audio_input_unit_cost'' Input_side (Some Media_group) False,
      priced_var ''ao'' ''audioOutputPrice'' ''audio_output_unit_cost'' Output_side (Some Media_group) False]"

definition BILLING_VAR_KEYS :: "string list" where
  "BILLING_VAR_KEYS = map bv_key BILLING_VARS"

definition BILLING_PRICING_VARS :: "billing_var list" where
  "BILLING_PRICING_VARS = filter (\<lambda>v. \<not> bv_isConditionOnly v) BILLING_VARS"

definition BILLING_EXTRA_VARS :: "billing_var list" where
  "BILLING_EXTRA_VARS = filter (\<lambda>v. \<not> bv_isBase v \<and> \<not> bv_isConditionOnly v) BILLING_VARS"

text \<open>Pairs of the tier field and the variable of the expression.\<close>

definition BILLING_CACHE_VAR_MAP :: "(string \<times> string) list" where
  "BILLING_CACHE_VAR_MAP =
     map (\<lambda>v. (case bv_tierField v of Some f \<Rightarrow> f | None \<Rightarrow> [], bv_key v)) BILLING_EXTRA_VARS"

definition BILLING_CONDITION_VARS :: "string list" where
  "BILLING_CONDITION_VARS = map bv_key (filter (\<lambda>v. bv_isBase v \<or> bv_isConditionOnly v) BILLING_VARS)"

section \<open>The visual configuration\<close>

definition OPS :: "string list" where
  "OPS = [''<'', ''<='', ''>'', ''>='']"

definition VAR_OPTIONS :: "string list" where
  "VAR_OPTIONS = [''len'', ''p'', ''c'']"

datatype cache_mode = CACHE_MODE_TIMED | CACHE_MODE_GENERIC

text \<open>A condition; its value is a number, or empty while it is edited.\<close>

record tier_cond =
  tc_var :: string
  tc_op :: string
  tc_value :: jsval

text \<open>A tier; the further unit costs are those of \<open>CACHE_VAR_MAP\<close>, absent until they are set.\<close>

record tier =
  t_conditions :: "tier_cond list"
  input_unit_cost :: jsnum
  output_unit_cost :: jsnum
  extra_cost :: "string \<rightharpoonup> jsnum"
  t_label :: string
  cache_mode_of :: "cache_mode option"

text \<open>\<open>Number(v) || 0\<close>\<close>

definition or_zero :: "jsnum \<Rightarrow> jsnum" where
  "or_zero x = (if x = NaN then Fin 0 else x)"

definition unitCostToPrice :: "jsnum \<Rightarrow> jsnum" where
  "unitCostToPrice uc = or_zero uc"

definition priceToUnitCost :: "jsnum \<Rightarrow> jsnum" where
  "priceToUnitCost price = or_zero price"

definition extra_number :: "tier \<Rightarrow> string \<Rightarrow> jsnum" where
  "extra_number t f = (case extra_cost t f of Some x \<Rightarrow> or_zero x | None \<Rightarrow> Fin 0)"

definition cond_complete :: "tier_cond \<Rightarrow> bool" where
  "cond_complete c \<longleftrightarrow>
     tc_var c \<noteq> [] \<and> tc_op c \<noteq> [] \<and> \<not> is_nullish (tc_value c) \<and> tc_value c \<noteq> JStr []"

definition cond_text :: "tier_cond \<Rightarrow> string" where
  "cond_text c = tc_var c @ '' '' @ tc_op c @ '' '' @ text_of_value (tc_value c)"

definition buildConditionStr :: "tier_cond list \<Rightarrow> string" where
  "buildConditionStr cs = join '' && '' (map cond_text (filter cond_complete cs))"

definition getTierCacheMode :: "tier \<Rightarrow> cache_mode" where
  "getTierCacheMode t =
     (case cache_mode_of t of
        Some m \<Rightarrow> m
      | None \<Rightarrow>
          if (case extra_cost t ''cache_create_1h_unit_cost'' of Some x \<Rightarrow> js_less (Fin 0) x | None \<Rightarrow> False)
          then CACHE_MODE_TIMED else CACHE_MODE_GENERIC)"

definition normalizeVisualTier :: "tier \<Rightarrow> tier" where
  "normalizeVisualTier t = t\<lparr>cache_mode_of := Some (getTierCacheMode t)\<rparr>"

definition createDefaultVisualConfig :: "tier list" where
  "createDefaultVisualConfig =
     [normalizeVisualTier
        \<lparr>t_conditions = [], input_unit_cost = Fin 0, output_unit_cost = Fin 0, extra_cost = Map.empty,
         t_label = ''base'', cache_mode_of = Some CACHE_MODE_GENERIC\<rparr>]"

text \<open>A configuration is its list of tiers; \<open>None\<close> is \<open>null\<close>.\<close>

definition normalizeVisualConfig :: "tier list option \<Rightarrow> tier list" where
  "normalizeVisualConfig c =
     (case c of
        None \<Rightarrow> createDefaultVisualConfig
      | Some ts \<Rightarrow> if ts = [] then createDefaultVisualConfig else map normalizeVisualTier ts)"

section \<open>Generating the expression\<close>

definition priced_text :: "string \<Rightarrow> jsnum \<Rightarrow> string" where
  "priced_text v x = v @ '' * '' @ text_of_number x"

definition buildTierBodyExpr :: "tier \<Rightarrow> string" where
  "buildTierBodyExpr t =
     join '' + ''
       (priced_text ''p'' (or_zero (input_unit_cost t)) # priced_text ''c'' (or_zero (output_unit_cost t))
        # map (\<lambda>(f, v). priced_text v (extra_number t f))
            (filter (\<lambda>(f, v). extra_number t f \<noteq> Fin 0) BILLING_CACHE_VAR_MAP))"

definition tier_text :: "string \<Rightarrow> tier \<Rightarrow> string" where
  "tier_text label t = ''tier('' @ json_quote label @ '', '' @ buildTierBodyExpr t @ '')''"

definition or_label :: "string \<Rightarrow> string \<Rightarrow> string" where
  "or_label l d = (if l = [] then d else l)"

definition EMPTY_EXPR :: string where "EMPTY_EXPR = ''p * 0 + c * 0''"

text \<open>The parts of several tiers, the first of them with index \<open>i\<close>; \<open>None\<close> when a tier before the
  last has no complete condition.\<close>

fun tier_parts :: "(nat \<Rightarrow> string) \<Rightarrow> nat \<Rightarrow> tier list \<Rightarrow> string list option" where
  "tier_parts tierName i [] = Some []"
| "tier_parts tierName i [t] = Some [tier_text (or_label (t_label t) (tierName (i + 1))) t]"
| "tier_parts tierName i (t # u # ts) =
     (if buildConditionStr (t_conditions t) = [] then None
      else map_option (\<lambda>ps. (buildConditionStr (t_conditions t) @ '' ? ''
                              @ tier_text (or_label (t_label t) (tierName (i + 1))) t) # ps)
             (tier_parts tierName (i + 1) (u # ts)))"

definition generateExprFromVisualConfig :: "(nat \<Rightarrow> string) \<Rightarrow> tier list option \<Rightarrow> string option" where
  "generateExprFromVisualConfig tierName c =
     (case c of
        None \<Rightarrow> Some EMPTY_EXPR
      | Some [] \<Rightarrow> Some EMPTY_EXPR
      | Some [t] \<Rightarrow>
          (let body = tier_text (or_label (t_label t) ''default'') t;
               cond = buildConditionStr (t_conditions t)
           in Some (if cond \<noteq> [] then cond @ '' ? '' @ body @ '' : '' @ EMPTY_EXPR else body))
      | Some ts \<Rightarrow> map_option (join '' : '') (tier_parts tierName 0 ts))"

section \<open>Reading an expression back\<close>

text \<open>\<^verbatim>\<open>[\d.eE+]\<close>, the class of the numbers in conditions.\<close>

definition cond_class :: "char \<Rightarrow> bool" where
  "cond_class c \<longleftrightarrow> is_digit c \<or> c \<in> set ''.eE+''"

text \<open>\<^verbatim>\<open>v\s*\*\s*([\d.eE+-]+)\<close>, and the same behind a \<^verbatim>\<open>\s*\+\s*\<close>.\<close>

definition rx_priced :: "string \<Rightarrow> string \<Rightarrow> (string \<times> string) list" where
  "rx_priced v s = concat (map (rx_plus num_class) (skips [rx_lit v, rx_ws, rx_lit ''*'', rx_ws] s))"

definition rx_group :: "string \<Rightarrow> string \<Rightarrow> (string \<times> string) list" where
  "rx_group v s = concat (map (rx_priced v) (skips [rx_ws, rx_lit ''+'', rx_ws] s))"

text \<open>The optional groups, in their order.\<close>

fun rx_opts :: "string list \<Rightarrow> string \<Rightarrow> (string option list \<times> string) list" where
  "rx_opts [] s = [([], s)]"
| "rx_opts (v # vs) s =
     concat (map (\<lambda>(n, r). map (\<lambda>(xs, q). (Some n # xs, q)) (rx_opts vs r)) (rx_group v s))
     @ map (\<lambda>(xs, q). (None # xs, q)) (rx_opts vs s)"

definition rx_body :: "string \<Rightarrow> ((string \<times> string \<times> string option list) \<times> string) list" where
  "rx_body s =
     concat (map (\<lambda>(x, r1).
       concat (map (\<lambda>(y, r2).
         map (\<lambda>(zs, r3). ((x, y, zs), r3)) (rx_opts (map snd BILLING_CACHE_VAR_MAP) r2))
         (rx_group ''c'' r1)))
       (rx_priced ''p'' s))"

text \<open>\<^verbatim>\<open>tier\("((?:[^"\\]|\\.)*)",\s*body\)\<close>\<close>

definition rx_close :: "('a \<times> string) list \<Rightarrow> ('a \<times> string) list" where
  "rx_close ms = concat (map (\<lambda>(x, r). map (\<lambda>q. (x, q)) (rx_lit '')'' r)) ms)"

type_synonym tier_match = "string \<times> string \<times> string \<times> string option list"

definition rx_tier :: "string \<Rightarrow> (tier_match \<times> string) list" where
  "rx_tier s =
     concat (map (\<lambda>r.
       concat (map (\<lambda>(l, r1).
         concat (map (\<lambda>r2. map (\<lambda>(b, q). ((l, b), q)) (rx_close (rx_body r2)))
           (skips [rx_lit [CHR 0x22, CHR '',''], rx_ws] r1)))
         (rx_chars r)))
       (rx_lit (''tier('' @ [CHR 0x22]) s))"

text \<open>\<open>condGroup\<close>: comparisons joined by \<^verbatim>\<open>&&\<close>.\<close>

definition COND_VARS :: "string list" where "COND_VARS = [''p'', ''c'', ''len'']"

definition rx_cond :: "string \<Rightarrow> string list" where
  "rx_cond = skips [rx_alt COND_VARS, rx_ws, rx_alt OPS, rx_ws, \<lambda>s. map snd (rx_plus cond_class s)]"

definition rx_and :: "string \<Rightarrow> string list" where
  "rx_and = skips [rx_ws, rx_lit ''&&'', rx_ws]"

definition cond_round :: "string \<Rightarrow> string list" where
  "cond_round s = concat (map rx_cond (rx_and s))"

definition rx_conds :: "string \<Rightarrow> string list" where
  "rx_conds s = concat (map (rx_rounds cond_round) (rx_cond s))"

text \<open>The guard of a tier, \<^verbatim>\<open>(?:condGroup\s*\?\s*)?\<close>, with the text of the conditions.\<close>

definition rx_guard :: "string \<Rightarrow> (string \<times> string) list" where
  "rx_guard s =
     concat (map (\<lambda>r. map (\<lambda>q. (take (length s - length r) s, q)) (skips [rx_ws, rx_lit ''?'', rx_ws] r))
       (rx_conds s))
     @ [([], s)]"

definition rx_tier_re :: "string \<Rightarrow> ((string \<times> tier_match) \<times> string) list" where
  "rx_tier_re s = concat (map (\<lambda>(g, r). map (\<lambda>(t, q). ((g, t), q)) (rx_tier r)) (rx_guard s))"

text \<open>\<^verbatim>\<open>^v\d+:([\s\S]*)$\<close>\<close>

definition strip_version :: "string \<Rightarrow> string" where
  "strip_version s =
     (case s of
        c # r \<Rightarrow>
          if c = CHR ''v'' \<and> takeWhile is_digit r \<noteq> []
          then (case dropWhile is_digit r of
                  d # q \<Rightarrow> if d = CHR '':'' then q else s
                | [] \<Rightarrow> s)
          else s
      | [] \<Rightarrow> s)"

text \<open>One condition of a guard: \<^verbatim>\<open>^(p|c|len)\s*(<|<=|>|>=)\s*([\d.eE+]+)$\<close> on the trimmed part.\<close>

definition rx_comparison :: "string \<Rightarrow> (string \<times> string \<times> string) list" where
  "rx_comparison s =
     concat (map (\<lambda>v. concat (map (\<lambda>r.
       concat (map (\<lambda>r1. concat (map (\<lambda>op. concat (map (\<lambda>r2.
         concat (map (\<lambda>r3. map (\<lambda>(n, q). (v, op, n)) (filter (\<lambda>(n, q). q = []) (rx_plus cond_class r3)))
           (rx_ws r2))) (rx_lit op r1))) OPS))
         (rx_ws r))) (rx_lit v s))) COND_VARS)"

definition parse_comparison :: "string \<Rightarrow> tier_cond option" where
  "parse_comparison part =
     (case rx_comparison (js_trim part) of
        [] \<Rightarrow> None
      | (v, op, n) # _ \<Rightarrow> Some \<lparr>tc_var = v, tc_op = op, tc_value = JNum (number_of_text n)\<rparr>)"

definition parse_guard :: "string \<Rightarrow> tier_cond list" where
  "parse_guard g = (if g = [] then [] else List.map_filter parse_comparison (rx_split rx_and g))"

text \<open>\<open>tier[cv.field] = Number(val)\<close> for the groups that took part in the match.\<close>

fun set_extras :: "(string \<times> string) list \<Rightarrow> string option list \<Rightarrow> (string \<rightharpoonup> jsnum) \<Rightarrow> (string \<rightharpoonup> jsnum)" where
  "set_extras ((f, v) # fvs) (Some n # ns) m = set_extras fvs ns (m(f \<mapsto> number_of_text n))"
| "set_extras ((f, v) # fvs) (None # ns) m = set_extras fvs ns m"
| "set_extras _ _ m = m"

text \<open>The tier of a match; \<open>None\<close> when \<open>JSON.parse\<close> of the label throws.\<close>

definition tier_of_match :: "string \<times> tier_match \<Rightarrow> tier option" where
  "tier_of_match gm =
     (case gm of (g, l, x, y, zs) \<Rightarrow>
        (case json_parse (CHR 0x22 # l @ [CHR 0x22]) of
           Inr (JStr label) \<Rightarrow>
             Some (normalizeVisualTier
               \<lparr>t_conditions = parse_guard g, input_unit_cost = number_of_text x,
                output_unit_cost = number_of_text y,
                extra_cost = set_extras BILLING_CACHE_VAR_MAP zs Map.empty, t_label = label,
                cache_mode_of = None\<rparr>)
         | _ \<Rightarrow> None))"

fun tiers_of_matches :: "(string \<times> tier_match) list \<Rightarrow> tier list option" where
  "tiers_of_matches [] = Some []"
| "tiers_of_matches (m # ms) =
     (case tier_of_match m of
        None \<Rightarrow> None
      | Some t \<Rightarrow> map_option (\<lambda>ts. t # ts) (tiers_of_matches ms))"

definition without_spaces :: "string \<Rightarrow> string" where
  "without_spaces s = filter (\<lambda>c. \<not> js_space c) s"

definition tryParseVisualConfig :: "(nat \<Rightarrow> string) \<Rightarrow> string \<Rightarrow> tier list option" where
  "tryParseVisualConfig tierName expr0 =
     (if expr0 = [] then None
      else
        let expr = strip_version expr0
        in case find (\<lambda>(m, r). r = []) (rx_tier expr) of
             Some (m, _) \<Rightarrow>
               (case tier_of_match ([], m) of
                  None \<Rightarrow> None
                | Some t \<Rightarrow> Some (normalizeVisualConfig (Some [t])))
           | None \<Rightarrow>
               (case tiers_of_matches (rx_all rx_tier_re expr) of
                  None \<Rightarrow> None
                | Some [] \<Rightarrow> None
                | Some ts \<Rightarrow>
                    let cfg = normalizeVisualConfig (Some ts)
                    in (case generateExprFromVisualConfig tierName (Some cfg) of
                          None \<Rightarrow> None
                        | Some regenerated \<Rightarrow>
                            if regenerated = [] then None
                            else if without_spaces regenerated \<noteq> without_spaces expr then None
                            else Some cfg)))"

end
