(* ===== verification/TieredRoundtrip.thy ===== *)
theory TieredRoundtrip
  imports TieredConfig RequestRulesProps
begin

text \<open>
  The parser of tiered expressions reads back what the generator writes, and what it accepts
  from several tiers is what the generator would write for its result.
\<close>

section \<open>Numbers and the groups behind them\<close>

text \<open>A text the parser reads as one number: it cannot be cut before a plus.\<close>

definition whole_number :: "string \<Rightarrow> bool" where
  "whole_number n \<longleftrightarrow> n \<noteq> [] \<and> list_all num_class n \<and> last n \<noteq> CHR ''+''"

definition stops :: "(char \<Rightarrow> bool) \<Rightarrow> string \<Rightarrow> bool" where
  "stops P r \<longleftrightarrow> r = [] \<or> \<not> P (hd r)"

lemma stops_Cons [simp]: "stops P (c # r) \<longleftrightarrow> \<not> P c"
  by (simp add: stops_def)

lemma stops_Nil [simp]: "stops P []"
  by (simp add: stops_def)

lemma num_class_not_space: "num_class c \<Longrightarrow> \<not> js_space c"
  by (auto simp: num_class_def is_digit_def js_space_def)

lemma not_num_class [simp]:
  "\<not> num_class CHR '' ''" "\<not> num_class CHR '')''" "\<not> num_class CHR ''p''" "\<not> num_class CHR ''c''"
  "\<not> num_class CHR ''i''" "\<not> num_class CHR ''a''" "\<not> num_class CHR '':''"
  by (simp_all add: num_class_def is_digit_def)

lemma var_plain [simp]:
  "\<not> js_space CHR ''p''" "\<not> js_space CHR ''c''" "\<not> js_space CHR ''i''" "\<not> js_space CHR ''a''"
  "\<not> js_space CHR ''+''" "\<not> js_space CHR ''*''" "\<not> js_space CHR '')''" "\<not> js_space CHR ''?''"
  "\<not> js_space CHR ''&''" "\<not> js_space CHR ''<''" "\<not> js_space CHR ''>''" "\<not> js_space CHR ''=''"
  "\<not> js_space CHR ''t''" "\<not> js_space CHR ''l''" "\<not> js_space CHR '':''"
  by (simp_all add: js_space_def)

lemma skips_fail: "f s = [] \<Longrightarrow> skips (f # fs) s = []"
  by simp

text \<open>Behind a number that was cut short no group and no closing parenthesis follows.\<close>

definition cut_rest :: "string \<Rightarrow> bool" where
  "cut_rest s \<longleftrightarrow> (\<exists>z r. s = z @ r \<and> z \<noteq> [] \<and> list_all num_class z \<and> last z \<noteq> CHR ''+'')"

lemma cut_restI: "whole_number (y @ z) \<Longrightarrow> z \<noteq> [] \<Longrightarrow> cut_rest (z @ r)"
  unfolding cut_rest_def whole_number_def by auto

lemma cut_no_group:
  assumes "cut_rest s" and "v \<noteq> []" and "\<not> num_class (hd v)"
  shows "rx_group v s = []"
proof -
  obtain z r where s: "s = z @ r" and z: "z \<noteq> []" "list_all num_class z" "last z \<noteq> CHR ''+''"
    using assms(1) by (auto simp: cut_rest_def)
  obtain d z' where zd: "z = d # z'" using z(1) by (cases z) auto
  obtain w v' where v: "v = w # v'" using assms(2) by (cases v) auto
  have d: "\<not> js_space d" using z(2) num_class_not_space by (simp add: zd)
  show ?thesis
  proof (cases "d = CHR ''+''")
    case True
    with z(3) zd obtain e z'' where z': "z' = e # z''" by (cases z') auto
    with z(2) zd have "num_class e" by simp
    with num_class_not_space assms(3) v True show ?thesis
      by (auto simp: rx_group_def rx_priced_def s zd z' v)
  next
    case False
    with d show ?thesis by (simp add: rx_group_def s zd)
  qed
qed

lemma cut_no_close: "cut_rest s \<Longrightarrow> rx_lit '')'' s = []"
proof -
  assume "cut_rest s"
  then obtain z r where s: "s = z @ r" "z \<noteq> []" "list_all num_class z" by (auto simp: cut_rest_def)
  then obtain d z' where "z = d # z'" "num_class d" by (cases z) auto
  with s show ?thesis by auto
qed

section \<open>The optional groups\<close>

lemma rx_close_append [simp]: "rx_close (xs @ ys) = rx_close xs @ rx_close ys"
  by (simp add: rx_close_def)

lemma rx_close_map: "rx_close (map (\<lambda>(x, q). (f x, q)) xs) = map (\<lambda>(x, q). (f x, q)) (rx_close xs)"
  by (simp add: rx_close_def map_concat comp_def split_def)

lemma rx_close_concat: "rx_close (concat (map f xs)) = concat (map (\<lambda>x. rx_close (f x)) xs)"
  by (induction xs) (auto simp: rx_close_def)

lemma opts_fail:
  assumes "\<forall>v \<in> set vs. rx_group v s = []" and "rx_lit '')'' s = []"
  shows "rx_close (rx_opts vs s) = []"
  using assms
proof (induction vs)
  case Nil
  then show ?case by (simp add: rx_close_def)
next
  case (Cons v vs)
  then show ?case by (simp add: rx_close_map)
qed

lemma cut_no_opts:
  assumes "cut_rest s" and "\<forall>v \<in> set vs. v \<noteq> [] \<and> \<not> num_class (hd v)"
  shows "rx_close (rx_opts vs s) = []"
  using assms cut_no_close by (intro opts_fail) (auto intro: cut_no_group)

lemma priced_commit:
  assumes n: "whole_number n" and r: "stops num_class r"
    and k: "\<And>y s. cut_rest s \<Longrightarrow> k (y, s) = []"
    and v: "v \<noteq> []"
  shows "concat (map k (rx_priced v (v @ '' * '' @ n @ r))) = k (n, r)"
proof -
  obtain d n' where nd: "n = d # n'" "num_class d"
    using n by (cases n) (auto simp: whole_number_def)
  then have "\<not> js_space d" using num_class_not_space by blast
  then have "skips [rx_lit v, rx_ws, rx_lit ''*'', rx_ws] (v @ '' * '' @ n @ r) = [n @ r, '' '' @ n @ r]"
    by (simp add: nd rx_ws_Cons)
  then have e: "rx_priced v (v @ '' * '' @ n @ r) = rx_plus num_class (n @ r)"
    by (simp add: rx_priced_def rx_plus_def)
  show ?thesis
    unfolding e
  proof (rule plus_commit)
    show "list_all num_class n" and "n \<noteq> []" using n by (simp_all add: whole_number_def)
    show "r = [] \<or> \<not> num_class (hd r)" using r by (simp add: stops_def)
    show "k (y, z @ r) = []" if "n = y @ z" "z \<noteq> []" for y z
      using n that by (intro k cut_restI) auto
  qed
qed

lemma group_step:
  assumes "v \<noteq> []" and "\<not> js_space (hd v)" and "w \<noteq> []" and "\<not> js_space (hd w)"
  shows "rx_group v ('' + '' @ w @ s) = rx_priced v (w @ s)"
proof -
  obtain d v' where v: "v = d # v'" using assms(1) by (cases v) auto
  obtain e w' where w: "w = e # w'" using assms(3) by (cases w) auto
  have "rx_priced v (CHR '' '' # w @ s) = []"
    using assms(2) by (auto simp: rx_priced_def v)
  with assms(4) show ?thesis by (simp add: rx_group_def rx_ws_Cons w)
qed

text \<open>The text of the groups that are present.\<close>

definition opts_text :: "(string \<times> string option) list \<Rightarrow> string" where
  "opts_text ps =
     concat (map (\<lambda>(v, x). case x of None \<Rightarrow> [] | Some n \<Rightarrow> '' + '' @ v @ '' * '' @ n) ps)"

definition EXTRA_KEYS :: "string list" where
  "EXTRA_KEYS = [''cr'', ''cc'', ''cc1h'', ''img'', ''img_o'', ''ai'', ''ao'']"

lemma extra_keys: "map snd BILLING_CACHE_VAR_MAP = EXTRA_KEYS"
  by code_simp

lemma extra_plain: "v \<in> set EXTRA_KEYS \<Longrightarrow> v \<noteq> [] \<and> \<not> num_class (hd v) \<and> \<not> js_space (hd v)"
  by (auto simp: EXTRA_KEYS_def)

text \<open>No key is taken for another one, although \<open>cc\<close> starts \<open>cc1h\<close> and \<open>img\<close> starts \<open>img_o\<close>.\<close>

lemma other_priced:
  assumes "v \<in> set EXTRA_KEYS" "w \<in> set EXTRA_KEYS" "v \<noteq> w"
  shows "rx_priced v (w @ '' * '' @ s) = []"
  using assms unfolding EXTRA_KEYS_def list.set insert_iff empty_iff
  by (elim disjE) (simp_all add: rx_priced_def js_space_def)

lemma other_group:
  assumes "v \<in> set EXTRA_KEYS" "w \<in> set EXTRA_KEYS" "v \<noteq> w"
  shows "rx_group v ('' + '' @ w @ '' * '' @ s) = []"
proof -
  have "rx_group v ('' + '' @ w @ '' * '' @ s) = rx_priced v (w @ '' * '' @ s)"
    using extra_plain [OF assms(1)] extra_plain [OF assms(2)] by (intro group_step) simp_all
  with other_priced [OF assms] show ?thesis by (simp only:)
qed

lemma opts_text_start:
  "opts_text ps = [] \<or> (\<exists>v s. v \<in> fst ` set ps \<and> opts_text ps = '' + '' @ v @ '' * '' @ s)"
proof (induction ps)
  case Nil
  then show ?case by (simp add: opts_text_def)
next
  case (Cons p ps)
  show ?case
  proof (cases "snd p")
    case None
    then have "opts_text (p # ps) = opts_text ps" by (simp add: opts_text_def split_def)
    with Cons show ?thesis by auto
  next
    case (Some n)
    then have "opts_text (p # ps) = '' + '' @ fst p @ '' * '' @ (n @ opts_text ps)"
      by (simp add: opts_text_def split_def)
    then show ?thesis by (intro disjI2 exI conjI) (simp_all only:, simp)
  qed
qed

lemma opts_match:
  assumes "set (map fst ps) \<subseteq> set EXTRA_KEYS" and "distinct (map fst ps)"
    and "\<forall>(v, x) \<in> set ps. case x of None \<Rightarrow> True | Some n \<Rightarrow> whole_number n"
  shows "rx_close (rx_opts (map fst ps) (opts_text ps @ '')'' @ r)) = [(map snd ps, r)]"
  using assms
proof (induction ps)
  case Nil
  then show ?case by (simp add: opts_text_def rx_close_def)
next
  case (Cons p ps)
  obtain v x where p: "p = (v, x)" by fastforce
  let ?rest = "opts_text ps @ '')'' @ r"
  have v: "v \<in> set EXTRA_KEYS" and others: "w \<in> fst ` set ps \<Longrightarrow> w \<in> set EXTRA_KEYS \<and> v \<noteq> w" for w
    using Cons.prems by (auto simp: p)
  note vp = extra_plain [OF v]
  have IH: "rx_close (rx_opts (map fst ps) ?rest) = [(map snd ps, r)]"
    using Cons by simp
  show ?case
  proof (cases x)
    case None
    have "rx_group v ?rest = []"
    proof (cases "opts_text ps = []")
      case True
      then show ?thesis by (simp add: rx_group_def)
    next
      case False
      with opts_text_start [of ps] obtain w s where w: "w \<in> fst ` set ps"
        and s: "opts_text ps = '' + '' @ w @ '' * '' @ s" by blast
      from others [OF w] show ?thesis
        using other_group [OF v, of w "s @ '')'' @ r"] unfolding s by simp
    qed
    with IH None show ?thesis by (simp add: p opts_text_def rx_close_map)
  next
    case (Some n)
    let ?s = "'' + '' @ v @ '' * '' @ n @ ?rest"
    have n: "whole_number n" using Cons.prems(3) by (simp add: p Some)
    have r: "stops num_class ?rest"
      using opts_text_start [of ps] by auto
    have none: "rx_close (rx_opts (map fst ps) ?s) = []"
    proof (rule opts_fail)
      show "\<forall>w \<in> set (map fst ps). rx_group w ?s = []"
        using others other_group [OF _ v, of _ "n @ ?rest"] by fastforce
    qed simp
    have some: "concat (map (\<lambda>x. rx_close (case x of (n, q) \<Rightarrow>
            map (\<lambda>(xs, q). (Some n # xs, q)) (rx_opts (map fst ps) q))) (rx_group v ?s))
          = [(Some n # map snd ps, r)]"
    proof -
      have "\<forall>w \<in> set (map fst ps). w \<noteq> [] \<and> \<not> num_class (hd w)"
        using others extra_plain by simp
      then have dead: "cut_rest q \<Longrightarrow> rx_close (rx_opts (map fst ps) q) = []" for q
        by (rule cut_no_opts [rotated])
      have "rx_group v ?s = rx_priced v (v @ '' * '' @ n @ ?rest)"
        using vp by (intro group_step) simp_all
      then show ?thesis
        using vp dead IH
        by (simp only:) (subst priced_commit [OF n r], simp_all add: rx_close_map)
    qed
    have "opts_text (p # ps) @ '')'' @ r = ?s" by (simp add: p Some opts_text_def)
    then show ?thesis
      using some none by (simp only: p Some fst_conv snd_conv list.map rx_opts.simps rx_close_append
          rx_close_concat rx_close_map) simp
  qed
qed

section \<open>The body of a tier\<close>

definition body_text :: "string \<Rightarrow> string \<Rightarrow> (string \<times> string option) list \<Rightarrow> string" where
  "body_text x y ps = ''p'' @ '' * '' @ x @ '' + '' @ ''c'' @ '' * '' @ y @ opts_text ps"

definition extras_ok :: "(string \<times> string option) list \<Rightarrow> bool" where
  "extras_ok ps \<longleftrightarrow>
     map fst ps = EXTRA_KEYS
     \<and> list_all (\<lambda>(v, x). case x of None \<Rightarrow> True | Some n \<Rightarrow> whole_number n) ps"

lemma body_match:
  assumes x: "whole_number x" and y: "whole_number y" and ps: "extras_ok ps"
  shows "rx_close (rx_body (body_text x y ps @ '')'' @ r)) = [((x, y, map snd ps), r)]"
proof -
  let ?rest = "opts_text ps @ '')'' @ r"
  let ?tail = "'' + '' @ ''c'' @ '' * '' @ y @ ?rest"
  let ?k2 = "\<lambda>x a. rx_close (case a of (y, r2) \<Rightarrow> map (\<lambda>(zs, r3). ((x, y, zs), r3)) (rx_opts EXTRA_KEYS r2))"
  let ?k1 = "\<lambda>a. rx_close (case a of (x, r1) \<Rightarrow>
      concat (map (\<lambda>(y, r2). map (\<lambda>(zs, r3). ((x, y, zs), r3)) (rx_opts EXTRA_KEYS r2)) (rx_group ''c'' r1)))"
  have keys: "map fst ps = EXTRA_KEYS" using ps by (simp add: extras_ok_def)
  have o: "rx_close (rx_opts EXTRA_KEYS ?rest) = [(map snd ps, r)]"
    using opts_match [of ps r] ps by (simp add: extras_ok_def keys list_all_iff) (simp add: EXTRA_KEYS_def)
  have dead: "cut_rest q \<Longrightarrow> rx_close (rx_opts EXTRA_KEYS q) = []" for q
    using extra_plain by (intro cut_no_opts) auto
  have stop: "stops num_class ?rest" using opts_text_start [of ps] by auto
  have g: "rx_group ''c'' ?tail = rx_priced ''c'' (''c'' @ '' * '' @ y @ ?rest)"
    by (rule group_step) simp_all
  have "concat (map (?k2 x) (rx_group ''c'' ?tail)) = ?k2 x (y, ?rest)"
    unfolding g using dead by (subst priced_commit [OF y stop]) (simp_all add: rx_close_map)
  then have t: "?k1 (x, ?tail) = [((x, y, map snd ps), r)]"
    using o by (simp add: rx_close_concat rx_close_map)
  have "rx_close (rx_body (body_text x y ps @ '')'' @ r))
      = concat (map ?k1 (rx_priced ''p'' (''p'' @ '' * '' @ x @ ?tail)))"
    unfolding rx_body_def extra_keys rx_close_concat body_text_def append_assoc ..
  also have "\<dots> = ?k1 (x, ?tail)"
    by (subst priced_commit [OF x]) (simp_all add: cut_no_group rx_close_def)
  also note t
  finally show ?thesis .
qed

section \<open>The label\<close>

definition at_quote :: "string \<times> string \<Rightarrow> bool" where
  "at_quote m \<longleftrightarrow> (case snd m of c # _ \<Rightarrow> c = CHR 0x22 | [] \<Rightarrow> False)"

lemma at_quote_Pair [simp]: "at_quote (t, c # r) \<longleftrightarrow> c = CHR 0x22" "\<not> at_quote (t, [])"
  by (simp_all add: at_quote_def)

lemma filter_at_quote_map:
  "filter at_quote (map (\<lambda>(t, r). (f t, r)) ms) = map (\<lambda>(t, r). (f t, r)) (filter at_quote ms)"
  by (induction ms) (auto simp: at_quote_def)

lemma rx_chars_escape:
  "filter at_quote (rx_chars (json_escape c @ s))
    = map (\<lambda>(t, r). (json_escape c @ t, r)) (filter at_quote (rx_chars s))"
proof (cases "c \<in> set [CHR 0x22, CHR 0x5C, CHR 0x08, CHR 0x0C, CHR 0x0A, CHR 0x0D, CHR 0x09]")
  case True
  then show ?thesis by (auto simp: json_escape_def filter_at_quote_map)
next
  case False
  show ?thesis
  proof (cases "(of_char c :: nat) < 32")
    case True
    let ?n = "of_char c :: nat"
    have "\<forall>k \<in> set [0..<16]. hex_digit k \<noteq> CHR 0x22 \<and> hex_digit k \<noteq> CHR 0x5C" by code_simp
    moreover have "?n div 16 < 16" "?n mod 16 < 16" using True by auto
    ultimately have "hex_digit (?n div 16) \<noteq> CHR 0x22" "hex_digit (?n div 16) \<noteq> CHR 0x5C"
      "hex_digit (?n mod 16) \<noteq> CHR 0x22" "hex_digit (?n mod 16) \<noteq> CHR 0x5C" by simp_all
    with False True show ?thesis
      using filter_at_quote_map [of "\<lambda>t. json_escape c @ t" "rx_chars s"]
      by (simp add: json_escape_def comp_def split_def)
  next
    case big: False
    with False show ?thesis by (simp add: json_escape_def filter_at_quote_map)
  qed
qed

lemma rx_chars_body:
  "filter at_quote (rx_chars (json_body l @ CHR 0x22 # r)) = [(json_body l, CHR 0x22 # r)]"
  by (induction l) (simp_all add: json_body_def rx_chars_escape del: rx_chars.simps(2), simp)

lemma concat_map_only:
  assumes "\<And>m. m \<in> set ms \<Longrightarrow> \<not> P m \<Longrightarrow> k m = []"
  shows "concat (map k ms) = concat (map k (filter P ms))"
  using assms by (induction ms) auto

text \<open>A whole tier is matched in exactly one way.\<close>

definition tier_call :: "string \<Rightarrow> string \<Rightarrow> string \<Rightarrow> (string \<times> string option) list \<Rightarrow> string" where
  "tier_call l x y ps = ''tier('' @ json_quote l @ '', '' @ body_text x y ps @ '')''"

lemma tier_match:
  assumes "whole_number x" and "whole_number y" and "extras_ok ps"
  shows "rx_tier (tier_call l x y ps @ r) = [((json_body l, x, y, map snd ps), r)]"
proof -
  let ?body = "body_text x y ps @ '')'' @ r"
  let ?k = "\<lambda>(l, r1). concat (map (\<lambda>r2. map (\<lambda>(b, q). ((l, b), q)) (rx_close (rx_body r2)))
           (skips [rx_lit [CHR 0x22, CHR '',''], rx_ws] r1))"
  have only: "k \<noteq> [] \<Longrightarrow> at_quote m" if "k = ?k m" for k m
    using that by (cases "snd m") (auto simp: at_quote_def split_def)
  have "rx_body (CHR '' '' # s) = []" for s
    by (simp add: rx_body_def rx_priced_def)
  moreover have "\<exists>s. body_text x y ps @ '')'' @ r = CHR ''p'' # s"
    by (simp add: body_text_def)
  ultimately have k: "?k (l', CHR 0x22 # CHR '','' # CHR '' '' # ?body)
      = map (\<lambda>(b, q). ((l', b), q)) (rx_close (rx_body ?body))" for l'
    by (auto simp: rx_ws_Cons rx_close_def)
  have "rx_tier (tier_call l x y ps @ r)
      = concat (map ?k (rx_chars (json_body l @ CHR 0x22 # CHR '','' # CHR '' '' # ?body)))"
    by (simp add: rx_tier_def tier_call_def json_quote_def)
  also have "\<dots> = ?k (json_body l, CHR 0x22 # CHR '','' # CHR '' '' # ?body)"
    using only by (subst concat_map_only [of _ at_quote]) (auto simp: rx_chars_body)
  also have "\<dots> = [((json_body l, x, y, map snd ps), r)]"
    unfolding k body_match [OF assms] by simp
  finally show ?thesis .
qed

section \<open>Guards\<close>

definition cond_number :: "string \<Rightarrow> bool" where
  "cond_number n \<longleftrightarrow> n \<noteq> [] \<and> list_all cond_class n"

definition cond_line :: "string \<times> string \<times> string \<Rightarrow> string" where
  "cond_line c = (case c of (v, op, n) \<Rightarrow> v @ '' '' @ op @ '' '' @ n)"

definition line_ok :: "string \<times> string \<times> string \<Rightarrow> bool" where
  "line_ok c \<longleftrightarrow> (case c of (v, op, n) \<Rightarrow> v \<in> set COND_VARS \<and> op \<in> set OPS \<and> cond_number n)"

lemma cond_class_plain:
  "cond_class c \<Longrightarrow> \<not> js_space c \<and> c \<noteq> CHR ''&'' \<and> c \<noteq> CHR ''?'' \<and> c \<noteq> CHR ''='' \<and> c \<noteq> CHR '' ''"
  by (auto simp: cond_class_def is_digit_def js_space_def)

lemma not_cond_class [simp]: "\<not> cond_class CHR '' ''" "\<not> cond_class CHR ''=''"
  by (simp_all add: cond_class_def is_digit_def)

lemma skips_last: "concat (map (skips [] \<circ> f) xs) = map f xs"
  by (induction xs) auto

lemma rx_plus_fail: "\<not> P c \<Longrightarrow> rx_plus P (c # s) = []"
  by (simp add: rx_plus_def)

lemma rx_cond_line:
  assumes "line_ok (v, op, n)"
  shows "rx_cond (cond_line (v, op, n) @ r) = map snd (rx_plus cond_class (n @ r))"
proof -
  obtain d n' where n: "n = d # n'" "\<not> js_space d"
    using assms cond_class_plain by (cases n) (auto simp: line_ok_def cond_number_def)
  have v: "v = ''p'' \<or> v = ''c'' \<or> v = ''len''"
    and op: "op = ''<'' \<or> op = ''<='' \<or> op = ''>'' \<or> op = ''>=''"
    using assms by (auto simp: line_ok_def COND_VARS_def OPS_def)
  let ?plus = "\<lambda>s. map snd (rx_plus cond_class s)"
  have vars: "rx_alt COND_VARS (v @ '' '' @ t) = ['' '' @ t]" for t
    using v by (auto simp: rx_alt_def COND_VARS_def)
  have ops: "skips [rx_ws, rx_alt OPS, rx_ws, ?plus] ('' '' @ op @ '' '' @ n @ r) = ?plus (n @ r)"
    using op n(2)
    by (elim disjE) (simp_all add: rx_alt_def OPS_def rx_ws_Cons n(1) rx_plus_fail skips_last)
  have "rx_cond (cond_line (v, op, n) @ r)
      = skips (rx_alt COND_VARS # [rx_ws, rx_alt OPS, rx_ws, ?plus]) (v @ '' '' @ op @ '' '' @ n @ r)"
    by (simp add: rx_cond_def cond_line_def)
  then show ?thesis
    unfolding skips.simps(2) [of "rx_alt COND_VARS"] vars
    by (simp only: list.map concat.simps append_Nil2 ops)
qed

lemma rx_cond_commit:
  assumes l: "line_ok l" and r: "stops cond_class r"
    and k: "\<And>z. z \<noteq> [] \<Longrightarrow> list_all cond_class z \<Longrightarrow> k (z @ r) = []"
  shows "concat (map k (rx_cond (cond_line l @ r))) = k r"
proof -
  obtain v op n where vn: "l = (v, op, n)" by (cases l) auto
  have "concat (map k (map snd (rx_plus cond_class (n @ r)))) = (k \<circ> snd) (n, r)"
    unfolding map_map
  proof (rule plus_commit)
    show "list_all cond_class n" "n \<noteq> []" using l by (simp_all add: line_ok_def vn cond_number_def)
    show "r = [] \<or> \<not> cond_class (hd r)" using r by (simp add: stops_def)
    show "(k \<circ> snd) (y, z @ r) = []" if "n = y @ z" "z \<noteq> []" for y z
      using k [OF that(2)] l that(1) by (simp add: line_ok_def vn cond_number_def)
  qed
  with rx_cond_line [of v op n r] l show ?thesis by (simp add: vn)
qed

text \<open>A rest at which no question mark follows.\<close>

definition no_question :: "string \<Rightarrow> bool" where
  "no_question s \<longleftrightarrow> skips [rx_ws, rx_lit ''?''] s = []"

definition and_text :: "(string \<times> string \<times> string) list \<Rightarrow> string" where
  "and_text ls = concat (map (\<lambda>l. '' && '' @ cond_line l) ls)"

lemma rx_and_fail: "cond_class c \<or> c = CHR ''?'' \<Longrightarrow> rx_and (c # s) = []"
  using cond_class_plain [of c] by (auto simp: rx_and_def)

lemma rx_and_question: "rx_and ('' ? '' @ t) = []"
  by (simp add: rx_and_def rx_ws_Cons)

lemma cond_class_rounds:
  assumes "z \<noteq> []" "list_all cond_class z"
  shows "rx_rounds cond_round (z @ r) = [z @ r]" and "no_question (z @ r)"
proof -
  obtain c z' where z: "z = c # z'" "cond_class c" using assms by (cases z) auto
  then show "rx_rounds cond_round (z @ r) = [z @ r]"
    by (subst rx_rounds.simps) (simp add: cond_round_def rx_and_fail)
  show "no_question (z @ r)"
    using cond_class_plain [OF z(2)] by (auto simp: no_question_def z(1))
qed

lemma line_start: "line_ok l \<Longrightarrow> \<exists>c s. cond_line l = c # s \<and> c \<in> set ''pcl''"
  by (auto simp: line_ok_def cond_line_def COND_VARS_def)

lemma rx_cond_start: "c \<notin> set ''pcl'' \<Longrightarrow> rx_cond (c # s) = []"
  by (auto simp: rx_cond_def rx_alt_def COND_VARS_def)

lemma cond_round_line:
  assumes "line_ok l"
  shows "cond_round ('' && '' @ cond_line l @ r) = rx_cond (cond_line l @ r)"
proof -
  obtain c s where c: "cond_line l = c # s" "c \<in> set ''pcl''" using line_start [OF assms] by blast
  then have "\<not> js_space c" by auto
  then have "rx_and ('' && '' @ cond_line l @ r) = [cond_line l @ r, '' '' @ cond_line l @ r]"
    by (simp add: rx_and_def c(1) rx_ws_Cons)
  moreover have "rx_cond ('' '' @ cond_line l @ r) = []" by (simp add: rx_cond_start)
  ultimately show ?thesis by (simp add: cond_round_def del: append_Cons)
qed

lemma concat_map_concat:
  "concat (map K (concat (map g xs))) = concat (map (\<lambda>x. concat (map K (g x))) xs)"
  by (induction xs) auto

lemma guard_rounds:
  assumes "list_all line_ok ls" and K: "\<And>s. no_question s \<Longrightarrow> K s = []"
  shows "concat (map K (rx_rounds cond_round (and_text ls @ '' ? '' @ t))) = K ('' ? '' @ t)"
  using assms(1)
proof (induction ls)
  case Nil
  have "rx_rounds cond_round ('' ? '' @ t) = ['' ? '' @ t]"
    by (subst rx_rounds.simps) (use rx_and_question in \<open>simp add: cond_round_def\<close>)
  then show ?case by (simp add: and_text_def)
next
  case (Cons l ls)
  let ?rest = "and_text ls @ '' ? '' @ t"
  let ?s = "'' && '' @ cond_line l @ ?rest"
  let ?g = "\<lambda>r. if length r < length ?s then rx_rounds cond_round r else []"
  have l: "line_ok l" using Cons.prems by simp
  have s: "and_text (l # ls) @ '' ? '' @ t = ?s" by (simp add: and_text_def)
  have "no_question ?s" by (simp add: no_question_def rx_ws_Cons)
  then have "K ?s = []" by (rule K)
  moreover have "concat (map (\<lambda>r. concat (map K (?g r))) (rx_cond (cond_line l @ ?rest)))
      = concat (map K (?g ?rest))"
  proof (rule rx_cond_commit [OF l])
    show "stops cond_class ?rest" by (cases ls) (simp_all add: and_text_def)
    show "concat (map K (?g (z @ ?rest))) = []" if "z \<noteq> []" "list_all cond_class z" for z
      using cond_class_rounds [OF that] K by simp
  qed
  moreover have "concat (map K (?g ?rest)) = K ('' ? '' @ t)"
    using Cons by simp
  ultimately show ?case
    unfolding s by (subst rx_rounds.simps) (simp only: cond_round_line [OF l] map_append concat_append
        concat_map_concat list.map concat.simps append_Nil2)
qed

text \<open>The guard of a tier: the text of its conditions is captured.\<close>

definition conds_text :: "(string \<times> string \<times> string) list \<Rightarrow> string" where
  "conds_text ls = join '' && '' (map cond_line ls)"

lemma conds_text_Cons: "conds_text (l # ls) = cond_line l @ and_text ls"
proof (induction ls arbitrary: l)
  case Nil
  then show ?case by (simp add: conds_text_def and_text_def)
next
  case (Cons m ls)
  have "conds_text (l # m # ls) = cond_line l @ '' && '' @ conds_text (m # ls)"
    by (simp add: conds_text_def)
  with Cons [of m] show ?case by (simp add: and_text_def)
qed

lemma conds_match:
  assumes "list_all line_ok ls" "ls \<noteq> []" and K: "\<And>s. no_question s \<Longrightarrow> K s = []"
  shows "concat (map K (rx_conds (conds_text ls @ '' ? '' @ t))) = K ('' ? '' @ t)"
proof -
  obtain l ms where ls: "ls = l # ms" using assms(2) by (cases ls) auto
  let ?rest = "and_text ms @ '' ? '' @ t"
  have "concat (map K (rx_conds (conds_text ls @ '' ? '' @ t)))
      = concat (map (\<lambda>r. concat (map K (rx_rounds cond_round r))) (rx_cond (cond_line l @ ?rest)))"
    by (simp only: rx_conds_def ls conds_text_Cons append_assoc concat_map_concat)
  also have "\<dots> = concat (map K (rx_rounds cond_round ?rest))"
  proof (rule rx_cond_commit)
    show "line_ok l" using assms(1) by (simp add: ls)
    show "stops cond_class ?rest" by (cases ms) (simp_all add: and_text_def)
    show "concat (map K (rx_rounds cond_round (z @ ?rest))) = []" if "z \<noteq> []" "list_all cond_class z" for z
      using cond_class_rounds [OF that] K by simp
  qed
  also have "\<dots> = K ('' ? '' @ t)"
    using assms(1) K by (intro guard_rounds) (simp_all add: ls)
  finally show ?thesis .
qed

lemma no_question_skips: "no_question s \<Longrightarrow> skips [rx_ws, rx_lit ''?'', rx_ws] s = []"
  by (auto simp: no_question_def)

lemma guard_match:
  assumes "list_all line_ok ls" "ls \<noteq> []" "\<not> js_space c"
  shows "rx_guard (conds_text ls @ '' ? '' @ c # t)
    = [(conds_text ls, c # t), (conds_text ls, '' '' @ c # t), ([], conds_text ls @ '' ? '' @ c # t)]"
proof -
  let ?s = "conds_text ls @ '' ? '' @ c # t"
  let ?K = "\<lambda>r. map (\<lambda>q. (take (length ?s - length r) ?s, q)) (skips [rx_ws, rx_lit ''?'', rx_ws] r)"
  have "concat (map ?K (rx_conds ?s)) = ?K ('' ? '' @ c # t)"
    using assms no_question_skips by (intro conds_match) simp_all
  also have "\<dots> = [(conds_text ls, c # t), (conds_text ls, '' '' @ c # t)]"
    using assms(3) by (simp add: rx_ws_Cons)
  finally show ?thesis unfolding rx_guard_def by simp
qed

lemma rx_tier_start: "c \<noteq> CHR ''t'' \<Longrightarrow> rx_tier (c # s) = []"
  by (simp add: rx_tier_def)

lemma rx_tier_re_start: "c \<notin> set ''pclt'' \<Longrightarrow> rx_tier_re (c # s) = []"
  by (simp add: rx_tier_re_def rx_guard_def rx_conds_def rx_cond_start rx_tier_start)

text \<open>One tier with its guard, as the scan meets it.\<close>

definition guarded_text :: "(string \<times> string \<times> string) list \<Rightarrow> string \<Rightarrow> string" where
  "guarded_text ls s = (if ls = [] then s else conds_text ls @ '' ? '' @ s)"

lemma tier_re_match:
  assumes "list_all line_ok ls" and "whole_number x" "whole_number y" "extras_ok ps"
  shows "rx_tier_re (guarded_text ls (tier_call l x y ps) @ r)
    = [((conds_text ls, json_body l, x, y, map snd ps), r)]"
proof -
  let ?t = "tier_call l x y ps @ r"
  note m = tier_match [OF assms(2-4), of l r]
  obtain s where s: "?t = CHR ''t'' # s" by (simp add: tier_call_def)
  show ?thesis
  proof (cases "ls = []")
    case True
    with m show ?thesis
      unfolding guarded_text_def rx_tier_re_def rx_guard_def rx_conds_def
      by (simp add: s rx_cond_start conds_text_def)
  next
    case False
    then obtain k ms where "ls = k # ms" by (cases ls) auto
    with assms(1) line_start [of k] obtain c q where "conds_text ls = c # q" "c \<in> set ''pcl''"
      by (auto simp: conds_text_Cons)
    then have "rx_tier (conds_text ls @ '' ? '' @ ?t) = []" "rx_tier ('' '' @ ?t) = []"
      by (auto simp: rx_tier_start)
    with m guard_match [OF assms(1) False, of "CHR ''t''" s] False show ?thesis
      unfolding rx_tier_re_def guarded_text_def by (simp only: s [symmetric] append_assoc if_False) simp
  qed
qed

section \<open>The scan over all tiers\<close>

type_synonym tier_piece = "(string \<times> string \<times> string) list \<times> string \<times> string \<times> string \<times> (string \<times> string option) list"

definition piece_text :: "tier_piece \<Rightarrow> string" where
  "piece_text p = (case p of (ls, l, x, y, ps) \<Rightarrow> guarded_text ls (tier_call l x y ps))"

definition piece_ok :: "tier_piece \<Rightarrow> bool" where
  "piece_ok p \<longleftrightarrow> (case p of (ls, l, x, y, ps) \<Rightarrow>
     list_all line_ok ls \<and> whole_number x \<and> whole_number y \<and> extras_ok ps)"

definition piece_match :: "tier_piece \<Rightarrow> string \<times> tier_match" where
  "piece_match p = (case p of (ls, l, x, y, ps) \<Rightarrow> (conds_text ls, json_body l, x, y, map snd ps))"

lemma piece_re: "piece_ok p \<Longrightarrow> rx_tier_re (piece_text p @ r) = [(piece_match p, r)]"
  by (cases p) (simp add: piece_text_def piece_ok_def piece_match_def tier_re_match)

lemma piece_text_nonempty: "piece_text p \<noteq> []"
  by (cases p) (simp add: piece_text_def guarded_text_def tier_call_def)

lemma rx_all_piece:
  assumes "piece_ok p"
  shows "rx_all rx_tier_re (piece_text p @ r) = piece_match p # rx_all rx_tier_re r"
proof -
  obtain c s where c: "piece_text p = c # s" using piece_text_nonempty by (cases "piece_text p") auto
  with piece_re [OF assms, of r] show ?thesis by simp
qed

lemma rx_all_sep: "rx_all rx_tier_re ('' : '' @ r) = rx_all rx_tier_re r"
  using rx_tier_re_start [of "CHR '' ''"] rx_tier_re_start [of "CHR '':''"] by simp

lemma rx_all_pieces:
  assumes "list_all piece_ok ps" "ps \<noteq> []"
  shows "rx_all rx_tier_re (join '' : '' (map piece_text ps)) = map piece_match ps"
  using assms
proof (induction ps)
  case (Cons p ps)
  show ?case
  proof (cases ps)
    case Nil
    with Cons.prems rx_all_piece [of p "[]"] show ?thesis by simp
  next
    case (Cons q qs)
    have "rx_all rx_tier_re (piece_text p @ '' : '' @ join '' : '' (map piece_text ps))
        = piece_match p # map piece_match ps"
    proof -
      have "rx_all rx_tier_re (join '' : '' (map piece_text ps)) = map piece_match ps"
        using Cons Cons.IH Cons.prems by simp
      with Cons.prems show ?thesis by (subst rx_all_piece) (simp_all only: rx_all_sep list.pred_inject(2))
    qed
    with Cons show ?thesis by simp
  qed
qed simp

section \<open>Reading the conditions of a guard\<close>

definition push_text :: "string \<Rightarrow> string list \<Rightarrow> string list" where
  "push_text x ys = (case ys of [] \<Rightarrow> [x] | y # ys \<Rightarrow> (x @ y) # ys)"

lemma rx_split_nonempty [simp]: "rx_split sep s \<noteq> []"
  by (cases s) (auto simp: rx_split.simps(2) split: list.splits)

lemma push_push: "ys \<noteq> [] \<Longrightarrow> push_text x (push_text y ys) = push_text (x @ y) ys"
  by (cases ys) (simp_all add: push_text_def)

lemma rx_split_push: "sep (c # s) = [] \<Longrightarrow> rx_split sep (c # s) = push_text [c] (rx_split sep s)"
  by (simp add: push_text_def rx_split.simps(2) split: list.splits)

lemma rx_split_class:
  "list_all cond_class n \<Longrightarrow> rx_split rx_and (n @ r) = push_text n (rx_split rx_and r)"
proof (induction n)
  case Nil
  then show ?case by (cases "rx_split rx_and r") (simp_all add: push_text_def)
next
  case (Cons c n)
  have "rx_split rx_and (c # n @ r) = push_text [c] (rx_split rx_and (n @ r))"
    using Cons.prems by (intro rx_split_push) (simp add: rx_and_fail)
  with Cons show ?case by (simp add: push_push)
qed

lemma rx_split_line:
  assumes "line_ok l"
  shows "rx_split rx_and (cond_line l @ r) = push_text (cond_line l) (rx_split rx_and r)"
proof -
  obtain v op n where l: "l = (v, op, n)" by (cases l) auto
  have n: "list_all cond_class n" and ne: "n \<noteq> []" using assms by (auto simp: l line_ok_def cond_number_def)
  obtain d n' where d: "n = d # n'" "cond_class d" using n ne by (cases n) auto
  note dp = cond_class_plain [OF d(2)]
  have v: "v = ''p'' \<or> v = ''c'' \<or> v = ''len''"
    and op: "op = ''<'' \<or> op = ''<='' \<or> op = ''>'' \<or> op = ''>=''"
    using assms by (auto simp: l line_ok_def COND_VARS_def OPS_def)
  have a: "rx_and (c # s) = []" if "\<not> js_space c" "c \<noteq> CHR ''&''" for c s
    using that by (auto simp: rx_and_def)
  have b: "rx_and (CHR '' '' # c # s) = []" if "\<not> js_space c" "c \<noteq> CHR ''&''" for c s
    using that by (auto simp: rx_and_def rx_ws_Cons)
  have t: "rx_split rx_and ('' '' @ n @ r) = push_text ('' '' @ n) (rx_split rx_and r)"
  proof -
    have "rx_split rx_and (CHR '' '' # n @ r) = push_text '' '' (rx_split rx_and (n @ r))"
      using b [of d "n' @ r"] dp by (intro rx_split_push) (simp add: d(1))
    then show ?thesis by (simp add: rx_split_class [OF n] push_push)
  qed
  have o: "rx_split rx_and ('' '' @ op @ '' '' @ n @ r) = push_text ('' '' @ op @ '' '' @ n) (rx_split rx_and r)"
    using op t by (elim disjE) (simp_all add: rx_split_push a b push_push)
  show ?thesis
    using v o unfolding l cond_line_def
    by (elim disjE) (simp_all add: rx_split_push a push_push js_space_def)
qed

lemma rx_split_sep: "line_ok l \<Longrightarrow> rx_split rx_and ('' && '' @ cond_line l @ r)
    = [] # rx_split rx_and (cond_line l @ r)"
proof -
  assume "line_ok l"
  then obtain c s where c: "cond_line l = c # s" "c \<in> set ''pcl''" using line_start by blast
  then have "\<not> js_space c" by auto
  then show ?thesis by (simp add: rx_split.simps(2) rx_and_def c(1) rx_ws_Cons)
qed

lemma rx_split_conds:
  assumes "list_all line_ok ls" "ls \<noteq> []"
  shows "rx_split rx_and (conds_text ls) = map cond_line ls"
proof -
  have "rx_split rx_and (cond_line l @ and_text ls) = cond_line l # map cond_line ls"
    if "line_ok l" "list_all line_ok ls" for l and ls
    using that
  proof (induction ls arbitrary: l)
    case Nil
    then show ?case using rx_split_line [of l "[]"] by (simp add: and_text_def push_text_def)
  next
    case (Cons m ls)
    have "and_text (m # ls) = '' && '' @ cond_line m @ and_text ls" by (simp add: and_text_def)
    with Cons rx_split_sep [of m "and_text ls"] rx_split_line [of l] show ?case
      by (simp add: push_text_def del: append_Cons)
  qed
  with assms show ?thesis by (cases ls) (simp_all add: conds_text_Cons)
qed

lemma filter_swap: "filter P (filter Q xs) = filter Q (filter P xs)"
  by (induction xs) auto

lemma plus_all: "list_all P n \<Longrightarrow> n \<noteq> [] \<Longrightarrow> filter (\<lambda>(m, q). q = []) (rx_plus P n) = [(n, [])]"
proof -
  have "list_all P n \<Longrightarrow> filter (\<lambda>(m, q). q = []) (rx_star P n) = [(n, [])]"
    by (induction n) (simp_all add: filter_map comp_def split_def)
  then show "list_all P n \<Longrightarrow> n \<noteq> [] \<Longrightarrow> filter (\<lambda>(m, q). q = []) (rx_plus P n) = [(n, [])]"
    unfolding rx_plus_def by (subst filter_swap) simp
qed

lemma parse_line:
  assumes "line_ok (v, op, n)"
  shows "parse_comparison (cond_line (v, op, n))
    = Some \<lparr>tc_var = v, tc_op = op, tc_value = JNum (number_of_text n)\<rparr>"
proof -
  have n: "list_all cond_class n" "n \<noteq> []" using assms by (auto simp: line_ok_def cond_number_def)
  then obtain d n' where d: "n = d # n'" "cond_class d" by (cases n) auto
  note dp = cond_class_plain [OF d(2)]
  have v: "v = ''p'' \<or> v = ''c'' \<or> v = ''len''"
    and op: "op = ''<'' \<or> op = ''<='' \<or> op = ''>'' \<or> op = ''>=''"
    using assms by (auto simp: line_ok_def COND_VARS_def OPS_def)
  have "cond_class (last n)" using n by (metis last_in_set list_all_iff)
  then have "\<not> js_space (last (cond_line (v, op, n)))"
    using n(2) cond_class_plain by (simp add: cond_line_def)
  moreover have "\<not> js_space (hd (cond_line (v, op, n)))"
    using v by (auto simp: cond_line_def)
  ultimately have trim: "js_trim (cond_line (v, op, n)) = cond_line (v, op, n)"
    by (intro trim_by_id) (simp add: trimmed_by_def)
  let ?num = "\<lambda>u w r. concat (map (\<lambda>r3. map (\<lambda>(n, q). (u, w, n)) (filter (\<lambda>(n, q). q = []) (rx_plus cond_class r3))) (rx_ws r))"
  let ?ops = "\<lambda>u r. concat (map (\<lambda>r1. concat (map (\<lambda>w. concat (map (?num u w) (rx_lit w r1))) OPS)) (rx_ws r))"
  have "?num u w (CHR '' '' # n) = [(u, w, n)]" for u w
    using dp plus_all [OF n] by (simp add: d(1) rx_ws_Cons rx_plus_fail)
  then have "?ops u ('' '' @ op @ '' '' @ n) = [(u, op, n)]" for u
    using op by (elim disjE) (simp_all add: OPS_def rx_ws_Cons rx_plus_fail)
  then have "rx_comparison (cond_line (v, op, n)) = [(v, op, n)]"
    using v unfolding rx_comparison_def COND_VARS_def cond_line_def by (elim disjE) simp_all
  then show ?thesis by (simp add: parse_comparison_def trim)
qed

lemma parse_conds:
  assumes "list_all line_ok ls"
  shows "parse_guard (conds_text ls)
    = map (\<lambda>(v, op, n). \<lparr>tc_var = v, tc_op = op, tc_value = JNum (number_of_text n)\<rparr>) ls"
proof (cases "ls = []")
  case True
  then show ?thesis by (simp add: parse_guard_def conds_text_def)
next
  case False
  then obtain l ms where "ls = l # ms" by (cases ls) auto
  with assms line_start [of l] have "conds_text ls \<noteq> []" by (auto simp: conds_text_Cons)
  then have "parse_guard (conds_text ls) = List.map_filter parse_comparison (map cond_line ls)"
    by (simp add: parse_guard_def rx_split_conds [OF assms False])
  also have "\<dots> = map (\<lambda>(v, op, n). \<lparr>tc_var = v, tc_op = op, tc_value = JNum (number_of_text n)\<rparr>) ls"
    using assms
  proof (induction ls)
    case (Cons l ls)
    then show ?case by (cases l) (simp add: List.map_filter_simps parse_line)
  qed (simp add: List.map_filter_simps)
  finally show ?thesis .
qed

section \<open>Canonical configurations\<close>

text \<open>
  What the visual editor produces when its fields are filled in: costs and thresholds whose
  decimal text reads back as the number (no sign in a threshold), conditions on the offered
  variables and operators, named tiers, further costs absent rather than zero.
\<close>

definition stable_cost :: "jsnum \<Rightarrow> bool" where
  "stable_cost x \<longleftrightarrow> whole_number (text_of_number x) \<and> number_of_text (text_of_number x) = x"

definition canonical_cond :: "tier_cond \<Rightarrow> bool" where
  "canonical_cond c \<longleftrightarrow>
     tc_var c \<in> set COND_VARS \<and> tc_op c \<in> set OPS
     \<and> (case tc_value c of
          JNum x \<Rightarrow> cond_number (text_of_number x) \<and> number_of_text (text_of_number x) = x
        | _ \<Rightarrow> False)"

definition canonical_extra :: "(string \<rightharpoonup> jsnum) \<Rightarrow> bool" where
  "canonical_extra m \<longleftrightarrow>
     dom m \<subseteq> set (map fst BILLING_CACHE_VAR_MAP)
     \<and> list_all (\<lambda>(f, v). case m f of None \<Rightarrow> True | Some x \<Rightarrow> stable_cost x \<and> x \<noteq> Fin 0) BILLING_CACHE_VAR_MAP"

definition canonical_tier :: "tier \<Rightarrow> bool" where
  "canonical_tier t \<longleftrightarrow>
     list_all canonical_cond (t_conditions t) \<and> stable_cost (input_unit_cost t)
     \<and> stable_cost (output_unit_cost t) \<and> t_label t \<noteq> [] \<and> canonical_extra (extra_cost t)
     \<and> cache_mode_of t = Some (getTierCacheMode (t\<lparr>cache_mode_of := None\<rparr>))"

definition canonical_config :: "tier list \<Rightarrow> bool" where
  "canonical_config ts \<longleftrightarrow>
     ts \<noteq> [] \<and> list_all canonical_tier ts
     \<and> (2 \<le> length ts \<longrightarrow>
          list_all (\<lambda>t. t_conditions t \<noteq> []) (butlast ts) \<and> t_conditions (last ts) = [])"

definition line_of :: "tier_cond \<Rightarrow> string \<times> string \<times> string" where
  "line_of c = (tc_var c, tc_op c, text_of_value (tc_value c))"

definition piece_of :: "tier \<Rightarrow> tier_piece" where
  "piece_of t =
     (map line_of (t_conditions t), t_label t, text_of_number (input_unit_cost t),
      text_of_number (output_unit_cost t),
      map (\<lambda>(f, v). (v, map_option text_of_number (extra_cost t f))) BILLING_CACHE_VAR_MAP)"

lemma stable_or_zero: "stable_cost x \<Longrightarrow> or_zero x = x"
  by (cases x) (auto simp: or_zero_def stable_cost_def whole_number_def num_class_def is_digit_def)

lemma canonical_line: "canonical_cond c \<Longrightarrow> line_ok (line_of c)"
  by (auto simp: canonical_cond_def line_ok_def line_of_def split: jsval.splits)

lemma canonical_complete: "canonical_cond c \<Longrightarrow> cond_complete c \<and> cond_text c = cond_line (line_of c)"
  by (auto simp: canonical_cond_def cond_complete_def cond_text_def cond_line_def line_of_def COND_VARS_def
      OPS_def split: jsval.splits)

lemma build_canonical:
  "list_all canonical_cond cs \<Longrightarrow> buildConditionStr cs = conds_text (map line_of cs)"
proof -
  assume c: "list_all canonical_cond cs"
  then have "filter cond_complete cs = cs"
    using canonical_complete by (auto simp: list_all_iff intro!: filter_True)
  moreover have "map cond_text cs = map (cond_line \<circ> line_of) cs"
    using c canonical_complete by (auto simp: list_all_iff)
  ultimately show ?thesis by (simp only: buildConditionStr_def conds_text_def map_map)
qed

lemma conds_text_empty: "list_all line_ok ls \<Longrightarrow> conds_text ls = [] \<longleftrightarrow> ls = []"
proof (cases ls)
  case (Cons l ms)
  then show "list_all line_ok ls \<Longrightarrow> conds_text ls = [] \<longleftrightarrow> ls = []"
    using line_start [of l] by (auto simp: conds_text_Cons)
qed (simp add: conds_text_def)

lemma piece_canonical: "canonical_tier t \<Longrightarrow> piece_ok (piece_of t)"
proof -
  assume t: "canonical_tier t"
  let ?ps = "map (\<lambda>(f, v). (v, map_option text_of_number (extra_cost t f))) BILLING_CACHE_VAR_MAP"
  have "map fst ?ps = EXTRA_KEYS" using extra_keys by (simp add: comp_def split_def)
  moreover have "list_all (\<lambda>(v, x). case x of None \<Rightarrow> True | Some n \<Rightarrow> whole_number n) ?ps"
    using t by (auto simp: canonical_tier_def canonical_extra_def list_all_iff stable_cost_def
        split: option.splits)
  ultimately have "extras_ok ?ps" by (simp add: extras_ok_def)
  with t canonical_line show "piece_ok (piece_of t)"
    by (auto simp: piece_ok_def piece_of_def canonical_tier_def stable_cost_def list_all_iff)
qed

lemma join_parts:
  "join sep (a # map h (filter g xs)) = a @ concat (map (\<lambda>x. if g x then sep @ h x else []) xs)"
  by (induction xs arbitrary: a) simp_all

lemma body_canonical:
  assumes "canonical_tier t" and "piece_of t = (ls, l, x, y, ps)"
  shows "buildTierBodyExpr t = body_text x y ps"
proof -
  have x: "x = text_of_number (input_unit_cost t)" "y = text_of_number (output_unit_cost t)"
    and ps: "ps = map (\<lambda>(f, v). (v, map_option text_of_number (extra_cost t f))) BILLING_CACHE_VAR_MAP"
    using assms(2) by (simp_all add: piece_of_def)
  have e: "extra_number t f = Fin 0 \<longleftrightarrow> extra_cost t f = None"
    and n: "extra_cost t f = Some z \<Longrightarrow> extra_number t f = z"
    if "(f, v) \<in> set BILLING_CACHE_VAR_MAP" for f v z
    using assms(1) that stable_or_zero
    by (fastforce simp: canonical_tier_def canonical_extra_def list_all_iff extra_number_def split: option.splits)+
  let ?g = "\<lambda>(f, v). extra_number t f \<noteq> Fin 0" and ?h = "\<lambda>(f, v). priced_text v (extra_number t f)"
  have "map (\<lambda>p. if ?g p then '' + '' @ ?h p else []) BILLING_CACHE_VAR_MAP
      = map ((\<lambda>(v, x). case x of None \<Rightarrow> [] | Some n \<Rightarrow> '' + '' @ v @ '' * '' @ n)
          \<circ> (\<lambda>(f, v). (v, map_option text_of_number (extra_cost t f)))) BILLING_CACHE_VAR_MAP"
  proof (rule map_cong [OF refl])
    fix p assume p: "p \<in> set BILLING_CACHE_VAR_MAP"
    obtain f v where fv: "p = (f, v)" by fastforce
    with p have fm: "(f, v) \<in> set BILLING_CACHE_VAR_MAP" by simp
    from fv e [OF fm] n [OF fm] show "(if ?g p then '' + '' @ ?h p else [])
        = ((\<lambda>(v, x). case x of None \<Rightarrow> [] | Some n \<Rightarrow> '' + '' @ v @ '' * '' @ n)
          \<circ> (\<lambda>(f, v). (v, map_option text_of_number (extra_cost t f)))) p"
      by (cases "extra_cost t f") (auto simp: priced_text_def)
  qed
  then have o: "concat (map (\<lambda>p. if ?g p then '' + '' @ ?h p else []) BILLING_CACHE_VAR_MAP) = opts_text ps"
    by (simp only: opts_text_def ps map_map)
  have "or_zero (input_unit_cost t) = input_unit_cost t" "or_zero (output_unit_cost t) = output_unit_cost t"
    using assms(1) stable_or_zero by (simp_all add: canonical_tier_def)
  then have "buildTierBodyExpr t = priced_text ''p'' (input_unit_cost t) @ '' + ''
      @ priced_text ''c'' (output_unit_cost t) @ opts_text ps"
    unfolding buildTierBodyExpr_def o [symmetric] by (simp only: join.simps(3) join_parts)
  then show ?thesis by (simp only: body_text_def priced_text_def x append_assoc)
qed

text \<open>The text of a canonical tier, and the tier that is read from its match.\<close>

lemma tier_canonical:
  assumes "canonical_tier t"
  shows "piece_text (piece_of t) = guarded_text (map line_of (t_conditions t)) (tier_text (t_label t) t)"
proof -
  obtain ls l x y ps where p: "piece_of t = (ls, l, x, y, ps)" by (cases "piece_of t") auto
  then have "ls = map line_of (t_conditions t)" "l = t_label t" by (simp_all add: piece_of_def)
  with body_canonical [OF assms p] show ?thesis
    by (simp add: p piece_text_def tier_call_def tier_text_def)
qed

lemma set_extras_back:
  assumes "distinct (map fst fvs)"
    and "\<forall>(f, v) \<in> set fvs. case m f of None \<Rightarrow> True | Some x \<Rightarrow> number_of_text (text_of_number x) = x"
  shows "set_extras fvs (map (\<lambda>(f, v). map_option text_of_number (m f)) fvs) m0
    = (\<lambda>f. if f \<in> fst ` set fvs \<and> m f \<noteq> None then m f else m0 f)"
  using assms
proof (induction fvs arbitrary: m0)
  case (Cons fv fvs)
  obtain f v where fv: "fv = (f, v)" by fastforce
  show ?case
  proof (cases "m f")
    case None
    with Cons show ?thesis by (auto simp: fv fun_eq_iff)
  next
    case (Some x)
    with Cons.prems(2) have "number_of_text (text_of_number x) = x" by (simp add: fv)
    then have "set_extras (fv # fvs) (map (\<lambda>(f, v). map_option text_of_number (m f)) (fv # fvs)) m0
        = set_extras fvs (map (\<lambda>(f, v). map_option text_of_number (m f)) fvs) (m0(f \<mapsto> x))"
      by (simp add: fv Some)
    also have "\<dots> = (\<lambda>g. if g \<in> fst ` set fvs \<and> m g \<noteq> None then m g else (m0(f \<mapsto> x)) g)"
      using Cons.prems by (intro Cons.IH) simp_all
    also have "\<dots> = (\<lambda>g. if g \<in> fst ` set (fv # fvs) \<and> m g \<noteq> None then m g else m0 g)"
      using Some by (simp add: fv fun_eq_iff)
    finally show ?thesis .
  qed
qed simp

lemma json_parse_body: "json_parse (CHR 0x22 # json_body l @ [CHR 0x22]) = Inr (JStr l)"
  using json_parse_quote [of l] by (simp add: json_quote_def)

lemma cond_back: "canonical_cond c \<Longrightarrow>
    (case line_of c of (v, op, n) \<Rightarrow> \<lparr>tc_var = v, tc_op = op, tc_value = JNum (number_of_text n)\<rparr>) = c"
  by (cases c) (auto simp: canonical_cond_def line_of_def split: jsval.splits)

lemma match_back:
  assumes "canonical_tier t"
  shows "tier_of_match (piece_match (piece_of t)) = Some t"
proof -
  have cs: "parse_guard (conds_text (map line_of (t_conditions t))) = t_conditions t"
    using assms canonical_line cond_back
    by (subst parse_conds) (auto simp: canonical_tier_def list_all_iff comp_def intro!: map_idI)
  have d: "distinct (map fst BILLING_CACHE_VAR_MAP)" by code_simp
  have m: "set_extras BILLING_CACHE_VAR_MAP (map (\<lambda>(f, v). map_option text_of_number (extra_cost t f))
      BILLING_CACHE_VAR_MAP) Map.empty = extra_cost t"
  proof -
    have x: "canonical_extra (extra_cost t)" using assms by (simp add: canonical_tier_def)
    then have "\<forall>(f, v) \<in> set BILLING_CACHE_VAR_MAP.
        case extra_cost t f of None \<Rightarrow> True | Some x \<Rightarrow> number_of_text (text_of_number x) = x"
      unfolding canonical_extra_def list_all_iff stable_cost_def by (fastforce split: option.splits)
    moreover have "extra_cost t f \<noteq> None \<Longrightarrow> f \<in> fst ` set BILLING_CACHE_VAR_MAP" for f
      using x by (auto simp: canonical_extra_def simp del: not_None_eq)
    then have "(\<lambda>f. if f \<in> fst ` set BILLING_CACHE_VAR_MAP \<and> extra_cost t f \<noteq> None
        then extra_cost t f else Map.empty f) = extra_cost t"
      by (intro ext) (metis (mono_tags))
    ultimately show ?thesis
      using set_extras_back [OF d, of "extra_cost t" Map.empty] by (simp only:)
  qed
  define zs where "zs = map snd (map (\<lambda>(f, v). (v, map_option text_of_number (extra_cost t f))) BILLING_CACHE_VAR_MAP)"
  have "zs = map (\<lambda>(f, v). map_option text_of_number (extra_cost t f)) BILLING_CACHE_VAR_MAP"
    unfolding zs_def map_map by (rule map_cong) auto
  with m have z: "set_extras BILLING_CACHE_VAR_MAP zs Map.empty = extra_cost t" by (simp only:)
  have "piece_match (piece_of t) = (conds_text (map line_of (t_conditions t)), json_body (t_label t),
      text_of_number (input_unit_cost t), text_of_number (output_unit_cost t), zs)"
    by (simp only: piece_match_def piece_of_def zs_def split_conv)
  then have "tier_of_match (piece_match (piece_of t)) = Some (normalizeVisualTier (t\<lparr>cache_mode_of := None\<rparr>))"
    using assms cs z
    by (cases t) (simp add: tier_of_match_def json_parse_body canonical_tier_def stable_cost_def)
  also have "normalizeVisualTier (t\<lparr>cache_mode_of := None\<rparr>) = t"
    using assms by (cases t) (simp add: normalizeVisualTier_def canonical_tier_def)
  finally show ?thesis .
qed

section \<open>Round trip\<close>

lemma normalize_canonical: "canonical_tier t \<Longrightarrow> normalizeVisualTier t = t"
  by (cases t) (simp add: normalizeVisualTier_def canonical_tier_def getTierCacheMode_def)

lemma normalize_config: "list_all canonical_tier ts \<Longrightarrow> ts \<noteq> [] \<Longrightarrow> normalizeVisualConfig (Some ts) = ts"
  using normalize_canonical by (auto simp: normalizeVisualConfig_def list_all_iff intro!: map_idI)

lemma matches_back:
  "list_all canonical_tier ts \<Longrightarrow> tiers_of_matches (map (piece_match \<circ> piece_of) ts) = Some ts"
  by (induction ts) (simp_all add: match_back)

lemma guarded_start:
  assumes "list_all line_ok ls" "ls \<noteq> []"
  shows "\<exists>c q. guarded_text ls s @ r = c # q \<and> c \<in> set ''pcl''"
proof -
  obtain l ms where ls: "ls = l # ms" using assms(2) by (cases ls) auto
  with assms line_start [of l] show ?thesis by (auto simp: guarded_text_def conds_text_Cons)
qed

lemma parse_generated:
  assumes ts: "list_all canonical_tier ts" "ts \<noteq> []"
    and g: "generateExprFromVisualConfig tierName (Some ts) = Some e"
    and e: "e = c # q" "c \<noteq> CHR ''v''" "c \<noteq> CHR ''t''"
    and m: "rx_all rx_tier_re e = map (piece_match \<circ> piece_of) ts"
  shows "tryParseVisualConfig tierName e = Some ts"
proof -
  have v: "strip_version e = e" using e by (simp add: strip_version_def)
  have f: "find (\<lambda>(m, r). r = []) (rx_tier e) = None" using e by (simp add: rx_tier_start)
  obtain u us where u: "ts = u # us" using ts(2) by (cases ts) auto
  have "e \<noteq> []" using e by simp
  moreover have "tiers_of_matches (rx_all rx_tier_re e) = Some (u # us)"
    unfolding m u [symmetric] by (rule matches_back [OF ts(1)])
  ultimately show ?thesis
    using normalize_config [OF ts] g by (simp add: tryParseVisualConfig_def Let_def v f u)
qed

lemma tier_parts_canonical:
  assumes "list_all canonical_tier ts" "ts \<noteq> []" "list_all (\<lambda>t. t_conditions t \<noteq> []) (butlast ts)"
    "t_conditions (last ts) = []"
  shows "tier_parts tierName i ts = Some (map (piece_text \<circ> piece_of) ts)"
  using assms
proof (induction tierName i ts rule: tier_parts.induct)
  case (2 tierName i t)
  then show ?case
    by (simp add: tier_canonical guarded_text_def or_label_def canonical_tier_def)
next
  case (3 tierName i t u ts)
  have t: "canonical_tier t" and cs: "list_all canonical_cond (t_conditions t)" "t_label t \<noteq> []"
    using 3(2) by (simp_all add: canonical_tier_def)
  have l: "list_all line_ok (map line_of (t_conditions t))"
    using cs canonical_line by (simp add: list_all_iff)
  have ne: "map line_of (t_conditions t) \<noteq> []" using 3(4) by simp
  have c: "buildConditionStr (t_conditions t) \<noteq> []"
    using conds_text_empty [OF l] ne by (simp add: build_canonical [OF cs(1)])
  have "tier_parts tierName (i + 1) (u # ts) = Some (map (piece_text \<circ> piece_of) (u # ts))"
    using 3 c by simp
  with c cs ne show ?case
    by (simp add: tier_canonical [OF t] guarded_text_def or_label_def build_canonical)
qed simp

lemma generate_one:
  assumes "canonical_tier t"
  shows "generateExprFromVisualConfig tierName (Some [t]) =
    Some (piece_text (piece_of t) @ (if t_conditions t = [] then [] else '' : '' @ EMPTY_EXPR))"
proof -
  have cs: "list_all canonical_cond (t_conditions t)" "t_label t \<noteq> []"
    using assms by (simp_all add: canonical_tier_def)
  have "list_all line_ok (map line_of (t_conditions t))"
    using cs canonical_line by (simp add: list_all_iff)
  from conds_text_empty [OF this] cs show ?thesis
    by (simp add: generateExprFromVisualConfig_def Let_def tier_canonical [OF assms] guarded_text_def
        or_label_def build_canonical)
qed

lemma generate_many:
  assumes "canonical_config ts" "2 \<le> length ts"
  shows "generateExprFromVisualConfig tierName (Some ts) = Some (join '' : '' (map (piece_text \<circ> piece_of) ts))"
proof -
  obtain t u us where ts: "ts = t # u # us" using assms(2) by (cases ts; cases "tl ts") auto
  have "tier_parts tierName 0 ts = Some (map (piece_text \<circ> piece_of) ts)"
    using assms by (intro tier_parts_canonical) (simp_all add: canonical_config_def)
  then show ?thesis by (simp add: generateExprFromVisualConfig_def ts)
qed

lemma piece_starts:
  assumes "canonical_tier t" "t_conditions t \<noteq> []"
  obtains c q where "piece_text (piece_of t) @ r = c # q" "c \<in> set ''pcl''"
proof -
  have "list_all line_ok (map line_of (t_conditions t))"
    using assms(1) canonical_line by (simp add: canonical_tier_def list_all_iff)
  from guarded_start [OF this, of "tier_text (t_label t) t" r] assms that show ?thesis
    by (auto simp: tier_canonical)
qed

lemma one_tier_back:
  assumes t: "canonical_tier t"
  shows "\<exists>e. generateExprFromVisualConfig tierName (Some [t]) = Some e
    \<and> tryParseVisualConfig tierName e = Some [t]"
proof (cases "t_conditions t = []")
  case True
  obtain l x y ps where p: "piece_of t = ([], l, x, y, ps)" using True by (auto simp: piece_of_def)
  have ok: "piece_ok (piece_of t)" by (rule piece_canonical [OF t])
  let ?e = "piece_text (piece_of t)"
  have e: "?e = tier_call l x y ps" by (simp add: p piece_text_def guarded_text_def)
  have m: "rx_tier ?e = [((json_body l, x, y, map snd ps), [])]"
    unfolding e using tier_match [of x y ps l "[]"] ok by (simp add: piece_ok_def p)
  have "strip_version ?e = ?e" "?e \<noteq> []" by (simp_all add: e tier_call_def strip_version_def)
  moreover have "tier_of_match ([], json_body l, x, y, map snd ps) = Some t"
    using match_back [OF t] by (simp add: p piece_match_def conds_text_def)
  moreover have "normalizeVisualConfig (Some [t]) = [t]" using t by (simp add: normalize_config)
  ultimately have "tryParseVisualConfig tierName ?e = Some [t]"
    by (simp add: tryParseVisualConfig_def Let_def m)
  with generate_one [OF t] True show ?thesis by simp
next
  case False
  let ?e = "piece_text (piece_of t) @ '' : '' @ EMPTY_EXPR"
  have g: "generateExprFromVisualConfig tierName (Some [t]) = Some ?e" using generate_one [OF t] False by simp
  have "rx_all rx_tier_re EMPTY_EXPR = []" by code_simp
  then have m: "rx_all rx_tier_re ?e = map (piece_match \<circ> piece_of) [t]"
    using rx_all_piece [OF piece_canonical [OF t], of "'' : '' @ EMPTY_EXPR"] by (simp only: rx_all_sep) simp
  obtain c q where c: "?e = c # q" "c \<in> set ''pcl''" by (rule piece_starts [OF t False])
  then have "tryParseVisualConfig tierName ?e = Some [t]"
    using t g m by (intro parse_generated [of _ _ _ c q]) auto
  with g show ?thesis by blast
qed

lemma many_tiers_back:
  assumes ts: "canonical_config ts" "2 \<le> length ts"
  shows "\<exists>e. generateExprFromVisualConfig tierName (Some ts) = Some e
    \<and> tryParseVisualConfig tierName e = Some ts"
proof -
  obtain t u us where tu: "ts = t # u # us" using ts(2) by (cases ts; cases "tl ts") auto
  have all: "list_all canonical_tier ts" "ts \<noteq> []" and t: "canonical_tier t" "t_conditions t \<noteq> []"
    using ts by (simp_all add: canonical_config_def tu)
  let ?e = "join '' : '' (map (piece_text \<circ> piece_of) ts)"
  have "?e = piece_text (piece_of t) @ '' : '' @ join '' : '' (map (piece_text \<circ> piece_of) (u # us))"
    by (simp add: tu)
  then obtain c q where c: "?e = c # q" "c \<in> set ''pcl''"
    using piece_starts [OF t] by metis
  have "rx_all rx_tier_re ?e = map (piece_match \<circ> piece_of) ts"
    using rx_all_pieces [of "map piece_of ts"] all piece_canonical by (simp add: list_all_iff comp_def)
  with c all generate_many [OF ts] have "tryParseVisualConfig tierName ?e = Some ts"
    by (intro parse_generated [of _ _ _ c q]) auto
  with generate_many [OF ts] show ?thesis by blast
qed

lemma config_back:
  assumes "canonical_config ts"
  shows "\<exists>e. generateExprFromVisualConfig tierName (Some ts) = Some e
    \<and> tryParseVisualConfig tierName e = Some ts"
proof (cases "2 \<le> length ts")
  case True
  with assms show ?thesis by (rule many_tiers_back)
next
  case False
  with assms obtain t where "ts = [t]" "canonical_tier t"
    by (cases ts) (auto simp: canonical_config_def Suc_le_eq)
  with one_tier_back show ?thesis by simp
qed

section \<open>Properties\<close>

text \<open>
  C6: The expression generated from a visual configuration is read back as the same
  configuration: any number of tiers, any number of conditions, any label, all nine prices.
\<close>

theorem visual_config_roundtrip:
  assumes "canonical_config ts"
  shows "\<exists>e. generateExprFromVisualConfig tierName (Some ts) = Some e
    \<and> tryParseVisualConfig tierName e = Some ts"
  using assms by (rule config_back)

definition sample_tiers :: "tier list" where
  "sample_tiers =
     [\<lparr>t_conditions = [\<lparr>tc_var = ''len'', tc_op = ''<='', tc_value = JNum (Fin 32000)\<rparr>,
                       \<lparr>tc_var = ''c'', tc_op = ''<'', tc_value = JNum (Fin 200)\<rparr>],
       input_unit_cost = Fin 3, output_unit_cost = Fin (5 / 2),
       extra_cost = [''cache_read_unit_cost'' \<mapsto> Fin (1 / 4), ''cache_create_1h_unit_cost'' \<mapsto> Fin 6],
       t_label = ''a (b)'', cache_mode_of = Some CACHE_MODE_TIMED\<rparr>,
      \<lparr>t_conditions = [], input_unit_cost = Fin 6, output_unit_cost = Fin 20, extra_cost = Map.empty,
       t_label = ''long'', cache_mode_of = Some CACHE_MODE_GENERIC\<rparr>]"

lemma visual_config_roundtrip_witness:
  "\<exists>e. generateExprFromVisualConfig (\<lambda>n. show_nat n) (Some sample_tiers) = Some e
    \<and> tryParseVisualConfig (\<lambda>n. show_nat n) e = Some sample_tiers"
proof (rule visual_config_roundtrip)
  have m: "map fst BILLING_CACHE_VAR_MAP = [''cache_read_unit_cost'', ''cache_create_unit_cost'',
      ''cache_create_1h_unit_cost'', ''image_unit_cost'', ''image_output_unit_cost'',
      ''audio_input_unit_cost'', ''audio_output_unit_cost'']" by code_simp
  have c: "list_all (\<lambda>t. list_all canonical_cond (t_conditions t) \<and> stable_cost (input_unit_cost t)
      \<and> stable_cost (output_unit_cost t) \<and> t_label t \<noteq> []
      \<and> list_all (\<lambda>(f, v). case extra_cost t f of None \<Rightarrow> True | Some x \<Rightarrow> stable_cost x \<and> x \<noteq> Fin 0)
          BILLING_CACHE_VAR_MAP
      \<and> cache_mode_of t = Some (getTierCacheMode (t\<lparr>cache_mode_of := None\<rparr>))) sample_tiers"
    by code_simp
  have d: "list_all (\<lambda>t. dom (extra_cost t) \<subseteq> set (map fst BILLING_CACHE_VAR_MAP)) sample_tiers"
    by (simp add: m sample_tiers_def)
  have "canonical_tier t" if "t \<in> set sample_tiers" for t
    using c d that unfolding list_all_iff canonical_tier_def canonical_extra_def by blast
  then have "list_all canonical_tier sample_tiers" by (simp add: list_all_iff)
  then show "canonical_config sample_tiers"
    by (simp add: canonical_config_def) (simp add: sample_tiers_def)
qed

text \<open>
  C34: What the parser accepts as several tiers, or as a tier with conditions, is equivalent to
  the text it was given: generating the expression again gives that text up to white space.
\<close>

theorem parsed_tiers_regenerate:
  assumes "tryParseVisualConfig tierName e = Some ts" and "2 \<le> length ts \<or> t_conditions (hd ts) \<noteq> []"
  shows "\<exists>g. generateExprFromVisualConfig tierName (Some ts) = Some g
    \<and> without_spaces g = without_spaces (strip_version e)"
proof -
  have u: "t_conditions t = []" if "tier_of_match ([], m) = Some t" for m t
    using that by (cases m) (auto simp: tier_of_match_def normalizeVisualTier_def parse_guard_def
        split: sum.splits jsval.splits)
  have f: "False" if "tier_of_match ([], m) = Some t" "normalizeVisualConfig (Some [t]) = ts" for m t
    using assms(2) u [OF that(1)] that(2) by (auto simp: normalizeVisualConfig_def normalizeVisualTier_def)
  have e: "e \<noteq> []" using assms(1) by (auto simp: tryParseVisualConfig_def)
  show ?thesis
  proof (cases "find (\<lambda>(m, r). r = []) (rx_tier (strip_version e))")
    case None
    with assms(1) e show ?thesis
      by (auto simp: tryParseVisualConfig_def Let_def split: if_splits option.splits list.splits)
  next
    case (Some mr)
    obtain m r where "mr = (m, r)" by (cases mr) auto
    with assms(1) e Some obtain t where "tier_of_match ([], m) = Some t" "normalizeVisualConfig (Some [t]) = ts"
      by (cases "tier_of_match ([], m)") (simp_all add: tryParseVisualConfig_def)
    then show ?thesis using f by blast
  qed
qed

lemma parsed_tiers_regenerate_witness:
  "\<exists>ts g. tryParseVisualConfig (\<lambda>n. show_nat n) (''len<=9 ? tier('' @ json_quote ''a'' @ '',p*1+c*2) : tier(''
       @ json_quote ''b'' @ '', p * 3 + c * 4)'') = Some ts
     \<and> generateExprFromVisualConfig (\<lambda>n. show_nat n) (Some ts) = Some g
     \<and> without_spaces g = without_spaces (''len<=9 ? tier('' @ json_quote ''a'' @ '',p*1+c*2) : tier(''
       @ json_quote ''b'' @ '', p * 3 + c * 4)'')"
proof -
  let ?e = "''len<=9 ? tier('' @ json_quote ''a'' @ '',p*1+c*2) : tier('' @ json_quote ''b'' @ '', p * 3 + c * 4)''"
  have "(case tryParseVisualConfig (\<lambda>n. show_nat n) ?e of Some ts \<Rightarrow> 2 \<le> length ts | None \<Rightarrow> False)" by code_simp
  then obtain ts where t: "tryParseVisualConfig (\<lambda>n. show_nat n) ?e = Some ts" "2 \<le> length ts"
    by (auto split: option.splits)
  moreover have "strip_version ?e = ?e" by code_simp
  ultimately show ?thesis using parsed_tiers_regenerate [OF t(1)] by auto
qed

end
