(* ===== verification/TieredCombined.thy ===== *)
theory TieredCombined
  imports TieredRoundtrip RequestRoundtrip
begin

text \<open>
  Generated tier expressions together with request rules: the text the generator writes for tiers
  whose labels have no parentheses keeps its literals closed and its parentheses balanced, so that
  \<open>splitBillingExprAndRequestRules\<close> takes it apart from the rules, and finds no rules in it alone.
\<close>

section \<open>Generated expressions combine with rules\<close>

text \<open>Text that no scan of parentheses and literals notices, and text in which both kinds of scan
  end where they began.\<close>

definition calm :: "char \<Rightarrow> bool" where
  "calm c \<longleftrightarrow> c \<notin> {CHR ''('', CHR '')'', CHR 0x22}"

definition steady :: "string \<Rightarrow> bool" where
  "steady s \<longleftrightarrow> (\<forall>d > 0. quiet (CHR ''*'') d False s = Some (d, False) \<and> level d s = Some d)"

definition no_parens :: "string \<Rightarrow> bool" where
  "no_parens s \<longleftrightarrow> list_all (\<lambda>c. c \<noteq> CHR ''('' \<and> c \<noteq> CHR '')'') s"

lemma steady_append: "steady s \<Longrightarrow> steady r \<Longrightarrow> steady (s @ r)"
  unfolding steady_def level_append by (auto simp: quiet_append [of _ d False s d False for d])

lemma steady_join: "list_all steady xs \<Longrightarrow> steady sep \<Longrightarrow> steady (join sep xs)"
  by (induction xs) (auto simp: join_Cons steady_append, simp add: steady_def)

lemma steady_calm: "list_all calm s \<Longrightarrow> steady s"
  by (induction s) (auto simp: steady_def calm_def Let_def)

lemma level_no_parens: "no_parens s \<Longrightarrow> 0 < d \<Longrightarrow> level d s = Some d"
  by (induction s) (auto simp: no_parens_def Let_def)

lemma hex_no_parens: "d < 16 \<Longrightarrow> hex_digit d \<noteq> CHR ''('' \<and> hex_digit d \<noteq> CHR '')''"
  using nth_mem [of d "''0123456789abcdef''"] by (auto simp: hex_digit_def simp del: nth_mem)

lemma escape_no_parens: "c \<noteq> CHR ''('' \<Longrightarrow> c \<noteq> CHR '')'' \<Longrightarrow> no_parens (json_escape c)"
proof -
  assume c: "c \<noteq> CHR ''(''" "c \<noteq> CHR '')''"
  have "(of_char c :: nat) < 32 \<Longrightarrow> (of_char c :: nat) div 16 < 16" by simp
  with c hex_no_parens [of "(of_char c :: nat) mod 16"] hex_no_parens [of "(of_char c :: nat) div 16"]
  show ?thesis unfolding json_escape_def no_parens_def by simp
qed

lemma steady_quote: "no_parens l \<Longrightarrow> steady (json_quote l)"
proof -
  assume "no_parens l"
  then have "no_parens (json_body l)"
    using escape_no_parens by (induction l) (auto simp: json_body_def no_parens_def)
  then have "no_parens (json_quote l)" by (simp add: json_quote_def no_parens_def)
  then show ?thesis by (simp add: steady_def quiet_quote_self level_no_parens)
qed

lemma class_calm: "num_class c \<Longrightarrow> calm c" "cond_class c \<Longrightarrow> calm c"
  by (auto simp: num_class_def cond_class_def calm_def is_digit_def)

lemma calm_marks [simp]:
  "calm (CHR '' '')" "calm (CHR ''+'')" "calm (CHR ''*'')" "calm (CHR ''?'')" "calm (CHR '':'')" "calm (CHR ''&'')"
  "calm (CHR '','')" "calm (CHR ''p'')" "calm (CHR ''c'')" "calm (CHR ''0'')"
  by (simp_all add: calm_def)

lemma number_calm:
  "whole_number n \<Longrightarrow> list_all calm n" "cond_number n \<Longrightarrow> list_all calm n \<and> CHR ''*'' \<notin> set n"
proof -
  show "whole_number n \<Longrightarrow> list_all calm n"
    unfolding whole_number_def using class_calm(1) by (blast intro: list.pred_mono_strong)
  have "\<not> cond_class (CHR ''*'')" by (simp add: cond_class_def is_digit_def)
  then show "cond_number n \<Longrightarrow> list_all calm n \<and> CHR ''*'' \<notin> set n"
    unfolding cond_number_def list_all_iff using class_calm(2) by blast
qed

lemma line_calm: "line_ok l \<Longrightarrow> list_all calm (cond_line l) \<and> CHR ''*'' \<notin> set (cond_line l)"
proof -
  assume l: "line_ok l"
  obtain v op n where e: "l = (v, op, n)" by (cases l) auto
  have "list_all calm v \<and> CHR ''*'' \<notin> set v" "list_all calm op \<and> CHR ''*'' \<notin> set op"
    using l by (auto simp: e line_ok_def COND_VARS_def OPS_def calm_def)
  moreover have "list_all calm n \<and> CHR ''*'' \<notin> set n" using l number_calm(2) by (simp add: e line_ok_def)
  ultimately show ?thesis by (simp add: e cond_line_def)
qed

lemma opts_calm: "extras_ok ps \<Longrightarrow> list_all calm (opts_text ps)"
proof -
  assume p: "extras_ok ps"
  have "list_all calm v" if "v \<in> set EXTRA_KEYS" for v
    using that by (auto simp: EXTRA_KEYS_def calm_def)
  moreover have "v \<in> set EXTRA_KEYS" if "(v, x) \<in> set ps" for v x
  proof -
    have "fst (v, x) \<in> set (map fst ps)" using that unfolding set_map by (rule imageI)
    with p show ?thesis by (simp add: extras_ok_def)
  qed
  ultimately have v: "list_all calm v" if "(v, x) \<in> set ps" for v x
    using that by blast
  have "list_all calm (case x of None \<Rightarrow> [] | Some n \<Rightarrow> '' + '' @ v @ '' * '' @ n)"
    if "(v, x) \<in> set ps" for v x
  proof (cases x)
    case (Some n)
    then have "whole_number n" using p that by (auto simp: extras_ok_def list_all_iff)
    with number_calm(1) Some v [OF that] show ?thesis by simp
  qed simp
  then show ?thesis by (auto simp: opts_text_def list_all_iff)
qed

lemma body_calm:
  assumes "whole_number x" "whole_number y" "extras_ok ps"
  shows "list_all calm (body_text x y ps)"
  using number_calm(1) [OF assms(1)] number_calm(1) [OF assms(2)] opts_calm [OF assms(3)]
  by (simp add: body_text_def)

text \<open>Outside of all parentheses too, no multiplication of a tier is noticed.\<close>

lemma quiet_no_star:
  "list_all calm s \<Longrightarrow> CHR ''*'' \<notin> set s \<Longrightarrow> quiet (CHR ''*'') d False s = Some (d, False)"
  by (induction s) (auto simp: calm_def Let_def)

lemma tier_call_steady:
  assumes "no_parens l" "whole_number x" "whole_number y" "extras_ok ps"
  shows "steady (tier_call l x y ps)"
    and "0 \<le> d \<Longrightarrow> quiet (CHR ''*'') d False (tier_call l x y ps) = Some (d, False)"
proof -
  define z where "z = json_quote l @ '', '' @ body_text x y ps"
  have i: "steady z"
    unfolding z_def using steady_quote [OF assms(1)] steady_calm [OF body_calm [OF assms(2-4)]]
    by (intro steady_append) (simp_all add: steady_calm)
  have t: "tier_call l x y ps = ''tier('' @ z @ '')''"
    by (simp add: tier_call_def z_def)
  have q: "quiet (CHR ''*'') d False (tier_call l x y ps) = Some (d, False)" if "0 \<le> d" for d
    using i that unfolding t steady_def
    by (simp add: quiet_append [of _ "d + 1" False z "d + 1" False] Let_def)
  moreover have "level d (tier_call l x y ps) = Some d" if "0 < d" for d
    using i that unfolding t steady_def by (simp add: level_append Let_def)
  ultimately show "steady (tier_call l x y ps)" by (simp add: steady_def)
  show "0 \<le> d \<Longrightarrow> quiet (CHR ''*'') d False (tier_call l x y ps) = Some (d, False)" by (rule q)
qed

lemma conds_calm: "list_all line_ok ls \<Longrightarrow> list_all calm (conds_text ls) \<and> CHR ''*'' \<notin> set (conds_text ls)"
proof (induction ls)
  case (Cons l ls)
  moreover have "calm (CHR '' '')" "calm (CHR ''&'')" by (simp_all add: calm_def)
  ultimately show ?case
    using line_calm [of l] by (simp add: conds_text_def join_Cons)
qed (simp add: conds_text_def)

lemma piece_steady:
  assumes "canonical_tier t" "no_parens (t_label t)"
  shows "steady (piece_text (piece_of t))"
    and "0 \<le> d \<Longrightarrow> quiet (CHR ''*'') d False (piece_text (piece_of t)) = Some (d, False)"
proof -
  obtain ls l x y ps where p: "piece_of t = (ls, l, x, y, ps)" by (cases "piece_of t") auto
  then have l: "no_parens l" using assms(2) by (simp add: piece_of_def)
  have ok: "list_all line_ok ls" "whole_number x" "whole_number y" "extras_ok ps"
    using piece_canonical [OF assms(1)] by (simp_all add: p piece_ok_def)
  note c = tier_call_steady [OF l ok(2-4)]
  have e: "piece_text (piece_of t) = (if ls = [] then [] else conds_text ls @ '' ? '') @ tier_call l x y ps"
    by (simp add: p piece_text_def guarded_text_def)
  have g: "list_all calm (if ls = [] then [] else conds_text ls @ '' ? '')"
      "CHR ''*'' \<notin> set (if ls = [] then [] else conds_text ls @ '' ? '')"
    using conds_calm [OF ok(1)] by (auto simp: calm_def)
  show "steady (piece_text (piece_of t))"
    unfolding e by (intro steady_append steady_calm g(1) c(1))
  show "0 \<le> d \<Longrightarrow> quiet (CHR ''*'') d False (piece_text (piece_of t)) = Some (d, False)"
    unfolding e using quiet_append [OF quiet_no_star [OF g], of d] c(2) by simp
qed


lemma trimmed_ends:
  "s = c # q \<Longrightarrow> \<not> js_space c \<Longrightarrow> s = r @ [d] \<Longrightarrow> \<not> js_space d \<Longrightarrow> trimmed s"
  by (metis trimmed_by_def list.sel(1) last_snoc)

lemma piece_ends:
  assumes "canonical_tier t"
  obtains c q r where "piece_text (piece_of t) = c # q" "c \<in> set ''pclt''" "piece_text (piece_of t) = r @ '')''"
proof -
  obtain ls l x y ps where p: "piece_of t = (ls, l, x, y, ps)" by (cases "piece_of t") auto
  have e: "piece_text (piece_of t) = (if ls = [] then [] else conds_text ls @ '' ? '') @ tier_call l x y ps"
    by (simp add: p piece_text_def guarded_text_def)
  have "piece_text (piece_of t) = ((if ls = [] then [] else conds_text ls @ '' ? '')
      @ ''tier('' @ json_quote l @ '', '' @ body_text x y ps) @ '')''"
    by (simp add: e tier_call_def)
  moreover have "\<exists>c q. piece_text (piece_of t) = c # q \<and> c \<in> set ''pclt''"
  proof (cases "ls = []")
    case False
    have "list_all line_ok ls" using piece_canonical [OF assms] by (simp add: p piece_ok_def)
    from guarded_start [OF this False, of "tier_call l x y ps" "[]"] show ?thesis
      by (auto simp: p piece_text_def)
  qed (simp add: e tier_call_def)
  ultimately show ?thesis using that by blast
qed

lemma join_last: "xs \<noteq> [] \<Longrightarrow> \<exists>r. join sep xs = r @ last xs"
  by (induction xs) (auto simp: join_Cons)

lemma join_first: "xs \<noteq> [] \<Longrightarrow> \<exists>r. join sep xs = hd xs @ r"
  by (cases xs) (auto simp: join_Cons)

text \<open>A steady text that begins like a tier and ends with a parenthesis or a zero.\<close>

lemma plain_baseI:
  assumes "steady e" "e = c # q" "c \<in> set ''pclt''" "e = r @ [d]" "d \<in> set '')0''"
  shows "plain_base e" and "trimmed e" and "e \<noteq> []" and "hd e \<noteq> CHR ''(''"
proof -
  show t: "trimmed e" 
    using assms(3,5) by (intro trimmed_ends [OF assms(2) _ assms(4)]) (auto simp: js_space_def)
  show n: "e \<noteq> []" and h: "hd e \<noteq> CHR ''(''" using assms(2,3) by auto
  have "\<not> ends_with '' : 1'' e" using assms(4,5) by (auto simp: ends_with_def starts_with_def)
  with assms(1) t n h show "plain_base e" by (simp add: plain_base_def steady_def)
qed

text \<open>What does not start with a parenthesis is no rule.\<close>

lemma not_rule:
  assumes "quiet (CHR ''*'') 0 False p = Some (0, False)" "trimmed p" "p \<noteq> []" "hd p \<noteq> CHR ''(''"
  shows "is_rule_part p = Inr False"
proof -
  have s: "splitTopLevelMultiply p = [p]"
    using splitTopLevelMultiply_join [of "[p]"] assms(1-3) by simp
  obtain c q where "p = c # q" "c \<noteq> CHR ''(''" using assms(3,4) by (cases p) auto
  then have "match_group p = None" by (simp add: match_group_def)
  then have "tryParseRuleGroupFactor p = Inr None" by (simp add: tryParseRuleGroupFactor_def)
  with s assms(2,3) have "tryParseRequestRuleExpr p = Inr None"
    by (simp add: tryParseRequestRuleExpr_def trim_by_id)
  then show ?thesis by (simp add: is_rule_part_def)
qed

lemma tiers_shape:
  assumes ts: "list_all canonical_tier ts" "ts \<noteq> []" and l: "list_all (\<lambda>t. no_parens (t_label t)) ts"
  defines "e \<equiv> join '' : '' (map (piece_text \<circ> piece_of) ts)"
  shows "plain_base e" and "splitBillingExprAndRequestRules e = Inr \<lparr>sb_billingExpr = e, sb_requestRuleExpr = []\<rparr>"
proof -
  let ?ps = "map (piece_text \<circ> piece_of) ts"
  have h: "canonical_tier (hd ts)" "canonical_tier (last ts)" using ts by (auto simp: list_all_iff)
  obtain c q where c: "piece_text (piece_of (hd ts)) = c # q" "c \<in> set ''pclt''" using piece_ends [OF h(1)] by metis
  obtain r where r: "piece_text (piece_of (last ts)) = r @ '')''" using piece_ends [OF h(2)] by metis
  have e1: "\<exists>q'. e = c # q'"
    using join_first [of ?ps "'' : ''"] ts(2) c(1) by (auto simp: e_def hd_map)
  have e2: "\<exists>r'. e = r' @ [CHR '')'']"
    using join_last [of ?ps "'' : ''"] ts(2) r by (auto simp: e_def last_map)
  have "list_all steady ?ps"
    using ts(1) l piece_steady(1) by (auto simp: list_all_iff)
  then have st: "steady e" unfolding e_def by (rule steady_join) (simp add: steady_calm)
  have q: "quiet (CHR ''*'') 0 False e = Some (0, False)"
    unfolding e_def using ts(1) l piece_steady(2) by (intro quiet_join) (auto simp: list_all_iff)
  obtain q' r' where "e = c # q'" "e = r' @ [CHR '')'']" using e1 e2 by blast
  note p = plain_baseI [OF st this(1) c(2) this(2), simplified]
  show "plain_base e" by (rule p(1))
  have "splitTopLevelMultiply e = [e]"
    using splitTopLevelMultiply_join [of "[e]"] q p(2,3) by simp
  with p(2,3) show "splitBillingExprAndRequestRules e = Inr \<lparr>sb_billingExpr = e, sb_requestRuleExpr = []\<rparr>"
    by (simp add: splitBillingExprAndRequestRules_def Let_def trim_by_id)
qed

lemma guarded_tier_shape:
  assumes t: "canonical_tier t" and l: "no_parens (t_label t)"
  defines "e \<equiv> piece_text (piece_of t) @ '' : '' @ EMPTY_EXPR"
  shows "plain_base e" and "splitBillingExprAndRequestRules e = Inr \<lparr>sb_billingExpr = e, sb_requestRuleExpr = []\<rparr>"
proof -
  let ?a = "piece_text (piece_of t) @ '' : p''"
  obtain c q where c: "piece_text (piece_of t) = c # q" "c \<in> set ''pclt''" using piece_ends [OF t] by metis
  have st: "steady e" unfolding e_def EMPTY_EXPR_def
    by (intro steady_append piece_steady(1) t l) (simp_all add: steady_calm)
  have "e = c # (q @ '' : '' @ EMPTY_EXPR)" "e = (piece_text (piece_of t) @ '' : p * 0 + c * '') @ [CHR ''0'']"
    by (simp_all add: e_def c(1) EMPTY_EXPR_def)
  note p = plain_baseI [OF st this(1) c(2) this(2), simplified]
  show "plain_base e" by (rule p(1))
  have q: "quiet (CHR ''*'') 0 False ?a = Some (0, False)"
    using quiet_append [OF piece_steady(2) [OF t l, of 0]] by simp
  have a: "trimmed ?a" "?a \<noteq> []" "hd ?a \<noteq> CHR ''(''"
    using c by (auto simp: trimmed_by_def js_space_def)
  have parts: "e = join '' * '' [?a, ''0 + c'', ''0'']" by (simp add: e_def EMPTY_EXPR_def)
  have "splitTopLevelMultiply e = [?a, ''0 + c'', ''0'']"
    unfolding parts using q a by (intro splitTopLevelMultiply_join) (auto simp: trimmed_by_def js_space_def)
  moreover have "is_rule_part ''0 + c'' = Inr False" "is_rule_part ''0'' = Inr False" by code_simp+
  ultimately show "splitBillingExprAndRequestRules e = Inr \<lparr>sb_billingExpr = e, sb_requestRuleExpr = []\<rparr>"
    using p(2,3) not_rule [OF q a]
    by (simp add: splitBillingExprAndRequestRules_def Let_def trim_by_id)
qed

text \<open>The generator's text of canonical tiers whose labels have no parentheses combines with rules,
  and on its own it is read as an expression without rules.\<close>

lemma generated_plain:
  assumes ts: "canonical_config ts" and l: "list_all (\<lambda>t. no_parens (t_label t)) ts"
    and g: "generateExprFromVisualConfig tierName (Some ts) = Some e"
  shows "plain_base e" and "splitBillingExprAndRequestRules e = Inr \<lparr>sb_billingExpr = e, sb_requestRuleExpr = []\<rparr>"
proof -
  have c: "list_all canonical_tier ts" "ts \<noteq> []" using ts by (simp_all add: canonical_config_def)
  have "plain_base e \<and> splitBillingExprAndRequestRules e = Inr \<lparr>sb_billingExpr = e, sb_requestRuleExpr = []\<rparr>"
  proof (cases "\<exists>t. ts = [t] \<and> t_conditions t \<noteq> []")
    case True
    then obtain t where t: "ts = [t]" "t_conditions t \<noteq> []" by blast
    with c l g generate_one [of t tierName] guarded_tier_shape [of t] show ?thesis by simp
  next
    case False
    have "e = join '' : '' (map (piece_text \<circ> piece_of) ts)"
    proof (cases "2 \<le> length ts")
      case True
      with generate_many [OF ts] g show ?thesis by simp
    next
      case short: False
      with c(2) obtain t where t: "ts = [t]" by (cases ts) (auto simp: Suc_le_eq)
      with False c g generate_one [of t tierName] show ?thesis by simp
    qed
    with tiers_shape [OF c l] show ?thesis by simp
  qed
  then show "plain_base e" and "splitBillingExprAndRequestRules e = Inr \<lparr>sb_billingExpr = e, sb_requestRuleExpr = []\<rparr>"
    by simp_all
qed

end
