(* ===== verification/TieredEditor.thy ===== *)
theory TieredEditor
  imports TieredCombined Machines
begin

text \<open>
  The tiered pricing editor
  (\<open>web/src/pages/Setting/Ratio/components/TieredPricingEditor.jsx\<close>): editing tiers and rule
  groups, switching between the visual and the expression mode, presets, and the effects
  that keep the model of the pricing editor up to date.  The local cost estimate evaluates
  the expression as JavaScript and is not modelled.
\<close>

section \<open>Editing tiers\<close>

datatype tier_patch =
    Set_conditions "tier_cond list"
  | Set_input jsnum
  | Set_output jsnum
  | Set_extra string jsnum
  | Set_label string
  | Set_cache_mode cache_mode

text \<open>\<open>{ ...tier, ...patch }\<close>; leaving the timed cache mode also clears the one-hour price.\<close>

fun apply_patch :: "tier_patch \<Rightarrow> tier \<Rightarrow> tier" where
  "apply_patch (Set_conditions cs) t = t\<lparr>t_conditions := cs\<rparr>"
| "apply_patch (Set_input x) t = t\<lparr>input_unit_cost := x\<rparr>"
| "apply_patch (Set_output x) t = t\<lparr>output_unit_cost := x\<rparr>"
| "apply_patch (Set_extra f x) t = t\<lparr>extra_cost := (extra_cost t)(f \<mapsto> x)\<rparr>"
| "apply_patch (Set_label l) t = t\<lparr>t_label := l\<rparr>"
| "apply_patch (Set_cache_mode CACHE_MODE_GENERIC) t =
     t\<lparr>cache_mode_of := Some CACHE_MODE_GENERIC,
       extra_cost := (extra_cost t)(''cache_create_1h_unit_cost'' \<mapsto> Fin 0)\<rparr>"
| "apply_patch (Set_cache_mode CACHE_MODE_TIMED) t = t\<lparr>cache_mode_of := Some CACHE_MODE_TIMED\<rparr>"

definition map_at :: "nat \<Rightarrow> ('a \<Rightarrow> 'a) \<Rightarrow> 'a list \<Rightarrow> 'a list" where
  "map_at i f xs = (if i < length xs then xs[i := f (xs ! i)] else xs)"

definition drop_at :: "nat \<Rightarrow> 'a list \<Rightarrow> 'a list" where
  "drop_at i xs = take i xs @ drop (Suc i) xs"

definition updateTier :: "nat \<Rightarrow> tier_patch \<Rightarrow> tier list \<Rightarrow> tier list" where
  "updateTier i p ts = map_at i (\<lambda>t. normalizeVisualTier (apply_patch p t)) ts"

definition default_condition :: "string \<Rightarrow> tier_cond" where
  "default_condition v = \<lparr>tc_var = v, tc_op = ''<'', tc_value = JNum (Fin 200000)\<rparr>"

definition new_tier :: "string \<Rightarrow> tier" where
  "new_tier l =
     \<lparr>t_conditions = [], input_unit_cost = Fin 0, output_unit_cost = Fin 0, extra_cost = Map.empty,
      t_label = l, cache_mode_of = Some CACHE_MODE_GENERIC\<rparr>"

definition addTier :: "(nat \<Rightarrow> string) \<Rightarrow> tier list \<Rightarrow> tier list" where
  "addTier tierName ts =
     (let us = (if ts \<noteq> [] \<and> t_conditions (last ts) = []
                then butlast ts @ [(last ts)\<lparr>t_conditions := [default_condition ''len'']\<rparr>] else ts)
      in us @ [new_tier (tierName (length us + 1))])"

definition removeTier :: "nat \<Rightarrow> tier list \<Rightarrow> tier list" where
  "removeTier i ts =
     (if length ts \<le> 1 then ts
      else let next = drop_at i ts
           in if next = [] then next else butlast next @ [(last next)\<lparr>t_conditions := []\<rparr>])"

text \<open>The condition rows of a tier card.\<close>

definition tier_updateCondition :: "nat \<Rightarrow> tier_cond \<Rightarrow> tier_cond list \<Rightarrow> tier_cond list" where
  "tier_updateCondition ci c cs = map_at ci (\<lambda>_. c) cs"

definition tier_removeCondition :: "nat \<Rightarrow> tier_cond list \<Rightarrow> tier_cond list" where
  "tier_removeCondition ci cs = drop_at ci cs"

definition tier_addCondition :: "tier_cond list \<Rightarrow> tier_cond list" where
  "tier_addCondition cs =
     (if 2 \<le> length cs then cs
      else cs @ [default_condition (if ''len'' \<in> set (map tc_var cs) then ''c'' else ''len'')])"

text \<open>A price field: the cost an entered text stores, and the text shown for a cost.\<close>

definition price_change :: "string \<Rightarrow> jsnum option" where
  "price_change val =
     (if val = [] then Some (Fin 0)
      else let num = number_of_text val in if num = NaN then None else Some (priceToUnitCost num))"

definition price_shown :: "jsnum \<Rightarrow> string" where
  "price_shown p = (if p = Fin 0 then [] else text_of_number p)"

definition price_sync :: "jsnum \<Rightarrow> string \<Rightarrow> string" where
  "price_sync p txt =
     (if txt = [] \<and> p = Fin 0 then txt
      else if number_of_text txt \<noteq> NaN \<and> number_of_text txt = p then txt
      else price_shown p)"

section \<open>Editing rule groups\<close>

definition group_updateCondition :: "nat \<Rightarrow> condition \<Rightarrow> rule_group \<Rightarrow> rule_group" where
  "group_updateCondition ci c g = g\<lparr>conditions := map_at ci (\<lambda>_. c) (conditions g)\<rparr>"

definition group_removeCondition :: "nat \<Rightarrow> rule_group \<Rightarrow> rule_group" where
  "group_removeCondition ci g =
     (let next = drop_at ci (conditions g)
      in g\<lparr>conditions := (if next \<noteq> [] then next else [createEmptyCondition])\<rparr>)"

definition group_addCondition :: "condition \<Rightarrow> rule_group \<Rightarrow> rule_group" where
  "group_addCondition c g = g\<lparr>conditions := conditions g @ [c]\<rparr>"

section \<open>The editor\<close>

datatype editor_mode = VisualMode | RawMode

text \<open>The state of the component, and the two texts of the model it edits.\<close>

record tiered_state =
  te_mode :: editor_mode
  te_visual :: "tier list option"
  te_raw :: string
  te_groups :: "rule_group list"
  te_expr :: string
  te_rules :: string

definition effectiveExpr :: "(nat \<Rightarrow> string) \<Rightarrow> tiered_state \<Rightarrow> string option js_result" where
  "effectiveExpr tierName s =
     (case te_mode s of
        VisualMode \<Rightarrow> Inr (generateExprFromVisualConfig tierName (te_visual s))
      | RawMode \<Rightarrow> map_sum id (\<lambda>b. Some (sb_billingExpr b)) (splitBillingExprAndRequestRules (te_raw s)))"

definition parsed_groups :: "string \<Rightarrow> rule_group list js_result" where
  "parsed_groups r = map_sum id (\<lambda>gs. case gs of Some g \<Rightarrow> g | None \<Rightarrow> []) (tryParseRequestRuleExpr r)"

text \<open>The effects after a render: changed rules are parsed again, a changed expression is handed to
  the model unless it is \<open>null\<close>.\<close>

definition settle :: "(nat \<Rightarrow> string) \<Rightarrow> tiered_state \<Rightarrow> tiered_state \<Rightarrow> tiered_state js_result" where
  "settle tierName prev s =
     (case (if te_rules s \<noteq> te_rules prev then parsed_groups (te_rules s) else Inr (te_groups s)) of
        Inl e \<Rightarrow> Inl e
      | Inr gs \<Rightarrow>
          (case (effectiveExpr tierName prev, effectiveExpr tierName s) of
             (Inr old, Inr new) \<Rightarrow>
               Inr (s\<lparr>te_groups := gs,
                      te_expr := (case new of Some e \<Rightarrow> if new \<noteq> old then e else te_expr s | None \<Rightarrow> te_expr s)\<rparr>)
           | (Inl e, _) \<Rightarrow> Inl e
           | (_, Inl e) \<Rightarrow> Inl e))"

definition load_model :: "(nat \<Rightarrow> string) \<Rightarrow> string \<Rightarrow> tiered_state \<Rightarrow> tiered_state" where
  "load_model tierName e s =
     (case tryParseVisualConfig tierName e of
        Some cfg \<Rightarrow> s\<lparr>te_mode := VisualMode, te_visual := Some cfg, te_raw := e\<rparr>
      | None \<Rightarrow>
          if e \<noteq> [] then s\<lparr>te_mode := RawMode, te_raw := e, te_visual := None\<rparr>
          else s\<lparr>te_mode := VisualMode, te_visual := Some createDefaultVisualConfig, te_raw := []\<rparr>)"

definition handleVisualChange :: "tier list \<Rightarrow> tiered_state \<Rightarrow> tiered_state" where
  "handleVisualChange cfg s = s\<lparr>te_visual := Some cfg\<rparr>"

definition handleRawChange :: "string \<Rightarrow> tiered_state \<Rightarrow> tiered_state js_result" where
  "handleRawChange val s =
     map_sum id (\<lambda>b. s\<lparr>te_raw := val, te_rules := sb_requestRuleExpr b\<rparr>) (splitBillingExprAndRequestRules val)"

definition handleRequestRuleGroupsChange :: "rule_group list \<Rightarrow> tiered_state \<Rightarrow> tiered_state" where
  "handleRequestRuleGroupsChange gs s = s\<lparr>te_groups := gs, te_rules := buildRequestRuleExpr gs\<rparr>"

definition applyVisual :: "string \<Rightarrow> tier list \<Rightarrow> tiered_state \<Rightarrow> tiered_state js_result" where
  "applyVisual ruleStr cfg s =
     map_sum id (\<lambda>gs. s\<lparr>te_visual := Some cfg, te_groups := gs, te_rules := ruleStr, te_mode := VisualMode\<rparr>)
       (parsed_groups ruleStr)"

text \<open>Switching to the visual mode asks for confirmation when the expression cannot be read.\<close>

definition switch_to_visual :: "(nat \<Rightarrow> string) \<Rightarrow> bool \<Rightarrow> tiered_state \<Rightarrow> tiered_state js_result" where
  "switch_to_visual tierName confirmed s =
     (case splitBillingExprAndRequestRules (te_raw s) of
        Inl e \<Rightarrow> Inl e
      | Inr b \<Rightarrow>
          (case tryParseVisualConfig tierName (sb_billingExpr b) of
             Some cfg \<Rightarrow> applyVisual (sb_requestRuleExpr b) cfg s
           | None \<Rightarrow>
               if confirmed then applyVisual (sb_requestRuleExpr b) createDefaultVisualConfig s else Inr s))"

definition switch_to_raw :: "(nat \<Rightarrow> string) \<Rightarrow> tiered_state \<Rightarrow> tiered_state" where
  "switch_to_raw tierName s =
     (let expr = (case generateExprFromVisualConfig tierName (te_visual s) of Some e \<Rightarrow> e | None \<Rightarrow> te_expr s);
          combined = combineBillingExpr expr (buildRequestRuleExpr (te_groups s))
      in s\<lparr>te_raw := (if combined \<noteq> [] then combined else expr), te_mode := RawMode\<rparr>)"

definition applyPreset :: "(nat \<Rightarrow> string) \<Rightarrow> string \<Rightarrow> rule_group list \<Rightarrow> tiered_state \<Rightarrow> tiered_state" where
  "applyPreset tierName expr gs s =
     (let ruleExpr = buildRequestRuleExpr gs;
          combined = combineBillingExpr expr ruleExpr;
          s1 = s\<lparr>te_raw := (if combined \<noteq> [] then combined else expr), te_groups := gs, te_rules := ruleExpr\<rparr>
      in case tryParseVisualConfig tierName expr of
           Some cfg \<Rightarrow> s1\<lparr>te_visual := Some cfg\<rparr>
         | None \<Rightarrow> s1\<lparr>te_mode := RawMode, te_visual := None\<rparr>)"

datatype tiered_event =
    Visual_change "tier list"
  | Raw_change string
  | Groups_change "rule_group list"
  | Switch_to_visual bool
  | Switch_to_raw
  | Apply_preset string "rule_group list"
  | Select_model string string

definition handle_tiered :: "(nat \<Rightarrow> string) \<Rightarrow> tiered_event \<Rightarrow> tiered_state \<Rightarrow> tiered_state js_result" where
  "handle_tiered tierName ev s =
     (case ev of
        Visual_change cfg \<Rightarrow> Inr (handleVisualChange cfg s)
      | Raw_change val \<Rightarrow> handleRawChange val s
      | Groups_change gs \<Rightarrow> Inr (handleRequestRuleGroupsChange gs s)
      | Switch_to_visual ok \<Rightarrow> switch_to_visual tierName ok s
      | Switch_to_raw \<Rightarrow> Inr (switch_to_raw tierName s)
      | Apply_preset e gs \<Rightarrow> Inr (applyPreset tierName e gs s)
      | Select_model e r \<Rightarrow> Inr (load_model tierName e (s\<lparr>te_expr := e, te_rules := r\<rparr>)))"

text \<open>A handler and the effects after it; an exception takes the component down.\<close>

definition tiered_step :: "(nat \<Rightarrow> string) \<Rightarrow> tiered_event \<Rightarrow> tiered_state \<Rightarrow> tiered_state option" where
  "tiered_step tierName ev s =
     (case handle_tiered tierName ev s of
        Inl _ \<Rightarrow> None
      | Inr s' \<Rightarrow> (case settle tierName s s' of Inl _ \<Rightarrow> None | Inr t \<Rightarrow> Some t))"

text \<open>Mounting: the first render has no configuration yet, and its effect already hands its
  expression to the model; the second render has the loaded one.\<close>

definition mount_tiered :: "(nat \<Rightarrow> string) \<Rightarrow> string \<Rightarrow> string \<Rightarrow> tiered_state option" where
  "mount_tiered tierName e r =
     (case parsed_groups r of
        Inl _ \<Rightarrow> None
      | Inr gs \<Rightarrow>
          let s0 = \<lparr>te_mode = VisualMode, te_visual = None, te_raw = [], te_groups = gs,
                    te_expr = EMPTY_EXPR, te_rules = r\<rparr>
          in (case settle tierName s0 (load_model tierName e s0) of Inl _ \<Rightarrow> None | Inr t \<Rightarrow> Some t))"

section \<open>Presets\<close>

text \<open>The preset expressions with their request rules; the groups and labels of the menu are left out.\<close>

definition PRESETS :: "(string \<times> string \<times> rule_group list) list" where
  "PRESETS =
     [
      (''flat'',
       ''tier('' @ json_quote ''base'' @ '', p * 2 + c * 4)'',
       []),
      (''claude-opus'',
       ''tier('' @ json_quote ''base'' @ '', p * 5 + c * 25 + cr * 0.5 + cc * 6.25 + cc1h * 10)'',
       []),
      (''gpt-5.4'',
       ''len <= 272000 ? tier('' @ json_quote ''standard''
        @ '', p * 2.5 + c * 15 + cr * 0.25) : tier('' @ json_quote ''long_context''
        @ '', p * 5 + c * 22.5 + cr * 0.5)'',
       []),
      (''claude-sonnet'',
       ''len <= 200000 ? tier('' @ json_quote ''standard''
        @ '', p * 3 + c * 15 + cr * 0.3 + cc * 3.75 + cc1h * 6) : tier('' @ json_quote ''long_context''
        @ '', p * 6 + c * 22.5 + cr * 0.6 + cc * 7.5 + cc1h * 12)'',
       []),
      (''qwen3-max'',
       ''len <= 32000 ? tier('' @ json_quote ''short''
        @ '', p * 1.2 + c * 6 + cr * 0.24 + cc * 1.5) : len <= 128000 ? tier('' @ json_quote ''mid''
        @ '', p * 2.4 + c * 12 + cr * 0.48 + cc * 3) : tier('' @ json_quote ''long''
        @ '', p * 3 + c * 15 + cr * 0.6 + cc * 3.75)'',
       []),
      (''glm-4.5-air'',
       ''len < 32000 && c < 200 ? tier('' @ json_quote ''short_output''
        @ '', p * 0.8 + c * 2 + cr * 0.16) : len < 32000 && c >= 200 ? tier(''
        @ json_quote ''long_output'' @ '', p * 0.8 + c * 6 + cr * 0.16) : tier(''
        @ json_quote ''mid_context'' @ '', p * 1.2 + c * 8 + cr * 0.24)'',
       []),
      (''doubao-seed-1.8'',
       ''len <= 32000 && c <= 200 ? tier('' @ json_quote ''discount''
        @ '', p * 0.8 + c * 2 + cr * 0.16 + cc * 0.17) : len <= 32000 ? tier('' @ json_quote ''short''
        @ '', p * 0.8 + c * 8 + cr * 0.16 + cc * 0.17) : len <= 128000 ? tier('' @ json_quote ''mid''
        @ '', p * 1.2 + c * 16 + cr * 0.16 + cc * 0.17) : tier('' @ json_quote ''long''
        @ '', p * 2.4 + c * 24 + cr * 0.16 + cc * 0.17)'',
       []),
      (''gpt-image-1-mini'',
       ''tier('' @ json_quote ''base'' @ '', p * 2 + c * 8 + img * 2.5)'',
       []),
      (''gemini-2.5-flash'',
       ''tier('' @ json_quote ''base'' @ '', p * 0.3 + c * 2.5 + cr * 0.03 + ai * 1.0)'',
       []),
      (''gemini-3-pro-image'',
       ''tier('' @ json_quote ''base'' @ '', p * 2 + c * 12 + img_o * 120)'',
       []),
      (''qwen3-omni-flash'',
       ''tier('' @ json_quote ''base'' @ '', p * 0.43 + c * 3.06 + img * 0.78 + ai * 3.81 + ao * 15.11)'',
       []),
      (''claude-opus-fast'',
       ''tier('' @ json_quote ''base'' @ '', p * 5 + c * 25 + cr * 0.5 + cc * 6.25 + cc1h * 10)'',
       [\<lparr>conditions = [request_condition SOURCE_HEADER ''anthropic-beta'' MATCH_CONTAINS ''fast-mode-2026-02-01''], multiplier = ''6''\<rparr>]),
      (''gpt-5.4-tiers'',
       ''len <= 272000 ? tier('' @ json_quote ''standard''
        @ '', p * 2.5 + c * 15 + cr * 0.25) : tier('' @ json_quote ''long_context''
        @ '', p * 5 + c * 22.5 + cr * 0.5)'',
       [\<lparr>conditions = [request_condition SOURCE_PARAM ''service_tier'' MATCH_EQ ''priority''], multiplier = ''2''\<rparr>,
        \<lparr>conditions = [request_condition SOURCE_PARAM ''service_tier'' MATCH_EQ ''flex''], multiplier = ''0.5''\<rparr>]),
      (''night-discount'',
       ''tier('' @ json_quote ''base'' @ '', p * 3 + c * 15)'',
       [\<lparr>conditions = [time_condition TF_hour ''Asia/Shanghai'' MATCH_RANGE [] ''21'' ''6''], multiplier = ''0.5''\<rparr>]),
      (''weekend-discount'',
       ''tier('' @ json_quote ''base'' @ '', p * 3 + c * 15)'',
       [\<lparr>conditions = [time_condition TF_weekday ''Asia/Shanghai'' MATCH_EQ ''0'' [] []], multiplier = ''0.8''\<rparr>,
        \<lparr>conditions = [time_condition TF_weekday ''Asia/Shanghai'' MATCH_EQ ''6'' [] []], multiplier = ''0.8''\<rparr>]),
      (''new-year-promo'',
       ''tier('' @ json_quote ''base'' @ '', p * 3 + c * 15)'',
       [\<lparr>conditions = [time_condition TF_month ''Asia/Shanghai'' MATCH_EQ ''1'' [] [], time_condition TF_day ''Asia/Shanghai'' MATCH_EQ ''1'' [] []], multiplier = ''0.5''\<rparr>])]"

lemma presets_rules: "list_all (\<lambda>(k, e, gs). list_all canonical_group gs) PRESETS"
  by code_simp

text \<open>The rules of every preset survive the editor's round through their text.\<close>

lemma presets_rules_kept:
  "(k, e, gs) \<in> set PRESETS \<Longrightarrow> parsed_groups (buildRequestRuleExpr gs) = Inr gs"
  using presets_rules parse_rules [of gs] by (fastforce simp: parsed_groups_def list_all_iff)

section \<open>Edits keep a configuration canonical\<close>

lemma default_canonical: "canonical_cond (default_condition ''len'')" "canonical_cond (default_condition ''c'')"
  by code_simp+

lemma stable_zero: "stable_cost (Fin 0)"
  by code_simp

lemma new_tier_canonical: "l \<noteq> [] \<Longrightarrow> canonical_tier (new_tier l)"
  by (simp add: canonical_tier_def new_tier_def stable_zero canonical_extra_def getTierCacheMode_def list_all_iff)

lemma set_conditions_canonical:
  "canonical_tier t \<Longrightarrow> list_all canonical_cond cs \<Longrightarrow> canonical_tier (t\<lparr>t_conditions := cs\<rparr>)"
  by (simp add: canonical_tier_def getTierCacheMode_def)

lemma canonical_config_snoc:
  "canonical_config (ts @ [t]) \<longleftrightarrow>
     list_all canonical_tier ts \<and> canonical_tier t
     \<and> (ts \<noteq> [] \<longrightarrow> list_all (\<lambda>u. t_conditions u \<noteq> []) ts \<and> t_conditions t = [])"
  by (cases ts) (auto simp: canonical_config_def)

lemma config_cases:
  assumes "canonical_config ts"
  obtains us t where "ts = us @ [t]"
  using assms by (cases ts rule: rev_cases) (auto simp: canonical_config_def)

lemma add_canonical:
  assumes "canonical_config ts" and "\<And>n. tierName n \<noteq> []"
  shows "canonical_config (addTier tierName ts)"
proof -
  obtain us t where ts: "ts = us @ [t]" using assms(1) by (rule config_cases)
  have n: "canonical_tier (new_tier (tierName k))" "t_conditions (new_tier (tierName k)) = []" for k
    using assms(2) new_tier_canonical by (simp_all add: new_tier_def)
  have t: "canonical_tier t" and us: "list_all canonical_tier us"
      "us \<noteq> [] \<Longrightarrow> list_all (\<lambda>u. t_conditions u \<noteq> []) us"
    using assms(1) unfolding ts canonical_config_snoc by simp_all
  show ?thesis
  proof (cases "t_conditions t = []")
    case True
    let ?t = "t\<lparr>t_conditions := [default_condition ''len'']\<rparr>"
    have "canonical_tier ?t"
      using t default_canonical by (intro set_conditions_canonical) simp_all
    then have "canonical_config ((us @ [?t]) @ [new_tier (tierName k)])" for k
      unfolding canonical_config_snoc using n us by (cases "us = []") auto
    then show ?thesis by (simp add: addTier_def Let_def ts True)
  next
    case False
    then have "canonical_config ((us @ [t]) @ [new_tier (tierName k)])" for k
      unfolding canonical_config_snoc using n us t by (cases "us = []") auto
    then show ?thesis by (simp add: addTier_def Let_def ts False)
  qed
qed

lemma set_drop_at: "set (drop_at i xs) \<subseteq> set xs"
  by (auto simp: drop_at_def dest: in_set_takeD in_set_dropD)

lemma butlast_drop_at: "set (butlast (drop_at i xs)) \<subseteq> set (butlast xs)"
proof (cases xs rule: rev_cases)
  case (snoc ys y)
  show ?thesis
  proof (cases "i < length ys")
    case True
    then have "drop_at i xs = drop_at i ys @ [y]" by (simp add: snoc drop_at_def)
    with set_drop_at [of i ys] snoc show ?thesis by simp
  next
    case False
    then have "drop_at i xs = ys \<or> drop_at i xs = xs" by (auto simp: snoc drop_at_def)
    then show ?thesis
      using snoc by (auto dest: in_set_butlastD)
  qed
qed (simp add: drop_at_def)

lemma remove_canonical:
  assumes "canonical_config ts"
  shows "canonical_config (removeTier i ts)"
proof (cases "length ts \<le> 1")
  case False
  let ?n = "drop_at i ts"
  have all: "list_all canonical_tier ts" and cond: "list_all (\<lambda>t. t_conditions t \<noteq> []) (butlast ts)"
    using assms False by (simp_all add: canonical_config_def)
  have "length ?n \<noteq> 0" using False by (auto simp: drop_at_def)
  then have ne: "?n \<noteq> []" by simp
  have "list_all canonical_tier (butlast ?n)" "list_all (\<lambda>t. t_conditions t \<noteq> []) (butlast ?n)"
    using all cond set_drop_at [of i ts] butlast_drop_at [of i ts]
    by (auto simp: list_all_iff dest: in_set_butlastD)
  moreover have "canonical_tier ((last ?n)\<lparr>t_conditions := []\<rparr>)"
    using all set_drop_at [of i ts] last_in_set [OF ne] by (intro set_conditions_canonical) (auto simp: list_all_iff)
  ultimately show ?thesis
    using False ne by (simp add: removeTier_def Let_def canonical_config_snoc)
qed (simp add: removeTier_def assms)

text \<open>Patches that set a price or a name.\<close>

fun price_patch :: "tier_patch \<Rightarrow> bool" where
  "price_patch (Set_input x) \<longleftrightarrow> stable_cost x"
| "price_patch (Set_output x) \<longleftrightarrow> stable_cost x"
| "price_patch (Set_label l) \<longleftrightarrow> l \<noteq> []"
| "price_patch _ \<longleftrightarrow> False"

lemma patch_canonical:
  assumes "canonical_tier t" "price_patch p"
  shows "canonical_tier (normalizeVisualTier (apply_patch p t))
    \<and> t_conditions (normalizeVisualTier (apply_patch p t)) = t_conditions t"
  using assms
  by (cases p; cases t) (simp_all add: canonical_tier_def normalizeVisualTier_def getTierCacheMode_def)

lemma list_all_update: "list_all P xs \<Longrightarrow> P x \<Longrightarrow> list_all P (xs[i := x])"
  using set_update_subset_insert [of xs i x] by (auto simp: list_all_iff)

lemma update_canonical:
  assumes ts: "canonical_config ts" and p: "price_patch p"
  shows "canonical_config (updateTier i p ts)"
proof (cases "i < length ts")
  case True
  let ?u = "normalizeVisualTier (apply_patch p (ts ! i))"
  have u: "canonical_tier ?u" "t_conditions ?u = t_conditions (ts ! i)"
    using patch_canonical [of "ts ! i" p] ts p True by (auto simp: canonical_config_def list_all_iff)
  have c: "map t_conditions (ts[i := ?u]) = map t_conditions ts"
    using True list_update_id [of "map t_conditions ts" i] by (simp add: map_update u(2))
  have b: "list_all (\<lambda>t. t_conditions t \<noteq> []) (butlast xs) = list_all (\<lambda>c. c \<noteq> []) (butlast (map t_conditions xs))" for xs
    by (simp add: list.pred_map comp_def flip: map_butlast)
  have "list_all (\<lambda>t. t_conditions t \<noteq> []) (butlast (ts[i := ?u])) = list_all (\<lambda>t. t_conditions t \<noteq> []) (butlast ts)"
    unfolding b c ..
  moreover have "ts \<noteq> [] \<Longrightarrow> t_conditions (last (ts[i := ?u])) = t_conditions (last ts)"
    using c by (metis last_map list_update_nonempty)
  ultimately show ?thesis
    using ts u(1) True list_all_update [of canonical_tier ts ?u i]
    by (simp add: updateTier_def map_at_def canonical_config_def)
qed (simp add: updateTier_def map_at_def ts)

section \<open>The model follows the editor\<close>

definition in_sync :: "(nat \<Rightarrow> string) \<Rightarrow> tiered_state \<Rightarrow> bool" where
  "in_sync tierName s \<longleftrightarrow>
     (case effectiveExpr tierName s of Inr (Some e) \<Rightarrow> te_expr s = e | _ \<Rightarrow> True)"

text \<open>Editing one model: every event but the selection of another one.\<close>

definition edit_step :: "(nat \<Rightarrow> string) \<Rightarrow> tiered_event \<Rightarrow> tiered_state \<Rightarrow> tiered_state option" where
  "edit_step tierName ev s =
     (case ev of Select_model e r \<Rightarrow> None | _ \<Rightarrow> tiered_step tierName ev s)"

lemma effective_settled:
  "effectiveExpr tierName (s\<lparr>te_groups := gs, te_expr := e\<rparr>) = effectiveExpr tierName s"
  by (simp add: effectiveExpr_def cong: editor_mode.case_cong)

lemma settle_sync:
  assumes "settle tierName prev s = Inr t" and "in_sync tierName prev" and "te_expr s = te_expr prev"
  shows "in_sync tierName t"
proof -
  from assms(1) obtain gs old new where
    o: "effectiveExpr tierName prev = Inr old" and n: "effectiveExpr tierName s = Inr new"
    and t: "t = s\<lparr>te_groups := gs,
        te_expr := (case new of Some e \<Rightarrow> if new \<noteq> old then e else te_expr s | None \<Rightarrow> te_expr s)\<rparr>"
    by (auto simp: settle_def split: sum.splits)
  from assms(2,3) show ?thesis
    by (auto simp: in_sync_def t effective_settled n o split: option.splits)
qed

lemma map_sum_Inr: "map_sum f g x = Inr y \<longleftrightarrow> (\<exists>z. x = Inr z \<and> y = g z)"
  by (cases x) auto

lemma handlers_keep_expr:
  "handle_tiered tierName ev s = Inr s' \<Longrightarrow> (\<And>e r. ev \<noteq> Select_model e r) \<Longrightarrow> te_expr s' = te_expr s"
  by (cases ev) (auto simp: handle_tiered_def handleVisualChange_def handleRawChange_def
      handleRequestRuleGroupsChange_def switch_to_visual_def switch_to_raw_def applyPreset_def
      applyVisual_def Let_def map_sum_Inr split: sum.splits option.splits if_splits)

lemma mount_sync: "mount_tiered tierName e r = Some s \<Longrightarrow> in_sync tierName s"
proof -
  assume m: "mount_tiered tierName e r = Some s"
  then obtain gs where g: "parsed_groups r = Inr gs"
    by (auto simp: mount_tiered_def split: sum.splits)
  let ?s0 = "\<lparr>te_mode = VisualMode, te_visual = None, te_raw = [], te_groups = gs, te_expr = EMPTY_EXPR, te_rules = r\<rparr>"
  have "in_sync tierName ?s0"
    by (simp add: in_sync_def effectiveExpr_def generateExprFromVisualConfig_def)
  moreover have "settle tierName ?s0 (load_model tierName e ?s0) = Inr s"
    using m g by (auto simp: mount_tiered_def Let_def split: sum.splits)
  moreover have "te_expr (load_model tierName e ?s0) = te_expr ?s0"
    by (simp add: load_model_def split: option.splits)
  ultimately show ?thesis using settle_sync by blast
qed

interpretation tiered: invariant_system "edit_step tierName"
    "\<lambda>s. \<exists>e r. mount_tiered tierName e r = Some s" "in_sync tierName" for tierName
proof unfold_locales
  show "in_sync tierName s" if "\<exists>e r. mount_tiered tierName e r = Some s" for s
    using that mount_sync by blast
  show "in_sync tierName s'" if "in_sync tierName s" "edit_step tierName e s = Some s'" for s e s'
  proof -
    have ns: "e \<noteq> Select_model x r" for x r using that(2) by (auto simp: edit_step_def)
    then have "tiered_step tierName e s = Some s'"
      using that(2) by (auto simp: edit_step_def split: tiered_event.splits)
    then obtain u where "handle_tiered tierName e s = Inr u" "settle tierName s u = Inr s'"
      by (auto simp: tiered_step_def split: sum.splits)
    with handlers_keep_expr ns that(1) settle_sync show ?thesis by blast
  qed
qed

section \<open>Properties\<close>

text \<open>
  Adding a tier, removing any tier, and entering prices and names keep a configuration
  canonical, so that its expression can always be generated and read back.
\<close>

theorem tier_edits_keep_canonical:
  assumes "canonical_config ts" and "\<And>n. tierName n \<noteq> []"
  shows "canonical_config (addTier tierName ts) \<and> canonical_config (removeTier i ts)
    \<and> (price_patch p \<longrightarrow> canonical_config (updateTier i p ts))"
  using assms add_canonical remove_canonical update_canonical by blast

lemma default_config_canonical: "canonical_config createDefaultVisualConfig"
  by (simp add: canonical_config_def canonical_tier_def createDefaultVisualConfig_def normalizeVisualTier_def
      stable_zero canonical_extra_def getTierCacheMode_def list_all_iff)

lemma tier_edits_keep_canonical_witness:
  "canonical_config (addTier (\<lambda>n. ''tier '' @ show_nat n) createDefaultVisualConfig)
   \<and> canonical_config (updateTier 0 (Set_input (Fin 3)) createDefaultVisualConfig)"
proof -
  have "price_patch (Set_input (Fin 3))" by code_simp
  with tier_edits_keep_canonical [OF default_config_canonical, of "\<lambda>n. ''tier '' @ show_nat n"]
  show ?thesis by simp
qed

text \<open>
  C12: The expression the editor hands to the model is the one it shows, after any sequence of
  edits, mode switches, presets and rule changes; and a canonical visual configuration is
  read back from the stored expression when the model is opened again.
\<close>

theorem saved_expression_reopens:
  assumes "mount_tiered tierName e r = Some s0" and "reached (edit_step tierName) s0 s"
    and "effectiveExpr tierName s = Inr (Some x)"
  shows "te_expr s = x
    \<and> (te_mode s = VisualMode \<and> te_visual s = Some ts \<and> canonical_config ts \<longrightarrow>
         te_visual (load_model tierName (te_expr s) s1) = Some ts
         \<and> te_mode (load_model tierName (te_expr s) s1) = VisualMode)"
proof -
  have "in_sync tierName s" using tiered.inv_reached [OF assms(2)] assms(1) by blast
  with assms(3) have x: "te_expr s = x" by (simp add: in_sync_def)
  moreover have "te_visual (load_model tierName (te_expr s) s1) = Some ts
      \<and> te_mode (load_model tierName (te_expr s) s1) = VisualMode"
    if "te_mode s = VisualMode" "te_visual s = Some ts" "canonical_config ts"
  proof -
    have "generateExprFromVisualConfig tierName (Some ts) = Some x"
      using assms(3) that by (simp add: effectiveExpr_def)
    with config_back [OF that(3), of tierName] x have "tryParseVisualConfig tierName (te_expr s) = Some ts"
      by auto
    then show ?thesis by (simp add: load_model_def)
  qed
  ultimately show ?thesis by blast
qed

lemma saved_expression_reopens_witness:
  "\<exists>s0 s. mount_tiered (\<lambda>n. show_nat n) [] [] = Some s0
     \<and> edit_step (\<lambda>n. show_nat n) (Visual_change (addTier (\<lambda>n. show_nat n) createDefaultVisualConfig)) s0 = Some s
     \<and> te_visual (load_model (\<lambda>n. show_nat n) (te_expr s) s) = te_visual s"
proof -
  let ?n = "\<lambda>n. show_nat n" and ?ts = "addTier (\<lambda>n. show_nat n) createDefaultVisualConfig"
  have p: "parsed_groups [] = Inr []" by code_simp
  obtain s0 where s0: "mount_tiered ?n [] [] = Some s0" and m0: "te_mode s0 = VisualMode" "te_rules s0 = []"
    using config_back [OF default_config_canonical, of ?n]
    by (auto simp: mount_tiered_def p settle_def load_model_def effectiveExpr_def tryParseVisualConfig_def
        generateExprFromVisualConfig_def)
  have c: "canonical_config ?ts"
    by (rule add_canonical [OF default_config_canonical]) (simp add: show_nat_def)
  from config_back [OF c, of ?n] obtain x where x: "generateExprFromVisualConfig ?n (Some ?ts) = Some x" by blast
  obtain s where s: "edit_step ?n (Visual_change ?ts) s0 = Some s"
    and m: "te_mode s = VisualMode" "te_visual s = Some ?ts"
    using m0 by (auto simp: edit_step_def tiered_step_def handle_tiered_def handleVisualChange_def settle_def
        effectiveExpr_def)
  have r: "reached (edit_step ?n) s0 s" using s by (rule reached.event [OF reached.start])
  have "effectiveExpr ?n s = Inr (Some x)" using m x by (simp add: effectiveExpr_def)
  from saved_expression_reopens [OF s0 r this, of ?ts s] m c s0 s show ?thesis by auto
qed

text \<open>The text that both modes share, and what it comes apart into.\<close>

lemma switch_text_splits:
  assumes "canonical_config ts" "list_all (\<lambda>t. no_parens (t_label t)) ts" "list_all canonical_group gs"
    and "generateExprFromVisualConfig tierName (Some ts) = Some e"
  shows "combineBillingExpr e (buildRequestRuleExpr gs) \<noteq> []"
    and "splitBillingExprAndRequestRules (combineBillingExpr e (buildRequestRuleExpr gs))
      = Inr \<lparr>sb_billingExpr = e, sb_requestRuleExpr = buildRequestRuleExpr gs\<rparr>"
proof -
  note g = generated_plain [OF assms(1,2,4)]
  have e: "e \<noteq> []" "trimmed e" using g(1) by (simp_all add: plain_base_def)
  then show "combineBillingExpr e (buildRequestRuleExpr gs) \<noteq> []"
    by (simp add: combineBillingExpr_def Let_def trim_by_id)
  show "splitBillingExprAndRequestRules (combineBillingExpr e (buildRequestRuleExpr gs))
      = Inr \<lparr>sb_billingExpr = e, sb_requestRuleExpr = buildRequestRuleExpr gs\<rparr>"
  proof (cases "gs = []")
    case True
    with e g(2) show ?thesis
      by (simp add: combineBillingExpr_def Let_def trim_by_id buildRequestRuleExpr_def filter_nonempty_def)
  next
    case False
    with g(1) assms(3) show ?thesis by (intro split_combined) (simp_all add: list_all_iff)
  qed
qed

text \<open>
  C13: In the visual mode, with canonical tiers whose labels have no parentheses and canonical rule
  groups (possibly none) of which the stored rules are the text, switching to the expression mode
  and back loses nothing: the tiers, the rule groups and both texts of the model are as before.
  What is excluded is lost by the code: a parenthesis in a label keeps the visual editor from
  reading the expression back (\<open>label_parenthesis_kept\<close>), and \<open>||\<close> in a value its rule.
\<close>

theorem mode_switch_roundtrip:
  assumes "te_mode s = VisualMode" "te_visual s = Some ts" "canonical_config ts"
    and "list_all (\<lambda>t. no_parens (t_label t)) ts"
    and "te_rules s = buildRequestRuleExpr (te_groups s)" "list_all canonical_group (te_groups s)"
  shows "\<exists>s1 s2. tiered_step tierName Switch_to_raw s = Some s1 \<and> te_mode s1 = RawMode
    \<and> tiered_step tierName (Switch_to_visual ok) s1 = Some s2 \<and> s2 = s\<lparr>te_raw := te_raw s1\<rparr>"
proof -
  let ?gs = "te_groups s"
  obtain e where gen: "generateExprFromVisualConfig tierName (Some ts) = Some e"
      and again: "tryParseVisualConfig tierName e = Some ts"
    using config_back [OF assms(3), of tierName] by blast
  let ?raw = "combineBillingExpr e (buildRequestRuleExpr ?gs)"
  let ?s1 = "s\<lparr>te_raw := ?raw, te_mode := RawMode\<rparr>"
  note split = switch_text_splits [OF assms(3,4,6) gen]
  have "switch_to_raw tierName s = ?s1"
    using assms(2) gen split(1) by (simp add: switch_to_raw_def Let_def)
  then have s1: "tiered_step tierName Switch_to_raw s = Some ?s1"
    using assms(1,2) gen split(2) by (simp add: tiered_step_def handle_tiered_def settle_def effectiveExpr_def)
  have g: "parsed_groups (buildRequestRuleExpr ?gs) = Inr ?gs"
    using parse_rules [of ?gs] assms(6) by (simp add: parsed_groups_def list_all_iff)
  have "tiered_step tierName (Switch_to_visual ok) ?s1 = Some (s\<lparr>te_raw := ?raw\<rparr>)"
    using assms(1,2,5) gen split(2) g again
    by (cases s) (simp add: tiered_step_def handle_tiered_def switch_to_visual_def applyVisual_def settle_def
        effectiveExpr_def)
  with s1 show ?thesis by auto
qed

definition header_rule :: "rule_group list" where
  "header_rule = [\<lparr>conditions = [request_condition SOURCE_HEADER ''x'' MATCH_EXISTS []], multiplier = ''2''\<rparr>]"

definition default_text :: string where
  "default_text = ''tier('' @ json_quote ''base'' @ '', p * 0 + c * 0)''"

lemma mode_switch_roundtrip_witness:
  "let s = \<lparr>te_mode = VisualMode, te_visual = Some createDefaultVisualConfig, te_raw = [],
            te_groups = header_rule, te_expr = default_text, te_rules = buildRequestRuleExpr header_rule\<rparr>
   in \<exists>s1 s2. tiered_step (\<lambda>n. show_nat n) Switch_to_raw s = Some s1 \<and> te_mode s1 = RawMode
    \<and> tiered_step (\<lambda>n. show_nat n) (Switch_to_visual False) s1 = Some s2 \<and> s2 = s\<lparr>te_raw := te_raw s1\<rparr>"
proof -
  let ?s = "\<lparr>te_mode = VisualMode, te_visual = Some createDefaultVisualConfig, te_raw = [],
            te_groups = header_rule, te_expr = default_text, te_rules = buildRequestRuleExpr header_rule\<rparr>"
  have "list_all (\<lambda>t. no_parens (t_label t)) createDefaultVisualConfig" "list_all canonical_group header_rule"
    by code_simp+
  then show ?thesis
    unfolding Let_def
    using default_config_canonical by (intro mode_switch_roundtrip [of ?s]) simp_all
qed

section \<open>Where the editor changes what it was given\<close>

text \<open>A model whose base expression has no visual form opens in the expression mode without its
  request rules; the first keystroke there removes them from the model.\<close>

lemma raw_edit_drops_rules:
  "map_option te_rules (mount_tiered (\<lambda>n. show_nat n) ''max(p, c)'' (buildRequestRuleExpr header_rule))
     = Some (buildRequestRuleExpr header_rule)
   \<and> buildRequestRuleExpr header_rule \<noteq> []
   \<and> map_option te_rules (Option.bind (mount_tiered (\<lambda>n. show_nat n) ''max(p, c)'' (buildRequestRuleExpr header_rule))
        (tiered_step (\<lambda>n. show_nat n) (Raw_change ''max(p, c )''))) = Some []"
  by (intro conjI) code_simp+

text \<open>A single tier is accepted without the comparison made for several tiers: a price such as
  \<open>1-2\<close> is read as not a number, and opening the model already stores the price 0.\<close>

lemma single_tier_price_lost:
  "map_option te_expr (mount_tiered (\<lambda>n. show_nat n)
       (''tier('' @ json_quote ''b'' @ '', p * 1-2 + c * 3)'') [])
     = Some (''tier('' @ json_quote ''b'' @ '', p * 0 + c * 3)'')"
  by code_simp

end
