(* ===== verification/TokenConfig.thy ===== *)
theory TokenConfig
  imports StoredData
begin

text \<open>
  Access tokens and the settings of the token test (\<open>web/src/helpers/token.js\<close>): reading the
  keys of the active tokens, the address of the server, and the test configuration a group
  gets from the stored status, the defaults of its group and the choices of the user.  HTTP
  requests are parameters that give the body of the answer or the error they reject with.
\<close>

section \<open>Keys\<close>

text \<open>\<open>post id\<close> is the answer to \<open>POST /api/token/id/key\<close>.\<close>

definition fetchTokenKey :: "(jsval \<Rightarrow> jsval js_result) \<Rightarrow> jsval \<Rightarrow> jsval js_result" where
  "fetchTokenKey post tokenId =
     (case post tokenId of
        Inl e \<Rightarrow> Inl e
      | Inr body \<Rightarrow>
          let key = value_get (value_get body ''data'') ''key'';
              message = value_get body ''message''
          in if \<not> truthy (value_get body ''success'') \<or> \<not> truthy key
             then Inl (JsError (text_of_value (js_or message (JStr ''Failed to fetch token key''))))
             else Inr key)"

text \<open>The tokens of the answer; \<open>None\<close> when reading them throws.\<close>

definition token_items :: "jsval \<Rightarrow> jsval list option" where
  "token_items data =
     (case data of
        JArr vs \<Rightarrow> Some vs
      | _ \<Rightarrow> if is_nullish data then None
             else (case js_or (value_get data ''items'') (JArr []) of JArr vs \<Rightarrow> Some vs | _ \<Rightarrow> None))"

definition active_tokens :: "jsval list \<Rightarrow> jsval list" where
  "active_tokens tokenItems = filter (\<lambda>token. value_get token ''status'' = JNum (Fin 1)) tokenItems"

definition fulfilled :: "jsval js_result \<Rightarrow> jsval option" where
  "fulfilled r = (case r of Inr v \<Rightarrow> if truthy v then Some v else None | Inl _ \<Rightarrow> None)"

definition fetchTokenKeys :: "jsval js_result \<Rightarrow> (jsval \<Rightarrow> jsval js_result) \<Rightarrow> jsval list" where
  "fetchTokenKeys response post =
     (case response of
        Inl _ \<Rightarrow> []
      | Inr body \<Rightarrow>
          if is_nullish body \<or> \<not> truthy (value_get body ''success'') then []
          else (case token_items (value_get body ''data'') of
                  None \<Rightarrow> []
                | Some tokenItems \<Rightarrow>
                    if list_ex is_nullish tokenItems then []
                    else List.map_filter (\<lambda>token. fulfilled (fetchTokenKey post (value_get token ''id'')))
                           (active_tokens tokenItems)))"

section \<open>The address of the server\<close>

definition getServerAddress :: "string \<Rightarrow> storage \<Rightarrow> jsval" where
  "getServerAddress origin st =
     (let serverAddress =
        (case getItem st ''status'' of
           None \<Rightarrow> JStr []
         | Some raw \<Rightarrow>
             if raw = [] then JStr []
             else (case json_parse raw of
                     Inl _ \<Rightarrow> JStr []
                   | Inr status \<Rightarrow> js_or (value_get status ''server_address'') (JStr [])))
      in if truthy serverAddress then serverAddress else JStr origin)"

section \<open>Configuration of the token test\<close>

definition DEFAULT_claude_model :: string where "DEFAULT_claude_model = ''claude-opus-4-6''"

definition DEFAULT_responses_model :: string where "DEFAULT_responses_model = ''gpt-5.4''"

definition TOKEN_TEST_MODES :: "string list" where
  "TOKEN_TEST_MODES = [''both'', ''claude'', ''responses'']"

definition TOKEN_TEST_DEFAULT_MAX_TOKENS :: jsnum where "TOKEN_TEST_DEFAULT_MAX_TOKENS = Fin 16"

record test_config =
  tc_mode :: string
  tc_claude_model :: string
  tc_responses_model :: string
  tc_max_tokens :: jsnum

definition config_entries :: "test_config \<Rightarrow> (string \<times> jsval) list" where
  "config_entries c =
     [(''mode'', JStr (tc_mode c)), (''claude_model'', JStr (tc_claude_model c)),
      (''responses_model'', JStr (tc_responses_model c)), (''max_tokens'', JNum (tc_max_tokens c))]"

definition getStatusCache :: "storage \<Rightarrow> jsval" where
  "getStatusCache st =
     (case getItem st ''status'' of
        None \<Rightarrow> JNull
      | Some raw \<Rightarrow> if raw = [] then JNull
                    else (case json_parse raw of Inl _ \<Rightarrow> JNull | Inr status \<Rightarrow> status))"

text \<open>\<open>String(v || '').trim()\<close>, and the same with \<open>|| d\<close> behind it.\<close>

definition trimmed_text :: "jsval \<Rightarrow> string" where
  "trimmed_text v = js_trim (text_of_value (js_or v (JStr [])))"

definition text_or :: "jsval \<Rightarrow> string \<Rightarrow> string" where
  "text_or v d = (if trimmed_text v \<noteq> [] then trimmed_text v else d)"

definition getTokenTestDefaults :: "storage \<Rightarrow> string \<times> string" where
  "getTokenTestDefaults st =
     (let defaults = value_get (getStatusCache st) ''token_test_defaults''
      in if is_object_value defaults
         then (text_or (value_get defaults ''claude_model'') DEFAULT_claude_model,
               text_or (value_get defaults ''responses_model'') DEFAULT_responses_model)
         else (DEFAULT_claude_model, DEFAULT_responses_model))"

definition group_defaults_of :: "jsval \<Rightarrow> jsval" where
  "group_defaults_of config =
     JObj [(''mode'', JStr (trimmed_text (value_get config ''mode''))),
           (''claude_model'', JStr (trimmed_text (value_get config ''claude_model''))),
           (''responses_model'', JStr (trimmed_text (value_get config ''responses_model'')))]"

definition plain_object :: "jsval \<Rightarrow> bool" where
  "plain_object v \<longleftrightarrow> (case v of JObj _ \<Rightarrow> True | _ \<Rightarrow> False)"

definition add_group_defaults :: "(string \<times> jsval) list \<Rightarrow> string \<times> jsval \<Rightarrow> (string \<times> jsval) list" where
  "add_group_defaults acc gc =
     (let normalizedGroup = js_trim (fst gc)
      in if normalizedGroup = [] \<or> \<not> plain_object (snd gc) then acc
         else obj_put normalizedGroup (group_defaults_of (snd gc)) acc)"

definition normalizeTokenTestGroupDefaults :: "jsval \<Rightarrow> (string \<times> jsval) list" where
  "normalizeTokenTestGroupDefaults rawDefaults =
     (case rawDefaults of JObj kvs \<Rightarrow> foldl add_group_defaults [] kvs | _ \<Rightarrow> [])"

definition getTokenTestDefaultsByGroup :: "storage \<Rightarrow> (string \<times> jsval) list" where
  "getTokenTestDefaultsByGroup st =
     normalizeTokenTestGroupDefaults (value_get (getStatusCache st) ''token_test_defaults_by_group'')"

definition getDefaultTokenTestConfig :: "storage \<Rightarrow> test_config" where
  "getDefaultTokenTestConfig st =
     \<lparr>tc_mode = ''both'', tc_claude_model = fst (getTokenTestDefaults st),
      tc_responses_model = snd (getTokenTestDefaults st), tc_max_tokens = TOKEN_TEST_DEFAULT_MAX_TOKENS\<rparr>"

definition normalizeTokenTestConfig :: "storage \<Rightarrow> jsval \<Rightarrow> test_config" where
  "normalizeTokenTestConfig st config =
     (let defaults = getDefaultTokenTestConfig st;
          nextMode = js_trim (text_of_value (js_or (value_get config ''mode'') (JStr (tc_mode defaults))));
          n = number_of_value (value_get config ''max_tokens'')
      in \<lparr>tc_mode = (if nextMode \<in> set TOKEN_TEST_MODES then nextMode else ''both''),
          tc_claude_model = text_or (value_get config ''claude_model'') (tc_claude_model defaults),
          tc_responses_model = text_or (value_get config ''responses_model'') (tc_responses_model defaults),
          tc_max_tokens = (if is_finite_num n \<and> js_less (Fin 0) n then n else tc_max_tokens defaults)\<rparr>)"

text \<open>The entries of \<open>o[k] || {}\<close>.\<close>

definition entries_at :: "(string \<times> jsval) list \<Rightarrow> string \<Rightarrow> (string \<times> jsval) list" where
  "entries_at d k = own_entries (js_or (value_get (JObj d) k) (JObj []))"

definition merged_test_config :: "storage \<Rightarrow> jsval \<Rightarrow> jsval \<Rightarrow> (string \<times> jsval) list" where
  "merged_test_config st groupName overrides =
     (let groupDefaults = getTokenTestDefaultsByGroup st;
          normalizedGroup = trimmed_text groupName
      in obj_spread (obj_spread (obj_spread (config_entries (getDefaultTokenTestConfig st))
             (entries_at groupDefaults ''default''))
             (if normalizedGroup \<noteq> [] then entries_at groupDefaults normalizedGroup else []))
           (own_entries (js_or overrides (JObj []))))"

definition resolveTokenTestConfig :: "storage \<Rightarrow> jsval \<Rightarrow> jsval \<Rightarrow> test_config" where
  "resolveTokenTestConfig st groupName overrides =
     normalizeTokenTestConfig st (JObj (merged_test_config st groupName overrides))"

text \<open>The messages of the validation.\<close>

datatype defaults_error =
    NotAnObject
  | EmptyGroupName
  | GroupNotAnObject string
  | UnknownMode string
  | NothingConfigured string

definition check_group_defaults :: "string \<times> jsval \<Rightarrow> defaults_error option" where
  "check_group_defaults gc =
     (let normalizedGroup = js_trim (fst gc);
          mode = trimmed_text (value_get (snd gc) ''mode'');
          claudeModel = trimmed_text (value_get (snd gc) ''claude_model'');
          responsesModel = trimmed_text (value_get (snd gc) ''responses_model'')
      in if normalizedGroup = [] then Some EmptyGroupName
         else if \<not> plain_object (snd gc) then Some (GroupNotAnObject normalizedGroup)
         else if mode \<noteq> [] \<and> mode \<notin> set TOKEN_TEST_MODES then Some (UnknownMode normalizedGroup)
         else if mode = [] \<and> claudeModel = [] \<and> responsesModel = [] then Some (NothingConfigured normalizedGroup)
         else None)"

fun first_error :: "('a \<Rightarrow> 'e option) \<Rightarrow> 'a list \<Rightarrow> 'e option" where
  "first_error f [] = None"
| "first_error f (x # xs) = (case f x of Some e \<Rightarrow> Some e | None \<Rightarrow> first_error f xs)"

definition validateTokenTestGroupDefaults :: "jsval \<Rightarrow> defaults_error + (string \<times> jsval) list" where
  "validateTokenTestGroupDefaults rawDefaults =
     (case rawDefaults of
        JObj kvs \<Rightarrow>
          (case first_error check_group_defaults kvs of
             Some e \<Rightarrow> Inl e
           | None \<Rightarrow> Inr (normalizeTokenTestGroupDefaults rawDefaults))
      | _ \<Rightarrow> Inl NotAnObject)"

definition buildTokenTestPayload :: "storage \<Rightarrow> jsval \<Rightarrow> (string \<times> jsval) list" where
  "buildTokenTestPayload st config =
     (let normalized = normalizeTokenTestConfig st config
      in [(''mode'', JStr (tc_mode normalized)), (''max_tokens'', JNum (tc_max_tokens normalized))]
         @ (if tc_mode normalized = ''both'' \<or> tc_mode normalized = ''claude''
            then [(''claude_model'', JStr (tc_claude_model normalized))] else [])
         @ (if tc_mode normalized = ''both'' \<or> tc_mode normalized = ''responses''
            then [(''responses_model'', JStr (tc_responses_model normalized))] else []))"

section \<open>Well-formed configurations\<close>

definition test_config_ok :: "test_config \<Rightarrow> bool" where
  "test_config_ok c \<longleftrightarrow>
     tc_mode c \<in> set TOKEN_TEST_MODES
     \<and> tc_claude_model c \<noteq> [] \<and> trimmed (tc_claude_model c)
     \<and> tc_responses_model c \<noteq> [] \<and> trimmed (tc_responses_model c)
     \<and> is_finite_num (tc_max_tokens c) \<and> js_less (Fin 0) (tc_max_tokens c)"

lemma trimmed_trimmed_text [simp]: "trimmed (trimmed_text v)"
  by (simp add: trimmed_text_def)

lemma trimmed_text_same [simp]: "trimmed s \<Longrightarrow> trimmed_text (JStr s) = s"
  by (simp add: trimmed_text_def js_or_def trim_by_id)

lemma text_or_ok:
  "d \<noteq> [] \<Longrightarrow> trimmed d \<Longrightarrow> text_or v d \<noteq> [] \<and> trimmed (text_or v d)"
  by (simp add: text_or_def)

lemma default_models_ok [simp]:
  "DEFAULT_claude_model \<noteq> []" "trimmed DEFAULT_claude_model"
  "DEFAULT_responses_model \<noteq> []" "trimmed DEFAULT_responses_model"
  by code_simp+

lemma modes_trimmed: "m \<in> set TOKEN_TEST_MODES \<Longrightarrow> m \<noteq> [] \<and> trimmed m"
proof -
  have "list_all (\<lambda>m. m \<noteq> [] \<and> trimmed m) TOKEN_TEST_MODES" by code_simp
  then show "m \<in> set TOKEN_TEST_MODES \<Longrightarrow> m \<noteq> [] \<and> trimmed m" by (simp add: list_all_iff)
qed

lemma default_config_ok: "test_config_ok (getDefaultTokenTestConfig st)"
  by (auto simp: test_config_ok_def getDefaultTokenTestConfig_def getTokenTestDefaults_def Let_def
      TOKEN_TEST_MODES_def TOKEN_TEST_DEFAULT_MAX_TOKENS_def is_finite_num_def text_or_ok)

lemma normalized_config_ok: "test_config_ok (normalizeTokenTestConfig st config)"
  using default_config_ok [of st]
  by (auto simp: test_config_ok_def normalizeTokenTestConfig_def Let_def text_or_ok)
    (simp_all add: TOKEN_TEST_MODES_def)

lemma config_fields:
  "value_get (JObj (config_entries c)) ''mode'' = JStr (tc_mode c)"
  "value_get (JObj (config_entries c)) ''claude_model'' = JStr (tc_claude_model c)"
  "value_get (JObj (config_entries c)) ''responses_model'' = JStr (tc_responses_model c)"
  "value_get (JObj (config_entries c)) ''max_tokens'' = JNum (tc_max_tokens c)"
  by (simp_all add: config_entries_def value_get_def obj_get_def)

lemma ok_config_kept:
  assumes "test_config_ok c"
  shows "normalizeTokenTestConfig st (JObj (config_entries c)) = c"
  using assms modes_trimmed [of "tc_mode c"]
  by (cases c) (simp add: normalizeTokenTestConfig_def config_fields test_config_ok_def text_or_def
      number_of_value_def js_or_def trim_by_id)

section \<open>Which source decides a field\<close>

text \<open>The entries of the default group, of the group itself and of the user, in rising order.\<close>

definition config_layers :: "storage \<Rightarrow> jsval \<Rightarrow> jsval \<Rightarrow> (string \<times> jsval) list list" where
  "config_layers st groupName overrides =
     [own_entries (js_or overrides (JObj [])),
      (if trimmed_text groupName = [] then []
       else entries_at (getTokenTestDefaultsByGroup st) (trimmed_text groupName)),
      entries_at (getTokenTestDefaultsByGroup st) ''default'']"

fun first_entry :: "(string \<times> jsval) list list \<Rightarrow> string \<Rightarrow> jsval option" where
  "first_entry [] f = None"
| "first_entry (l # ls) f = (case map_of (rev l) f of Some v \<Rightarrow> Some v | None \<Rightarrow> first_entry ls f)"

lemma merged_field:
  "value_get (JObj (merged_test_config st g ov)) f =
     (case first_entry (config_layers st g ov) f of
        Some v \<Rightarrow> v
      | None \<Rightarrow> value_get (JObj (config_entries (getDefaultTokenTestConfig st))) f)"
  by (auto simp: merged_test_config_def config_layers_def Let_def value_get_def obj_get_spread
      split: option.splits)

lemma text_or_default: "trimmed d \<Longrightarrow> text_or (JStr d) d = d"
  by (simp add: text_or_def)

lemma resolved_claude_model:
  "tc_claude_model (resolveTokenTestConfig st g ov) =
     (let d = fst (getTokenTestDefaults st)
      in case first_entry (config_layers st g ov) ''claude_model'' of Some v \<Rightarrow> text_or v d | None \<Rightarrow> d)"
proof -
  have "trimmed (fst (getTokenTestDefaults st))"
    using default_config_ok [of st] by (simp add: test_config_ok_def getDefaultTokenTestConfig_def)
  then show ?thesis
    by (simp add: resolveTokenTestConfig_def normalizeTokenTestConfig_def Let_def merged_field config_fields
        getDefaultTokenTestConfig_def text_or_default split: option.splits)
qed

text \<open>
  A group whose defaults name only a mode does not fall back to the model of the group
  \<open>default\<close>: normalizing writes the missing model as an empty text, which hides that of the
  default group, and the built-in model is used.
\<close>

lemma blank_field_hides_default_group:
  "let st = setItem ''status'' (json_text (JObj [(''token_test_defaults_by_group'',
              JObj [(''default'', JObj [(''claude_model'', JStr ''c1'')]),
                    (''vip'', JObj [(''mode'', JStr ''claude'')])])])) Map.empty
   in tc_claude_model (resolveTokenTestConfig st (JStr ''free'') JUndef) = ''c1''
      \<and> tc_claude_model (resolveTokenTestConfig st (JStr ''vip'') JUndef) = DEFAULT_claude_model"
  by code_simp

section \<open>Validated defaults\<close>

lemma first_error_None: "first_error f xs = None \<longleftrightarrow> (\<forall>x \<in> set xs. f x = None)"
  by (induction xs) (auto split: option.splits)

lemma checked_group:
  assumes "check_group_defaults gc = None"
  shows "js_trim (fst gc) \<noteq> []" and "plain_object (snd gc)"
  using assms by (auto simp: check_group_defaults_def Let_def split: if_splits)

definition group_entry_ok :: "jsval \<Rightarrow> bool" where
  "group_entry_ok v \<longleftrightarrow>
     (\<exists>mode claude responses.
        v = JObj [(''mode'', JStr mode), (''claude_model'', JStr claude), (''responses_model'', JStr responses)]
        \<and> trimmed claude \<and> trimmed responses
        \<and> (mode = [] \<or> mode \<in> set TOKEN_TEST_MODES)
        \<and> (mode \<noteq> [] \<or> claude \<noteq> [] \<or> responses \<noteq> []))"

lemma checked_entry_ok: "check_group_defaults gc = None \<Longrightarrow> group_entry_ok (group_defaults_of (snd gc))"
  by (auto simp: check_group_defaults_def Let_def group_entry_ok_def group_defaults_of_def split: if_splits)

definition entries_ok :: "(string \<times> jsval) list \<Rightarrow> bool" where
  "entries_ok d \<longleftrightarrow> (\<forall>g v. obj_get d g = Some v \<longrightarrow> group_entry_ok v)"

lemma entries_ok_put: "entries_ok d \<Longrightarrow> group_entry_ok v \<Longrightarrow> entries_ok (obj_put g v d)"
  by (auto simp: entries_ok_def split: if_splits)

lemma added_defaults:
  assumes "\<forall>gc \<in> set kvs. check_group_defaults gc = None"
  shows "set (map fst (foldl add_group_defaults acc kvs)) = set (map fst acc) \<union> js_trim ` set (map fst kvs)"
    and "entries_ok acc \<Longrightarrow> entries_ok (foldl add_group_defaults acc kvs)"
proof -
  have "add_group_defaults a gc = obj_put (js_trim (fst gc)) (group_defaults_of (snd gc)) a"
    if "gc \<in> set kvs" for gc a
    using checked_group assms that by (simp add: add_group_defaults_def Let_def)
  then have e: "foldl add_group_defaults acc kvs
      = foldl (\<lambda>a gc. obj_put (js_trim (fst gc)) (group_defaults_of (snd gc)) a) acc kvs" for acc
    by (intro foldl_cong) auto
  show "set (map fst (foldl add_group_defaults acc kvs)) = set (map fst acc) \<union> js_trim ` set (map fst kvs)"
    unfolding e
  proof (induction kvs arbitrary: acc)
    case (Cons gc kvs)
    have "set (map fst (obj_put (js_trim (fst gc)) (group_defaults_of (snd gc)) acc))
        = insert (js_trim (fst gc)) (set (map fst acc))" by (rule keys_obj_put)
    then show ?case by (simp add: Cons del: set_map)
  qed simp
  show "entries_ok (foldl add_group_defaults acc kvs)" if "entries_ok acc"
    unfolding e using that assms
    by (induction kvs arbitrary: acc) (simp_all add: checked_entry_ok entries_ok_put)
qed

section \<open>Keys that are returned\<close>

lemma in_map_filter: "k \<in> set (List.map_filter f xs) \<longleftrightarrow> (\<exists>x \<in> set xs. f x = Some k)"
  by (induction xs) (auto simp: List.map_filter_simps split: option.splits)

lemma fulfilled_Some: "fulfilled r = Some k \<longleftrightarrow> r = Inr k \<and> truthy k"
  by (auto simp: fulfilled_def split: sum.splits if_splits)

lemma fetched_keys:
  assumes "k \<in> set (fetchTokenKeys response post)"
  obtains body items token where "response = Inr body" and "token_items (value_get body ''data'') = Some items"
    and "token \<in> set items" and "value_get token ''status'' = JNum (Fin 1)"
    and "fetchTokenKey post (value_get token ''id'') = Inr k" and "truthy k"
proof (cases response)
  case (Inr body)
  with assms show ?thesis
    by (cases "token_items (value_get body ''data'')")
      (auto simp: fetchTokenKeys_def in_map_filter fulfilled_Some active_tokens_def split: if_splits
        intro!: that [OF Inr])
qed (use assms in \<open>simp add: fetchTokenKeys_def\<close>)

section \<open>Properties\<close>

text \<open>
  C39: Every token test configuration is well formed, whatever the storage, the group and the
  user give: a known mode, nonempty trimmed models, a finite positive number of tokens;
  normalizing it again changes nothing; and the payload of a test carries exactly the models
  its mode tests.
\<close>

theorem token_test_config_typed:
  "test_config_ok (resolveTokenTestConfig st g ov)
   \<and> test_config_ok (normalizeTokenTestConfig st c)
   \<and> normalizeTokenTestConfig st (JObj (config_entries (normalizeTokenTestConfig st c)))
       = normalizeTokenTestConfig st c
   \<and> obj_get (buildTokenTestPayload st c) ''mode'' = Some (JStr (tc_mode (normalizeTokenTestConfig st c)))
   \<and> obj_get (buildTokenTestPayload st c) ''claude_model''
       = (if tc_mode (normalizeTokenTestConfig st c) = ''responses'' then None
          else Some (JStr (tc_claude_model (normalizeTokenTestConfig st c))))
   \<and> obj_get (buildTokenTestPayload st c) ''responses_model''
       = (if tc_mode (normalizeTokenTestConfig st c) = ''claude'' then None
          else Some (JStr (tc_responses_model (normalizeTokenTestConfig st c))))"
proof -
  have ok: "test_config_ok (normalizeTokenTestConfig st c)" for c by (rule normalized_config_ok)
  then have "tc_mode (normalizeTokenTestConfig st c) \<in> {''both'', ''claude'', ''responses''}"
    by (simp add: test_config_ok_def TOKEN_TEST_MODES_def)
  then show ?thesis
    using ok ok_config_kept [OF ok] unfolding resolveTokenTestConfig_def
    by (auto simp: buildTokenTestPayload_def Let_def obj_get_def)
qed

text \<open>
  Defaults that pass the validation are stored as they were meant: no group is dropped,
  groups are named by their trimmed name, and each has a known mode or none, and names at
  least one of mode and models.
\<close>

theorem validated_defaults_complete:
  assumes "validateTokenTestGroupDefaults raw = Inr d"
  shows "\<exists>kvs. raw = JObj kvs \<and> set (map fst d) = js_trim ` set (map fst kvs)
         \<and> (\<forall>g v. obj_get d g = Some v \<longrightarrow> g \<noteq> [] \<and> group_entry_ok v)"
proof -
  from assms obtain kvs where raw: "raw = JObj kvs" and ok: "\<forall>gc \<in> set kvs. check_group_defaults gc = None"
    and d: "d = foldl add_group_defaults [] kvs"
    by (auto simp: validateTokenTestGroupDefaults_def normalizeTokenTestGroupDefaults_def first_error_None
        split: jsval.splits option.splits)
  have keys: "set (map fst d) = js_trim ` set (map fst kvs)" using added_defaults(1) [OF ok, of "[]"] d by simp
  have "g \<noteq> []" if "obj_get d g = Some v" for g v
  proof -
    from that have "g \<in> set (map fst d)" by (force simp: obj_get_def dest: map_of_SomeD)
    with keys checked_group(1) ok show ?thesis by auto
  qed
  moreover have "entries_ok d" using added_defaults(2) [OF ok, of "[]"] d by (simp add: entries_ok_def)
  ultimately show ?thesis using raw keys unfolding entries_ok_def by blast
qed

lemma validated_defaults_complete_witness:
  "\<exists>d. validateTokenTestGroupDefaults (JObj [('' vip '', JObj [(''mode'', JStr ''claude'')])]) = Inr d
       \<and> set (map fst d) = {''vip''}"
proof -
  let ?raw = "JObj [('' vip '', JObj [(''mode'', JStr ''claude'')])]"
  let ?d = "[(''vip'', JObj [(''mode'', JStr ''claude''), (''claude_model'', JStr []), (''responses_model'', JStr [])])]"
  have v: "validateTokenTestGroupDefaults ?raw = Inr ?d" by code_simp
  have "js_trim '' vip '' = ''vip''" by code_simp
  with validated_defaults_complete [OF v] v show ?thesis by auto
qed

end
