(* ===== verification/Subscriptions.thy ===== *)
theory Subscriptions
  imports Currency IntegerText
begin

text \<open>
  What the console shows of subscription plans (\<open>web/src/helpers/subscriptionFormat.js\<close>): prices
  and discounts, duration, limits and remaining amounts, reset times, the badge of a plan.  A
  plan is the object of the server; the translation \<open>t\<close> maps a message, with the values filled
  into it, to its text; the clock is a parameter.
\<close>

section \<open>Messages\<close>

datatype (plugins only: code) sub_msg =
    TYear | TMonth | TWeek | TDay | THour | TCustom | TMinute | TSecond
  | TUntilNextDay string | TUntilDay jsnum string
  | TClaudeMonthly jsnum jsnum string
  | TUnlimitedTimes | TTimes | TNoReset | TWholeLimit string string
  | TPeriodicLimit string string string string
  | TUnlimitedQuota | TWholeQuota string string | TPeriodicQuota string string string
  | TAfterReset | TValidityMost | TWhenReset | TUsableTime
  | TPeriodTimes | TTotalTimes | TPeriodQuota | TTotalQuota
  | TDaily | TWeekly | TMonthly | TYearly
  | TFixedDaily string | TFixedWeekly string | TFixedMonthly string | TFixedYearly string
  | TRollDaily | TRollWeekly | TRollMonthly | TRollYearly | TRollCustom string | TRolling
  | TLifetimeLimit | TUnlimited | TResourceType | TByTimes | TByQuota | TResetRule | TValidity
  | TPeriodLimit | TLimitSuffix | TTotalTimesLimit | TTotal | TUnlimitedCount

type_synonym translator = "sub_msg \<Rightarrow> string"

section \<open>Fields of a plan\<close>

text \<open>\<open>Number(plan?.k || d)\<close>\<close>

definition num_field :: "jsval \<Rightarrow> string \<Rightarrow> rat \<Rightarrow> jsnum" where
  "num_field plan k d = number_of_value (js_or (value_get plan k) (JNum (Fin d)))"

definition isSubscriptionClaudePlan :: "jsval \<Rightarrow> bool" where
  "isSubscriptionClaudePlan plan \<longleftrightarrow>
     (let groups = (case value_get plan ''allowed_groups'' of JArr vs \<Rightarrow> vs | _ \<Rightarrow> []);
          parts = filter truthy ([value_get plan ''title'', value_get plan ''upgrade_group'',
                    value_get plan ''allowed_groups_json''] @ groups)
      in js_includes ''claude'' (js_lower (join '' '' (map text_of_value parts))))"

definition getSubscriptionResourceType :: "jsval \<Rightarrow> string" where
  "getSubscriptionResourceType plan =
     (if value_get plan ''resource_type'' = JStr ''request_count'' then ''request_count'' else ''quota'')"

definition getSubscriptionResetPeriodValue :: "jsval \<Rightarrow> jsval" where
  "getSubscriptionResetPeriodValue plan =
     js_or (js_or (value_get plan ''reset_period'') (value_get plan ''quota_reset_period'')) (JStr ''never'')"

definition getSubscriptionResetFixedClock :: "jsval \<Rightarrow> bool" where
  "getSubscriptionResetFixedClock plan \<longleftrightarrow>
     truthy (js_coalesce (js_coalesce (value_get plan ''reset_use_fixed_clock'')
       (value_get plan ''quota_reset_use_fixed_clock'')) (JBool False))"

definition getSubscriptionResetFixedSeconds :: "jsval \<Rightarrow> jsnum" where
  "getSubscriptionResetFixedSeconds plan =
     number_of_value (js_coalesce (js_coalesce (value_get plan ''reset_fixed_seconds'')
       (value_get plan ''quota_reset_fixed_seconds'')) (JNum (Fin 0)))"

definition getSubscriptionRequestCountPeriodLimit :: "jsval \<Rightarrow> jsnum" where
  "getSubscriptionRequestCountPeriodLimit plan =
     (if getSubscriptionResetPeriodValue plan = JStr ''never'' then Fin 0
      else num_field plan ''request_count_period_total'' 0)"

definition isSubscriptionResourcePeriodic :: "jsval \<Rightarrow> bool" where
  "isSubscriptionResourcePeriodic plan \<longleftrightarrow> getSubscriptionResetPeriodValue plan \<noteq> JStr ''never''"

definition isSubscriptionFixedDeadlineDayPlan :: "jsval \<Rightarrow> bool" where
  "isSubscriptionFixedDeadlineDayPlan plan \<longleftrightarrow>
     isSubscriptionClaudePlan plan
     \<and> text_of_value (js_or (value_get plan ''duration_unit'') (JStr [])) = ''day''
     \<and> js_less (Fin 0) (num_field plan ''duration_value'' 0)
     \<and> getSubscriptionResetPeriodValue plan = JStr ''never''
     \<and> getSubscriptionResetFixedClock plan
     \<and> js_less (Fin 0) (getSubscriptionResetFixedSeconds plan)"

section \<open>Times\<close>

definition pad2 :: "jsnum \<Rightarrow> string" where
  "pad2 x = pad_start 2 (CHR ''0'') (text_of_number x)"

definition formatSubscriptionResetFixedTime :: "jsval \<Rightarrow> string" where
  "formatSubscriptionResetFixedTime seconds =
     (let value = js_max (Fin 0) (js_min (number_of_value (js_or seconds (JNum (Fin 0)))) (Fin (24 * 3600 - 1)));
          hour = pad2 (js_floor (js_div value (Fin 3600)));
          minute = pad2 (js_floor (js_div (js_mod value (Fin 3600)) (Fin 60)));
          second = pad2 (js_mod value (Fin 60))
      in hour @ '':'' @ minute @ '':'' @ second)"

text \<open>\<open>Math.floor(seconds / unit)\<close> and the label of the unit.\<close>

definition in_units :: "translator \<Rightarrow> jsnum \<Rightarrow> rat \<Rightarrow> sub_msg \<Rightarrow> string" where
  "in_units t seconds unit m = text_of_number (js_floor (js_div seconds (Fin unit))) @ '' '' @ t m"

definition unit_labels :: "translator \<Rightarrow> (string \<times> string) list" where
  "unit_labels t =
     [(''year'', t TYear), (''month'', t TMonth), (''week'', t TWeek), (''day'', t TDay),
      (''hour'', t THour), (''custom'', t TCustom)]"

definition formatSubscriptionDuration :: "jsval \<Rightarrow> translator \<Rightarrow> string" where
  "formatSubscriptionDuration plan t =
     (let unit = js_or (value_get plan ''duration_unit'') (JStr ''month'');
          value = js_or (value_get plan ''duration_value'') (JNum (Fin 1));
          seconds = js_or (value_get plan ''custom_seconds'') (JNum (Fin 0));
          n = number_of_value seconds
      in if unit = JStr ''custom'' then
           (if js_le (Fin 86400) n then in_units t n 86400 TDay
            else if js_le (Fin 3600) n then in_units t n 3600 THour
            else text_of_value seconds @ '' '' @ t TSecond)
         else text_of_value value @ '' ''
              @ (case map_of (unit_labels t) (text_of_value unit) of
                   Some label \<Rightarrow> if label \<noteq> [] then label else text_of_value unit
                 | None \<Rightarrow> text_of_value unit))"

definition formatSubscriptionSellingDuration :: "jsval \<Rightarrow> translator \<Rightarrow> string" where
  "formatSubscriptionSellingDuration plan t =
     (if isSubscriptionFixedDeadlineDayPlan plan then
        let time = formatSubscriptionResetFixedTime (JNum (getSubscriptionResetFixedSeconds plan));
            days = num_field plan ''duration_value'' 1
        in if days = Fin 1 then t (TUntilNextDay time) else t (TUntilDay days time)
      else formatSubscriptionDuration plan t)"

definition reset_custom_seconds :: "jsval \<Rightarrow> jsval" where
  "reset_custom_seconds plan =
     js_coalesce (js_coalesce (value_get plan ''reset_custom_seconds'')
       (value_get plan ''quota_reset_custom_seconds'')) (JNum (Fin 0))"

definition formatSubscriptionResetPeriod :: "jsval \<Rightarrow> translator \<Rightarrow> string" where
  "formatSubscriptionResetPeriod plan t =
     (let period = getSubscriptionResetPeriodValue plan;
          seconds = number_of_value (reset_custom_seconds plan)
      in if period = JStr ''never'' then t TNoReset
         else if period = JStr ''daily'' then t TDaily
         else if period = JStr ''weekly'' then t TWeekly
         else if period = JStr ''monthly'' then t TMonthly
         else if period = JStr ''yearly'' then t TYearly
         else if period = JStr ''custom'' then
           (if js_le (Fin 86400) seconds then in_units t seconds 86400 TDay
            else if js_le (Fin 3600) seconds then in_units t seconds 3600 THour
            else if js_le (Fin 60) seconds then in_units t seconds 60 TMinute
            else text_of_number seconds @ '' '' @ t TSecond)
         else t TNoReset)"

definition whole_units :: "jsnum \<Rightarrow> rat \<Rightarrow> bool" where
  "whole_units value unit \<longleftrightarrow> js_le (Fin unit) value \<and> js_mod value (Fin unit) = Fin 0"

definition formatSubscriptionCustomSeconds :: "jsval \<Rightarrow> translator \<Rightarrow> string" where
  "formatSubscriptionCustomSeconds seconds t =
     (let value = number_of_value (js_or seconds (JNum (Fin 0)))
      in if whole_units value 86400 then in_units t value 86400 TDay
         else if whole_units value 3600 then in_units t value 3600 THour
         else if whole_units value 60 then in_units t value 60 TMinute
         else text_of_number value @ '' '' @ t TSecond)"

definition formatSubscriptionResetHint :: "jsval \<Rightarrow> translator \<Rightarrow> string" where
  "formatSubscriptionResetHint plan t =
     (let period = getSubscriptionResetPeriodValue plan;
          fixed = getSubscriptionResetFixedClock plan;
          time = formatSubscriptionResetFixedTime (JNum (getSubscriptionResetFixedSeconds plan))
      in if isSubscriptionFixedDeadlineDayPlan plan then t TNoReset
         else if period = JStr ''never'' then t TNoReset
         else if fixed \<and> period = JStr ''daily'' then t (TFixedDaily time)
         else if fixed \<and> period = JStr ''weekly'' then t (TFixedWeekly time)
         else if fixed \<and> period = JStr ''monthly'' then t (TFixedMonthly time)
         else if fixed \<and> period = JStr ''yearly'' then t (TFixedYearly time)
         else if period = JStr ''daily'' then t TRollDaily
         else if period = JStr ''weekly'' then t TRollWeekly
         else if period = JStr ''monthly'' then t TRollMonthly
         else if period = JStr ''yearly'' then t TRollYearly
         else if period = JStr ''custom''
         then t (TRollCustom (formatSubscriptionCustomSeconds (reset_custom_seconds plan) t))
         else formatSubscriptionResetPeriod plan t @ '' '' @ t TRolling)"

section \<open>Prices\<close>

definition isSubscriptionDiscountActive :: "jsval \<Rightarrow> jsnum \<Rightarrow> bool" where
  "isSubscriptionDiscountActive plan now \<longleftrightarrow>
     (case value_get plan ''has_active_discount'' of
        JBool b \<Rightarrow> b
      | _ \<Rightarrow>
          let original = num_field plan ''price_amount'' 0;
              discount = num_field plan ''discount_price_amount'' 0;
              deadline = num_field plan ''discount_deadline'' 0
          in js_less (Fin 0) discount \<and> js_less (Fin 0) original \<and> js_less discount original
             \<and> js_less now deadline)"

definition getSubscriptionEffectivePrice :: "jsval \<Rightarrow> jsnum \<Rightarrow> jsnum" where
  "getSubscriptionEffectivePrice plan now =
     (if \<not> is_nullish (value_get plan ''effective_price_amount'')
      then num_field plan ''effective_price_amount'' 0
      else if isSubscriptionDiscountActive plan now then num_field plan ''discount_price_amount'' 0
      else num_field plan ''price_amount'' 0)"

text \<open>\<open>Number(v || d) || d\<close>\<close>

definition rate_or :: "jsval \<Rightarrow> rat \<Rightarrow> jsnum" where
  "rate_or v d =
     (let n = number_of_value (js_or v (JNum (Fin d))) in if n = NaN \<or> n = Fin 0 then Fin d else n)"

definition upper_text :: "jsval \<Rightarrow> string" where
  "upper_text v = js_upper (text_of_value (js_or v (JStr ''USD'')))"

definition convertSubscriptionPrice :: "jsnum \<Rightarrow> jsval \<Rightarrow> jsval \<Rightarrow> jsval \<Rightarrow> jsval \<Rightarrow> jsnum" where
  "convertSubscriptionPrice amount sourceCurrency targetCurrency usdRate customRate0 =
     (let value = number_of_value (js_or (JNum amount) (JNum (Fin 0)));
          source = upper_text sourceCurrency;
          target = upper_text targetCurrency;
          usdExchangeRate = rate_or usdRate 7;
          customRate = rate_or customRate0 1;
          usdValue = (if source = ''CNY'' then js_div value usdExchangeRate
                      else if source = ''CUSTOM'' then js_div value customRate else value)
      in if source = target then value
         else if target = ''CNY'' then js_mul usdValue usdExchangeRate
         else if target = ''CUSTOM'' then js_mul usdValue customRate
         else usdValue)"

definition getSubscriptionCurrencyStatus :: "storage \<Rightarrow> jsval" where
  "getSubscriptionCurrencyStatus st =
     (let raw = (case getItem st ''status'' of None \<Rightarrow> ''{}'' | Some s \<Rightarrow> if s = [] then ''{}'' else s)
      in case json_parse raw of Inl _ \<Rightarrow> JObj [] | Inr v \<Rightarrow> v)"

record price_display =
  pd_symbol :: jsval
  pd_currency :: string
  pd_effectivePrice :: jsnum
  pd_originalPrice :: jsnum

definition getSubscriptionPriceDisplay :: "storage \<Rightarrow> jsnum \<Rightarrow> jsval \<Rightarrow> price_display" where
  "getSubscriptionPriceDisplay st now plan =
     (let displayConfig = getCurrencyConfig st;
          status = getSubscriptionCurrencyStatus st;
          sourceCurrency = JStr (upper_text (value_get plan ''currency''));
          displayCurrency = (if cc_type displayConfig = [] then ''USD'' else cc_type displayConfig);
          symbol = (if displayCurrency = ''CNY'' then yen
                    else if displayCurrency = ''CUSTOM''
                    then js_or (js_or (value_get status ''custom_currency_symbol'') (cc_symbol displayConfig)) currency_sign
                    else JStr ''$'');
          usdExchangeRate = js_or (value_get status ''usd_exchange_rate'') (JNum (Fin 7));
          customRate = js_or (value_get status ''custom_currency_exchange_rate'') (JNum (Fin 1));
          convert = (\<lambda>amount. convertSubscriptionPrice amount sourceCurrency (JStr displayCurrency)
                                usdExchangeRate customRate)
      in \<lparr>pd_symbol = symbol, pd_currency = displayCurrency,
          pd_effectivePrice = convert (getSubscriptionEffectivePrice plan now),
          pd_originalPrice = convert (num_field plan ''price_amount'' 0)\<rparr>)"

definition formatSubscriptionSettlementPrice :: "jsval \<Rightarrow> string" where
  "formatSubscriptionSettlementPrice amount = to_fixed 2 (number_of_value (js_or amount (JNum (Fin 0))))"

definition formatSubscriptionComputedPrice :: "jsval \<Rightarrow> string" where
  "formatSubscriptionComputedPrice amount = to_fixed 4 (number_of_value (js_or amount (JNum (Fin 0))))"

definition formatSubscriptionAdminPrice :: "jsval \<Rightarrow> string" where
  "formatSubscriptionAdminPrice amount = to_fixed 4 (number_of_value (js_or amount (JNum (Fin 0))))"

definition dayMap :: "(string \<times> jsnum) list" where
  "dayMap = [(''year'', Fin 365), (''month'', Fin 30), (''week'', Fin 7), (''day'', Fin 1), (''hour'', fl (1/24))]"

definition getSubscriptionDurationDays :: "jsval \<Rightarrow> jsnum" where
  "getSubscriptionDurationDays plan =
     (let unit = text_of_value (js_or (value_get plan ''duration_unit'') (JStr ''month''));
          value = num_field plan ''duration_value'' 1;
          seconds = num_field plan ''custom_seconds'' 0
      in if unit = ''custom'' then (if js_less (Fin 0) seconds then js_div seconds (Fin 86400) else Fin 0)
         else if js_le value (Fin 0) then Fin 0
         else js_mul value (case map_of dayMap unit of Some d \<Rightarrow> d | None \<Rightarrow> Fin 0))"

record daily_display = price_display +
  dd_durationDays :: jsnum
  dd_dailyPrice :: jsnum
  dd_displayDailyPrice :: string
  dd_displayEffectivePrice :: string
  dd_displayOriginalPrice :: string

definition getSubscriptionDailyPriceDisplay :: "storage \<Rightarrow> jsnum \<Rightarrow> jsval \<Rightarrow> daily_display option" where
  "getSubscriptionDailyPriceDisplay st now plan =
     (let pd = getSubscriptionPriceDisplay st now plan;
          durationDays = getSubscriptionDurationDays plan;
          dailyPrice = js_div (pd_effectivePrice pd) durationDays
      in if js_le durationDays (Fin 0) \<or> js_le (pd_effectivePrice pd) (Fin 0) then None
         else Some (price_display.extend pd (daily_display.fields durationDays dailyPrice
                (formatSubscriptionComputedPrice (JNum dailyPrice))
                (formatSubscriptionSettlementPrice (JNum (pd_effectivePrice pd)))
                (formatSubscriptionSettlementPrice (JNum (pd_originalPrice pd))))))"

section \<open>Limits and use\<close>

record period_usage =
  pu_total :: jsnum
  pu_used :: jsnum
  pu_remain :: jsnum
  pu_unlimited :: bool

record usage_summary =
  us_resourceType :: string
  us_total :: jsnum
  us_used :: jsnum
  us_remain :: jsnum
  us_unlimited :: bool
  us_period :: "period_usage option"

definition remaining :: "jsnum \<Rightarrow> jsnum \<Rightarrow> jsnum" where
  "remaining limit used = (if js_less (Fin 0) limit then js_max (Fin 0) (js_sub limit used) else Fin 0)"

definition getSubscriptionUsageSummary :: "jsval \<Rightarrow> usage_summary" where
  "getSubscriptionUsageSummary plan =
     (let resourceType = getSubscriptionResourceType plan
      in if resourceType = ''request_count'' then
           let total = num_field plan ''request_count_total'' 0;
               used = num_field plan ''request_count_used'' 0;
               periodTotal = getSubscriptionRequestCountPeriodLimit plan;
               periodUsed = num_field plan ''request_count_period_used'' 0
           in \<lparr>us_resourceType = resourceType, us_total = total, us_used = used,
               us_remain = remaining total used, us_unlimited = js_le total (Fin 0),
               us_period = Some \<lparr>pu_total = periodTotal, pu_used = periodUsed,
                 pu_remain = remaining periodTotal periodUsed, pu_unlimited = js_le periodTotal (Fin 0)\<rparr>\<rparr>
         else
           let total = number_of_value (js_coalesce (js_coalesce (value_get plan ''amount_total'')
                         (value_get plan ''total_amount'')) (JNum (Fin 0)));
               used = number_of_value (js_coalesce (value_get plan ''amount_used'') (JNum (Fin 0)))
           in \<lparr>us_resourceType = resourceType, us_total = total, us_used = used,
               us_remain = remaining total used, us_unlimited = js_le total (Fin 0), us_period = None\<rparr>)"

record sale_summary =
  ss_saleLimitCount :: jsnum
  ss_soldCount :: jsnum
  ss_remainingSaleCount :: jsnum
  ss_soldOut :: bool
  ss_unlimited :: bool

definition getSubscriptionSaleSummary :: "jsval \<Rightarrow> sale_summary" where
  "getSubscriptionSaleSummary plan =
     (let saleLimitCount = num_field plan ''sale_limit_count'' 0;
          soldCount = num_field plan ''sold_count'' 0;
          left = (if \<not> is_nullish (value_get plan ''remaining_sale_count'')
                  then number_of_value (value_get plan ''remaining_sale_count'')
                  else js_sub saleLimitCount soldCount)
      in \<lparr>ss_saleLimitCount = saleLimitCount, ss_soldCount = soldCount,
          ss_remainingSaleCount = (if js_less (Fin 0) saleLimitCount then js_max (Fin 0) left else Fin 0),
          ss_soldOut = (case value_get plan ''sold_out'' of
              JBool b \<Rightarrow> b
            | _ \<Rightarrow> js_less (Fin 0) saleLimitCount \<and> js_le saleLimitCount soldCount),
          ss_unlimited = js_le saleLimitCount (Fin 0)\<rparr>)"

record per_request_display = price_display +
  pr_perRequestPrice :: jsnum
  pr_displayPerRequestPrice :: string

definition getSubscriptionPerRequestPriceDisplay ::
    "storage \<Rightarrow> jsnum \<Rightarrow> jsval \<Rightarrow> per_request_display option" where
  "getSubscriptionPerRequestPriceDisplay st now plan =
     (let pd = getSubscriptionPriceDisplay st now plan;
          usageSummary = getSubscriptionUsageSummary plan;
          or0 = (\<lambda>x. number_of_value (js_or (JNum x) (JNum (Fin 0))));
          perRequestPrice = js_div (pd_effectivePrice pd) (us_total usageSummary)
      in if us_resourceType usageSummary \<noteq> ''request_count'' \<or> us_unlimited usageSummary
            \<or> js_le (or0 (us_total usageSummary)) (Fin 0) \<or> js_le (or0 (pd_effectivePrice pd)) (Fin 0)
         then None
         else Some (price_display.extend pd (per_request_display.fields perRequestPrice
                (formatSubscriptionComputedPrice (JNum perRequestPrice)))))"

section \<open>Texts of a plan\<close>

definition isClaudeMonthlySubscriptionPlan :: "jsval \<Rightarrow> bool" where
  "isClaudeMonthlySubscriptionPlan plan \<longleftrightarrow>
     isSubscriptionClaudePlan plan
     \<and> text_of_value (js_or (value_get plan ''duration_unit'') (JStr ''month'')) = ''month''"

definition getClaudeMonthlyMarketingSubtitle :: "storage \<Rightarrow> jsnum \<Rightarrow> jsval \<Rightarrow> translator \<Rightarrow> string" where
  "getClaudeMonthlyMarketingSubtitle st now plan t =
     (let pd = getSubscriptionPriceDisplay st now plan;
          usageSummary = getSubscriptionUsageSummary plan;
          periodTotal = getSubscriptionRequestCountPeriodLimit plan;
          pricePerRequest = (if js_less (Fin 0) (us_total usageSummary)
            then js_div (number_of_value (js_or (JNum (pd_effectivePrice pd)) (JNum (Fin 0)))) (us_total usageSummary)
            else Fin 0)
      in if \<not> isClaudeMonthlySubscriptionPlan plan then []
         else if getSubscriptionResetPeriodValue plan = JStr ''daily'' \<and> js_less (Fin 0) periodTotal
                 \<and> js_less (Fin 0) (us_total usageSummary) \<and> js_less (Fin 0) pricePerRequest
         then t (TClaudeMonthly periodTotal (us_total usageSummary)
                  (text_of_value (pd_symbol pd) @ to_fixed 4 pricePerRequest))
         else [])"

definition times_text :: "translator \<Rightarrow> jsnum \<Rightarrow> string" where
  "times_text t n = text_of_number n @ '' '' @ t TTimes"

text \<open>The limits of a period, which only a plan of requests has; elsewhere they are
  \<open>undefined\<close>: not unlimited, and not a number.\<close>

definition period_of :: "usage_summary \<Rightarrow> bool \<times> jsnum" where
  "period_of us = (case us_period us of None \<Rightarrow> (False, NaN) | Some p \<Rightarrow> (pu_unlimited p, pu_total p))"

definition getSubscriptionMarketingSubtitle :: "storage \<Rightarrow> jsval \<Rightarrow> translator \<Rightarrow> string" where
  "getSubscriptionMarketingSubtitle st plan t =
     (let us = getSubscriptionUsageSummary plan;
          durationText = formatSubscriptionSellingDuration plan t;
          resetPeriodText = formatSubscriptionResetPeriod plan t;
          (periodUnlimited, periodTotal) = period_of us;
          periodLimitText = (if periodUnlimited then t TUnlimitedTimes else times_text t periodTotal);
          totalLimitText = (if us_unlimited us then t TUnlimitedTimes else times_text t (us_total us));
          quotaText = (if us_unlimited us then t TUnlimitedQuota
                       else text_of_value (renderQuota st (JNum (us_total us)) 2))
      in if us_resourceType us = ''request_count'' then
           (if resetPeriodText = t TNoReset then t (TWholeLimit durationText totalLimitText)
            else t (TPeriodicLimit resetPeriodText periodLimitText durationText totalLimitText))
         else (if resetPeriodText = t TNoReset then t (TWholeQuota durationText quotaText)
               else t (TPeriodicQuota resetPeriodText quotaText durationText)))"

definition formatSubscriptionResourceLabel :: "jsval \<Rightarrow> translator \<Rightarrow> string" where
  "formatSubscriptionResourceLabel plan t =
     (if getSubscriptionResourceType plan = ''request_count''
      then (if isSubscriptionResourcePeriodic plan then t TPeriodTimes else t TTotalTimes)
      else (if isSubscriptionResourcePeriodic plan then t TPeriodQuota else t TTotalQuota))"

definition getSubscriptionRestrictionSummary :: "jsval \<Rightarrow> jsval list \<times> jsval list \<times> jsval list" where
  "getSubscriptionRestrictionSummary plan =
     (let arr = (\<lambda>k. case value_get plan k of JArr vs \<Rightarrow> vs | _ \<Rightarrow> [])
      in (arr ''allowed_groups'', arr ''allowed_models'', arr ''allowed_vendor_names''))"

record metric_item =
  mi_key :: string
  mi_label :: string
  mi_value :: string

definition metric :: "string \<Rightarrow> string \<Rightarrow> string \<Rightarrow> metric_item" where
  "metric key label value = \<lparr>mi_key = key, mi_label = label, mi_value = value\<rparr>"

definition limit_text :: "translator \<Rightarrow> jsnum \<Rightarrow> string" where
  "limit_text t n = (if js_less (Fin 0) n then times_text t n else t TUnlimited)"

definition getSubscriptionPlanMetricItems :: "storage \<Rightarrow> jsval \<Rightarrow> translator \<Rightarrow> metric_item list" where
  "getSubscriptionPlanMetricItems st plan t =
     (let durationItem = metric ''duration'' (t TValidity) (formatSubscriptionSellingDuration plan t);
          resetItem = metric ''reset_time'' (t TResetRule) (formatSubscriptionResetHint plan t);
          periodLimit = num_field plan ''request_count_period_total'' 0;
          totalLimit = num_field plan ''request_count_total'' 0;
          totalAmount = number_of_value (js_coalesce (js_coalesce (value_get plan ''total_amount'')
            (value_get plan ''amount_total'')) (JNum (Fin 0)))
      in if getSubscriptionResourceType plan = ''request_count'' then
           (if isSubscriptionFixedDeadlineDayPlan plan
            then [metric ''lifetime_limit'' (t TLifetimeLimit) (limit_text t totalLimit),
                  metric ''resource_type'' (t TResourceType) (t TByTimes), resetItem, durationItem]
            else [metric ''period_limit''
                    (if getSubscriptionResetPeriodValue plan = JStr ''never'' then t TPeriodLimit
                     else formatSubscriptionResetPeriod plan t @ t TLimitSuffix) (limit_text t periodLimit),
                  metric ''total_limit'' (t TTotalTimesLimit) (limit_text t totalLimit),
                  resetItem, durationItem])
         else [metric ''quota_limit'' (formatSubscriptionResourceLabel plan t)
                 (if js_less (Fin 0) totalAmount then text_of_value (renderQuota st (JNum totalAmount) 2)
                  else t TUnlimited),
               metric ''resource_type'' (t TResourceType) (t TByQuota), resetItem, durationItem])"

definition commerce_item :: "translator \<Rightarrow> usage_summary \<Rightarrow> metric_item \<Rightarrow> metric_item" where
  "commerce_item t us item =
     (if mi_key item = ''period_limit'' then item\<lparr>mi_label := t TAfterReset\<rparr>
      else if mi_key item = ''total_limit''
      then item\<lparr>mi_label := t TValidityMost,
                mi_value := (if us_unlimited us then t TUnlimitedTimes else times_text t (us_total us))\<rparr>
      else if mi_key item = ''reset_time'' then item\<lparr>mi_label := t TWhenReset\<rparr>
      else if mi_key item = ''duration'' then item\<lparr>mi_label := t TUsableTime\<rparr>
      else item)"

definition getSubscriptionPlanMetricItemsForCommerce :: "storage \<Rightarrow> jsval \<Rightarrow> translator \<Rightarrow> metric_item list" where
  "getSubscriptionPlanMetricItemsForCommerce st plan t =
     map (\<lambda>item. if getSubscriptionResourceType plan \<noteq> ''request_count'' then item
                 else commerce_item t (getSubscriptionUsageSummary plan) item)
       (getSubscriptionPlanMetricItems st plan t)"

text \<open>The parts are joined by a middle dot between spaces.\<close>

definition formatSubscriptionRequestBenefit :: "jsval \<Rightarrow> translator \<Rightarrow> string" where
  "formatSubscriptionRequestBenefit plan t =
     (let summary = getSubscriptionUsageSummary plan;
          (periodUnlimited, periodTotal) = period_of summary;
          parts = (if periodUnlimited then []
                   else [formatSubscriptionResetPeriod plan t @ '' '' @ times_text t periodTotal])
               @ (if us_unlimited summary then [] else [t TTotal @ '' '' @ times_text t (us_total summary)])
      in if us_resourceType summary \<noteq> ''request_count'' then []
         else if parts = [] then t TUnlimitedCount
         else join ('' '' @ [CHR 0xB7] @ '' '') parts)"

section \<open>The badge of a plan\<close>

datatype badge = Recommended | BestValue | Starter

definition plan_id :: "jsval \<Rightarrow> jsnum" where
  "plan_id plan = num_field plan ''id'' 0"

text \<open>\<open>Number(getSubscriptionEffectivePrice(p) || 0)\<close>, which is never \<open>NaN\<close>.\<close>

definition sort_price :: "jsnum \<Rightarrow> jsval \<Rightarrow> jsnum" where
  "sort_price now p = number_of_value (js_or (JNum (getSubscriptionEffectivePrice p now)) (JNum (Fin 0)))"

definition offered_plans :: "jsval list \<Rightarrow> jsval list" where
  "offered_plans plans =
     filter (\<lambda>item. truthy item \<and> js_less (Fin 0) (plan_id item) \<and> value_get item ''enabled'' \<noteq> JBool False)
       (map (\<lambda>item. js_or (value_get item ''plan'') item) plans)"

text \<open>The comparator: by price, then by identity.  A difference of two doubles has the sign of
  their comparison, so it is written as one.\<close>

definition price_le :: "jsnum \<Rightarrow> jsval \<Rightarrow> jsval \<Rightarrow> bool" where
  "price_le now left right \<longleftrightarrow>
     (if sort_price now left \<noteq> sort_price now right then \<not> js_less (sort_price now right) (sort_price now left)
      else \<not> js_less (plan_id right) (plan_id left))"

definition per_request_price :: "storage \<Rightarrow> jsnum \<Rightarrow> jsval \<Rightarrow> jsnum" where
  "per_request_price st now item =
     (case getSubscriptionPerRequestPriceDisplay st now item of
        None \<Rightarrow> Fin 0
      | Some d \<Rightarrow> if pr_perRequestPrice d = NaN then Fin 0 else pr_perRequestPrice d)"

definition value_le :: "storage \<Rightarrow> jsnum \<Rightarrow> jsval \<Rightarrow> jsval \<Rightarrow> bool" where
  "value_le st now left right \<longleftrightarrow> \<not> js_less (per_request_price st now right) (per_request_price st now left)"

definition getSubscriptionCommerceBadge :: "storage \<Rightarrow> jsnum \<Rightarrow> jsval \<Rightarrow> jsval list \<Rightarrow> badge option" where
  "getSubscriptionCommerceBadge st now plan plans =
     (let normalizedPlans = offered_plans plans;
          currentPlanId = plan_id plan;
          priceSortedPlans = sort_by (price_le now) normalizedPlans;
          isCurrent = (\<lambda>p. plan_id p = currentPlanId \<and> currentPlanId \<noteq> NaN);
          perRequestPlans = sort_by (value_le st now)
            (filter (\<lambda>p. js_less (Fin 0) (per_request_price st now p)) normalizedPlans)
      in if \<not> truthy (JNum currentPlanId) \<or> normalizedPlans = [] then None
         else if 3 \<le> length priceSortedPlans \<and> isCurrent (priceSortedPlans ! (length priceSortedPlans div 2))
         then Some Recommended
         else if perRequestPlans \<noteq> [] \<and> isCurrent (hd perRequestPlans) \<and> \<not> isCurrent (hd priceSortedPlans)
         then Some BestValue
         else if isCurrent (hd priceSortedPlans) then Some Starter
         else None)"

section \<open>Times of day\<close>

definition two_digits :: "int \<Rightarrow> string" where
  "two_digits k = [digit_char (nat (k div 10)), digit_char (nat (k mod 10))]"

lemma pad2_digits:
  assumes "0 \<le> k" "k < 60"
  shows "pad2 (Fin (of_int k)) = two_digits k"
proof (cases "k < 10")
  case True
  with assms show ?thesis
    using show_int_small [of k] text_of_int [of k]
    by (simp add: pad2_def pad_start_def two_digits_def) (simp add: digit_char_def)
next
  case False
  with assms show ?thesis
    using show_int_two [of k] text_of_int [of k] by (simp add: pad2_def pad_start_def two_digits_def)
qed

lemma js_mod_int:
  assumes "0 \<le> v" and "0 < c"
  shows "js_mod (Fin (of_int v)) (Fin (of_int c)) = Fin (of_int (v mod c))"
proof -
  have "\<lfloor>(of_int v :: rat) / of_int c\<rfloor> = v div c" by (rule floor_divide_of_int_eq)
  moreover have "(of_int v :: rat) - of_int c * of_int (v div c) = of_int (v mod c)"
    by (simp only: minus_mult_div_eq_mod flip: of_int_mult of_int_diff)
  ultimately show ?thesis using assms by simp
qed

lemma clamp_int:
  "js_max (Fin 0) (js_min (number_of_value (js_or (JNum (Fin (of_int n))) (JNum (Fin 0)))) (Fin (24 * 3600 - 1)))
     = Fin (of_int (max 0 (min n 86399)))"
proof -
  have "number_of_value (js_or (JNum (Fin (of_int n))) (JNum (Fin 0))) = Fin (of_int n)"
    by (simp add: js_or_def number_of_value_def)
  moreover have "(of_int n :: rat) < 86399 \<longleftrightarrow> n < 86399" "(0::rat) < of_int n \<longleftrightarrow> 0 < n" by simp_all
  ultimately show ?thesis by (simp add: js_max_def js_min_def max_def min_def)
qed

lemma fixed_time_digits:
  assumes v: "v = max 0 (min n 86399)"
  shows "formatSubscriptionResetFixedTime (JNum (Fin (of_int n)))
     = two_digits (v div 3600) @ '':'' @ two_digits (v mod 3600 div 60) @ '':'' @ two_digits (v mod 60)"
proof -
  have r: "0 \<le> v" "v < 86400" by (simp_all add: v)
  have h: "js_floor (js_div (Fin (of_int v)) (Fin 3600)) = Fin (of_int (v div 3600))"
    using floor_quotient [of v 3600] r by simp
  have m0: "js_mod (Fin (of_int v)) (Fin 3600) = Fin (of_int (v mod 3600))"
    and s: "js_mod (Fin (of_int v)) (Fin 60) = Fin (of_int (v mod 60))"
    using js_mod_int [of v 3600] js_mod_int [of v 60] r by simp_all
  have m: "js_floor (js_div (Fin (of_int (v mod 3600))) (Fin 60)) = Fin (of_int (v mod 3600 div 60))"
    using floor_quotient [of "v mod 3600" 60] by (simp add: order.strict_trans [OF pos_mod_bound])
  have "0 \<le> v div 3600" "v div 3600 < 60" "0 \<le> v mod 3600 div 60" "v mod 3600 div 60 < 60"
    using r by (simp_all add: div_less_iff_less_mult pos_imp_zdiv_nonneg_iff)
  then show ?thesis
    unfolding formatSubscriptionResetFixedTime_def Let_def clamp_int v [symmetric] h m0 m s
    by (simp add: pad2_digits)
qed

section \<open>Counts\<close>

lemma fl_of_difference:
  assumes "0 \<le> a" "a < 2 ^ 53" "0 \<le> b" "b < 2 ^ 53"
  shows "js_sub (Fin (of_int a)) (Fin (of_int b)) = Fin (of_int (a - b))"
proof (cases "b \<le> a")
  case True
  then show ?thesis using fl_of_int [of "a - b"] assms by (simp add: js_sub_def)
next
  case False
  then have "fl (of_int (b - a)) = Fin (of_int (b - a))" using assms by (intro fl_of_int) simp_all
  then have "fl (- of_int (b - a)) = Fin (- of_int (b - a))" by (simp only: fl_neg js_neg.simps)
  then show ?thesis by (simp add: js_sub_def)
qed

lemma remaining_int:
  assumes "0 \<le> a" "a < 2 ^ 53" "0 \<le> b" "b < 2 ^ 53"
  shows "remaining (Fin (of_int a)) (Fin (of_int b)) = Fin (of_int (max 0 (a - b)))"
  using assms by (auto simp: remaining_def fl_of_difference js_max_def)

section \<open>Sorted plans\<close>

lemma not_less_trans: "\<not> js_less y x \<Longrightarrow> \<not> js_less z y \<Longrightarrow> y \<noteq> NaN \<Longrightarrow> \<not> js_less z x"
  by (cases x; cases y; cases z) auto

lemma not_less_antisym: "\<not> js_less y x \<Longrightarrow> \<not> js_less x y \<Longrightarrow> x \<noteq> NaN \<Longrightarrow> y \<noteq> NaN \<Longrightarrow> x = y"
  by (cases x; cases y) auto

lemma not_less_le: "\<not> js_less y x \<Longrightarrow> x \<noteq> NaN \<Longrightarrow> y \<noteq> NaN \<Longrightarrow> js_le x y"
  by (cases x; cases y) (auto simp: js_le_def js_num_eq_def)

lemma less_asym: "js_less x y \<Longrightarrow> \<not> js_less y x"
  by (cases x; cases y) auto

lemma sort_price_not_NaN [simp]: "sort_price now p \<noteq> NaN"
  by (auto simp: sort_price_def js_or_def number_of_value_def)

lemma per_request_price_not_NaN [simp]: "per_request_price st now p \<noteq> NaN"
  by (auto simp: per_request_price_def split: option.splits)

text \<open>The comparator with every identity a number, which is that of the code on offered plans.\<close>

definition num_id :: "jsval \<Rightarrow> jsnum" where
  "num_id p = (if plan_id p = NaN then Fin 0 else plan_id p)"

definition price_order_le :: "jsnum \<Rightarrow> jsval \<Rightarrow> jsval \<Rightarrow> bool" where
  "price_order_le now a b \<longleftrightarrow>
     (if sort_price now a \<noteq> sort_price now b then \<not> js_less (sort_price now b) (sort_price now a)
      else \<not> js_less (num_id b) (num_id a))"

interpretation price_order: comparator "price_order_le now" for now
proof unfold_locales
  show "price_order_le now a b \<or> price_order_le now b a" for a b
    using less_asym by (auto simp: price_order_le_def)
  fix a b c
  assume ab: "price_order_le now a b" and bc: "price_order_le now b c"
  have n: "num_id p \<noteq> NaN" for p by (simp add: num_id_def)
  let ?p = "sort_price now"
  show "price_order_le now a c"
  proof (cases "?p a = ?p b \<and> ?p b = ?p c")
    case True
    with ab bc n show ?thesis by (auto simp: price_order_le_def dest: not_less_trans)
  next
    case False
    have "\<not> js_less (?p b) (?p a)" "\<not> js_less (?p c) (?p b)"
      using ab bc less_asym by (auto simp: price_order_le_def split: if_splits)
    then have "\<not> js_less (?p c) (?p a)" by (rule not_less_trans [OF _ _ sort_price_not_NaN])
    moreover have "?p a \<noteq> ?p c"
      using False \<open>\<not> js_less (?p b) (?p a)\<close> \<open>\<not> js_less (?p c) (?p b)\<close>
      by (metis not_less_antisym sort_price_not_NaN)
    ultimately show ?thesis by (simp add: price_order_le_def)
  qed
qed

interpretation value_order: comparator "value_le st now" for st now
  using less_asym by unfold_locales (auto simp: value_le_def dest: not_less_trans)

lemma offered_id: "p \<in> set (offered_plans plans) \<Longrightarrow> plan_id p \<noteq> NaN"
  by (auto simp: offered_plans_def)

lemma offered_sorted: "sorted_wrt (price_order_le now) (sort_by (price_le now) (offered_plans plans))"
proof -
  have "sort_by (price_le now) (offered_plans plans) = sort_by (price_order_le now) (offered_plans plans)"
    by (rule sort_by_cong) (simp add: price_le_def price_order_le_def num_id_def offered_id)
  then show ?thesis by (simp add: price_order.sorted_sort_by)
qed

lemma price_order_le_price: "price_order_le now p q \<Longrightarrow> js_le (sort_price now p) (sort_price now q)"
  by (auto simp: price_order_le_def js_le_def js_num_eq_def split: if_splits
      dest: not_less_le [of "sort_price now q" "sort_price now p"])

lemma price_order_le_refl: "price_order_le now p p"
  using less_asym by (auto simp: price_order_le_def)

lemma length_filter_sort_by [simp]: "length (filter P (sort_by le xs)) = length (filter P xs)"
proof -
  have "length (filter P (insert_by le x xs)) = length (filter P (x # xs))" for x xs
    by (induction xs) auto
  then show ?thesis by (induction xs) auto
qed

lemma length_filter_mono: "(\<And>x. P x \<Longrightarrow> Q x) \<Longrightarrow> length (filter P xs) \<le> length (filter Q xs)"
  by (induction xs) auto

lemma sorted_counts:
  assumes "sorted_wrt le xs" and "i < length xs" and "\<And>x. le x x"
  shows "i < length (filter (\<lambda>x. le x (xs ! i)) xs)" and "length xs - i \<le> length (filter (\<lambda>x. le (xs ! i) x) xs)"
proof -
  have "list_all (\<lambda>x. le x (xs ! i)) (take (Suc i) xs)"
    using assms by (auto simp: list_all_length sorted_wrt_iff_nth_less less_Suc_eq)
  then have "length (filter (\<lambda>x. le x (xs ! i)) (take (Suc i) xs)) = Suc i"
    using assms(2) by (simp add: list_all_iff filter_id_conv)
  moreover have "length (filter P xs) = length (filter P (take (Suc i) xs)) + length (filter P (drop (Suc i) xs))" for P
    by (metis append_take_drop_id filter_append length_append)
  ultimately show "i < length (filter (\<lambda>x. le x (xs ! i)) xs)" by simp
  have "le (xs ! i) (xs ! (i + j))" if "i + j < length xs" for j
    using assms that by (cases "j = 0") (auto simp: sorted_wrt_iff_nth_less)
  then have "list_all (\<lambda>x. le (xs ! i) x) (drop i xs)" using assms(2) by (auto simp: list_all_length)
  then have "length (filter (\<lambda>x. le (xs ! i) x) (drop i xs)) = length xs - i"
    by (simp add: list_all_iff filter_id_conv)
  moreover have "length (filter P xs) = length (filter P (take i xs)) + length (filter P (drop i xs))" for P
    by (metis append_take_drop_id filter_append length_append)
  ultimately show "length xs - i \<le> length (filter (\<lambda>x. le (xs ! i) x) xs)" by simp
qed

lemma sorted_hd_least: "sorted_wrt le xs \<Longrightarrow> (\<And>x. le x x) \<Longrightarrow> q \<in> set xs \<Longrightarrow> le (hd xs) q"
  by (cases xs) auto

section \<open>Properties\<close>

text \<open>
  The shown reset time is a time of day: for every whole number of seconds the text has the
  form \<open>HH:MM:SS\<close> with hours below 24, minutes and seconds below 60, and denotes the seconds
  cut off to one day; the rounding of the quotients never shifts a unit.
\<close>

theorem reset_time_of_day:
  "\<exists>h m s. 0 \<le> h \<and> h < 24 \<and> 0 \<le> m \<and> m < 60 \<and> 0 \<le> s \<and> s < 60
     \<and> 3600 * h + 60 * m + s = max 0 (min n 86399)
     \<and> formatSubscriptionResetFixedTime (JNum (Fin (of_int n)))
         = two_digits h @ '':'' @ two_digits m @ '':'' @ two_digits s"
proof -
  define v where "v = max 0 (min n 86399)"
  have r: "0 \<le> v" "v < 86400" by (simp_all add: v_def)
  have "v mod 60 = v mod 3600 mod 60" by (simp add: mod_mod_cancel)
  then have "3600 * (v div 3600) + 60 * (v mod 3600 div 60) + v mod 60 = v"
    using mult_div_mod_eq [of 3600 v] mult_div_mod_eq [of 60 "v mod 3600"] by linarith
  moreover have "0 \<le> v div 3600" "v div 3600 < 24" "0 \<le> v mod 3600 div 60" "v mod 3600 div 60 < 60"
    using r by (simp_all add: div_less_iff_less_mult pos_imp_zdiv_nonneg_iff)
  moreover have "0 \<le> v mod 60" "v mod 60 < 60" by simp_all
  moreover note fixed_time_digits [OF v_def]
  ultimately show ?thesis unfolding v_def [symmetric] by blast
qed

text \<open>
  Remaining amounts are exact: for whole numbers below \<open>2^53\<close> what remains of a limit is
  the difference, never negative and never above the limit; and a plan whose sold state and
  remaining count are computed by the console is sold out exactly when none of a positive
  limit remains.
\<close>

theorem remaining_counts:
  assumes "0 \<le> a" "a < 2 ^ 53" "0 \<le> b" "b < 2 ^ 53"
  shows "remaining (Fin (of_int a)) (Fin (of_int b)) = Fin (of_int (max 0 (a - b)))
    \<and> max 0 (a - b) \<le> a
    \<and> (let sale = getSubscriptionSaleSummary (JObj [(''sale_limit_count'', JNum (Fin (of_int a))),
                    (''sold_count'', JNum (Fin (of_int b)))])
       in ss_remainingSaleCount sale = Fin (of_int (max 0 (a - b)))
          \<and> (ss_soldOut sale \<longleftrightarrow> \<not> ss_unlimited sale \<and> ss_remainingSaleCount sale = Fin 0))"
proof -
  have f: "num_field (JObj [(''sale_limit_count'', JNum (Fin (of_int a))), (''sold_count'', JNum (Fin (of_int b)))])
      ''sale_limit_count'' 0 = Fin (of_int a)"
    "num_field (JObj [(''sale_limit_count'', JNum (Fin (of_int a))), (''sold_count'', JNum (Fin (of_int b)))])
      ''sold_count'' 0 = Fin (of_int b)"
    by (simp_all add: num_field_def value_get_def obj_get_def js_or_def number_of_value_def)
  have g: "value_get (JObj [(''sale_limit_count'', x), (''sold_count'', y)]) ''remaining_sale_count'' = JUndef"
    "value_get (JObj [(''sale_limit_count'', x), (''sold_count'', y)]) ''sold_out'' = JUndef" for x y
    by (simp_all add: value_get_def obj_get_def)
  show ?thesis
    unfolding getSubscriptionSaleSummary_def Let_def f g
    using assms remaining_int [OF assms] fl_of_difference [OF assms]
    by (auto simp: js_max_def)
qed

lemma remaining_counts_witness: "remaining (Fin (of_int 100)) (Fin (of_int 130)) = Fin (of_int (max 0 (100 - 130)))"
  using remaining_counts [of 100 130] by simp

text \<open>
  A badge says what it claims: \<open>Starter\<close> marks an offered plan no other undercuts,
  \<open>BestValue\<close> one with the least price per request, and \<open>Recommended\<close> the middle of at least
  three offered plans: more than half of them cost at most as much, and at least half cost
  at least as much.
\<close>

theorem badge_meaning:
  assumes "getSubscriptionCommerceBadge st now plan plans = Some b"
  shows "\<exists>p \<in> set (offered_plans plans). plan_id p = plan_id plan \<and>
    (case b of
       Starter \<Rightarrow> list_all (\<lambda>q. js_le (sort_price now p) (sort_price now q)) (offered_plans plans)
     | BestValue \<Rightarrow> js_less (Fin 0) (per_request_price st now p)
         \<and> list_all (\<lambda>q. js_less (Fin 0) (per_request_price st now q) \<longrightarrow>
                         js_le (per_request_price st now p) (per_request_price st now q)) (offered_plans plans)
     | Recommended \<Rightarrow> 3 \<le> length (offered_plans plans)
         \<and> length (offered_plans plans) div 2
             < length (filter (\<lambda>q. js_le (sort_price now q) (sort_price now p)) (offered_plans plans))
         \<and> length (offered_plans plans) - length (offered_plans plans) div 2
             \<le> length (filter (\<lambda>q. js_le (sort_price now p) (sort_price now q)) (offered_plans plans)))"
proof -
  let ?O = "offered_plans plans"
  let ?S = "sort_by (price_le now) ?O"
  let ?V = "sort_by (value_le st now) (filter (\<lambda>p. js_less (Fin 0) (per_request_price st now p)) ?O)"
  note sorted = offered_sorted [of now plans]
  have ne: "?O \<noteq> []" using assms by (auto simp: getSubscriptionCommerceBadge_def Let_def split: if_splits)
  then have S: "?S \<noteq> []" by (metis length_0_conv length_sort_by)
  consider (middle) "b = Recommended" "3 \<le> length ?S" "plan_id (?S ! (length ?S div 2)) = plan_id plan"
    | (best) "b = BestValue" "?V \<noteq> []" "plan_id (hd ?V) = plan_id plan"
    | (first) "b = Starter" "plan_id (hd ?S) = plan_id plan"
    using assms by (auto simp: getSubscriptionCommerceBadge_def Let_def split: if_splits)
  then show ?thesis
  proof cases
    case middle
    let ?i = "length ?O div 2"
    have i: "?i < length ?S" using middle(2) by simp
    then have "?S ! ?i \<in> set ?O" using nth_mem [OF i] by simp
    moreover have "length (filter (\<lambda>q. price_order_le now q (?S ! ?i)) ?O)
          \<le> length (filter (\<lambda>q. js_le (sort_price now q) (sort_price now (?S ! ?i))) ?O)"
      "length (filter (\<lambda>q. price_order_le now (?S ! ?i) q) ?O)
          \<le> length (filter (\<lambda>q. js_le (sort_price now (?S ! ?i)) (sort_price now q)) ?O)"
      using price_order_le_price by (blast intro: length_filter_mono)+
    moreover note sorted_counts [OF sorted i price_order_le_refl]
    ultimately show ?thesis using middle by (intro bexI [of _ "?S ! ?i"]) simp_all
  next
    case best
    have v: "hd ?V \<in> set (filter (\<lambda>p. js_less (Fin 0) (per_request_price st now p)) ?O)"
      using best(2) hd_in_set by (metis set_sort_by)
    have "value_le st now (hd ?V) q" if "q \<in> set ?O" "js_less (Fin 0) (per_request_price st now q)" for q
      using that less_asym
      by (intro sorted_hd_least [OF value_order.sorted_sort_by]) (auto simp: value_le_def)
    then show ?thesis
      using v best(1,3) by (intro bexI [of _ "hd ?V"]) (auto simp: list_all_iff value_le_def intro: not_less_le)
  next
    case first
    have "price_order_le now (hd ?S) q" if "q \<in> set ?O" for q
      using that by (intro sorted_hd_least [OF sorted price_order_le_refl]) simp
    moreover have "hd ?S \<in> set ?O" using hd_in_set [OF S] by simp
    ultimately show ?thesis
      using first by (intro bexI [of _ "hd ?S"]) (auto simp: list_all_iff intro: price_order_le_price)
  qed
qed

definition sample_plans :: "jsval list" where
  "sample_plans =
     map (\<lambda>(i, p). JObj [(''plan'', JObj [(''id'', JNum (Fin i)), (''price_amount'', JNum (Fin p))])])
       [(1, 30), (2, 10), (3, 20)]"

lemma badge_meaning_witness:
  "\<exists>p \<in> set (offered_plans sample_plans). plan_id p = Fin 2
     \<and> list_all (\<lambda>q. js_le (sort_price (Fin 0) p) (sort_price (Fin 0) q)) (offered_plans sample_plans)"
proof -
  let ?p = "JObj [(''id'', JNum (Fin 2))]"
  have b: "getSubscriptionCommerceBadge Map.empty (Fin 0) ?p sample_plans = Some Starter" by code_simp
  have "plan_id ?p = Fin 2" by code_simp
  with badge_meaning [OF b] show ?thesis by simp
qed

end
