(* ===== verification/Spec2Isabelle.thy ===== *)
theory Spec2Isabelle
  imports ParamOverrideSession PlaygroundCases PlaygroundData SidebarSettings MarketplacePage PricingProps SecureVerification StatusCodes EdgeProps Desktop Permissions TieredEditor GroupMetadata TokenConfig Subscriptions
begin

text \<open>
  \<^bold>\<open>Verification of the JavaScript parts of new-api\<close>

  The repository is an AI gateway: a server in Go, a web console (React, \<open>web/src\<close>), edge and
  serverless functions that put the console and the server behind one origin
  (\<open>web/functions\<close>, \<open>web/api\<close>) and a desktop application that runs the server
  (\<open>electron\<close>).  This development models the logic of the JavaScript parts and proves what
  makes it correct.  The Go server appears only as a parameter: the backend the proxies call
  and the replies the console receives.

  \<^bold>\<open>The language\<close>

  \<^item> \<open>JsText\<close>: strings (lists of Latin-1 code units), \<open>trim\<close>, \<open>split\<close>, \<open>join\<close>,
    \<open>startsWith\<close>, case folding, sorting; the collections \<open>text_simps\<close> and friends; the locale
    \<open>comparator\<close> of sorting by a total preorder, interpreted where code sorts.
  \<^item> \<open>JsNumber\<close>: numbers as rationals with \<open>NaN\<close> and the infinities, every result rounded to
    binary64 (\<open>fl\<close>); \<open>Number(s)\<close>, \<open>parseFloat\<close>, the shortest decimal text, \<open>toFixed\<close>.  The
    two zeros are identified.
  \<^item> \<open>FloatBounds\<close>: the error of a rounding is at most \<open>2^-53\<close> of the value, chains of up to four
    roundings, exactness on integers below \<open>2^53\<close>, integer quotients.
  \<^item> \<open>JsRegex\<close>: the backtracking of the regular expressions the sources use, as functions to
    the list of all matches in the order they are tried; the rounds of a repeated match end
    because every round consumes text.
  \<^item> \<open>JsValue\<close>: JSON values with \<open>undefined\<close>, coercions, plain objects in key order without a
    prototype; the locales \<open>js_dict\<close> (interpreted on objects here, on the browser storage in
    \<open>StoredData\<close>) and \<open>text_codec\<close> (string literals).
  \<^item> \<open>JsJson\<close>, \<open>JsonRoundtrip\<close>: \<open>JSON.parse\<close> and \<open>JSON.stringify\<close>.  The parser has fuel
    \<open>2 * length s + 2\<close>, which is enough (\<open>json_fuel_enough\<close>: whatever some fuel reads, that
    fuel reads); parsing undoes writing on every storable value (\<open>json_parse_text\<close>).
    \<open>JsonPretty\<close>: the same for the text with line breaks and indentation.
  \<^item> \<open>IntegerText\<close>: the text of an integer below \<open>10^15\<close> is its decimal digits, and JSON
    reads it back.
  \<^item> \<open>Machines\<close>: state machines as partial step functions on events, the inductive relation
    \<open>reached\<close>, runs of event lists, and the locale \<open>invariant_system\<close>, interpreted for the
    pricing editor, the tiered editor, the parameter override editor, the playground, the group
    store, the desktop application, its connection loop, the configuration cache, the side
    menus, the administrator's menu page, the pricing page and the verification hook.

  \<^bold>\<open>The program\<close>

  \<^item> Request rules of billing expressions
    (\<open>pages/Setting/Ratio/components/requestRuleExpr.js\<close>): \<open>RequestRules\<close> models the
    tokenless splitting at top-level \<open>*\<close> and \<open>&&\<close>, the condition grammar, the builder and the
    parser; \<open>RequestRulesProps\<close> the splitting lemmas (locale \<open>splitter\<close>, interpreted for both
    separators); \<open>RequestRoundtrip\<close> that parsing undoes building on canonical rules, that a
    combined expression comes apart again, that accepted rules are well formed.
  \<^item> Tiered prices (\<open>pages/Setting/Ratio/components/TieredPricingEditor.jsx\<close>,
    \<open>constants/billing.constants.js\<close>): \<open>TieredConfig\<close> models the visual configuration, the
    expression generated from it and the regular expressions that read it back;
    \<open>TieredRoundtrip\<close> shows that reading undoes generating and that accepted tiers regenerate
    the given text up to white space; \<open>TieredCombined\<close> that generated text comes apart from the
    rules it is combined with; \<open>TieredEditor\<close> the edits of tiers and rule groups, the two
    modes and the effects that store the expression, as an event machine.
  \<^item> The pricing editor (\<open>pages/Setting/Ratio/hooks/useModelPricingEditorState.js\<close>):
    \<open>PricingEditor\<close> models the pure functions (building a model from the option maps, its
    warnings, preview and serialization); \<open>PricingHook\<close> the state of the hook, each handler,
    and the save with its requests and replies; \<open>PricingProps\<close> shows what a save writes, when
    it is refused, that a price and a ratio are never saved together, and the invariant of
    the editor over all event sequences.
  \<^item> Parameter overrides of a channel
    (\<open>components/table/channels/modals/ParamOverrideEditorModal.jsx\<close>): \<open>ParamOverride\<close> models the
    data and the functions outside the component (reading operations, the drafts of structured
    values, the validation, the saved text); \<open>ParamOverrideProps\<close> shows what operations are
    after they were saved and opened again, \<open>ParamOverrideDrafts\<close> what a saved text
    guarantees, where a moved operation lands and which drafts survive;
    \<open>ParamOverrideEditor\<close> models the state, every handler, the effects and the library of
    templates, \<open>ParamOverrideMachine\<close> the event machine and its invariant handler by handler,
    \<open>ParamOverrideSession\<close> the properties of sessions.
  \<^item> The chat playground (\<open>hooks/playground/\<close>, \<open>components/playground/configStorage.js\<close>,
    \<open>pages/Playground/index.jsx\<close>, message functions of \<open>helpers/utils.jsx\<close> and
    \<open>helpers/api.js\<close>): \<open>ThinkTags\<close> models the search for tags and what a tagged answer is
    split into; \<open>PlaygroundMessages\<close> messages as objects, the request body, stored
    configuration and messages; \<open>Playground\<close> the state, the event streams and calls with
    their errors, stopping and opening the page; \<open>PlaygroundActions\<close> the handlers, the effects
    and the event machine; \<open>PlaygroundData\<close> the lists of models and groups.
    \<open>PlaygroundRuns\<close> shows that arriving answers change only the last message, that an answer
    is what its stream delivers, and what stopping leaves; \<open>PlaygroundSession\<close> the invariant
    of the page and what of settings and conversation survives a reload (\<open>json_form\<close>: what JSON keeps
    of a value), an unfinished answer included; \<open>PlaygroundCases\<close> concrete
    sessions, among them those the code does not handle.  An update of the messages that throws
    takes the page down (\<open>None\<close>); timers are tasks that fire in any order; events of the
    SSE library arrive in any order, except that a closed stream delivers no more data.
  \<^item> Status codes (\<open>helpers/statusCodeRules.js\<close>,
    \<open>components/table/channels/modals/statusCodeRiskGuard.js\<close>): \<open>StatusCodes\<close>; rules are
    parsed on UTF-16 code units because the code accepts full-width punctuation; merging is
    exact, the normal form is stable, new risky redirections are found exactly.
  \<^item> Proxies (\<open>functions/_utils/proxy.js\<close>, \<open>api/_utils/proxy.js\<close>, \<open>api/proxy.js\<close>,
    \<open>api/[...path].js\<close>, \<open>api/index.js\<close>, \<open>api/_utils/rate-limit-response.js\<close>): \<open>EdgeProxy\<close>
    with the URL parser, \<open>fetch\<close>, the clock and the configuration reply as arguments;
    \<open>EdgeProps\<close> shows that hop-by-hop headers are not forwarded, private responses are not
    marked as publicly cacheable, only admitted requests reach the backend, the cached
    configuration is bounded in time, the handlers always answer.
  \<^item> The desktop application (\<open>electron/main.js\<close>): \<open>Desktop\<close>, an event machine over the server
    process, windows, tray, dialogs and quitting, and the loop that waits for the server.
  \<^item> Stored data (\<open>helpers/data.js\<close>): \<open>StoredData\<close>; what is stored is read back.
  \<^item> Groups (\<open>helpers/group.js\<close>): \<open>GroupMetadata\<close>, the shared store of what is known of the user
    groups, its listeners and its one request; priming refines the update of an abstract map
    (\<open>abs_groups\<close>, \<open>spec_prime\<close>), over all interleavings of calls and replies.
  \<^item> Tokens (\<open>helpers/token.js\<close>): \<open>TokenConfig\<close>, the keys of the active tokens and the settings
    of the token test with their defaults, validation and payload.
  \<^item> Amounts (\<open>helpers/quota.js\<close> and the quota and currency functions of \<open>helpers/render.jsx\<close>):
    \<open>Currency\<close>; quotas below \<open>2^49\<close> survive the conversion to the shown currency and back.
  \<^item> Subscription plans (\<open>helpers/subscriptionFormat.js\<close>): \<open>Subscriptions\<close>; reset times are times
    of day, remaining amounts exact, badges mean what they say.
  \<^item> The side menu (\<open>hooks/common/useSidebar.js\<close>): \<open>Sidebar\<close> models the settings of the
    administrator and of the user, the defaults for missing sections, the combination of both
    and every mounted menu of the page with the event that reloads them; \<open>SidebarSettings\<close> the
    two pages that edit the settings (\<open>pages/Setting/Operation/SettingsSidebarModulesAdmin.jsx\<close>,
    \<open>components/settings/personal/cards/NotificationSettings.jsx\<close>).  A menu shows only what
    both allow, over all interleavings of loads; saved switches are what the menu then shows.
  \<^item> The pricing page (\<open>hooks/model-pricing/\<close>, \<open>helpers/utils.jsx\<close>,
    \<open>components/table/model-pricing/\<close>): \<open>Marketplace\<close> models the loaded lists, the filters and
    the numbers beside the filter entries; \<open>MarketplacePrices\<close> the shown prices;
    \<open>MarketplacePage\<close> the state of the page with its filters, selection and address.  The
    number beside an entry is the length of the list after choosing it; a price is that of the
    cheapest group; the address restores the filters.
  \<^item> Bytes as text (\<open>helpers/base64.js\<close>): \<open>Base64\<close> with \<open>btoa\<close>, \<open>atob\<close>, UTF-8 and
    \<open>encodeURIComponent\<close>; reading undoes writing.
  \<^item> Passkeys (\<open>helpers/passkey.js\<close>): \<open>Passkeys\<close>; buffers are lists of 8-bit words, and what
    the browser signs reaches the server unchanged.
  \<^item> Verification before sensitive calls (\<open>helpers/secureApiCall.js\<close>,
    \<open>services/secureVerification.js\<close>, \<open>hooks/common/useSecureVerification.jsx\<close>,
    \<open>components/common/modals/SecureVerificationModal.jsx\<close>): \<open>SecureVerification\<close>, an event
    machine over the pending calls and replies and the clicks the dialog allows.  A protected
    call is repeated only after an accepted verification of it, and the dialog never stays
    locked.
  \<^item> Permissions (\<open>constants/permission.constants.js\<close>, \<open>hooks/common/useUserPermissions.js\<close>):
    \<open>Permissions\<close>; the checks fail closed, the tables are consistent, a loaded permission
    survives a reload.

  \<^bold>\<open>Conventions\<close>

  A thrown error is \<open>Inl\<close>, or the outcome of the handler that catches it.  A \<open>record\<close> holds
  the state of a hook or of a module; a handler is a function on it.  Promises are
  flattened: an awaited reply is an argument and the code after it runs on the state at that
  point.  Texts of the interface are constructors, or fields of a record where the code stores
  them in messages (\<open>pg_env\<close>).  Loops are structural recursions, except
  the JSON parser (above), the removal of outer parentheses (recursion on the length) and the
  waiting loop of the desktop application, a machine over its requests and timers: 30 attempts are
  allowed, a timed-out one schedules two others, so that there are at most 59 attempts and 176 events.

  \<^bold>\<open>Not modelled\<close>

  React rendering and scheduling, translations, the HTTP client, what the browser answers about credentials, the
  generation of search engine texts, the billing articles of \<open>helpers/render.jsx\<close> (interface
  text), the tables of logs and the forms of channels (rendering and requests with little logic
  of their own), build configuration, the Go server; of the tiered
  editor the cost estimator, which evaluates the expression as program text.  Code units above
  255 occur only where the code tests for them (\<open>StatusCodes\<close>).
\<close>

end
